(* ===== verification/Prelude.thy ===== *)
theory Prelude
  imports Main "HOL-Library.Product_Lexorder" "HOL-Library.List_Lexorder" "HOL-Library.Char_ord"
    "HOL-Library.Code_Target_Numeral"
begin

text \<open>
  The shared vocabulary of the development.

  \<^item> Identifiers and time: a \<open>UUID\<close> is a natural number (PostgreSQL orders \<open>uuid\<close> values as
    128-bit unsigned numbers), an aware \<open>datetime\<close> is the number of microseconds since the
    epoch, so that \<open>timedelta(seconds=n)\<close> is \<open>n * 1000000\<close>.
  \<^item> Tables: a PostgreSQL table is the list of its rows. \<open>UPDATE .. WHERE\<close> is
    \<open>update_where\<close>, \<open>DELETE .. WHERE\<close> is \<open>delete_where\<close>, a \<open>fetch_one\<close> is \<open>fetch_one\<close>, and the
    lemmas below say what these keep of keys and rows. They are collected in
    \<open>table_simps\<close> and carry the invariant proofs of the components.
  \<^item> Results: a Python call that may raise is a value of \<open>'e + 'a\<close>; a transaction that raises
    is rolled back by \<open>unit_of_work\<close>.
  \<^item> Strings: Python's \<open>str\<close> is modelled by \<open>string\<close>, with the \<open>str\<close> methods the
    sources use. Case folding is ASCII case folding; text outside ASCII is not modelled.
\<close>

section \<open>Identifiers and time\<close>

type_synonym uuid = nat
type_synonym timestamp = int
type_synonym bytes = "nat list"

abbreviation seconds :: "int \<Rightarrow> int" where
  "seconds n \<equiv> n * 1000000"

section \<open>Collections of rewrite rules\<close>

named_theorems table_simps \<open>what the table operations keep of rows and keys\<close>
named_theorems inv_intros \<open>every operation keeps the invariant of its component\<close>

section \<open>Tables\<close>

definition update_where :: "('r \<Rightarrow> bool) \<Rightarrow> ('r \<Rightarrow> 'r) \<Rightarrow> 'r list \<Rightarrow> 'r list" where
  "update_where p f rows = map (\<lambda>r. if p r then f r else r) rows"

definition delete_where :: "('r \<Rightarrow> bool) \<Rightarrow> 'r list \<Rightarrow> 'r list" where
  "delete_where p rows = filter (\<lambda>r. \<not> p r) rows"

definition fetch_one :: "('r \<Rightarrow> bool) \<Rightarrow> 'r list \<Rightarrow> 'r option" where
  "fetch_one p rows = List.find p rows"

lemma update_where_Nil [simp, table_simps]: "update_where p f [] = []"
  by (simp add: update_where_def)

lemma update_where_Cons [simp, table_simps]:
  "update_where p f (r # rows) = (if p r then f r else r) # update_where p f rows"
  by (simp add: update_where_def)

lemma update_where_append [simp, table_simps]:
  "update_where p f (xs @ ys) = update_where p f xs @ update_where p f ys"
  by (simp add: update_where_def)

lemma length_update_where [simp, table_simps]: "length (update_where p f rows) = length rows"
  by (simp add: update_where_def)

lemma set_update_where [table_simps]:
  "r \<in> set (update_where p f rows) \<longleftrightarrow> (\<exists>r0 \<in> set rows. r = (if p r0 then f r0 else r0))"
  by (auto simp: update_where_def)

lemma set_delete_where [simp, table_simps]:
  "r \<in> set (delete_where p rows) \<longleftrightarrow> r \<in> set rows \<and> \<not> p r"
  by (auto simp: delete_where_def)

lemma delete_where_Nil [simp, table_simps]: "delete_where p [] = []"
  by (simp add: delete_where_def)

lemma delete_where_Cons [simp, table_simps]:
  "delete_where p (r # rows) = (if p r then delete_where p rows else r # delete_where p rows)"
  by (simp add: delete_where_def)

lemma fetch_one_Nil [simp, table_simps]: "fetch_one p [] = None"
  by (simp add: fetch_one_def)

lemma fetch_one_Cons [simp, table_simps]:
  "fetch_one p (r # rows) = (if p r then Some r else fetch_one p rows)"
  by (simp add: fetch_one_def)

lemma fetch_one_append [table_simps]:
  "fetch_one p (xs @ ys) = (case fetch_one p xs of None \<Rightarrow> fetch_one p ys | Some r \<Rightarrow> Some r)"
  by (induction xs) auto

lemma fetch_one_SomeD: "fetch_one p rows = Some r \<Longrightarrow> r \<in> set rows \<and> p r"
  by (induction rows) (auto split: if_splits)

lemma fetch_one_None_iff: "fetch_one p rows = None \<longleftrightarrow> (\<forall>r \<in> set rows. \<not> p r)"
  by (induction rows) auto

text \<open>An update that does not touch a key column keeps the column.\<close>

lemma map_key_update_where [table_simps]:
  assumes "\<And>r. key (f r) = key r"
  shows "map key (update_where p f rows) = map key rows"
  using assms by (simp add: update_where_def)

lemma distinct_map_delete_where [table_simps]:
  "distinct (map key rows) \<Longrightarrow> distinct (map key (delete_where p rows))"
  by (auto simp: delete_where_def intro: distinct_map_filter)

text \<open>A row is determined by its primary key.\<close>

lemma row_by_key:
  "\<lbrakk>distinct (map key rows); r \<in> set rows; r' \<in> set rows; key r = key r'\<rbrakk> \<Longrightarrow> r = r'"
  by (metis distinct_map inj_onD)

lemma fetch_one_by_key:
  assumes "distinct (map key rows)" and "r \<in> set rows"
  shows "fetch_one (\<lambda>x. key x = key r) rows = Some r"
  using assms
proof (induction rows)
  case Nil
  then show ?case by simp
next
  case (Cons x xs)
  then show ?case by (auto simp: image_iff)
qed

lemma fetch_one_update_where:
  assumes "\<And>r. p (f r) = p r"
  shows "fetch_one p (update_where p f rows) = map_option f (fetch_one p rows)"
  using assms by (induction rows) auto

lemma fetch_one_update_where_other:
  assumes "\<And>r. q (f r) = q r" and "\<And>r. q r \<Longrightarrow> \<not> p r"
  shows "fetch_one q (update_where p f rows) = fetch_one q rows"
  using assms by (induction rows) auto

lemma update_where_id: "(\<And>r. r \<in> set rows \<Longrightarrow> \<not> p r) \<Longrightarrow> update_where p f rows = rows"
  by (induction rows) auto

lemma filter_update_where_other:
  assumes "\<And>r. q (f r) = q r" and "\<And>r. p r \<Longrightarrow> \<not> q r"
  shows "filter q (update_where p f rows) = filter q rows"
  using assms by (induction rows) auto

text \<open>Looking a row up by its key commutes with the table operations.\<close>

lemma lookup_update_where:
  assumes "\<And>r. key (f r) = key r"
  shows "fetch_one (\<lambda>r. key r = k) (update_where p f rows) =
     map_option (\<lambda>r. if p r then f r else r) (fetch_one (\<lambda>r. key r = k) rows)"
  using assms by (induction rows) auto

lemma lookup_delete_where:
  assumes "distinct (map key rows)"
  shows "fetch_one (\<lambda>r. key r = k) (delete_where p rows) =
     (case fetch_one (\<lambda>r. key r = k) rows of None \<Rightarrow> None | Some r \<Rightarrow> if p r then None else Some r)"
  using assms
proof (induction rows)
  case (Cons r rows)
  have "key x \<noteq> key r" if "x \<in> set rows" for x
    using Cons.prems that by (metis distinct.simps(2) image_eqI list.simps(9) list.set_map)
  then have "fetch_one (\<lambda>x. key x = key r) (delete_where p rows) = None"
    by (simp add: fetch_one_None_iff)
  then show ?case using Cons by auto
qed simp

lemma lookup_Some_iff:
  assumes "distinct (map key rows)"
  shows "fetch_one (\<lambda>r. key r = k) rows = Some r \<longleftrightarrow> r \<in> set rows \<and> key r = k"
  using assms fetch_one_by_key [OF assms] by (auto dest: fetch_one_SomeD)

section \<open>Results and transactions\<close>

text \<open>
  \<open>UnitOfWork\<close> runs a body in one transaction: a body that raises leaves the database as it
  was (\<open>connection.transaction()\<close> rolls back), a body that returns commits its changes.
\<close>

type_synonym ('e, 'd, 'a) tx = "'d \<Rightarrow> 'e + ('a \<times> 'd)"

definition unit_of_work :: "('e, 'd, 'a) tx \<Rightarrow> 'd \<Rightarrow> ('e + 'a) \<times> 'd" where
  "unit_of_work body d = (case body d of Inl e \<Rightarrow> (Inl e, d) | Inr (a, d') \<Rightarrow> (Inr a, d'))"

lemma unit_of_work_Inl [simp]: "body d = Inl e \<Longrightarrow> unit_of_work body d = (Inl e, d)"
  by (simp add: unit_of_work_def)

lemma unit_of_work_Inr [simp]: "body d = Inr (a, d') \<Longrightarrow> unit_of_work body d = (Inr a, d')"
  by (simp add: unit_of_work_def)

lemma unit_of_work_rollback: "unit_of_work body d = (Inl e, d') \<Longrightarrow> d' = d"
  by (auto simp: unit_of_work_def split: sum.splits)

lemma unit_of_work_cases:
  obtains (raised) e where "body d = Inl e" "unit_of_work body d = (Inl e, d)"
  | (committed) a d' where "body d = Inr (a, d')" "unit_of_work body d = (Inr a, d')"
  by (cases "body d") auto

end
