(* ===== verification/Domain.thy ===== *)
theory Domain
  imports Complex_Main Prelude
begin

text \<open>
  The domain model: the enumerations and records of \<open>domain/ops.py\<close>, \<open>domain/web_shell.py\<close>,
  \<open>domain/audit.py\<close> and \<open>auth/models.py\<close>, the exceptions of \<open>domain/errors.py\<close> and
  \<open>auth/errors.py\<close> as one error datatype, and JSON values. Every record field carries a short
  prefix for its record, since Python's attribute names repeat between classes.
\<close>

section \<open>JSON values\<close>

text \<open>
  A Python \<open>float\<close> is a rational number or one of the three special values; Python compares
  \<open>int\<close> and \<open>float\<close> by their exact values. A \<open>dict\<close> is an association list: the order of
  its keys is observable in Python, and its keys are distinct.
\<close>

datatype pyfloat = Finite rat | PosInf | NegInf | NaN

datatype json =
    JNull
  | JBool bool
  | JInt int
  | JFloat pyfloat
  | JStr string
  | JList "json list"
  | JObj "(string \<times> json) list"

type_synonym jobj = "(string \<times> json) list"

section \<open>Enumerations of domain/ops.py\<close>

datatype credential_type = CT_PASSWORD | CT_SSH_PRIVATE_KEY

datatype run_kind = PING | COMMAND | PLAYBOOK

datatype run_status =
    RS_QUEUED | RS_PREPARING | RS_RUNNING | RS_SUCCEEDED | RS_PARTIAL | RS_FAILED
  | RS_CANCELED | RS_TIMED_OUT | RS_INTERRUPTED | RS_REJECTED

datatype fingerprint_scheme = LEGACY_SHA256 | HMAC_SHA256_V1

definition TERMINAL_RUN_STATUSES :: "run_status list" where
  "TERMINAL_RUN_STATUSES =
     [RS_SUCCEEDED, RS_PARTIAL, RS_FAILED, RS_CANCELED, RS_TIMED_OUT, RS_INTERRUPTED, RS_REJECTED]"

datatype run_target_status =
    TS_PENDING | TS_RUNNING | TS_SUCCEEDED | TS_FAILED | TS_CANCELED | TS_SKIPPED
  | TS_UNREACHABLE | TS_INTERRUPTED

datatype target_kind = TK_ALL | TK_HOSTS | TK_GROUP

datatype command_mode = CM_COMMAND | CM_SHELL

datatype playbook_source = PS_DATABASE | PS_MOUNT

datatype revision_format = LEGACY_SINGLE_YAML | PROJECT

abbreviation terminal :: "run_status \<Rightarrow> bool" where
  "terminal s \<equiv> s \<in> set TERMINAL_RUN_STATUSES"

abbreviation active :: "run_status \<Rightarrow> bool" where
  "active s \<equiv> s = RS_PREPARING \<or> s = RS_RUNNING"

lemma terminal_iff: "terminal s \<longleftrightarrow> s \<noteq> RS_QUEUED \<and> \<not> active s"
  by (cases s) (auto simp: TERMINAL_RUN_STATUSES_def)

fun run_kind_value :: "run_kind \<Rightarrow> string" where
  "run_kind_value PING = ''PING''"
| "run_kind_value COMMAND = ''COMMAND''"
| "run_kind_value PLAYBOOK = ''PLAYBOOK''"

fun target_kind_value :: "target_kind \<Rightarrow> string" where
  "target_kind_value TK_ALL = ''ALL''"
| "target_kind_value TK_HOSTS = ''HOSTS''"
| "target_kind_value TK_GROUP = ''GROUP''"

fun command_mode_value :: "command_mode \<Rightarrow> string" where
  "command_mode_value CM_COMMAND = ''COMMAND''"
| "command_mode_value CM_SHELL = ''SHELL''"

fun playbook_source_value :: "playbook_source \<Rightarrow> string" where
  "playbook_source_value PS_DATABASE = ''DATABASE''"
| "playbook_source_value PS_MOUNT = ''MOUNT''"

section \<open>Records of domain/ops.py\<close>

record playbook_reference =
  pr_source :: playbook_source
  pr_playbook_id :: "uuid option"
  pr_path :: "string option"

definition require_source_identifier :: "playbook_reference \<Rightarrow> bool" where
  "require_source_identifier p =
     (case pr_source p of
        PS_DATABASE \<Rightarrow> pr_playbook_id p \<noteq> None \<and> pr_path p = None
      | PS_MOUNT \<Rightarrow> pr_path p \<noteq> None \<and> pr_playbook_id p = None)"

record credential =
  c_id :: uuid
  c_name :: string
  c_type :: credential_type
  c_username :: string
  c_public_config :: jobj
  c_current_version :: nat
  c_lock_version :: nat
  c_enabled :: bool
  c_description :: string
  c_deleted_at :: "timestamp option"
  c_created_at :: timestamp
  c_updated_at :: timestamp

record host =
  h_id :: uuid
  h_name :: string
  h_address :: string
  h_ssh_port :: nat
  h_credential_id :: uuid
  h_python_interpreter :: "string option"
  h_enabled :: bool
  h_description :: string
  h_variables :: jobj
  h_version :: nat
  h_created_at :: timestamp
  h_updated_at :: timestamp

record host_key =
  hk_host_id :: uuid
  hk_algorithm :: string
  hk_public_key :: string
  hk_fingerprint :: string
  hk_trusted_by :: uuid
  hk_trusted_at :: timestamp

record host_group =
  g_id :: uuid
  g_name :: string
  g_description :: string
  g_variables :: jobj
  g_created_at :: timestamp
  g_updated_at :: timestamp

record resolved_host =
  rh_host_id :: uuid
  rh_name :: string
  rh_address :: string
  rh_ssh_port :: nat
  rh_credential_id :: uuid
  rh_credential_version :: nat
  rh_credential_type :: credential_type
  rh_credential_username :: string
  rh_credential_public_config :: jobj
  rh_python_interpreter :: "string option"
  rh_host_variables :: jobj
  rh_group_variables :: jobj

text \<open>One row of \<open>runs\<close>: the fields of \<open>Run\<close> and the column \<open>next_event_sequence\<close>.\<close>

record run =
  r_id :: uuid
  r_source_run_id :: "uuid option"
  r_kind :: run_kind
  r_status :: run_status
  r_target_spec :: jobj
  r_resolved_targets :: "jobj list"
  r_operation_spec :: jobj
  r_inventory_snapshot :: jobj
  r_workspace_revision :: "string option"
  r_playbook_id :: "uuid option"
  r_playbook_revision :: "nat option"
  r_credential_versions :: jobj
  r_timeout_seconds :: int
  r_forks :: int
  r_cancel_requested_at :: "timestamp option"
  r_claimed_by :: "string option"
  r_claimed_at :: "timestamp option"
  r_started_at :: "timestamp option"
  r_finished_at :: "timestamp option"
  r_return_code :: "int option"
  r_summary :: jobj
  r_failure_code :: "string option"
  r_failure_message :: "string option"
  r_requested_by :: uuid
  r_idempotency_key :: string
  r_request_fingerprint :: string
  r_fingerprint_scheme :: fingerprint_scheme
  r_created_at :: timestamp
  r_updated_at :: timestamp
  r_next_event_sequence :: nat

record run_target =
  t_id :: uuid
  t_run_id :: uuid
  t_host_id :: uuid
  t_host_name :: string
  t_host_address :: string
  t_status :: run_target_status
  t_return_code :: "int option"
  t_stdout :: string
  t_stderr :: string
  t_result :: jobj
  t_output_truncated :: bool
  t_changed_count :: nat
  t_failed_count :: nat
  t_unreachable_count :: nat
  t_started_at :: "timestamp option"
  t_finished_at :: "timestamp option"

record run_event =
  ev_id :: uuid
  ev_run_id :: uuid
  ev_run_target_id :: "uuid option"
  ev_sequence :: nat
  ev_type :: string
  ev_task :: "string option"
  ev_stdout :: "string option"
  ev_data :: jobj
  ev_created_at :: timestamp

record worker_lease =
  wl_worker_id :: string
  wl_run_id :: "uuid option"
  wl_heartbeat_at :: timestamp
  wl_expires_at :: timestamp

record secret_input =
  si_run_id :: uuid
  si_encrypted_payload :: bytes
  si_key_version :: nat
  si_parameter_names :: "string list"

text \<open>One row of \<open>host_execution_locks\<close> (migrations \<open>0030\<close> and \<open>0060\<close>).\<close>

record host_lock =
  hl_host_id :: uuid
  hl_run_id :: "uuid option"
  hl_owner_id :: string
  hl_acquired_at :: timestamp
  hl_expires_at :: timestamp
  hl_web_shell_session_id :: "uuid option"

record playbook_file =
  pf_path :: string
  pf_content :: string
  pf_sha256 :: string
  pf_size_bytes :: nat

record playbook_revision =
  pv_playbook_id :: uuid
  pv_revision :: nat
  pv_content :: "string option"
  pv_sha256 :: string
  pv_size_bytes :: nat
  pv_validator_version :: string
  pv_validated_at :: timestamp
  pv_created_by :: uuid
  pv_created_at :: timestamp
  pv_format :: revision_format
  pv_entrypoint :: "string option"
  pv_parameter_schema :: jobj
  pv_supports_check_mode :: bool
  pv_files :: "playbook_file list"

definition require_revision_payload :: "playbook_revision \<Rightarrow> bool" where
  "require_revision_payload v =
     (case pv_format v of
        LEGACY_SINGLE_YAML \<Rightarrow> pv_content v \<noteq> None \<and> pv_entrypoint v = None \<and> pv_files v = []
      | PROJECT \<Rightarrow> pv_content v = None \<and> pv_entrypoint v \<noteq> None \<and> pv_files v \<noteq> [])"

record playbook_row =
  pb_id :: uuid
  pb_name :: string
  pb_description :: string
  pb_enabled :: bool
  pb_current_revision :: nat
  pb_version :: nat
  pb_created_by :: uuid
  pb_updated_by :: uuid
  pb_deleted_at :: "timestamp option"
  pb_created_at :: timestamp
  pb_updated_at :: timestamp

section \<open>domain/web_shell.py\<close>

datatype web_shell_state = WS_PENDING | WS_ACTIVE | WS_CLOSE_REQUESTED

datatype web_shell_close_reason =
    CLIENT_DISCONNECTED | USER_REQUESTED | REMOTE_EXIT | IDLE_TIMEOUT | MAX_DURATION
  | AUTH_SESSION_INVALID | DATABASE_UNAVAILABLE | SERVER_SHUTDOWN | START_FAILED
  | PROTOCOL_ERROR | SLOW_CONSUMER

record web_shell_session =
  ws_id :: uuid
  ws_host_id :: uuid
  ws_actor_user_id :: uuid
  ws_auth_session_id :: uuid
  ws_credential_id :: uuid
  ws_credential_version :: nat
  ws_credential_type :: credential_type
  ws_host_name :: string
  ws_host_address :: string
  ws_ssh_port :: nat
  ws_username :: string
  ws_state :: web_shell_state
  ws_api_instance_id :: string
  ws_owner_id :: "string option"
  ws_ticket_expires_at :: timestamp
  ws_lease_expires_at :: timestamp
  ws_connected_at :: "timestamp option"
  ws_last_activity_at :: "timestamp option"
  ws_close_requested_at :: "timestamp option"
  ws_created_at :: timestamp

record web_shell_launch =
  la_session :: web_shell_session
  la_password :: "string option"
  la_private_key :: "string option"
  la_passphrase :: "string option"
  la_known_hosts :: string

definition require_matching_credential :: "web_shell_launch \<Rightarrow> bool" where
  "require_matching_credential l =
     (case ws_credential_type (la_session l) of
        CT_PASSWORD \<Rightarrow> la_password l \<noteq> None \<and> la_private_key l = None
      | CT_SSH_PRIVATE_KEY \<Rightarrow> la_private_key l \<noteq> None \<and> la_password l = None)"

section \<open>Exceptions\<close>

text \<open>
  The classes of \<open>domain/errors.py\<close> that the modelled services raise, with the message the
  raise gives; \<open>RuntimeErr\<close>, \<open>ValueErr\<close>, \<open>KeyErr\<close>, \<open>TypeErr\<close> and \<open>AttributeErr\<close> are
  Python's exceptions of these names, \<open>BadZipFileErr\<close> is \<open>zipfile.BadZipFile\<close> and
  \<open>UniqueViolation\<close>, \<open>ForeignKeyViolation\<close> and \<open>CheckViolation\<close> are the constraint errors psycopg raises.
\<close>

datatype ops_error =
    NotFoundError string
  | ConflictError string
  | IdempotencyConflictError
  | ValidationError string
  | PlaybookNotFoundError
  | PlaybookInvalidError string
  | PlaybookVersionConflictError
  | PlaybookSourceDisabledError
  | PlaybookDisabledError
  | PlaybookProjectInvalidError string
  | SecretParametersRequiredError "string list"
  | HostKeyChangedError
  | HostKeyConfirmationRequiredError "(uuid \<times> string) list"
  | RunNotCancelableError
  | HostBusyError
  | WebShellCapacityError
  | WebShellSessionExpiredError
  | WebShellUnavailableError string
  | KeyVersionMissingError "int list"
  | KeyRotationInProgressError
  | ClaimCollisionError
  | PermissionDeniedError
  | ReauthenticationRequiredError
  | RuntimeErr string
  | ValueErr string
  | KeyErr string
  | TypeErr string
  | AttributeErr string
  | BadZipFileErr
  | UniqueViolation string
  | ForeignKeyViolation string
  | CheckViolation string

fun error_code :: "ops_error \<Rightarrow> string option" where
  "error_code (NotFoundError _) = Some ''not_found''"
| "error_code (ConflictError _) = Some ''conflict''"
| "error_code IdempotencyConflictError = Some ''idempotency_key_reused''"
| "error_code (ValidationError _) = Some ''invalid_operation''"
| "error_code PlaybookNotFoundError = Some ''playbook_not_found''"
| "error_code (PlaybookInvalidError _) = Some ''playbook_invalid''"
| "error_code PlaybookVersionConflictError = Some ''playbook_version_conflict''"
| "error_code PlaybookSourceDisabledError = Some ''playbook_source_disabled''"
| "error_code PlaybookDisabledError = Some ''playbook_disabled''"
| "error_code (PlaybookProjectInvalidError _) = Some ''playbook_project_invalid''"
| "error_code (SecretParametersRequiredError _) = Some ''secret_parameters_required''"
| "error_code HostKeyChangedError = Some ''host_key_changed''"
| "error_code (HostKeyConfirmationRequiredError _) = Some ''host_key_confirmation_required''"
| "error_code RunNotCancelableError = Some ''run_not_cancelable''"
| "error_code HostBusyError = Some ''host_busy''"
| "error_code WebShellCapacityError = Some ''web_shell_capacity_reached''"
| "error_code WebShellSessionExpiredError = Some ''web_shell_session_expired''"
| "error_code (WebShellUnavailableError _) = Some ''web_shell_unavailable''"
| "error_code (KeyVersionMissingError _) = Some ''key_version_missing''"
| "error_code KeyRotationInProgressError = Some ''key_rotation_in_progress''"
| "error_code _ = None"

text \<open>\<open>isinstance(error, OpsError)\<close>: exactly the classes that carry an error code.\<close>

definition is_ops_error :: "ops_error \<Rightarrow> bool" where
  "is_ops_error e \<longleftrightarrow> error_code e \<noteq> None"

end
