(* ===== verification/Audit_Log.thy ===== *)
theory Audit_Log
  imports Domain
begin

text \<open>
  Audit events: the enumerations of \<open>domain/audit.py\<close>, the row \<open>AuditEventDraft\<close> becomes and
  \<open>new_audit_event\<close> of \<open>services/audit.py\<close>. The free-form \<open>metadata\<close> of an event passes
  through the regular expressions of \<open>observability.sanitize_metadata\<close> and is left out of the
  row; \<open>emit_audit_event\<close> only writes a log line and is left out too.
\<close>

text \<open>The members of \<open>AuditAction\<close> that the operations modelled here record; the others are recorded by code outside them.\<close>

datatype audit_action =
    RUN_CREATED | RUN_IDEMPOTENT_REPLAY | RUN_IDEMPOTENCY_CONFLICT
  | RUN_TARGET_RESOLUTION_FAILED | RUN_CANCEL_REQUESTED | RUN_RETRY_CREATED
  | STALE_RUNS_RECOVERED | RUN_CLAIMED | HOST_LOCK_COLLISION | RUN_STARTED | HOST_COMPLETED
  | RUN_SUCCEEDED | RUN_PARTIAL | RUN_FAILED | RUN_REJECTED | RUN_CANCELED | RUN_TIMED_OUT
  | RUN_INTERRUPTED | RUN_PREPARATION_FAILED | RUN_SECRET_INPUT_CONSUMED | PLAYBOOK_PREVIEWED
  | WEB_SHELL_REQUESTED | WEB_SHELL_STARTED | WEB_SHELL_CLOSE_REQUESTED | WEB_SHELL_CLOSED
  | WEB_SHELL_FAILED | WEB_SHELL_TIMED_OUT | WEB_SHELL_STALE_RECOVERED
  | ADMIN_BOOTSTRAPPED | AUTH_LOGIN_SUCCEEDED | AUTH_LOGOUT_SUCCEEDED | AUTH_PURGE_COMPLETED
  | AUTH_MFA_SUCCEEDED | AUTH_RECOVERY_USED | AUTH_REAUTH_SUCCEEDED
  | USER_CREATED | USER_ACTIVATED | USER_UPDATED | USER_ROLE_CHANGED | USER_DISABLED
  | USER_ACTIVATION_REISSUED | USER_MFA_ENROLLMENT_STARTED | USER_MFA_ENROLLMENT_SUCCEEDED
  | USER_MFA_RESET | USER_MFA_BREAK_GLASS | USER_RECOVERY_CODES_REGENERATED
  | USER_PASSWORD_CHANGED
  | CREDENTIAL_CREATED | CREDENTIAL_ROTATED | CREDENTIAL_UPDATED | CREDENTIAL_ENABLED
  | CREDENTIAL_DISABLED | CREDENTIAL_DELETED | HOST_CREATED | HOST_UPDATED | HOST_DELETED
  | GROUP_CREATED | GROUP_UPDATED | GROUP_DELETED | HOST_KEY_SCAN_STARTED
  | HOST_KEY_SCAN_SUCCEEDED | HOST_KEY_SCAN_FAILED | HOST_KEY_CONFIRMED | HOST_KEY_CHANGED
  | MASTER_KEY_REGISTERED | MASTER_KEY_ROTATION_REQUESTED | MASTER_KEY_ROTATION_SUCCEEDED
  | MASTER_KEY_ROTATION_BATCH_COMPLETED | MASTER_KEY_ROTATION_FAILED
  | PLAYBOOK_CREATED | PLAYBOOK_UPDATED | PLAYBOOK_DELETED | PLAYBOOK_REVISION_RESTORED
  | PLAYBOOK_IMPORTED | PLAYBOOK_EXPORTED | PLAYBOOK_VALIDATION_SUCCEEDED
  | PLAYBOOK_VALIDATION_FAILED | RUNTIME_DIRECTORY_CREATED | RUNTIME_DIRECTORY_CLEANED
  | AUDIT_RETENTION_PURGED | AUDIT_EXPORTED

datatype audit_outcome = AO_STARTED | AO_SUCCEEDED | AO_FAILED | AO_DENIED | AO_NOOP

datatype audit_source = SRC_API | SRC_WORKER | SRC_CLI | SRC_SYSTEM

datatype audit_severity = SEV_DEBUG | SEV_INFO | SEV_WARNING | SEV_ERROR | SEV_CRITICAL

text \<open>The variables of \<open>current_log_context()\<close> that \<open>new_audit_event\<close> reads.\<close>

record log_context =
  lc_request_id :: "string option"
  lc_correlation_id :: "string option"
  lc_actor_user_id :: "uuid option"
  lc_session_id :: "uuid option"
  lc_run_id :: "uuid option"
  lc_run_target_id :: "uuid option"
  lc_worker_id :: "string option"

definition empty_context :: log_context where
  "empty_context = \<lparr>lc_request_id = None, lc_correlation_id = None, lc_actor_user_id = None,
     lc_session_id = None, lc_run_id = None, lc_run_target_id = None, lc_worker_id = None\<rparr>"

text \<open>The keyword arguments of \<open>new_audit_event\<close>, with their defaults in \<open>no_details\<close>.\<close>

record audit_details =
  ad_severity :: audit_severity
  ad_actor_user_id :: "uuid option"
  ad_session_id :: "uuid option"
  ad_run_id :: "uuid option"
  ad_run_target_id :: "uuid option"
  ad_worker_id :: "string option"
  ad_resource_type :: "string option"
  ad_resource_id :: "uuid option"
  ad_error_code :: "string option"
  ad_failure_stage :: "string option"
  ad_retryable :: "bool option"

definition no_details :: audit_details where
  "no_details = \<lparr>ad_severity = SEV_INFO, ad_actor_user_id = None, ad_session_id = None,
     ad_run_id = None, ad_run_target_id = None, ad_worker_id = None, ad_resource_type = None,
     ad_resource_id = None, ad_error_code = None, ad_failure_stage = None, ad_retryable = None\<rparr>"

record audit_event =
  ae_occurred_at :: timestamp
  ae_action :: audit_action
  ae_outcome :: audit_outcome
  ae_source :: audit_source
  ae_request_id :: "string option"
  ae_correlation_id :: "string option"
  ae_details :: audit_details

definition or_else :: "'a option \<Rightarrow> 'a option \<Rightarrow> 'a option" where
  "or_else a b = (case a of None \<Rightarrow> b | Some x \<Rightarrow> Some x)"

definition new_audit_event ::
    "log_context \<Rightarrow> timestamp \<Rightarrow> audit_action \<Rightarrow> audit_outcome \<Rightarrow> audit_source \<Rightarrow>
     audit_details \<Rightarrow> audit_event" where
  "new_audit_event ctx now act outcome src d =
     \<lparr>ae_occurred_at = now, ae_action = act, ae_outcome = outcome, ae_source = src,
      ae_request_id = lc_request_id ctx, ae_correlation_id = lc_correlation_id ctx,
      ae_details = d\<lparr>
        ad_actor_user_id := or_else (ad_actor_user_id d) (lc_actor_user_id ctx),
        ad_session_id := or_else (ad_session_id d) (lc_session_id ctx),
        ad_run_id := or_else (ad_run_id d) (lc_run_id ctx),
        ad_run_target_id := or_else (ad_run_target_id d) (lc_run_target_id ctx),
        ad_worker_id := or_else (ad_worker_id d) (lc_worker_id ctx)\<rparr>\<rparr>"

lemma new_audit_event_simps [simp]:
  "ae_action (new_audit_event ctx now act outcome src d) = act"
  "ae_outcome (new_audit_event ctx now act outcome src d) = outcome"
  "ae_source (new_audit_event ctx now act outcome src d) = src"
  "ae_occurred_at (new_audit_event ctx now act outcome src d) = now"
  by (simp_all add: new_audit_event_def)

end
