(* ===== verification/Auth_Model.thy ===== *)
theory Auth_Model
  imports Domain
begin

text \<open>
  \<open>auth/models.py\<close>: users, roles, permissions, sessions, challenges and MFA factors; the
  permission matrix \<open>ROLE_PERMISSIONS\<close>; and the authorization guards of \<open>auth/service.py\<close>
  (\<open>require_permission\<close>, \<open>require_recent_reauthentication\<close>) every service calls first.
\<close>

datatype user_status = PENDING_ACTIVATION | US_ACTIVE | US_DISABLED

datatype user_role = OWNER | ADMIN | OPERATOR | AUDITOR

datatype permission =
    ASSET_READ | ASSET_WRITE | CREDENTIAL_WRITE | PLAYBOOK_WRITE | RUN_STANDARD | RUN_SHELL
  | RUN_CANCEL | WEB_SHELL | AUDIT_READ | USER_READ | USER_MANAGE | KEY_ROTATE

definition all_permissions :: "permission list" where
  "all_permissions =
     [ASSET_READ, ASSET_WRITE, CREDENTIAL_WRITE, PLAYBOOK_WRITE, RUN_STANDARD, RUN_SHELL,
      RUN_CANCEL, WEB_SHELL, AUDIT_READ, USER_READ, USER_MANAGE, KEY_ROTATE]"

definition READ_PERMISSIONS :: "permission list" where
  "READ_PERMISSIONS = [ASSET_READ]"

fun permissions_for_role :: "user_role \<Rightarrow> permission list" where
  "permissions_for_role OWNER = all_permissions"
| "permissions_for_role ADMIN =
     READ_PERMISSIONS @ [ASSET_WRITE, CREDENTIAL_WRITE, PLAYBOOK_WRITE, RUN_STANDARD, RUN_SHELL,
       RUN_CANCEL, WEB_SHELL, AUDIT_READ, USER_READ]"
| "permissions_for_role OPERATOR = READ_PERMISSIONS @ [RUN_STANDARD, RUN_CANCEL]"
| "permissions_for_role AUDITOR = READ_PERMISSIONS @ [AUDIT_READ, USER_READ]"

lemma all_permissions_complete: "p \<in> set all_permissions"
  by (cases p) (simp_all add: all_permissions_def)

record user_row =
  u_id :: uuid
  u_username :: string
  u_password_hash :: "string option"
  u_status :: user_status
  u_role :: user_role
  u_mfa_enrollment_required :: bool
  u_activated_at :: "timestamp option"
  u_version :: nat
  u_created_at :: timestamp
  u_updated_at :: timestamp
  u_password_updated_at :: "timestamp option"

record session_row =
  s_id :: uuid
  s_user_id :: uuid
  s_token_hash :: string
  s_csrf_hash :: string
  s_expires_at :: timestamp
  s_created_at :: timestamp
  s_mfa_verified_at :: "timestamp option"
  s_reauthenticated_at :: "timestamp option"
  s_elevated_until :: "timestamp option"

datatype challenge_purpose = LOGIN_MFA | MFA_ENROLLMENT

record challenge_row =
  ch_id :: uuid
  ch_user_id :: uuid
  ch_token_hash :: string
  ch_purpose :: challenge_purpose
  ch_expires_at :: timestamp
  ch_consumed_at :: "timestamp option"
  ch_created_at :: timestamp

record mfa_factor =
  mf_user_id :: uuid
  mf_encrypted_totp_secret :: bytes
  mf_key_version :: int
  mf_last_accepted_step :: "int option"
  mf_confirmed_at :: "timestamp option"
  mf_created_at :: timestamp
  mf_updated_at :: timestamp

record recovery_code =
  rc_id :: uuid
  rc_user_id :: uuid
  rc_code_hash :: string
  rc_used_at :: "timestamp option"
  rc_created_at :: timestamp

record activation_token =
  at_id :: uuid
  at_user_id :: uuid
  at_token_hash :: string
  at_created_by :: uuid
  at_expires_at :: timestamp
  at_consumed_at :: "timestamp option"
  at_created_at :: timestamp

record rate_limit =
  rl_scope :: string
  rl_subject_hash :: string
  rl_window_started_at :: timestamp
  rl_attempt_count :: nat
  rl_expires_at :: timestamp

record session_principal =
  sp_session_id :: uuid
  sp_user_id :: uuid
  sp_username :: string
  sp_role :: user_role
  sp_permissions :: "permission list"
  sp_mfa_enabled :: bool
  sp_mfa_enrollment_required :: bool
  sp_mfa_verified_at :: "timestamp option"
  sp_reauthenticated_at :: "timestamp option"
  sp_elevated_until :: "timestamp option"
  sp_csrf_hash :: string
  sp_expires_at :: timestamp

text \<open>The exceptions of \<open>auth/errors.py\<close>, and Python's \<open>ValueError\<close> and \<open>RuntimeError\<close>.\<close>

datatype auth_error =
    AuthenticationRequired | InvalidCredentials | InvalidSession | CsrfValidation
  | AdminAlreadyExists | AuthRateLimited int | PermissionDenied | ReauthenticationRequired
  | InvalidMfaCode | TotpDisabled | InvalidChallenge | ActivationExpired | UserConflict
  | UserVersionConflict | LastOwnerRequired | AuthValueError string | AuthRuntimeError string

section \<open>Authorization guards\<close>

definition require_permission :: "session_principal \<Rightarrow> permission \<Rightarrow> auth_error + unit" where
  "require_permission actor p =
     (if p \<in> set (sp_permissions actor) then Inr () else Inl PermissionDenied)"

definition require_recent_reauthentication ::
    "timestamp \<Rightarrow> session_principal \<Rightarrow> auth_error + unit" where
  "require_recent_reauthentication now actor =
     (case (sp_reauthenticated_at actor, sp_elevated_until actor) of
        (Some _, Some until) \<Rightarrow> if until \<le> now then Inl ReauthenticationRequired else Inr ()
      | _ \<Rightarrow> Inl ReauthenticationRequired)"

text \<open>\<open>require_permission\<close> as the run and Web Shell services see it.\<close>

definition permitted :: "session_principal \<Rightarrow> permission \<Rightarrow> bool" where
  "permitted actor p \<longleftrightarrow> require_permission actor p = Inr ()"

lemma permitted_iff [simp]: "permitted actor p \<longleftrightarrow> p \<in> set (sp_permissions actor)"
  by (simp add: permitted_def require_permission_def)

end
