(* ===== verification/Database.thy ===== *)
theory Database
  imports Audit_Log Auth_Model
begin

text \<open>
  The database: one list of rows per PostgreSQL table the modelled components use, the
  environment of a request or worker iteration (clock, log context) and the settings they read.
\<close>

text \<open>
  A row of \<open>credential_revisions\<close> joined with its row of \<open>credential_secret_envelopes\<close>: the two are
  inserted together under one key and never deleted. \<open>cr_updated_at\<close> is the envelope's column.
\<close>

record credential_revision =
  cr_credential_id :: uuid
  cr_version :: nat
  cr_encrypted_secret :: bytes
  cr_key_version :: nat
  cr_created_at :: timestamp
  cr_updated_at :: timestamp

record system_secret =
  ss_name :: string
  ss_encrypted_secret :: bytes
  ss_key_version :: nat
  ss_updated_at :: timestamp

text \<open>The tables of \<open>domain/encryption.py\<close>: registered master keys and rotation jobs.\<close>

record encryption_key =
  ek_version :: int
  ek_envelope :: bytes
  ek_registered_at :: timestamp
  ek_retired_at :: "timestamp option"

datatype key_rotation_state = KR_PENDING | KR_RUNNING | KR_SUCCEEDED | KR_FAILED

record rotation_job =
  kj_id :: uuid
  kj_target_key_version :: int
  kj_state :: key_rotation_state
  kj_requested_by :: uuid
  kj_claimed_by :: "string option"
  kj_lease_expires_at :: "timestamp option"
  kj_processed_count :: nat
  kj_remaining_count :: "nat option"
  kj_error_code :: "string option"
  kj_created_at :: timestamp
  kj_started_at :: "timestamp option"
  kj_finished_at :: "timestamp option"
  kj_updated_at :: timestamp

record db =
  runs :: "run list"
  run_targets :: "run_target list"
  run_events :: "run_event list"
  run_secret_inputs :: "secret_input list"
  worker_leases :: "worker_lease list"
  host_execution_locks :: "host_lock list"
  web_shell_sessions :: "web_shell_session list"
  hosts :: "host list"
  credentials :: "credential list"
  credential_revisions :: "credential_revision list"
  host_keys :: "host_key list"
  host_groups :: "host_group list"
  host_group_members :: "(uuid \<times> uuid) list"
  playbooks :: "playbook_row list"
  playbook_revisions :: "playbook_revision list"
  system_secrets :: "system_secret list"
  encryption_keys :: "encryption_key list"
  key_rotation_jobs :: "rotation_job list"
  app_settings :: "(string \<times> json) list"
  users :: "user_row list"
  sessions :: "session_row list"
  auth_challenges :: "challenge_row list"
  user_mfa_factors :: "mfa_factor list"
  user_recovery_codes :: "recovery_code list"
  user_activation_tokens :: "activation_token list"
  auth_rate_limits :: "rate_limit list"
  audit_events :: "audit_event list"

definition empty_db :: db where
  "empty_db = \<lparr>runs = [], run_targets = [], run_events = [], run_secret_inputs = [],
     worker_leases = [], host_execution_locks = [], web_shell_sessions = [], hosts = [],
     credentials = [], credential_revisions = [], host_keys = [], host_groups = [],
     host_group_members = [], playbooks = [], playbook_revisions = [], system_secrets = [],
     encryption_keys = [], key_rotation_jobs = [], app_settings = [],
     users = [], sessions = [], auth_challenges = [], user_mfa_factors = [],
     user_recovery_codes = [], user_activation_tokens = [], auth_rate_limits = [],
     audit_events = []\<rparr>"

text \<open>
  The environment of one service call: the clock and the log context. A service call reads the
  clock several times within one transaction; the model reads it once.
\<close>

record env =
  e_now :: timestamp
  e_ctx :: log_context

definition audit_append ::
    "env \<Rightarrow> audit_action \<Rightarrow> audit_outcome \<Rightarrow> audit_source \<Rightarrow> audit_details \<Rightarrow> db \<Rightarrow> db" where
  "audit_append env act outcome src d db =
     db\<lparr>audit_events := audit_events db @ [new_audit_event (e_ctx env) (e_now env) act outcome src d]\<rparr>"

text \<open>Appending an audit row changes no other table, and never fails in the model.\<close>

lemma audit_append_simps [simp]:
  "runs (audit_append env act outcome src d db) = runs db"
  "run_targets (audit_append env act outcome src d db) = run_targets db"
  "run_events (audit_append env act outcome src d db) = run_events db"
  "run_secret_inputs (audit_append env act outcome src d db) = run_secret_inputs db"
  "worker_leases (audit_append env act outcome src d db) = worker_leases db"
  "host_execution_locks (audit_append env act outcome src d db) = host_execution_locks db"
  "web_shell_sessions (audit_append env act outcome src d db) = web_shell_sessions db"
  "hosts (audit_append env act outcome src d db) = hosts db"
  "credentials (audit_append env act outcome src d db) = credentials db"
  "host_keys (audit_append env act outcome src d db) = host_keys db"
  "credential_revisions (audit_append env act outcome src d db) = credential_revisions db"
  "host_groups (audit_append env act outcome src d db) = host_groups db"
  "host_group_members (audit_append env act outcome src d db) = host_group_members db"
  "playbooks (audit_append env act outcome src d db) = playbooks db"
  "playbook_revisions (audit_append env act outcome src d db) = playbook_revisions db"
  "system_secrets (audit_append env act outcome src d db) = system_secrets db"
  "encryption_keys (audit_append env act outcome src d db) = encryption_keys db"
  "key_rotation_jobs (audit_append env act outcome src d db) = key_rotation_jobs db"
  "app_settings (audit_append env act outcome src d db) = app_settings db"
  "users (audit_append env act outcome src d db) = users db"
  "sessions (audit_append env act outcome src d db) = sessions db"
  "auth_challenges (audit_append env act outcome src d db) = auth_challenges db"
  "user_mfa_factors (audit_append env act outcome src d db) = user_mfa_factors db"
  "user_recovery_codes (audit_append env act outcome src d db) = user_recovery_codes db"
  "user_activation_tokens (audit_append env act outcome src d db) = user_activation_tokens db"
  "auth_rate_limits (audit_append env act outcome src d db) = auth_rate_limits db"
  by (simp_all add: audit_append_def)

datatype playbook_source_mode = MODE_DATABASE | MODE_MOUNT | MODE_BOTH

definition database_enabled :: "playbook_source_mode \<Rightarrow> bool" where
  "database_enabled m \<longleftrightarrow> m = MODE_DATABASE \<or> m = MODE_BOTH"

definition mount_enabled :: "playbook_source_mode \<Rightarrow> bool" where
  "mount_enabled m \<longleftrightarrow> m = MODE_MOUNT \<or> m = MODE_BOTH"

record settings =
  set_worker_lease_seconds :: int
  set_max_event_output_bytes :: nat
  set_max_run_output_bytes :: nat
  set_playbook_source_mode :: playbook_source_mode
  set_web_shell_max_sessions :: nat
  set_totp_enabled :: bool
  set_session_ttl_seconds :: int
  set_auth_login_ip_limit :: nat
  set_auth_login_ip_window_seconds :: nat
  set_auth_login_username_ip_limit :: nat
  set_auth_login_username_ip_window_seconds :: nat

end
