(* ===== verification/Host_Lock.thy ===== *)
theory Host_Lock
  imports Database
begin

text \<open>
  The table \<open>host_execution_locks\<close>, which runs and Web Shell sessions share: the conditional
  upsert both repositories issue, and its contract as the locale \<open>exclusive_locks\<close>. The locale
  is interpreted on the upsert, for one lock and for the batch a claim takes.
\<close>

section \<open>The conditional upsert\<close>

text \<open>
  \<open>INSERT .. ON CONFLICT (host_id) DO UPDATE .. WHERE expires_at <= now RETURNING host_id\<close> for
  one row: the new lock replaces an expired one, is added when the host has none, and is
  refused by an unexpired one.
\<close>

fun upsert_lock :: "timestamp \<Rightarrow> host_lock \<Rightarrow> host_lock list \<Rightarrow> bool \<times> host_lock list" where
  "upsert_lock now new [] = (True, [new])"
| "upsert_lock now new (l # ls) =
     (if hl_host_id l = hl_host_id new
      then (if hl_expires_at l \<le> now then (True, new # ls) else (False, l # ls))
      else (case upsert_lock now new ls of (ok, ls') \<Rightarrow> (ok, l # ls')))"

fun upsert_locks :: "timestamp \<Rightarrow> host_lock list \<Rightarrow> host_lock list \<Rightarrow> uuid list \<times> host_lock list" where
  "upsert_locks now [] ls = ([], ls)"
| "upsert_locks now (new # news) ls =
     (case upsert_lock now new ls of
        (ok, ls1) \<Rightarrow>
          (case upsert_locks now news ls1 of
             (hits, ls2) \<Rightarrow> (if ok then hl_host_id new # hits else hits, ls2)))"

section \<open>The contract of an exclusive lock table\<close>

text \<open>
  \<open>acquire now l t\<close> tries to take the lock \<open>l\<close> in the table \<open>t\<close>; \<open>holder t h\<close> is the lock on the
  resource \<open>h\<close>. A success installs the lock and touches no other resource, a failure
  changes nothing, and it fails exactly when an unexpired lock is in the way.
\<close>

locale exclusive_locks =
  fixes acquire :: "timestamp \<Rightarrow> 'l \<Rightarrow> 't \<Rightarrow> bool \<times> 't"
    and holder :: "'t \<Rightarrow> 'h \<Rightarrow> 'l option"
    and resource :: "'l \<Rightarrow> 'h"
    and expiry :: "'l \<Rightarrow> timestamp"
  assumes acquired: "acquire now l t = (True, t') \<Longrightarrow>
      holder t' h = (if h = resource l then Some l else holder t h)"
    and refused: "acquire now l t = (False, t') \<Longrightarrow> t' = t"
    and refused_iff: "fst (acquire now l t) \<longleftrightarrow>
      (case holder t (resource l) of None \<Rightarrow> True | Some l' \<Rightarrow> expiry l' \<le> now)"
begin

lemma acquire_holder:
  "holder (snd (acquire now l t)) h =
     (if fst (acquire now l t) \<and> h = resource l then Some l else holder t h)"
proof (cases "acquire now l t")
  case (Pair ok t')
  then show ?thesis by (cases ok) (auto dest: acquired [where h = h] refused)
qed

lemma unexpired_lock_kept:
  assumes "holder t h = Some l'" and "now < expiry l'"
  shows "holder (snd (acquire now l t)) h = Some l'"
  using assms by (auto simp: acquire_holder refused_iff)

lemma second_contender_refused:
  assumes "acquire now l t = (True, t')" and "resource l' = resource l" and "now' < expiry l"
  shows "acquire now' l' t' = (False, t')"
proof -
  have "holder t' (resource l') = Some l" using acquired [OF assms(1)] assms(2) by simp
  then have "\<not> fst (acquire now' l' t')" using assms(3) by (simp add: refused_iff)
  then show ?thesis by (metis prod.collapse refused)
qed

lemma acquire_after_expiry:
  assumes "holder t (resource l) = Some l'" and "expiry l' \<le> now"
  shows "holder (snd (acquire now l t)) (resource l) = Some l"
  using assms by (simp add: acquire_holder refused_iff)

end

section \<open>The upsert meets the contract\<close>

definition lock_of :: "host_lock list \<Rightarrow> uuid \<Rightarrow> host_lock option" where
  "lock_of ls h = fetch_one (\<lambda>l. hl_host_id l = h) ls"

lemma lock_of_Nil [simp]: "lock_of [] h = None"
  by (simp add: lock_of_def)

lemma lock_of_Cons [simp]:
  "lock_of (l # ls) h = (if hl_host_id l = h then Some l else lock_of ls h)"
  by (simp add: lock_of_def)

lemma upsert_lock_acquired:
  "upsert_lock now l ls = (True, ls') \<Longrightarrow>
     lock_of ls' h = (if h = hl_host_id l then Some l else lock_of ls h)"
  by (induction ls arbitrary: ls') (auto split: if_splits prod.splits)

lemma upsert_lock_refused: "upsert_lock now l ls = (False, ls') \<Longrightarrow> ls' = ls"
  by (induction ls arbitrary: ls') (auto split: if_splits prod.splits)

lemma upsert_lock_ok_iff:
  "fst (upsert_lock now l ls) \<longleftrightarrow>
     (case lock_of ls (hl_host_id l) of None \<Rightarrow> True | Some l' \<Rightarrow> hl_expires_at l' \<le> now)"
  by (induction ls) (auto split: prod.splits option.splits)

interpretation host_locks: exclusive_locks upsert_lock lock_of hl_host_id hl_expires_at
  by unfold_locales (rule upsert_lock_acquired, assumption, erule upsert_lock_refused,
      rule upsert_lock_ok_iff)

lemma map_host_upsert_lock:
  "map hl_host_id (snd (upsert_lock now l ls)) =
     (if hl_host_id l \<in> set (map hl_host_id ls) then map hl_host_id ls
      else map hl_host_id ls @ [hl_host_id l])"
  by (induction ls) (auto split: prod.splits)

lemma upsert_lock_set:
  "x \<in> set (snd (upsert_lock now l ls)) \<Longrightarrow> x = l \<or> x \<in> set ls"
  by (induction ls) (auto split: prod.splits if_splits)

lemma distinct_upsert_lock:
  "distinct (map hl_host_id ls) \<Longrightarrow> distinct (map hl_host_id (snd (upsert_lock now l ls)))"
  by (simp add: map_host_upsert_lock)

section \<open>The batch of a claim\<close>

lemma distinct_upsert_locks:
  "distinct (map hl_host_id ls) \<Longrightarrow> distinct (map hl_host_id (snd (upsert_locks now news ls)))"
proof (induction news arbitrary: ls)
  case (Cons new news)
  then show ?case
    using distinct_upsert_lock [of ls now new] by (auto split: prod.splits) (metis snd_conv)
qed simp

lemma upsert_locks_set:
  "x \<in> set (snd (upsert_locks now news ls)) \<Longrightarrow> x \<in> set news \<or> x \<in> set ls"
proof (induction news arbitrary: ls)
  case (Cons new news)
  then show ?case
    using upsert_lock_set [of _ now new ls] by (auto split: prod.splits) (metis snd_conv)
qed simp

lemma upsert_locks_hits:
  "fst (upsert_locks now news ls) =
     map hl_host_id (filter (\<lambda>n. hl_host_id n \<in> set (fst (upsert_locks now news ls))) news)"
  if "distinct (map hl_host_id news)"
  using that
proof (induction news arbitrary: ls)
  case (Cons new news)
  obtain ok ls1 where u: "upsert_lock now new ls = (ok, ls1)" by fastforce
  obtain hits ls2 where v: "upsert_locks now news ls1 = (hits, ls2)" by fastforce
  have hits: "hits = map hl_host_id (filter (\<lambda>n. hl_host_id n \<in> set hits) news)"
    using Cons.IH [of ls1] Cons.prems v by simp
  then have "set hits \<subseteq> set (map hl_host_id news)" by (metis filter_is_subset image_mono set_map)
  moreover have "hl_host_id new \<notin> set (map hl_host_id news)" using Cons.prems by simp
  ultimately have "hl_host_id new \<notin> set hits" by blast
  moreover have "filter (\<lambda>n. hl_host_id n = hl_host_id new \<or> hl_host_id n \<in> set hits) news =
      filter (\<lambda>n. hl_host_id n \<in> set hits) news"
    using Cons.prems by (intro filter_cong) (auto simp: image_iff)
  ultimately show ?case using u v hits by simp
qed simp

text \<open>
  The whole batch is taken exactly when no wanted host has an unexpired lock; then the table
  holds the new locks on their hosts and every other lock unchanged.
\<close>

lemma lock_of_upsert_locks:
  assumes "distinct (map hl_host_id news)"
  shows "lock_of (snd (upsert_locks now news ls)) h =
     (case fetch_one (\<lambda>n. hl_host_id n = h) news of
        Some n \<Rightarrow> if (case lock_of ls h of None \<Rightarrow> True | Some l \<Rightarrow> hl_expires_at l \<le> now)
                  then Some n else lock_of ls h
      | None \<Rightarrow> lock_of ls h)"
  using assms
proof (induction news arbitrary: ls)
  case (Cons new news)
  obtain ok ls1 where u: "upsert_lock now new ls = (ok, ls1)" by fastforce
  have l1: "lock_of ls1 g = (if ok \<and> g = hl_host_id new then Some new else lock_of ls g)" for g
    using host_locks.acquire_holder [of now new ls g] u by simp
  have ok: "ok \<longleftrightarrow> (case lock_of ls (hl_host_id new) of None \<Rightarrow> True | Some l \<Rightarrow> hl_expires_at l \<le> now)"
    using host_locks.refused_iff [of now new ls] u by simp
  have fresh: "fetch_one (\<lambda>n. hl_host_id n = hl_host_id new) news = None"
    using Cons.prems by (auto simp: fetch_one_None_iff image_iff)
  have "lock_of (snd (upsert_locks now (new # news) ls)) h = lock_of (snd (upsert_locks now news ls1)) h"
    using u by (simp split: prod.splits)
  also have "\<dots> = (case fetch_one (\<lambda>n. hl_host_id n = h) news of
        Some n \<Rightarrow> if (case lock_of ls1 h of None \<Rightarrow> True | Some l \<Rightarrow> hl_expires_at l \<le> now)
                  then Some n else lock_of ls1 h
      | None \<Rightarrow> lock_of ls1 h)"
    using Cons.IH Cons.prems by simp
  finally show ?case using l1 ok fresh by (cases "h = hl_host_id new") (auto split: option.splits)
qed simp

lemma upsert_locks_complete_iff:
  assumes "distinct (map hl_host_id news)"
  shows "length (fst (upsert_locks now news ls)) = length news \<longleftrightarrow>
     (\<forall>n \<in> set news. case lock_of ls (hl_host_id n) of None \<Rightarrow> True | Some l \<Rightarrow> hl_expires_at l \<le> now)"
  using assms
proof (induction news arbitrary: ls)
  case (Cons new news)
  obtain ok ls1 where u: "upsert_lock now new ls = (ok, ls1)" by fastforce
  obtain hits ls2 where v: "upsert_locks now news ls1 = (hits, ls2)" by fastforce
  have len: "length hits \<le> length news"
    using upsert_locks_hits [of news now ls1] Cons.prems v
    by (metis distinct.simps(2) fst_conv length_filter_le length_map list.simps(9))
  have l1: "lock_of ls1 (hl_host_id n) = lock_of ls (hl_host_id n)" if "n \<in> set news" for n
  proof -
    have "hl_host_id n \<noteq> hl_host_id new" using Cons.prems that by (auto simp: image_iff)
    then show ?thesis using host_locks.acquire_holder [of now new ls "hl_host_id n"] u by simp
  qed
  have ok: "ok \<longleftrightarrow> (case lock_of ls (hl_host_id new) of None \<Rightarrow> True | Some l \<Rightarrow> hl_expires_at l \<le> now)"
    using host_locks.refused_iff [of now new ls] u by simp
  have IH: "length hits = length news \<longleftrightarrow>
     (\<forall>n \<in> set news. case lock_of ls (hl_host_id n) of None \<Rightarrow> True | Some l \<Rightarrow> hl_expires_at l \<le> now)"
    using Cons.IH [of ls1] Cons.prems v l1 by simp
  show ?case using u v ok IH len by auto
qed simp

end
