(* ===== verification/Run_Repository.thy ===== *)
theory Run_Repository
  imports Host_Lock
begin

text \<open>
  \<open>repositories/runs.py\<close>: the SQL statements of the durable queue, the worker leases, the
  host locks, the run events and the one-time secret inputs, as functions on the tables. A
  statement sees the tables at its start; the common table expressions of one statement all
  see the same snapshot. \<open>ORDER BY .. LIMIT 1\<close> on the queue is the head of the sorted list.
\<close>

section \<open>Creation and lookup\<close>

definition get_by_idempotency_key :: "uuid \<Rightarrow> string \<Rightarrow> db \<Rightarrow> run option" where
  "get_by_idempotency_key requested_by key db =
     fetch_one (\<lambda>r. r_requested_by r = requested_by \<and> r_idempotency_key r = key) (runs db)"

text \<open>
  \<open>INSERT INTO runs .. ON CONFLICT (requested_by, idempotency_key) DO NOTHING\<close>, then the
  targets of a row that was inserted. A timeout or fork count outside the column's \<open>CHECK\<close>, a
  reused primary key, or two targets for one host (\<open>UNIQUE (run_id, host_id)\<close>), is a
  constraint violation.
\<close>

definition create_or_get ::
    "run \<Rightarrow> run_target list \<Rightarrow> db \<Rightarrow> ops_error + ((run \<times> bool) \<times> db)" where
  "create_or_get run targets db =
     (if \<not> (1 \<le> r_timeout_seconds run \<and> r_timeout_seconds run \<le> 86400)
      then Inl (CheckViolation ''runs_timeout_seconds_check'')
      else if \<not> (1 \<le> r_forks run \<and> r_forks run \<le> 100) then Inl (CheckViolation ''runs_forks_check'')
      else case get_by_idempotency_key (r_requested_by run) (r_idempotency_key run) db of
        Some persisted \<Rightarrow> Inr ((persisted, False), db)
      | None \<Rightarrow>
          if r_id run \<in> set (map r_id (runs db)) then Inl (UniqueViolation ''runs_pkey'')
          else if \<not> distinct (map t_id (run_targets db @ targets))
            then Inl (UniqueViolation ''run_targets_pkey'')
          else if \<not> distinct (map (\<lambda>t. (t_run_id t, t_host_id t)) (run_targets db @ targets))
            then Inl (UniqueViolation ''run_targets_run_id_host_id_key'')
          else
            let row = run\<lparr>r_next_event_sequence := 1\<rparr>
            in Inr ((row, True),
                    db\<lparr>runs := runs db @ [row], run_targets := run_targets db @ targets\<rparr>))"

definition get_run :: "uuid \<Rightarrow> db \<Rightarrow> run option" where
  "get_run run_id db = fetch_one (\<lambda>r. r_id r = run_id) (runs db)"

definition list_runs :: "nat \<Rightarrow> nat \<Rightarrow> db \<Rightarrow> run list" where
  "list_runs limit offset db =
     take limit (drop offset (rev (sort_key (\<lambda>r. (r_created_at r, r_id r)) (runs db))))"

definition targets_of :: "uuid \<Rightarrow> db \<Rightarrow> run_target list" where
  "targets_of run_id db =
     sort_key t_host_name (filter (\<lambda>t. t_run_id t = run_id) (run_targets db))"

section \<open>Cancellation\<close>

definition request_cancel :: "uuid \<Rightarrow> timestamp \<Rightarrow> db \<Rightarrow> run option \<times> db" where
  "request_cancel run_id now db =
     (let hit = (\<lambda>r. r_id r = run_id \<and> r_status r \<in> {RS_QUEUED, RS_PREPARING, RS_RUNNING});
          change = (\<lambda>r. r\<lparr>r_cancel_requested_at := Some now,
             r_status := (if r_status r = RS_QUEUED then RS_CANCELED else r_status r),
             r_finished_at := (if r_status r = RS_QUEUED then Some now else r_finished_at r),
             r_updated_at := now\<rparr>);
          row = map_option change (fetch_one hit (runs db));
          db1 = db\<lparr>runs := update_where hit change (runs db)\<rparr>;
          db2 = (case row of
                   Some r \<Rightarrow>
                     if r_status r = RS_CANCELED
                     then db1\<lparr>run_targets :=
                            update_where (\<lambda>t. t_run_id t = run_id \<and> t_status t = TS_PENDING)
                              (\<lambda>t. t\<lparr>t_status := TS_CANCELED, t_finished_at := Some now\<rparr>)
                              (run_targets db1)\<rparr>
                     else db1
                 | None \<Rightarrow> db1)
      in (row, db2))"

definition cancellation_requested :: "uuid \<Rightarrow> db \<Rightarrow> bool" where
  "cancellation_requested run_id db =
     (case get_run run_id db of None \<Rightarrow> False | Some r \<Rightarrow> r_cancel_requested_at r \<noteq> None)"

section \<open>Leases, claims and host locks\<close>

definition heartbeat :: "string \<Rightarrow> uuid option \<Rightarrow> timestamp \<Rightarrow> timestamp \<Rightarrow> db \<Rightarrow> db" where
  "heartbeat worker_id run_id now expires_at db =
     (let leases = worker_leases db;
          leases' =
            (if worker_id \<in> set (map wl_worker_id leases)
             then update_where (\<lambda>l. wl_worker_id l = worker_id)
                    (\<lambda>l. l\<lparr>wl_run_id := run_id, wl_heartbeat_at := now, wl_expires_at := expires_at\<rparr>)
                    leases
             else leases @ [\<lparr>wl_worker_id = worker_id, wl_run_id = run_id,
                             wl_heartbeat_at = now, wl_expires_at = expires_at\<rparr>])
      in db\<lparr>worker_leases := leases',
            host_execution_locks :=
              update_where (\<lambda>l. hl_owner_id l = worker_id \<and> hl_run_id l \<noteq> None)
                (\<lambda>l. l\<lparr>hl_expires_at := expires_at\<rparr>) (host_execution_locks db)\<rparr>)"

text \<open>
  The candidate query of \<open>claim_next\<close>: the oldest \<open>QUEUED\<close> run none of whose target hosts has an
  unexpired lock. \<open>FOR UPDATE SKIP LOCKED\<close> leaves out the rows other transactions hold;
  their ids are the argument \<open>locked_rows\<close>.
\<close>

definition host_blocked :: "timestamp \<Rightarrow> db \<Rightarrow> run \<Rightarrow> bool" where
  "host_blocked now db r \<longleftrightarrow>
     (\<exists>t \<in> set (run_targets db). \<exists>l \<in> set (host_execution_locks db).
        t_run_id t = r_id r \<and> hl_host_id l = t_host_id t \<and> hl_expires_at l > now)"

definition claim_eligible :: "uuid list \<Rightarrow> timestamp \<Rightarrow> db \<Rightarrow> run \<Rightarrow> bool" where
  "claim_eligible locked_rows now db r \<longleftrightarrow>
     r_status r = RS_QUEUED \<and> \<not> host_blocked now db r \<and> r_id r \<notin> set locked_rows"

definition claim_candidate :: "uuid list \<Rightarrow> timestamp \<Rightarrow> db \<Rightarrow> run option" where
  "claim_candidate locked_rows now db =
     (case sort_key (\<lambda>r. (r_created_at r, r_id r))
             (filter (claim_eligible locked_rows now db) (runs db)) of
        [] \<Rightarrow> None
      | r # _ \<Rightarrow> Some r)"

definition claimed_row :: "string \<Rightarrow> timestamp \<Rightarrow> run \<Rightarrow> run" where
  "claimed_row worker_id now r =
     r\<lparr>r_status := RS_PREPARING, r_claimed_by := Some worker_id, r_claimed_at := Some now,
       r_started_at := Some now, r_updated_at := now\<rparr>"

definition run_lock :: "uuid \<Rightarrow> string \<Rightarrow> timestamp \<Rightarrow> timestamp \<Rightarrow> uuid \<Rightarrow> host_lock" where
  "run_lock run_id worker_id now expires_at host_id =
     \<lparr>hl_host_id = host_id, hl_run_id = Some run_id, hl_owner_id = worker_id,
      hl_acquired_at = now, hl_expires_at = expires_at, hl_web_shell_session_id = None\<rparr>"

definition target_host_ids :: "uuid \<Rightarrow> db \<Rightarrow> uuid list" where
  "target_host_ids run_id db =
     sort (map t_host_id (filter (\<lambda>t. t_run_id t = run_id) (run_targets db)))"

text \<open>
  \<open>claim_next\<close> runs three statements in one transaction. Under \<open>READ COMMITTED\<close> the second one
  sees what other transactions committed after the first; \<open>others\<close> is their effect.
\<close>

definition claim_next ::
    "(db \<Rightarrow> db) \<Rightarrow> uuid list \<Rightarrow> string \<Rightarrow> timestamp \<Rightarrow> timestamp \<Rightarrow> db \<Rightarrow>
     ops_error + (run option \<times> db)" where
  "claim_next others locked_rows worker_id now lease_expires_at db =
     (case claim_candidate locked_rows now db of
        None \<Rightarrow> Inr (None, db)
      | Some r \<Rightarrow>
          let run = claimed_row worker_id now r;
              db1 = others (db\<lparr>runs := update_where (\<lambda>x. r_id x = r_id r)
                                        (claimed_row worker_id now) (runs db)\<rparr>);
              wanted = target_host_ids (r_id run) db1;
              news = map (run_lock (r_id run) worker_id now lease_expires_at) wanted;
              (locked, locks) = upsert_locks now news (host_execution_locks db1)
          in if length locked \<noteq> length wanted then Inl ClaimCollisionError
             else Inr (Some run, db1\<lparr>host_execution_locks := locks\<rparr>))"

text \<open>
  \<open>recover_stale\<close> is one statement; its expressions share the snapshot \<open>db\<close>.
\<close>

definition stale_workers :: "timestamp \<Rightarrow> db \<Rightarrow> string list" where
  "stale_workers now db =
     map wl_worker_id (filter (\<lambda>l. wl_expires_at l \<le> now) (worker_leases db))"

definition interrupted_by_recovery :: "timestamp \<Rightarrow> db \<Rightarrow> run \<Rightarrow> bool" where
  "interrupted_by_recovery now db r \<longleftrightarrow>
     (case r_claimed_by r of None \<Rightarrow> False | Some w \<Rightarrow> w \<in> set (stale_workers now db))
     \<and> r_status r \<in> {RS_PREPARING, RS_RUNNING}"

definition recover_stale :: "timestamp \<Rightarrow> db \<Rightarrow> nat \<times> db" where
  "recover_stale now db =
     (let interrupted = filter (interrupted_by_recovery now db) (runs db);
          ids = map r_id interrupted
      in (length interrupted,
          db\<lparr>worker_leases := delete_where (\<lambda>l. wl_expires_at l \<le> now) (worker_leases db),
             runs := update_where (interrupted_by_recovery now db)
               (\<lambda>r. r\<lparr>r_status := RS_INTERRUPTED, r_finished_at := Some now, r_updated_at := now,
                       r_failure_code := Some ''WORKER_LEASE_EXPIRED'',
                       r_failure_message := Some ''worker lease expired during execution''\<rparr>)
               (runs db),
             run_targets := update_where
               (\<lambda>t. t_run_id t \<in> set ids \<and> t_status t \<in> {TS_PENDING, TS_RUNNING})
               (\<lambda>t. t\<lparr>t_status := TS_INTERRUPTED, t_finished_at := Some now\<rparr>) (run_targets db),
             host_execution_locks := delete_where
               (\<lambda>l. hl_expires_at l \<le> now \<or>
                     (case hl_run_id l of None \<Rightarrow> False | Some i \<Rightarrow> i \<in> set ids))
               (host_execution_locks db)\<rparr>))"

section \<open>Execution\<close>

definition mark_running :: "uuid \<Rightarrow> timestamp \<Rightarrow> db \<Rightarrow> db" where
  "mark_running run_id now db =
     db\<lparr>runs := update_where (\<lambda>r. r_id r = run_id \<and> r_status r = RS_PREPARING)
          (\<lambda>r. r\<lparr>r_status := RS_RUNNING, r_updated_at := now\<rparr>) (runs db),
        run_targets := update_where (\<lambda>t. t_run_id t = run_id \<and> t_status t = TS_PENDING)
          (\<lambda>t. t\<lparr>t_status := TS_RUNNING, t_started_at := Some now\<rparr>) (run_targets db)\<rparr>"

fun fallback_target_status :: "run_status \<Rightarrow> run_target_status" where
  "fallback_target_status RS_CANCELED = TS_CANCELED"
| "fallback_target_status RS_INTERRUPTED = TS_INTERRUPTED"
| "fallback_target_status RS_SUCCEEDED = TS_SKIPPED"
| "fallback_target_status RS_PARTIAL = TS_SKIPPED"
| "fallback_target_status _ = TS_FAILED"

definition finish ::
    "uuid \<Rightarrow> string \<Rightarrow> run_status \<Rightarrow> int option \<Rightarrow> jobj \<Rightarrow> string option \<Rightarrow> string option \<Rightarrow>
     timestamp \<Rightarrow> db \<Rightarrow> run option \<times> db" where
  "finish run_id worker_id status return_code summary failure_code failure_message now db =
     (let hit = (\<lambda>r. r_id r = run_id \<and> r_claimed_by r = Some worker_id \<and>
                     r_status r \<in> {RS_PREPARING, RS_RUNNING});
          change = (\<lambda>r. r\<lparr>r_status := status, r_return_code := return_code, r_summary := summary,
             r_failure_code := failure_code, r_failure_message := failure_message,
             r_finished_at := Some now, r_updated_at := now\<rparr>)
      in (map_option change (fetch_one hit (runs db)),
          db\<lparr>run_targets := update_where
               (\<lambda>t. t_run_id t = run_id \<and> t_status t \<in> {TS_PENDING, TS_RUNNING})
               (\<lambda>t. t\<lparr>t_status := fallback_target_status status, t_finished_at := Some now\<rparr>)
               (run_targets db),
             runs := update_where hit change (runs db),
             host_execution_locks :=
               delete_where (\<lambda>l. hl_run_id l = Some run_id) (host_execution_locks db),
             worker_leases := update_where
               (\<lambda>l. wl_worker_id l = worker_id \<and> wl_run_id l = Some run_id)
               (\<lambda>l. l\<lparr>wl_run_id := None\<rparr>) (worker_leases db)\<rparr>))"

definition finish_target ::
    "uuid \<Rightarrow> run_target_status \<Rightarrow> int option \<Rightarrow> string \<Rightarrow> string \<Rightarrow> jobj \<Rightarrow> bool \<Rightarrow> nat \<Rightarrow> nat \<Rightarrow>
     nat \<Rightarrow> timestamp \<Rightarrow> db \<Rightarrow> db" where
  "finish_target run_target_id status return_code out err result truncated changed failed
     unreachable now db =
     db\<lparr>run_targets := update_where (\<lambda>t. t_id t = run_target_id)
          (\<lambda>t. t\<lparr>t_status := status, t_return_code := return_code, t_stdout := out,
                 t_stderr := err, t_result := result, t_output_truncated := truncated,
                 t_changed_count := changed, t_failed_count := failed,
                 t_unreachable_count := unreachable, t_finished_at := Some now\<rparr>)
          (run_targets db)\<rparr>"

section \<open>Events\<close>

text \<open>
  \<open>append_event\<close> takes the next sequence number from the run row in the same transaction and
  stores the event with it; without a run row it raises.
\<close>

definition append_event :: "run_event \<Rightarrow> db \<Rightarrow> ops_error + (run_event \<times> db)" where
  "append_event ev db =
     (case get_run (ev_run_id ev) db of
        None \<Rightarrow> Inl (RuntimeErr ''event sequence allocation returned no row'')
      | Some r \<Rightarrow>
          let stored = ev\<lparr>ev_sequence := r_next_event_sequence r\<rparr>
          in Inr (stored,
                  db\<lparr>runs := update_where (\<lambda>x. r_id x = ev_run_id ev)
                        (\<lambda>x. x\<lparr>r_next_event_sequence := r_next_event_sequence x + 1\<rparr>) (runs db),
                     run_events := run_events db @ [stored]\<rparr>))"

definition events_after :: "uuid \<Rightarrow> nat \<Rightarrow> nat \<Rightarrow> db \<Rightarrow> run_event list" where
  "events_after run_id sequence limit db =
     take limit (sort_key ev_sequence
       (filter (\<lambda>e. ev_run_id e = run_id \<and> ev_sequence e > sequence) (run_events db)))"

section \<open>One-time secret inputs\<close>

definition add_secret_inputs ::
    "uuid \<Rightarrow> bytes \<Rightarrow> nat \<Rightarrow> string list \<Rightarrow> db \<Rightarrow> ops_error + (unit \<times> db)" where
  "add_secret_inputs run_id payload key_version names db =
     (if run_id \<in> set (map si_run_id (run_secret_inputs db))
      then Inl (UniqueViolation ''run_secret_inputs_pkey'')
      else Inr ((), db\<lparr>run_secret_inputs := run_secret_inputs db @
             [\<lparr>si_run_id = run_id, si_encrypted_payload = payload, si_key_version = key_version,
               si_parameter_names = names\<rparr>]\<rparr>))"

definition delete_secret_inputs :: "uuid \<Rightarrow> db \<Rightarrow> secret_input option \<times> db" where
  "delete_secret_inputs run_id db =
     (fetch_one (\<lambda>s. si_run_id s = run_id) (run_secret_inputs db),
      db\<lparr>run_secret_inputs := delete_where (\<lambda>s. si_run_id s = run_id) (run_secret_inputs db)\<rparr>)"

section \<open>Dashboard\<close>

record dashboard_row =
  dash_host_count :: nat
  dash_enabled_host_count :: nat
  dash_runs_today :: nat
  dash_failed_runs :: nat
  dash_active_runs :: nat

text \<open>\<open>date_trunc('day', now())\<close> is taken in UTC.\<close>

definition dashboard :: "timestamp \<Rightarrow> db \<Rightarrow> dashboard_row" where
  "dashboard now db =
     \<lparr>dash_host_count = length (hosts db),
      dash_enabled_host_count = length (filter h_enabled (hosts db)),
      dash_runs_today =
        length (filter (\<lambda>r. r_created_at r \<ge> now - now mod seconds 86400) (runs db)),
      dash_failed_runs =
        length (filter (\<lambda>r. r_status r \<in> {RS_FAILED, RS_PARTIAL, RS_TIMED_OUT, RS_INTERRUPTED,
                                           RS_REJECTED}) (runs db)),
      dash_active_runs =
        length (filter (\<lambda>r. r_status r \<in> {RS_QUEUED, RS_PREPARING, RS_RUNNING}) (runs db))\<rparr>"

end
