(* ===== verification/Assets.thy ===== *)
theory Assets
  imports Database
begin

text \<open>
  The queries of \<open>repositories/assets.py\<close> through which runs and Web Shell sessions see hosts,
  credentials, groups and host keys: target resolution, host lookup and host keys. Rows come out in
  the order of the query's \<open>ORDER BY\<close>; names are compared by code points.
\<close>

definition get_host :: "uuid \<Rightarrow> db \<Rightarrow> host option" where
  "get_host host_id db = fetch_one (\<lambda>h. h_id h = host_id) (hosts db)"

definition get_group :: "uuid \<Rightarrow> db \<Rightarrow> host_group option" where
  "get_group group_id db = fetch_one (\<lambda>g. g_id g = group_id) (host_groups db)"

definition get_credential_revision :: "uuid \<Rightarrow> nat \<Rightarrow> db \<Rightarrow> credential_revision option" where
  "get_credential_revision credential_id version db =
     fetch_one (\<lambda>c. cr_credential_id c = credential_id \<and> cr_version c = version)
       (credential_revisions db)"

section \<open>Target resolution\<close>

definition resolved_row :: "jobj \<Rightarrow> host \<Rightarrow> credential \<Rightarrow> resolved_host" where
  "resolved_row group_variables h c =
     \<lparr>rh_host_id = h_id h, rh_name = h_name h, rh_address = h_address h,
      rh_ssh_port = h_ssh_port h, rh_credential_id = h_credential_id h,
      rh_credential_version = c_current_version c, rh_credential_type = c_type c,
      rh_credential_username = c_username c, rh_credential_public_config = c_public_config c,
      rh_python_interpreter = h_python_interpreter h, rh_host_variables = h_variables h,
      rh_group_variables = group_variables\<rparr>"

text \<open>The join of \<open>hosts\<close> and \<open>credentials\<close> with the filter the three queries share.\<close>

definition usable_pair :: "host \<Rightarrow> credential \<Rightarrow> bool" where
  "usable_pair h c \<longleftrightarrow>
     c_id c = h_credential_id h \<and> h_enabled h \<and> c_enabled c \<and> c_deleted_at c = None"

definition usable_rows :: "(host \<Rightarrow> bool) \<Rightarrow> jobj \<Rightarrow> db \<Rightarrow> resolved_host list" where
  "usable_rows p group_variables db =
     concat (map (\<lambda>h. map (resolved_row group_variables h)
                          (filter (usable_pair h) (credentials db)))
                 (filter p (hosts db)))"

definition resolve_all_hosts :: "db \<Rightarrow> resolved_host list" where
  "resolve_all_hosts db = sort_key rh_name (usable_rows (\<lambda>h. True) [] db)"

definition resolve_host_ids :: "uuid list \<Rightarrow> db \<Rightarrow> resolved_host list" where
  "resolve_host_ids host_ids db =
     sort_key rh_name (usable_rows (\<lambda>h. h_id h \<in> set host_ids) [] db)"

definition resolve_group_hosts :: "uuid \<Rightarrow> db \<Rightarrow> resolved_host list" where
  "resolve_group_hosts group_id db =
     (case get_group group_id db of
        None \<Rightarrow> []
      | Some g \<Rightarrow>
          sort_key rh_name
            (usable_rows (\<lambda>h. (group_id, h_id h) \<in> set (host_group_members db))
               (g_variables g) db))"

section \<open>Host keys\<close>

definition list_host_keys :: "uuid \<Rightarrow> db \<Rightarrow> host_key list" where
  "list_host_keys host_id db =
     sort_key hk_algorithm (filter (\<lambda>k. hk_host_id k = host_id) (host_keys db))"

text \<open>\<open>dict.fromkeys\<close> keeps the first occurrence of every id.\<close>

fun dict_fromkeys :: "'a list \<Rightarrow> 'a list" where
  "dict_fromkeys [] = []"
| "dict_fromkeys (x # xs) = x # filter (\<lambda>y. y \<noteq> x) (dict_fromkeys xs)"

definition host_ids_without_keys :: "uuid list \<Rightarrow> db \<Rightarrow> uuid list" where
  "host_ids_without_keys host_ids db =
     filter (\<lambda>i. i \<notin> set (map hk_host_id (host_keys db))) (dict_fromkeys host_ids)"

section \<open>What the queries return\<close>

lemma set_dict_fromkeys [simp]: "set (dict_fromkeys xs) = set xs"
  by (induction xs) auto

lemma distinct_dict_fromkeys [simp]: "distinct (dict_fromkeys xs)"
  by (induction xs) auto

lemma host_ids_without_keys_Nil_iff:
  "host_ids_without_keys ids db = [] \<longleftrightarrow> (\<forall>i \<in> set ids. list_host_keys i db \<noteq> [])"
proof -
  have "list_host_keys i db \<noteq> [] \<longleftrightarrow> i \<in> set (map hk_host_id (host_keys db))" for i
    by (auto simp: list_host_keys_def filter_empty_conv simp flip: set_empty)
  then show ?thesis by (auto simp: host_ids_without_keys_def filter_empty_conv)
qed

lemma set_usable_rows:
  "x \<in> set (usable_rows p gv db) \<longleftrightarrow>
     (\<exists>h \<in> set (hosts db). \<exists>c \<in> set (credentials db).
        p h \<and> usable_pair h c \<and> x = resolved_row gv h c)"
  by (auto simp: usable_rows_def)

text \<open>A host has one credential, so with keyed tables every host contributes at most one row.\<close>

lemma at_most_one_by_key:
  assumes "distinct (map key rows)" and "\<And>r. p r \<Longrightarrow> key r = k"
  shows "filter p rows = [] \<or> (\<exists>r. filter p rows = [r])"
  using assms
proof (induction rows)
  case (Cons r rows)
  show ?case
  proof (cases "p r")
    case True
    then have "\<forall>x \<in> set rows. \<not> p x" using Cons.prems by (auto simp: image_iff)
    then show ?thesis using True by (simp add: filter_empty_conv)
  next
    case False
    then show ?thesis using Cons by simp
  qed
qed simp

lemma map_host_usable_rows:
  assumes "distinct (map c_id (credentials db))"
  shows "map rh_host_id (usable_rows p gv db) =
     map h_id (filter (\<lambda>h. p h \<and> (\<exists>c \<in> set (credentials db). usable_pair h c)) (hosts db))"
proof -
  have one: "map rh_host_id (map (resolved_row gv h) (filter (usable_pair h) (credentials db))) =
      (if \<exists>c \<in> set (credentials db). usable_pair h c then [h_id h] else [])" for h
  proof -
    have "filter (usable_pair h) (credentials db) = [] \<or> (\<exists>c. filter (usable_pair h) (credentials db) = [c])"
      using assms by (rule at_most_one_by_key) (simp add: usable_pair_def)
    then show ?thesis
    proof
      assume "\<exists>c. filter (usable_pair h) (credentials db) = [c]"
      then obtain c where c: "filter (usable_pair h) (credentials db) = [c]" ..
      then have "c \<in> set (filter (usable_pair h) (credentials db))" by simp
      then have "c \<in> set (credentials db) \<and> usable_pair h c" by simp
      then show ?thesis using c by (auto simp: resolved_row_def)
    qed (auto simp: filter_empty_conv)
  qed
  have "map rh_host_id (concat (map (\<lambda>h. map (resolved_row gv h)
          (filter (usable_pair h) (credentials db))) hs)) =
      map h_id (filter (\<lambda>h. \<exists>c \<in> set (credentials db). usable_pair h c) hs)" for hs
    using one by (induction hs) auto
  then show ?thesis by (simp add: usable_rows_def conj_commute)
qed

end
