(* ===== verification/Py_Text.thy ===== *)
theory Py_Text
  imports Prelude
begin

text \<open>
  The methods of Python's \<open>str\<close> the sources use, on ASCII text: \<open>casefold\<close>, \<open>in\<close>, \<open>startswith\<close>,
  \<open>endswith\<close>, \<open>replace\<close>, \<open>strip\<close>, \<open>split\<close>, \<open>join\<close> and \<open>str\<close> of an integer, with the facts the
  components need. A \<open>str\<close> is a list of characters; the UTF-8 encoding of ASCII text has
  one byte per character.
\<close>

section \<open>Definitions\<close>

definition lower_char :: "char \<Rightarrow> char" where
  "lower_char c = (if CHR ''A'' \<le> c \<and> c \<le> CHR ''Z'' then char_of (of_char c + 32 :: nat) else c)"

definition casefold :: "string \<Rightarrow> string" where
  "casefold s = map lower_char s"

definition startswith :: "'a list \<Rightarrow> 'a list \<Rightarrow> bool" where
  "startswith p s \<longleftrightarrow> take (length p) s = p"

definition endswith :: "'a list \<Rightarrow> 'a list \<Rightarrow> bool" where
  "endswith p s \<longleftrightarrow> startswith (rev p) (rev s)"

fun contains :: "'a list \<Rightarrow> 'a list \<Rightarrow> bool" where
  "contains p [] \<longleftrightarrow> p = []"
| "contains p (c # s) \<longleftrightarrow> startswith p (c # s) \<or> contains p s"

text \<open>
  \<open>s.replace(old, new)\<close> for a non-empty \<open>old\<close>: every leftmost, non-overlapping occurrence.
\<close>

function py_replace :: "'a list \<Rightarrow> 'a list \<Rightarrow> 'a list \<Rightarrow> 'a list" where
  "py_replace old new [] = []"
| "py_replace old new (c # s) =
     (if old \<noteq> [] \<and> startswith old (c # s)
      then new @ py_replace old new (drop (length old) (c # s))
      else c # py_replace old new s)"
  by pat_completeness auto
termination
proof (relation "measure (\<lambda>(old, new, s). length s)")
  show "wf (measure (\<lambda>(old, new, s). length s))" by simp
next
  fix old new :: "'a list" and c :: 'a and s :: "'a list"
  assume "old \<noteq> [] \<and> startswith old (c # s)"
  then have "length old \<noteq> 0" by simp
  then show "((old, new, drop (length old) (c # s)), (old, new, c # s))
      \<in> measure (\<lambda>(old, new, s). length s)"
    by (cases old) auto
next
  fix old new :: "'a list" and c :: 'a and s :: "'a list"
  show "((old, new, s), (old, new, c # s)) \<in> measure (\<lambda>(old, new, s). length s)" by simp
qed

definition is_space :: "char \<Rightarrow> bool" where
  "is_space c \<longleftrightarrow> c \<in> {CHR 0x09, CHR 0x0A, CHR 0x0B, CHR 0x0C, CHR 0x0D, CHR 0x1C, CHR 0x1D,
                      CHR 0x1E, CHR 0x1F, CHR 0x20}"

definition py_strip :: "string \<Rightarrow> string" where
  "py_strip s = rev (dropWhile is_space (rev (dropWhile is_space s)))"

fun py_split :: "'a \<Rightarrow> 'a list \<Rightarrow> 'a list list" where
  "py_split sep [] = [[]]"
| "py_split sep (c # s) =
     (if c = sep then [] # py_split sep s
      else case py_split sep s of [] \<Rightarrow> [[c]] | part # parts \<Rightarrow> (c # part) # parts)"

fun py_join :: "'a list \<Rightarrow> 'a list list \<Rightarrow> 'a list" where
  "py_join sep [] = []"
| "py_join sep [part] = part"
| "py_join sep (part # parts) = part @ sep @ py_join sep parts"

fun str_nat :: "nat \<Rightarrow> string" where
  "str_nat n = (if n < 10 then [char_of (48 + n)] else str_nat (n div 10) @ [char_of (48 + n mod 10)])"

declare str_nat.simps [simp del]

definition str_int :: "int \<Rightarrow> string" where
  "str_int i = (if i < 0 then CHR ''-'' # str_nat (nat (- i)) else str_nat (nat i))"

definition hex_digit :: "nat \<Rightarrow> char" where
  "hex_digit n = (if n < 10 then char_of (48 + n) else char_of (87 + n))"

text \<open>\<open>str(uuid)\<close>: 32 hexadecimal digits in groups of 8, 4, 4, 4 and 12.\<close>

definition uuid_hex :: "uuid \<Rightarrow> string" where
  "uuid_hex u = map (\<lambda>i. hex_digit (u div 16 ^ (31 - i) mod 16)) [0..<32]"

definition uuid_str :: "uuid \<Rightarrow> string" where
  "uuid_str u =
     (let h = uuid_hex u in
      take 8 h @ ''-'' @ take 4 (drop 8 h) @ ''-'' @ take 4 (drop 12 h) @ ''-'' @
      take 4 (drop 16 h) @ ''-'' @ drop 20 h)"

definition encode_ascii :: "string \<Rightarrow> bytes" where
  "encode_ascii s = map of_char s"

section \<open>Substrings\<close>

lemma startswith_Nil [simp]: "startswith [] s"
  by (simp add: startswith_def)

lemma startswith_Nil_right [simp]: "startswith p [] \<longleftrightarrow> p = []"
  by (auto simp: startswith_def)

lemma startswith_Cons [simp]: "startswith (a # p) (b # s) \<longleftrightarrow> a = b \<and> startswith p s"
  by (auto simp: startswith_def)

lemma startswith_iff: "startswith p s \<longleftrightarrow> (\<exists>t. s = p @ t)"
  by (metis append_eq_conv_conj append_take_drop_id startswith_def)

lemma startswith_append: "startswith p s \<Longrightarrow> startswith p (s @ t)"
  by (auto simp: startswith_iff)

lemma contains_Nil [simp]: "contains [] s"
  by (cases s) auto

lemma startswith_contains: "startswith p s \<Longrightarrow> contains p s"
  by (cases s) auto

lemma contains_iff: "contains p s \<longleftrightarrow> (\<exists>u v. s = u @ p @ v)"
proof (induction s)
  case (Cons c s)
  show ?case
  proof
    assume "contains p (c # s)"
    then consider "startswith p (c # s)" | "contains p s" by auto
    then show "\<exists>u v. c # s = u @ p @ v"
    proof cases
      case 1
      then show ?thesis by (metis append_Nil startswith_iff)
    next
      case 2
      then show ?thesis using Cons.IH by (metis append_Cons)
    qed
  next
    assume "\<exists>u v. c # s = u @ p @ v"
    then obtain u v where uv: "c # s = u @ p @ v" by blast
    show "contains p (c # s)"
    proof (cases u)
      case Nil
      then have "startswith p (c # s)" using uv by (auto simp: startswith_iff)
      then show ?thesis by simp
    next
      case (Cons a u')
      then show ?thesis using uv Cons.IH by auto
    qed
  qed
qed simp

text \<open>A separator that does not occur in the pattern splits the search.\<close>

lemma startswith_sep:
  assumes "x \<notin> set p"
  shows "startswith p (a @ x # b) \<longleftrightarrow> startswith p a"
  using assms
proof (induction p arbitrary: a)
  case (Cons q p)
  then show ?case by (cases a) auto
qed simp

lemma contains_sep:
  assumes "x \<notin> set p"
  shows "contains p (a @ x # b) \<longleftrightarrow> contains p a \<or> contains p b"
proof (induction a)
  case Nil
  then show ?case using assms by (cases p) auto
next
  case (Cons c a)
  have "startswith p (c # a @ x # b) \<longleftrightarrow> startswith p (c # a)"
    using startswith_sep [OF assms, of "c # a" b] by simp
  then show ?case using Cons.IH by auto
qed

text \<open>
  \<open>replace\<close> with a replacement that is set off by a separator: an occurrence of a pattern
  without the separators was there before, or lies inside the replacement.
\<close>

lemma startswith_replace:
  assumes "x \<notin> set p" and "startswith p (py_replace u (x # new) s)"
  shows "startswith p s"
  using assms
proof (induction s arbitrary: p)
  case (Cons c s)
  show ?case
  proof (cases "u \<noteq> [] \<and> startswith u (c # s)")
    case True
    then show ?thesis using Cons.prems by (cases p) auto
  next
    case False
    then have "startswith p (c # py_replace u (x # new) s)" using Cons.prems by auto
    then show ?thesis using Cons.IH [of "tl p"] Cons.prems by (cases p) auto
  qed
qed simp

lemma contains_replaceD:
  assumes "x \<notin> set p" and "y \<notin> set p" and "contains p (py_replace u (x # new @ [y]) s)"
  shows "contains p new \<or> contains p s"
  using assms(3)
proof (induction u "x # new @ [y]" s rule: py_replace.induct)
  case (2 u c s)
  show ?case
  proof (cases "u \<noteq> [] \<and> startswith u (c # s)")
    case True
    then have "contains p ([] @ x # (new @ y # py_replace u (x # new @ [y]) (drop (length u) (c # s))))"
      using 2 by auto
    then have "contains p [] \<or> contains p new \<or>
        contains p (py_replace u (x # new @ [y]) (drop (length u) (c # s)))"
      using contains_sep [OF assms(1)] contains_sep [OF assms(2)] by blast
    then have "p = [] \<or> contains p new \<or> contains p (drop (length u) (c # s))"
      using 2(1) True by auto
    moreover have "contains p (c # s)" if "contains p (drop (length u) (c # s))"
      using that by (metis append.assoc append_take_drop_id contains_iff)
    ultimately show ?thesis by auto
  next
    case False
    then have "contains p (c # py_replace u (x # new @ [y]) s)" using 2 by auto
    then consider "startswith p (py_replace u (x # new @ [y]) (c # s))" | "contains p (py_replace u (x # new @ [y]) s)"
      using False by auto
    then show ?thesis
    proof cases
      case 1
      then have "startswith p (c # s)" by (rule startswith_replace [OF assms(1)])
      then show ?thesis by simp
    next
      case 2
      then show ?thesis using "2.hyps"(2) False by auto
    qed
  qed
qed simp

lemma contains_replace_self:
  assumes "x \<notin> set p" and "y \<notin> set p" and "p \<noteq> []" and "\<not> contains p new"
  shows "\<not> contains p (py_replace p (x # new @ [y]) s)"
proof (induction s rule: length_induct)
  case (1 s)
  show ?case
  proof (cases s)
    case Nil
    then show ?thesis using assms(3) by simp
  next
    case (Cons c s')
    show ?thesis
    proof (cases "startswith p s")
      case True
      have "length (drop (length p) s) < length s" using assms(3) Cons by simp
      then have "\<not> contains p (py_replace p (x # new @ [y]) (drop (length p) s))" using 1 by blast
      moreover have "py_replace p (x # new @ [y]) s =
          [] @ x # (new @ y # py_replace p (x # new @ [y]) (drop (length p) s))"
        using True Cons assms(3) by simp
      ultimately show ?thesis
        using contains_sep [OF assms(1)] contains_sep [OF assms(2)] assms(3,4) by (metis contains.simps(1))
    next
      case False
      then have "\<not> startswith p (py_replace p (x # new @ [y]) s)"
        using startswith_replace [OF assms(1)] by blast
      moreover have "\<not> contains p (py_replace p (x # new @ [y]) s')" using 1 Cons by simp
      ultimately show ?thesis using False Cons by simp
    qed
  qed
qed

section \<open>Splitting and joining\<close>

lemma py_split_not_Nil [simp]: "py_split sep s \<noteq> []"
  by (induction s) (auto split: list.splits)

lemma py_join_split: "py_join [sep] (py_split sep s) = s"
proof (induction s)
  case (Cons c s)
  obtain part parts where sp: "py_split sep s = part # parts"
    using py_split_not_Nil by (metis neq_Nil_conv)
  then show ?case using Cons.IH by (cases parts) auto
qed simp

lemma py_split_part: "part \<in> set (py_split sep s) \<Longrightarrow> sep \<notin> set part"
  by (induction s arbitrary: part) (auto split: list.splits if_splits)

lemma py_split_join:
  assumes "parts \<noteq> []" and "\<And>part. part \<in> set parts \<Longrightarrow> sep \<notin> set part"
  shows "py_split sep (py_join [sep] parts) = parts"
  using assms
proof (induction "[sep]" parts rule: py_join.induct)
  case (2 part)
  have "py_split sep part = [part]" if "sep \<notin> set part" for part
    using that by (induction part) auto
  then show ?case using 2 by simp
next
  case (3 part q parts)
  have "py_split sep (part @ sep # t) = part # py_split sep t" if "sep \<notin> set part" for part t
    using that by (induction part) auto
  then show ?case using 3 by simp
qed simp

lemma set_py_join: "set (py_join [sep] parts) \<subseteq> insert sep (\<Union> (set ` set parts))"
  by (induction "[sep]" parts rule: py_join.induct) auto

section \<open>Case folding\<close>

lemma lower_char_idem [simp]: "lower_char (lower_char c) = lower_char c"
  by (auto simp: lower_char_def less_eq_char_def)

lemma casefold_idem [simp]: "casefold (casefold s) = casefold s"
  by (simp add: casefold_def)

lemma casefold_append [simp]: "casefold (s @ t) = casefold s @ casefold t"
  by (simp add: casefold_def)

lemma lower_char_eq_iff:
  assumes "\<not> (CHR ''A'' \<le> x \<and> x \<le> CHR ''Z'')" and "\<not> (CHR ''a'' \<le> x \<and> x \<le> CHR ''z'')"
  shows "lower_char c = x \<longleftrightarrow> c = x"
  using assms by (auto simp: lower_char_def less_eq_char_def)

lemma py_split_casefold:
  assumes "\<not> (CHR ''A'' \<le> sep \<and> sep \<le> CHR ''Z'')" and "\<not> (CHR ''a'' \<le> sep \<and> sep \<le> CHR ''z'')"
  shows "py_split sep (casefold s) = map casefold (py_split sep s)"
proof (induction s)
  case (Cons c s)
  then show ?case
    using lower_char_eq_iff [OF assms, of c] by (cases "py_split sep s") (auto simp: casefold_def)
qed (simp add: casefold_def)

section \<open>Replacing\<close>

lemma py_replace_absent: "x \<in> set old \<Longrightarrow> x \<notin> set s \<Longrightarrow> py_replace old new s = s"
proof (induction s)
  case (Cons c s)
  have "set old \<subseteq> set (c # s)" if "startswith old (c # s)"
    using that by (metis Un_upper1 set_append startswith_iff)
  then have "\<not> startswith old (c # s)" using Cons.prems by blast
  then show ?case using Cons by simp
qed simp

lemma py_replace_single: "py_replace [x] new s = concat (map (\<lambda>c. if c = x then new else [c]) s)"
  by (induction s) auto

section \<open>Numbers and identifiers as text\<close>

definition digits_value :: "string \<Rightarrow> nat" where
  "digits_value s = foldl (\<lambda>v c. v * 10 + (of_char c - 48)) 0 s"

lemma digits_value_str_nat [simp]: "digits_value (str_nat n) = n"
proof (induction n rule: str_nat.induct)
  case (1 n)
  show ?case
  proof (cases "n < 10")
    case True
    then show ?thesis by (subst str_nat.simps) (simp add: digits_value_def)
  next
    case False
    then have "digits_value (str_nat n) = digits_value (str_nat (n div 10)) * 10 + n mod 10"
      by (subst str_nat.simps) (simp add: digits_value_def)
    then show ?thesis using 1 False by simp
  qed
qed

lemma str_nat_inj: "str_nat n = str_nat m \<Longrightarrow> n = m"
  by (metis digits_value_str_nat)

lemma str_nat_chars: "c \<in> set (str_nat n) \<Longrightarrow> CHR ''0'' \<le> c \<and> c \<le> CHR ''9''"
proof (induction n rule: str_nat.induct)
  case (1 n)
  have digit: "CHR ''0'' \<le> char_of (48 + k) \<and> char_of (48 + k) \<le> CHR ''9''" if "k < 10" for k :: nat
    using that by (simp add: less_eq_char_def)
  show ?case
  proof (cases "n < 10")
    case True
    then show ?thesis using 1(2) digit [of n] by (subst (asm) str_nat.simps) simp
  next
    case False
    then have "c \<in> set (str_nat (n div 10)) \<or> c = char_of (48 + n mod 10)"
      using 1(2) by (subst (asm) str_nat.simps) auto
    then show ?thesis using 1(1) False digit [of "n mod 10"] by auto
  qed
qed

lemma hex_digit_inj: "n < 16 \<Longrightarrow> m < 16 \<Longrightarrow> hex_digit n = hex_digit m \<Longrightarrow> n = m"
  by (auto simp: hex_digit_def split: if_splits dest!: arg_cong [where f = "of_char :: char \<Rightarrow> nat"])

lemma mod_power_digits:
  fixes u w :: nat
  assumes "\<And>i. i < k \<Longrightarrow> u div 16 ^ i mod 16 = w div 16 ^ i mod 16"
  shows "u mod 16 ^ k = w mod 16 ^ k"
  using assms
proof (induction k)
  case (Suc k)
  have "u mod 16 ^ Suc k = 16 ^ k * (u div 16 ^ k mod 16) + u mod 16 ^ k" for u :: nat
    by (metis mod_mult2_eq mult.commute power_Suc)
  then show ?case using Suc by simp
qed simp

lemma uuid_hex_inj:
  assumes "u < 2 ^ 128" and "w < 2 ^ 128" and "uuid_hex u = uuid_hex w"
  shows "u = w"
proof -
  have "u div 16 ^ i mod 16 = w div 16 ^ i mod 16" if "i < 32" for i
  proof -
    have "uuid_hex u ! (31 - i) = uuid_hex w ! (31 - i)" using assms(3) by simp
    moreover have "uuid_hex v ! (31 - i) = hex_digit (v div 16 ^ i mod 16)" for v
    proof -
      have "[0..<32] ! (31 - i) = 31 - i" using that by (subst nth_upt) auto
      then show ?thesis using that by (simp add: uuid_hex_def del: upt_Suc)
    qed
    ultimately have "hex_digit (u div 16 ^ i mod 16) = hex_digit (w div 16 ^ i mod 16)" by simp
    then show ?thesis by (intro hex_digit_inj) simp_all
  qed
  then have "u mod 16 ^ 32 = w mod 16 ^ 32" by (rule mod_power_digits)
  moreover have "(16 :: nat) ^ 32 = 2 ^ 128" by simp
  ultimately show ?thesis using assms(1,2) by simp
qed

lemma length_uuid_hex [simp]: "length (uuid_hex u) = 32"
  by (simp add: uuid_hex_def)

lemma length_uuid_str [simp]: "length (uuid_str u) = 36"
  by (simp add: uuid_str_def Let_def)

lemma drop_chunk: "drop n h = take m (drop n h) @ drop (n + m) h"
  by (metis add.commute append_take_drop_id drop_drop)

lemma uuid_str_inj:
  assumes "u < 2 ^ 128" and "w < 2 ^ 128" and "uuid_str u = uuid_str w"
  shows "u = w"
proof -
  have groups: "h = take 8 h @ take 4 (drop 8 h) @ take 4 (drop 12 h) @ take 4 (drop 16 h) @ drop 20 h" for h :: string
    using drop_chunk [of 0 h 8] drop_chunk [of 8 h 4] drop_chunk [of 12 h 4] drop_chunk [of 16 h 4] by simp
  have "take 8 (uuid_hex u) = take 8 (uuid_hex w) \<and> take 4 (drop 8 (uuid_hex u)) = take 4 (drop 8 (uuid_hex w)) \<and>
      take 4 (drop 12 (uuid_hex u)) = take 4 (drop 12 (uuid_hex w)) \<and>
      take 4 (drop 16 (uuid_hex u)) = take 4 (drop 16 (uuid_hex w)) \<and> drop 20 (uuid_hex u) = drop 20 (uuid_hex w)"
    using assms(3) by (simp add: uuid_str_def Let_def)
  then have "uuid_hex u = uuid_hex w" using groups [of "uuid_hex u"] groups [of "uuid_hex w"] by metis
  then show ?thesis using uuid_hex_inj assms(1,2) by blast
qed

end
