(* ===== verification/Json.thy ===== *)
theory Json
  imports Domain Py_Text
begin

text \<open>
  JSON values as Python sees them: the \<open>dict\<close> operations the services use, truth values,
  equality (\<open>1 == 1.0 == True\<close>), the key-sorted form that \<open>json.dumps(.., sort_keys=True)\<close>
  writes, and its text. The shortest decimal form of a \<open>float\<close> is the argument \<open>float_repr\<close>.
\<close>

section \<open>Dictionaries\<close>

definition dict_get :: "string \<Rightarrow> ('a) \<Rightarrow> (string \<times> 'a) list \<Rightarrow> 'a" where
  "dict_get k dflt d = (case map_of d k of None \<Rightarrow> dflt | Some v \<Rightarrow> v)"

text \<open>\<open>d[k] = v\<close> keeps the position of an existing key and appends a new one.\<close>

fun dict_set :: "string \<Rightarrow> 'a \<Rightarrow> (string \<times> 'a) list \<Rightarrow> (string \<times> 'a) list" where
  "dict_set k v [] = [(k, v)]"
| "dict_set k v ((k', v') # d) = (if k' = k then (k, v) # d else (k', v') # dict_set k v d)"

definition dict_update :: "(string \<times> 'a) list \<Rightarrow> (string \<times> 'a) list \<Rightarrow> (string \<times> 'a) list" where
  "dict_update d new = fold (\<lambda>(k, v). dict_set k v) new d"

definition dict_keys :: "(string \<times> 'a) list \<Rightarrow> string list" where
  "dict_keys d = map fst d"

lemma map_of_dict_set [simp]: "map_of (dict_set k v d) = (map_of d)(k \<mapsto> v)"
  by (induction d) auto

lemma dict_keys_set: "set (map fst (dict_set k v d)) = insert k (set (map fst d))"
proof (induction d)
  case (Cons kv d)
  then show ?case by (cases kv) (simp add: insert_commute)
qed simp

lemma distinct_dict_set [simp]: "distinct (map fst d) \<Longrightarrow> distinct (map fst (dict_set k v d))"
proof (induction d)
  case (Cons kv d)
  then show ?case using dict_keys_set [of k v d] by (cases kv) auto
qed simp

lemma map_of_dict_update: "map_of (dict_update d new) = map_of d ++ map_of (rev new)"
proof (induction new arbitrary: d)
  case (Cons kv new)
  then show ?case by (cases kv) (auto simp: dict_update_def map_add_def fun_eq_iff split: option.splits)
qed (simp add: dict_update_def)

section \<open>Truth values and equality\<close>

fun truthy :: "json \<Rightarrow> bool" where
  "truthy JNull = False"
| "truthy (JBool b) = b"
| "truthy (JInt i) = (i \<noteq> 0)"
| "truthy (JFloat f) = (f \<noteq> Finite 0)"
| "truthy (JStr s) = (s \<noteq> [])"
| "truthy (JList xs) = (xs \<noteq> [])"
| "truthy (JObj d) = (d \<noteq> [])"

fun num_value :: "json \<Rightarrow> pyfloat option" where
  "num_value (JBool b) = Some (Finite (if b then 1 else 0))"
| "num_value (JInt i) = Some (Finite (of_int i))"
| "num_value (JFloat f) = Some f"
| "num_value _ = None"

text \<open>
  Equality of scalars, which is all the sources compare: numbers (booleans among them) by value,
  \<open>NaN\<close> equal to nothing; lists and dictionaries only when they are the same value.
\<close>

definition py_eq :: "json \<Rightarrow> json \<Rightarrow> bool" where
  "py_eq a b =
     (case (num_value a, num_value b) of
        (Some x, Some y) \<Rightarrow> x = y \<and> x \<noteq> NaN
      | (None, None) \<Rightarrow> a = b
      | _ \<Rightarrow> False)"

definition py_in :: "json \<Rightarrow> json list \<Rightarrow> bool" where
  "py_in v xs \<longleftrightarrow> (\<exists>x \<in> set xs. py_eq v x)"

text \<open>\<open><\<close> on numbers: infinities are the extremes and \<open>NaN\<close> compares false.\<close>

fun float_less :: "pyfloat \<Rightarrow> pyfloat \<Rightarrow> bool" where
  "float_less (Finite a) (Finite b) = (a < b)"
| "float_less (Finite a) PosInf = True"
| "float_less NegInf (Finite b) = True"
| "float_less NegInf PosInf = True"
| "float_less _ _ = False"

definition num_less :: "json \<Rightarrow> json \<Rightarrow> bool" where
  "num_less a b =
     (case (num_value a, num_value b) of (Some x, Some y) \<Rightarrow> float_less x y | _ \<Rightarrow> False)"

section \<open>The key-sorted form\<close>

fun insert_key :: "(string \<times> json) \<Rightarrow> jobj \<Rightarrow> jobj" where
  "insert_key kv [] = [kv]"
| "insert_key kv (x # d) = (if fst kv \<le> fst x then kv # x # d else x # insert_key kv d)"

definition sort_keys :: "jobj \<Rightarrow> jobj" where
  "sort_keys d = foldr insert_key d []"

fun canonical :: "json \<Rightarrow> json" where
  "canonical (JList xs) = JList (map canonical xs)"
| "canonical (JObj d) = JObj (sort_keys (map (\<lambda>(k, v). (k, canonical v)) d))"
| "canonical v = v"

lemma mset_insert_key [simp]: "set (insert_key kv d) = insert kv (set d)"
  by (induction d) auto

lemma map_of_insert_key:
  "fst kv \<notin> fst ` set d \<Longrightarrow> map_of (insert_key kv d) = map_of (kv # d)"
  by (induction d) (auto simp: fun_upd_twist)

lemma set_sort_keys [simp]: "set (sort_keys d) = set d"
  by (induction d) (auto simp: sort_keys_def)

lemma sort_keys_Cons: "sort_keys (kv # d) = insert_key kv (sort_keys d)"
  by (simp add: sort_keys_def)

lemma map_of_sort_keys: "distinct (map fst d) \<Longrightarrow> map_of (sort_keys d) = map_of d"
proof (induction d)
  case (Cons kv d)
  then have "fst kv \<notin> fst ` set (sort_keys d)" by simp
  then show ?case using Cons by (cases kv) (simp add: sort_keys_Cons map_of_insert_key)
qed (simp add: sort_keys_def)

lemma distinct_insert_key:
  "distinct (map fst d) \<Longrightarrow> fst kv \<notin> fst ` set d \<Longrightarrow> distinct (map fst (insert_key kv d))"
  by (induction d) auto

lemma distinct_sort_keys: "distinct (map fst d) \<Longrightarrow> distinct (map fst (sort_keys d))"
proof (induction d)
  case (Cons kv d)
  then have "fst kv \<notin> fst ` set (sort_keys d)" by simp
  then show ?case using Cons by (simp add: sort_keys_Cons distinct_insert_key)
qed (simp add: sort_keys_def)

lemma sorted_insert_key: "sorted (map fst d) \<Longrightarrow> sorted (map fst (insert_key kv d))"
  by (induction d) auto

lemma sorted_sort_keys: "sorted (map fst (sort_keys d))"
proof (induction d)
  case Nil
  show ?case by (simp add: sort_keys_def)
next
  case (Cons kv d)
  then show ?case by (simp add: sort_keys_Cons sorted_insert_key)
qed

lemma insert_key_commute:
  "fst a \<noteq> fst b \<Longrightarrow> insert_key a (insert_key b d) = insert_key b (insert_key a d)"
  by (induction d) auto

lemma sort_keys_rotate:
  assumes "distinct (map fst (xs @ kv # ys))"
  shows "sort_keys (xs @ kv # ys) = sort_keys (kv # xs @ ys)"
  using assms
proof (induction xs)
  case (Cons x xs)
  have "sort_keys ((x # xs) @ kv # ys) = insert_key x (sort_keys (kv # xs @ ys))"
    using Cons by (simp add: sort_keys_Cons)
  also have "\<dots> = insert_key kv (sort_keys (x # xs @ ys))"
    using Cons.prems insert_key_commute [of x kv] by (simp add: sort_keys_Cons)
  finally show ?case by (simp add: sort_keys_Cons)
qed simp

text \<open>Two dictionaries with the same items have the same key-sorted form.\<close>

lemma sort_keys_same_items:
  assumes "distinct (map fst d)" and "distinct (map fst e)" and "set d = set e"
  shows "sort_keys d = sort_keys e"
  using assms
proof (induction d arbitrary: e)
  case Nil
  then show ?case by simp
next
  case (Cons kv d)
  then have "kv \<in> set e" by auto
  then obtain xs ys where e: "e = xs @ kv # ys" by (meson split_list)
  have d: "set d = set (xs @ ys)"
    using Cons.prems e by (auto simp: image_iff)
  have "sort_keys e = insert_key kv (sort_keys (xs @ ys))"
    using sort_keys_rotate [of xs kv ys] Cons.prems e by (simp add: sort_keys_Cons)
  moreover have "sort_keys d = sort_keys (xs @ ys)"
    using Cons.IH [of "xs @ ys"] Cons.prems e d by simp
  ultimately show ?case by (simp add: sort_keys_Cons)
qed

text \<open>The keys of a Python dictionary are distinct, at every level of a value.\<close>

fun dict_ok :: "json \<Rightarrow> bool" where
  "dict_ok (JList xs) = (\<forall>x \<in> set xs. dict_ok x)"
| "dict_ok (JObj d) = (distinct (map fst d) \<and> (\<forall>kv \<in> set d. dict_ok (snd kv)))"
| "dict_ok _ = True"

lemma fst_canonical_items: "map fst (map (\<lambda>(k, v). (k, canonical v)) d) = map fst d"
  by (induction d) auto

lemma map_of_canonical:
  assumes "distinct (map fst d)"
  shows "map_of (sort_keys (map (\<lambda>(k, v). (k, canonical v)) d)) k = map_option canonical (map_of d k)"
proof -
  have "map_of (sort_keys (map (\<lambda>(k, v). (k, canonical v)) d)) = map_of (map (\<lambda>(k, v). (k, canonical v)) d)"
    using assms by (intro map_of_sort_keys) (simp only: fst_canonical_items)
  then show ?thesis by (simp add: map_of_map)
qed

lemma canonical_scalar [simp]:
  "canonical v = JStr s \<longleftrightarrow> v = JStr s" "canonical v = JBool b \<longleftrightarrow> v = JBool b"
  "canonical v = JNull \<longleftrightarrow> v = JNull" "canonical v = JInt i \<longleftrightarrow> v = JInt i"
  by (cases v; simp)+

lemma sort_keys_Nil_iff [simp]: "sort_keys d = [] \<longleftrightarrow> d = []"
  by (metis set_empty set_sort_keys)

lemma truthy_canonical [simp]: "truthy (canonical v) = truthy v"
  by (cases v) simp_all

section \<open>The text of a value\<close>

definition escape_char :: "char \<Rightarrow> string" where
  "escape_char c =
     (if c = CHR 0x22 then [CHR 0x5C, CHR 0x22]
      else if c = CHR 0x5C then [CHR 0x5C, CHR 0x5C]
      else if c = CHR 0x0A then [CHR 0x5C, CHR ''n'']
      else if c = CHR 0x0D then [CHR 0x5C, CHR ''r'']
      else if c = CHR 0x09 then [CHR 0x5C, CHR ''t'']
      else if c = CHR 0x0C then [CHR 0x5C, CHR ''f'']
      else if c = CHR 0x08 then [CHR 0x5C, CHR ''b'']
      else if (of_char c :: nat) < 32
        then [CHR 0x5C] @ ''u00'' @ [hex_digit (of_char c div 16), hex_digit (of_char c mod 16)]
      else [c])"

definition dumps_str :: "string \<Rightarrow> string" where
  "dumps_str s = CHR 0x22 # concat (map escape_char s) @ [CHR 0x22]"

fun json_dumps :: "(rat \<Rightarrow> string) \<Rightarrow> json \<Rightarrow> string" where
  "json_dumps fr JNull = ''null''"
| "json_dumps fr (JBool b) = (if b then ''true'' else ''false'')"
| "json_dumps fr (JInt i) = str_int i"
| "json_dumps fr (JFloat (Finite q)) = fr q"
| "json_dumps fr (JFloat PosInf) = ''Infinity''"
| "json_dumps fr (JFloat NegInf) = ''-Infinity''"
| "json_dumps fr (JFloat NaN) = ''NaN''"
| "json_dumps fr (JStr s) = dumps_str s"
| "json_dumps fr (JList xs) = ''['' @ py_join '','' (map (json_dumps fr) xs) @ '']''"
| "json_dumps fr (JObj d) =
     ''{'' @ py_join '','' (map (\<lambda>(k, v). dumps_str k @ '':'' @ json_dumps fr v) d) @ ''}''"

text \<open>\<open>allow_nan=False\<close> raises on the three special values anywhere in the value.\<close>

fun json_finite :: "json \<Rightarrow> bool" where
  "json_finite (JFloat f) = (case f of Finite _ \<Rightarrow> True | _ \<Rightarrow> False)"
| "json_finite (JList xs) = (\<forall>x \<in> set xs. json_finite x)"
| "json_finite (JObj d) = (\<forall>kv \<in> set d. json_finite (snd kv))"
| "json_finite _ = True"

section \<open>Reading text back\<close>

text \<open>UTF-8 decoding and \<open>json.loads\<close>, as the components that read stored text use them.\<close>

record text_codec =
  tc_decode :: "bytes \<Rightarrow> string option"
  tc_loads :: "string \<Rightarrow> json option"

end
