(* ===== verification/Inventory.thy ===== *)
theory Inventory
  imports Json
begin

text \<open>
  \<open>services/inventory.py\<close>: the Ansible inventory of a set of resolved hosts. The API builds it
  without secrets and stores it with the run; the worker builds it again with the decrypted
  secrets. \<open>render_inventory\<close> is a call of the YAML library and is left out.
\<close>

definition connection_variables :: "resolved_host \<Rightarrow> jobj" where
  "connection_variables h =
     [(''ansible_host'', JStr (rh_address h)), (''ansible_port'', JInt (int (rh_ssh_port h))),
      (''ansible_user'', JStr (rh_credential_username h)),
      (''ansible_python_interpreter'',
        JStr (case rh_python_interpreter h of
                Some p \<Rightarrow> if p = [] then ''/usr/bin/python3'' else p
              | None \<Rightarrow> ''/usr/bin/python3''))]"

definition become_variables :: "resolved_host \<Rightarrow> jobj \<Rightarrow> jobj" where
  "become_variables h vars =
     (if truthy (dict_get ''becomeEnabled'' JNull (rh_credential_public_config h))
      then dict_set ''ansible_become_user''
             (dict_get ''becomeUser'' (JStr ''root'') (rh_credential_public_config h))
             (dict_set ''ansible_become_method''
                (dict_get ''becomeMethod'' (JStr ''sudo'') (rh_credential_public_config h))
                (dict_set ''ansible_become'' (JBool True) vars))
      else vars)"

definition secret_variables ::
    "(string \<Rightarrow> (string \<times> string) list option) option \<Rightarrow> resolved_host \<Rightarrow> jobj \<Rightarrow> ops_error + jobj" where
  "secret_variables secrets h vars =
     (case secrets of
        None \<Rightarrow> Inr vars
      | Some lookup \<Rightarrow>
          (case lookup (uuid_str (rh_credential_id h)) of
             None \<Rightarrow> Inl (KeyErr (uuid_str (rh_credential_id h)))
           | Some secret \<Rightarrow>
               (case map_of secret ''password'' of
                  None \<Rightarrow> Inl (KeyErr ''password'')
                | Some password \<Rightarrow>
                    let vars' = dict_set ''ansible_password'' (JStr password) vars in
                    Inr (if truthy (dict_get ''ansible_become'' JNull vars')
                         then dict_set ''ansible_become_password''
                                (JStr (dict_get ''becomePassword'' password secret)) vars'
                         else vars'))))"

definition host_inventory ::
    "(string \<Rightarrow> (string \<times> string) list option) option \<Rightarrow> resolved_host \<Rightarrow> ops_error + jobj" where
  "host_inventory secrets h =
     secret_variables secrets h
       (become_variables h
          (dict_update (dict_update (rh_group_variables h) (rh_host_variables h))
             (connection_variables h)))"

fun inventory_hosts ::
    "(string \<Rightarrow> (string \<times> string) list option) option \<Rightarrow> resolved_host list \<Rightarrow> jobj \<Rightarrow>
     ops_error + jobj" where
  "inventory_hosts secrets [] acc = Inr acc"
| "inventory_hosts secrets (h # hs) acc =
     (case host_inventory secrets h of
        Inl e \<Rightarrow> Inl e
      | Inr vars \<Rightarrow> inventory_hosts secrets hs (dict_set (rh_name h) (JObj vars) acc))"

definition build_inventory ::
    "resolved_host list \<Rightarrow> (string \<Rightarrow> (string \<times> string) list option) option \<Rightarrow> ops_error + jobj" where
  "build_inventory hosts secrets =
     (case inventory_hosts secrets hosts [] of
        Inl e \<Rightarrow> Inl e
      | Inr entries \<Rightarrow> Inr [(''all'', JObj [(''hosts'', JObj entries)])])"

section \<open>What an inventory contains\<close>

lemma map_of_become_variables:
  "k \<notin> {''ansible_become'', ''ansible_become_method'', ''ansible_become_user''} \<Longrightarrow>
     map_of (become_variables h vars) k = map_of vars k"
  by (auto simp: become_variables_def)

lemma map_of_connection_update:
  "map_of (dict_update vars (connection_variables h)) k =
     (case map_of (connection_variables h) k of Some v \<Rightarrow> Some v | None \<Rightarrow> map_of vars k)"
proof -
  have "map_of (rev (connection_variables h)) = map_of (connection_variables h)"
    by (rule map_of_inject_set [THEN iffD2])
      (simp_all add: connection_variables_def insert_commute)
  then show ?thesis by (simp add: map_of_dict_update map_add_def split: option.splits)
qed

lemma host_inventory_None:
  "host_inventory None h = Inr (become_variables h
     (dict_update (dict_update (rh_group_variables h) (rh_host_variables h)) (connection_variables h)))"
  by (simp add: host_inventory_def secret_variables_def)

text \<open>
  The address, port and user of a host in an inventory are those of the host and its
  credential, whatever the host and group variables say, and an inventory built without
  secrets contains a password only if a host or group variable of that name does.
\<close>

theorem host_inventory_connection:
  "\<exists>vars. host_inventory None h = Inr vars \<and>
     map_of vars ''ansible_host'' = Some (JStr (rh_address h)) \<and>
     map_of vars ''ansible_port'' = Some (JInt (int (rh_ssh_port h))) \<and>
     map_of vars ''ansible_user'' = Some (JStr (rh_credential_username h)) \<and>
     map_of vars ''ansible_password'' =
       map_of (dict_update (rh_group_variables h) (rh_host_variables h)) ''ansible_password'' \<and>
     map_of vars ''ansible_become_password'' =
       map_of (dict_update (rh_group_variables h) (rh_host_variables h)) ''ansible_become_password''"
proof -
  have "map_of (connection_variables h) ''ansible_host'' = Some (JStr (rh_address h))"
    "map_of (connection_variables h) ''ansible_port'' = Some (JInt (int (rh_ssh_port h)))"
    "map_of (connection_variables h) ''ansible_user'' = Some (JStr (rh_credential_username h))"
    "map_of (connection_variables h) ''ansible_password'' = None"
    "map_of (connection_variables h) ''ansible_become_password'' = None"
    by (simp_all add: connection_variables_def)
  then show ?thesis
    by (simp add: host_inventory_None map_of_become_variables map_of_connection_update)
qed

lemma inventory_hosts_None: "\<exists>entries. inventory_hosts None hs acc = Inr entries"
  by (induction hs arbitrary: acc) (auto simp: host_inventory_None)

lemma build_inventory_None: "\<exists>entries. build_inventory hs None = Inr entries"
  using inventory_hosts_None [of hs "[]"] by (auto simp: build_inventory_def)

end
