(* ===== verification/Crypto.thy ===== *)
theory Crypto
  imports Json
begin

text \<open>
  \<open>services/crypto.py\<close>: the versioned master keyring, its envelopes (nonce and AES-GCM
  ciphertext, bound to a context by the associated data), the credential cipher built on it, and
  the redaction of secrets in output. AES-GCM comes from the package \<open>cryptography\<close> and is
  the argument \<open>gcm\<close>; \<open>gcm_ok\<close> and \<open>gcm_separates\<close> say what the sources rely on. The twelve bytes of
  \<open>os.urandom\<close> are the argument \<open>nonce\<close>.
\<close>

record aes_gcm =
  gcm_encrypt :: "bytes \<Rightarrow> bytes \<Rightarrow> bytes \<Rightarrow> bytes \<Rightarrow> bytes"
  gcm_decrypt :: "bytes \<Rightarrow> bytes \<Rightarrow> bytes \<Rightarrow> bytes \<Rightarrow> bytes option"

text \<open>Decryption inverts encryption, and the tag is 16 bytes long.\<close>

definition gcm_ok :: "aes_gcm \<Rightarrow> bool" where
  "gcm_ok gcm \<longleftrightarrow> (\<forall>key nonce plain aad.
     gcm_decrypt gcm key nonce (gcm_encrypt gcm key nonce plain aad) aad = Some plain \<and>
     length (gcm_encrypt gcm key nonce plain aad) = length plain + 16)"

text \<open>A ciphertext made with the associated data \<open>aad\<close> does not authenticate under \<open>aad'\<close>.\<close>

definition gcm_separates :: "aes_gcm \<Rightarrow> bytes \<Rightarrow> bytes \<Rightarrow> bool" where
  "gcm_separates gcm aad aad' \<longleftrightarrow> (\<forall>key nonce plain.
     gcm_decrypt gcm key nonce (gcm_encrypt gcm key nonce plain aad) aad' = None)"

section \<open>Keys\<close>

definition b64_value :: "char \<Rightarrow> nat option" where
  "b64_value c =
     (if CHR ''A'' \<le> c \<and> c \<le> CHR ''Z'' then Some (of_char c - 65)
      else if CHR ''a'' \<le> c \<and> c \<le> CHR ''z'' then Some (of_char c - 71)
      else if CHR ''0'' \<le> c \<and> c \<le> CHR ''9'' then Some (of_char c + 4)
      else if c = CHR ''+'' \<or> c = CHR ''-'' then Some 62
      else if c = CHR ''/'' \<or> c = CHR ''_'' then Some 63
      else None)"

text \<open>\<open>b64decode(.., altchars=b"-_", validate=True)\<close>: groups of four, padding only at the end.\<close>

fun b64decode :: "string \<Rightarrow> bytes option" where
  "b64decode [] = Some []"
| "b64decode (a # b # c # d # rest) =
     (if rest = [] \<and> c = CHR ''='' \<and> d = CHR ''=''
      then (case (b64_value a, b64_value b) of
              (Some x, Some y) \<Rightarrow> Some [x * 4 + y div 16] | _ \<Rightarrow> None)
      else if rest = [] \<and> d = CHR ''=''
      then (case (b64_value a, b64_value b, b64_value c) of
              (Some x, Some y, Some z) \<Rightarrow> Some [x * 4 + y div 16, (y mod 16) * 16 + z div 4]
            | _ \<Rightarrow> None)
      else (case (b64_value a, b64_value b, b64_value c, b64_value d, b64decode rest) of
              (Some x, Some y, Some z, Some w, Some rest') \<Rightarrow>
                Some ([x * 4 + y div 16, (y mod 16) * 16 + z div 4, (z mod 4) * 64 + w] @ rest')
            | _ \<Rightarrow> None))"
| "b64decode _ = None"

definition decode_key :: "string \<Rightarrow> ops_error + bytes" where
  "decode_key encoded =
     (case b64decode encoded of
        None \<Rightarrow> Inl (ValueErr ''must be valid base64'')
      | Some key \<Rightarrow>
          if length key \<noteq> 32 then Inl (ValueErr ''must decode to exactly 32 bytes'') else Inr key)"

record keyring =
  kr_keys :: "(int \<times> bytes) list"
  kr_primary_version :: int

fun decode_keys :: "(int \<times> (string + bytes)) list \<Rightarrow> ops_error + (int \<times> bytes) list" where
  "decode_keys [] = Inr []"
| "decode_keys ((version, k) # ks) =
     (if version < 1 then Inl (ValueErr ''key versions must be positive'')
      else case (case k of
                   Inr raw \<Rightarrow> if length raw \<noteq> 32 then Inl (ValueErr ''must be exactly 32 bytes'')
                              else Inr raw
                 | Inl txt \<Rightarrow> decode_key txt) of
        Inl e \<Rightarrow> Inl e
      | Inr key \<Rightarrow>
          (case decode_keys ks of Inl e \<Rightarrow> Inl e | Inr rest \<Rightarrow> Inr ((version, key) # rest)))"

definition master_keyring :: "(int \<times> (string + bytes)) list \<Rightarrow> int \<Rightarrow> ops_error + keyring" where
  "master_keyring keys primary_version =
     (if primary_version < 1 then Inl (ValueErr ''primary key version must be positive'')
      else case decode_keys keys of
        Inl e \<Rightarrow> Inl e
      | Inr decoded \<Rightarrow>
          if primary_version \<notin> set (map fst decoded)
          then Inl (ValueErr ''primary key version is missing from the keyring'')
          else Inr \<lparr>kr_keys = decoded, kr_primary_version = primary_version\<rparr>)"

definition has_version :: "keyring \<Rightarrow> int \<Rightarrow> bool" where
  "has_version kr version \<longleftrightarrow> version \<in> set (map fst (kr_keys kr))"

definition key_versions :: "keyring \<Rightarrow> int list" where
  "key_versions kr = sort (map fst (kr_keys kr))"

section \<open>Envelopes\<close>

definition keyring_aad :: "string \<Rightarrow> string \<Rightarrow> ops_error + bytes" where
  "keyring_aad purpose subject =
     (if purpose = [] \<or> subject = [] \<or> CHR 0x00 \<in> set purpose \<or> CHR 0x00 \<in> set subject
      then Inl (ValueErr ''encryption context is invalid'')
      else Inr (encode_ascii (''ops-composer:'' @ purpose @ '':'' @ subject @ '':v1'')))"

text \<open>\<open>key_version or self.primary_version\<close>: neither \<open>None\<close> nor zero selects a version.\<close>

definition chosen_version :: "keyring \<Rightarrow> int option \<Rightarrow> int" where
  "chosen_version kr key_version =
     (case key_version of None \<Rightarrow> kr_primary_version kr
      | Some v \<Rightarrow> if v = 0 then kr_primary_version kr else v)"

definition encrypt_with_aad ::
    "aes_gcm \<Rightarrow> bytes \<Rightarrow> keyring \<Rightarrow> bytes \<Rightarrow> bytes \<Rightarrow> int option \<Rightarrow> ops_error + (bytes \<times> int)" where
  "encrypt_with_aad gcm nonce kr plain aad key_version =
     (let version = chosen_version kr key_version in
      case map_of (kr_keys kr) version of
        None \<Rightarrow> Inl (ValueErr ''master key version is unavailable'')
      | Some key \<Rightarrow> Inr (nonce @ gcm_encrypt gcm key nonce plain aad, version))"

definition decrypt_with_aad ::
    "aes_gcm \<Rightarrow> keyring \<Rightarrow> bytes \<Rightarrow> bytes \<Rightarrow> int \<Rightarrow> ops_error + bytes" where
  "decrypt_with_aad gcm kr envelope aad key_version =
     (if length envelope < 29 then Inl (ValueErr ''encrypted envelope is invalid'')
      else case map_of (kr_keys kr) key_version of
        None \<Rightarrow> Inl (ValueErr ''master key version is unavailable'')
      | Some key \<Rightarrow>
          (case gcm_decrypt gcm key (take 12 envelope) (drop 12 envelope) aad of
             None \<Rightarrow> Inl (ValueErr ''encrypted envelope authentication failed'')
           | Some plain \<Rightarrow> Inr plain))"

definition encrypt_bytes ::
    "aes_gcm \<Rightarrow> bytes \<Rightarrow> keyring \<Rightarrow> string \<Rightarrow> string \<Rightarrow> bytes \<Rightarrow> int option \<Rightarrow>
     ops_error + (bytes \<times> int)" where
  "encrypt_bytes gcm nonce kr purpose subject plain key_version =
     (case keyring_aad purpose subject of
        Inl e \<Rightarrow> Inl e
      | Inr aad \<Rightarrow>
          encrypt_with_aad gcm nonce kr plain aad (Some (chosen_version kr key_version)))"

definition decrypt_bytes ::
    "aes_gcm \<Rightarrow> keyring \<Rightarrow> string \<Rightarrow> string \<Rightarrow> bytes \<Rightarrow> int \<Rightarrow> ops_error + bytes" where
  "decrypt_bytes gcm kr purpose subject envelope key_version =
     (case keyring_aad purpose subject of
        Inl e \<Rightarrow> Inl e
      | Inr aad \<Rightarrow> decrypt_with_aad gcm kr envelope aad key_version)"

definition encrypt_json ::
    "aes_gcm \<Rightarrow> (rat \<Rightarrow> string) \<Rightarrow> bytes \<Rightarrow> keyring \<Rightarrow> string \<Rightarrow> string \<Rightarrow> jobj \<Rightarrow> int option \<Rightarrow>
     ops_error + (bytes \<times> int)" where
  "encrypt_json gcm fr nonce kr purpose subject v key_version =
     encrypt_bytes gcm nonce kr purpose subject
       (encode_ascii (json_dumps fr (canonical (JObj v)))) key_version"

definition decrypt_json ::
    "aes_gcm \<Rightarrow> text_codec \<Rightarrow> keyring \<Rightarrow> string \<Rightarrow> string \<Rightarrow> bytes \<Rightarrow> int \<Rightarrow> ops_error + jobj" where
  "decrypt_json gcm codec kr purpose subject envelope key_version =
     (case decrypt_bytes gcm kr purpose subject envelope key_version of
        Inl e \<Rightarrow> Inl e
      | Inr plain \<Rightarrow>
          (case Option.bind (tc_decode codec plain) (tc_loads codec) of
             None \<Rightarrow> Inl (ValueErr ''encrypted JSON payload is invalid'')
           | Some (JObj d) \<Rightarrow> Inr d
           | Some _ \<Rightarrow> Inl (ValueErr ''encrypted JSON payload must be an object'')))"

definition check_plaintext :: bytes where
  "check_plaintext = encode_ascii ''ops-composer-master-key-check''"

definition encrypt_check :: "aes_gcm \<Rightarrow> bytes \<Rightarrow> keyring \<Rightarrow> int \<Rightarrow> ops_error + bytes" where
  "encrypt_check gcm nonce kr key_version =
     (case encrypt_bytes gcm nonce kr ''key-check'' (str_int key_version) check_plaintext
             (Some key_version) of
        Inl e \<Rightarrow> Inl e | Inr (envelope, _) \<Rightarrow> Inr envelope)"

definition validate_check :: "aes_gcm \<Rightarrow> keyring \<Rightarrow> int \<Rightarrow> bytes \<Rightarrow> ops_error + unit" where
  "validate_check gcm kr key_version envelope =
     (case decrypt_bytes gcm kr ''key-check'' (str_int key_version) envelope key_version of
        Inl (ValueErr _) \<Rightarrow>
          Inl (ValueErr ''master key does not match the registered key version'')
      | Inl e \<Rightarrow> Inl e
      | Inr plain \<Rightarrow>
          if plain \<noteq> check_plaintext
          then Inl (ValueErr ''master key does not match the registered key version'') else Inr ())"

definition validate_legacy_check :: "aes_gcm \<Rightarrow> keyring \<Rightarrow> int \<Rightarrow> bytes \<Rightarrow> ops_error + unit" where
  "validate_legacy_check gcm kr key_version envelope =
     (case decrypt_with_aad gcm kr envelope (encode_ascii ''key-check:v1'') key_version of
        Inl e \<Rightarrow> Inl e
      | Inr plain \<Rightarrow>
          if plain \<noteq> check_plaintext then Inl (ValueErr ''master key check value is invalid'')
          else Inr ())"

section \<open>Credentials\<close>

definition credential_aad :: "uuid \<Rightarrow> nat \<Rightarrow> bytes" where
  "credential_aad credential_id version =
     encode_ascii (''ops-composer:credential:'' @ uuid_str credential_id @ '':'' @ str_nat version)"

definition cipher_encrypt ::
    "aes_gcm \<Rightarrow> bytes \<Rightarrow> keyring \<Rightarrow> uuid \<Rightarrow> nat \<Rightarrow> (string \<times> string) list \<Rightarrow> ops_error + bytes" where
  "cipher_encrypt gcm nonce kr credential_id version secret =
     (case encrypt_with_aad gcm nonce kr
             (encode_ascii (json_dumps (\<lambda>_. []) (canonical (JObj (map (\<lambda>(k, v). (k, JStr v)) secret)))))
             (credential_aad credential_id version) None of
        Inl e \<Rightarrow> Inl e | Inr (envelope, _) \<Rightarrow> Inr envelope)"

fun str_values :: "jobj \<Rightarrow> (string \<times> string) list option" where
  "str_values [] = Some []"
| "str_values ((k, JStr s) # d) = map_option ((#) (k, s)) (str_values d)"
| "str_values _ = None"

definition cipher_decrypt ::
    "aes_gcm \<Rightarrow> text_codec \<Rightarrow> keyring \<Rightarrow> uuid \<Rightarrow> nat \<Rightarrow> bytes \<Rightarrow> nat \<Rightarrow>
     ops_error + (string \<times> string) list" where
  "cipher_decrypt gcm codec kr credential_id version envelope key_version =
     (case decrypt_with_aad gcm kr envelope (credential_aad credential_id version)
             (chosen_version kr (Some (int key_version))) of
        Inl e \<Rightarrow> Inl e
      | Inr plain \<Rightarrow>
          (case Option.bind (tc_decode codec plain) (tc_loads codec) of
             None \<Rightarrow> Inl (ValueErr ''credential envelope payload is invalid'')
           | Some (JObj d) \<Rightarrow>
               (case str_values d of
                  None \<Rightarrow> Inl (ValueErr ''credential envelope payload is invalid'')
                | Some secret \<Rightarrow> Inr secret)
           | Some _ \<Rightarrow> Inl (AttributeErr ''values'')))"

section \<open>Redaction\<close>

definition alnum :: "char \<Rightarrow> bool" where
  "alnum c \<longleftrightarrow> (CHR ''a'' \<le> c \<and> c \<le> CHR ''z'') \<or> (CHR ''A'' \<le> c \<and> c \<le> CHR ''Z'') \<or>
     (CHR ''0'' \<le> c \<and> c \<le> CHR ''9'')"

definition shlex_quote :: "string \<Rightarrow> string" where
  "shlex_quote s =
     (if s = [] then [CHR 0x27, CHR 0x27]
      else if \<forall>c \<in> set s. alnum c \<or> c \<in> set ''_@%+=:,./-'' then s
      else [CHR 0x27] @ py_replace [CHR 0x27] [CHR 0x27, CHR 0x22, CHR 0x27, CHR 0x22, CHR 0x27] s @ [CHR 0x27])"

definition upper_hex :: "nat \<Rightarrow> char" where
  "upper_hex n = (if n < 10 then char_of (48 + n) else char_of (55 + n))"

definition url_quote_char :: "char \<Rightarrow> string" where
  "url_quote_char c =
     (if alnum c \<or> c \<in> set ''_.-~'' then [c]
      else [CHR ''%'', upper_hex (of_char c div 16), upper_hex (of_char c mod 16)])"

definition url_quote :: "string \<Rightarrow> string" where
  "url_quote s = concat (map url_quote_char s)"

definition url_quote_plus :: "string \<Rightarrow> string" where
  "url_quote_plus s = concat (map (\<lambda>c. if c = CHR '' '' then ''+'' else url_quote_char c) s)"

definition json_body :: "string \<Rightarrow> string" where
  "json_body s = concat (map escape_char s)"

text \<open>
  The variants are a Python set, whose order among variants of one length is not fixed; the model
  takes the order of the source. The theorems below hold for every order.
\<close>

definition secret_variants :: "string \<Rightarrow> string list" where
  "secret_variants secret =
     sort_key (\<lambda>v. - int (length v))
       (filter (\<lambda>v. v \<noteq> []) (remdups [secret, shlex_quote secret, url_quote secret,
          url_quote_plus secret, json_body secret]))"

definition REDACTED :: string where "REDACTED = ''[REDACTED]''"

definition replace_all :: "string list \<Rightarrow> string \<Rightarrow> string" where
  "replace_all variants txt = fold (\<lambda>v t. py_replace v REDACTED t) variants txt"

definition redact_secrets :: "string \<Rightarrow> string list \<Rightarrow> string" where
  "redact_secrets txt secrets =
     fold (\<lambda>secret t. replace_all (secret_variants secret) t)
       (sort_key (\<lambda>s. - int (length s)) (filter (\<lambda>s. s \<noteq> []) secrets)) txt"

section \<open>Keyrings\<close>

lemma decode_keys_ConsD:
  assumes "decode_keys ((v, k) # ks) = Inr decoded"
  obtains key rest where "decoded = (v, key) # rest" and "v \<ge> 1" and "length key = 32"
    and "decode_keys ks = Inr rest"
proof -
  have "decode_key encoded = Inr key \<Longrightarrow> length key = 32" for encoded key
    by (auto simp: decode_key_def split: option.splits if_splits)
  then show thesis
    using assms that by (cases k) (auto split: if_splits sum.splits)
qed

lemma decode_keys_InrD:
  "decode_keys ks = Inr decoded \<Longrightarrow>
     map fst decoded = map fst ks \<and> (\<forall>(v, k) \<in> set decoded. v \<ge> 1 \<and> length k = 32)"
proof (induction ks arbitrary: decoded)
  case (Cons vk ks)
  obtain v k where vk: "vk = (v, k)" by fastforce
  then obtain key rest where "decoded = (v, key) # rest" "v \<ge> 1" "length key = 32" "decode_keys ks = Inr rest"
    using Cons.prems decode_keys_ConsD by metis
  then show ?case using Cons.IH [of rest] vk by simp
qed simp

text \<open>
  C40: a keyring that is built has a key for its primary version, every version is positive and
  every key is 32 bytes long.
\<close>

theorem master_keyring_wellformed:
  assumes "master_keyring keys primary = Inr kr"
  shows "kr_primary_version kr = primary \<and> has_version kr primary \<and>
     map fst (kr_keys kr) = map fst keys \<and>
     (\<forall>(v, k) \<in> set (kr_keys kr). v \<ge> 1 \<and> length k = 32)"
proof -
  obtain decoded where d: "decode_keys keys = Inr decoded"
    and kr: "kr = \<lparr>kr_keys = decoded, kr_primary_version = primary\<rparr>" and "primary \<in> set (map fst decoded)"
    using assms by (auto simp: master_keyring_def split: if_splits sum.splits)
  then show ?thesis using decode_keys_InrD [OF d] by (simp add: has_version_def)
qed

theorem master_keyring_wellformed_witness:
  "\<exists>kr. master_keyring [(2, Inr (replicate 32 7)), (1, Inl (replicate 43 (CHR ''A'') @ ''=''))] 2 = Inr kr \<and>
     has_version kr 2"
proof -
  let ?kr = "master_keyring [(2, Inr (replicate 32 7)), (1, Inl (replicate 43 (CHR ''A'') @ ''=''))] 2"
  have "case ?kr of Inl _ \<Rightarrow> False | Inr _ \<Rightarrow> True" by code_simp
  then obtain kr where "?kr = Inr kr" by (auto split: sum.splits)
  then show ?thesis using master_keyring_wellformed by blast
qed

section \<open>Round trips\<close>

lemma decrypt_encrypted_with_aad:
  assumes "gcm_ok gcm" and "length nonce = 12"
    and "encrypt_with_aad gcm nonce kr plain aad key_version = Inr (envelope, version)"
  shows "decrypt_with_aad gcm kr envelope aad version =
     (if plain = [] then Inl (ValueErr ''encrypted envelope is invalid'') else Inr plain)"
proof -
  obtain key where key: "map_of (kr_keys kr) version = Some key"
    and env: "envelope = nonce @ gcm_encrypt gcm key nonce plain aad"
    using assms(3) by (auto simp: encrypt_with_aad_def Let_def split: option.splits)
  have "length envelope = 28 + length plain" using assms(1,2) env by (simp add: gcm_ok_def)
  then have "length envelope < 29 \<longleftrightarrow> plain = []" by auto
  then show ?thesis using assms(1,2) key env by (simp add: decrypt_with_aad_def gcm_ok_def)
qed

text \<open>
  What \<open>encrypt_bytes\<close> seals for a purpose and subject, \<open>decrypt_bytes\<close> opens again with the
  key version it returned; only the empty plaintext, whose envelope has 28 bytes, is refused by the
  length test of \<open>decrypt_with_aad\<close>.
\<close>

theorem encrypt_decrypt_roundtrip:
  assumes "gcm_ok gcm" and "length nonce = 12"
    and "encrypt_bytes gcm nonce kr purpose subject plain key_version = Inr (envelope, version)"
  shows "decrypt_bytes gcm kr purpose subject envelope version =
     (if plain = [] then Inl (ValueErr ''encrypted envelope is invalid'') else Inr plain)"
  using assms decrypt_encrypted_with_aad [OF assms(1,2)]
  by (auto simp: encrypt_bytes_def decrypt_bytes_def split: sum.splits)

text \<open>A stand-in for AES-GCM whose tag carries the sum of the associated data.\<close>

definition demo_tag :: "bytes \<Rightarrow> bytes" where
  "demo_tag aad = replicate 15 0 @ [sum_list aad mod 251]"

definition demo_gcm :: aes_gcm where
  "demo_gcm =
     \<lparr>gcm_encrypt = (\<lambda>key nonce plain aad. plain @ demo_tag aad),
      gcm_decrypt = (\<lambda>key nonce cipher aad.
        if drop (length cipher - 16) cipher = demo_tag aad
        then Some (take (length cipher - 16) cipher) else None)\<rparr>"

lemma gcm_ok_demo: "gcm_ok demo_gcm"
  by (simp add: gcm_ok_def demo_gcm_def demo_tag_def)

lemma gcm_separates_demo:
  "demo_tag aad \<noteq> demo_tag aad' \<Longrightarrow> gcm_separates demo_gcm aad aad'"
  by (simp add: gcm_separates_def demo_gcm_def demo_tag_def)

definition demo_keyring :: keyring where
  "demo_keyring = \<lparr>kr_keys = [(1, replicate 32 1), (2, replicate 32 2)], kr_primary_version = 2\<rparr>"

theorem encrypt_decrypt_roundtrip_witness:
  "\<exists>envelope. encrypt_bytes demo_gcm (replicate 12 9) demo_keyring ''system-secret'' ''pepper'' [1, 2, 3] None =
       Inr (envelope, 2) \<and>
     decrypt_bytes demo_gcm demo_keyring ''system-secret'' ''pepper'' envelope 2 = Inr [1, 2, 3]"
proof -
  have "\<exists>envelope. encrypt_bytes demo_gcm (replicate 12 9) demo_keyring ''system-secret'' ''pepper'' [1, 2, 3] None =
       Inr (envelope, 2)"
    by (simp add: encrypt_bytes_def keyring_aad_def encrypt_with_aad_def chosen_version_def demo_keyring_def)
  then obtain envelope where e: "encrypt_bytes demo_gcm (replicate 12 9) demo_keyring ''system-secret'' ''pepper'' [1, 2, 3] None =
       Inr (envelope, 2)" by blast
  show ?thesis using encrypt_decrypt_roundtrip [OF gcm_ok_demo _ e] e by simp
qed

text \<open>Adding keys, or choosing another primary version, keeps old envelopes readable.\<close>

lemma decrypt_with_more_keys:
  assumes "decrypt_with_aad gcm kr envelope aad version = Inr plain"
    and "map_of (kr_keys kr) \<subseteq>\<^sub>m map_of (kr_keys kr')"
  shows "decrypt_with_aad gcm kr' envelope aad version = Inr plain"
  using assms
  by (auto simp: decrypt_with_aad_def map_le_def dom_def split: if_splits option.splits)

section \<open>Envelopes are bound to their context\<close>

lemma encode_ascii_inj: "encode_ascii s = encode_ascii t \<Longrightarrow> s = t"
  unfolding encode_ascii_def by (metis map_injective inj_def of_char_eq_iff)

lemma append_sep_inj:
  "\<lbrakk>x \<notin> set p; x \<notin> set q; p @ x # r = q @ x # t\<rbrakk> \<Longrightarrow> p = q \<and> r = t"
proof (induction p arbitrary: q)
  case Nil
  then show ?case by (cases q) auto
next
  case (Cons a p)
  then show ?case by (cases q) auto
qed

text \<open>
  Without a colon in the purpose, as in every call of the repository, the associated data determines
  purpose and subject.
\<close>

lemma keyring_aad_inj:
  assumes "CHR '':'' \<notin> set purpose" and "CHR '':'' \<notin> set purpose'"
    and "keyring_aad purpose subject = Inr aad" and "keyring_aad purpose' subject' = Inr aad"
  shows "purpose = purpose' \<and> subject = subject'"
proof -
  have "encode_ascii (''ops-composer:'' @ purpose @ '':'' @ subject @ '':v1'') =
      encode_ascii (''ops-composer:'' @ purpose' @ '':'' @ subject' @ '':v1'')"
    using assms(3,4) by (auto simp: keyring_aad_def split: if_splits)
  then have "''ops-composer:'' @ purpose @ '':'' @ subject @ '':v1'' =
      ''ops-composer:'' @ purpose' @ '':'' @ subject' @ '':v1''"
    by (rule encode_ascii_inj)
  then have "purpose @ CHR '':'' # (subject @ '':v1'') = purpose' @ CHR '':'' # (subject' @ '':v1'')" by simp
  then show ?thesis using append_sep_inj [OF assms(1,2)] by (metis append_same_eq)
qed

text \<open>
  An envelope opens only in the context it was sealed for: under another purpose or another
  subject, decryption with the same key fails. The purposes contain no colon, and AES-GCM
  rejects a ciphertext under different associated data.
\<close>

theorem envelope_bound_to_context:
  assumes "length nonce = 12" and "CHR '':'' \<notin> set purpose" and "CHR '':'' \<notin> set purpose'"
    and "encrypt_bytes gcm nonce kr purpose subject plain key_version = Inr (envelope, version)"
    and "(purpose', subject') \<noteq> (purpose, subject)"
    and "\<And>aad aad'. \<lbrakk>keyring_aad purpose subject = Inr aad; keyring_aad purpose' subject' = Inr aad';
            aad' \<noteq> aad\<rbrakk> \<Longrightarrow> gcm_separates gcm aad aad'"
  shows "\<exists>e. decrypt_bytes gcm kr purpose' subject' envelope version = Inl e"
proof -
  obtain aad where aad: "keyring_aad purpose subject = Inr aad"
    and enc: "encrypt_with_aad gcm nonce kr plain aad (Some (chosen_version kr key_version)) = Inr (envelope, version)"
    using assms(4) by (auto simp: encrypt_bytes_def split: sum.splits)
  obtain key where key: "map_of (kr_keys kr) version = Some key"
    and env: "envelope = nonce @ gcm_encrypt gcm key nonce plain aad"
    using enc by (auto simp: encrypt_with_aad_def Let_def split: option.splits)
  show ?thesis
  proof (cases "keyring_aad purpose' subject'")
    case (Inl e)
    then show ?thesis by (simp add: decrypt_bytes_def)
  next
    case (Inr aad')
    then have "aad' \<noteq> aad" using keyring_aad_inj [OF assms(2,3) aad] assms(5) by auto
    then have "gcm_separates gcm aad aad'" using assms(6) aad Inr by blast
    then show ?thesis using Inr key env assms(1)
      by (auto simp: decrypt_bytes_def decrypt_with_aad_def gcm_separates_def)
  qed
qed

theorem envelope_bound_to_context_witness:
  "\<exists>envelope. encrypt_bytes demo_gcm (replicate 12 9) demo_keyring ''run-parameters'' ''1'' [1, 2, 3] None =
       Inr (envelope, 2) \<and>
     (\<exists>e. decrypt_bytes demo_gcm demo_keyring ''run-parameters'' ''2'' envelope 2 = Inl e)"
proof -
  have "\<exists>envelope. encrypt_bytes demo_gcm (replicate 12 9) demo_keyring ''run-parameters'' ''1'' [1, 2, 3] None =
       Inr (envelope, 2)"
    by (simp add: encrypt_bytes_def keyring_aad_def encrypt_with_aad_def chosen_version_def demo_keyring_def)
  then obtain envelope where e: "encrypt_bytes demo_gcm (replicate 12 9) demo_keyring ''run-parameters'' ''1'' [1, 2, 3] None =
       Inr (envelope, 2)" by blast
  have "\<exists>err. decrypt_bytes demo_gcm demo_keyring ''run-parameters'' ''2'' envelope 2 = Inl err"
  proof (rule envelope_bound_to_context [OF _ _ _ e])
    fix aad aad'
    assume "keyring_aad ''run-parameters'' ''1'' = Inr aad" "keyring_aad ''run-parameters'' ''2'' = Inr aad'"
    then show "gcm_separates demo_gcm aad aad'"
      by (intro gcm_separates_demo) (auto simp: keyring_aad_def demo_tag_def encode_ascii_def)
  qed simp_all
  then show ?thesis using e by blast
qed

text \<open>
  the associated data of a credential envelope identifies the credential and its version,
  so the envelope of one revision does not pass for another.
\<close>

theorem credential_aad_injective:
  assumes "credential_id < 2 ^ 128" and "credential_id' < 2 ^ 128"
    and "credential_aad credential_id version = credential_aad credential_id' version'"
  shows "credential_id = credential_id' \<and> version = version'"
proof -
  have "''ops-composer:credential:'' @ uuid_str credential_id @ '':'' @ str_nat version =
      ''ops-composer:credential:'' @ uuid_str credential_id' @ '':'' @ str_nat version'"
    using assms(3) unfolding credential_aad_def by (rule encode_ascii_inj)
  then have "uuid_str credential_id = uuid_str credential_id'" "str_nat version = str_nat version'"
    by auto
  then show ?thesis using uuid_str_inj assms(1,2) str_nat_inj by blast
qed

theorem credential_aad_injective_witness:
  "credential_aad 7 1 \<noteq> credential_aad 7 2"
  using credential_aad_injective [of 7 7 1 2] by auto

section \<open>Redacted output\<close>

definition redactable :: "string \<Rightarrow> bool" where
  "redactable v \<longleftrightarrow> v \<noteq> [] \<and> CHR ''['' \<notin> set v \<and> CHR '']'' \<notin> set v \<and> \<not> contains v ''REDACTED''"

lemma REDACTED_eq: "REDACTED = CHR ''['' # ''REDACTED'' @ [CHR '']'']"
  by (simp add: REDACTED_def)

lemma replace_all_keeps_absent:
  assumes "redactable v" and "\<not> contains v t"
  shows "\<not> contains v (replace_all us t)"
  using assms(2)
proof (induction us arbitrary: t)
  case (Cons u us)
  have "\<not> contains v (py_replace u REDACTED t)"
    using contains_replaceD [of "CHR ''[''" v "CHR '']''" u "''REDACTED''" t] assms(1) Cons.prems
    by (auto simp: redactable_def REDACTED_eq)
  then show ?case using Cons.IH by (simp add: replace_all_def)
qed (simp add: replace_all_def)

lemma replace_all_removes:
  assumes "redactable v" and "v \<in> set us"
  shows "\<not> contains v (replace_all us t)"
  using assms(2)
proof (induction us arbitrary: t)
  case (Cons u us)
  show ?case
  proof (cases "u = v")
    case True
    have "\<not> contains v (py_replace v REDACTED t)"
      using contains_replace_self [of "CHR ''[''" v "CHR '']''" "''REDACTED''" t] assms(1)
      by (auto simp: redactable_def REDACTED_eq)
    then have "\<not> contains v (replace_all us (py_replace v REDACTED t))"
      by (rule replace_all_keeps_absent [OF assms(1)])
    then show ?thesis using True by (simp add: replace_all_def)
  next
    case False
    then show ?thesis using Cons by (simp add: replace_all_def)
  qed
qed simp

lemma redact_fold:
  "fold (\<lambda>secret t. replace_all (secret_variants secret) t) secrets t =
     replace_all (concat (map secret_variants secrets)) t"
  by (induction secrets arbitrary: t) (simp_all add: replace_all_def)

text \<open>
  No secret survives in redacted output, neither as it is nor shell-quoted, URL-quoted or
  JSON-escaped, unless the form contains a bracket or is part of the word \<open>REDACTED\<close>, in which case
  the marker itself can show it.
\<close>

theorem redact_secrets_removes:
  assumes "secret \<in> set secrets" and "secret \<noteq> []"
    and "v \<in> {secret, shlex_quote secret, url_quote secret, url_quote_plus secret, json_body secret}"
    and "redactable v"
  shows "\<not> contains v (redact_secrets out secrets)"
proof -
  have "v \<in> set (secret_variants secret)"
    using assms(3,4) by (auto simp: secret_variants_def redactable_def)
  then have "v \<in> set (concat (map secret_variants (sort_key (\<lambda>s. - int (length s)) (filter (\<lambda>s. s \<noteq> []) secrets))))"
    using assms(1,2) by auto
  then show ?thesis
    unfolding redact_secrets_def redact_fold by (rule replace_all_removes [OF assms(4)])
qed

theorem redact_secrets_removes_witness:
  "redact_secrets ''login hunter2 a%20b'' [''hunter2'', ''a b''] = ''login [REDACTED] [REDACTED]'' \<and>
   \<not> contains ''a%20b'' (redact_secrets ''login hunter2 a%20b'' [''hunter2'', ''a b''])"
proof -
  have "url_quote ''a b'' = ''a%20b''" by code_simp
  moreover have "redactable ''a%20b''" by code_simp
  ultimately have "\<not> contains ''a%20b'' (redact_secrets ''login hunter2 a%20b'' [''hunter2'', ''a b''])"
    using redact_secrets_removes [of "''a b''" "[''hunter2'', ''a b'']" "''a%20b''"] by simp
  moreover have "redact_secrets ''login hunter2 a%20b'' [''hunter2'', ''a b''] = ''login [REDACTED] [REDACTED]''"
    by code_simp
  ultimately show ?thesis by simp
qed

end
