(* ===== verification/Playbook_Project.thy ===== *)
theory Playbook_Project
  imports Json "HOL-Library.Word" "HOL-Library.Multiset"
begin

unbundle bit_operations_syntax

text \<open>
  \<open>services/playbook_project.py\<close>, first part: normalisation of project paths and projects, and the
  ZIP import and export of a project. The SHA-256 of a
  byte string is the argument \<open>sha256\<close>; a ZIP archive is the list of its members, and
  \<open>json.loads\<close> and UTF-8 decoding are arguments of the import.
\<close>

section \<open>Limits\<close>

definition MAX_PROJECT_FILES :: nat where "MAX_PROJECT_FILES = 256"
definition MAX_PROJECT_BYTES :: nat where "MAX_PROJECT_BYTES = 10 * 1024 * 1024"
definition MAX_PROJECT_FILE_BYTES :: nat where "MAX_PROJECT_FILE_BYTES = 1024 * 1024"
definition MAX_PROJECT_PATH_LENGTH :: nat where "MAX_PROJECT_PATH_LENGTH = 512"
definition MAX_PROJECT_DEPTH :: nat where "MAX_PROJECT_DEPTH = 16"
definition MAX_ZIP_BYTES :: nat where "MAX_ZIP_BYTES = 12 * 1024 * 1024"
definition PROJECT_MANIFEST :: string where "PROJECT_MANIFEST = ''.ops-composer-project.json''"
definition YAML_SUFFIXES :: "string list" where "YAML_SUFFIXES = [''.yml'', ''.yaml'']"

definition FORBIDDEN_COMPONENTS :: "string list" where
  "FORBIDDEN_COMPONENTS =
     [''.git'', ''.ssh'', ''collections'', ''library'', ''module_utils'', ''action_plugins'',
      ''become_plugins'', ''cache_plugins'', ''callback_plugins'', ''cliconf_plugins'',
      ''connection_plugins'', ''filter_plugins'', ''httpapi_plugins'', ''inventory_plugins'',
      ''lookup_plugins'', ''netconf_plugins'', ''shell_plugins'', ''strategy_plugins'',
      ''terminal_plugins'', ''test_plugins'', ''vars_plugins'']"

definition control_character :: "char \<Rightarrow> bool" where
  "control_character c \<longleftrightarrow> (of_char c :: nat) < 32 \<or> (of_char c :: nat) = 127"

section \<open>Paths\<close>

text \<open>
  \<open>PurePosixPath(raw).parts\<close> of a relative path: the components between slashes that are neither
  empty nor a dot. \<open>as_posix\<close> joins them; \<open>suffix\<close> starts at the last dot of the last part,
  unless the dot is its first or last character.
\<close>

definition path_parts :: "string \<Rightarrow> string list" where
  "path_parts raw = filter (\<lambda>part. part \<noteq> [] \<and> part \<noteq> ''.'') (py_split (CHR ''/'') raw)"

definition path_is_absolute :: "string \<Rightarrow> bool" where
  "path_is_absolute raw \<longleftrightarrow> startswith ''/'' raw"

definition as_posix :: "string list \<Rightarrow> string" where
  "as_posix parts = py_join ''/'' parts"

definition path_suffix :: "string \<Rightarrow> string" where
  "path_suffix raw =
     (case path_parts raw of
        [] \<Rightarrow> []
      | parts \<Rightarrow>
          let name = last parts;
              after = takeWhile (\<lambda>c. c \<noteq> CHR ''.'') (rev name);
              stem = length name - length after - 1
          in if CHR ''.'' \<in> set name \<and> 0 < stem \<and> stem < length name - 1
             then drop stem name else [])"

definition bad_component :: "string \<Rightarrow> bool" where
  "bad_component part \<longleftrightarrow> part \<in> {[], ''.'', ''..''} \<or> py_strip part \<noteq> part"

definition forbidden_component :: "string \<Rightarrow> bool" where
  "forbidden_component part \<longleftrightarrow> part \<in> set FORBIDDEN_COMPONENTS \<or> endswith ''_plugins'' part"

definition normalize_project_path :: "string \<Rightarrow> ops_error + string" where
  "normalize_project_path raw =
     (if raw = [] \<or> length raw > MAX_PROJECT_PATH_LENGTH \<or> CHR 0x5C \<in> set raw
         \<or> (\<exists>c \<in> set raw. control_character c)
      then Inl (PlaybookProjectInvalidError ''project contains an invalid path'')
      else
        let parts = path_parts raw in
        if path_is_absolute raw \<or> parts = [] \<or> length parts > MAX_PROJECT_DEPTH
        then Inl (PlaybookProjectInvalidError ''project contains an invalid path'')
        else if \<exists>part \<in> set parts. bad_component part
        then Inl (PlaybookProjectInvalidError ''project path traversal is not allowed'')
        else
          let lowered = map casefold parts in
          if casefold raw = casefold PROJECT_MANIFEST \<or> ''ansible.cfg'' \<in> set lowered
             \<or> (\<exists>part \<in> set lowered. forbidden_component part)
             \<or> last lowered \<in> {''inventory'', ''hosts''}
          then Inl (PlaybookProjectInvalidError ''project contains a forbidden path'')
          else Inr (as_posix parts))"

section \<open>Projects\<close>

record normalized_project =
  np_files :: "playbook_file list"
  np_entrypoint :: string
  np_sha256 :: string
  np_size_bytes :: nat

definition normalize_newlines :: "string \<Rightarrow> string" where
  "normalize_newlines content =
     py_replace [CHR 0x0D] [CHR 0x0A] (py_replace [CHR 0x0D, CHR 0x0A] [CHR 0x0A] content)"

fun normalize_files ::
    "(string \<Rightarrow> string) \<Rightarrow> (string \<times> string) list \<Rightarrow> string list \<Rightarrow> nat \<Rightarrow>
     ops_error + playbook_file list" where
  "normalize_files sha256 [] seen sofar = Inr []"
| "normalize_files sha256 ((raw_path, content) # items) seen sofar =
     (case normalize_project_path raw_path of
        Inl e \<Rightarrow> Inl e
      | Inr path \<Rightarrow>
          if casefold path \<in> set seen
          then Inl (PlaybookProjectInvalidError ''project contains duplicate case-folded paths'')
          else
            let encoded = normalize_newlines content in
            if encoded = [] \<or> CHR 0x00 \<in> set encoded \<or> length encoded > MAX_PROJECT_FILE_BYTES
            then Inl (PlaybookProjectInvalidError
                   ''project contains an empty, binary, or oversized file'')
            else if sofar + length encoded > MAX_PROJECT_BYTES
            then Inl (PlaybookProjectInvalidError ''project exceeds the 10 MiB limit'')
            else case normalize_files sha256 items (casefold path # seen) (sofar + length encoded) of
              Inl e \<Rightarrow> Inl e
            | Inr files \<Rightarrow>
                Inr (\<lparr>pf_path = path, pf_content = encoded, pf_sha256 = sha256 encoded,
                      pf_size_bytes = length encoded\<rparr> # files))"

definition project_digest :: "(string \<Rightarrow> string) \<Rightarrow> playbook_file list \<Rightarrow> string" where
  "project_digest sha256 files =
     sha256 (concat (map (\<lambda>f. pf_path f @ [CHR 0x00] @ pf_sha256 f @ [CHR 0x00]) files))"

definition normalize_project ::
    "(string \<Rightarrow> string) \<Rightarrow> (string \<times> string) list \<Rightarrow> string \<Rightarrow> ops_error + normalized_project" where
  "normalize_project sha256 files entrypoint =
     (if files = [] \<or> length files > MAX_PROJECT_FILES
      then Inl (PlaybookProjectInvalidError ''project must contain between 1 and 256 files'')
      else case normalize_files sha256 (sort_key (\<lambda>item. casefold (fst item)) files) [] 0 of
        Inl e \<Rightarrow> Inl e
      | Inr normalized \<Rightarrow>
          (case normalize_project_path entrypoint of
             Inl e \<Rightarrow> Inl e
           | Inr normalized_entrypoint \<Rightarrow>
               if casefold (path_suffix normalized_entrypoint) \<notin> set YAML_SUFFIXES
               then Inl (PlaybookProjectInvalidError ''entrypoint must be a YAML file'')
               else case filter (\<lambda>p. casefold p = casefold normalized_entrypoint)
                           (map pf_path normalized) of
                 [m] \<Rightarrow> Inr \<lparr>np_files = normalized, np_entrypoint = m,
                              np_sha256 = project_digest sha256 normalized,
                              np_size_bytes = sum_list (map pf_size_bytes normalized)\<rparr>
               | _ \<Rightarrow> Inl (PlaybookProjectInvalidError
                        ''entrypoint does not identify exactly one project file'')))"

section \<open>ZIP import and export\<close>

text \<open>
  A member as \<open>ZipFile.infolist\<close> and \<open>archive.open\<close> give it; \<open>zm_data = None\<close> is an entry whose
  contents cannot be read (\<open>zipfile\<close> raises \<open>BadZipFile\<close>).
\<close>

record zip_member =
  zm_filename :: string
  zm_flag_bits :: "16 word"
  zm_external_attr :: "32 word"
  zm_file_size :: nat
  zm_data :: "bytes option"

definition zip_is_dir :: "zip_member \<Rightarrow> bool" where
  "zip_is_dir m \<longleftrightarrow> endswith ''/'' (zm_filename m)"

definition S_IFREG :: "32 word" where "S_IFREG = 0x8000"
definition S_IFLNK :: "32 word" where "S_IFLNK = 0xA000"

definition zip_member_ok :: "zip_member \<Rightarrow> ops_error + unit" where
  "zip_member_ok m =
     (let mode = drop_bit 16 (zm_external_attr m);
          file_type = mode AND 0xF000 in
      if zm_flag_bits m AND 1 \<noteq> 0
      then Inl (PlaybookProjectInvalidError ''encrypted ZIP entries are not supported'')
      else if file_type = S_IFLNK
      then Inl (PlaybookProjectInvalidError ''ZIP symbolic links are not supported'')
      else if mode AND 0x1FF AND 0x49 \<noteq> 0
      then Inl (PlaybookProjectInvalidError ''ZIP executable files are not supported'')
      else if file_type \<noteq> 0 \<and> file_type \<noteq> S_IFREG
      then Inl (PlaybookProjectInvalidError ''ZIP special files are not supported'')
      else if zm_file_size m > MAX_PROJECT_FILE_BYTES
      then Inl (PlaybookProjectInvalidError ''ZIP archive contains an oversized file'')
      else Inr ())"

text \<open>The bounded reading loop: 64 KiB at a time, both limits checked after every chunk.\<close>

definition CHUNK :: nat where "CHUNK = 64 * 1024"

function read_chunks :: "bytes \<Rightarrow> nat \<Rightarrow> nat \<Rightarrow> ops_error + nat" where
  "read_chunks data member_size actual_total =
     (if data = [] then Inr actual_total
      else
        let n = length (take CHUNK data) in
        if member_size + n > MAX_PROJECT_FILE_BYTES \<or> actual_total + n > MAX_PROJECT_BYTES
        then Inl (PlaybookProjectInvalidError ''ZIP archive exceeds extraction limits'')
        else read_chunks (drop CHUNK data) (member_size + n) (actual_total + n))"
  by pat_completeness auto
termination
proof (relation "measure (\<lambda>(data, m, t). length data)")
  show "wf (measure (\<lambda>(data :: bytes, m :: nat, t :: nat). length data))" by simp
next
  fix data :: bytes and m t n :: nat
  assume "data \<noteq> []"
  then show "((drop CHUNK data, m + n, t + n), (data, m, t))
      \<in> measure (\<lambda>(data, m, t). length data)"
    by (simp add: CHUNK_def)
qed

declare read_chunks.simps [simp del]

record zip_state =
  zs_files :: "(string \<times> string) list"
  zs_entrypoint :: "string option"
  zs_total :: nat
  zs_seen :: "string list"

definition manifest_entrypoint :: "text_codec \<Rightarrow> string \<Rightarrow> ops_error + string" where
  "manifest_entrypoint codec txt =
     (case tc_loads codec txt of
        Some (JObj d) \<Rightarrow>
          (case map_of d ''entrypoint'' of
             Some (JStr e) \<Rightarrow> Inr e
           | _ \<Rightarrow> Inl (PlaybookProjectInvalidError ''project manifest is invalid''))
      | _ \<Rightarrow> Inl (PlaybookProjectInvalidError ''project manifest is invalid''))"

definition import_member :: "text_codec \<Rightarrow> zip_member \<Rightarrow> zip_state \<Rightarrow> ops_error + zip_state" where
  "import_member codec m st =
     (case zip_member_ok m of
        Inl e \<Rightarrow> Inl e
      | Inr _ \<Rightarrow>
          (case (if zm_filename m = PROJECT_MANIFEST then Inr PROJECT_MANIFEST
                 else normalize_project_path (zm_filename m)) of
             Inl e \<Rightarrow> Inl e
           | Inr path \<Rightarrow>
               if casefold path \<in> set (zs_seen st)
               then Inl (PlaybookProjectInvalidError ''ZIP archive contains duplicate paths'')
               else case zm_data m of
                 None \<Rightarrow> Inl BadZipFileErr
               | Some data \<Rightarrow>
                   (case read_chunks data 0 (zs_total st) of
                      Inl e \<Rightarrow> Inl e
                    | Inr sofar \<Rightarrow>
                        let st' = st\<lparr>zs_seen := casefold path # zs_seen st, zs_total := sofar\<rparr> in
                        (case tc_decode codec data of
                           None \<Rightarrow> Inl (PlaybookProjectInvalidError
                                      ''ZIP project files must contain UTF-8 text'')
                         | Some txt \<Rightarrow>
                             if path = PROJECT_MANIFEST
                             then (case manifest_entrypoint codec txt of
                                     Inl e \<Rightarrow> Inl e
                                   | Inr entry \<Rightarrow> Inr (st'\<lparr>zs_entrypoint := Some entry\<rparr>))
                             else Inr (st'\<lparr>zs_files := dict_set path txt (zs_files st')\<rparr>)))))"

fun import_members :: "text_codec \<Rightarrow> zip_member list \<Rightarrow> zip_state \<Rightarrow> ops_error + zip_state" where
  "import_members codec [] st = Inr st"
| "import_members codec (m # ms) st =
     (case import_member codec m st of Inl e \<Rightarrow> Inl e | Inr st' \<Rightarrow> import_members codec ms st')"

definition import_project_zip ::
    "(string \<Rightarrow> string) \<Rightarrow> text_codec \<Rightarrow> (bytes \<Rightarrow> zip_member list option) \<Rightarrow> bytes \<Rightarrow> string option \<Rightarrow>
     ops_error + normalized_project" where
  "import_project_zip sha256 codec open_zip payload explicit_entrypoint =
     (if payload = [] \<or> length payload > MAX_ZIP_BYTES
      then Inl (PlaybookProjectInvalidError ''ZIP archive is empty or exceeds the upload limit'')
      else case open_zip payload of
        None \<Rightarrow> Inl (PlaybookProjectInvalidError ''ZIP archive is invalid'')
      | Some infolist \<Rightarrow>
          let members = filter (\<lambda>m. \<not> zip_is_dir m) infolist in
          if length members > MAX_PROJECT_FILES + 1
          then Inl (PlaybookProjectInvalidError ''ZIP archive contains too many files'')
          else case import_members codec members
                      \<lparr>zs_files = [], zs_entrypoint = None, zs_total = 0, zs_seen = []\<rparr> of
            Inl e \<Rightarrow> Inl e
          | Inr st \<Rightarrow>
              (case (if explicit_entrypoint = None \<or> explicit_entrypoint = Some []
                     then zs_entrypoint st else explicit_entrypoint) of
                 None \<Rightarrow> Inl (PlaybookProjectInvalidError
                            ''entrypoint must be selected for ZIP archives without a manifest'')
               | Some entrypoint \<Rightarrow> normalize_project sha256 (zs_files st) entrypoint))"

definition export_member :: "string \<Rightarrow> string \<Rightarrow> zip_member" where
  "export_member path content =
     \<lparr>zm_filename = path, zm_flag_bits = 0,
      zm_external_attr = push_bit 16 (S_IFREG OR 0x180), zm_file_size = length content,
      zm_data = Some (encode_ascii content)\<rparr>"

definition export_manifest :: "normalized_project \<Rightarrow> string" where
  "export_manifest p =
     json_dumps (\<lambda>_. []) (JObj [(''entrypoint'', JStr (np_entrypoint p)), (''formatVersion'', JInt 1)])"

definition export_project_zip :: "normalized_project \<Rightarrow> zip_member list" where
  "export_project_zip p =
     export_member PROJECT_MANIFEST (export_manifest p) #
     map (\<lambda>f. export_member (pf_path f) (pf_content f)) (np_files p)"

section \<open>Paths that pass\<close>

lemma length_py_join:
  "length (py_join [sep] parts) = sum_list (map length parts) + (length parts - 1)"
  by (induction "[sep]" parts rule: py_join.induct) auto

lemma length_join_filter_split:
  "length (py_join [sep] (filter p (py_split sep s))) \<le> length s"
proof -
  have "sum_list (map length (filter p xs)) \<le> sum_list (map length xs)" for xs :: "'a list list"
    by (induction xs) auto
  moreover have "length (filter p (py_split sep s)) - 1 \<le> length (py_split sep s) - 1"
    by (simp add: diff_le_mono)
  ultimately have "length (py_join [sep] (filter p (py_split sep s))) \<le> length (py_join [sep] (py_split sep s))"
    unfolding length_py_join by (rule add_mono)
  then show ?thesis by (simp add: py_join_split)
qed

lemma set_py_split: "part \<in> set (py_split sep s) \<Longrightarrow> set part \<subseteq> set s"
  by (induction s arbitrary: part) (fastforce split: list.splits if_splits)+

lemma path_parts_no_slash: "part \<in> set (path_parts raw) \<Longrightarrow> CHR ''/'' \<notin> set part"
  by (auto simp: path_parts_def dest: py_split_part)

lemma path_parts_as_posix:
  assumes "parts \<noteq> []" and "\<And>part. part \<in> set parts \<Longrightarrow> CHR ''/'' \<notin> set part \<and> part \<noteq> [] \<and> part \<noteq> ''.''"
  shows "path_parts (as_posix parts) = parts" and "py_split (CHR ''/'') (as_posix parts) = parts"
proof -
  show "py_split (CHR ''/'') (as_posix parts) = parts"
    unfolding as_posix_def using assms by (intro py_split_join) auto
  then show "path_parts (as_posix parts) = parts"
    using assms by (simp add: path_parts_def filter_id_conv)
qed

lemma normalize_project_path_InrD:
  assumes "normalize_project_path raw = Inr p"
  shows "p = as_posix (path_parts raw)" and "path_parts raw \<noteq> []"
    and "length (path_parts raw) \<le> MAX_PROJECT_DEPTH"
    and "\<And>part. part \<in> set (path_parts raw) \<Longrightarrow> \<not> bad_component part"
    and "\<And>part. part \<in> set (path_parts raw) \<Longrightarrow>
           \<not> forbidden_component (casefold part) \<and> casefold part \<noteq> ''ansible.cfg''"
    and "casefold (last (path_parts raw)) \<notin> {''inventory'', ''hosts''}"
    and "length raw \<le> MAX_PROJECT_PATH_LENGTH" and "CHR 0x5C \<notin> set raw"
    and "\<And>c. c \<in> set raw \<Longrightarrow> \<not> control_character c"
  using assms
  by (auto simp: normalize_project_path_def Let_def last_map image_iff split: if_splits)

lemma normalize_project_path_not_manifest:
  "normalize_project_path raw = Inr p \<Longrightarrow> casefold raw \<noteq> casefold PROJECT_MANIFEST"
  by (auto simp: normalize_project_path_def Let_def split: if_splits)

lemma normalized_path_split:
  assumes "normalize_project_path raw = Inr p"
  shows "path_parts p = path_parts raw" and "py_split (CHR ''/'') p = path_parts raw"
  using path_parts_as_posix [of "path_parts raw"] normalize_project_path_InrD [OF assms]
    path_parts_no_slash [of _ raw]
  by (auto simp: bad_component_def)

lemma normalized_path_chars:
  assumes "normalize_project_path raw = Inr p" and "c \<in> set p"
  shows "c = CHR ''/'' \<or> c \<in> set raw"
proof -
  have "c \<in> set (py_join [CHR ''/''] (path_parts raw))"
    using assms normalize_project_path_InrD(1) [OF assms(1)] by (simp add: as_posix_def)
  then have "c = CHR ''/'' \<or> (\<exists>part \<in> set (path_parts raw). c \<in> set part)"
    using set_py_join [of "CHR ''/''" "path_parts raw"] by auto
  moreover have "set part \<subseteq> set raw" if "part \<in> set (path_parts raw)" for part
    using that set_py_split [of part "CHR ''/''" raw] by (simp add: path_parts_def)
  ultimately show ?thesis by blast
qed

lemma normalized_path_length:
  assumes "normalize_project_path raw = Inr p"
  shows "length p \<le> length raw"
  unfolding normalize_project_path_InrD(1) [OF assms] as_posix_def path_parts_def
  by (rule length_join_filter_split)

lemma normalized_path_relative:
  assumes "normalize_project_path raw = Inr p"
  shows "\<not> path_is_absolute p" and "p \<noteq> []"
proof -
  obtain q parts where q: "path_parts raw = q # parts"
    using normalize_project_path_InrD(2) [OF assms] by (cases "path_parts raw") auto
  then have "q \<in> set (path_parts raw)" by simp
  then have "q \<noteq> []" "CHR ''/'' \<notin> set q"
    using path_parts_no_slash [of q raw] by (auto simp: path_parts_def)
  then obtain c q' where "q = c # q'" "c \<noteq> CHR ''/''" by (cases q) auto
  then have "\<exists>t. p = c # t"
    using normalize_project_path_InrD(1) [OF assms] q by (cases parts) (auto simp: as_posix_def)
  then show "\<not> path_is_absolute p" and "p \<noteq> []"
    using \<open>c \<noteq> CHR ''/''\<close> by (auto simp: path_is_absolute_def)
qed

text \<open>
  A path that \<open>normalize_project_path\<close> accepts stays inside the project: its components are
  the components of the input, none of them is empty, a dot, a parent reference or padded with
  blanks, none is a forbidden directory, it is relative, at most sixteen levels deep and free
  of backslashes and control characters.
\<close>

theorem normalize_project_path_safe:
  assumes "normalize_project_path raw = Inr p"
  shows "py_split (CHR ''/'') p = path_parts raw \<and>
     (\<forall>part \<in> set (py_split (CHR ''/'') p).
        part \<notin> {[], ''.'', ''..''} \<and> py_strip part = part \<and> \<not> forbidden_component (casefold part)) \<and>
     length (py_split (CHR ''/'') p) \<le> MAX_PROJECT_DEPTH \<and> length p \<le> MAX_PROJECT_PATH_LENGTH \<and>
     \<not> path_is_absolute p \<and> CHR 0x5C \<notin> set p \<and> (\<forall>c \<in> set p. \<not> control_character c)"
proof -
  note D = normalize_project_path_InrD [OF assms]
  have "\<not> control_character (CHR ''/'')" by (simp add: control_character_def)
  then have chars: "CHR 0x5C \<notin> set p" "\<forall>c \<in> set p. \<not> control_character c"
    using normalized_path_chars [OF assms] D(8,9) by auto
  have "length p \<le> MAX_PROJECT_PATH_LENGTH" using normalized_path_length [OF assms] D(7) by simp
  then show ?thesis
    using normalized_path_split [OF assms] D(3,4,5) chars normalized_path_relative [OF assms]
    by (auto simp: bad_component_def)
qed

theorem normalize_project_path_safe_witness:
  "normalize_project_path ''./roles//web/tasks/main.yml'' = Inr ''roles/web/tasks/main.yml'' \<and>
   length (py_split (CHR ''/'') ''roles/web/tasks/main.yml'') \<le> MAX_PROJECT_DEPTH"
proof -
  have "normalize_project_path ''./roles//web/tasks/main.yml'' = Inr ''roles/web/tasks/main.yml''"
    by code_simp
  then show ?thesis using normalize_project_path_safe by blast
qed

text \<open>
  normalisation is idempotent on every path it returns, except the one it should never
  return: \<open>./.ops-composer-project.json\<close> passes the test for the manifest name, which looks at the
  raw path, and becomes the manifest name, which the function itself rejects.
\<close>

theorem normalize_project_path_again:
  assumes "normalize_project_path raw = Inr p"
  shows "normalize_project_path p =
     (if casefold p = casefold PROJECT_MANIFEST
      then Inl (PlaybookProjectInvalidError ''project contains a forbidden path'') else Inr p)"
proof -
  note D = normalize_project_path_InrD [OF assms]
  have "\<not> control_character (CHR ''/'')" by (simp add: control_character_def)
  then have chars: "CHR 0x5C \<notin> set p" "\<forall>c \<in> set p. \<not> control_character c"
    using normalized_path_chars [OF assms] D(8,9) by auto
  have len: "length p \<le> MAX_PROJECT_PATH_LENGTH" using normalized_path_length [OF assms] D(7) by simp
  have "''ansible.cfg'' \<notin> casefold ` set (path_parts raw)" using D(5) by force
  then show ?thesis
    using D(1-6) chars len normalized_path_split(1) [OF assms] normalized_path_relative [OF assms]
    unfolding normalize_project_path_def Let_def by (simp add: last_map linorder_not_less)
qed

theorem normalize_project_path_again_witness:
  "normalize_project_path ''./.ops-composer-project.json'' = Inr PROJECT_MANIFEST \<and>
   normalize_project_path PROJECT_MANIFEST =
     Inl (PlaybookProjectInvalidError ''project contains a forbidden path'')"
proof -
  have "normalize_project_path ''./.ops-composer-project.json'' = Inr PROJECT_MANIFEST"
    by code_simp
  then show ?thesis using normalize_project_path_again by fastforce
qed

section \<open>Projects that pass\<close>

lemma normalize_newlines_no_cr: "CHR 0x0D \<notin> set (normalize_newlines content)"
  by (auto simp: normalize_newlines_def py_replace_single split: if_splits)

lemma normalize_newlines_id: "CHR 0x0D \<notin> set content \<Longrightarrow> normalize_newlines content = content"
  by (simp add: normalize_newlines_def py_replace_absent [of "CHR 0x0D"])

lemma normalize_newlines_idem [simp]:
  "normalize_newlines (normalize_newlines content) = normalize_newlines content"
  by (simp add: normalize_newlines_id normalize_newlines_no_cr)

definition file_of :: "(string \<Rightarrow> string) \<Rightarrow> string \<times> string \<Rightarrow> playbook_file \<Rightarrow> bool" where
  "file_of sha256 item f \<longleftrightarrow>
     normalize_project_path (fst item) = Inr (pf_path f) \<and>
     pf_content f = normalize_newlines (snd item) \<and> pf_content f \<noteq> [] \<and>
     CHR 0x00 \<notin> set (pf_content f) \<and> pf_sha256 f = sha256 (pf_content f) \<and>
     pf_size_bytes f = length (pf_content f) \<and> pf_size_bytes f \<le> MAX_PROJECT_FILE_BYTES"

text \<open>The loop of \<open>normalize_project\<close> succeeds exactly when it produces the files it should.\<close>

lemma normalize_files_iff:
  "normalize_files sha256 items seen sofar = Inr files \<longleftrightarrow>
     list_all2 (file_of sha256) items files \<and>
     distinct (map (\<lambda>f. casefold (pf_path f)) files) \<and>
     set (map (\<lambda>f. casefold (pf_path f)) files) \<inter> set seen = {} \<and>
     (files = [] \<or> sofar + sum_list (map pf_size_bytes files) \<le> MAX_PROJECT_BYTES)"
proof (induction sha256 items seen sofar arbitrary: files rule: normalize_files.induct)
  case (1 sha256 seen sofar)
  then show ?case by auto
next
  case (2 sha256 raw content items seen sofar)
  show ?case
  proof (cases "normalize_project_path raw")
    case (Inl e)
    then show ?thesis by (auto simp: file_of_def list_all2_Cons1)
  next
    case (Inr path)
    show ?thesis
    proof (cases files)
      case Nil
      then show ?thesis using Inr by (auto simp: Let_def split: sum.splits)
    next
      case (Cons f fs)
      let ?c = "normalize_newlines content"
      have IH: "casefold path \<notin> set seen \<Longrightarrow>
          \<not> (?c = [] \<or> CHR 0x00 \<in> set ?c \<or> MAX_PROJECT_FILE_BYTES < length ?c) \<Longrightarrow>
          \<not> MAX_PROJECT_BYTES < sofar + length ?c \<Longrightarrow>
          (normalize_files sha256 items (casefold path # seen) (sofar + length ?c) = Inr fs) \<longleftrightarrow>
            list_all2 (file_of sha256) items fs \<and>
            distinct (map (\<lambda>f. casefold (pf_path f)) fs) \<and>
            set (map (\<lambda>f. casefold (pf_path f)) fs) \<inter> set (casefold path # seen) = {} \<and>
            (fs = [] \<or> sofar + length ?c + sum_list (map pf_size_bytes fs) \<le> MAX_PROJECT_BYTES)"
        using 2 [OF Inr _ refl] by blast
      have "file_of sha256 (raw, content) f \<longleftrightarrow>
          f = \<lparr>pf_path = path, pf_content = ?c, pf_sha256 = sha256 ?c, pf_size_bytes = length ?c\<rparr> \<and>
          \<not> (?c = [] \<or> CHR 0x00 \<in> set ?c \<or> MAX_PROJECT_FILE_BYTES < length ?c)"
        using Inr by (cases f) (auto simp: file_of_def)
      then show ?thesis
        using Inr Cons IH by (auto simp: Let_def split: sum.splits)
    qed
  qed
qed

lemma normalize_project_InrD:
  assumes "normalize_project sha256 files entrypoint = Inr p"
  obtains normalized_entrypoint where
    "files \<noteq> []" and "length files \<le> MAX_PROJECT_FILES"
    and "list_all2 (file_of sha256) (sort_key (\<lambda>item. casefold (fst item)) files) (np_files p)"
    and "distinct (map (\<lambda>f. casefold (pf_path f)) (np_files p))"
    and "sum_list (map pf_size_bytes (np_files p)) \<le> MAX_PROJECT_BYTES"
    and "normalize_project_path entrypoint = Inr normalized_entrypoint"
    and "casefold (path_suffix normalized_entrypoint) \<in> set YAML_SUFFIXES"
    and "filter (\<lambda>q. casefold q = casefold normalized_entrypoint) (map pf_path (np_files p)) = [np_entrypoint p]"
    and "np_sha256 p = project_digest sha256 (np_files p)"
    and "np_size_bytes p = sum_list (map pf_size_bytes (np_files p))"
proof -
  obtain fs where fs: "normalize_files sha256 (sort_key (\<lambda>item. casefold (fst item)) files) [] 0 = Inr fs"
    using assms by (auto simp: normalize_project_def split: if_splits sum.splits)
  obtain ne where ne: "normalize_project_path entrypoint = Inr ne"
    using assms fs by (auto simp: normalize_project_def split: if_splits sum.splits)
  have p: "np_files p = fs" "np_sha256 p = project_digest sha256 fs"
    "np_size_bytes p = sum_list (map pf_size_bytes fs)"
    "filter (\<lambda>q. casefold q = casefold ne) (map pf_path fs) = [np_entrypoint p]"
    "casefold (path_suffix ne) \<in> set YAML_SUFFIXES" "files \<noteq> []" "length files \<le> MAX_PROJECT_FILES"
    using assms fs ne by (auto simp: normalize_project_def split: if_splits list.splits)
  have "sum_list (map pf_size_bytes fs) \<le> MAX_PROJECT_BYTES"
    using fs by (auto simp: normalize_files_iff)
  then show thesis using that p ne fs by (auto simp: normalize_files_iff)
qed

lemma list_all2_in_set1:
  assumes "list_all2 R xs ys" and "x \<in> set xs"
  obtains y where "y \<in> set ys" and "R x y"
  using assms by (metis in_set_conv_nth list_all2_conv_all_nth)

lemma list_all2_in_set2:
  assumes "list_all2 R xs ys" and "y \<in> set ys"
  obtains x where "x \<in> set xs" and "R x y"
  using assms by (metis in_set_conv_nth list_all2_conv_all_nth)

text \<open>
  A normalised project holds exactly the files it was given, under their normalised paths and
  with normalised line ends; the paths differ even after case folding, no file is empty,
  binary, over 1 MiB or contains a carriage return, the total is at most 10 MiB, and the
  entrypoint is one of the files.
\<close>

theorem normalize_project_sound:
  assumes "normalize_project sha256 files entrypoint = Inr p"
  shows "length (np_files p) = length files \<and> length (np_files p) \<in> {1..MAX_PROJECT_FILES} \<and>
     (\<forall>(raw, content) \<in> set files. \<exists>f \<in> set (np_files p).
        normalize_project_path raw = Inr (pf_path f) \<and> pf_content f = normalize_newlines content) \<and>
     distinct (map (\<lambda>f. casefold (pf_path f)) (np_files p)) \<and>
     (\<forall>f \<in> set (np_files p). pf_size_bytes f = length (pf_content f) \<and>
        pf_size_bytes f \<in> {1..MAX_PROJECT_FILE_BYTES} \<and>
        CHR 0x00 \<notin> set (pf_content f) \<and> CHR 0x0D \<notin> set (pf_content f)) \<and>
     np_size_bytes p = (\<Sum>f \<leftarrow> np_files p. pf_size_bytes f) \<and> np_size_bytes p \<le> MAX_PROJECT_BYTES \<and>
     np_entrypoint p \<in> pf_path ` set (np_files p)"
proof -
  obtain ne where D: "files \<noteq> []" "length files \<le> MAX_PROJECT_FILES"
    "list_all2 (file_of sha256) (sort_key (\<lambda>item. casefold (fst item)) files) (np_files p)"
    "distinct (map (\<lambda>f. casefold (pf_path f)) (np_files p))"
    "sum_list (map pf_size_bytes (np_files p)) \<le> MAX_PROJECT_BYTES"
    "filter (\<lambda>q. casefold q = casefold ne) (map pf_path (np_files p)) = [np_entrypoint p]"
    "np_size_bytes p = sum_list (map pf_size_bytes (np_files p))"
    using normalize_project_InrD [OF assms] by metis
  have len: "length (np_files p) = length files" using D(3) by (simp add: list_all2_lengthD [symmetric])
  have "\<exists>f \<in> set (np_files p). normalize_project_path raw = Inr (pf_path f) \<and>
      pf_content f = normalize_newlines content" if "(raw, content) \<in> set files" for raw content
    using list_all2_in_set1 [OF D(3), of "(raw, content)"] that by (auto simp: file_of_def)
  then have "\<forall>(raw, content) \<in> set files. \<exists>f \<in> set (np_files p).
        normalize_project_path raw = Inr (pf_path f) \<and> pf_content f = normalize_newlines content"
    by auto
  moreover have "pf_size_bytes f = length (pf_content f) \<and>
        pf_size_bytes f \<in> {1..MAX_PROJECT_FILE_BYTES} \<and>
        CHR 0x00 \<notin> set (pf_content f) \<and> CHR 0x0D \<notin> set (pf_content f)" if f: "f \<in> set (np_files p)" for f
  proof -
    obtain item where "file_of sha256 item f" using list_all2_in_set2 [OF D(3) f] by blast
    then show ?thesis using normalize_newlines_no_cr [of "snd item"]
      by (auto simp: file_of_def Suc_le_eq)
  qed
  moreover have "np_entrypoint p \<in> pf_path ` set (np_files p)"
    using D(6) by (metis filter_is_subset image_set list.set_intros(1) subset_code(1))
  moreover have "length (np_files p) \<in> {1..MAX_PROJECT_FILES}"
    using D(1,2) len by (auto simp: Suc_le_eq)
  ultimately show ?thesis using D(4,5,7) len by (simp only: simp_thms ball_simps) blast
qed

theorem normalize_project_sound_witness:
  "\<exists>p. normalize_project (\<lambda>s. ''d'') [(''site.yml'', ''- hosts: all''), (''./vars/a.yml'', ''x: 1'')]
         ''SITE.yml'' = Inr p \<and> np_entrypoint p \<in> pf_path ` set (np_files p) \<and>
       np_entrypoint p = ''site.yml''"
proof -
  let ?run = "normalize_project (\<lambda>s. ''d'') [(''site.yml'', ''- hosts: all''), (''./vars/a.yml'', ''x: 1'')] ''SITE.yml''"
  have "case ?run of Inl _ \<Rightarrow> False | Inr p \<Rightarrow> np_entrypoint p = ''site.yml''" by code_simp
  then obtain p where "?run = Inr p" and "np_entrypoint p = ''site.yml''"
    by (auto split: sum.splits)
  then show ?thesis using normalize_project_sound [of "\<lambda>s. ''d''"] by blast
qed

text \<open>
  the order in which a client lists the files does not matter: two dictionaries with the
  same items, whose keys differ after case folding, normalise to the same project and digest.
\<close>

theorem normalize_project_order:
  assumes "mset files = mset files'" and "distinct (map (\<lambda>item. casefold (fst item)) files)"
  shows "normalize_project sha256 files entrypoint = normalize_project sha256 files' entrypoint"
proof -
  let ?k = "\<lambda>item :: string \<times> string. casefold (fst item)"
  have "sort_key ?k files = sort_key ?k files'"
  proof (rule properties_for_sort_key)
    show "mset (sort_key ?k files') = mset files" using assms(1) by simp
    have "inj_on ?k (set files)" using assms(2) by (simp add: distinct_map)
    then show "filter (\<lambda>y. ?k x = ?k y) (sort_key ?k files') = filter (\<lambda>y. ?k x = ?k y) files"
      if "x \<in> set (sort_key ?k files')" for x
    proof -
      have x: "x \<in> set files" using that assms(1) by (metis set_mset_mset set_sort)
      have one: "filter (\<lambda>y. ?k x = ?k y) xs = filter ((=) x) xs" if "mset xs = mset files" for xs
        using that x \<open>inj_on ?k (set files)\<close> by (intro filter_cong refl) (metis inj_onD set_mset_mset)
      have "mset (filter ((=) x) (sort_key ?k files')) = mset (filter ((=) x) files)"
        using assms(1) by simp
      then have "length (filter ((=) x) (sort_key ?k files')) = length (filter ((=) x) files)"
        by (metis size_mset)
      moreover have "filter ((=) x) xs = replicate (length (filter ((=) x) xs)) x" for xs
        by (induction xs) auto
      ultimately show ?thesis using one assms(1) by (metis mset_sort)
    qed
  qed simp
  moreover have "length files = length files'" "files = [] \<longleftrightarrow> files' = []"
    using assms(1) by (metis size_mset, metis mset_zero_iff)
  ultimately show ?thesis by (simp add: normalize_project_def)
qed

theorem normalize_project_order_witness:
  "normalize_project (\<lambda>s. s) [(''b.yml'', ''1''), (''A.yml'', ''2'')] ''a.yml'' =
   normalize_project (\<lambda>s. s) [(''A.yml'', ''2''), (''b.yml'', ''1'')] ''a.yml''"
proof (rule normalize_project_order)
  show "distinct (map (\<lambda>item. casefold (fst item)) [(''b.yml'', ''1''), (''A.yml'', ''2'')])"
    by code_simp
qed (simp add: add_mset_commute)

section \<open>Suffixes and case\<close>

lemma casefold_Nil [simp]: "casefold [] = []"
  by (simp add: casefold_def)

lemma casefold_Nil_iff [simp]: "casefold s = [] \<longleftrightarrow> s = []"
  by (simp add: casefold_def)

lemma length_casefold [simp]: "length (casefold s) = length s"
  by (simp add: casefold_def)

lemma lower_char_dot [simp]: "lower_char c = CHR ''.'' \<longleftrightarrow> c = CHR ''.''"
  by (rule lower_char_eq_iff) (auto simp: less_eq_char_def)

lemma casefold_dot: "casefold s = ''.'' \<longleftrightarrow> s = ''.''"
  by (auto simp: casefold_def map_eq_Cons_conv)

lemma path_parts_casefold: "path_parts (casefold raw) = map casefold (path_parts raw)"
proof -
  have "py_split (CHR ''/'') (casefold raw) = map casefold (py_split (CHR ''/'') raw)"
    by (rule py_split_casefold) (auto simp: less_eq_char_def)
  moreover have "filter (\<lambda>part. part \<noteq> [] \<and> part \<noteq> ''.'') (map casefold xs) =
      map casefold (filter (\<lambda>part. part \<noteq> [] \<and> part \<noteq> ''.'') xs)" for xs
    by (induction xs) (auto simp: casefold_dot)
  ultimately show ?thesis by (simp add: path_parts_def)
qed

lemma path_suffix_casefold: "path_suffix (casefold raw) = casefold (path_suffix raw)"
proof (cases "path_parts raw")
  case Nil
  then show ?thesis by (simp add: path_suffix_def path_parts_casefold)
next
  case (Cons q parts)
  have last: "last (map casefold (path_parts raw)) = casefold (last (path_parts raw))"
    using Cons by (simp add: last_map)
  have after: "length (takeWhile (\<lambda>c. c \<noteq> CHR ''.'') (rev (casefold s))) =
      length (takeWhile (\<lambda>c. c \<noteq> CHR ''.'') (rev s))" for s
    by (simp add: casefold_def rev_map takeWhile_map o_def)
  have dot: "CHR ''.'' \<in> set (casefold s) \<longleftrightarrow> CHR ''.'' \<in> set s" for s
    unfolding casefold_def set_map image_iff using lower_char_dot by metis
  have "drop n (casefold s) = casefold (drop n s)" for n s by (simp add: casefold_def drop_map)
  then show ?thesis
    using Cons last after [of "last (path_parts raw)"] dot [of "last (path_parts raw)"]
    by (simp add: path_suffix_def path_parts_casefold Let_def del: last_ConsR last.simps)
qed

section \<open>Export and import\<close>

text \<open>The bounded loop reads everything or fails, whatever the chunk size.\<close>

lemma read_chunks_iff:
  "read_chunks data m t =
     (if data \<noteq> [] \<and> (m + length data > MAX_PROJECT_FILE_BYTES \<or> t + length data > MAX_PROJECT_BYTES)
      then Inl (PlaybookProjectInvalidError ''ZIP archive exceeds extraction limits'')
      else Inr (t + length data))"
proof (induction data m t rule: read_chunks.induct)
  case (1 data m t)
  show ?case
  proof (cases "data = []")
    case True
    then show ?thesis by (simp add: read_chunks.simps)
  next
    case False
    let ?n = "length (take CHUNK data)"
    have len: "?n + length (drop CHUNK data) = length data" by simp
    show ?thesis
    proof (cases "m + ?n > MAX_PROJECT_FILE_BYTES \<or> t + ?n > MAX_PROJECT_BYTES")
      case True
      then show ?thesis using False len by (subst read_chunks.simps) (auto simp: Let_def)
    next
      case ok: False
      then have "read_chunks data m t = read_chunks (drop CHUNK data) (m + ?n) (t + ?n)"
        using False by (subst read_chunks.simps) (auto simp: Let_def)
      also have step: "\<dots> = (if drop CHUNK data \<noteq> [] \<and> (m + length data > MAX_PROJECT_FILE_BYTES \<or> t + length data > MAX_PROJECT_BYTES)
          then Inl (PlaybookProjectInvalidError ''ZIP archive exceeds extraction limits'')
          else Inr (t + length data))"
        unfolding 1 [OF False refl ok] add.assoc len ..
      finally have run: "read_chunks data m t = (if drop CHUNK data \<noteq> [] \<and> (m + length data > MAX_PROJECT_FILE_BYTES \<or> t + length data > MAX_PROJECT_BYTES)
          then Inl (PlaybookProjectInvalidError ''ZIP archive exceeds extraction limits'')
          else Inr (t + length data))" .
      show ?thesis
      proof (cases "drop CHUNK data = []")
        case True
        then have "?n = length data" using len by simp
        then show ?thesis using run ok True by simp
      next
        case rest: False
        then show ?thesis using run False by simp
      qed
    qed
  qed
qed

lemma export_member_ok:
  assumes "length content \<le> MAX_PROJECT_FILE_BYTES"
  shows "zip_member_ok (export_member path content) = Inr ()"
proof -
  have "drop_bit 16 (push_bit 16 (S_IFREG OR 0x180)) = (0x8180 :: 32 word)"
    by (simp add: S_IFREG_def)
  then show ?thesis
    using assms by (simp add: zip_member_ok_def export_member_def S_IFREG_def S_IFLNK_def Let_def)
qed

text \<open>What the codec of the archive has to do for the exported text.\<close>

definition codec_reads :: "text_codec \<Rightarrow> normalized_project \<Rightarrow> bool" where
  "codec_reads codec p \<longleftrightarrow>
     (\<forall>s. tc_decode codec (encode_ascii s) = Some s) \<and>
     tc_loads codec (export_manifest p) =
       Some (JObj [(''entrypoint'', JStr (np_entrypoint p)), (''formatVersion'', JInt 1)])"

lemma import_exported_file:
  assumes "tc_decode codec (encode_ascii content) = Some content"
    and "normalize_project_path path = Inr path" and "path \<noteq> PROJECT_MANIFEST"
    and "casefold path \<notin> set (zs_seen st)" and "path \<notin> fst ` set (zs_files st)"
    and "length content \<le> MAX_PROJECT_FILE_BYTES" and "zs_total st + length content \<le> MAX_PROJECT_BYTES"
  shows "import_member codec (export_member path content) st =
     Inr (st\<lparr>zs_seen := casefold path # zs_seen st, zs_total := zs_total st + length content,
             zs_files := zs_files st @ [(path, content)]\<rparr>)"
proof -
  have "dict_set path content fs = fs @ [(path, content)]" if "path \<notin> fst ` set fs" for fs
    using that by (induction fs) auto
  moreover have "length (encode_ascii content) = length content" by (simp add: encode_ascii_def)
  ultimately show ?thesis
    using assms export_member_ok [OF assms(6), of path]
    by (simp add: import_member_def export_member_def read_chunks_iff Let_def)
qed

lemma import_exported_files:
  assumes "\<And>s. tc_decode codec (encode_ascii s) = Some s"
    and "\<And>f. f \<in> set files \<Longrightarrow> normalize_project_path (pf_path f) = Inr (pf_path f) \<and>
           pf_path f \<noteq> PROJECT_MANIFEST \<and> length (pf_content f) \<le> MAX_PROJECT_FILE_BYTES"
    and "distinct (map (\<lambda>f. casefold (pf_path f)) files)"
    and "set (map (\<lambda>f. casefold (pf_path f)) files) \<inter> set (zs_seen st) = {}"
    and "casefold ` fst ` set (zs_files st) \<subseteq> set (zs_seen st)"
    and "zs_total st + sum_list (map (\<lambda>f. length (pf_content f)) files) \<le> MAX_PROJECT_BYTES"
  shows "\<exists>st'. import_members codec (map (\<lambda>f. export_member (pf_path f) (pf_content f)) files) st = Inr st' \<and>
     zs_files st' = zs_files st @ map (\<lambda>f. (pf_path f, pf_content f)) files \<and>
     zs_entrypoint st' = zs_entrypoint st"
  using assms
proof (induction files arbitrary: st)
  case Nil
  then show ?case by simp
next
  case (Cons f files)
  let ?st = "st\<lparr>zs_seen := casefold (pf_path f) # zs_seen st, zs_total := zs_total st + length (pf_content f),
             zs_files := zs_files st @ [(pf_path f, pf_content f)]\<rparr>"
  have fresh: "casefold (pf_path f) \<notin> set (zs_seen st)" using Cons.prems(4) by auto
  then have "pf_path f \<notin> fst ` set (zs_files st)" using Cons.prems(5) by auto
  then have "import_member codec (export_member (pf_path f) (pf_content f)) st = Inr ?st"
    using Cons.prems(1) [of "pf_content f"] Cons.prems(2) [of f] Cons.prems(6) fresh
    by (intro import_exported_file) auto
  moreover have "\<exists>st''. import_members codec (map (\<lambda>f. export_member (pf_path f) (pf_content f)) files) ?st = Inr st'' \<and>
     zs_files st'' = zs_files ?st @ map (\<lambda>f. (pf_path f, pf_content f)) files \<and>
     zs_entrypoint st'' = zs_entrypoint ?st"
  proof (rule Cons.IH)
    show "set (map (\<lambda>f. casefold (pf_path f)) files) \<inter> set (zs_seen ?st) = {}"
      using Cons.prems(3,4) by auto
    show "casefold ` fst ` set (zs_files ?st) \<subseteq> set (zs_seen ?st)" using Cons.prems(5) by auto
    show "zs_total ?st + sum_list (map (\<lambda>f. length (pf_content f)) files) \<le> MAX_PROJECT_BYTES"
      using Cons.prems(6) by simp
  qed (use Cons.prems in auto)
  ultimately show ?case by auto
qed

lemma py_split_trailing: "py_split sep (q @ [sep]) = py_split sep q @ [[]]"
proof (induction q)
  case (Cons c q)
  then show ?case by (cases "py_split sep q") auto
qed simp

lemma normalized_path_not_dir:
  assumes "normalize_project_path raw = Inr p"
  shows "\<not> endswith ''/'' p"
proof
  assume "endswith ''/'' p"
  then obtain q where "p = q @ ''/''" by (auto simp: endswith_def startswith_iff rev_eq_Cons_iff)
  then have "[] \<in> set (path_parts raw)"
    using normalized_path_split(2) [OF assms] py_split_trailing [of "CHR ''/''" q] by (metis in_set_conv_decomp)
  then show False by (simp add: path_parts_def)
qed

text \<open>Normalising the files of a project whose keys were normal paths gives them back.\<close>

lemma renormalize_files:
  assumes "list_all2 (file_of sha256) items fs" and "\<forall>item \<in> set items. normalize_project_path (fst item) = Inr (fst item)"
  shows "list_all2 (file_of sha256) (map (\<lambda>f. (pf_path f, pf_content f)) fs) fs"
    and "map fst items = map pf_path fs"
  using assms by (induction items fs rule: list_all2_induct) (auto simp: file_of_def)

lemma renormalize_project:
  assumes p: "normalize_project sha256 files entrypoint = Inr p"
    and normal: "\<forall>item \<in> set files. normalize_project_path (fst item) = Inr (fst item)"
  shows "normalize_project sha256 (map (\<lambda>f. (pf_path f, pf_content f)) (np_files p)) (np_entrypoint p) = Inr p"
proof -
  let ?k = "\<lambda>item :: string \<times> string. casefold (fst item)"
  let ?items = "map (\<lambda>f. (pf_path f, pf_content f)) (np_files p)"
  obtain ne where D: "files \<noteq> []" "length files \<le> MAX_PROJECT_FILES"
    "list_all2 (file_of sha256) (sort_key ?k files) (np_files p)"
    "distinct (map (\<lambda>f. casefold (pf_path f)) (np_files p))"
    "sum_list (map pf_size_bytes (np_files p)) \<le> MAX_PROJECT_BYTES"
    "casefold (path_suffix ne) \<in> set YAML_SUFFIXES"
    "filter (\<lambda>q. casefold q = casefold ne) (map pf_path (np_files p)) = [np_entrypoint p]"
    "np_sha256 p = project_digest sha256 (np_files p)"
    "np_size_bytes p = sum_list (map pf_size_bytes (np_files p))"
    using normalize_project_InrD [OF p] by metis
  have R: "list_all2 (file_of sha256) ?items (np_files p)" "map fst (sort_key ?k files) = map pf_path (np_files p)"
    using renormalize_files [OF D(3)] normal by auto
  have "sorted (map casefold (map fst (sort_key ?k files)))"
    using sorted_sort_key [of ?k files] by (simp add: comp_def)
  then have "sorted (map casefold (map pf_path (np_files p)))" using R(2) by simp
  then have "sorted (map ?k ?items)" by (simp add: comp_def)
  then have "sort_key ?k ?items = ?items" by (rule sort_key_id_if_sorted)
  moreover have "normalize_files sha256 ?items [] 0 = Inr (np_files p)"
    using R(1) D(4,5) by (simp add: normalize_files_iff)
  ultimately have files: "normalize_files sha256 (sort_key ?k ?items) [] 0 = Inr (np_files p)" by simp
  have entry: "np_entrypoint p \<in> set (map pf_path (np_files p))" "casefold (np_entrypoint p) = casefold ne"
  proof -
    have "np_entrypoint p \<in> set (filter (\<lambda>q. casefold q = casefold ne) (map pf_path (np_files p)))"
      unfolding D(7) by simp
    then show "np_entrypoint p \<in> set (map pf_path (np_files p))" "casefold (np_entrypoint p) = casefold ne"
      by simp_all
  qed
  moreover have "set (map pf_path (np_files p)) = fst ` set files"
    using R(2) by (metis set_map set_sort)
  ultimately have "np_entrypoint p \<in> fst ` set files" by simp
  then have norm: "normalize_project_path (np_entrypoint p) = Inr (np_entrypoint p)" using normal by auto
  have "casefold (path_suffix (np_entrypoint p)) \<in> set YAML_SUFFIXES"
    using D(6) entry(2) by (metis path_suffix_casefold)
  moreover have "length (np_files p) = length files" using D(3) by (simp add: list_all2_lengthD [symmetric])
  moreover have "np_files p \<noteq> []" using D(7) by auto
  ultimately show ?thesis
    using files norm D(2,7,8,9) entry(2) unfolding normalize_project_def by (cases p) simp
qed

lemma length_escape_char: "length (escape_char c) \<le> 6"
  by (simp add: escape_char_def)

lemma length_dumps_str: "length (dumps_str s) \<le> 6 * length s + 2"
proof -
  have "length (concat (map escape_char s)) \<le> 6 * length s"
  proof (induction s)
    case (Cons c s)
    then show ?case using length_escape_char [of c] by simp
  qed simp
  then show ?thesis by (simp add: dumps_str_def)
qed

lemma export_manifest_small:
  assumes "length (np_entrypoint p) \<le> MAX_PROJECT_PATH_LENGTH"
  shows "length (export_manifest p) \<le> MAX_PROJECT_FILE_BYTES"
proof -
  have "length (dumps_str ''entrypoint'') \<le> 62" "length (dumps_str ''formatVersion'') \<le> 80"
    "length (str_int 1) = 1"
    using length_dumps_str [of "''entrypoint''"] length_dumps_str [of "''formatVersion''"]
    by (simp_all add: str_int_def str_nat.simps)
  then show ?thesis
    using assms length_dumps_str [of "np_entrypoint p"]
    by (simp add: export_manifest_def MAX_PROJECT_PATH_LENGTH_def MAX_PROJECT_FILE_BYTES_def)
qed

lemma import_manifest:
  assumes "codec_reads codec p" and "length (export_manifest p) \<le> MAX_PROJECT_FILE_BYTES"
    and "length (export_manifest p) \<le> MAX_PROJECT_BYTES"
  shows "import_member codec (export_member PROJECT_MANIFEST (export_manifest p))
      \<lparr>zs_files = [], zs_entrypoint = None, zs_total = 0, zs_seen = []\<rparr> =
     Inr \<lparr>zs_files = [], zs_entrypoint = Some (np_entrypoint p), zs_total = length (export_manifest p),
          zs_seen = [casefold PROJECT_MANIFEST]\<rparr>"
  using assms export_member_ok [OF assms(2), of PROJECT_MANIFEST]
  by (simp add: import_member_def export_member_def codec_reads_def read_chunks_iff
      manifest_entrypoint_def encode_ascii_def Let_def)

text \<open>
  C39: importing an exported project gives the project back, digest included, when its files were
  added under normal paths and the manifest fits beside them under the 10 MiB limit.
\<close>

theorem export_import_roundtrip:
  assumes "normalize_project sha256 files entrypoint = Inr p"
    and "\<forall>item \<in> set files. normalize_project_path (fst item) = Inr (fst item)"
    and "codec_reads codec p"
    and "np_size_bytes p + length (export_manifest p) \<le> MAX_PROJECT_BYTES"
    and "open_zip payload = Some (export_project_zip p)"
    and "payload \<noteq> []" and "length payload \<le> MAX_ZIP_BYTES"
  shows "import_project_zip sha256 codec open_zip payload None = Inr p"
proof -
  let ?k = "\<lambda>item :: string \<times> string. casefold (fst item)"
  let ?st = "\<lparr>zs_files = [], zs_entrypoint = Some (np_entrypoint p), zs_total = length (export_manifest p),
          zs_seen = [casefold PROJECT_MANIFEST]\<rparr>"
  obtain ne where D: "length files \<le> MAX_PROJECT_FILES"
    "list_all2 (file_of sha256) (sort_key ?k files) (np_files p)"
    "distinct (map (\<lambda>f. casefold (pf_path f)) (np_files p))"
    "filter (\<lambda>q. casefold q = casefold ne) (map pf_path (np_files p)) = [np_entrypoint p]"
    "np_size_bytes p = sum_list (map pf_size_bytes (np_files p))"
    using normalize_project_InrD [OF assms(1)] by metis
  have each: "normalize_project_path (pf_path f) = Inr (pf_path f) \<and> length (pf_content f) \<le> MAX_PROJECT_FILE_BYTES
      \<and> pf_size_bytes f = length (pf_content f)" if f: "f \<in> set (np_files p)" for f
  proof -
    obtain item where "item \<in> set (sort_key ?k files)" "file_of sha256 item f"
      using list_all2_in_set2 [OF D(2) f] by blast
    then show ?thesis using assms(2) by (auto simp: file_of_def)
  qed
  then have manifest: "casefold (pf_path f) \<noteq> casefold PROJECT_MANIFEST" if "f \<in> set (np_files p)" for f
    using that normalize_project_path_not_manifest by blast
  have "np_entrypoint p \<in> set (map pf_path (np_files p))"
    using D(4) by (metis filter_is_subset list.set_intros(1) subset_code(1))
  then have entry: "length (np_entrypoint p) \<le> MAX_PROJECT_PATH_LENGTH"
    using each normalize_project_path_InrD(7) by fastforce
  have sizes: "map (\<lambda>f. length (pf_content f)) (np_files p) = map pf_size_bytes (np_files p)"
    using each by simp
  have fresh: "pf_path f \<noteq> PROJECT_MANIFEST" if "f \<in> set (np_files p)" for f using manifest [OF that] by auto
  have "casefold PROJECT_MANIFEST \<notin> (\<lambda>f. casefold (pf_path f)) ` set (np_files p)" using manifest by force
  then obtain st' where st': "import_members codec (map (\<lambda>f. export_member (pf_path f) (pf_content f)) (np_files p)) ?st = Inr st'"
     "zs_files st' = map (\<lambda>f. (pf_path f, pf_content f)) (np_files p)" "zs_entrypoint st' = Some (np_entrypoint p)"
    using import_exported_files [of codec "np_files p" ?st] each fresh D(3,5) assms(3,4) sizes
    by (auto simp: codec_reads_def ac_simps)
  have members: "import_members codec (export_project_zip p)
      \<lparr>zs_files = [], zs_entrypoint = None, zs_total = 0, zs_seen = []\<rparr> = Inr st'"
    using st'(1) import_manifest [OF assms(3) export_manifest_small [OF entry]] assms(4)
    by (simp add: export_project_zip_def)
  have "\<not> endswith ''/'' (pf_path f)" if "f \<in> set (np_files p)" for f
    using each [OF that] normalized_path_not_dir by blast
  moreover have "\<not> endswith ''/'' PROJECT_MANIFEST" by code_simp
  ultimately have "\<not> zip_is_dir m" if "m \<in> set (export_project_zip p)" for m
    using that by (auto simp: export_project_zip_def zip_is_dir_def export_member_def)
  then have "filter (\<lambda>m. \<not> zip_is_dir m) (export_project_zip p) = export_project_zip p"
    by (simp add: filter_id_conv)
  moreover have "length (export_project_zip p) \<le> MAX_PROJECT_FILES + 1"
    using D(1,2) by (simp add: export_project_zip_def list_all2_lengthD [symmetric])
  ultimately show ?thesis
    using assms(5-7) members st'(2,3) renormalize_project [OF assms(1,2)]
    by (simp add: import_project_zip_def Let_def)
qed

text \<open>A codec that reads what the export of a small project writes.\<close>

definition demo_project :: normalized_project where
  "demo_project =
     \<lparr>np_files = [\<lparr>pf_path = ''site.yml'', pf_content = ''- hosts: all'', pf_sha256 = ''d'', pf_size_bytes = 12\<rparr>],
      np_entrypoint = ''site.yml'', np_sha256 = ''d'', np_size_bytes = 12\<rparr>"

definition demo_codec :: text_codec where
  "demo_codec =
     \<lparr>tc_decode = (\<lambda>data. Some (map char_of data)),
      tc_loads = (\<lambda>txt. Some (JObj [(''entrypoint'', JStr ''site.yml''), (''formatVersion'', JInt 1)]))\<rparr>"

theorem export_import_roundtrip_witness:
  "import_project_zip (\<lambda>s. ''d'') demo_codec (\<lambda>_. Some (export_project_zip demo_project)) [80, 75] None =
     Inr demo_project"
proof (rule export_import_roundtrip)
  show "normalize_project (\<lambda>s. ''d'') [(''site.yml'', ''- hosts: all'')] ''site.yml'' = Inr demo_project"
    by code_simp
  show "\<forall>item \<in> set [(''site.yml'', ''- hosts: all'')]. normalize_project_path (fst item) = Inr (fst item)"
    by code_simp
  show "codec_reads demo_codec demo_project"
    by (simp add: codec_reads_def demo_codec_def demo_project_def encode_ascii_def comp_def)
  show "np_size_bytes demo_project + length (export_manifest demo_project) \<le> MAX_PROJECT_BYTES"
    by code_simp
qed (simp_all add: MAX_ZIP_BYTES_def)

end
