(* ===== verification/Playbook_Parameters.thy ===== *)
theory Playbook_Parameters
  imports Playbook_Project
begin

text \<open>
  \<open>services/playbook_project.py\<close>, second part: the restricted JSON Schema a project declares
  for its parameters, and the validation that splits supplied parameters into public and secret
  values. A dictionary has distinct keys (\<open>dict_ok\<close>).
\<close>

section \<open>Parameter schemas\<close>

definition finite_number :: "json \<Rightarrow> bool" where
  "finite_number v = (case v of JInt _ \<Rightarrow> True | JFloat (Finite _) \<Rightarrow> True | _ \<Rightarrow> False)"

definition type_matches :: "json \<Rightarrow> json \<Rightarrow> bool" where
  "type_matches value_type v =
     (if value_type = JStr ''string'' then (case v of JStr _ \<Rightarrow> True | _ \<Rightarrow> False)
      else if value_type = JStr ''boolean'' then (case v of JBool _ \<Rightarrow> True | _ \<Rightarrow> False)
      else if value_type = JStr ''integer'' then (case v of JInt _ \<Rightarrow> True | _ \<Rightarrow> False)
      else finite_number v)"

definition validate_parameter_type :: "json \<Rightarrow> json \<Rightarrow> ops_error + unit" where
  "validate_parameter_type value_type v =
     (if type_matches value_type v then Inr ()
      else Inl (ValidationError ''parameter type is invalid''))"

definition allowed_root :: "string list" where
  "allowed_root = [''type'', ''properties'', ''required'', ''additionalProperties'', ''description'']"

definition allowed_property :: "string list" where
  "allowed_property =
     [''type'', ''description'', ''default'', ''enum'', ''minimum'', ''maximum'', ''minLength'',
      ''maxLength'', ''x-ops-composer-sensitive'']"

definition sensitive_key :: string where "sensitive_key = ''x-ops-composer-sensitive''"

text \<open>
  The checks on one property, in the order of the loop body. A \<open>type\<close> that is a list or an
  object is not hashable: the membership test of the loop raises \<open>TypeError\<close>.
\<close>

definition property_type_ok :: "jobj \<Rightarrow> ops_error + unit" where
  "property_type_ok d =
     (case dict_get ''type'' JNull d of
        JList _ \<Rightarrow> Inl (TypeErr ''unhashable type: list'')
      | JObj _ \<Rightarrow> Inl (TypeErr ''unhashable type: dict'')
      | t \<Rightarrow> if t \<in> {JStr ''string'', JStr ''integer'', JStr ''number'', JStr ''boolean''} then Inr ()
             else Inl (PlaybookProjectInvalidError ''parameter Schema property type is unsupported''))"

definition property_marker_ok :: "jobj \<Rightarrow> ops_error + unit" where
  "property_marker_ok d =
     (case dict_get ''description'' JNull d of
        JNull \<Rightarrow> Inr () | JStr _ \<Rightarrow> Inr ()
      | _ \<Rightarrow> Inl (PlaybookProjectInvalidError ''parameter description must be a string''))"

definition property_sensitive_ok :: "jobj \<Rightarrow> ops_error + unit" where
  "property_sensitive_ok d =
     (case dict_get sensitive_key (JBool False) d of
        JBool s \<Rightarrow>
          if s \<and> (dict_get ''type'' JNull d \<noteq> JStr ''string'' \<or> map_of d ''default'' \<noteq> None)
          then Inl (PlaybookProjectInvalidError ''sensitive parameters must be strings without defaults'')
          else Inr ()
      | _ \<Rightarrow> Inl (PlaybookProjectInvalidError ''sensitive marker must be boolean''))"

fun all_types_ok :: "json \<Rightarrow> json list \<Rightarrow> ops_error + unit" where
  "all_types_ok t [] = Inr ()"
| "all_types_ok t (v # vs) =
     (case validate_parameter_type t v of Inl e \<Rightarrow> Inl e | Inr _ \<Rightarrow> all_types_ok t vs)"

text \<open>Typed scalars have the same JSON text exactly when they are the same value.\<close>

definition property_enum_ok :: "jobj \<Rightarrow> ops_error + unit" where
  "property_enum_ok d =
     (case map_of d ''enum'' of
        None \<Rightarrow> Inr ()
      | Some (JList vs) \<Rightarrow>
          if vs = [] then Inl (PlaybookProjectInvalidError ''parameter enum is invalid'')
          else (case all_types_ok (dict_get ''type'' JNull d) vs of
                  Inl e \<Rightarrow> Inl e
                | Inr _ \<Rightarrow>
                    if distinct vs then Inr ()
                    else Inl (PlaybookProjectInvalidError ''parameter enum contains duplicate values''))
      | Some _ \<Rightarrow> Inl (PlaybookProjectInvalidError ''parameter enum is invalid''))"

definition property_default_ok :: "jobj \<Rightarrow> ops_error + unit" where
  "property_default_ok d =
     (case map_of d ''default'' of
        None \<Rightarrow> Inr ()
      | Some v \<Rightarrow>
          (case validate_parameter_type (dict_get ''type'' JNull d) v of
             Inl e \<Rightarrow> Inl e
           | Inr _ \<Rightarrow>
               (case map_of d ''enum'' of
                  Some (JList vs) \<Rightarrow>
                    if py_in v vs then Inr ()
                    else Inl (PlaybookProjectInvalidError ''parameter default is outside its enum'')
                | _ \<Rightarrow> Inr ())))"

fun length_limit_ok :: "json \<Rightarrow> bool" where
  "length_limit_ok JNull = True"
| "length_limit_ok (JInt i) = (i \<ge> 0)"
| "length_limit_ok _ = False"

fun int_of_limit :: "json \<Rightarrow> int option" where
  "int_of_limit (JInt i) = Some i"
| "int_of_limit _ = None"

definition property_length_ok :: "jobj \<Rightarrow> ops_error + unit" where
  "property_length_ok d =
     (let lo = dict_get ''minLength'' JNull d; hi = dict_get ''maxLength'' JNull d in
      if dict_get ''type'' JNull d = JStr ''string''
      then if \<not> (length_limit_ok lo \<and> length_limit_ok hi)
           then Inl (PlaybookProjectInvalidError ''string length limits are invalid'')
           else case (int_of_limit lo, int_of_limit hi) of
             (Some a, Some b) \<Rightarrow>
               if a > b then Inl (PlaybookProjectInvalidError ''string length limits are reversed'')
               else Inr ()
           | _ \<Rightarrow> Inr ()
      else if lo \<noteq> JNull \<or> hi \<noteq> JNull
      then Inl (PlaybookProjectInvalidError ''length limits require a string parameter'')
      else Inr ())"

definition property_range_ok :: "jobj \<Rightarrow> ops_error + unit" where
  "property_range_ok d =
     (let lo = dict_get ''minimum'' JNull d; hi = dict_get ''maximum'' JNull d in
      if dict_get ''type'' JNull d \<in> {JStr ''integer'', JStr ''number''}
      then if \<not> ((lo = JNull \<or> finite_number lo) \<and> (hi = JNull \<or> finite_number hi))
           then Inl (PlaybookProjectInvalidError ''numeric limits are invalid'')
           else if lo \<noteq> JNull \<and> hi \<noteq> JNull \<and> num_less hi lo
           then Inl (PlaybookProjectInvalidError ''numeric limits are reversed'')
           else Inr ()
      else if lo \<noteq> JNull \<or> hi \<noteq> JNull
      then Inl (PlaybookProjectInvalidError ''numeric limits require a numeric parameter'')
      else Inr ())"

fun first_error :: "('e + unit) list \<Rightarrow> 'e + unit" where
  "first_error [] = Inr ()"
| "first_error (Inl e # rest) = Inl e"
| "first_error (Inr _ # rest) = first_error rest"

definition property_ok :: "string \<times> json \<Rightarrow> ops_error + unit" where
  "property_ok nd =
     (case nd of
        (name, raw) \<Rightarrow>
          if name = [] \<or> length name > 128
          then Inl (PlaybookProjectInvalidError ''parameter Schema property name is invalid'')
          else case raw of
            JObj d \<Rightarrow>
              if \<not> set (dict_keys d) \<subseteq> set allowed_property
              then Inl (PlaybookProjectInvalidError
                     ''parameter Schema property contains unsupported keywords'')
              else first_error
                [property_type_ok d, property_marker_ok d, property_sensitive_ok d,
                 property_enum_ok d, property_default_ok d, property_length_ok d, property_range_ok d]
          | _ \<Rightarrow> Inl (PlaybookProjectInvalidError
                     ''parameter Schema property contains unsupported keywords''))"

definition default_schema :: jobj where
  "default_schema =
     [(''type'', JStr ''object''), (''properties'', JObj []), (''additionalProperties'', JBool False)]"

definition required_ok :: "jobj \<Rightarrow> json \<Rightarrow> bool" where
  "required_ok properties required =
     (case required of
        JList items \<Rightarrow>
          length items = length (remdups (filter (\<lambda>i. case i of JStr _ \<Rightarrow> True | _ \<Rightarrow> False) items)) \<and>
          (\<forall>i \<in> set items. case i of JStr s \<Rightarrow> s \<in> set (dict_keys properties) | _ \<Rightarrow> False)
      | _ \<Rightarrow> False)"

definition schema_root_ok :: "jobj \<Rightarrow> ops_error + jobj" where
  "schema_root_ok candidate =
     (if \<not> set (dict_keys candidate) \<subseteq> set allowed_root
      then Inl (PlaybookProjectInvalidError ''parameter Schema contains unsupported root keywords'')
      else if dict_get ''type'' JNull candidate \<noteq> JStr ''object''
              \<or> dict_get ''additionalProperties'' JNull candidate \<noteq> JBool False
      then Inl (PlaybookProjectInvalidError
             ''parameter Schema must be an object with additionalProperties=false'')
      else if (case map_of candidate ''description'' of
                 None \<Rightarrow> False | Some (JStr _) \<Rightarrow> False | Some _ \<Rightarrow> True)
      then Inl (PlaybookProjectInvalidError ''parameter Schema description must be a string'')
      else case dict_get ''properties'' (JObj []) candidate of
        JObj properties \<Rightarrow>
          if length properties > MAX_PROJECT_FILES
          then Inl (PlaybookProjectInvalidError ''parameter Schema properties are invalid'')
          else if \<not> required_ok properties (dict_get ''required'' (JList []) candidate)
          then Inl (PlaybookProjectInvalidError ''parameter Schema required fields are invalid'')
          else Inr properties
      | _ \<Rightarrow> Inl (PlaybookProjectInvalidError ''parameter Schema properties are invalid''))"

definition validate_parameter_schema :: "(rat \<Rightarrow> string) \<Rightarrow> jobj \<Rightarrow> ops_error + jobj" where
  "validate_parameter_schema fr schema =
     (let candidate = (if schema = [] then default_schema else schema) in
      case schema_root_ok candidate of
        Inl e \<Rightarrow> Inl e
      | Inr properties \<Rightarrow>
          (case first_error (map property_ok properties) of
             Inl e \<Rightarrow> Inl e
           | Inr _ \<Rightarrow>
               if \<not> json_finite (JObj candidate)
               then Inl (PlaybookProjectInvalidError ''parameter Schema must be valid JSON'')
               else if length (json_dumps fr (canonical (JObj candidate))) > 64 * 1024
               then Inl (PlaybookProjectInvalidError ''parameter Schema exceeds 64 KiB'')
               else (case canonical (JObj candidate) of
                       JObj d \<Rightarrow> Inr d
                     | _ \<Rightarrow> Inl (PlaybookProjectInvalidError
                                ''parameter Schema root must be an object''))))"

section \<open>Parameters\<close>

record validated_parameters =
  vp_public_values :: jobj
  vp_secret_values :: "(string \<times> string) list"
  vp_supplied_names :: "string list"

definition value_in_limits :: "jobj \<Rightarrow> json \<Rightarrow> ops_error + unit" where
  "value_in_limits d v =
     (case v of
        JStr s \<Rightarrow>
          (case int_of_limit (dict_get ''minLength'' JNull d) of
             Some lo \<Rightarrow> if int (length s) < lo
                        then Inl (ValidationError ''Playbook parameter is too short'')
                        else (case int_of_limit (dict_get ''maxLength'' JNull d) of
                                Some hi \<Rightarrow> if int (length s) > hi
                                           then Inl (ValidationError ''Playbook parameter is too long'')
                                           else Inr ()
                              | None \<Rightarrow> Inr ())
           | None \<Rightarrow> (case int_of_limit (dict_get ''maxLength'' JNull d) of
                        Some hi \<Rightarrow> if int (length s) > hi
                                   then Inl (ValidationError ''Playbook parameter is too long'')
                                   else Inr ()
                      | None \<Rightarrow> Inr ()))
      | JBool _ \<Rightarrow> Inr ()
      | _ \<Rightarrow>
          if num_less v (dict_get ''minimum'' JNull d)
          then Inl (ValidationError ''Playbook parameter is below minimum'')
          else if num_less (dict_get ''maximum'' JNull d) v
          then Inl (ValidationError ''Playbook parameter is above maximum'')
          else Inr ())"

text \<open>The checks on a value that is present, supplied or defaulted.\<close>

definition check_value :: "jobj \<Rightarrow> json \<Rightarrow> ops_error + unit" where
  "check_value d v =
     first_error
       [validate_parameter_type (dict_get ''type'' JNull d) v,
        (case map_of d ''enum'' of
           Some (JList vs) \<Rightarrow> if py_in v vs then Inr ()
                               else Inl (ValidationError ''Playbook parameter is outside its enum'')
         | _ \<Rightarrow> Inr ()),
        value_in_limits d v]"

definition parameter_value :: "jobj \<Rightarrow> jobj \<Rightarrow> string \<Rightarrow> json option" where
  "parameter_value values d name =
     (case map_of values name of Some v \<Rightarrow> Some v | None \<Rightarrow> map_of d ''default'')"

definition is_sensitive :: "jobj \<Rightarrow> bool" where
  "is_sensitive d \<longleftrightarrow> truthy (dict_get sensitive_key JNull d)"

fun collect_parameters ::
    "string list \<Rightarrow> jobj \<Rightarrow> jobj \<Rightarrow> ops_error + (jobj \<times> (string \<times> string) list)" where
  "collect_parameters required values [] = Inr ([], [])"
| "collect_parameters required values ((name, raw) # properties) =
     (case raw of
        JObj d \<Rightarrow>
          (case parameter_value values d name of
             None \<Rightarrow>
               if name \<in> set required
               then Inl (ValidationError ''required Playbook parameter is missing'')
               else collect_parameters required values properties
           | Some v \<Rightarrow>
               (case check_value d v of
                  Inl e \<Rightarrow> Inl e
                | Inr _ \<Rightarrow>
                    (case collect_parameters required values properties of
                       Inl e \<Rightarrow> Inl e
                     | Inr (pub, sec) \<Rightarrow>
                         if is_sensitive d
                         then (case v of JStr s \<Rightarrow> Inr (pub, (name, s) # sec)
                                       | _ \<Rightarrow> Inl (RuntimeErr ''AssertionError''))
                         else Inr ((name, v) # pub, sec))))
      | _ \<Rightarrow> Inl (RuntimeErr ''AssertionError''))"

fun str_items :: "json list \<Rightarrow> string list" where
  "str_items [] = []"
| "str_items (JStr s # vs) = s # str_items vs"
| "str_items (_ # vs) = str_items vs"

text \<open>
  \<open>normalized_schema["properties"]\<close> raises \<open>KeyError\<close> when the schema has no such key, which
  \<open>validate_parameter_schema\<close> allows.
\<close>

definition validate_parameters ::
    "(rat \<Rightarrow> string) \<Rightarrow> jobj \<Rightarrow> jobj \<Rightarrow> ops_error + validated_parameters" where
  "validate_parameters fr schema values =
     (case validate_parameter_schema fr schema of
        Inl e \<Rightarrow> Inl e
      | Inr normalized \<Rightarrow>
          (case map_of normalized ''properties'' of
             None \<Rightarrow> Inl (KeyErr ''properties'')
           | Some (JObj properties) \<Rightarrow>
               (case dict_get ''required'' (JList []) normalized of
                  JList raw_required \<Rightarrow>
                    if \<not> set (dict_keys values) \<subseteq> set (dict_keys properties)
                    then Inl (ValidationError ''unknown Playbook parameters'')
                    else (case collect_parameters (str_items raw_required) values properties of
                            Inl e \<Rightarrow> Inl e
                          | Inr (pub, sec) \<Rightarrow>
                              Inr \<lparr>vp_public_values = pub, vp_secret_values = sec,
                                   vp_supplied_names = sort (dict_keys values)\<rparr>)
                | _ \<Rightarrow> Inl (RuntimeErr ''AssertionError''))
           | Some _ \<Rightarrow> Inl (RuntimeErr ''AssertionError'')))"

section \<open>What validation guarantees\<close>

lemma first_error_Inr_iff: "first_error rs = Inr u \<longleftrightarrow> (\<forall>r \<in> set rs. r = Inr ())"
  by (induction rs rule: first_error.induct) auto

lemma validate_parameter_schema_InrD:
  assumes "validate_parameter_schema fr schema = Inr n"
  defines "candidate \<equiv> (if schema = [] then default_schema else schema)"
  obtains properties where "schema_root_ok candidate = Inr properties"
    and "\<And>nd. nd \<in> set properties \<Longrightarrow> property_ok nd = Inr ()"
    and "n = sort_keys (map (\<lambda>(k, v). (k, canonical v)) candidate)"
  using assms
  by (auto simp: validate_parameter_schema_def first_error_Inr_iff Let_def split: sum.splits if_splits)

lemma dict_ok_default_schema: "dict_ok (JObj default_schema)"
  by (simp add: default_schema_def)

text \<open>The properties of the normalised schema are the declared ones, with sorted keys.\<close>

lemma normalized_properties:
  assumes "validate_parameter_schema fr schema = Inr n" and "dict_ok (JObj schema)"
    and "map_of n ''properties'' = Some (JObj props)"
  obtains declared where "props = sort_keys (map (\<lambda>(k, v). (k, canonical v)) declared)"
    and "dict_ok (JObj declared)" and "\<And>nd. nd \<in> set declared \<Longrightarrow> property_ok nd = Inr ()"
proof -
  let ?c = "if schema = [] then default_schema else schema"
  have ok: "dict_ok (JObj ?c)" using assms(2) dict_ok_default_schema by simp
  obtain declared where D: "schema_root_ok ?c = Inr declared"
    "\<And>nd. nd \<in> set declared \<Longrightarrow> property_ok nd = Inr ()"
    "n = sort_keys (map (\<lambda>(k, v). (k, canonical v)) ?c)"
    using validate_parameter_schema_InrD [OF assms(1)] by metis
  have canon: "map_option canonical (map_of ?c ''properties'') = Some (JObj props)"
    using assms(3) D(3) ok map_of_canonical [of ?c "''properties''"] by simp
  moreover have "dict_get ''properties'' (JObj []) ?c = JObj declared"
    using D(1) by (auto simp: schema_root_ok_def split: if_splits json.splits)
  ultimately have decl: "map_of ?c ''properties'' = Some (JObj declared)"
    by (auto simp: dict_get_def split: option.splits)
  then have "props = sort_keys (map (\<lambda>(k, v). (k, canonical v)) declared)" using canon by simp
  moreover have "dict_ok (JObj declared)" using decl ok by (metis dict_ok.simps(2) map_of_SomeD snd_conv)
  ultimately show thesis using that D(2) by blast
qed

lemma normalized_property:
  assumes "validate_parameter_schema fr schema = Inr n" and "dict_ok (JObj schema)"
    and "map_of n ''properties'' = Some (JObj props)" and "(name, raw) \<in> set props"
  obtains d where "raw = JObj (sort_keys (map (\<lambda>(k, v). (k, canonical v)) d))"
    and "distinct (map fst d)" and "property_ok (name, JObj d) = Inr ()"
proof -
  obtain declared where D: "props = sort_keys (map (\<lambda>(k, v). (k, canonical v)) declared)"
    "dict_ok (JObj declared)" "\<And>nd. nd \<in> set declared \<Longrightarrow> property_ok nd = Inr ()"
    using normalized_properties [OF assms(1-3)] by blast
  obtain v where v: "(name, v) \<in> set declared" "raw = canonical v" using assms(4) D(1) by auto
  obtain d where d: "v = JObj d" "property_ok (name, JObj d) = Inr ()"
    using D(3) [OF v(1)] by (cases v) (auto simp: property_ok_def split: if_splits)
  have "distinct (map fst d)" using D(2) v(1) d(1) by auto
  then show thesis using that v(2) d by simp
qed

lemma distinct_normalized_properties:
  assumes "validate_parameter_schema fr schema = Inr n" and "dict_ok (JObj schema)"
    and "map_of n ''properties'' = Some (JObj props)"
  shows "distinct (map fst props)"
proof -
  obtain declared where "props = sort_keys (map (\<lambda>(k, v). (k, canonical v)) declared)" "dict_ok (JObj declared)"
    using normalized_properties [OF assms] by blast
  then show ?thesis using distinct_sort_keys [of "map (\<lambda>(k, v). (k, canonical v)) declared"]
    by (simp add: fst_canonical_items comp_def case_prod_beta)
qed

definition property_outcome ::
    "string list \<Rightarrow> jobj \<Rightarrow> jobj \<Rightarrow> (string \<times> string) list \<Rightarrow> string \<Rightarrow> jobj \<Rightarrow> bool" where
  "property_outcome required values pub sec name d =
     (case parameter_value values d name of
        None \<Rightarrow> name \<notin> set required \<and> name \<notin> fst ` set pub \<and> name \<notin> fst ` set sec
      | Some v \<Rightarrow> check_value d v = Inr () \<and>
          (if is_sensitive d then name \<notin> fst ` set pub \<and> (\<exists>s. v = JStr s \<and> (name, s) \<in> set sec)
           else (name, v) \<in> set pub \<and> name \<notin> fst ` set sec))"

lemma property_outcome_cong:
  assumes "name \<noteq> n"
  shows "property_outcome required values ((n, v) # pub) sec name d = property_outcome required values pub sec name d"
    and "property_outcome required values pub ((n, s) # sec) name d = property_outcome required values pub sec name d"
  using assms by (auto simp: property_outcome_def split: option.splits)

lemma collect_parameters_ConsE:
  assumes "collect_parameters required vs ((n, r) # props) = Inr (pub, sec)"
  obtains (absent) d where "r = JObj d" and "parameter_value vs d n = None" and "n \<notin> set required"
      and "collect_parameters required vs props = Inr (pub, sec)"
    | (secret) d s sec' where "r = JObj d" and "parameter_value vs d n = Some (JStr s)"
      and "check_value d (JStr s) = Inr ()" and "is_sensitive d" and "sec = (n, s) # sec'"
      and "collect_parameters required vs props = Inr (pub, sec')"
    | (public) d v pub' where "r = JObj d" and "parameter_value vs d n = Some v"
      and "check_value d v = Inr ()" and "\<not> is_sensitive d" and "pub = (n, v) # pub'"
      and "collect_parameters required vs props = Inr (pub', sec)"
proof -
  obtain d where r: "r = JObj d" using assms by (cases r) auto
  show thesis
  proof (cases "parameter_value vs d n")
    case None
    then show thesis using assms r absent by (auto split: if_splits)
  next
    case (Some v)
    then show thesis using assms r secret public
      by (auto split: sum.splits if_splits json.splits)
  qed
qed

lemma collect_parameters_names:
  "collect_parameters required vs props = Inr (pub, sec) \<Longrightarrow>
     fst ` set pub \<union> fst ` set sec \<subseteq> fst ` set props"
proof (induction props arbitrary: pub sec)
  case (Cons nr props)
  obtain n r where "nr = (n, r)" by fastforce
  then have "collect_parameters required vs ((n, r) # props) = Inr (pub, sec)" using Cons.prems by simp
  then show ?case
  proof (cases rule: collect_parameters_ConsE)
    case (absent d)
    then show ?thesis using Cons.IH [OF absent(4)] by auto
  next
    case (secret d s sec')
    then show ?thesis using Cons.IH [OF secret(6)] \<open>nr = (n, r)\<close> by auto
  next
    case (public d v pub')
    then show ?thesis using Cons.IH [OF public(6)] \<open>nr = (n, r)\<close> by auto
  qed
qed simp

lemma collect_parameters_outcome:
  assumes "collect_parameters required values props = Inr (pub, sec)" and "distinct (map fst props)"
    and "(name, raw) \<in> set props"
  shows "\<exists>d. raw = JObj d \<and> property_outcome required values pub sec name d"
  using assms
proof (induction props arbitrary: pub sec)
  case (Cons nr props)
  obtain n r where nr: "nr = (n, r)" by fastforce
  have fresh: "n \<notin> fst ` set props" using Cons.prems(2) nr by simp
  have other: "name \<noteq> n" if "(name, raw) \<in> set props" using that fresh by (metis fst_conv image_eqI)
  have run: "collect_parameters required values ((n, r) # props) = Inr (pub, sec)" using Cons.prems nr by simp
  have rest: "distinct (map fst props)" using Cons.prems(2) by simp
  from run show ?case
  proof (cases rule: collect_parameters_ConsE)
    case (absent d)
    have "property_outcome required values pub sec n d"
      using absent(2,3) fresh collect_parameters_names [OF absent(4)] by (auto simp: property_outcome_def)
    then show ?thesis using Cons.IH [OF absent(4) rest] Cons.prems(3) nr absent(1) by auto
  next
    case (secret d s sec')
    have "property_outcome required values pub sec n d"
      using secret(2-5) fresh collect_parameters_names [OF secret(6)] by (auto simp: property_outcome_def)
    then show ?thesis
      using Cons.IH [OF secret(6) rest] Cons.prems(3) nr secret(1,5) other
      by (auto simp: property_outcome_cong)
  next
    case (public d v pub')
    have "property_outcome required values pub sec n d"
      using public(2-5) fresh collect_parameters_names [OF public(6)] by (auto simp: property_outcome_def)
    then show ?thesis
      using Cons.IH [OF public(6) rest] Cons.prems(3) nr public(1,5) other
      by (auto simp: property_outcome_cong)
  qed
qed simp

text \<open>
  Parameters that validate are split without loss: only declared names are accepted, every
  declared parameter has the supplied value or the default, which has the declared type and
  lies within the enumeration and limits, a required one is present, and a sensitive one is
  among the secret values and never among the public ones.
\<close>

theorem validate_parameters_sound:
  assumes "dict_ok (JObj schema)" and "validate_parameters fr schema vs = Inr vp"
  shows "\<exists>n props required. validate_parameter_schema fr schema = Inr n \<and>
     map_of n ''properties'' = Some (JObj props) \<and> dict_get ''required'' (JList []) n = JList required \<and>
     set (dict_keys vs) \<subseteq> set (dict_keys props) \<and>
     (\<forall>(name, raw) \<in> set props. \<exists>d. raw = JObj d \<and>
        property_outcome (str_items required) vs (vp_public_values vp) (vp_secret_values vp) name d) \<and>
     fst ` set (vp_public_values vp) \<union> fst ` set (vp_secret_values vp) \<subseteq> set (dict_keys props) \<and>
     vp_supplied_names vp = sort (dict_keys vs)"
proof -
  obtain n where n: "validate_parameter_schema fr schema = Inr n"
    using assms(2) by (auto simp: validate_parameters_def split: sum.splits)
  obtain props where props: "map_of n ''properties'' = Some (JObj props)"
    using assms(2) n by (auto simp: validate_parameters_def split: option.splits json.splits)
  obtain required where req: "dict_get ''required'' (JList []) n = JList required"
    using assms(2) n props by (auto simp: validate_parameters_def split: json.splits)
  have run: "collect_parameters (str_items required) vs props = Inr (vp_public_values vp, vp_secret_values vp)"
    and known: "set (dict_keys vs) \<subseteq> set (dict_keys props)" "vp_supplied_names vp = sort (dict_keys vs)"
    using assms(2) n props req by (auto simp: validate_parameters_def split: if_splits sum.splits)
  have "\<forall>(name, raw) \<in> set props. \<exists>d. raw = JObj d \<and>
        property_outcome (str_items required) vs (vp_public_values vp) (vp_secret_values vp) name d"
    using collect_parameters_outcome [OF run distinct_normalized_properties [OF n assms(1) props]] by auto
  moreover have "fst ` set (vp_public_values vp) \<union> fst ` set (vp_secret_values vp) \<subseteq> set (dict_keys props)"
    using collect_parameters_names [OF run] by (simp add: dict_keys_def)
  ultimately show ?thesis using n props req known by blast
qed

definition demo_schema :: jobj where
  "demo_schema =
     [(''type'', JStr ''object''), (''additionalProperties'', JBool False),
      (''required'', JList [JStr ''pin'']),
      (''properties'', JObj
         [(''pin'', JObj [(''type'', JStr ''string''), (''minLength'', JInt 4),
                         (''x-ops-composer-sensitive'', JBool True)]),
          (''port'', JObj [(''type'', JStr ''integer''), (''default'', JInt 80), (''maximum'', JInt 65535)])])]"

theorem validate_parameters_sound_witness:
  "validate_parameters (\<lambda>_. []) demo_schema [(''pin'', JStr ''1234'')] =
     Inr \<lparr>vp_public_values = [(''port'', JInt 80)], vp_secret_values = [(''pin'', ''1234'')],
          vp_supplied_names = [''pin'']\<rparr> \<and>
   fst ` set [(''port'', JInt 80)] \<union> fst ` set [(''pin'', ''1234'')] \<subseteq> {''pin'', ''port''}"
proof -
  have run: "validate_parameters (\<lambda>_. []) demo_schema [(''pin'', JStr ''1234'')] =
     Inr \<lparr>vp_public_values = [(''port'', JInt 80)], vp_secret_values = [(''pin'', ''1234'')],
          vp_supplied_names = [''pin'']\<rparr>"
    by code_simp
  have "dict_ok (JObj demo_schema)" by code_simp
  from validate_parameters_sound [OF this run] run show ?thesis by auto
qed

section \<open>How validation fails\<close>

lemma value_in_limits_InlD: "value_in_limits d v = Inl e \<Longrightarrow> \<exists>m. e = ValidationError m"
  by (auto simp: value_in_limits_def split: json.splits option.splits if_splits)

lemma check_value_InlD: "check_value d v = Inl e \<Longrightarrow> \<exists>m. e = ValidationError m"
proof -
  have "first_error [a, b, c] = Inl e \<Longrightarrow> a = Inl e \<or> b = Inl e \<or> c = Inl e" for a b c :: "ops_error + unit"
    by (cases a; cases b; cases c) auto
  moreover assume "check_value d v = Inl e"
  ultimately have "validate_parameter_type (dict_get ''type'' JNull d) v = Inl e \<or>
      (case map_of d ''enum'' of
           Some (JList vs) \<Rightarrow> if py_in v vs then Inr ()
                               else Inl (ValidationError ''Playbook parameter is outside its enum'')
         | _ \<Rightarrow> Inr ()) = Inl e \<or> value_in_limits d v = Inl e"
    unfolding check_value_def by blast
  then show ?thesis
    using value_in_limits_InlD [of d v e]
    by (auto simp: validate_parameter_type_def split: if_splits option.splits json.splits)
qed

lemma check_value_string: "check_value d v = Inr () \<Longrightarrow> dict_get ''type'' JNull d = JStr ''string'' \<Longrightarrow> \<exists>s. v = JStr s"
  by (auto simp: check_value_def first_error_Inr_iff validate_parameter_type_def type_matches_def
      split: if_splits json.splits)

lemma collect_parameters_InlD:
  assumes "\<And>name raw. (name, raw) \<in> set props \<Longrightarrow>
      \<exists>d. raw = JObj d \<and> (is_sensitive d \<longrightarrow> dict_get ''type'' JNull d = JStr ''string'')"
    and "collect_parameters required vs props = Inl e"
  shows "\<exists>m. e = ValidationError m"
  using assms
proof (induction props)
  case (Cons nr props)
  obtain name d where nr: "nr = (name, JObj d)"
    and ty: "is_sensitive d \<Longrightarrow> dict_get ''type'' JNull d = JStr ''string''"
    using Cons.prems(1) by (cases nr) auto
  have IH: "collect_parameters required vs props = Inl e \<Longrightarrow> \<exists>m. e = ValidationError m"
    using Cons.IH Cons.prems(1) by (meson list.set_intros(2))
  show ?case
  proof (cases "parameter_value vs d name")
    case None
    then show ?thesis using Cons.prems(2) nr IH by (auto split: if_splits)
  next
    case (Some v)
    show ?thesis
    proof (cases "check_value d v")
      case (Inl e')
      then show ?thesis using Cons.prems(2) nr Some check_value_InlD [of d v] by simp
    next
      case (Inr u)
      then have "is_sensitive d \<Longrightarrow> \<exists>s. v = JStr s" using check_value_string ty by simp
      then show ?thesis using Cons.prems(2) nr Some Inr IH
        by (auto split: sum.splits if_splits json.splits)
    qed
  qed
qed simp

lemma normalized_property_sensitive:
  assumes "property_ok (name, JObj d) = Inr ()" and "distinct (map fst d)"
    and "is_sensitive (sort_keys (map (\<lambda>(k, v). (k, canonical v)) d))"
  shows "dict_get ''type'' JNull (sort_keys (map (\<lambda>(k, v). (k, canonical v)) d)) = JStr ''string''"
proof -
  have get: "dict_get k JNull (sort_keys (map (\<lambda>(k, v). (k, canonical v)) d)) = canonical (dict_get k JNull d)" for k
    using map_of_canonical [OF assms(2), of k] by (auto simp: dict_get_def split: option.splits)
  have "property_sensitive_ok d = Inr ()"
    using assms(1) by (auto simp: property_ok_def first_error_Inr_iff split: if_splits)
  moreover have "truthy (dict_get sensitive_key JNull d)" using assms(3) by (simp add: is_sensitive_def get)
  ultimately have "dict_get ''type'' JNull d = JStr ''string''"
    by (auto simp: property_sensitive_ok_def dict_get_def split: option.splits json.splits if_splits)
  then show ?thesis using get by simp
qed

lemma normalized_required:
  assumes "validate_parameter_schema fr schema = Inr n" and "dict_ok (JObj schema)"
  shows "\<exists>required. dict_get ''required'' (JList []) n = JList required"
    and "map_of n ''properties'' = map_option canonical (map_of (if schema = [] then default_schema else schema) ''properties'')"
    and "map_of n ''properties'' = Some v \<Longrightarrow> \<exists>props. v = JObj props"
proof -
  let ?c = "if schema = [] then default_schema else schema"
  have ok: "distinct (map fst ?c)" using assms(2) dict_ok_default_schema by simp
  obtain declared where D: "schema_root_ok ?c = Inr declared"
    "n = sort_keys (map (\<lambda>(k, v). (k, canonical v)) ?c)"
    using validate_parameter_schema_InrD [OF assms(1)] by metis
  have get: "map_of n k = map_option canonical (map_of ?c k)" for k
    using map_of_canonical [OF ok] D(2) by simp
  show "map_of n ''properties'' = map_option canonical (map_of ?c ''properties'')" by (rule get)
  have "required_ok declared (dict_get ''required'' (JList []) ?c)"
    and "dict_get ''properties'' (JObj []) ?c = JObj declared"
    using D(1) by (auto simp: schema_root_ok_def split: if_splits json.splits)
  then show "\<exists>required. dict_get ''required'' (JList []) n = JList required"
    and "map_of n ''properties'' = Some v \<Longrightarrow> \<exists>props. v = JObj props"
    using get [of "''required''"] get [of "''properties''"]
    by (auto simp: dict_get_def required_ok_def split: option.splits json.splits)
qed

text \<open>
  with a valid schema the only exceptions of \<open>validate_parameters\<close> are the reported
  \<open>ValidationError\<close> and, exactly when the schema omits \<open>properties\<close>, an unhandled \<open>KeyError\<close>; the
  assertions of the function never fail.
\<close>

theorem validate_parameters_errors:
  assumes "dict_ok (JObj schema)" and "validate_parameter_schema fr schema = Inr n"
  shows "(validate_parameters fr schema vs = Inl (KeyErr ''properties'') \<longleftrightarrow>
            schema \<noteq> [] \<and> map_of schema ''properties'' = None) \<and>
     (\<forall>e. validate_parameters fr schema vs = Inl e \<longrightarrow>
        e = KeyErr ''properties'' \<or> (\<exists>m. e = ValidationError m))"
proof -
  let ?c = "if schema = [] then default_schema else schema"
  have none: "map_of n ''properties'' = None \<longleftrightarrow> schema \<noteq> [] \<and> map_of schema ''properties'' = None"
    using normalized_required(2) [OF assms(2,1)] by (auto simp: default_schema_def)
  show ?thesis
  proof (cases "map_of n ''properties''")
    case None
    then show ?thesis using assms(2) none by (simp add: validate_parameters_def)
  next
    case (Some v)
    obtain props where v: "v = JObj props" using normalized_required(3) [OF assms(2,1) Some] by blast
    obtain required where req: "dict_get ''required'' (JList []) n = JList required"
      using normalized_required(1) [OF assms(2,1)] by blast
    have props: "map_of n ''properties'' = Some (JObj props)" using Some v by simp
    have "\<exists>d. raw = JObj d \<and> (is_sensitive d \<longrightarrow> dict_get ''type'' JNull d = JStr ''string'')"
      if member: "(name, raw) \<in> set props" for name raw
      using normalized_property [OF assms(2,1) props member] normalized_property_sensitive by metis
    then have "\<exists>m. e = ValidationError m" if "collect_parameters (str_items required) vs props = Inl e" for e
      using collect_parameters_InlD that by blast
    then show ?thesis
      using assms(2) none props req by (auto simp: validate_parameters_def split: sum.splits)
  qed
qed

theorem validate_parameters_errors_witness:
  "validate_parameters (\<lambda>_. []) [(''type'', JStr ''object''), (''additionalProperties'', JBool False)] [] =
     Inl (KeyErr ''properties'')"
proof -
  have "dict_ok (JObj [(''type'', JStr ''object''), (''additionalProperties'', JBool False)])" by simp
  moreover have "validate_parameter_schema (\<lambda>_. []) [(''type'', JStr ''object''), (''additionalProperties'', JBool False)] =
      Inr [(''additionalProperties'', JBool False), (''type'', JStr ''object'')]"
    by code_simp
  ultimately show ?thesis using validate_parameters_errors [of "[(''type'', JStr ''object''), (''additionalProperties'', JBool False)]"]
    by (simp only:) simp
qed

end
