(* ===== verification/Playbook_Repository.thy ===== *)
theory Playbook_Repository
  imports Database
begin

text \<open>
  \<open>repositories/playbooks.py\<close>: playbooks and their revisions. A revision carries its files; a query
  returns them in the order of their paths. The unique index on the lower-case names of the playbooks
  that are not deleted, the primary keys and the foreign key of the current revision are checked by
  the statements that could violate them.
\<close>

text \<open>\<open>_get_files\<close>: \<open>ORDER BY path\<close>.\<close>

definition load_revision :: "playbook_revision \<Rightarrow> playbook_revision" where
  "load_revision v = v\<lparr>pv_files := sort_key pf_path (pv_files v)\<rparr>"

definition get_revision :: "uuid \<Rightarrow> nat \<Rightarrow> db \<Rightarrow> playbook_revision option" where
  "get_revision playbook_id revision db =
     map_option load_revision
       (fetch_one (\<lambda>v. pv_playbook_id v = playbook_id \<and> pv_revision v = revision) (playbook_revisions db))"

definition document_where ::
    "(playbook_row \<Rightarrow> bool) \<Rightarrow> uuid \<Rightarrow> db \<Rightarrow> (playbook_row \<times> playbook_revision) option" where
  "document_where p playbook_id db =
     (case fetch_one (\<lambda>b. pb_id b = playbook_id \<and> p b) (playbooks db) of
        None \<Rightarrow> None
      | Some b \<Rightarrow>
          (case get_revision (pb_id b) (pb_current_revision b) db of None \<Rightarrow> None | Some v \<Rightarrow> Some (b, v)))"

text \<open>\<open>get_document\<close> without and with \<open>include_deleted\<close>: a playbook with its current revision.\<close>

definition get_document :: "uuid \<Rightarrow> db \<Rightarrow> (playbook_row \<times> playbook_revision) option" where
  "get_document = document_where (\<lambda>b. pb_deleted_at b = None)"

definition get_document_any :: "uuid \<Rightarrow> db \<Rightarrow> (playbook_row \<times> playbook_revision) option" where
  "get_document_any = document_where (\<lambda>b. True)"

definition list_revisions :: "uuid \<Rightarrow> db \<Rightarrow> playbook_revision list" where
  "list_revisions playbook_id db =
     rev (sort_key pv_revision
       (map load_revision (filter (\<lambda>v. pv_playbook_id v = playbook_id) (playbook_revisions db))))"

lemma load_revision_simps [simp]:
  "pv_playbook_id (load_revision v) = pv_playbook_id v" "pv_revision (load_revision v) = pv_revision v"
  "pv_content (load_revision v) = pv_content v" "pv_sha256 (load_revision v) = pv_sha256 v"
  "pv_format (load_revision v) = pv_format v" "pv_entrypoint (load_revision v) = pv_entrypoint v"
  "pv_parameter_schema (load_revision v) = pv_parameter_schema v"
  "pv_supports_check_mode (load_revision v) = pv_supports_check_mode v"
  "pv_size_bytes (load_revision v) = pv_size_bytes v"
  "pv_files (load_revision v) = sort_key pf_path (pv_files v)"
  by (simp_all add: load_revision_def)

lemma get_revision_Some:
  "get_revision i n db = Some v \<Longrightarrow>
     \<exists>v0 \<in> set (playbook_revisions db). v = load_revision v0 \<and> pv_playbook_id v0 = i \<and> pv_revision v0 = n"
  by (auto simp: get_revision_def dest: fetch_one_SomeD)

lemma document_where_Some:
  assumes "document_where p i db = Some (b, v)"
  shows "b \<in> set (playbooks db) \<and> pb_id b = i \<and> p b \<and> get_revision i (pb_current_revision b) db = Some v"
  using assms by (auto simp: document_where_def split: option.splits dest: fetch_one_SomeD)

end
