(* ===== verification/Run_Service.thy ===== *)
theory Run_Service
  imports Run_Repository Assets Inventory Crypto Playbook_Parameters Playbook_Repository
begin

text \<open>
  \<open>RunService\<close> of \<open>services/runs.py\<close>: creating, previewing, cancelling and retrying runs and
  consuming their one-time secrets. Every \<open>async with self._unit_of_work_factory()\<close> block is one
  transaction. The service object carries the settings, the keyring and the functions of
  \<open>hashlib\<close>, \<open>hmac\<close> and \<open>cryptography\<close> it calls; \<open>fresh\<close> carries the values of \<open>uuid4()\<close> and
  \<open>os.urandom\<close> of one call. The catalog of mounted playbooks reads the file system and is the
  field \<open>rs_mounted\<close>.
\<close>

record run_service =
  rs_settings :: settings
  rs_audit_source :: audit_source
  rs_keyring :: keyring
  rs_gcm :: aes_gcm
  rs_codec :: text_codec
  rs_float_repr :: "rat \<Rightarrow> string"
  rs_sha256 :: "string \<Rightarrow> string"
  rs_hmac :: "bytes \<Rightarrow> string \<Rightarrow> string"
  rs_mounted :: "string \<Rightarrow> ops_error + (string \<times> string)"

record fresh =
  fr_run_id :: uuid
  fr_target_id :: "nat \<Rightarrow> uuid"
  fr_event_id :: uuid
  fr_nonce :: bytes

section \<open>Helpers\<close>

definition fingerprint :: "run_service \<Rightarrow> jobj \<Rightarrow> string" where
  "fingerprint svc payload =
     rs_sha256 svc (json_dumps (rs_float_repr svc) (canonical (JObj payload)))"

definition hmac_fingerprint :: "run_service \<Rightarrow> jobj \<Rightarrow> bytes \<Rightarrow> string" where
  "hmac_fingerprint svc payload pepper =
     rs_hmac svc pepper (json_dumps (rs_float_repr svc) (canonical (JObj payload)))"

definition forbidden_variable :: "string \<Rightarrow> bool" where
  "forbidden_variable key \<longleftrightarrow>
     (let normalized = py_replace ''-'' ''_'' (casefold key) in
      startswith ''ansible_'' normalized \<or>
      (\<exists>token \<in> set [''password'', ''passwd'', ''secret'', ''token'', ''private_key'', ''passphrase''].
         contains token normalized))"

definition extra_vars_error :: ops_error where
  "extra_vars_error = ValidationError
     ''secret and Ansible connection Extra Vars are not supported; use declared sensitive parameters''"

fun validate_extra_vars :: "json \<Rightarrow> ops_error + unit" where
  "validate_extra_vars (JObj d) =
     first_error (map (\<lambda>(key, item). if forbidden_variable key then Inl extra_vars_error
                                     else validate_extra_vars item) d)"
| "validate_extra_vars (JList items) = first_error (map validate_extra_vars items)"
| "validate_extra_vars _ = Inr ()"

text \<open>\<open>PlaybookSource(str(raw))\<close> accepts exactly the two values of the enumeration.\<close>

definition playbook_source_of :: "jobj \<Rightarrow> ops_error + playbook_source" where
  "playbook_source_of operation_spec =
     (case map_of operation_spec ''playbook'' of
        Some (JObj reference) \<Rightarrow>
          (case dict_get ''source'' JNull reference of
             JStr s \<Rightarrow> if s = ''DATABASE'' then Inr PS_DATABASE
                       else if s = ''MOUNT'' then Inr PS_MOUNT else Inl PlaybookNotFoundError
           | _ \<Rightarrow> Inl PlaybookNotFoundError)
      | _ \<Rightarrow>
          if dict_get ''playbookPath'' JNull operation_spec \<noteq> JNull then Inr PS_MOUNT
          else Inl PlaybookNotFoundError)"

definition require_playbook_source :: "run_service \<Rightarrow> playbook_source \<Rightarrow> ops_error + unit" where
  "require_playbook_source svc source =
     (if (case source of
            PS_DATABASE \<Rightarrow> database_enabled (set_playbook_source_mode (rs_settings svc))
          | PS_MOUNT \<Rightarrow> mount_enabled (set_playbook_source_mode (rs_settings svc)))
      then Inr () else Inl PlaybookSourceDisabledError)"

definition resolve_targets ::
    "target_kind \<Rightarrow> uuid list \<Rightarrow> uuid option \<Rightarrow> db \<Rightarrow> ops_error + resolved_host list" where
  "resolve_targets kind host_ids group_id db =
     (let checked = (case kind of
            TK_ALL \<Rightarrow> Inr (resolve_all_hosts db)
          | TK_HOSTS \<Rightarrow>
              if host_ids = [] then Inl (ValidationError ''at least one host is required'')
              else let found = resolve_host_ids host_ids db in
                   if length found \<noteq> card (set host_ids)
                   then Inl (ValidationError ''one or more hosts are missing, disabled, or unusable'')
                   else Inr found
          | TK_GROUP \<Rightarrow>
              (case group_id of
                 Some g \<Rightarrow>
                   if get_group g db = None then Inl (NotFoundError ''group not found'')
                   else Inr (resolve_group_hosts g db)
               | None \<Rightarrow> Inl (ValidationError ''groupId is required for a group target'')))
      in case checked of
           Inl e \<Rightarrow> Inl e
         | Inr found \<Rightarrow>
             if found = [] then Inl (ValidationError ''target resolves to no enabled hosts'')
             else Inr found)"

definition require_confirmed_host_keys :: "(uuid \<times> string) list \<Rightarrow> db \<Rightarrow> ops_error + unit" where
  "require_confirmed_host_keys targets db =
     (case host_ids_without_keys (map fst targets) db of
        [] \<Rightarrow> Inr ()
      | missing \<Rightarrow>
          Inl (HostKeyConfirmationRequiredError
                 (map (\<lambda>i. (i, case map_of (rev targets) i of Some n \<Rightarrow> n | None \<Rightarrow> [])) missing)))"

section \<open>The idempotency pepper\<close>

definition idempotency_pepper :: "run_service \<Rightarrow> db \<Rightarrow> ops_error + bytes" where
  "idempotency_pepper svc db =
     (case fetch_one (\<lambda>s. ss_name s = ''run-idempotency-pepper'') (system_secrets db) of
        None \<Rightarrow> Inl (RuntimeErr ''idempotency pepper is not initialized'')
      | Some s \<Rightarrow>
          decrypt_bytes (rs_gcm svc) (rs_keyring svc) ''system-secret'' (ss_name s)
            (ss_encrypted_secret s) (int (ss_key_version s)))"

section \<open>Creating a run\<close>

record run_request =
  rq_requested_by :: uuid
  rq_idempotency_key :: string
  rq_kind :: run_kind
  rq_target_spec :: jobj
  rq_operation_spec :: jobj
  rq_timeout_seconds :: int
  rq_forks :: int
  rq_target_kind :: target_kind
  rq_host_ids :: "uuid list"
  rq_group_id :: "uuid option"
  rq_workspace_revision :: "string option"
  rq_database_playbook_id :: "uuid option"
  rq_playbook_parameters :: "jobj option"

definition supplied_parameters :: "run_request \<Rightarrow> jobj" where
  "supplied_parameters rq = (case rq_playbook_parameters rq of None \<Rightarrow> [] | Some d \<Rightarrow> d)"

definition request_payload :: "run_request \<Rightarrow> jobj" where
  "request_payload rq =
     [(''kind'', JStr (run_kind_value (rq_kind rq))), (''target'', JObj (rq_target_spec rq)),
      (''operation'', JObj (rq_operation_spec rq)),
      (''timeoutSeconds'', JInt (rq_timeout_seconds rq)), (''forks'', JInt (rq_forks rq)),
      (''sourceRunId'', JNull)]"

definition request_fingerprint ::
    "run_service \<Rightarrow> run_request \<Rightarrow> db \<Rightarrow> ops_error + (string \<times> fingerprint_scheme)" where
  "request_fingerprint svc rq db =
     (if supplied_parameters rq \<noteq> []
      then (case idempotency_pepper svc db of
              Inl e \<Rightarrow> Inl e
            | Inr pepper \<Rightarrow>
                Inr (hmac_fingerprint svc
                       (request_payload rq @ [(''parameters'', JObj (supplied_parameters rq))]) pepper,
                     HMAC_SHA256_V1))
      else Inr (fingerprint svc (request_payload rq), LEGACY_SHA256))"

text \<open>The first transaction: an earlier run with the same key is replayed.\<close>

definition replay_details :: "run_request \<Rightarrow> uuid \<Rightarrow> audit_details" where
  "replay_details rq run_id =
     no_details\<lparr>ad_actor_user_id := Some (rq_requested_by rq), ad_run_id := Some run_id,
       ad_resource_type := Some ''run'', ad_resource_id := Some run_id\<rparr>"

definition create_replay ::
    "run_service \<Rightarrow> env \<Rightarrow> run_request \<Rightarrow> string \<Rightarrow> (ops_error, db, run option) tx" where
  "create_replay svc env rq fp db =
     (case get_by_idempotency_key (rq_requested_by rq) (rq_idempotency_key rq) db of
        None \<Rightarrow> Inr (None, db)
      | Some existing \<Rightarrow>
          if r_request_fingerprint existing \<noteq> fp then Inl IdempotencyConflictError
          else Inr (Some existing,
                 audit_append env RUN_IDEMPOTENT_REPLAY AO_NOOP (rs_audit_source svc)
                   (replay_details rq (r_id existing)) db))"

definition audit_conflict :: "run_service \<Rightarrow> env \<Rightarrow> uuid \<Rightarrow> db \<Rightarrow> db" where
  "audit_conflict svc env requested_by =
     audit_append env RUN_IDEMPOTENCY_CONFLICT AO_DENIED (rs_audit_source svc)
       (no_details\<lparr>ad_severity := SEV_WARNING, ad_actor_user_id := Some requested_by,
          ad_error_code := error_code IdempotencyConflictError,
          ad_failure_stage := Some ''idempotency'', ad_retryable := Some False\<rparr>)"

definition audit_resolution_failed ::
    "run_service \<Rightarrow> env \<Rightarrow> uuid \<Rightarrow> ops_error \<Rightarrow> string \<Rightarrow> db \<Rightarrow> db" where
  "audit_resolution_failed svc env requested_by e stage =
     audit_append env RUN_TARGET_RESOLUTION_FAILED AO_DENIED (rs_audit_source svc)
       (no_details\<lparr>ad_severity := SEV_WARNING, ad_actor_user_id := Some requested_by,
          ad_error_code := error_code e, ad_failure_stage := Some stage,
          ad_retryable := Some False\<rparr>)"

text \<open>The resolved operation: specification, workspace revision, playbook revision, secrets.\<close>

record resolved_operation =
  ro_operation_spec :: jobj
  ro_workspace_revision :: "string option"
  ro_playbook_revision :: "nat option"
  ro_secret_inputs :: "(string \<times> string) list"

definition resolve_revision ::
    "run_service \<Rightarrow> run_request \<Rightarrow> jobj \<Rightarrow> playbook_revision \<Rightarrow> ops_error + resolved_operation" where
  "resolve_revision svc rq spec v =
     (let supplied = supplied_parameters rq;
          check_mode = truthy (dict_get ''checkMode'' JNull spec);
          result = (\<lambda>spec' secrets.
            \<lparr>ro_operation_spec = spec', ro_workspace_revision = Some (pv_sha256 v),
             ro_playbook_revision = Some (pv_revision v), ro_secret_inputs = secrets\<rparr>) in
      case pv_format v of
        PROJECT \<Rightarrow>
          (case validate_parameters (rs_float_repr svc) (pv_parameter_schema v) supplied of
             Inl e \<Rightarrow> Inl e
           | Inr vp \<Rightarrow>
               if check_mode \<and> \<not> pv_supports_check_mode v
               then Inl (ValidationError ''Playbook revision does not declare Check Mode support'')
               else Inr (result
                 (dict_set ''secretParameterNames''
                    (JList (map JStr (sort (map fst (vp_secret_values vp)))))
                    (dict_set ''parameterNames'' (JList (map JStr (vp_supplied_names vp)))
                       (dict_set ''extraVars'' (JObj (vp_public_values vp)) spec)))
                 (vp_secret_values vp)))
      | LEGACY_SINGLE_YAML \<Rightarrow>
          if check_mode
          then Inl (ValidationError ''legacy Playbook revisions do not support Check Mode'')
          else (case validate_extra_vars (JObj supplied) of
                  Inl e \<Rightarrow> Inl e
                | Inr _ \<Rightarrow> Inr (result (dict_set ''extraVars'' (JObj supplied) spec) [])))"

definition resolve_operation ::
    "run_service \<Rightarrow> run_request \<Rightarrow> db \<Rightarrow> ops_error + resolved_operation" where
  "resolve_operation svc rq db =
     (case rq_database_playbook_id rq of
        None \<Rightarrow>
          Inr \<lparr>ro_operation_spec = rq_operation_spec rq,
               ro_workspace_revision = rq_workspace_revision rq,
               ro_playbook_revision = None, ro_secret_inputs = []\<rparr>
      | Some playbook_id \<Rightarrow>
          (case get_document playbook_id db of
             None \<Rightarrow> Inl PlaybookNotFoundError
           | Some (p, v) \<Rightarrow>
               if \<not> pb_enabled p then Inl PlaybookDisabledError
               else (case dict_get ''playbook'' JNull (rq_operation_spec rq) of
                       JObj reference \<Rightarrow>
                         let reference' = dict_set ''sha256'' (JStr (pv_sha256 v))
                               (dict_set ''revision'' (JInt (int (pv_revision v))) reference)
                         in resolve_revision svc rq
                              (dict_set ''playbook'' (JObj reference') (rq_operation_spec rq)) v
                     | _ \<Rightarrow> Inl PlaybookNotFoundError)))"

definition resolved_snapshot :: "resolved_host \<Rightarrow> jobj" where
  "resolved_snapshot h =
     [(''hostId'', JStr (uuid_str (rh_host_id h))), (''name'', JStr (rh_name h)),
      (''address'', JStr (rh_address h)), (''sshPort'', JInt (int (rh_ssh_port h))),
      (''credentialId'', JStr (uuid_str (rh_credential_id h))),
      (''credentialVersion'', JInt (int (rh_credential_version h)))]"

definition credential_snapshot :: "resolved_host list \<Rightarrow> jobj" where
  "credential_snapshot resolved =
     fold (\<lambda>h. dict_set (uuid_str (rh_credential_id h)) (JInt (int (rh_credential_version h)))) resolved []"

definition new_run ::
    "run_request \<Rightarrow> fresh \<Rightarrow> timestamp \<Rightarrow> string \<times> fingerprint_scheme \<Rightarrow> resolved_operation \<Rightarrow>
     jobj \<Rightarrow> resolved_host list \<Rightarrow> run" where
  "new_run rq fresh now fp ro inventory resolved =
     \<lparr>r_id = fr_run_id fresh, r_source_run_id = None, r_kind = rq_kind rq, r_status = RS_QUEUED,
      r_target_spec = rq_target_spec rq, r_resolved_targets = map resolved_snapshot resolved,
      r_operation_spec = ro_operation_spec ro, r_inventory_snapshot = inventory,
      r_workspace_revision = ro_workspace_revision ro,
      r_playbook_id = rq_database_playbook_id rq, r_playbook_revision = ro_playbook_revision ro,
      r_credential_versions = credential_snapshot resolved,
      r_timeout_seconds = rq_timeout_seconds rq, r_forks = rq_forks rq,
      r_cancel_requested_at = None, r_claimed_by = None, r_claimed_at = None,
      r_started_at = None, r_finished_at = None, r_return_code = None, r_summary = [],
      r_failure_code = None, r_failure_message = None, r_requested_by = rq_requested_by rq,
      r_idempotency_key = rq_idempotency_key rq, r_request_fingerprint = fst fp,
      r_fingerprint_scheme = snd fp, r_created_at = now, r_updated_at = now,
      r_next_event_sequence = 1\<rparr>"

definition new_target :: "uuid \<Rightarrow> uuid \<Rightarrow> uuid \<Rightarrow> string \<Rightarrow> string \<Rightarrow> run_target" where
  "new_target target_id run_id host_id name address =
     \<lparr>t_id = target_id, t_run_id = run_id, t_host_id = host_id, t_host_name = name,
      t_host_address = address, t_status = TS_PENDING, t_return_code = None, t_stdout = [],
      t_stderr = [], t_result = [], t_output_truncated = False, t_changed_count = 0,
      t_failed_count = 0, t_unreachable_count = 0, t_started_at = None, t_finished_at = None\<rparr>"

definition new_targets :: "fresh \<Rightarrow> uuid \<Rightarrow> (uuid \<times> string \<times> string) list \<Rightarrow> run_target list" where
  "new_targets fresh run_id resolved =
     map (\<lambda>(i, host_id, name, address). new_target (fr_target_id fresh i) run_id host_id name address)
       (enumerate 0 resolved)"

definition new_event :: "uuid \<Rightarrow> uuid \<Rightarrow> string \<Rightarrow> jobj \<Rightarrow> timestamp \<Rightarrow> run_event" where
  "new_event event_id run_id event_type data now =
     \<lparr>ev_id = event_id, ev_run_id = run_id, ev_run_target_id = None, ev_sequence = 1,
      ev_type = event_type, ev_task = None, ev_stdout = None, ev_data = data, ev_created_at = now\<rparr>"

text \<open>
  What both \<open>_create\<close> and \<open>retry\<close> do with a new run and its targets: persist, compare the
  fingerprint, require host keys, seal the secrets, append \<open>run_queued\<close>. An error carries the value
  of \<open>failure_stage\<close>.
\<close>

definition persist_secrets ::
    "run_service \<Rightarrow> fresh \<Rightarrow> uuid \<Rightarrow> (string \<times> string) list \<Rightarrow> db \<Rightarrow> ops_error + db" where
  "persist_secrets svc fresh run_id secrets db =
     (if secrets = [] then Inr db
      else case encrypt_json (rs_gcm svc) (rs_float_repr svc) (fr_nonce fresh) (rs_keyring svc)
                  ''run-parameters'' (uuid_str run_id) (map (\<lambda>(k, v). (k, JStr v)) secrets) None of
        Inl e \<Rightarrow> Inl e
      | Inr (envelope, version) \<Rightarrow>
          (case add_secret_inputs run_id envelope (nat version) (sort (map fst secrets)) db of
             Inl e \<Rightarrow> Inl e | Inr (_, db') \<Rightarrow> Inr db'))"

definition persist_run ::
    "run_service \<Rightarrow> env \<Rightarrow> fresh \<Rightarrow> run \<Rightarrow> run_target list \<Rightarrow> (uuid \<times> string) list \<Rightarrow>
     (string \<times> string) list \<Rightarrow> jobj \<Rightarrow> db \<Rightarrow> (string \<times> ops_error) + ((run \<times> bool) \<times> db)" where
  "persist_run svc env fresh run targets resolved secrets event_data db =
     (case create_or_get run targets db of
        Inl e \<Rightarrow> Inl (''run_persistence'', e)
      | Inr ((persisted, created), db1) \<Rightarrow>
          if r_request_fingerprint persisted \<noteq> r_request_fingerprint run
          then Inl (''run_persistence'', IdempotencyConflictError)
          else if \<not> created then Inr ((persisted, False), db1)
          else case require_confirmed_host_keys resolved db1 of
            Inl e \<Rightarrow> Inl (''host_key_validation'', e)
          | Inr _ \<Rightarrow>
              (case persist_secrets svc fresh (r_id persisted) secrets db1 of
                 Inl e \<Rightarrow> Inl (''run_persistence'', e)
               | Inr db2 \<Rightarrow>
                   (case append_event (new_event (fr_event_id fresh) (r_id persisted)
                           ''run_queued'' event_data (e_now env)) db2 of
                      Inl e \<Rightarrow> Inl (''run_persistence'', e)
                    | Inr (_, db3) \<Rightarrow> Inr ((persisted, True), db3))))"

definition create_body ::
    "run_service \<Rightarrow> env \<Rightarrow> fresh \<Rightarrow> run_request \<Rightarrow> string \<times> fingerprint_scheme \<Rightarrow>
     (string \<times> ops_error, db, run) tx" where
  "create_body svc env fresh rq fp db =
     (case resolve_targets (rq_target_kind rq) (rq_host_ids rq) (rq_group_id rq) db of
        Inl e \<Rightarrow> Inl (''target_resolution'', e)
      | Inr resolved \<Rightarrow>
          (case resolve_operation svc rq db of
             Inl e \<Rightarrow> Inl (''playbook_resolution'', e)
           | Inr ro \<Rightarrow>
               (case build_inventory resolved None of
                  Inl e \<Rightarrow> Inl (''run_persistence'', e)
                | Inr inventory \<Rightarrow>
                    (case persist_run svc env fresh
                            (new_run rq fresh (e_now env) fp ro inventory resolved)
                            (new_targets fresh (fr_run_id fresh)
                               (map (\<lambda>h. (rh_host_id h, rh_name h, rh_address h)) resolved))
                            (map (\<lambda>h. (rh_host_id h, rh_name h)) resolved) (ro_secret_inputs ro)
                            [(''hostCount'', JInt (int (length resolved))),
                             (''kind'', JStr (run_kind_value (rq_kind rq)))] db of
                       Inl e \<Rightarrow> Inl e
                     | Inr ((persisted, created), db1) \<Rightarrow>
                         Inr (persisted, audit_append env
                           (if created then RUN_CREATED else RUN_IDEMPOTENT_REPLAY)
                           (if created then AO_SUCCEEDED else AO_NOOP) (rs_audit_source svc)
                           (replay_details rq (r_id persisted)) db1)))))"

text \<open>The handlers after the second transaction: a denied request leaves only an audit row.\<close>

definition create_failed ::
    "run_service \<Rightarrow> env \<Rightarrow> run_request \<Rightarrow> string \<Rightarrow> ops_error \<Rightarrow> db \<Rightarrow> db" where
  "create_failed svc env rq stage e db =
     (if e = IdempotencyConflictError then audit_conflict svc env (rq_requested_by rq) db
      else if is_ops_error e \<and> stage \<in> {''target_resolution'', ''host_key_validation''}
      then audit_resolution_failed svc env (rq_requested_by rq) e stage db
      else db)"

definition create_run ::
    "run_service \<Rightarrow> env \<Rightarrow> fresh \<Rightarrow> run_request \<Rightarrow> db \<Rightarrow> (ops_error + run) \<times> db" where
  "create_run svc env fresh rq db =
     (if length (rq_idempotency_key rq) < 8 \<or> length (rq_idempotency_key rq) > 200
      then (Inl (ValidationError ''Idempotency-Key must contain 8-200 characters''), db)
      else case request_fingerprint svc rq db of
        Inl e \<Rightarrow> (Inl e, db)
      | Inr fp \<Rightarrow>
          (case unit_of_work (create_replay svc env rq (fst fp)) db of
             (Inl e, db1) \<Rightarrow> (Inl e, audit_conflict svc env (rq_requested_by rq) db1)
           | (Inr (Some existing), db1) \<Rightarrow> (Inr existing, db1)
           | (Inr None, db1) \<Rightarrow>
               (case unit_of_work (create_body svc env fresh rq fp) db1 of
                  (Inl (stage, e), db2) \<Rightarrow> (Inl e, create_failed svc env rq stage e db2)
                | (Inr run, db2) \<Rightarrow> (Inr run, db2))))"

section \<open>The three kinds of run\<close>

definition target_spec :: "target_kind \<Rightarrow> uuid list \<Rightarrow> uuid option \<Rightarrow> jobj" where
  "target_spec kind host_ids group_id =
     [(''kind'', JStr (target_kind_value kind)),
      (''hostIds'', JList (map (\<lambda>i. JStr (uuid_str i)) host_ids)),
      (''groupId'', case group_id of Some g \<Rightarrow> JStr (uuid_str g) | None \<Rightarrow> JNull)]"

definition acting_user :: "session_principal option \<Rightarrow> uuid \<Rightarrow> uuid" where
  "acting_user actor requested_by = (case actor of Some a \<Rightarrow> sp_user_id a | None \<Rightarrow> requested_by)"

definition denied :: "session_principal option \<Rightarrow> permission \<Rightarrow> bool" where
  "denied actor p = (case actor of Some a \<Rightarrow> \<not> permitted a p | None \<Rightarrow> False)"

definition create_command ::
    "run_service \<Rightarrow> env \<Rightarrow> fresh \<Rightarrow> session_principal option \<Rightarrow> uuid \<Rightarrow> string \<Rightarrow> target_kind \<Rightarrow>
     uuid list \<Rightarrow> uuid option \<Rightarrow> command_mode \<Rightarrow> string \<Rightarrow> string \<Rightarrow> bool \<Rightarrow> int \<Rightarrow> int \<Rightarrow> db \<Rightarrow>
     (ops_error + run) \<times> db" where
  "create_command svc env fresh actor requested_by key kind host_ids group_id mode command become
     shell_confirmed timeout_seconds forks db =
     (if denied actor (if mode = CM_SHELL then RUN_SHELL else RUN_STANDARD)
      then (Inl PermissionDeniedError, db)
      else if command = [] \<or> length command > 4096 \<or> CHR 0x00 \<in> set command
      then (Inl (ValidationError ''command must contain 1-4096 characters and no NUL byte''), db)
      else if mode = CM_SHELL \<and> \<not> shell_confirmed
      then (Inl (ValidationError ''Shell mode requires explicit confirmation''), db)
      else if become \<notin> {''CREDENTIAL_DEFAULT'', ''ENABLED'', ''DISABLED''}
      then (Inl (ValidationError ''invalid privilege escalation selection''), db)
      else if \<not> (1 \<le> timeout_seconds \<and> timeout_seconds \<le> 900) \<or> \<not> (1 \<le> forks \<and> forks \<le> 20)
      then (Inl (ValidationError ''timeout or forks is outside the supported range''), db)
      else create_run svc env fresh
        \<lparr>rq_requested_by = acting_user actor requested_by, rq_idempotency_key = key,
         rq_kind = COMMAND, rq_target_spec = target_spec kind host_ids group_id,
         rq_operation_spec = [(''mode'', JStr (command_mode_value mode)), (''command'', JStr command),
           (''become'', JStr become)],
         rq_timeout_seconds = timeout_seconds, rq_forks = forks, rq_target_kind = kind,
         rq_host_ids = host_ids, rq_group_id = group_id, rq_workspace_revision = None,
         rq_database_playbook_id = None, rq_playbook_parameters = None\<rparr> db)"

definition create_ping ::
    "run_service \<Rightarrow> env \<Rightarrow> fresh \<Rightarrow> session_principal option \<Rightarrow> uuid \<Rightarrow> string \<Rightarrow> uuid \<Rightarrow> int \<Rightarrow> db \<Rightarrow>
     (ops_error + run) \<times> db" where
  "create_ping svc env fresh actor requested_by key host_id timeout_seconds db =
     (if denied actor RUN_STANDARD then (Inl PermissionDeniedError, db)
      else create_run svc env fresh
        \<lparr>rq_requested_by = acting_user actor requested_by, rq_idempotency_key = key, rq_kind = PING,
         rq_target_spec = target_spec TK_HOSTS [host_id] None,
         rq_operation_spec = [(''module'', JStr ''ansible.builtin.ping'')],
         rq_timeout_seconds = timeout_seconds, rq_forks = 1, rq_target_kind = TK_HOSTS,
         rq_host_ids = [host_id], rq_group_id = None, rq_workspace_revision = None,
         rq_database_playbook_id = None, rq_playbook_parameters = None\<rparr> db)"

text \<open>The reference of a playbook: the workspace revision, the database id and the stored value.\<close>

definition playbook_reference_of ::
    "run_service \<Rightarrow> playbook_reference \<Rightarrow> ops_error + (string option \<times> uuid option \<times> jobj)" where
  "playbook_reference_of svc playbook =
     (case pr_source playbook of
        PS_MOUNT \<Rightarrow>
          (case pr_path playbook of
             None \<Rightarrow> Inl PlaybookNotFoundError
           | Some path \<Rightarrow>
               (case rs_mounted svc path of
                  Inl e \<Rightarrow> Inl e
                | Inr (mounted_path, sha256) \<Rightarrow>
                    Inr (Some sha256, None,
                         [(''source'', JStr ''MOUNT''), (''path'', JStr mounted_path)])))
      | PS_DATABASE \<Rightarrow>
          (case pr_playbook_id playbook of
             None \<Rightarrow> Inl PlaybookNotFoundError
           | Some i \<Rightarrow>
               Inr (None, Some i,
                    [(''source'', JStr ''DATABASE''), (''playbookId'', JStr (uuid_str i))])))"

definition playbook_operation ::
    "playbook_reference \<Rightarrow> jobj \<Rightarrow> jobj \<Rightarrow> bool \<Rightarrow> string list \<Rightarrow> string list \<Rightarrow> ops_error + jobj" where
  "playbook_operation playbook reference supplied check_mode tags skip_tags =
     (let operation = [(''playbook'', JObj reference), (''tags'', JList (map JStr tags)),
            (''skipTags'', JList (map JStr skip_tags)), (''checkMode'', JBool check_mode)] in
      if pr_source playbook = PS_MOUNT
      then if check_mode
           then Inl (ValidationError ''mounted Playbooks do not declare Check Mode support'')
           else (case validate_extra_vars (JObj supplied) of
                   Inl e \<Rightarrow> Inl e
                 | Inr _ \<Rightarrow>
                     Inr (operation @ [(''extraVars'', JObj supplied),
                            (''playbookPath'', dict_get ''path'' JNull reference)]))
      else Inr operation)"

definition create_playbook ::
    "run_service \<Rightarrow> env \<Rightarrow> fresh \<Rightarrow> session_principal option \<Rightarrow> uuid \<Rightarrow> string \<Rightarrow> target_kind \<Rightarrow>
     uuid list \<Rightarrow> uuid option \<Rightarrow> playbook_reference \<Rightarrow> jobj \<Rightarrow> jobj option \<Rightarrow> bool \<Rightarrow> string list \<Rightarrow>
     string list \<Rightarrow> int \<Rightarrow> int \<Rightarrow> db \<Rightarrow> (ops_error + run) \<times> db" where
  "create_playbook svc env fresh actor requested_by key kind host_ids group_id playbook extra_vars
     parameters check_mode tags skip_tags timeout_seconds forks db =
     (if denied actor RUN_STANDARD then (Inl PermissionDeniedError, db)
      else if \<not> (1 \<le> timeout_seconds \<and> timeout_seconds \<le> 86400) \<or> \<not> (1 \<le> forks \<and> forks \<le> 20)
      then (Inl (ValidationError ''timeout or forks is outside the supported range''), db)
      else case require_playbook_source svc (pr_source playbook) of
        Inl e \<Rightarrow> (Inl e, db)
      | Inr _ \<Rightarrow>
          (case playbook_reference_of svc playbook of
             Inl e \<Rightarrow> (Inl e, db)
           | Inr (workspace_revision, database_playbook_id, reference) \<Rightarrow>
               let supplied = (case parameters of Some p \<Rightarrow> p | None \<Rightarrow> extra_vars) in
               (case playbook_operation playbook reference supplied check_mode tags skip_tags of
                  Inl e \<Rightarrow> (Inl e, db)
                | Inr operation \<Rightarrow>
                    create_run svc env fresh
                      \<lparr>rq_requested_by = acting_user actor requested_by, rq_idempotency_key = key,
                       rq_kind = PLAYBOOK, rq_target_spec = target_spec kind host_ids group_id,
                       rq_operation_spec = operation, rq_timeout_seconds = timeout_seconds,
                       rq_forks = forks, rq_target_kind = kind, rq_host_ids = host_ids,
                       rq_group_id = group_id, rq_workspace_revision = workspace_revision,
                       rq_database_playbook_id = database_playbook_id,
                       rq_playbook_parameters =
                         (if database_playbook_id \<noteq> None then Some supplied else None)\<rparr> db)))"

section \<open>Preview\<close>

record playbook_preview =
  pp_target_count :: nat
  pp_playbook_source :: playbook_source
  pp_revision :: "nat option"
  pp_digest :: string
  pp_check_mode :: bool
  pp_tags :: "string list"
  pp_skip_tags :: "string list"
  pp_parameter_names :: "string list"
  pp_sensitive_parameters :: "(string \<times> bool) list"

definition sensitive_fields :: "jobj \<Rightarrow> jobj \<Rightarrow> (string \<times> bool) list" where
  "sensitive_fields schema parameters =
     (case dict_get ''properties'' (JObj []) schema of
        JObj properties \<Rightarrow>
          map (\<lambda>(name, _). (name, name \<in> set (dict_keys parameters)))
            (filter (\<lambda>(name, raw). case raw of
                 JObj d \<Rightarrow> map_of d sensitive_key = Some (JBool True) | _ \<Rightarrow> False)
               (sort_keys properties))
      | _ \<Rightarrow> [])"

definition preview_revision ::
    "run_service \<Rightarrow> playbook_revision \<Rightarrow> jobj \<Rightarrow> bool \<Rightarrow>
     ops_error + (string list \<times> (string \<times> bool) list)" where
  "preview_revision svc v parameters check_mode =
     (case pv_format v of
        PROJECT \<Rightarrow>
          (case validate_parameters (rs_float_repr svc) (pv_parameter_schema v) parameters of
             Inl e \<Rightarrow> Inl e
           | Inr vp \<Rightarrow>
               if check_mode \<and> \<not> pv_supports_check_mode v
               then Inl (ValidationError ''Playbook revision does not declare Check Mode support'')
               else Inr (vp_supplied_names vp, sensitive_fields (pv_parameter_schema v) parameters))
      | LEGACY_SINGLE_YAML \<Rightarrow>
          if check_mode
          then Inl (ValidationError ''legacy Playbook revisions do not support Check Mode'')
          else (case validate_extra_vars (JObj parameters) of
                  Inl e \<Rightarrow> Inl e
                | Inr _ \<Rightarrow> Inr (sort (dict_keys parameters), [])))"

definition preview_source ::
    "run_service \<Rightarrow> playbook_reference \<Rightarrow> jobj \<Rightarrow> bool \<Rightarrow> db \<Rightarrow>
     ops_error + (nat option \<times> string \<times> string list \<times> (string \<times> bool) list)" where
  "preview_source svc playbook parameters check_mode db =
     (case pr_source playbook of
        PS_MOUNT \<Rightarrow>
          (case pr_path playbook of
             None \<Rightarrow> Inl PlaybookNotFoundError
           | Some path \<Rightarrow>
               if check_mode
               then Inl (ValidationError ''mounted Playbooks do not declare Check Mode support'')
               else (case validate_extra_vars (JObj parameters) of
                       Inl e \<Rightarrow> Inl e
                     | Inr _ \<Rightarrow>
                         (case rs_mounted svc path of
                            Inl e \<Rightarrow> Inl e
                          | Inr (_, sha256) \<Rightarrow> Inr (None, sha256, [], []))))
      | PS_DATABASE \<Rightarrow>
          (case pr_playbook_id playbook of
             None \<Rightarrow> Inl PlaybookNotFoundError
           | Some i \<Rightarrow>
               (case get_document i db of
                  None \<Rightarrow> Inl PlaybookNotFoundError
                | Some (p, v) \<Rightarrow>
                    if \<not> pb_enabled p then Inl PlaybookDisabledError
                    else (case preview_revision svc v parameters check_mode of
                            Inl e \<Rightarrow> Inl e
                          | Inr (names, sensitive) \<Rightarrow>
                              Inr (Some (pv_revision v), pv_sha256 v, names, sensitive)))))"

definition preview_playbook ::
    "run_service \<Rightarrow> env \<Rightarrow> session_principal \<Rightarrow> target_kind \<Rightarrow> uuid list \<Rightarrow> uuid option \<Rightarrow>
     playbook_reference \<Rightarrow> jobj \<Rightarrow> bool \<Rightarrow> string list \<Rightarrow> string list \<Rightarrow> db \<Rightarrow>
     (ops_error + playbook_preview) \<times> db" where
  "preview_playbook svc env actor kind host_ids group_id playbook parameters check_mode tags
     skip_tags db =
     (if \<not> permitted actor RUN_STANDARD then (Inl PermissionDeniedError, db)
      else case require_playbook_source svc (pr_source playbook) of
        Inl e \<Rightarrow> (Inl e, db)
      | Inr _ \<Rightarrow>
          (case resolve_targets kind host_ids group_id db of
             Inl e \<Rightarrow> (Inl e, db)
           | Inr resolved \<Rightarrow>
               (case preview_source svc playbook parameters check_mode db of
                  Inl e \<Rightarrow> (Inl e, db)
                | Inr (revision, digest, names, sensitive) \<Rightarrow>
                    (Inr \<lparr>pp_target_count = length resolved, pp_playbook_source = pr_source playbook,
                          pp_revision = revision, pp_digest = digest, pp_check_mode = check_mode,
                          pp_tags = tags, pp_skip_tags = skip_tags, pp_parameter_names = names,
                          pp_sensitive_parameters = sensitive\<rparr>,
                     audit_append env PLAYBOOK_PREVIEWED AO_SUCCEEDED (rs_audit_source svc)
                       (no_details\<lparr>ad_actor_user_id := Some (sp_user_id actor),
                          ad_session_id := Some (sp_session_id actor),
                          ad_resource_type := Some ''playbook'',
                          ad_resource_id := pr_playbook_id playbook\<rparr>) db))))"

section \<open>Reading\<close>

definition run_detail :: "uuid \<Rightarrow> db \<Rightarrow> ops_error + (run \<times> run_target list)" where
  "run_detail run_id db =
     (case get_run run_id db of
        None \<Rightarrow> Inl (NotFoundError ''run not found'')
      | Some r \<Rightarrow> Inr (r, targets_of run_id db))"

definition service_events_after :: "uuid \<Rightarrow> nat \<Rightarrow> nat \<Rightarrow> db \<Rightarrow> ops_error + run_event list" where
  "service_events_after run_id sequence limit db =
     (if get_run run_id db = None then Inl (NotFoundError ''run not found'')
      else Inr (events_after run_id sequence limit db))"

section \<open>Cancelling\<close>

definition run_details :: "uuid \<Rightarrow> uuid \<Rightarrow> audit_details" where
  "run_details requested_by run_id =
     no_details\<lparr>ad_actor_user_id := Some requested_by, ad_run_id := Some run_id,
       ad_resource_type := Some ''run'', ad_resource_id := Some run_id\<rparr>"

definition cancel_body ::
    "run_service \<Rightarrow> env \<Rightarrow> fresh \<Rightarrow> uuid \<Rightarrow> uuid \<Rightarrow> (ops_error, db, run) tx" where
  "cancel_body svc env fresh run_id requested_by db =
     (case get_run run_id db of
        None \<Rightarrow> Inl (NotFoundError ''run not found'')
      | Some current \<Rightarrow>
          if terminal (r_status current) then Inl RunNotCancelableError
          else case request_cancel run_id (e_now env) db of
            (None, _) \<Rightarrow> Inl RunNotCancelableError
          | (Some run, db1) \<Rightarrow>
              (case append_event
                      (new_event (fr_event_id fresh) run_id ''cancel_requested'' [] (e_now env)) db1 of
                 Inl e \<Rightarrow> Inl e
               | Inr (_, db2) \<Rightarrow>
                   Inr (run, audit_append env RUN_CANCEL_REQUESTED AO_SUCCEEDED (rs_audit_source svc)
                               (run_details requested_by run_id) db2)))"

definition cancel ::
    "run_service \<Rightarrow> env \<Rightarrow> fresh \<Rightarrow> session_principal option \<Rightarrow> uuid \<Rightarrow> uuid \<Rightarrow> db \<Rightarrow>
     (ops_error + run) \<times> db" where
  "cancel svc env fresh actor run_id requested_by db =
     (if denied actor RUN_CANCEL then (Inl PermissionDeniedError, db)
      else unit_of_work (cancel_body svc env fresh run_id (acting_user actor requested_by)) db)"

section \<open>Retrying\<close>

definition retry_permission :: "run \<Rightarrow> permission" where
  "retry_permission source =
     (if r_kind source = COMMAND \<and> dict_get ''mode'' JNull (r_operation_spec source) = JStr ''SHELL''
      then RUN_SHELL else RUN_STANDARD)"

definition secret_names_of :: "jobj \<Rightarrow> ops_error + string list" where
  "secret_names_of spec =
     (case dict_get ''secretParameterNames'' (JList []) spec of
        JList items \<Rightarrow>
          if \<forall>i \<in> set items. (case i of JStr _ \<Rightarrow> True | _ \<Rightarrow> False) then Inr (str_items items)
          else Inl (ValidationError ''source Run parameter metadata is invalid'')
      | _ \<Rightarrow> Inl (ValidationError ''source Run parameter metadata is invalid''))"

text \<open>A retry of a project revision validates the stored public and the newly supplied values.\<close>

definition retry_project ::
    "run_service \<Rightarrow> playbook_revision \<Rightarrow> jobj \<Rightarrow> string list \<Rightarrow> jobj \<Rightarrow>
     ops_error + (jobj \<times> (string \<times> string) list)" where
  "retry_project svc v spec secret_names parameters =
     (case dict_get ''extraVars'' (JObj []) spec of
        JObj raw_public \<Rightarrow>
          let missing = filter (\<lambda>n. n \<notin> set (dict_keys parameters)) secret_names in
          if missing \<noteq> [] then Inl (SecretParametersRequiredError (sort (remdups missing)))
          else (case validate_parameters (rs_float_repr svc) (pv_parameter_schema v)
                       (dict_update raw_public parameters) of
                  Inl e \<Rightarrow> Inl e
                | Inr vp \<Rightarrow>
                    if \<not> set secret_names \<subseteq> set (map fst (vp_secret_values vp))
                    then Inl (SecretParametersRequiredError (sort secret_names))
                    else Inr (dict_set ''secretParameterNames''
                                (JList (map JStr (sort (map fst (vp_secret_values vp)))))
                                (dict_set ''parameterNames'' (JList (map JStr (vp_supplied_names vp)))
                                   (dict_set ''extraVars'' (JObj (vp_public_values vp)) spec)),
                              vp_secret_values vp))
      | _ \<Rightarrow> Inl (ValidationError ''source Run parameters are invalid''))"

definition retry_parameters ::
    "run_service \<Rightarrow> run \<Rightarrow> jobj option \<Rightarrow> db \<Rightarrow> ops_error + (jobj \<times> (string \<times> string) list)" where
  "retry_parameters svc source parameters db =
     (let spec = r_operation_spec source;
          supplied = (case parameters of Some p \<Rightarrow> p | None \<Rightarrow> []) in
      case secret_names_of spec of
        Inl e \<Rightarrow> Inl e
      | Inr secret_names \<Rightarrow>
          (case (r_kind source, r_playbook_id source) of
             (PLAYBOOK, Some playbook_id) \<Rightarrow>
               (case get_revision playbook_id
                       (case r_playbook_revision source of Some n \<Rightarrow> n | None \<Rightarrow> 0) db of
                  None \<Rightarrow> Inl PlaybookNotFoundError
                | Some v \<Rightarrow>
                    if pv_format v = PROJECT then retry_project svc v spec secret_names supplied
                    else if supplied \<noteq> []
                    then Inl (ValidationError ''legacy Playbook Retry does not accept parameters'')
                    else Inr (spec, []))
           | _ \<Rightarrow>
               if supplied \<noteq> [] then Inl (ValidationError ''this Run type does not accept parameters'')
               else Inr (spec, [])))"

definition retry_payload :: "run \<Rightarrow> jobj \<Rightarrow> jobj" where
  "retry_payload source spec =
     [(''kind'', JStr (run_kind_value (r_kind source))), (''target'', JObj (r_target_spec source)),
      (''operation'', JObj spec), (''timeoutSeconds'', JInt (r_timeout_seconds source)),
      (''forks'', JInt (r_forks source)), (''sourceRunId'', JStr (uuid_str (r_id source)))]"

definition retry_fingerprint ::
    "run_service \<Rightarrow> run \<Rightarrow> jobj \<Rightarrow> (string \<times> string) list \<Rightarrow> db \<Rightarrow>
     ops_error + (string \<times> fingerprint_scheme)" where
  "retry_fingerprint svc source spec secrets db =
     (if secrets \<noteq> []
      then (case idempotency_pepper svc db of
              Inl e \<Rightarrow> Inl e
            | Inr pepper \<Rightarrow>
                Inr (hmac_fingerprint svc (retry_payload source spec @
                       [(''secretParameters'', JObj (map (\<lambda>(k, v). (k, JStr v)) secrets))]) pepper,
                     HMAC_SHA256_V1))
      else Inr (fingerprint svc (retry_payload source spec), LEGACY_SHA256))"

definition retried_run ::
    "run \<Rightarrow> fresh \<Rightarrow> timestamp \<Rightarrow> uuid \<Rightarrow> string \<Rightarrow> string \<times> fingerprint_scheme \<Rightarrow> jobj \<Rightarrow> run" where
  "retried_run source fresh now requested_by key fp spec =
     \<lparr>r_id = fr_run_id fresh, r_source_run_id = Some (r_id source), r_kind = r_kind source,
      r_status = RS_QUEUED, r_target_spec = r_target_spec source,
      r_resolved_targets = r_resolved_targets source, r_operation_spec = spec,
      r_inventory_snapshot = r_inventory_snapshot source,
      r_workspace_revision = r_workspace_revision source, r_playbook_id = r_playbook_id source,
      r_playbook_revision = r_playbook_revision source,
      r_credential_versions = r_credential_versions source,
      r_timeout_seconds = r_timeout_seconds source, r_forks = r_forks source,
      r_cancel_requested_at = None, r_claimed_by = None, r_claimed_at = None,
      r_started_at = None, r_finished_at = None, r_return_code = None, r_summary = [],
      r_failure_code = None, r_failure_message = None, r_requested_by = requested_by,
      r_idempotency_key = key, r_request_fingerprint = fst fp, r_fingerprint_scheme = snd fp,
      r_created_at = now, r_updated_at = now, r_next_event_sequence = 1\<rparr>"

definition retry_guard ::
    "run_service \<Rightarrow> session_principal option \<Rightarrow> uuid \<Rightarrow> db \<Rightarrow> ops_error + run" where
  "retry_guard svc actor run_id db =
     (case get_run run_id db of
        None \<Rightarrow> Inl (NotFoundError ''run not found'')
      | Some source \<Rightarrow>
          if \<not> terminal (r_status source)
          then Inl (ValidationError ''only terminal runs can be retried'')
          else if denied actor (retry_permission source) then Inl PermissionDeniedError
          else (case (if r_kind source = PLAYBOOK
                      then (case playbook_source_of (r_operation_spec source) of
                              Inl e \<Rightarrow> Inl e | Inr s \<Rightarrow> require_playbook_source svc s)
                      else Inr ()) of
                  Inl e \<Rightarrow> Inl e
                | Inr _ \<Rightarrow>
                    if targets_of run_id db = []
                    then Inl (ValidationError ''source run target snapshot is invalid'')
                    else Inr source))"

definition retry_body ::
    "run_service \<Rightarrow> env \<Rightarrow> fresh \<Rightarrow> session_principal option \<Rightarrow> uuid \<Rightarrow> uuid \<Rightarrow> string \<Rightarrow> jobj option \<Rightarrow>
     (ops_error, db, run) tx" where
  "retry_body svc env fresh actor run_id requested_by key parameters db =
     (case retry_guard svc actor run_id db of
        Inl e \<Rightarrow> Inl e
      | Inr source \<Rightarrow>
          (case retry_parameters svc source parameters db of
             Inl e \<Rightarrow> Inl e
           | Inr (spec, secrets) \<Rightarrow>
               (case retry_fingerprint svc source spec secrets db of
                  Inl e \<Rightarrow> Inl e
                | Inr fp \<Rightarrow>
                    let user = acting_user actor requested_by;
                        targets = targets_of run_id db in
                    (case persist_run svc env fresh
                            (retried_run source fresh (e_now env) user key fp spec)
                            (new_targets fresh (fr_run_id fresh)
                               (map (\<lambda>t. (t_host_id t, t_host_name t, t_host_address t)) targets))
                            (map (\<lambda>t. (t_host_id t, t_host_name t)) targets) secrets
                            [(''hostCount'', JInt (int (length targets))),
                             (''kind'', JStr (run_kind_value (r_kind source))),
                             (''sourceRunId'', JStr (uuid_str (r_id source)))] db of
                       Inl (_, e) \<Rightarrow> Inl e
                     | Inr ((persisted, created), db1) \<Rightarrow>
                         Inr (persisted, audit_append env
                           (if created then RUN_RETRY_CREATED else RUN_IDEMPOTENT_REPLAY)
                           (if created then AO_SUCCEEDED else AO_NOOP) (rs_audit_source svc)
                           (run_details user (r_id persisted)) db1)))))"

definition retry ::
    "run_service \<Rightarrow> env \<Rightarrow> fresh \<Rightarrow> session_principal option \<Rightarrow> uuid \<Rightarrow> uuid \<Rightarrow> string \<Rightarrow> jobj option \<Rightarrow>
     db \<Rightarrow> (ops_error + run) \<times> db" where
  "retry svc env fresh actor run_id requested_by key parameters db =
     (if length key < 8 \<or> length key > 200
      then (Inl (ValidationError ''Idempotency-Key must contain 8-200 characters''), db)
      else unit_of_work (retry_body svc env fresh actor run_id requested_by key parameters) db)"

section \<open>Consuming secrets\<close>

definition consume_body ::
    "run_service \<Rightarrow> env \<Rightarrow> uuid \<Rightarrow> string list \<Rightarrow> (ops_error, db, (string \<times> string) list) tx" where
  "consume_body svc env run_id expected_names db =
     (case delete_secret_inputs run_id db of
        (None, _) \<Rightarrow> Inl (SecretParametersRequiredError expected_names)
      | (Some s, db1) \<Rightarrow>
          if sort (si_parameter_names s) \<noteq> sort expected_names
          then Inl (RuntimeErr ''encrypted Run parameter metadata is invalid'')
          else (case decrypt_json (rs_gcm svc) (rs_codec svc) (rs_keyring svc) ''run-parameters''
                       (uuid_str run_id) (si_encrypted_payload s) (int (si_key_version s)) of
                  Inl e \<Rightarrow> Inl e
                | Inr vals \<Rightarrow>
                    (case str_values vals of
                       Some secrets \<Rightarrow>
                         if set (map fst vals) \<noteq> set expected_names
                         then Inl (RuntimeErr ''encrypted Run parameters are invalid'')
                         else Inr (secrets,
                           audit_append env RUN_SECRET_INPUT_CONSUMED AO_SUCCEEDED SRC_WORKER
                             (no_details\<lparr>ad_run_id := Some run_id, ad_resource_type := Some ''run'',
                                ad_resource_id := Some run_id\<rparr>) db1)
                     | None \<Rightarrow> Inl (RuntimeErr ''encrypted Run parameters are invalid''))))"

definition consume_secret_inputs ::
    "run_service \<Rightarrow> env \<Rightarrow> uuid \<Rightarrow> string list \<Rightarrow> db \<Rightarrow>
     (ops_error + (string \<times> string) list) \<times> db" where
  "consume_secret_inputs svc env run_id expected_names db =
     (if expected_names = [] then (Inr [], db)
      else unit_of_work (consume_body svc env run_id expected_names) db)"

end
