(* ===== verification/Worker_Coordinator.thy ===== *)
theory Worker_Coordinator
  imports Run_Repository Json
begin

text \<open>
  \<open>WorkerCoordinator\<close> of \<open>services/runs.py\<close>: what one worker does to the database. Every method is
  one transaction; \<open>claim\<close> adds an audit row in a second one after a collision.
\<close>

record worker =
  w_id :: string
  w_settings :: settings

definition lease_until :: "worker \<Rightarrow> env \<Rightarrow> timestamp" where
  "lease_until w env = e_now env + seconds (set_worker_lease_seconds (w_settings w))"

definition worker_heartbeat :: "worker \<Rightarrow> env \<Rightarrow> uuid option \<Rightarrow> db \<Rightarrow> db" where
  "worker_heartbeat w env run_id = heartbeat (w_id w) run_id (e_now env) (lease_until w env)"

definition worker_recover_stale :: "worker \<Rightarrow> env \<Rightarrow> db \<Rightarrow> nat \<times> db" where
  "worker_recover_stale w env db =
     (case recover_stale (e_now env) db of
        (count, db1) \<Rightarrow>
          (count,
           if count \<noteq> 0
           then audit_append env STALE_RUNS_RECOVERED AO_SUCCEEDED SRC_WORKER
                  (no_details\<lparr>ad_worker_id := Some (w_id w)\<rparr>) db1
           else db1))"

definition worker_run_details :: "worker \<Rightarrow> uuid \<Rightarrow> audit_details" where
  "worker_run_details w run_id =
     no_details\<lparr>ad_worker_id := Some (w_id w), ad_run_id := Some run_id,
       ad_resource_type := Some ''run'', ad_resource_id := Some run_id\<rparr>"

text \<open>
  \<open>others\<close> and \<open>locked_rows\<close> describe the transactions that run at the same time, as in
  \<open>claim_next\<close>.
\<close>

definition claim_body ::
    "(db \<Rightarrow> db) \<Rightarrow> uuid list \<Rightarrow> worker \<Rightarrow> env \<Rightarrow> (ops_error, db, run option) tx" where
  "claim_body others locked_rows w env db =
     (let expires = lease_until w env;
          db1 = heartbeat (w_id w) None (e_now env) expires db in
      case claim_next others locked_rows (w_id w) (e_now env) expires db1 of
        Inl e \<Rightarrow> Inl e
      | Inr (None, db2) \<Rightarrow> Inr (None, db2)
      | Inr (Some run, db2) \<Rightarrow>
          Inr (Some run,
               audit_append env RUN_CLAIMED AO_SUCCEEDED SRC_WORKER (worker_run_details w (r_id run))
                 (heartbeat (w_id w) (Some (r_id run)) (e_now env) expires db2)))"

definition worker_claim ::
    "(db \<Rightarrow> db) \<Rightarrow> uuid list \<Rightarrow> worker \<Rightarrow> env \<Rightarrow> db \<Rightarrow> (ops_error + run option) \<times> db" where
  "worker_claim others locked_rows w env db =
     (case unit_of_work (claim_body others locked_rows w env) db of
        (Inl ClaimCollisionError, db1) \<Rightarrow>
          (Inr None,
           audit_append env HOST_LOCK_COLLISION AO_NOOP SRC_WORKER
             (no_details\<lparr>ad_severity := SEV_DEBUG, ad_worker_id := Some (w_id w),
                ad_failure_stage := Some ''run_claim'', ad_retryable := Some True\<rparr>) db1)
      | (r, db1) \<Rightarrow> (r, db1))"

definition worker_mark_running :: "worker \<Rightarrow> env \<Rightarrow> uuid \<Rightarrow> db \<Rightarrow> db" where
  "worker_mark_running w env run_id db =
     audit_append env RUN_STARTED AO_SUCCEEDED SRC_WORKER (worker_run_details w run_id)
       (mark_running run_id (e_now env) db)"

text \<open>
  Output above the limit keeps its last bytes; on ASCII text a byte is a character. The slice
  \<open>data[-0:]\<close> of a zero limit is all of the data.
\<close>

definition bound_output :: "nat \<Rightarrow> string \<Rightarrow> string" where
  "bound_output limit out = (if length out > limit \<and> limit \<noteq> 0 then drop (length out - limit) out else out)"

definition worker_append_event ::
    "worker \<Rightarrow> env \<Rightarrow> uuid \<Rightarrow> uuid \<Rightarrow> string \<Rightarrow> string option \<Rightarrow> string option \<Rightarrow> jobj \<Rightarrow> uuid option \<Rightarrow>
     db \<Rightarrow> (ops_error + run_event) \<times> db" where
  "worker_append_event w env event_id run_id event_type out task data target_id =
     unit_of_work (append_event
       \<lparr>ev_id = event_id, ev_run_id = run_id, ev_run_target_id = target_id, ev_sequence = 1,
        ev_type = event_type, ev_task = task,
        ev_stdout = map_option (bound_output (set_max_event_output_bytes (w_settings w))) out,
        ev_data = data, ev_created_at = e_now env\<rparr>)"

definition worker_finish_target ::
    "worker \<Rightarrow> env \<Rightarrow> uuid \<Rightarrow> uuid \<Rightarrow> uuid \<Rightarrow> run_target_status \<Rightarrow> int option \<Rightarrow> string \<Rightarrow> string \<Rightarrow>
     jobj \<Rightarrow> bool \<Rightarrow> nat \<Rightarrow> nat \<Rightarrow> nat \<Rightarrow> db \<Rightarrow> db" where
  "worker_finish_target w env run_id target_id host_id status return_code out err result truncated
     changed failed unreachable db =
     (let good = (status \<in> {TS_SUCCEEDED, TS_SKIPPED}) in
      audit_append env HOST_COMPLETED (if good then AO_SUCCEEDED else AO_FAILED) SRC_WORKER
        (no_details\<lparr>ad_severity := (if good then SEV_INFO else SEV_WARNING),
           ad_worker_id := Some (w_id w), ad_run_id := Some run_id,
           ad_run_target_id := Some target_id, ad_resource_type := Some ''host'',
           ad_resource_id := Some host_id\<rparr>)
        (finish_target target_id status return_code out err result truncated changed failed
           unreachable (e_now env) db))"

fun finish_action :: "run_status \<Rightarrow> audit_action" where
  "finish_action RS_SUCCEEDED = RUN_SUCCEEDED"
| "finish_action RS_PARTIAL = RUN_PARTIAL"
| "finish_action RS_CANCELED = RUN_CANCELED"
| "finish_action RS_TIMED_OUT = RUN_TIMED_OUT"
| "finish_action RS_INTERRUPTED = RUN_INTERRUPTED"
| "finish_action RS_REJECTED = RUN_REJECTED"
| "finish_action _ = RUN_FAILED"

fun run_status_value :: "run_status \<Rightarrow> string" where
  "run_status_value RS_QUEUED = ''QUEUED''"
| "run_status_value RS_PREPARING = ''PREPARING''"
| "run_status_value RS_RUNNING = ''RUNNING''"
| "run_status_value RS_SUCCEEDED = ''SUCCEEDED''"
| "run_status_value RS_PARTIAL = ''PARTIAL''"
| "run_status_value RS_FAILED = ''FAILED''"
| "run_status_value RS_CANCELED = ''CANCELED''"
| "run_status_value RS_TIMED_OUT = ''TIMED_OUT''"
| "run_status_value RS_INTERRUPTED = ''INTERRUPTED''"
| "run_status_value RS_REJECTED = ''REJECTED''"

definition finish_event ::
    "uuid \<Rightarrow> uuid \<Rightarrow> run_status \<Rightarrow> int option \<Rightarrow> jobj \<Rightarrow> timestamp \<Rightarrow> run_event" where
  "finish_event event_id run_id status return_code summary now =
     \<lparr>ev_id = event_id, ev_run_id = run_id, ev_run_target_id = None, ev_sequence = 1,
      ev_type = ''run_finished'', ev_task = None, ev_stdout = None,
      ev_data = [(''status'', JStr (run_status_value status)),
        (''returnCode'', case return_code of Some c \<Rightarrow> JInt c | None \<Rightarrow> JNull),
        (''summary'', JObj summary)],
      ev_created_at = now\<rparr>"

definition finish_body ::
    "worker \<Rightarrow> env \<Rightarrow> uuid \<Rightarrow> uuid \<Rightarrow> run_status \<Rightarrow> int option \<Rightarrow> jobj \<Rightarrow> string option \<Rightarrow>
     string option \<Rightarrow> string option \<Rightarrow> (ops_error, db, run) tx" where
  "finish_body w env event_id run_id status return_code summary failure_code failure_message
     failure_stage db =
     (case finish run_id (w_id w) status return_code summary failure_code failure_message
             (e_now env) db of
        (None, _) \<Rightarrow> Inl (RuntimeErr ''worker no longer owns this run'')
      | (Some result, db1) \<Rightarrow>
          (case append_event (finish_event event_id run_id status return_code summary (e_now env)) db1 of
             Inl e \<Rightarrow> Inl e
           | Inr (_, db2) \<Rightarrow>
               let good = (status = RS_SUCCEEDED) in
               Inr (result,
                 audit_append env (finish_action status) (if good then AO_SUCCEEDED else AO_FAILED)
                   SRC_WORKER
                   ((worker_run_details w run_id)\<lparr>
                      ad_severity := (if good then SEV_INFO else SEV_WARNING),
                      ad_error_code := failure_code,
                      ad_failure_stage :=
                        (if failure_stage \<noteq> None \<and> failure_stage \<noteq> Some [] then failure_stage
                         else if failure_code \<noteq> None \<and> failure_code \<noteq> Some []
                         then Some ''run_execution'' else None),
                      ad_retryable := Some (status \<in> {RS_FAILED, RS_TIMED_OUT, RS_INTERRUPTED})\<rparr>)
                   db2)))"

definition worker_finish ::
    "worker \<Rightarrow> env \<Rightarrow> uuid \<Rightarrow> uuid \<Rightarrow> run_status \<Rightarrow> int option \<Rightarrow> jobj \<Rightarrow> string option \<Rightarrow>
     string option \<Rightarrow> string option \<Rightarrow> db \<Rightarrow> (ops_error + run) \<times> db" where
  "worker_finish w env event_id run_id status return_code summary failure_code failure_message
     failure_stage =
     unit_of_work (finish_body w env event_id run_id status return_code summary failure_code
       failure_message failure_stage)"

end
