(* ===== verification/Web_Shell.thy ===== *)
theory Web_Shell
  imports Host_Lock Assets Py_Text
begin

text \<open>
  \<open>repositories/web_shell.py\<close> and \<open>services/web_shell.py\<close>: the ticketed, leased terminal sessions
  and the host locks they hold. Every service call is one transaction (\<open>heartbeat\<close> is two), a raise
  rolls it back. \<open>acquire_admission_lock\<close> serialises the transactions of \<open>create\<close> and
  \<open>recover_stale\<close>, so that they are single steps on the tables.
\<close>

section \<open>Repository\<close>

fun ws_deadline :: "web_shell_session \<Rightarrow> timestamp" where
  "ws_deadline s = (if ws_state s = WS_PENDING then ws_ticket_expires_at s else ws_lease_expires_at s)"

text \<open>
  Deleting a session row deletes its lock: the column \<open>web_shell_session_id\<close> of the lock table
  is declared \<open>ON DELETE CASCADE\<close>.
\<close>

definition delete_sessions :: "(web_shell_session \<Rightarrow> bool) \<Rightarrow> db \<Rightarrow> db" where
  "delete_sessions p db =
     (let gone = map ws_id (filter p (web_shell_sessions db))
      in db\<lparr>web_shell_sessions := delete_where p (web_shell_sessions db),
            host_execution_locks := delete_where
              (\<lambda>l. case hl_web_shell_session_id l of None \<Rightarrow> False | Some i \<Rightarrow> i \<in> set gone)
              (host_execution_locks db)\<rparr>)"

definition ws_expired :: "timestamp \<Rightarrow> web_shell_session \<Rightarrow> bool" where
  "ws_expired now s \<longleftrightarrow>
     (ws_state s = WS_PENDING \<and> ws_ticket_expires_at s \<le> now) \<or>
     (ws_state s \<in> {WS_ACTIVE, WS_CLOSE_REQUESTED} \<and> ws_lease_expires_at s \<le> now)"

definition cleanup_expired :: "timestamp \<Rightarrow> db \<Rightarrow> nat \<times> db" where
  "cleanup_expired now db =
     (length (filter (ws_expired now) (web_shell_sessions db)), delete_sessions (ws_expired now) db)"

definition count_live :: "timestamp \<Rightarrow> db \<Rightarrow> nat" where
  "count_live now db =
     length (filter (\<lambda>s. (ws_state s = WS_PENDING \<and> ws_ticket_expires_at s > now) \<or>
         (ws_state s \<in> {WS_ACTIVE, WS_CLOSE_REQUESTED} \<and> ws_lease_expires_at s > now))
       (web_shell_sessions db))"

definition ws_add :: "web_shell_session \<Rightarrow> db \<Rightarrow> ops_error + db" where
  "ws_add s db =
     (if ws_id s \<in> set (map ws_id (web_shell_sessions db))
      then Inl (UniqueViolation ''web_shell_sessions_pkey'')
      else Inr (db\<lparr>web_shell_sessions := web_shell_sessions db @ [s]\<rparr>))"

definition ws_lock :: "uuid \<Rightarrow> uuid \<Rightarrow> string \<Rightarrow> timestamp \<Rightarrow> timestamp \<Rightarrow> host_lock" where
  "ws_lock host_id session_id owner_id now expires_at =
     \<lparr>hl_host_id = host_id, hl_run_id = None, hl_owner_id = owner_id, hl_acquired_at = now,
      hl_expires_at = expires_at, hl_web_shell_session_id = Some session_id\<rparr>"

definition acquire_host_lock ::
    "uuid \<Rightarrow> uuid \<Rightarrow> string \<Rightarrow> timestamp \<Rightarrow> timestamp \<Rightarrow> db \<Rightarrow> bool \<times> db" where
  "acquire_host_lock host_id session_id owner_id now expires_at db =
     (case upsert_lock now (ws_lock host_id session_id owner_id now expires_at)
             (host_execution_locks db) of
        (ok, locks) \<Rightarrow> (ok, db\<lparr>host_execution_locks := locks\<rparr>))"

definition ws_get :: "uuid \<Rightarrow> db \<Rightarrow> web_shell_session option" where
  "ws_get session_id db = fetch_one (\<lambda>s. ws_id s = session_id) (web_shell_sessions db)"

text \<open>The subquery \<open>EXISTS (SELECT 1 FROM sessions s JOIN users u ..)\<close> of two statements.\<close>

definition auth_session_live :: "timestamp \<Rightarrow> uuid \<Rightarrow> db \<Rightarrow> bool" where
  "auth_session_live now auth_session_id db \<longleftrightarrow>
     (\<exists>s \<in> set (sessions db). \<exists>u \<in> set (users db).
        u_id u = s_user_id s \<and> s_id s = auth_session_id \<and> s_expires_at s > now \<and>
        u_status u = US_ACTIVE)"

definition activate ::
    "uuid \<Rightarrow> uuid \<Rightarrow> string \<Rightarrow> timestamp \<Rightarrow> timestamp \<Rightarrow> db \<Rightarrow>
     ops_error + (web_shell_session option \<times> db)" where
  "activate session_id auth_session_id owner_id now expires_at db =
     (let hit = (\<lambda>s. ws_id s = session_id \<and> ws_auth_session_id s = auth_session_id \<and>
                     ws_state s = WS_PENDING \<and> ws_ticket_expires_at s > now \<and>
                     auth_session_live now (ws_auth_session_id s) db);
          change = (\<lambda>s. s\<lparr>ws_state := WS_ACTIVE, ws_owner_id := Some owner_id,
             ws_connected_at := Some now, ws_last_activity_at := Some now,
             ws_lease_expires_at := expires_at\<rparr>);
          lock_hit = (\<lambda>l. hl_web_shell_session_id l = Some session_id \<and> hl_expires_at l > now)
      in case fetch_one hit (web_shell_sessions db) of
           None \<Rightarrow> Inr (None, db)
         | Some s \<Rightarrow>
             if length (filter lock_hit (host_execution_locks db)) \<noteq> 1
             then Inl (RuntimeErr ''Web Shell host lock was lost before connection'')
             else Inr (Some (change s),
                    db\<lparr>web_shell_sessions := update_where hit change (web_shell_sessions db),
                       host_execution_locks := update_where lock_hit
                         (\<lambda>l. l\<lparr>hl_owner_id := owner_id, hl_expires_at := expires_at\<rparr>)
                         (host_execution_locks db)\<rparr>))"

definition ws_heartbeat_row ::
    "uuid \<Rightarrow> string \<Rightarrow> timestamp \<Rightarrow> timestamp \<Rightarrow> timestamp \<Rightarrow> db \<Rightarrow> bool \<times> db" where
  "ws_heartbeat_row session_id owner_id now expires_at last_activity_at db =
     (let hit = (\<lambda>s. ws_id s = session_id \<and> ws_owner_id s = Some owner_id \<and>
                     ws_state s = WS_ACTIVE \<and> auth_session_live now (ws_auth_session_id s) db);
          refreshed = map ws_id (filter hit (web_shell_sessions db));
          lock_hit = (\<lambda>l. (case hl_web_shell_session_id l of None \<Rightarrow> False
                             | Some i \<Rightarrow> i \<in> set refreshed) \<and> hl_owner_id l = owner_id)
      in (refreshed \<noteq> [] \<and> filter lock_hit (host_execution_locks db) \<noteq> [],
          db\<lparr>web_shell_sessions := update_where hit
               (\<lambda>s. s\<lparr>ws_lease_expires_at := expires_at,
                       ws_last_activity_at := Some last_activity_at\<rparr>) (web_shell_sessions db),
             host_execution_locks := update_where lock_hit
               (\<lambda>l. l\<lparr>hl_expires_at := expires_at\<rparr>) (host_execution_locks db)\<rparr>))"

definition mark_close_requested ::
    "uuid \<Rightarrow> uuid \<Rightarrow> timestamp \<Rightarrow> db \<Rightarrow> web_shell_session option \<times> db" where
  "mark_close_requested session_id actor_user_id now db =
     (let hit = (\<lambda>s. ws_id s = session_id \<and> ws_actor_user_id s = actor_user_id \<and>
                     ws_state s = WS_ACTIVE);
          change = (\<lambda>s. s\<lparr>ws_state := WS_CLOSE_REQUESTED, ws_close_requested_at := Some now\<rparr>)
      in (map_option change (fetch_one hit (web_shell_sessions db)),
          db\<lparr>web_shell_sessions := update_where hit change (web_shell_sessions db)\<rparr>))"

definition ws_delete ::
    "uuid \<Rightarrow> string option \<Rightarrow> db \<Rightarrow> web_shell_session option \<times> db" where
  "ws_delete session_id owner_id db =
     (let hit = (\<lambda>s. ws_id s = session_id \<and>
                     (case owner_id of None \<Rightarrow> True | Some w \<Rightarrow> ws_owner_id s = Some w))
      in (fetch_one hit (web_shell_sessions db), delete_sessions hit db))"

section \<open>Service\<close>

definition WEB_SHELL_TICKET_SECONDS :: int where "WEB_SHELL_TICKET_SECONDS = 30"

definition WEB_SHELL_LEASE_SECONDS :: int where "WEB_SHELL_LEASE_SECONDS = 30"

text \<open>
  \<open>create\<close> first removes expired sessions, then checks the capacity, the host, its credential and
  its host keys, adds the session row and takes the host lock. The new id is \<open>uuid4()\<close>.
\<close>

definition ws_admission :: "env \<Rightarrow> db \<Rightarrow> db" where
  "ws_admission env db =
     (case cleanup_expired (e_now env) db of
        (recovered, db1) \<Rightarrow>
          if recovered \<noteq> 0
          then audit_append env WEB_SHELL_STALE_RECOVERED AO_SUCCEEDED SRC_API no_details db1
          else db1)"

definition ws_new_session ::
    "timestamp \<Rightarrow> uuid \<Rightarrow> session_principal \<Rightarrow> string \<Rightarrow> resolved_host \<Rightarrow> web_shell_session" where
  "ws_new_session now new_id actor owner_id target =
     \<lparr>ws_id = new_id, ws_host_id = rh_host_id target, ws_actor_user_id = sp_user_id actor,
      ws_auth_session_id = sp_session_id actor, ws_credential_id = rh_credential_id target,
      ws_credential_version = rh_credential_version target,
      ws_credential_type = rh_credential_type target, ws_host_name = rh_name target,
      ws_host_address = rh_address target, ws_ssh_port = rh_ssh_port target,
      ws_username = rh_credential_username target, ws_state = WS_PENDING,
      ws_api_instance_id = owner_id, ws_owner_id = None,
      ws_ticket_expires_at = now + seconds WEB_SHELL_TICKET_SECONDS,
      ws_lease_expires_at = now + seconds WEB_SHELL_TICKET_SECONDS,
      ws_connected_at = None, ws_last_activity_at = None, ws_close_requested_at = None,
      ws_created_at = now\<rparr>"

definition ws_audit_details :: "session_principal \<Rightarrow> uuid \<Rightarrow> audit_details" where
  "ws_audit_details actor session_id =
     no_details\<lparr>ad_actor_user_id := Some (sp_user_id actor),
       ad_session_id := Some (sp_session_id actor), ad_resource_type := Some ''web_shell_session'',
       ad_resource_id := Some session_id\<rparr>"

definition ws_create_body ::
    "settings \<Rightarrow> env \<Rightarrow> uuid \<Rightarrow> uuid \<Rightarrow> session_principal \<Rightarrow> string \<Rightarrow>
     (ops_error, db, web_shell_session) tx" where
  "ws_create_body cfg env new_id host_id actor owner_id db =
     (let now = e_now env;
          ticket_expires_at = now + seconds WEB_SHELL_TICKET_SECONDS;
          db1 = ws_admission env db
      in if count_live now db1 \<ge> set_web_shell_max_sessions cfg then Inl WebShellCapacityError
         else case get_host host_id db1 of
           None \<Rightarrow> Inl (NotFoundError ''host not found'')
         | Some host \<Rightarrow>
             if \<not> h_enabled host then Inl (ValidationError ''host is disabled'')
             else case resolve_host_ids [host_id] db1 of
               [target] \<Rightarrow>
                 if list_host_keys host_id db1 = []
                 then Inl (HostKeyConfirmationRequiredError [(host_id, rh_name target)])
                 else
                   let session = ws_new_session now new_id actor owner_id target
                   in case ws_add session db1 of
                        Inl e \<Rightarrow> Inl e
                      | Inr db2 \<Rightarrow>
                          (case acquire_host_lock host_id new_id (''pending:'' @ owner_id) now
                                  ticket_expires_at db2 of
                             (acquired, db3) \<Rightarrow>
                               if \<not> acquired then Inl HostBusyError
                               else Inr (session, audit_append env WEB_SHELL_REQUESTED AO_SUCCEEDED
                                      SRC_API (ws_audit_details actor new_id) db3))
             | _ \<Rightarrow> Inl (ValidationError ''host credential is missing or disabled''))"

definition ws_create ::
    "settings \<Rightarrow> env \<Rightarrow> uuid \<Rightarrow> uuid \<Rightarrow> session_principal \<Rightarrow> string \<Rightarrow> db \<Rightarrow>
     (ops_error + web_shell_session) \<times> db" where
  "ws_create cfg env new_id host_id actor owner_id db =
     (if \<not> permitted actor WEB_SHELL then (Inl PermissionDeniedError, db)
      else unit_of_work (ws_create_body cfg env new_id host_id actor owner_id) db)"

text \<open>
  \<open>claim\<close> exchanges a ticket for a launch: the stored credential is decrypted by
  \<open>CredentialCipher.decrypt\<close>, the argument \<open>decrypt\<close> here, whose \<open>ValueError\<close> becomes
  \<open>WebShellUnavailableError\<close>.
\<close>

type_synonym cipher_decrypt =
  "uuid \<Rightarrow> nat \<Rightarrow> bytes \<Rightarrow> nat \<Rightarrow> ops_error + (string \<times> string) list"

definition launch_secrets ::
    "credential_type \<Rightarrow> (string \<times> string) list \<Rightarrow>
     ops_error + (string option \<times> string option \<times> string option)" where
  "launch_secrets ty secret =
     (case ty of
        CT_PASSWORD \<Rightarrow>
          (case map_of secret ''password'' of
             Some p \<Rightarrow>
               if p = [] \<or> CHR 0x00 \<in> set p \<or> CHR 0x0A \<in> set p \<or> CHR 0x0D \<in> set p
               then Inl (WebShellUnavailableError ''credential password is unsupported for Web Shell'')
               else Inr (Some p, None, None)
           | None \<Rightarrow>
               Inl (WebShellUnavailableError ''credential password is unsupported for Web Shell''))
      | CT_SSH_PRIVATE_KEY \<Rightarrow>
          (case map_of secret ''privateKey'' of
             Some k \<Rightarrow>
               if k = [] \<or> CHR 0x00 \<in> set k
               then Inl (WebShellUnavailableError ''credential private key is unavailable'')
               else Inr (None, Some k, map_of secret ''passphrase'')
           | None \<Rightarrow> Inl (WebShellUnavailableError ''credential private key is unavailable'')))"

definition known_hosts_lines :: "web_shell_session \<Rightarrow> host_key list \<Rightarrow> string" where
  "known_hosts_lines s keys =
     (let marker = (if ws_ssh_port s = 22 then ws_host_address s
                    else ''['' @ ws_host_address s @ '']:'' @ str_nat (ws_ssh_port s))
      in concat (map (\<lambda>k. marker @ '' '' @ hk_algorithm k @ '' '' @ hk_public_key k @ [CHR 0x0A]) keys))"

definition ws_claim_body ::
    "cipher_decrypt \<Rightarrow> env \<Rightarrow> uuid \<Rightarrow> session_principal \<Rightarrow> string \<Rightarrow>
     (ops_error, db, web_shell_launch) tx" where
  "ws_claim_body decrypt env session_id actor owner_id db =
     (let now = e_now env;
          expires_at = now + seconds WEB_SHELL_LEASE_SECONDS
      in case ws_get session_id db of
           None \<Rightarrow> Inl WebShellSessionExpiredError
         | Some current \<Rightarrow>
             if ws_actor_user_id current \<noteq> sp_user_id actor
                \<or> ws_auth_session_id current \<noteq> sp_session_id actor
                \<or> ws_state current \<noteq> WS_PENDING \<or> ws_ticket_expires_at current \<le> now
             then Inl WebShellSessionExpiredError
             else case activate session_id (sp_session_id actor) owner_id now expires_at db of
               Inl e \<Rightarrow> Inl e
             | Inr (None, db1) \<Rightarrow> Inl WebShellSessionExpiredError
             | Inr (Some act, db1) \<Rightarrow>
                 (case get_credential_revision (ws_credential_id act) (ws_credential_version act) db1 of
                    None \<Rightarrow> Inl (WebShellUnavailableError ''credential revision is unavailable'')
                  | Some revision \<Rightarrow>
                      (case decrypt (cr_credential_id revision) (cr_version revision) (cr_encrypted_secret revision)
                              (cr_key_version revision) of
                         Inl (ValueErr m) \<Rightarrow>
                           Inl (WebShellUnavailableError ''credential key version is unavailable'')
                       | Inl e \<Rightarrow> Inl e
                       | Inr secret \<Rightarrow>
                           (case launch_secrets (ws_credential_type act) secret of
                              Inl e \<Rightarrow> Inl e
                            | Inr (password, private_key, passphrase) \<Rightarrow>
                                (case list_host_keys (ws_host_id act) db1 of
                                   [] \<Rightarrow> Inl (HostKeyConfirmationRequiredError
                                               [(ws_host_id act, ws_host_name act)])
                                 | keys \<Rightarrow>
                                     Inr (\<lparr>la_session = act, la_password = password,
                                           la_private_key = private_key, la_passphrase = passphrase,
                                           la_known_hosts = known_hosts_lines act keys\<rparr>,
                                          audit_append env WEB_SHELL_STARTED AO_SUCCEEDED SRC_API
                                            (ws_audit_details actor session_id) db1))))))"

definition ws_claim ::
    "cipher_decrypt \<Rightarrow> env \<Rightarrow> uuid \<Rightarrow> session_principal \<Rightarrow> string \<Rightarrow> db \<Rightarrow>
     (ops_error + web_shell_launch) \<times> db" where
  "ws_claim decrypt env session_id actor owner_id db =
     (if \<not> permitted actor WEB_SHELL then (Inl PermissionDeniedError, db)
      else unit_of_work (ws_claim_body decrypt env session_id actor owner_id) db)"

text \<open>\<open>None\<close> tells the terminal to go on, a reason tells it to close.\<close>

definition ws_heartbeat ::
    "env \<Rightarrow> uuid \<Rightarrow> string \<Rightarrow> timestamp \<Rightarrow> db \<Rightarrow> web_shell_close_reason option \<times> db" where
  "ws_heartbeat env session_id owner_id last_activity_at db =
     (case ws_heartbeat_row session_id owner_id (e_now env)
             (e_now env + seconds WEB_SHELL_LEASE_SECONDS) last_activity_at db of
        (refreshed, db1) \<Rightarrow>
          (if refreshed then None
           else case ws_get session_id db1 of
             Some current \<Rightarrow>
               if ws_owner_id current = Some owner_id \<and> ws_state current = WS_CLOSE_REQUESTED
               then Some USER_REQUESTED else Some AUTH_SESSION_INVALID
           | None \<Rightarrow> Some AUTH_SESSION_INVALID,
           db1))"

definition close_timed_out :: "web_shell_close_reason \<Rightarrow> bool" where
  "close_timed_out reason \<longleftrightarrow> reason \<in> {IDLE_TIMEOUT, MAX_DURATION}"

definition close_failed :: "web_shell_close_reason \<Rightarrow> bool" where
  "close_failed reason \<longleftrightarrow>
     reason \<in> {AUTH_SESSION_INVALID, DATABASE_UNAVAILABLE, START_FAILED, PROTOCOL_ERROR, SLOW_CONSUMER}"

fun close_reason_folded :: "web_shell_close_reason \<Rightarrow> string" where
  "close_reason_folded CLIENT_DISCONNECTED = ''client_disconnected''"
| "close_reason_folded USER_REQUESTED = ''user_requested''"
| "close_reason_folded REMOTE_EXIT = ''remote_exit''"
| "close_reason_folded IDLE_TIMEOUT = ''idle_timeout''"
| "close_reason_folded MAX_DURATION = ''max_duration''"
| "close_reason_folded AUTH_SESSION_INVALID = ''auth_session_invalid''"
| "close_reason_folded DATABASE_UNAVAILABLE = ''database_unavailable''"
| "close_reason_folded SERVER_SHUTDOWN = ''server_shutdown''"
| "close_reason_folded START_FAILED = ''start_failed''"
| "close_reason_folded PROTOCOL_ERROR = ''protocol_error''"
| "close_reason_folded SLOW_CONSUMER = ''slow_consumer''"

definition ws_finished_event :: "env \<Rightarrow> web_shell_session \<Rightarrow> web_shell_close_reason \<Rightarrow> db \<Rightarrow> db" where
  "ws_finished_event env s reason =
     (let timed_out = close_timed_out reason;
          failed = close_failed reason;
          bad = (failed \<or> timed_out)
      in audit_append env
           (if timed_out then WEB_SHELL_TIMED_OUT
            else if failed then WEB_SHELL_FAILED else WEB_SHELL_CLOSED)
           (if bad then AO_FAILED else AO_SUCCEEDED) SRC_API
           (no_details\<lparr>ad_severity := (if bad then SEV_WARNING else SEV_INFO),
              ad_actor_user_id := Some (ws_actor_user_id s),
              ad_session_id := Some (ws_auth_session_id s),
              ad_resource_type := Some ''web_shell_session'', ad_resource_id := Some (ws_id s),
              ad_error_code := (if bad then Some (close_reason_folded reason) else None),
              ad_failure_stage := (if bad then Some ''web_shell_session'' else None),
              ad_retryable := Some (reason = DATABASE_UNAVAILABLE)\<rparr>))"

definition ws_request_close :: "env \<Rightarrow> uuid \<Rightarrow> session_principal \<Rightarrow> db \<Rightarrow> db" where
  "ws_request_close env session_id actor db =
     (case ws_get session_id db of
        None \<Rightarrow> db
      | Some current \<Rightarrow>
          if ws_actor_user_id current \<noteq> sp_user_id actor then db
          else case ws_state current of
            WS_PENDING \<Rightarrow>
              ws_finished_event env current USER_REQUESTED (snd (ws_delete session_id None db))
          | WS_ACTIVE \<Rightarrow>
              (case mark_close_requested session_id (sp_user_id actor) (e_now env) db of
                 (Some _, db1) \<Rightarrow> audit_append env WEB_SHELL_CLOSE_REQUESTED AO_SUCCEEDED SRC_API
                                   (ws_audit_details actor session_id) db1
               | (None, db1) \<Rightarrow> db1)
          | WS_CLOSE_REQUESTED \<Rightarrow> db)"

definition ws_finish :: "env \<Rightarrow> uuid \<Rightarrow> string \<Rightarrow> web_shell_close_reason \<Rightarrow> db \<Rightarrow> db" where
  "ws_finish env session_id owner_id reason db =
     (case ws_delete session_id (Some owner_id) db of
        (None, db1) \<Rightarrow> db1
      | (Some current, db1) \<Rightarrow> ws_finished_event env current reason db1)"

definition discard_failed_claim ::
    "env \<Rightarrow> uuid \<Rightarrow> string \<Rightarrow> web_shell_close_reason \<Rightarrow> db \<Rightarrow> db" where
  "discard_failed_claim = ws_finish"

definition ws_recover_stale :: "env \<Rightarrow> db \<Rightarrow> nat \<times> db" where
  "ws_recover_stale env db =
     (case cleanup_expired (e_now env) db of
        (count, db1) \<Rightarrow>
          (count, if count \<noteq> 0
                  then audit_append env WEB_SHELL_STALE_RECOVERED AO_SUCCEEDED SRC_SYSTEM no_details db1
                  else db1))"

end
