(* ===== verification/Run_Invariant.thy ===== *)
theory Run_Invariant
  imports Run_Service Worker_Coordinator Web_Shell
begin

text \<open>
  The invariant of the run queue, the worker leases, the host locks and the Web Shell sessions,
  and that every repository operation keeps it: primary and unique keys, the columns a run's status
  allows, target statuses against run statuses, the owner and the expiry of every lock, and
  gapless event sequences.
\<close>

section \<open>The invariant\<close>

definition lease_of :: "string \<Rightarrow> db \<Rightarrow> worker_lease option" where
  "lease_of w db = fetch_one (\<lambda>l. wl_worker_id l = w) (worker_leases db)"

definition target_pairs :: "db \<Rightarrow> (uuid \<times> uuid) set" where
  "target_pairs db = set (map (\<lambda>t. (t_run_id t, t_host_id t)) (run_targets db))"

definition keys_ok :: "db \<Rightarrow> bool" where
  "keys_ok db \<longleftrightarrow>
     distinct (map r_id (runs db)) \<and>
     distinct (map (\<lambda>r. (r_requested_by r, r_idempotency_key r)) (runs db)) \<and>
     distinct (map t_id (run_targets db)) \<and>
     distinct (map (\<lambda>t. (t_run_id t, t_host_id t)) (run_targets db)) \<and>
     distinct (map hl_host_id (host_execution_locks db)) \<and>
     distinct (map wl_worker_id (worker_leases db)) \<and>
     distinct (map ws_id (web_shell_sessions db))"

definition run_row_ok :: "run \<Rightarrow> bool" where
  "run_row_ok r \<longleftrightarrow>
     (r_status r = RS_QUEUED \<longrightarrow> r_claimed_by r = None \<and> r_finished_at r = None) \<and>
     (active (r_status r) \<longrightarrow> r_claimed_by r \<noteq> None \<and> r_finished_at r = None) \<and>
     (terminal (r_status r) \<longrightarrow> r_finished_at r \<noteq> None) \<and>
     (r_claimed_by r = None \<longrightarrow> r_status r \<in> {RS_QUEUED, RS_CANCELED}) \<and>
     1 \<le> r_timeout_seconds r \<and> r_timeout_seconds r \<le> 86400 \<and> 1 \<le> r_next_event_sequence r"

definition rows_ok :: "db \<Rightarrow> bool" where
  "rows_ok db \<longleftrightarrow> (\<forall>r \<in> set (runs db). run_row_ok r)"

definition target_fits :: "run_status \<Rightarrow> run_target_status \<Rightarrow> bool" where
  "target_fits rs ts \<longleftrightarrow>
     (rs = RS_QUEUED \<longrightarrow> ts = TS_PENDING) \<and> (terminal rs \<longrightarrow> ts \<noteq> TS_PENDING \<and> ts \<noteq> TS_RUNNING)"

definition targets_ok :: "db \<Rightarrow> bool" where
  "targets_ok db \<longleftrightarrow>
     (\<forall>t \<in> set (run_targets db).
        case get_run (t_run_id t) db of None \<Rightarrow> False | Some r \<Rightarrow> target_fits (r_status r) (t_status t))"

text \<open>
  A lock belongs to a run or to a session. A run's lock names one of its target hosts and the worker
  that claimed it, and expires with that worker's lease; a session's lock names the session's host
  and expires with the session.
\<close>

definition run_lock_ok :: "db \<Rightarrow> uuid \<Rightarrow> host_lock \<Rightarrow> bool" where
  "run_lock_ok db i l \<longleftrightarrow>
     (case get_run i db of
        None \<Rightarrow> False
      | Some r \<Rightarrow> active (r_status r) \<and> r_claimed_by r = Some (hl_owner_id l)) \<and>
     (i, hl_host_id l) \<in> target_pairs db \<and>
     (case lease_of (hl_owner_id l) db of
        None \<Rightarrow> False | Some w \<Rightarrow> wl_expires_at w = hl_expires_at l)"

definition session_lock_ok :: "db \<Rightarrow> uuid \<Rightarrow> host_lock \<Rightarrow> bool" where
  "session_lock_ok db i l \<longleftrightarrow>
     (case ws_get i db of
        None \<Rightarrow> False
      | Some s \<Rightarrow> ws_host_id s = hl_host_id l \<and> hl_expires_at l = ws_deadline s \<and>
          (ws_state s \<noteq> WS_PENDING \<longrightarrow> ws_owner_id s = Some (hl_owner_id l)))"

definition lock_ok :: "db \<Rightarrow> host_lock \<Rightarrow> bool" where
  "lock_ok db l =
     (case (hl_run_id l, hl_web_shell_session_id l) of
        (Some i, None) \<Rightarrow> run_lock_ok db i l
      | (None, Some i) \<Rightarrow> session_lock_ok db i l
      | _ \<Rightarrow> False)"

definition locks_ok :: "db \<Rightarrow> bool" where
  "locks_ok db \<longleftrightarrow> (\<forall>l \<in> set (host_execution_locks db). lock_ok db l)"

definition events_ok :: "db \<Rightarrow> bool" where
  "events_ok db \<longleftrightarrow>
     (\<forall>i. map ev_sequence (filter (\<lambda>e. ev_run_id e = i) (run_events db)) =
        (case get_run i db of None \<Rightarrow> [] | Some r \<Rightarrow> [1..<r_next_event_sequence r]))"

definition run_inv :: "db \<Rightarrow> bool" where
  "run_inv db \<longleftrightarrow> keys_ok db \<and> rows_ok db \<and> targets_ok db \<and> locks_ok db \<and> events_ok db"

text \<open>The six tables the invariant speaks about.\<close>

definition same_run_tables :: "db \<Rightarrow> db \<Rightarrow> bool" where
  "same_run_tables db db' \<longleftrightarrow>
     runs db' = runs db \<and> run_targets db' = run_targets db \<and> run_events db' = run_events db \<and>
     worker_leases db' = worker_leases db \<and>
     host_execution_locks db' = host_execution_locks db \<and>
     web_shell_sessions db' = web_shell_sessions db"

lemmas inv_part_defs = run_inv_def keys_ok_def rows_ok_def targets_ok_def locks_ok_def
  lock_ok_def run_lock_ok_def session_lock_ok_def events_ok_def

lemma lock_ok_cong: "same_run_tables db db' \<Longrightarrow> lock_ok db' = lock_ok db"
proof -
  assume "same_run_tables db db'"
  then have "run_lock_ok db' = run_lock_ok db" "session_lock_ok db' = session_lock_ok db"
    by (simp_all add: fun_eq_iff same_run_tables_def run_lock_ok_def session_lock_ok_def get_run_def
        lease_of_def ws_get_def target_pairs_def)
  then show ?thesis by (intro ext) (simp add: lock_ok_def split: option.splits)
qed

lemma run_inv_cong: "same_run_tables db db' \<Longrightarrow> run_inv db' = run_inv db"
  using lock_ok_cong [of db db']
  by (simp add: same_run_tables_def run_inv_def keys_ok_def rows_ok_def targets_ok_def locks_ok_def
      events_ok_def get_run_def)

lemma same_run_tables_refl [simp]: "same_run_tables db db"
  by (simp add: same_run_tables_def)

lemma same_run_tables_audit [simp]: "same_run_tables db (audit_append env act outcome src d db)"
  by (simp add: same_run_tables_def)

lemma run_inv_audit [simp]: "run_inv (audit_append env act outcome src d db) = run_inv db"
  by (rule run_inv_cong) simp

lemma run_inv_empty: "run_inv empty_db"
  by (simp add: inv_part_defs empty_db_def get_run_def)

section \<open>Lookups\<close>

lemma get_run_update:
  assumes "runs db' = update_where p f (runs db)" and "\<And>r. r_id (f r) = r_id r"
  shows "get_run i db' = map_option (\<lambda>r. if p r then f r else r) (get_run i db)"
  unfolding get_run_def assms(1) by (rule lookup_update_where) (rule assms(2))

lemma get_run_cong: "runs db' = runs db \<Longrightarrow> get_run i db' = get_run i db"
  by (simp add: get_run_def)

lemma get_run_Some_iff:
  "keys_ok db \<Longrightarrow> get_run i db = Some r \<longleftrightarrow> r \<in> set (runs db) \<and> r_id r = i"
  unfolding get_run_def keys_ok_def by (intro lookup_Some_iff) blast

lemma get_run_SomeD: "get_run i db = Some r \<Longrightarrow> r \<in> set (runs db) \<and> r_id r = i"
  by (auto simp: get_run_def dest: fetch_one_SomeD)

lemma ws_get_update:
  assumes "web_shell_sessions db' = update_where p f (web_shell_sessions db)" and "\<And>s. ws_id (f s) = ws_id s"
  shows "ws_get i db' = map_option (\<lambda>s. if p s then f s else s) (ws_get i db)"
  unfolding ws_get_def assms(1) by (rule lookup_update_where) (rule assms(2))

lemma lease_of_update:
  assumes "worker_leases db' = update_where p f (worker_leases db)" and "\<And>l. wl_worker_id (f l) = wl_worker_id l"
  shows "lease_of w db' = map_option (\<lambda>l. if p l then f l else l) (lease_of w db)"
  unfolding lease_of_def assms(1) by (rule lookup_update_where) (rule assms(2))

lemma target_pairs_update:
  assumes "run_targets db' = update_where p f (run_targets db)"
    and "\<And>t. t_run_id (f t) = t_run_id t" and "\<And>t. t_host_id (f t) = t_host_id t"
  shows "target_pairs db' = target_pairs db"
proof -
  have "map (\<lambda>t. (t_run_id t, t_host_id t)) (run_targets db') = map (\<lambda>t. (t_run_id t, t_host_id t)) (run_targets db)"
    unfolding assms(1) by (rule map_key_update_where) (simp add: assms(2,3))
  then show ?thesis by (simp add: target_pairs_def)
qed

lemma lease_of_heartbeat:
  "lease_of w' (heartbeat w run_id now expires db) =
     (if w' = w then Some \<lparr>wl_worker_id = w, wl_run_id = run_id, wl_heartbeat_at = now, wl_expires_at = expires\<rparr>
      else lease_of w' db)"
proof (cases "w \<in> set (map wl_worker_id (worker_leases db))")
  case True
  let ?f = "\<lambda>l. l\<lparr>wl_run_id := run_id, wl_heartbeat_at := now, wl_expires_at := expires\<rparr>"
  have "lease_of w' (heartbeat w run_id now expires db) =
      map_option (\<lambda>l. if wl_worker_id l = w then ?f l else l) (lease_of w' db)"
    by (rule lease_of_update) (use True in \<open>simp_all add: heartbeat_def Let_def\<close>)
  moreover have "\<exists>l. lease_of w db = Some l \<and> wl_worker_id l = w"
  proof -
    have "lease_of w db \<noteq> None" using True by (auto simp: lease_of_def fetch_one_None_iff)
    then show ?thesis by (auto simp: lease_of_def dest: fetch_one_SomeD)
  qed
  ultimately show ?thesis by (cases "lease_of w' db") (auto simp: lease_of_def dest: fetch_one_SomeD)
next
  case False
  then have "lease_of w db = None" by (auto simp: lease_of_def fetch_one_None_iff)
  then show ?thesis using False
    by (auto simp: lease_of_def heartbeat_def Let_def fetch_one_append split: option.splits)
qed

lemma run_invI [intro?]:
  "\<lbrakk>keys_ok db; rows_ok db; targets_ok db; locks_ok db; events_ok db\<rbrakk> \<Longrightarrow> run_inv db"
  by (simp add: run_inv_def)

lemma run_invD:
  assumes "run_inv db"
  shows "keys_ok db" "rows_ok db" "targets_ok db" "locks_ok db" "events_ok db"
  using assms by (simp_all add: run_inv_def)

text \<open>A run's lock stays good when its run row, its targets and its owner's lease do.\<close>

lemma run_lock_ok_mono:
  assumes "run_lock_ok db i l" and "hl_host_id l' = hl_host_id l" and "hl_owner_id l' = hl_owner_id l"
    and "\<And>r. get_run i db = Some r \<Longrightarrow> active (r_status r) \<Longrightarrow> r_claimed_by r = Some (hl_owner_id l) \<Longrightarrow>
           \<exists>r'. get_run i db' = Some r' \<and> active (r_status r') \<and> r_claimed_by r' = r_claimed_by r"
    and "target_pairs db \<subseteq> target_pairs db'"
    and "\<And>w. lease_of (hl_owner_id l) db = Some w \<Longrightarrow> wl_expires_at w = hl_expires_at l \<Longrightarrow>
           \<exists>w'. lease_of (hl_owner_id l) db' = Some w' \<and> wl_expires_at w' = hl_expires_at l'"
  shows "run_lock_ok db' i l'"
proof -
  obtain r where r: "get_run i db = Some r" "active (r_status r)" "r_claimed_by r = Some (hl_owner_id l)"
    using assms(1) by (auto simp: run_lock_ok_def split: option.splits)
  obtain w where w: "lease_of (hl_owner_id l) db = Some w" "wl_expires_at w = hl_expires_at l"
    using assms(1) by (auto simp: run_lock_ok_def split: option.splits)
  obtain r' where "get_run i db' = Some r'" "active (r_status r')" "r_claimed_by r' = r_claimed_by r"
    using assms(4) r by blast
  moreover obtain w' where "lease_of (hl_owner_id l) db' = Some w'" "wl_expires_at w' = hl_expires_at l'"
    using assms(6) w by blast
  moreover have "(i, hl_host_id l) \<in> target_pairs db'"
    using assms(1,5) by (auto simp: run_lock_ok_def)
  ultimately show ?thesis using r assms(2,3) by (simp add: run_lock_ok_def)
qed

section \<open>Heartbeats\<close>

lemma heartbeat_tables [simp]:
  "runs (heartbeat w run_id now e db) = runs db"
  "run_targets (heartbeat w run_id now e db) = run_targets db"
  "run_events (heartbeat w run_id now e db) = run_events db"
  "web_shell_sessions (heartbeat w run_id now e db) = web_shell_sessions db"
  "host_execution_locks (heartbeat w run_id now e db) =
     update_where (\<lambda>l. hl_owner_id l = w \<and> hl_run_id l \<noteq> None) (\<lambda>l. l\<lparr>hl_expires_at := e\<rparr>)
       (host_execution_locks db)"
  by (simp_all add: heartbeat_def Let_def)

lemma heartbeat_locks_ok:
  assumes "locks_ok db"
  shows "locks_ok (heartbeat w run_id now e db)"
  unfolding locks_ok_def
proof
  let ?db = "heartbeat w run_id now e db"
  fix l' assume "l' \<in> set (host_execution_locks ?db)"
  then obtain l where l: "l \<in> set (host_execution_locks db)"
    and l': "l' = (if hl_owner_id l = w \<and> hl_run_id l \<noteq> None then l\<lparr>hl_expires_at := e\<rparr> else l)"
    by (auto simp: set_update_where)
  have ok: "lock_ok db l" using assms l by (simp add: locks_ok_def)
  show "lock_ok ?db l'"
  proof (cases "hl_run_id l")
    case None
    then show ?thesis using ok l'
      by (auto simp: lock_ok_def session_lock_ok_def ws_get_def split: option.splits)
  next
    case (Some i)
    then have "hl_web_shell_session_id l = None" "run_lock_ok db i l"
      using ok by (auto simp: lock_ok_def split: option.splits)
    moreover have "run_lock_ok ?db i l'" if "run_lock_ok db i l"
      using that l' Some
      by (intro run_lock_ok_mono [OF that]) (auto simp: get_run_def target_pairs_def lease_of_heartbeat)
    ultimately show ?thesis using Some l' by (auto simp: lock_ok_def)
  qed
qed

lemma heartbeat_inv [inv_intros]:
  assumes "run_inv db"
  shows "run_inv (heartbeat w run_id now e db)"
proof
  note D = run_invD [OF assms]
  show "keys_ok (heartbeat w run_id now e db)"
    using D(1) by (auto simp: keys_ok_def heartbeat_def Let_def map_key_update_where)
  show "locks_ok (heartbeat w run_id now e db)" using D(4) by (rule heartbeat_locks_ok)
qed (use run_invD [OF assms] in \<open>simp_all add: rows_ok_def targets_ok_def events_ok_def get_run_def\<close>)

section \<open>Cancellation\<close>

lemma lookup_filter:
  assumes "distinct (map key rows)"
  shows "fetch_one (\<lambda>r. key r = k \<and> q r) rows =
     (case fetch_one (\<lambda>r. key r = k) rows of None \<Rightarrow> None | Some r \<Rightarrow> if q r then Some r else None)"
  using assms
proof (induction rows)
  case (Cons r rows)
  have "key x \<noteq> key r" if "x \<in> set rows" for x
    using Cons.prems that by (metis distinct.simps(2) image_eqI list.simps(9) list.set_map)
  then have "fetch_one (\<lambda>x. key x = key r \<and> q x) rows = None" by (simp add: fetch_one_None_iff)
  then show ?case using Cons by auto
qed simp

lemma get_run_filter:
  assumes "keys_ok db"
  shows "fetch_one (\<lambda>r. r_id r = i \<and> q r) (runs db) =
     (case get_run i db of None \<Rightarrow> None | Some r \<Rightarrow> if q r then Some r else None)"
  unfolding get_run_def using assms by (intro lookup_filter) (simp add: keys_ok_def)

lemma get_run_unique:
  "\<lbrakk>keys_ok db; get_run i db = Some r; x \<in> set (runs db); r_id x = i\<rbrakk> \<Longrightarrow> x = r"
  by (metis get_run_Some_iff option.inject)

lemma get_run_NoneD: "get_run i db = None \<Longrightarrow> x \<in> set (runs db) \<Longrightarrow> r_id x \<noteq> i"
  by (auto simp: get_run_def fetch_one_None_iff)

text \<open>An \<open>UPDATE runs .. WHERE run_id = i AND ..\<close> changes one row or none.\<close>

lemma update_one_run:
  assumes "keys_ok db"
  shows "update_where (\<lambda>r. r_id r = i \<and> q r) f (runs db) =
     (case get_run i db of
        None \<Rightarrow> runs db
      | Some r \<Rightarrow> if q r then update_where (\<lambda>x. r_id x = i) f (runs db) else runs db)"
proof (cases "get_run i db")
  case None
  then show ?thesis using get_run_NoneD [OF None] by (simp add: update_where_id)
next
  case (Some r)
  have "update_where (\<lambda>r. r_id r = i \<and> q r) f (runs db) =
      update_where (\<lambda>x. r_id x = i) f (runs db)" if "q r"
    unfolding update_where_def by (intro map_cong refl) (use that get_run_unique [OF assms Some] in auto)
  moreover have "update_where (\<lambda>r. r_id r = i \<and> q r) f (runs db) = runs db" if "\<not> q r"
    by (intro update_where_id) (use that get_run_unique [OF assms Some] in auto)
  ultimately show ?thesis using Some by simp
qed

definition cancel_row :: "timestamp \<Rightarrow> run \<Rightarrow> run" where
  "cancel_row now r = r\<lparr>r_cancel_requested_at := Some now,
     r_status := (if r_status r = RS_QUEUED then RS_CANCELED else r_status r),
     r_finished_at := (if r_status r = RS_QUEUED then Some now else r_finished_at r),
     r_updated_at := now\<rparr>"

lemma request_cancel_eq:
  assumes "keys_ok db"
  shows "request_cancel run_id now db =
     (case get_run run_id db of
        Some r \<Rightarrow>
          if r_status r \<in> {RS_QUEUED, RS_PREPARING, RS_RUNNING}
          then (Some (cancel_row now r),
                db\<lparr>runs := update_where (\<lambda>x. r_id x = run_id) (cancel_row now) (runs db),
                   run_targets := (if r_status r = RS_QUEUED
                     then update_where (\<lambda>t. t_run_id t = run_id \<and> t_status t = TS_PENDING)
                            (\<lambda>t. t\<lparr>t_status := TS_CANCELED, t_finished_at := Some now\<rparr>) (run_targets db)
                     else run_targets db)\<rparr>)
          else (None, db)
      | None \<Rightarrow> (None, db))"
proof -
  let ?q = "\<lambda>r. r_status r \<in> {RS_QUEUED, RS_PREPARING, RS_RUNNING}"
  have change: "(\<lambda>r. r\<lparr>r_cancel_requested_at := Some now,
             r_status := (if r_status r = RS_QUEUED then RS_CANCELED else r_status r),
             r_finished_at := (if r_status r = RS_QUEUED then Some now else r_finished_at r),
             r_updated_at := now\<rparr>) = cancel_row now"
    by (simp add: fun_eq_iff cancel_row_def)
  show ?thesis
    unfolding request_cancel_def change Let_def get_run_filter [OF assms, of run_id ?q]
      update_one_run [OF assms, of run_id ?q]
    by (auto simp: cancel_row_def split: option.splits)
qed

section \<open>Changing one run\<close>

text \<open>
  The shape of every operation on an existing run: its row changes, some of its targets change
  status, some locks are dropped and some leases change other columns than their expiry.
\<close>

lemma change_run_core:
  assumes inv: "run_inv db" and r: "get_run i db = Some r"
    and runs': "runs db' = update_where (\<lambda>x. r_id x = i) f (runs db)"
    and f: "\<And>x. r_id (f x) = r_id x" "\<And>x. r_requested_by (f x) = r_requested_by x"
      "\<And>x. r_idempotency_key (f x) = r_idempotency_key x"
    and row: "run_row_ok r \<Longrightarrow> run_row_ok (f r)"
    and targets': "run_targets db' = update_where p g (run_targets db)"
    and g: "\<And>t. t_id (g t) = t_id t" "\<And>t. t_run_id (g t) = t_run_id t" "\<And>t. t_host_id (g t) = t_host_id t"
    and p: "\<And>t. t \<in> set (run_targets db) \<Longrightarrow> p t \<Longrightarrow> t_run_id t = i"
    and fits: "\<And>t. \<lbrakk>t \<in> set (run_targets db); t_run_id t = i; target_fits (r_status r) (t_status t)\<rbrakk> \<Longrightarrow>
        target_fits (r_status (f r)) (t_status (if p t then g t else t))"
    and same: "web_shell_sessions db' = web_shell_sessions db"
    and leases': "worker_leases db' = update_where pw gw (worker_leases db)"
    and gw: "\<And>l. wl_worker_id (gw l) = wl_worker_id l" "\<And>l. wl_expires_at (gw l) = wl_expires_at l"
    and locks': "set (host_execution_locks db') \<subseteq> set (host_execution_locks db)"
      "distinct (map hl_host_id (host_execution_locks db'))"
    and lockrun: "\<And>l. l \<in> set (host_execution_locks db') \<Longrightarrow> hl_run_id l = Some i \<Longrightarrow>
        active (r_status (f r)) \<and> r_claimed_by (f r) = r_claimed_by r"
  shows "keys_ok db'" and "rows_ok db'" and "targets_ok db'" and "locks_ok db'"
    and "\<And>j. get_run j db' = (if j = i then Some (f r) else get_run j db)"
proof -
  note D = run_invD [OF inv]
  have get: "get_run j db' = map_option (\<lambda>x. if r_id x = i then f x else x) (get_run j db)" for j
    by (rule get_run_update [OF runs' f(1)])
  have get': "get_run j db' = (if j = i then Some (f r) else get_run j db)" for j
  proof (cases "get_run j db")
    case None
    then show ?thesis using get [of j] r by auto
  next
    case (Some x)
    then have "r_id x = j" by (auto dest: get_run_SomeD)
    then show ?thesis using get [of j] r Some by auto
  qed
  show "keys_ok db'"
    using D(1) locks'(2) same f g gw
    by (simp add: keys_ok_def runs' targets' leases' map_key_update_where)
  show "rows_ok db'"
    unfolding rows_ok_def
  proof
    fix x' assume "x' \<in> set (runs db')"
    then obtain x where x: "x \<in> set (runs db)" "x' = (if r_id x = i then f x else x)"
      by (auto simp: runs' set_update_where)
    then show "run_row_ok x'"
      using D(2) row get_run_unique [OF D(1) r x(1)] by (auto simp: rows_ok_def)
  qed
  show "targets_ok db'"
    unfolding targets_ok_def
  proof
    fix t' assume "t' \<in> set (run_targets db')"
    then obtain t where t: "t \<in> set (run_targets db)" "t' = (if p t then g t else t)"
      by (auto simp: targets' set_update_where)
    have "case get_run (t_run_id t) db of None \<Rightarrow> False | Some x \<Rightarrow> target_fits (r_status x) (t_status t)"
      using D(3) t(1) by (auto simp: targets_ok_def)
    moreover have "t_run_id t' = t_run_id t" using t(2) g(2) by simp
    ultimately show "case get_run (t_run_id t') db' of None \<Rightarrow> False | Some x \<Rightarrow> target_fits (r_status x) (t_status t')"
      using get' r fits [OF t(1)] t(2) p [OF t(1)] by (auto split: option.splits)
  qed
  show "locks_ok db'"
    unfolding locks_ok_def
  proof
    fix l assume l: "l \<in> set (host_execution_locks db')"
    then have ok: "lock_ok db l" using D(4) locks'(1) by (auto simp: locks_ok_def)
    have "run_lock_ok db' j l" if "run_lock_ok db j l" and "hl_run_id l = Some j" for j
      using lockrun [OF l] that
      by (intro run_lock_ok_mono [OF that(1)])
        (auto simp: get' r target_pairs_update [OF targets' g(2,3)] lease_of_update [OF leases' gw(1)] gw(2))
    moreover have "session_lock_ok db' j l = session_lock_ok db j l" for j
      by (simp add: session_lock_ok_def ws_get_def same)
    ultimately show "lock_ok db' l" using ok by (auto simp: lock_ok_def split: option.splits)
  qed
  show "get_run j db' = (if j = i then Some (f r) else get_run j db)" for j by (rule get')
qed

lemma change_run_inv:
  assumes inv: "run_inv db" and r: "get_run i db = Some r"
    and runs': "runs db' = update_where (\<lambda>x. r_id x = i) f (runs db)"
    and f: "\<And>x. r_id (f x) = r_id x" "\<And>x. r_requested_by (f x) = r_requested_by x"
      "\<And>x. r_idempotency_key (f x) = r_idempotency_key x"
      "\<And>x. r_next_event_sequence (f x) = r_next_event_sequence x"
    and row: "run_row_ok r \<Longrightarrow> run_row_ok (f r)"
    and targets': "run_targets db' = update_where p g (run_targets db)"
    and g: "\<And>t. t_id (g t) = t_id t" "\<And>t. t_run_id (g t) = t_run_id t" "\<And>t. t_host_id (g t) = t_host_id t"
    and p: "\<And>t. t \<in> set (run_targets db) \<Longrightarrow> p t \<Longrightarrow> t_run_id t = i"
    and fits: "\<And>t. \<lbrakk>t \<in> set (run_targets db); t_run_id t = i; target_fits (r_status r) (t_status t)\<rbrakk> \<Longrightarrow>
        target_fits (r_status (f r)) (t_status (if p t then g t else t))"
    and same: "run_events db' = run_events db" "web_shell_sessions db' = web_shell_sessions db"
    and leases': "worker_leases db' = update_where pw gw (worker_leases db)"
    and gw: "\<And>l. wl_worker_id (gw l) = wl_worker_id l" "\<And>l. wl_expires_at (gw l) = wl_expires_at l"
    and locks': "set (host_execution_locks db') \<subseteq> set (host_execution_locks db)"
      "distinct (map hl_host_id (host_execution_locks db'))"
    and lockrun: "\<And>l. l \<in> set (host_execution_locks db') \<Longrightarrow> hl_run_id l = Some i \<Longrightarrow>
        active (r_status (f r)) \<and> r_claimed_by (f r) = r_claimed_by r"
  shows "run_inv db'"
proof
  note core = change_run_core [OF inv r runs' f(1-3) row targets' g p fits same(2) leases' gw locks' lockrun]
  show "keys_ok db'" "rows_ok db'" "targets_ok db'" "locks_ok db'" by (rule core; assumption)+
  show "events_ok db'"
    using run_invD(5) [OF inv] f(4) r by (auto simp: events_ok_def same core(5) split: option.splits)
qed

lemma update_where_conj:
  "update_where (\<lambda>r. a r \<and> b r) f rows = update_where a (\<lambda>r. if b r then f r else r) rows"
  by (simp add: update_where_def)

lemma update_where_False: "update_where (\<lambda>_. False) f rows = rows"
  by (simp add: update_where_id)

lemmas status_simps = run_row_ok_def target_fits_def terminal_iff

lemma run_row_ok_status:
  assumes "run_row_ok r" and "get_run i db = Some r"
  shows "r_claimed_by r \<noteq> None \<Longrightarrow> r_status r \<noteq> RS_QUEUED"
  using assms by (auto simp: run_row_ok_def)

lemma run_inv_row: "run_inv db \<Longrightarrow> get_run i db = Some r \<Longrightarrow> run_row_ok r"
  by (auto simp: run_inv_def rows_ok_def dest: get_run_SomeD)

lemma run_lock_active:
  assumes "run_inv db" and "l \<in> set (host_execution_locks db)" and "hl_run_id l = Some i"
    and "get_run i db = Some r"
  shows "active (r_status r)" and "r_claimed_by r = Some (hl_owner_id l)"
proof -
  have "lock_ok db l" using run_invD(4) [OF assms(1)] assms(2) by (simp add: locks_ok_def)
  then show "active (r_status r)" and "r_claimed_by r = Some (hl_owner_id l)"
    using assms(3,4) by (auto simp: lock_ok_def run_lock_ok_def split: option.splits)
qed

lemma request_cancel_inv [inv_intros]:
  assumes "run_inv db"
  shows "run_inv (snd (request_cancel run_id now db))"
proof (cases "get_run run_id db")
  case None
  then show ?thesis using assms run_invD(1) [OF assms] by (simp add: request_cancel_eq)
next
  case (Some r)
  let ?db = "snd (request_cancel run_id now db)"
  show ?thesis
  proof (cases "r_status r \<in> {RS_QUEUED, RS_PREPARING, RS_RUNNING}")
    case False
    then show ?thesis using Some assms run_invD(1) [OF assms] by (simp add: request_cancel_eq)
  next
    case True
    show ?thesis
    proof (rule change_run_inv [OF assms Some, where f = "cancel_row now" and db' = ?db
          and p = "\<lambda>t. r_status r = RS_QUEUED \<and> t_run_id t = run_id \<and> t_status t = TS_PENDING"
          and g = "\<lambda>t. t\<lparr>t_status := TS_CANCELED, t_finished_at := Some now\<rparr>"
          and pw = "\<lambda>_. False" and gw = id])
      show "run_targets ?db = update_where (\<lambda>t. r_status r = RS_QUEUED \<and> t_run_id t = run_id \<and> t_status t = TS_PENDING)
          (\<lambda>t. t\<lparr>t_status := TS_CANCELED, t_finished_at := Some now\<rparr>) (run_targets db)"
        using Some True run_invD(1) [OF assms] by (simp add: request_cancel_eq update_where_False)
      fix l assume "l \<in> set (host_execution_locks ?db)" and own: "hl_run_id l = Some run_id"
      then have "l \<in> set (host_execution_locks db)"
        using run_invD(1) [OF assms] Some True by (simp add: request_cancel_eq)
      then have "active (r_status r)" by (rule run_lock_active(1) [OF assms _ own Some])
      then show "active (r_status (cancel_row now r)) \<and> r_claimed_by (cancel_row now r) = r_claimed_by r"
        by (auto simp: cancel_row_def)
    qed (use Some True run_invD(1) [OF assms] in
        \<open>auto simp: request_cancel_eq cancel_row_def status_simps update_where_False keys_ok_def split: if_splits\<close>)
  qed
qed

section \<open>Execution\<close>

lemma mark_running_inv [inv_intros]:
  assumes "run_inv db" and "get_run run_id db = Some r" and "r_claimed_by r \<noteq> None"
  shows "run_inv (mark_running run_id now db)"
proof -
  have "r_status r \<noteq> RS_QUEUED" using run_row_ok_status [OF run_inv_row [OF assms(1,2)] assms(2)] assms(3) by simp
  show ?thesis
  proof (rule change_run_inv [OF assms(1,2), where db' = "mark_running run_id now db"
        and f = "\<lambda>x. if r_status x = RS_PREPARING then x\<lparr>r_status := RS_RUNNING, r_updated_at := now\<rparr> else x"
        and p = "\<lambda>t. t_run_id t = run_id \<and> t_status t = TS_PENDING"
        and g = "\<lambda>t. t\<lparr>t_status := TS_RUNNING, t_started_at := Some now\<rparr>"
        and pw = "\<lambda>_. False" and gw = id])
    fix l assume "l \<in> set (host_execution_locks (mark_running run_id now db))" and own: "hl_run_id l = Some run_id"
    then have "active (r_status r)"
      using run_lock_active(1) [OF assms(1) _ own assms(2)] by (simp add: mark_running_def)
    then show "active (r_status (if r_status r = RS_PREPARING then r\<lparr>r_status := RS_RUNNING, r_updated_at := now\<rparr> else r)) \<and>
        r_claimed_by (if r_status r = RS_PREPARING then r\<lparr>r_status := RS_RUNNING, r_updated_at := now\<rparr> else r) = r_claimed_by r"
      by auto
  qed (use assms(3) \<open>r_status r \<noteq> RS_QUEUED\<close> run_invD(1) [OF assms(1)] in
      \<open>auto simp: mark_running_def update_where_conj status_simps update_where_False keys_ok_def split: if_splits\<close>)
qed

definition finish_row ::
    "run_status \<Rightarrow> int option \<Rightarrow> jobj \<Rightarrow> string option \<Rightarrow> string option \<Rightarrow> timestamp \<Rightarrow> run \<Rightarrow> run" where
  "finish_row status return_code summary failure_code failure_message now r =
     r\<lparr>r_status := status, r_return_code := return_code, r_summary := summary,
       r_failure_code := failure_code, r_failure_message := failure_message,
       r_finished_at := Some now, r_updated_at := now\<rparr>"

lemma finish_eq:
  assumes "keys_ok db" and "get_run run_id db = Some r" and "r_claimed_by r = Some w" and "active (r_status r)"
  shows "finish run_id w status return_code summary failure_code failure_message now db =
     (Some (finish_row status return_code summary failure_code failure_message now r),
      db\<lparr>run_targets := update_where
           (\<lambda>t. t_run_id t = run_id \<and> t_status t \<in> {TS_PENDING, TS_RUNNING})
           (\<lambda>t. t\<lparr>t_status := fallback_target_status status, t_finished_at := Some now\<rparr>) (run_targets db),
         runs := update_where (\<lambda>x. r_id x = run_id)
           (finish_row status return_code summary failure_code failure_message now) (runs db),
         host_execution_locks := delete_where (\<lambda>l. hl_run_id l = Some run_id) (host_execution_locks db),
         worker_leases := update_where (\<lambda>l. wl_worker_id l = w \<and> wl_run_id l = Some run_id)
           (\<lambda>l. l\<lparr>wl_run_id := None\<rparr>) (worker_leases db)\<rparr>)"
proof -
  let ?q = "\<lambda>r. r_claimed_by r = Some w \<and> r_status r \<in> {RS_PREPARING, RS_RUNNING}"
  have change: "(\<lambda>r. r\<lparr>r_status := status, r_return_code := return_code, r_summary := summary,
             r_failure_code := failure_code, r_failure_message := failure_message,
             r_finished_at := Some now, r_updated_at := now\<rparr>) =
      finish_row status return_code summary failure_code failure_message now"
    by (simp add: fun_eq_iff finish_row_def)
  show ?thesis
    unfolding finish_def change Let_def get_run_filter [OF assms(1), of run_id ?q]
      update_one_run [OF assms(1), of run_id ?q]
    using assms(2-4) by auto
qed

lemma finish_None:
  assumes "keys_ok db" and "\<And>r. get_run run_id db = Some r \<Longrightarrow> \<not> (r_claimed_by r = Some w \<and> active (r_status r))"
  shows "fst (finish run_id w status return_code summary failure_code failure_message now db) = None"
proof -
  let ?q = "\<lambda>r. r_claimed_by r = Some w \<and> r_status r \<in> {RS_PREPARING, RS_RUNNING}"
  show ?thesis
    unfolding finish_def Let_def get_run_filter [OF assms(1), of run_id ?q]
    using assms(2) by (auto split: option.splits)
qed

lemma fallback_terminal: "terminal s \<Longrightarrow> fallback_target_status s \<notin> {TS_PENDING, TS_RUNNING}"
  by (cases s) (auto simp: terminal_iff)

lemma finish_inv [inv_intros]:
  assumes "run_inv db" and "get_run run_id db = Some r" and "r_claimed_by r = Some w"
    and "active (r_status r)" and "terminal status"
  shows "run_inv (snd (finish run_id w status return_code summary failure_code failure_message now db))"
    (is "run_inv ?db")
proof (rule change_run_inv [OF assms(1,2), where db' = ?db
      and f = "finish_row status return_code summary failure_code failure_message now"
      and p = "\<lambda>t. t_run_id t = run_id \<and> t_status t \<in> {TS_PENDING, TS_RUNNING}"
      and g = "\<lambda>t. t\<lparr>t_status := fallback_target_status status, t_finished_at := Some now\<rparr>"
      and pw = "\<lambda>l. wl_worker_id l = w \<and> wl_run_id l = Some run_id" and gw = "\<lambda>l. l\<lparr>wl_run_id := None\<rparr>"])
  have keys: "keys_ok db" using run_invD(1) [OF assms(1)] .
  note eq = finish_eq [OF keys assms(2-4)]
  show "distinct (map hl_host_id (host_execution_locks ?db))"
    using keys by (simp add: eq keys_ok_def distinct_map_delete_where)
  show "target_fits (r_status (finish_row status return_code summary failure_code failure_message now r))
       (t_status (if t_run_id t = run_id \<and> t_status t \<in> {TS_PENDING, TS_RUNNING}
         then t\<lparr>t_status := fallback_target_status status, t_finished_at := Some now\<rparr> else t))"
    if "t_run_id t = run_id" for t
    using assms(5) fallback_terminal [OF assms(5)] that by (auto simp: finish_row_def target_fits_def terminal_iff)
qed (use finish_eq [OF run_invD(1) [OF assms(1)] assms(2-4)] assms(3,5) in
    \<open>auto simp: finish_row_def run_row_ok_def terminal_iff\<close>)

lemma finish_target_inv [inv_intros]:
  assumes "run_inv db" and "t \<in> set (run_targets db)" and "t_id t = target_id"
    and "get_run (t_run_id t) db = Some r" and "r_status r \<noteq> RS_QUEUED"
    and "status \<notin> {TS_PENDING, TS_RUNNING}"
  shows "run_inv (finish_target target_id status return_code out err result truncated changed failed unreachable now db)"
    (is "run_inv ?db")
proof (rule change_run_inv [OF assms(1,4), where db' = ?db and f = "\<lambda>x. x"
      and p = "\<lambda>x. t_id x = target_id"
      and g = "\<lambda>t. t\<lparr>t_status := status, t_return_code := return_code, t_stdout := out,
                 t_stderr := err, t_result := result, t_output_truncated := truncated,
                 t_changed_count := changed, t_failed_count := failed,
                 t_unreachable_count := unreachable, t_finished_at := Some now\<rparr>"
      and pw = "\<lambda>_. False" and gw = "\<lambda>x. x"])
  have keys: "keys_ok db" using run_invD(1) [OF assms(1)] .
  show "t_run_id x = t_run_id t" if "x \<in> set (run_targets db)" "t_id x = target_id" for x
    using row_by_key [of t_id "run_targets db" x t] keys that assms(2,3) by (simp add: keys_ok_def)
  show "runs ?db = update_where (\<lambda>x. r_id x = t_run_id t) (\<lambda>x. x) (runs db)"
    by (simp add: finish_target_def update_where_def)
  show "distinct (map hl_host_id (host_execution_locks ?db))"
    using keys by (simp add: keys_ok_def finish_target_def)
  show "active (r_status r) \<and> r_claimed_by r = r_claimed_by r"
    if "l \<in> set (host_execution_locks ?db)" "hl_run_id l = Some (t_run_id t)" for l
    using run_lock_active(1) [OF assms(1) _ that(2) assms(4)] that(1) by (simp add: finish_target_def)
  show "target_fits (r_status r) (t_status (if t_id x = target_id
      then x\<lparr>t_status := status, t_return_code := return_code, t_stdout := out,
                 t_stderr := err, t_result := result, t_output_truncated := truncated,
                 t_changed_count := changed, t_failed_count := failed,
                 t_unreachable_count := unreachable, t_finished_at := Some now\<rparr> else x))"
    if "target_fits (r_status r) (t_status x)" for x
    using that assms(5,6) by (auto simp: target_fits_def)
qed (simp_all add: finish_target_def update_where_False)

section \<open>Events\<close>

lemma append_event_inv [inv_intros]:
  assumes "run_inv db" and "append_event ev db = Inr (stored, db')"
  shows "run_inv db'"
proof -
  note D = run_invD [OF assms(1)]
  obtain r where r: "get_run (ev_run_id ev) db = Some r"
    and stored: "stored = ev\<lparr>ev_sequence := r_next_event_sequence r\<rparr>"
    and db': "db' = db\<lparr>runs := update_where (\<lambda>x. r_id x = ev_run_id ev)
                        (\<lambda>x. x\<lparr>r_next_event_sequence := r_next_event_sequence x + 1\<rparr>) (runs db),
                     run_events := run_events db @ [stored]\<rparr>"
    using assms(2) by (auto simp: append_event_def Let_def split: option.splits)
  let ?f = "\<lambda>x. x\<lparr>r_next_event_sequence := r_next_event_sequence x + 1\<rparr>"
  have nxt: "1 \<le> r_next_event_sequence r" using run_inv_row [OF assms(1) r] by (simp add: run_row_ok_def)
  have locks: "active (r_status (?f r)) \<and> r_claimed_by (?f r) = r_claimed_by r"
    if "l \<in> set (host_execution_locks db')" "hl_run_id l = Some (ev_run_id ev)" for l
    using run_lock_active(1) [OF assms(1) _ that(2) r] that(1) by (simp add: db')
  note core = change_run_core [OF assms(1) r, where db' = db' and f = ?f and p = "\<lambda>_. False" and g = "\<lambda>t. t"
      and pw = "\<lambda>_. False" and gw = "\<lambda>l. l", OF _ _ _ _ _ _ _ _ _ _ _ _ _ _ _ _ _ locks]
  show ?thesis
  proof
    show "keys_ok db'" "rows_ok db'" "targets_ok db'" "locks_ok db'"
      by (rule core; use D(1) in \<open>simp add: db' update_where_False keys_ok_def run_row_ok_def\<close>)+
    have get: "get_run j db' = (if j = ev_run_id ev then Some (?f r) else get_run j db)" for j
      by (rule core(5)) (use D(1) in \<open>simp_all add: db' update_where_False keys_ok_def run_row_ok_def\<close>)
    have evs: "run_events db' = run_events db @ [stored]" by (simp add: db')
    show "events_ok db'"
      unfolding events_ok_def
    proof
      fix i
      have "map ev_sequence (filter (\<lambda>e. ev_run_id e = i) (run_events db)) =
        (case get_run i db of None \<Rightarrow> [] | Some r \<Rightarrow> [1..<r_next_event_sequence r])"
        using D(5) by (simp add: events_ok_def)
      then show "map ev_sequence (filter (\<lambda>e. ev_run_id e = i) (run_events db')) =
        (case get_run i db' of None \<Rightarrow> [] | Some r \<Rightarrow> [1..<r_next_event_sequence r])"
        using nxt r stored evs by (auto simp: get)
    qed
  qed
qed

section \<open>Creation\<close>

lemma create_or_get_inv [inv_intros]:
  assumes inv: "run_inv db" and run: "create_or_get run targets db = Inr ((persisted, created), db')"
    and new: "r_status run = RS_QUEUED" "r_claimed_by run = None" "r_finished_at run = None"
    and tgt: "\<And>t. t \<in> set targets \<Longrightarrow> t_run_id t = r_id run \<and> t_status t = TS_PENDING"
  shows "run_inv db'" and "get_run (r_id persisted) db' = Some persisted"
proof -
  note D = run_invD [OF inv]
  have "run_inv db' \<and> get_run (r_id persisted) db' = Some persisted"
  proof (cases created)
    case False
    then have "db' = db" "get_by_idempotency_key (r_requested_by run) (r_idempotency_key run) db = Some persisted"
      using run by (auto simp: create_or_get_def Let_def split: if_splits option.splits)
    then show ?thesis using inv D(1)
      by (auto simp: get_run_Some_iff get_by_idempotency_key_def dest: fetch_one_SomeD)
  next
    case True
    let ?row = "run\<lparr>r_next_event_sequence := 1\<rparr>"
    have db': "db' = db\<lparr>runs := runs db @ [?row], run_targets := run_targets db @ targets\<rparr>" "persisted = ?row"
      and none: "get_by_idempotency_key (r_requested_by run) (r_idempotency_key run) db = None"
      and fresh: "r_id run \<notin> set (map r_id (runs db))"
      and uniq: "distinct (map t_id (run_targets db @ targets))"
        "distinct (map (\<lambda>t. (t_run_id t, t_host_id t)) (run_targets db @ targets))"
      and limits: "1 \<le> r_timeout_seconds run" "r_timeout_seconds run \<le> 86400"
      using run True by (auto simp: create_or_get_def Let_def split: if_splits option.splits)
    have old: "get_run (r_id run) db = None" using fresh by (metis get_run_SomeD image_eqI list.set_map not_None_eq)
    have get: "get_run j db' = (if j = r_id run then Some ?row else get_run j db)" for j
      using old by (auto simp: get_run_def db' fetch_one_append split: option.splits)
    have pairs: "target_pairs db \<subseteq> target_pairs db'" and lease: "\<And>w. lease_of w db' = lease_of w db"
      by (auto simp: target_pairs_def lease_of_def db')
    have "run_inv db'"
    proof
      show "keys_ok db'"
        using D(1) fresh uniq none by (auto simp: keys_ok_def db' get_by_idempotency_key_def fetch_one_None_iff)
      show "rows_ok db'"
        using D(2) new limits by (auto simp: rows_ok_def db' run_row_ok_def terminal_iff)
      show "targets_ok db'"
        unfolding targets_ok_def
      proof
        fix t assume "t \<in> set (run_targets db')"
        then consider "t \<in> set (run_targets db)" | "t \<in> set targets" by (auto simp: db')
        then show "case get_run (t_run_id t) db' of None \<Rightarrow> False | Some r \<Rightarrow> target_fits (r_status r) (t_status t)"
        proof cases
          case 1
          then show ?thesis using D(3) old get by (auto simp: targets_ok_def split: option.splits)
        next
          case 2
          then show ?thesis using tgt new get by (auto simp: target_fits_def terminal_iff)
        qed
      qed
      show "locks_ok db'"
        unfolding locks_ok_def
      proof
        fix l assume "l \<in> set (host_execution_locks db')"
        then have ok: "lock_ok db l" using D(4) by (simp add: locks_ok_def db')
        have "run_lock_ok db' j l" if "run_lock_ok db j l" for j
          using pairs old by (intro run_lock_ok_mono [OF that]) (auto simp: get lease)
        moreover have "session_lock_ok db' j l = session_lock_ok db j l" for j
          by (simp add: session_lock_ok_def ws_get_def db')
        ultimately show "lock_ok db' l" using ok by (auto simp: lock_ok_def split: option.splits)
      qed
      show "events_ok db'"
        unfolding events_ok_def
      proof
        fix i
        have "map ev_sequence (filter (\<lambda>e. ev_run_id e = i) (run_events db)) =
          (case get_run i db of None \<Rightarrow> [] | Some r \<Rightarrow> [1..<r_next_event_sequence r])"
          using D(5) by (simp add: events_ok_def)
        moreover have "run_events db' = run_events db" by (simp add: db')
        ultimately show "map ev_sequence (filter (\<lambda>e. ev_run_id e = i) (run_events db')) =
          (case get_run i db' of None \<Rightarrow> [] | Some r \<Rightarrow> [1..<r_next_event_sequence r])"
          using old by (simp add: get)
      qed
    qed
    then show ?thesis using get db'(2) by simp
  qed
  then show "run_inv db'" and "get_run (r_id persisted) db' = Some persisted" by blast+
qed

section \<open>Claims\<close>

lemma claim_candidate_SomeD:
  assumes "claim_candidate locked_rows now db = Some r"
  shows "r \<in> set (runs db)" and "claim_eligible locked_rows now db r"
    and "\<And>r'. \<lbrakk>r' \<in> set (runs db); claim_eligible locked_rows now db r'\<rbrakk> \<Longrightarrow>
           (r_created_at r, r_id r) \<le> (r_created_at r', r_id r')"
proof -
  let ?k = "\<lambda>r. (r_created_at r, r_id r)"
  let ?xs = "filter (claim_eligible locked_rows now db) (runs db)"
  obtain rest where s: "sort_key ?k ?xs = r # rest"
    using assms by (auto simp: claim_candidate_def split: list.splits)
  then have "r \<in> set ?xs" by (metis list.set_intros(1) set_sort)
  then show "r \<in> set (runs db)" and "claim_eligible locked_rows now db r" by auto
  have "sorted (map ?k (r # rest))" using s by (metis sorted_sort_key)
  moreover have "set (r # rest) = set ?xs" using s by (metis set_sort)
  moreover have "?k r \<le> ?k x" if "sorted (map ?k (r # rest))" "x \<in> set (r # rest)" for x
    using that by fastforce
  ultimately show "(r_created_at r, r_id r) \<le> (r_created_at r', r_id r')"
    if "r' \<in> set (runs db)" "claim_eligible locked_rows now db r'" for r'
    using that by (metis (no_types, lifting) mem_Collect_eq set_filter)
qed

lemma distinct_target_host_ids:
  assumes "keys_ok db"
  shows "distinct (target_host_ids i db)"
proof -
  have "distinct (map t_host_id (filter (\<lambda>t. t_run_id t = i) ts))"
    if "distinct (map (\<lambda>t. (t_run_id t, t_host_id t)) ts)" for ts
    using that by (induction ts) (auto simp: image_iff)
  moreover have "distinct (map (\<lambda>t. (t_run_id t, t_host_id t)) (run_targets db))"
    using assms by (simp add: keys_ok_def)
  ultimately show ?thesis by (simp only: target_host_ids_def distinct_sort)
qed

lemma set_target_host_ids: "h \<in> set (target_host_ids i db) \<longleftrightarrow> (i, h) \<in> target_pairs db"
  by (auto simp: target_host_ids_def target_pairs_def)

lemma set_locks_inv:
  assumes "run_inv db" and "distinct (map hl_host_id locks)"
    and "\<And>l. l \<in> set locks \<Longrightarrow> l \<notin> set (host_execution_locks db) \<Longrightarrow> lock_ok db l"
  shows "run_inv (db\<lparr>host_execution_locks := locks\<rparr>)"
proof -
  let ?db = "db\<lparr>host_execution_locks := locks\<rparr>"
  note D = run_invD [OF assms(1)]
  have "run_lock_ok ?db = run_lock_ok db" "session_lock_ok ?db = session_lock_ok db"
    by (simp_all add: fun_eq_iff run_lock_ok_def session_lock_ok_def get_run_def lease_of_def ws_get_def target_pairs_def)
  then have "lock_ok ?db l = lock_ok db l" for l by (simp add: lock_ok_def split: option.splits)
  then have "locks_ok ?db" using D(4) assms(3) by (auto simp: locks_ok_def)
  then show ?thesis
    using D assms(2) by (simp add: run_inv_def keys_ok_def rows_ok_def targets_ok_def events_ok_def get_run_def)
qed

lemma claim_next_SomeD:
  assumes "claim_next id locked_rows w now e db = Inr (Some run, db')"
  obtains r where "claim_candidate locked_rows now db = Some r" and "run = claimed_row w now r"
    and "db' = db\<lparr>runs := update_where (\<lambda>x. r_id x = r_id r) (claimed_row w now) (runs db),
           host_execution_locks := snd (upsert_locks now
             (map (run_lock (r_id r) w now e) (target_host_ids (r_id r) db)) (host_execution_locks db))\<rparr>"
    and "length (fst (upsert_locks now (map (run_lock (r_id r) w now e) (target_host_ids (r_id r) db))
           (host_execution_locks db))) = length (target_host_ids (r_id r) db)"
proof -
  obtain r where r: "claim_candidate locked_rows now db = Some r"
    using assms by (auto simp: claim_next_def split: option.splits)
  then show thesis
    using assms that [OF r] by (auto simp: claim_next_def claimed_row_def target_host_ids_def Let_def split: prod.splits if_splits)
qed

lemma claim_next_inv [inv_intros]:
  assumes inv: "run_inv db" and claim: "claim_next id locked_rows w now e db = Inr (Some run, db')"
    and lease: "lease_of w db = Some lease" "wl_expires_at lease = e"
  shows "run_inv db'"
proof -
  obtain r where r: "claim_candidate locked_rows now db = Some r"
    and db': "db' = db\<lparr>runs := update_where (\<lambda>x. r_id x = r_id r) (claimed_row w now) (runs db),
           host_execution_locks := snd (upsert_locks now
             (map (run_lock (r_id r) w now e) (target_host_ids (r_id r) db)) (host_execution_locks db))\<rparr>"
    using claim by (rule claim_next_SomeD)
  let ?mid = "db\<lparr>runs := update_where (\<lambda>x. r_id x = r_id r) (claimed_row w now) (runs db)\<rparr>"
  have keys: "keys_ok db" using run_invD(1) [OF inv] .
  have get: "get_run (r_id r) db = Some r" and queued: "r_status r = RS_QUEUED"
    using claim_candidate_SomeD(1,2) [OF r] keys by (auto simp: get_run_Some_iff claim_eligible_def)
  have noloc: "hl_run_id l \<noteq> Some (r_id r)" if "l \<in> set (host_execution_locks db)" for l
    using run_lock_active(1) [OF inv that _ get] queued by auto
  have mid: "run_inv ?mid"
    by (rule change_run_inv [OF inv get, where db' = ?mid and f = "claimed_row w now" and p = "\<lambda>_. False"
          and g = "\<lambda>t. t" and pw = "\<lambda>_. False" and gw = "\<lambda>l. l"])
      (use keys queued noloc in \<open>auto simp: claimed_row_def update_where_False keys_ok_def run_row_ok_def
         terminal_iff target_fits_def\<close>)
  have row: "get_run (r_id r) ?mid = Some (claimed_row w now r)"
    using get get_run_update [of ?mid "\<lambda>x. r_id x = r_id r" "claimed_row w now" db "r_id r"]
    by (simp add: claimed_row_def)
  have "run_inv (?mid\<lparr>host_execution_locks := snd (upsert_locks now
      (map (run_lock (r_id r) w now e) (target_host_ids (r_id r) db)) (host_execution_locks db))\<rparr>)"
  proof (rule set_locks_inv [OF mid])
    show "distinct (map hl_host_id (snd (upsert_locks now
        (map (run_lock (r_id r) w now e) (target_host_ids (r_id r) db)) (host_execution_locks db))))"
      using keys by (intro distinct_upsert_locks) (simp add: keys_ok_def)
    fix l assume "l \<in> set (snd (upsert_locks now
        (map (run_lock (r_id r) w now e) (target_host_ids (r_id r) db)) (host_execution_locks db)))"
      and "l \<notin> set (host_execution_locks ?mid)"
    then obtain h where "h \<in> set (target_host_ids (r_id r) db)" and l: "l = run_lock (r_id r) w now e h"
      using upsert_locks_set by fastforce
    then have "(r_id r, h) \<in> target_pairs ?mid" by (simp add: set_target_host_ids) (simp add: target_pairs_def)
    moreover have "lease_of w ?mid = Some lease" using lease(1) by (simp add: lease_of_def)
    ultimately show "lock_ok ?mid l"
      using row lease(2) l by (simp add: lock_ok_def run_lock_def run_lock_ok_def claimed_row_def)
  qed
  then show ?thesis by (simp add: db')
qed

section \<open>Recovery\<close>

definition interrupt_row :: "timestamp \<Rightarrow> run \<Rightarrow> run" where
  "interrupt_row now r = r\<lparr>r_status := RS_INTERRUPTED, r_finished_at := Some now, r_updated_at := now,
     r_failure_code := Some ''WORKER_LEASE_EXPIRED'',
     r_failure_message := Some ''worker lease expired during execution''\<rparr>"

lemma recover_stale_tables:
  fixes db :: db and now :: timestamp
  defines "db' \<equiv> snd (recover_stale now db)"
    and "ids \<equiv> set (map r_id (filter (interrupted_by_recovery now db) (runs db)))"
  shows "runs db' = update_where (interrupted_by_recovery now db) (interrupt_row now) (runs db)"
    and "run_targets db' = update_where (\<lambda>t. t_run_id t \<in> ids \<and> t_status t \<in> {TS_PENDING, TS_RUNNING})
           (\<lambda>t. t\<lparr>t_status := TS_INTERRUPTED, t_finished_at := Some now\<rparr>) (run_targets db)"
    and "worker_leases db' = delete_where (\<lambda>l. wl_expires_at l \<le> now) (worker_leases db)"
    and "host_execution_locks db' = delete_where (\<lambda>l. hl_expires_at l \<le> now \<or>
           (case hl_run_id l of None \<Rightarrow> False | Some i \<Rightarrow> i \<in> ids)) (host_execution_locks db)"
    and "run_events db' = run_events db" and "web_shell_sessions db' = web_shell_sessions db"
  unfolding db'_def ids_def by (simp_all add: recover_stale_def Let_def interrupt_row_def [abs_def])

lemma interrupted_id_iff:
  assumes "keys_ok db" and "get_run i db = Some r"
  shows "i \<in> set (map r_id (filter (interrupted_by_recovery now db) (runs db))) \<longleftrightarrow> interrupted_by_recovery now db r"
  using assms by (auto simp: get_run_Some_iff dest: get_run_unique [OF assms])

lemma stale_workers_iff:
  assumes "keys_ok db"
  shows "w \<in> set (stale_workers now db) \<longleftrightarrow> (\<exists>l. lease_of w db = Some l \<and> wl_expires_at l \<le> now)"
proof -
  have "lease_of w db = Some l \<longleftrightarrow> l \<in> set (worker_leases db) \<and> wl_worker_id l = w" for l
    unfolding lease_of_def using assms by (intro lookup_Some_iff) (simp add: keys_ok_def)
  then show ?thesis by (auto simp: stale_workers_def)
qed

lemma recover_stale_inv [inv_intros]:
  assumes "run_inv db"
  shows "run_inv (snd (recover_stale now db))" (is "run_inv ?db")
proof
  note D = run_invD [OF assms] and T = recover_stale_tables [of now db]
  let ?int = "interrupted_by_recovery now db"
  let ?ids = "set (map r_id (filter ?int (runs db)))"
  have get: "get_run j ?db = map_option (\<lambda>r. if ?int r then interrupt_row now r else r) (get_run j db)" for j
    by (rule get_run_update [OF T(1)]) (simp add: interrupt_row_def)
  have lease: "lease_of w ?db = (case lease_of w db of None \<Rightarrow> None | Some l \<Rightarrow> if wl_expires_at l \<le> now then None else Some l)" for w
    unfolding lease_of_def T(3) using D(1) by (intro lookup_delete_where) (simp add: keys_ok_def)
  show "keys_ok ?db"
    using D(1) by (simp add: keys_ok_def T map_key_update_where distinct_map_delete_where interrupt_row_def)
  show "rows_ok ?db"
    unfolding rows_ok_def
  proof
    fix x' assume "x' \<in> set (runs ?db)"
    then obtain x where x: "x \<in> set (runs db)" "x' = (if ?int x then interrupt_row now x else x)"
      by (auto simp: T(1) set_update_where)
    moreover have "r_claimed_by x \<noteq> None" if "?int x" using that by (auto simp: interrupted_by_recovery_def split: option.splits)
    ultimately show "run_row_ok x'"
      using D(2) by (auto simp: rows_ok_def run_row_ok_def interrupt_row_def terminal_iff)
  qed
  show "targets_ok ?db"
    unfolding targets_ok_def
  proof
    fix t' assume "t' \<in> set (run_targets ?db)"
    then obtain t where t: "t \<in> set (run_targets db)"
      and t': "t' = (if t_run_id t \<in> ?ids \<and> t_status t \<in> {TS_PENDING, TS_RUNNING}
          then t\<lparr>t_status := TS_INTERRUPTED, t_finished_at := Some now\<rparr> else t)"
      by (auto simp: T(2) set_update_where)
    obtain r where r: "get_run (t_run_id t) db = Some r" "target_fits (r_status r) (t_status t)"
      using D(3) t by (auto simp: targets_ok_def split: option.splits)
    note iff = interrupted_id_iff [OF D(1) r(1), of now]
    have ids: "t_run_id t' = t_run_id t" using t' by simp
    show "case get_run (t_run_id t') ?db of None \<Rightarrow> False | Some r \<Rightarrow> target_fits (r_status r) (t_status t')"
    proof (cases "?int r")
      case True
      then show ?thesis using iff r t' ids by (auto simp: get interrupt_row_def target_fits_def)
    next
      case False
      then have "t' = t" using iff t' by (simp del: set_map)
      then show ?thesis using r ids False by (simp add: get)
    qed
  qed
  show "locks_ok ?db"
    unfolding locks_ok_def
  proof
    fix l assume "l \<in> set (host_execution_locks ?db)"
    then have l: "l \<in> set (host_execution_locks db)" and unexp: "\<not> hl_expires_at l \<le> now"
      and keep: "\<And>i. hl_run_id l = Some i \<Longrightarrow> i \<notin> ?ids" by (auto simp: T(4) split: option.splits)
    have ok: "lock_ok db l" using D(4) l by (simp add: locks_ok_def)
    have "run_lock_ok ?db i l" if i: "run_lock_ok db i l" and own: "hl_run_id l = Some i" for i
    proof (rule run_lock_ok_mono [OF i])
      show "\<exists>r'. get_run i ?db = Some r' \<and> active (r_status r') \<and> r_claimed_by r' = r_claimed_by r"
        if r: "get_run i db = Some r" and "active (r_status r)" for r
      proof -
        have "\<not> ?int r" using keep [OF own] interrupted_id_iff [OF D(1) r] by blast
        then show ?thesis using r that by (simp add: get)
      qed
      show "target_pairs db \<subseteq> target_pairs ?db" by (simp add: target_pairs_update [OF T(2)])
      show "\<exists>w'. lease_of (hl_owner_id l) ?db = Some w' \<and> wl_expires_at w' = hl_expires_at l"
        if "lease_of (hl_owner_id l) db = Some w" "wl_expires_at w = hl_expires_at l" for w
        using that unexp by (simp add: lease)
    qed simp_all
    moreover have "session_lock_ok ?db i l = session_lock_ok db i l" for i
      by (simp add: session_lock_ok_def ws_get_def T)
    ultimately show "lock_ok ?db l" using ok by (auto simp: lock_ok_def split: option.splits)
  qed
  show "events_ok ?db"
    using D(5) by (auto simp: events_ok_def get T(5) interrupt_row_def split: option.splits)
qed

end
