(* ===== verification/Session_Invariant.thy ===== *)
theory Session_Invariant
  imports Run_Invariant
begin

text \<open>
  Every operation of \<open>services/web_shell.py\<close> keeps the invariant of the lock table and the session
  table, and the facts about tickets, capacity and host locks that the properties use.
\<close>

section \<open>Changing sessions and their locks\<close>

lemma session_tables_inv:
  assumes inv: "run_inv db"
    and same: "runs db' = runs db" "run_targets db' = run_targets db" "run_events db' = run_events db"
      "worker_leases db' = worker_leases db"
    and keys: "distinct (map ws_id (web_shell_sessions db'))" "distinct (map hl_host_id (host_execution_locks db'))"
    and locks: "\<And>l. l \<in> set (host_execution_locks db') \<Longrightarrow>
        (hl_web_shell_session_id l = None \<and> l \<in> set (host_execution_locks db)) \<or>
        (hl_run_id l = None \<and> (\<exists>i. hl_web_shell_session_id l = Some i \<and> session_lock_ok db' i l))"
  shows "run_inv db'"
proof
  note D = run_invD [OF inv]
  have get: "get_run i db' = get_run i db" for i by (simp add: get_run_def same)
  show "keys_ok db'" using D(1) keys by (simp add: keys_ok_def same)
  show "rows_ok db'" using D(2) by (simp add: rows_ok_def same)
  show "targets_ok db'" using D(3) by (simp add: targets_ok_def same get)
  show "events_ok db'" using D(5) by (simp add: events_ok_def same get)
  have run: "run_lock_ok db' i l = run_lock_ok db i l" for i l
    by (simp add: run_lock_ok_def get lease_of_def target_pairs_def same)
  show "locks_ok db'"
    unfolding locks_ok_def
  proof
    fix l assume "l \<in> set (host_execution_locks db')"
    then show "lock_ok db' l"
      using locks [of l] D(4) run by (auto simp: lock_ok_def locks_ok_def split: option.splits)
  qed
qed

lemma ws_get_Some_iff:
  "keys_ok db \<Longrightarrow> ws_get i db = Some s \<longleftrightarrow> s \<in> set (web_shell_sessions db) \<and> ws_id s = i"
  unfolding ws_get_def keys_ok_def by (intro lookup_Some_iff) blast

lemma ws_get_SomeD: "ws_get i db = Some s \<Longrightarrow> s \<in> set (web_shell_sessions db) \<and> ws_id s = i"
  by (auto simp: ws_get_def dest: fetch_one_SomeD)

text \<open>A lock is a run's or a session's.\<close>

lemma lock_cases:
  assumes "run_inv db" and "l \<in> set (host_execution_locks db)"
  obtains (run) i where "hl_run_id l = Some i" "hl_web_shell_session_id l = None" "run_lock_ok db i l"
  | (session) i s where "hl_run_id l = None" "hl_web_shell_session_id l = Some i"
      "ws_get i db = Some s" "ws_host_id s = hl_host_id l" "hl_expires_at l = ws_deadline s"
      "ws_state s \<noteq> WS_PENDING \<Longrightarrow> ws_owner_id s = Some (hl_owner_id l)" "session_lock_ok db i l"
proof -
  have "lock_ok db l" using run_invD(4) [OF assms(1)] assms(2) by (simp add: locks_ok_def)
  then show thesis
    using run session by (auto simp: lock_ok_def session_lock_ok_def split: option.splits)
qed

lemma delete_sessions_inv [inv_intros]:
  assumes inv: "run_inv db"
  shows "run_inv (delete_sessions p db)" (is "run_inv ?db")
proof (rule session_tables_inv [OF inv])
  have keys: "keys_ok db" using run_invD(1) [OF inv] .
  have get: "ws_get i ?db = (case ws_get i db of None \<Rightarrow> None | Some s \<Rightarrow> if p s then None else Some s)" for i
    unfolding ws_get_def delete_sessions_def Let_def
    using keys by (simp add: keys_ok_def lookup_delete_where)
  fix l assume "l \<in> set (host_execution_locks ?db)"
  then have l: "l \<in> set (host_execution_locks db)"
    and gone: "\<And>i. hl_web_shell_session_id l = Some i \<Longrightarrow> i \<notin> set (map ws_id (filter p (web_shell_sessions db)))"
    by (auto simp: delete_sessions_def Let_def)
  from inv l show "(hl_web_shell_session_id l = None \<and> l \<in> set (host_execution_locks db)) \<or>
      (hl_run_id l = None \<and> (\<exists>i. hl_web_shell_session_id l = Some i \<and> session_lock_ok ?db i l))"
  proof (cases rule: lock_cases)
    case (session i s)
    then have "\<not> p s" using gone by (auto dest!: ws_get_SomeD)
    then show ?thesis using session by (simp add: session_lock_ok_def get)
  qed (use l in simp)
qed (use run_invD(1) [OF inv] in \<open>simp_all add: delete_sessions_def Let_def keys_ok_def distinct_map_delete_where\<close>)

lemma cleanup_expired_inv [inv_intros]: "run_inv db \<Longrightarrow> run_inv (snd (cleanup_expired now db))"
  by (simp add: cleanup_expired_def delete_sessions_inv)

lemma ws_delete_inv [inv_intros]: "run_inv db \<Longrightarrow> run_inv (snd (ws_delete i w db))"
  by (simp add: ws_delete_def Let_def delete_sessions_inv)

text \<open>Updates of one session and of its lock.\<close>

lemma update_session_inv:
  assumes inv: "run_inv db"
    and db': "db' = db\<lparr>web_shell_sessions := update_where p f (web_shell_sessions db),
        host_execution_locks := update_where q g (host_execution_locks db)\<rparr>"
    and f: "\<And>s. ws_id (f s) = ws_id s" "\<And>s. ws_host_id (f s) = ws_host_id s"
    and g: "\<And>l. hl_host_id (g l) = hl_host_id l" "\<And>l. hl_run_id (g l) = hl_run_id l"
      "\<And>l. hl_web_shell_session_id (g l) = hl_web_shell_session_id l"
    and q: "\<And>l. q l \<Longrightarrow> hl_web_shell_session_id l \<noteq> None"
    and agree: "\<And>l s. \<lbrakk>l \<in> set (host_execution_locks db); hl_web_shell_session_id l = Some (ws_id s);
        ws_get (ws_id s) db = Some s; hl_expires_at l = ws_deadline s;
        ws_state s \<noteq> WS_PENDING \<Longrightarrow> ws_owner_id s = Some (hl_owner_id l)\<rbrakk> \<Longrightarrow>
        (let s' = (if p s then f s else s); l' = (if q l then g l else l) in
         hl_expires_at l' = ws_deadline s' \<and> (ws_state s' \<noteq> WS_PENDING \<longrightarrow> ws_owner_id s' = Some (hl_owner_id l')))"
  shows "run_inv db'"
proof (rule session_tables_inv [OF inv])
  have keys: "keys_ok db" using run_invD(1) [OF inv] .
  have get: "ws_get i db' = map_option (\<lambda>s. if p s then f s else s) (ws_get i db)" for i
    by (rule ws_get_update) (simp_all add: db' f)
  show "distinct (map ws_id (web_shell_sessions db'))" "distinct (map hl_host_id (host_execution_locks db'))"
    using keys by (simp_all add: keys_ok_def db' map_key_update_where f g)
  fix l' assume "l' \<in> set (host_execution_locks db')"
  then obtain l where l: "l \<in> set (host_execution_locks db)" and l': "l' = (if q l then g l else l)"
    by (auto simp: db' set_update_where)
  from inv l show "(hl_web_shell_session_id l' = None \<and> l' \<in> set (host_execution_locks db)) \<or>
      (hl_run_id l' = None \<and> (\<exists>i. hl_web_shell_session_id l' = Some i \<and> session_lock_ok db' i l'))"
  proof (cases rule: lock_cases)
    case (run i)
    then have "\<not> q l" using q by blast
    then show ?thesis using run l l' by simp
  next
    case (session i s)
    then have i: "ws_id s = i" by (auto dest: ws_get_SomeD)
    have "hl_expires_at l' = ws_deadline (if p s then f s else s) \<and>
        (ws_state (if p s then f s else s) \<noteq> WS_PENDING \<longrightarrow>
         ws_owner_id (if p s then f s else s) = Some (hl_owner_id l'))"
      using agree [OF l, of s] session i l' by (simp add: Let_def)
    then have "session_lock_ok db' i l'"
      using session f(2) g(1) l' unfolding session_lock_ok_def get by (auto split: if_splits)
    moreover have "hl_run_id l' = None" "hl_web_shell_session_id l' = Some i" using session g l' by simp_all
    ultimately show ?thesis by blast
  qed
qed (simp_all add: db')

lemma activate_inv [inv_intros]:
  assumes inv: "run_inv db" and "activate i auth w now e db = Inr (res, db')"
  shows "run_inv db'"
proof (cases res)
  case None
  then show ?thesis using assms by (auto simp: activate_def Let_def split: option.splits if_splits)
next
  case (Some act)
  show ?thesis
  proof (rule update_session_inv [OF inv, where
        p = "\<lambda>s. ws_id s = i \<and> ws_auth_session_id s = auth \<and> ws_state s = WS_PENDING \<and>
              ws_ticket_expires_at s > now \<and> auth_session_live now (ws_auth_session_id s) db"
        and f = "\<lambda>s. s\<lparr>ws_state := WS_ACTIVE, ws_owner_id := Some w, ws_connected_at := Some now,
              ws_last_activity_at := Some now, ws_lease_expires_at := e\<rparr>"
        and q = "\<lambda>l. hl_web_shell_session_id l = Some i \<and> hl_expires_at l > now"
        and g = "\<lambda>l. l\<lparr>hl_owner_id := w, hl_expires_at := e\<rparr>"])
    let ?hit = "\<lambda>s. ws_id s = i \<and> ws_auth_session_id s = auth \<and> ws_state s = WS_PENDING \<and>
              ws_ticket_expires_at s > now \<and> auth_session_live now (ws_auth_session_id s) db"
    show "db' = db\<lparr>web_shell_sessions := update_where ?hit
          (\<lambda>s. s\<lparr>ws_state := WS_ACTIVE, ws_owner_id := Some w, ws_connected_at := Some now,
              ws_last_activity_at := Some now, ws_lease_expires_at := e\<rparr>) (web_shell_sessions db),
        host_execution_locks := update_where (\<lambda>l. hl_web_shell_session_id l = Some i \<and> hl_expires_at l > now)
          (\<lambda>l. l\<lparr>hl_owner_id := w, hl_expires_at := e\<rparr>) (host_execution_locks db)\<rparr>"
      using assms(2) Some by (auto simp: activate_def Let_def split: option.splits if_splits)
    obtain s0 where s0: "fetch_one ?hit (web_shell_sessions db) = Some s0"
      using assms(2) Some by (auto simp: activate_def Let_def split: option.splits if_splits)
    have uniq: "?hit s" if "ws_get i db = Some s" for s
      using fetch_one_SomeD [OF s0] that run_invD(1) [OF inv] by (auto simp: ws_get_Some_iff keys_ok_def dest: row_by_key)
    fix l s assume a: "hl_web_shell_session_id l = Some (ws_id s)" "ws_get (ws_id s) db = Some s"
      "hl_expires_at l = ws_deadline s" "ws_state s \<noteq> WS_PENDING \<Longrightarrow> ws_owner_id s = Some (hl_owner_id l)"
    show "let s' = if ?hit s then s\<lparr>ws_state := WS_ACTIVE, ws_owner_id := Some w, ws_connected_at := Some now,
              ws_last_activity_at := Some now, ws_lease_expires_at := e\<rparr> else s;
            l' = if hl_web_shell_session_id l = Some i \<and> hl_expires_at l > now
                 then l\<lparr>hl_owner_id := w, hl_expires_at := e\<rparr> else l
        in hl_expires_at l' = ws_deadline s' \<and> (ws_state s' \<noteq> WS_PENDING \<longrightarrow> ws_owner_id s' = Some (hl_owner_id l'))"
    proof (cases "ws_id s = i")
      case True
      then show ?thesis using uniq [of s] a by (auto simp: Let_def)
    next
      case False
      then show ?thesis using a by (auto simp: Let_def)
    qed
  qed auto
qed

lemma ws_heartbeat_row_inv [inv_intros]:
  assumes inv: "run_inv db"
  shows "run_inv (snd (ws_heartbeat_row i w now e la db))"
proof (rule update_session_inv [OF inv, where
      p = "\<lambda>s. ws_id s = i \<and> ws_owner_id s = Some w \<and> ws_state s = WS_ACTIVE \<and>
            auth_session_live now (ws_auth_session_id s) db"
      and f = "\<lambda>s. s\<lparr>ws_lease_expires_at := e, ws_last_activity_at := Some la\<rparr>"
      and g = "\<lambda>l. l\<lparr>hl_expires_at := e\<rparr>"])
  let ?hit = "\<lambda>s. ws_id s = i \<and> ws_owner_id s = Some w \<and> ws_state s = WS_ACTIVE \<and>
            auth_session_live now (ws_auth_session_id s) db"
  let ?q = "\<lambda>l. (case hl_web_shell_session_id l of None \<Rightarrow> False
      | Some i \<Rightarrow> i \<in> set (map ws_id (filter ?hit (web_shell_sessions db)))) \<and> hl_owner_id l = w"
  show "snd (ws_heartbeat_row i w now e la db) = db\<lparr>web_shell_sessions := update_where ?hit
        (\<lambda>s. s\<lparr>ws_lease_expires_at := e, ws_last_activity_at := Some la\<rparr>) (web_shell_sessions db),
      host_execution_locks := update_where ?q (\<lambda>l. l\<lparr>hl_expires_at := e\<rparr>) (host_execution_locks db)\<rparr>"
    by (simp add: ws_heartbeat_row_def Let_def)
  show "hl_web_shell_session_id l \<noteq> None" if "?q l" for l using that by (auto split: option.splits)
  fix l s assume a: "hl_web_shell_session_id l = Some (ws_id s)" "ws_get (ws_id s) db = Some s"
    "hl_expires_at l = ws_deadline s" "ws_state s \<noteq> WS_PENDING \<Longrightarrow> ws_owner_id s = Some (hl_owner_id l)"
  have "ws_id s \<in> set (map ws_id (filter ?hit (web_shell_sessions db))) \<longleftrightarrow> ?hit s"
    using a(2) run_invD(1) [OF inv] by (auto simp: ws_get_Some_iff keys_ok_def dest: row_by_key)
  then show "let s' = if ?hit s then s\<lparr>ws_lease_expires_at := e, ws_last_activity_at := Some la\<rparr> else s;
        l' = if ?q l then l\<lparr>hl_expires_at := e\<rparr> else l
      in hl_expires_at l' = ws_deadline s' \<and> (ws_state s' \<noteq> WS_PENDING \<longrightarrow> ws_owner_id s' = Some (hl_owner_id l'))"
    using a by (simp add: Let_def del: set_map set_filter)
qed auto

lemma mark_close_requested_inv [inv_intros]:
  assumes inv: "run_inv db"
  shows "run_inv (snd (mark_close_requested i user now db))"
  by (rule update_session_inv [OF inv, where
      p = "\<lambda>s. ws_id s = i \<and> ws_actor_user_id s = user \<and> ws_state s = WS_ACTIVE"
      and f = "\<lambda>s. s\<lparr>ws_state := WS_CLOSE_REQUESTED, ws_close_requested_at := Some now\<rparr>"
      and q = "\<lambda>_. False" and g = "\<lambda>l. l"])
    (auto simp: mark_close_requested_def Let_def update_where_False)

section \<open>The service\<close>

lemma ws_admission_inv [inv_intros]: "run_inv db \<Longrightarrow> run_inv (ws_admission env db)"
  by (simp add: ws_admission_def cleanup_expired_def delete_sessions_inv)

lemma resolve_one_host:
  "resolve_host_ids [h] db = [target] \<Longrightarrow> rh_host_id target = h"
proof -
  assume "resolve_host_ids [h] db = [target]"
  then have "set (sort_key rh_name (usable_rows (\<lambda>x. h_id x \<in> set [h]) [] db)) = {target}"
    by (simp add: resolve_host_ids_def)
  then have "target \<in> set (usable_rows (\<lambda>x. h_id x \<in> set [h]) [] db)" by simp
  then show ?thesis unfolding set_usable_rows by (auto simp: resolved_row_def)
qed

text \<open>What an admitted session is: the branch of \<open>create\<close> that returns.\<close>

lemma ws_create_body_InrD:
  assumes "ws_create_body cfg env new_id host_id actor owner db = Inr (s, db')"
  obtains target where "s = ws_new_session (e_now env) new_id actor owner target"
    and "rh_host_id target = host_id"
    and "count_live (e_now env) (ws_admission env db) < set_web_shell_max_sessions cfg"
    and "list_host_keys host_id (ws_admission env db) \<noteq> []"
    and "new_id \<notin> set (map ws_id (web_shell_sessions (ws_admission env db)))"
    and "fst (upsert_lock (e_now env) (ws_lock host_id new_id (''pending:'' @ owner) (e_now env)
           (e_now env + seconds WEB_SHELL_TICKET_SECONDS)) (host_execution_locks (ws_admission env db)))"
    and "db' = audit_append env WEB_SHELL_REQUESTED AO_SUCCEEDED SRC_API (ws_audit_details actor new_id)
          ((ws_admission env db)\<lparr>web_shell_sessions := web_shell_sessions (ws_admission env db) @ [s],
             host_execution_locks := snd (upsert_lock (e_now env) (ws_lock host_id new_id (''pending:'' @ owner)
               (e_now env) (e_now env + seconds WEB_SHELL_TICKET_SECONDS))
               (host_execution_locks (ws_admission env db)))\<rparr>)"
proof -
  note d = assms [unfolded ws_create_body_def Let_def ws_add_def acquire_host_lock_def]
  obtain target where t: "resolve_host_ids [host_id] (ws_admission env db) = [target]"
    using d by (auto split: if_splits option.splits list.splits)
  show thesis
    by (rule that [OF _ resolve_one_host [OF t]])
      (use d t in \<open>auto simp: ws_new_session_def split: if_splits option.splits prod.splits\<close>)
qed

lemma ws_create_body_inv [inv_intros]:
  assumes inv: "run_inv db" and ok: "ws_create_body cfg env new_id host_id actor owner db = Inr (s, db')"
  shows "run_inv db'"
proof -
  let ?a = "ws_admission env db"
  let ?l = "ws_lock host_id new_id (''pending:'' @ owner) (e_now env) (e_now env + seconds WEB_SHELL_TICKET_SECONDS)"
  let ?b = "?a\<lparr>web_shell_sessions := web_shell_sessions ?a @ [s],
      host_execution_locks := snd (upsert_lock (e_now env) ?l (host_execution_locks ?a))\<rparr>"
  obtain target where s: "s = ws_new_session (e_now env) new_id actor owner target" "rh_host_id target = host_id"
    and fresh: "new_id \<notin> set (map ws_id (web_shell_sessions ?a))"
    and db': "db' = audit_append env WEB_SHELL_REQUESTED AO_SUCCEEDED SRC_API (ws_audit_details actor new_id) ?b"
    using ws_create_body_InrD [OF ok] by metis
  have a: "run_inv ?a" using inv by (rule ws_admission_inv)
  note D = run_invD [OF a]
  have id: "ws_id s = new_id" "ws_host_id s = host_id"
    "ws_deadline s = e_now env + seconds WEB_SHELL_TICKET_SECONDS" "ws_state s = WS_PENDING"
    using s by (simp_all add: ws_new_session_def)
  have none: "ws_get new_id ?a = None" using fresh by (auto simp: ws_get_def fetch_one_None_iff)
  have get: "ws_get i ?b = (if i = new_id then Some s else ws_get i ?a)" for i
    using id(1) none by (auto simp: ws_get_def fetch_one_append split: option.splits)
  have "run_inv ?b"
  proof (rule session_tables_inv [OF a])
    show "distinct (map ws_id (web_shell_sessions ?b))" using D(1) id(1) fresh by (auto simp: keys_ok_def)
    show "distinct (map hl_host_id (host_execution_locks ?b))"
      using D(1) by (simp add: keys_ok_def distinct_upsert_lock)
    fix l assume "l \<in> set (host_execution_locks ?b)"
    then consider "l = ?l" | "l \<in> set (host_execution_locks ?a)" by (auto dest: upsert_lock_set)
    then show "(hl_web_shell_session_id l = None \<and> l \<in> set (host_execution_locks ?a)) \<or>
      (hl_run_id l = None \<and> (\<exists>i. hl_web_shell_session_id l = Some i \<and> session_lock_ok ?b i l))"
    proof cases
      case 1
      have "session_lock_ok ?b new_id ?l"
        unfolding session_lock_ok_def get using id by (simp add: ws_lock_def del: ws_deadline.simps)
      then show ?thesis using 1 by (simp add: ws_lock_def)
    next
      case 2
      from a 2 show ?thesis
      proof (cases rule: lock_cases)
        case (session i x)
        then have "i \<noteq> new_id" using none by auto
        then have "session_lock_ok ?b i l" using session unfolding session_lock_ok_def get by simp
        then show ?thesis using session by blast
      qed (use 2 in simp)
    qed
  qed simp_all
  then show ?thesis by (simp add: db')
qed

lemma ws_create_inv [inv_intros]:
  "run_inv db \<Longrightarrow> run_inv (snd (ws_create cfg env new_id host_id actor owner db))"
  by (cases rule: unit_of_work_cases [of "ws_create_body cfg env new_id host_id actor owner" db])
    (auto simp: ws_create_def intro: ws_create_body_inv)

text \<open>The branch of \<open>claim\<close> that returns.\<close>

lemma ws_claim_body_InrD:
  assumes "ws_claim_body decrypt env i actor owner db = Inr (launch, db')"
  obtains current act db1 where "ws_get i db = Some current"
    and "ws_actor_user_id current = sp_user_id actor" and "ws_auth_session_id current = sp_session_id actor"
    and "ws_state current = WS_PENDING" and "e_now env < ws_ticket_expires_at current"
    and "activate i (sp_session_id actor) owner (e_now env)
           (e_now env + seconds WEB_SHELL_LEASE_SECONDS) db = Inr (Some act, db1)"
    and "la_session launch = act"
    and "db' = audit_append env WEB_SHELL_STARTED AO_SUCCEEDED SRC_API (ws_audit_details actor i) db1"
proof -
  note d = assms [unfolded ws_claim_body_def Let_def]
  obtain current where c: "ws_get i db = Some current" "ws_actor_user_id current = sp_user_id actor"
      "ws_auth_session_id current = sp_session_id actor" "ws_state current = WS_PENDING"
      "e_now env < ws_ticket_expires_at current"
    using d by (auto split: option.splits if_splits)
  obtain act db1 where act: "activate i (sp_session_id actor) owner (e_now env)
      (e_now env + seconds WEB_SHELL_LEASE_SECONDS) db = Inr (Some act, db1)"
    using d c by (auto split: sum.splits option.splits prod.splits)
  show thesis
    by (rule that [OF c act]) (use d c act in \<open>auto split: sum.splits option.splits prod.splits ops_error.splits list.splits\<close>)
qed

lemma ws_claim_inv [inv_intros]:
  "run_inv db \<Longrightarrow> run_inv (snd (ws_claim decrypt env i actor owner db))"
proof (cases rule: unit_of_work_cases [of "ws_claim_body decrypt env i actor owner" db])
  case (committed launch db')
  assume "run_inv db"
  from committed(1) obtain act db1 where "activate i (sp_session_id actor) owner (e_now env)
      (e_now env + seconds WEB_SHELL_LEASE_SECONDS) db = Inr (Some act, db1)"
    "db' = audit_append env WEB_SHELL_STARTED AO_SUCCEEDED SRC_API (ws_audit_details actor i) db1"
    by (rule ws_claim_body_InrD)
  then show ?thesis using committed(2) \<open>run_inv db\<close> by (simp add: ws_claim_def activate_inv)
qed (simp add: ws_claim_def)

lemma ws_heartbeat_db: "snd (ws_heartbeat env i w la db) = snd (ws_heartbeat_row i w (e_now env)
    (e_now env + seconds WEB_SHELL_LEASE_SECONDS) la db)"
  by (simp add: ws_heartbeat_def split: prod.splits)

lemma ws_heartbeat_inv [inv_intros]: "run_inv db \<Longrightarrow> run_inv (snd (ws_heartbeat env i w la db))"
  by (simp add: ws_heartbeat_db ws_heartbeat_row_inv)

lemma run_inv_finished_event [simp]: "run_inv (ws_finished_event env s reason db) = run_inv db"
  by (simp add: ws_finished_event_def Let_def)

lemma ws_request_close_inv [inv_intros]:
  assumes "run_inv db"
  shows "run_inv (ws_request_close env i actor db)"
proof -
  have "run_inv (snd (ws_delete i None db))"
    and "run_inv (snd (mark_close_requested i (sp_user_id actor) (e_now env) db))"
    using assms by (simp_all add: ws_delete_inv mark_close_requested_inv)
  then show ?thesis using assms
    by (auto simp: ws_request_close_def split: option.splits prod.splits web_shell_state.splits)
qed

lemma ws_finish_inv [inv_intros]: "run_inv db \<Longrightarrow> run_inv (ws_finish env i w reason db)"
  using ws_delete_inv [of db i "Some w"] by (auto simp: ws_finish_def split: prod.splits option.splits)

lemma ws_recover_stale_inv [inv_intros]: "run_inv db \<Longrightarrow> run_inv (snd (ws_recover_stale env db))"
  using cleanup_expired_inv [of db "e_now env"] by (auto simp: ws_recover_stale_def split: prod.splits)

end
