(* ===== verification/Run_History.thy ===== *)
theory Run_History
  imports Session_Invariant
begin

text \<open>
  What no operation undoes. \<open>history_kept\<close> relates two states of the database: every run row is
  still there and has only moved forward, its snapshot of the request is untouched, a terminal row
  changed at most its event counter, targets keep their identity and events are only appended.
  \<open>locks_kept\<close> says that an unexpired host lock is kept for its holder unless the holder ended.
\<close>

section \<open>Runs move forward\<close>

fun status_rank :: "run_status \<Rightarrow> nat" where
  "status_rank RS_QUEUED = 0"
| "status_rank RS_PREPARING = 1"
| "status_rank RS_RUNNING = 2"
| "status_rank _ = 3"

text \<open>The columns that are fixed when a run is created.\<close>

definition same_request :: "run \<Rightarrow> run \<Rightarrow> bool" where
  "same_request r r' \<longleftrightarrow>
     r_id r' = r_id r \<and> r_source_run_id r' = r_source_run_id r \<and> r_kind r' = r_kind r \<and>
     r_target_spec r' = r_target_spec r \<and> r_resolved_targets r' = r_resolved_targets r \<and>
     r_operation_spec r' = r_operation_spec r \<and> r_inventory_snapshot r' = r_inventory_snapshot r \<and>
     r_workspace_revision r' = r_workspace_revision r \<and> r_playbook_id r' = r_playbook_id r \<and>
     r_playbook_revision r' = r_playbook_revision r \<and>
     r_credential_versions r' = r_credential_versions r \<and>
     r_timeout_seconds r' = r_timeout_seconds r \<and> r_forks r' = r_forks r \<and>
     r_requested_by r' = r_requested_by r \<and> r_idempotency_key r' = r_idempotency_key r \<and>
     r_request_fingerprint r' = r_request_fingerprint r \<and>
     r_fingerprint_scheme r' = r_fingerprint_scheme r \<and> r_created_at r' = r_created_at r"

definition run_evolves :: "run \<Rightarrow> run \<Rightarrow> bool" where
  "run_evolves r r' \<longleftrightarrow>
     same_request r r' \<and>
     (r_status r' = r_status r \<or> status_rank (r_status r) < status_rank (r_status r')) \<and>
     (r_claimed_by r \<noteq> None \<longrightarrow> r_claimed_by r' = r_claimed_by r) \<and>
     r_next_event_sequence r \<le> r_next_event_sequence r' \<and>
     (terminal (r_status r) \<longrightarrow> (\<exists>n. r' = r\<lparr>r_next_event_sequence := n\<rparr>))"

definition target_identity :: "run_target \<Rightarrow> uuid \<times> uuid \<times> uuid \<times> string \<times> string" where
  "target_identity t = (t_id t, t_run_id t, t_host_id t, t_host_name t, t_host_address t)"

definition history_kept :: "db \<Rightarrow> db \<Rightarrow> bool" where
  "history_kept db db' \<longleftrightarrow>
     (\<forall>i r. get_run i db = Some r \<longrightarrow> (\<exists>r'. get_run i db' = Some r' \<and> run_evolves r r')) \<and>
     (\<exists>ts. map target_identity (run_targets db') = map target_identity (run_targets db) @ ts) \<and>
     (\<exists>es. run_events db' = run_events db @ es)"

lemma same_request_refl [simp]: "same_request r r"
  by (simp add: same_request_def)

lemma same_request_trans: "same_request r r1 \<Longrightarrow> same_request r1 r2 \<Longrightarrow> same_request r r2"
  by (simp add: same_request_def)

lemma status_rank_terminal: "status_rank s = 3 \<longleftrightarrow> terminal s"
  by (cases s) (auto simp: terminal_iff)

lemma status_rank_le: "status_rank s \<le> 3"
  by (cases s) auto

lemma run_evolves_terminal:
  assumes "run_evolves r r'" and "terminal (r_status r)"
  obtains n where "r' = r\<lparr>r_next_event_sequence := n\<rparr>"
  using assms unfolding run_evolves_def by blast

lemma run_evolves_refl [simp]: "run_evolves r r"
proof -
  have "r = r\<lparr>r_next_event_sequence := r_next_event_sequence r\<rparr>" by simp
  then have ex: "\<exists>n. r = r\<lparr>r_next_event_sequence := n\<rparr>" by (rule exI)
  show ?thesis unfolding run_evolves_def by (intro conjI impI ex) simp_all
qed

lemma run_evolves_trans:
  assumes "run_evolves r r1" and "run_evolves r1 r2"
  shows "run_evolves r r2"
proof -
  have "\<exists>n. r2 = r\<lparr>r_next_event_sequence := n\<rparr>" if t: "terminal (r_status r)"
  proof -
    obtain n where r1: "r1 = r\<lparr>r_next_event_sequence := n\<rparr>"
      using assms(1) t by (rule run_evolves_terminal)
    then have "terminal (r_status r1)" using t by simp
    then obtain m where "r2 = r1\<lparr>r_next_event_sequence := m\<rparr>"
      using assms(2) by (metis run_evolves_terminal)
    then have "r2 = r\<lparr>r_next_event_sequence := m\<rparr>" using r1 by simp
    then show ?thesis by (rule exI)
  qed
  moreover have "same_request r r2" using assms same_request_trans unfolding run_evolves_def by blast
  moreover have "r_status r2 = r_status r \<or> status_rank (r_status r) < status_rank (r_status r2)"
    using assms unfolding run_evolves_def by (metis less_trans)
  moreover have "r_claimed_by r \<noteq> None \<longrightarrow> r_claimed_by r2 = r_claimed_by r"
    "r_next_event_sequence r \<le> r_next_event_sequence r2"
    using assms unfolding run_evolves_def by simp_all
  ultimately show ?thesis unfolding run_evolves_def by blast
qed

lemma history_kept_refl [simp]: "history_kept db db"
  by (auto simp: history_kept_def)

lemma history_kept_trans:
  assumes "history_kept db db1" and "history_kept db1 db2"
  shows "history_kept db db2"
proof -
  have "\<exists>r2. get_run i db2 = Some r2 \<and> run_evolves r r2" if r: "get_run i db = Some r" for i r
  proof -
    obtain r1 where r1: "get_run i db1 = Some r1" "run_evolves r r1"
      using assms(1) r unfolding history_kept_def by blast
    then obtain r2 where "get_run i db2 = Some r2" "run_evolves r1 r2"
      using assms(2) unfolding history_kept_def by blast
    then show ?thesis using run_evolves_trans [OF r1(2)] by blast
  qed
  moreover obtain ts es where "map target_identity (run_targets db1) = map target_identity (run_targets db) @ ts"
    "run_events db1 = run_events db @ es" using assms(1) unfolding history_kept_def by blast
  moreover obtain ts' es' where "map target_identity (run_targets db2) = map target_identity (run_targets db1) @ ts'"
    "run_events db2 = run_events db1 @ es'" using assms(2) unfolding history_kept_def by blast
  ultimately show ?thesis unfolding history_kept_def by simp
qed

lemma history_kept_tables:
  assumes "runs db' = runs db" "run_targets db' = run_targets db" "run_events db' = run_events db"
  shows "history_kept db db'"
  by (auto simp: history_kept_def get_run_def assms)

lemma history_change_run:
  assumes "get_run i db = Some r" and "run_evolves r (f r)"
    and "runs db' = update_where (\<lambda>x. r_id x = i) f (runs db)" and "\<And>x. r_id (f x) = r_id x"
    and "run_targets db' = update_where p g (run_targets db)" and "\<And>t. target_identity (g t) = target_identity t"
    and "\<exists>es. run_events db' = run_events db @ es"
  shows "history_kept db db'"
proof -
  have get: "get_run j db' = map_option (\<lambda>x. if r_id x = i then f x else x) (get_run j db)" for j
    by (rule get_run_update [OF assms(3,4)])
  have "\<exists>x'. get_run j db' = Some x' \<and> run_evolves x x'" if "get_run j db = Some x" for j x
    using get [of j] that assms(1,2) by (cases "j = i") (auto dest: get_run_SomeD)
  moreover have "map target_identity (run_targets db') = map target_identity (run_targets db)"
    unfolding assms(5) by (rule map_key_update_where) (rule assms(6))
  ultimately show ?thesis using assms(7) by (simp add: history_kept_def)
qed

section \<open>Locks are kept\<close>

definition holder_ended :: "host_lock \<Rightarrow> db \<Rightarrow> bool" where
  "holder_ended l db =
     (case (hl_run_id l, hl_web_shell_session_id l) of
        (Some i, _) \<Rightarrow> (case get_run i db of Some r \<Rightarrow> terminal (r_status r) | None \<Rightarrow> False)
      | (None, Some i) \<Rightarrow> ws_get i db = None
      | (None, None) \<Rightarrow> False)"

definition same_holder :: "host_lock \<Rightarrow> host_lock \<Rightarrow> bool" where
  "same_holder l l' \<longleftrightarrow>
     hl_host_id l' = hl_host_id l \<and> hl_run_id l' = hl_run_id l \<and>
     hl_web_shell_session_id l' = hl_web_shell_session_id l"

definition locks_kept :: "timestamp \<Rightarrow> db \<Rightarrow> db \<Rightarrow> bool" where
  "locks_kept now db db' \<longleftrightarrow>
     (\<forall>l \<in> set (host_execution_locks db). now < hl_expires_at l \<longrightarrow>
        holder_ended l db' \<or>
        (\<exists>l' \<in> set (host_execution_locks db'). same_holder l l' \<and> now < hl_expires_at l'))"

lemma locks_kept_same: "host_execution_locks db' = host_execution_locks db \<Longrightarrow> locks_kept now db db'"
  by (auto simp: locks_kept_def same_holder_def)

lemma holder_ended_mono:
  assumes "holder_ended l db1" and "history_kept db1 db2"
    and "\<And>i. ws_get i db1 = None \<Longrightarrow> ws_get i db2 = None"
  shows "holder_ended l db2"
proof (cases "hl_run_id l")
  case None
  then show ?thesis using assms(1,3) by (auto simp: holder_ended_def split: option.splits)
next
  case (Some i)
  then obtain r where r: "get_run i db1 = Some r" "terminal (r_status r)"
    using assms(1) by (auto simp: holder_ended_def split: option.splits)
  then obtain r' where "get_run i db2 = Some r'" "run_evolves r r'"
    using assms(2) by (auto simp: history_kept_def)
  moreover have "r_status r' = r_status r"
    using calculation(2) r(2) by (rule run_evolves_terminal) simp
  ultimately show ?thesis using r Some by (simp add: holder_ended_def)
qed

lemma locks_kept_trans:
  assumes "locks_kept now db db1" and "locks_kept now db1 db2" and "history_kept db1 db2"
    and "\<And>i. ws_get i db1 = None \<Longrightarrow> ws_get i db2 = None"
  shows "locks_kept now db db2"
  unfolding locks_kept_def
proof (intro ballI impI)
  fix l assume l: "l \<in> set (host_execution_locks db)" "now < hl_expires_at l"
  show "holder_ended l db2 \<or> (\<exists>l' \<in> set (host_execution_locks db2). same_holder l l' \<and> now < hl_expires_at l')"
  proof (cases "holder_ended l db1")
    case True
    then show ?thesis using holder_ended_mono [OF _ assms(3,4)] by blast
  next
    case False
    then obtain l1 where l1: "l1 \<in> set (host_execution_locks db1)" "same_holder l l1" "now < hl_expires_at l1"
      using assms(1) l unfolding locks_kept_def by blast
    have "holder_ended l1 db2 \<longleftrightarrow> holder_ended l db2"
      using l1(2) by (simp add: holder_ended_def same_holder_def)
    moreover have "same_holder l1 l2 \<Longrightarrow> same_holder l l2" for l2
      using l1(2) by (simp add: same_holder_def)
    ultimately show ?thesis using assms(2) l1(1,3) unfolding locks_kept_def by blast
  qed
qed

lemma locks_kept_update:
  assumes "host_execution_locks db' = update_where q g (host_execution_locks db)"
    and "\<And>l. same_holder l (g l)" and "\<And>l. q l \<Longrightarrow> now < hl_expires_at (g l)"
  shows "locks_kept now db db'"
  unfolding locks_kept_def
proof (intro ballI impI disjI2)
  fix l assume l: "l \<in> set (host_execution_locks db)" "now < hl_expires_at l"
  let ?l = "if q l then g l else l"
  have "?l \<in> set (host_execution_locks db')" using l(1) unfolding assms(1) set_update_where by blast
  moreover have "same_holder l ?l" "now < hl_expires_at ?l"
    using assms(2,3) l(2) by (simp_all add: same_holder_def)
  ultimately show "\<exists>l' \<in> set (host_execution_locks db'). same_holder l l' \<and> now < hl_expires_at l'" by blast
qed

section \<open>Runs become active only with their locks\<close>

text \<open>
  A step carries its time and the worker whose lease it renews, if any. Between its two states a
  run that is active afterwards was active before under the same worker, or holds the lock of
  every target; targets are added to new runs only; and no other worker's lease is extended.
\<close>

type_synonym step_label = "timestamp \<times> string option"

definition holds_targets :: "timestamp \<Rightarrow> uuid \<Rightarrow> db \<Rightarrow> bool" where
  "holds_targets now i db \<longleftrightarrow>
     (\<forall>h. (i, h) \<in> target_pairs db \<longrightarrow>
        (\<exists>l \<in> set (host_execution_locks db). hl_host_id l = h \<and> hl_run_id l = Some i \<and> now < hl_expires_at l))"

definition calm :: "step_label \<Rightarrow> db \<Rightarrow> db \<Rightarrow> bool" where
  "calm lab db db' \<longleftrightarrow>
     (\<forall>i r'. get_run i db' = Some r' \<longrightarrow> active (r_status r') \<longrightarrow>
        (\<exists>r. get_run i db = Some r \<and> active (r_status r) \<and> r_claimed_by r = r_claimed_by r') \<or>
        holds_targets (fst lab) i db') \<and>
     (\<forall>i h. (i, h) \<in> target_pairs db' \<longrightarrow> (i, h) \<in> target_pairs db \<or> get_run i db = None) \<and>
     (\<forall>w l'. lease_of w db' = Some l' \<longrightarrow> snd lab = Some w \<or>
        (\<exists>l. lease_of w db = Some l \<and> wl_expires_at l = wl_expires_at l'))"

lemma calmD:
  assumes "calm lab db db'"
  shows "\<lbrakk>get_run i db' = Some r'; active (r_status r')\<rbrakk> \<Longrightarrow>
      (\<exists>r. get_run i db = Some r \<and> active (r_status r) \<and> r_claimed_by r = r_claimed_by r') \<or>
      holds_targets (fst lab) i db'"
    and "(i, h) \<in> target_pairs db' \<Longrightarrow> (i, h) \<in> target_pairs db \<or> get_run i db = None"
    and "lease_of w db' = Some l' \<Longrightarrow> snd lab = Some w \<or>
      (\<exists>l. lease_of w db = Some l \<and> wl_expires_at l = wl_expires_at l')"
  using assms unfolding calm_def by metis+

lemma calm_tables:
  assumes "runs db' = runs db" "run_targets db' = run_targets db" "worker_leases db' = worker_leases db"
  shows "calm lab db db'"
  by (auto simp: calm_def get_run_def target_pairs_def lease_of_def assms)

lemma calm_change_run:
  assumes "get_run i db = Some r" and "runs db' = update_where (\<lambda>x. r_id x = i) f (runs db)"
    and "\<And>x. r_id (f x) = r_id x"
    and "active (r_status (f r)) \<Longrightarrow> active (r_status r) \<and> r_claimed_by (f r) = r_claimed_by r"
    and "target_pairs db' = target_pairs db"
    and "\<And>w l'. lease_of w db' = Some l' \<Longrightarrow> \<exists>l. lease_of w db = Some l \<and> wl_expires_at l = wl_expires_at l'"
  shows "calm lab db db'"
proof -
  have get: "get_run j db' = map_option (\<lambda>x. if r_id x = i then f x else x) (get_run j db)" for j
    by (rule get_run_update [OF assms(2,3)])
  have "\<exists>x. get_run j db = Some x \<and> active (r_status x) \<and> r_claimed_by x = r_claimed_by x'"
    if "get_run j db' = Some x'" "active (r_status x')" for j x'
    using that get [of j] assms(1,4) by (cases "j = i") (auto dest: get_run_SomeD split: if_splits)
  then show ?thesis using assms(5,6) by (auto simp: calm_def)
qed

section \<open>One sound step\<close>

text \<open>The four facts every operation has, and how they compose within a transaction.\<close>

definition sound_step :: "step_label \<Rightarrow> db \<Rightarrow> db \<Rightarrow> bool" where
  "sound_step lab db db' \<longleftrightarrow>
     run_inv db' \<and> history_kept db db' \<and> locks_kept (fst lab) db db' \<and> calm lab db db'"

lemma sound_stepI:
  "\<lbrakk>run_inv db'; history_kept db db'; locks_kept (fst lab) db db'; calm lab db db'\<rbrakk> \<Longrightarrow> sound_step lab db db'"
  by (simp add: sound_step_def)

lemma sound_step_same:
  "run_inv db \<Longrightarrow> same_run_tables db db' \<Longrightarrow> sound_step lab db db'"
  using run_inv_cong [of db db']
  by (auto simp: sound_step_def same_run_tables_def intro: history_kept_tables locks_kept_same calm_tables)

lemma holds_targets_kept:
  assumes holds: "holds_targets now i db1" and "locks_kept now db1 db2"
    and pairs: "\<And>h. (i, h) \<in> target_pairs db2 \<Longrightarrow> (i, h) \<in> target_pairs db1"
    and run: "get_run i db2 = Some r" "active (r_status r)"
  shows "holds_targets now i db2"
  unfolding holds_targets_def
proof (intro allI impI)
  fix h assume "(i, h) \<in> target_pairs db2"
  then obtain l where l: "l \<in> set (host_execution_locks db1)" "hl_host_id l = h" "hl_run_id l = Some i" "now < hl_expires_at l"
    using holds pairs unfolding holds_targets_def by blast
  have "\<not> holder_ended l db2" using run l(3) by (auto simp: holder_ended_def terminal_iff)
  then obtain l' where "l' \<in> set (host_execution_locks db2)" "same_holder l l'" "now < hl_expires_at l'"
    using assms(2) l unfolding locks_kept_def by blast
  then show "\<exists>l \<in> set (host_execution_locks db2). hl_host_id l = h \<and> hl_run_id l = Some i \<and> now < hl_expires_at l"
    using l(2,3) by (auto simp: same_holder_def)
qed

lemma calm_trans:
  assumes c1: "calm lab db db1" and c2: "calm lab db1 db2"
    and hist: "history_kept db db1" and k: "locks_kept (fst lab) db1 db2"
  shows "calm lab db db2"
  unfolding calm_def
proof (intro conjI allI impI)
  fix i r2 assume r2: "get_run i db2 = Some r2" "active (r_status r2)"
  show "(\<exists>r. get_run i db = Some r \<and> active (r_status r) \<and> r_claimed_by r = r_claimed_by r2) \<or>
      holds_targets (fst lab) i db2"
  proof (cases "holds_targets (fst lab) i db2")
    case False
    then obtain r1 where r1: "get_run i db1 = Some r1" "active (r_status r1)" "r_claimed_by r1 = r_claimed_by r2"
      using calmD(1) [OF c2 r2] by blast
    then have "(i, h) \<in> target_pairs db1" if "(i, h) \<in> target_pairs db2" for h
      using calmD(2) [OF c2 that] by simp
    then have "\<not> holds_targets (fst lab) i db1" using holds_targets_kept [OF _ k _ r2] False by blast
    then show ?thesis using calmD(1) [OF c1 r1(1,2)] r1(3) by simp
  qed simp
next
  fix i h assume "(i, h) \<in> target_pairs db2"
  then consider "(i, h) \<in> target_pairs db1" | "get_run i db1 = None" using calmD(2) [OF c2, of i h] by argo
  then show "(i, h) \<in> target_pairs db \<or> get_run i db = None"
  proof cases
    case 1
    then show ?thesis by (rule calmD(2) [OF c1])
  next
    case 2
    then show ?thesis using hist unfolding history_kept_def by (metis not_None_eq option.distinct(1))
  qed
next
  fix w l2 assume "lease_of w db2 = Some l2"
  then show "snd lab = Some w \<or> (\<exists>l. lease_of w db = Some l \<and> wl_expires_at l = wl_expires_at l2)"
    using calmD(3) [OF c2] calmD(3) [OF c1] by metis
qed

lemma sound_step_trans:
  assumes "sound_step lab db db1" and "sound_step lab db1 db2"
    and "web_shell_sessions db2 = web_shell_sessions db1"
  shows "sound_step lab db db2"
proof (rule sound_stepI)
  note D = assms(1,2) [unfolded sound_step_def]
  show "run_inv db2" using D by blast
  show "history_kept db db2" using D history_kept_trans by blast
  show "locks_kept (fst lab) db db2"
    by (rule locks_kept_trans [of _ db db1]) (use D assms(3) in \<open>simp_all add: ws_get_def\<close>)
  show "calm lab db db2" using D calm_trans by blast
qed

lemma sound_step_audit:
  "sound_step lab db db1 \<Longrightarrow> sound_step lab db (audit_append env act outcome src d db1)"
  by (rule sound_step_trans)
    (auto simp: sound_step_def intro: history_kept_tables locks_kept_same calm_tables)

section \<open>The operations of the run repository\<close>

lemma heartbeat_sound:
  assumes "run_inv db" and "now < e"
  shows "sound_step (now, Some w) db (heartbeat w i now e db)"
proof (rule sound_stepI)
  show "run_inv (heartbeat w i now e db)" using assms(1) by (rule heartbeat_inv)
  show "history_kept db (heartbeat w i now e db)" by (rule history_kept_tables) simp_all
  show "locks_kept (fst (now, Some w)) db (heartbeat w i now e db)"
    by (rule locks_kept_update [OF heartbeat_tables(5)]) (use assms(2) in \<open>simp_all add: same_holder_def\<close>)
  show "calm (now, Some w) db (heartbeat w i now e db)"
    by (auto simp: calm_def get_run_def target_pairs_def lease_of_heartbeat)
qed

lemma cancel_row_evolves: "active (r_status r) \<or> r_status r = RS_QUEUED \<Longrightarrow> run_evolves r (cancel_row now r)"
  by (auto simp: run_evolves_def same_request_def cancel_row_def terminal_iff)

lemma request_cancel_sound:
  assumes "run_inv db"
  shows "sound_step (now, lab) db (snd (request_cancel i now db))" (is "sound_step (now, lab) db ?db")
proof (rule sound_stepI)
  have keys: "keys_ok db" using run_invD(1) [OF assms] .
  show "run_inv ?db" using assms by (rule request_cancel_inv)
  show "locks_kept (fst (now, lab)) db ?db"
    by (rule locks_kept_same) (simp add: request_cancel_eq [OF keys] split: option.splits)
  have "history_kept db ?db \<and> calm (now, lab) db ?db"
  proof (cases "get_run i db")
    case (Some r)
    show ?thesis
    proof (cases "r_status r \<in> {RS_QUEUED, RS_PREPARING, RS_RUNNING}")
      case True
      then have ev: "run_evolves r (cancel_row now r)" by (intro cancel_row_evolves) auto
      have targets: "run_targets ?db = update_where
          (\<lambda>t. r_status r = RS_QUEUED \<and> t_run_id t = i \<and> t_status t = TS_PENDING)
          (\<lambda>t. t\<lparr>t_status := TS_CANCELED, t_finished_at := Some now\<rparr>) (run_targets db)"
        using True by (auto simp: request_cancel_eq [OF keys] Some update_where_False)
      have pairs: "target_pairs ?db = target_pairs db" by (rule target_pairs_update [OF targets]) simp_all
      have "calm (now, lab) db ?db"
        by (rule calm_change_run [OF Some _ _ _ pairs, where f = "cancel_row now"])
          (use True in \<open>auto simp: request_cancel_eq [OF keys] Some cancel_row_def lease_of_def split: if_splits\<close>)
      moreover from ev have "history_kept db ?db"
        by (rule history_change_run [OF Some, where f = "cancel_row now"
              and p = "\<lambda>t. r_status r = RS_QUEUED \<and> t_run_id t = i \<and> t_status t = TS_PENDING"
              and g = "\<lambda>t. t\<lparr>t_status := TS_CANCELED, t_finished_at := Some now\<rparr>"])
          (use True in \<open>auto simp: request_cancel_eq [OF keys] Some cancel_row_def
             target_identity_def update_where_False\<close>)
      ultimately show ?thesis by blast
    qed (simp add: request_cancel_eq [OF keys] Some calm_tables)
  qed (simp add: request_cancel_eq [OF keys] calm_tables)
  then show "history_kept db ?db" and "calm (now, lab) db ?db" by blast+
qed

lemma mark_running_sound:
  assumes "run_inv db" and "get_run i db = Some r" and "r_claimed_by r \<noteq> None"
  shows "sound_step (now, lab) db (mark_running i now db)" (is "sound_step (now, lab) db ?db")
proof (rule sound_stepI)
  show "run_inv ?db" using assms by (rule mark_running_inv)
  show "locks_kept (fst (now, lab)) db ?db" by (rule locks_kept_same) (simp add: mark_running_def)
  let ?f = "\<lambda>x. if r_status x = RS_PREPARING then x\<lparr>r_status := RS_RUNNING, r_updated_at := now\<rparr> else x"
  have "run_evolves r (?f r)"
  proof (cases "r_status r = RS_PREPARING")
    case True
    then show ?thesis by (auto simp: run_evolves_def same_request_def terminal_iff)
  qed simp
  then show "history_kept db ?db"
    by (rule history_change_run [OF assms(2), where f = ?f
          and p = "\<lambda>t. t_run_id t = i \<and> t_status t = TS_PENDING"
          and g = "\<lambda>t. t\<lparr>t_status := TS_RUNNING, t_started_at := Some now\<rparr>"])
      (simp_all add: mark_running_def update_where_conj target_identity_def)
  have "target_pairs ?db = target_pairs db"
    by (rule target_pairs_update [where p = "\<lambda>t. t_run_id t = i \<and> t_status t = TS_PENDING"
          and f = "\<lambda>t. t\<lparr>t_status := TS_RUNNING, t_started_at := Some now\<rparr>"])
      (simp_all add: mark_running_def)
  then show "calm (now, lab) db ?db"
    by (intro calm_change_run [OF assms(2), where f = ?f])
      (auto simp: mark_running_def update_where_conj lease_of_def split: if_splits)
qed

lemma finish_sound:
  assumes "run_inv db" and "get_run i db = Some r" and "r_claimed_by r = Some w"
    and "active (r_status r)" and "terminal status"
  shows "sound_step (now, lab) db (snd (finish i w status rc summary fc fm now db))" (is "sound_step (now, lab) db ?db")
proof (rule sound_stepI)
  let ?f = "finish_row status rc summary fc fm now"
  note eq = finish_eq [OF run_invD(1) [OF assms(1)] assms(2-4), of status rc summary fc fm now]
  show "run_inv ?db" using assms by (rule finish_inv)
  have "status_rank (r_status r) < status_rank status"
    using assms(4,5) by (cases status) (auto simp: terminal_iff)
  then have "run_evolves r (?f r)"
    using assms(4) by (auto simp: run_evolves_def same_request_def finish_row_def terminal_iff)
  then show "history_kept db ?db"
    by (rule history_change_run [OF assms(2), where f = ?f
          and p = "\<lambda>t. t_run_id t = i \<and> t_status t \<in> {TS_PENDING, TS_RUNNING}"
          and g = "\<lambda>t. t\<lparr>t_status := fallback_target_status status, t_finished_at := Some now\<rparr>"])
      (simp_all add: eq finish_row_def target_identity_def)
  have row: "get_run i ?db = Some (?f r)"
    using get_run_update [of ?db "\<lambda>x. r_id x = i" ?f db i] assms(2) get_run_SomeD [OF assms(2)]
    by (simp add: eq finish_row_def)
  have "target_pairs ?db = target_pairs db"
    by (rule target_pairs_update [where p = "\<lambda>t. t_run_id t = i \<and> t_status t \<in> {TS_PENDING, TS_RUNNING}"
          and f = "\<lambda>t. t\<lparr>t_status := fallback_target_status status, t_finished_at := Some now\<rparr>"])
      (simp_all add: eq)
  moreover have "lease_of x ?db = map_option (\<lambda>l. if wl_worker_id l = w \<and> wl_run_id l = Some i
      then l\<lparr>wl_run_id := None\<rparr> else l) (lease_of x db)" for x
    by (rule lease_of_update) (simp_all add: eq)
  ultimately show "calm (now, lab) db ?db"
    using assms(5) by (intro calm_change_run [OF assms(2), where f = ?f]) (auto simp: eq finish_row_def terminal_iff)
  show "locks_kept (fst (now, lab)) db ?db"
    unfolding locks_kept_def fst_conv
  proof (intro ballI impI)
    fix l assume l: "l \<in> set (host_execution_locks db)" "now < hl_expires_at l"
    show "holder_ended l ?db \<or> (\<exists>l' \<in> set (host_execution_locks ?db). same_holder l l' \<and> now < hl_expires_at l')"
    proof (cases "hl_run_id l = Some i")
      case True
      then have "holder_ended l ?db" using row assms(5) unfolding holder_ended_def by (simp add: finish_row_def)
      then show ?thesis ..
    next
      case False
      then have "l \<in> set (host_execution_locks ?db)" using l by (simp add: eq)
      then show ?thesis using l by (auto simp: same_holder_def)
    qed
  qed
qed

lemma finish_target_sound:
  assumes "run_inv db" and "t \<in> set (run_targets db)" and "t_id t = j"
    and "get_run (t_run_id t) db = Some r" and "r_status r \<noteq> RS_QUEUED"
    and "status \<notin> {TS_PENDING, TS_RUNNING}"
  shows "sound_step lab db (finish_target j status rc out err result trunc ch fa un now' db)"
proof (rule sound_stepI)
  let ?db = "finish_target j status rc out err result trunc ch fa un now' db"
  show "run_inv ?db" using assms by (rule finish_target_inv)
  show "locks_kept (fst lab) db ?db" by (rule locks_kept_same) (simp add: finish_target_def)
  have "target_pairs ?db = target_pairs db"
    unfolding target_pairs_def finish_target_def by (simp add: map_key_update_where)
  then show "calm lab db ?db" by (auto simp: calm_def finish_target_def get_run_def lease_of_def)
  have "map target_identity (run_targets ?db) = map target_identity (run_targets db)"
    by (simp add: finish_target_def map_key_update_where target_identity_def)
  then show "history_kept db ?db" by (auto simp: history_kept_def get_run_def finish_target_def)
qed

lemma append_event_sound:
  assumes "run_inv db" and "append_event ev db = Inr (stored, db')"
  shows "sound_step lab db db'"
proof (rule sound_stepI)
  show "run_inv db'" using assms by (rule append_event_inv)
  obtain r where r: "get_run (ev_run_id ev) db = Some r"
    and db': "db' = db\<lparr>runs := update_where (\<lambda>x. r_id x = ev_run_id ev)
                (\<lambda>x. x\<lparr>r_next_event_sequence := r_next_event_sequence x + 1\<rparr>) (runs db),
              run_events := run_events db @ [stored]\<rparr>"
    using assms(2) by (auto simp: append_event_def Let_def split: option.splits)
  show "locks_kept (fst lab) db db'" by (rule locks_kept_same) (simp add: db')
  show "calm lab db db'"
    by (rule calm_change_run [OF r, where f = "\<lambda>x. x\<lparr>r_next_event_sequence := r_next_event_sequence x + 1\<rparr>"])
      (simp_all add: db' target_pairs_def lease_of_def)
  have "run_evolves r (r\<lparr>r_next_event_sequence := r_next_event_sequence r + 1\<rparr>)"
    by (auto simp: run_evolves_def same_request_def)
  then show "history_kept db db'"
    by (rule history_change_run [OF r, where f = "\<lambda>x. x\<lparr>r_next_event_sequence := r_next_event_sequence x + 1\<rparr>"
          and p = "\<lambda>_. False" and g = "\<lambda>t. t"])
      (simp_all add: db' update_where_False)
qed

lemma create_or_get_sound:
  assumes "run_inv db" and "create_or_get run targets db = Inr ((persisted, created), db')"
    and "r_status run = RS_QUEUED" "r_claimed_by run = None" "r_finished_at run = None"
    and "\<And>t. t \<in> set targets \<Longrightarrow> t_run_id t = r_id run \<and> t_status t = TS_PENDING"
  shows "sound_step lab db db'"
proof (rule sound_stepI)
  show "run_inv db'" using assms by (rule create_or_get_inv(1))
  have db': "db' = db \<or> db' = db\<lparr>runs := runs db @ [run\<lparr>r_next_event_sequence := 1\<rparr>], run_targets := run_targets db @ targets\<rparr>"
    using assms(2) by (auto simp: create_or_get_def Let_def split: if_splits option.splits)
  then show "locks_kept (fst lab) db db'" by (intro locks_kept_same) auto
  have new: "db' \<noteq> db \<Longrightarrow> get_run (r_id run) db = None"
    using assms(2)
    by (auto simp: create_or_get_def Let_def get_run_def fetch_one_None_iff image_iff split: if_splits option.splits)
  have "get_run i db' = Some r' \<Longrightarrow> active (r_status r') \<Longrightarrow> get_run i db = Some r'" for i r'
    using db' assms(3) by (auto simp: get_run_def fetch_one_append split: option.splits if_splits)
  moreover have "(i, h) \<in> target_pairs db' \<Longrightarrow> (i, h) \<in> target_pairs db \<or> get_run i db = None" for i h
    using db' new assms(6) by (cases "db' = db") (auto simp: target_pairs_def)
  moreover have "lease_of w db' = lease_of w db" for w using db' by (auto simp: lease_of_def)
  ultimately show "calm lab db db'" unfolding calm_def by metis
  have "get_run i db' = Some r" if "get_run i db = Some r" for i r
    using db' that by (auto simp: get_run_def fetch_one_append)
  then show "history_kept db db'" using db' by (auto simp: history_kept_def)
qed

lemma lock_of_set:
  assumes "keys_ok db"
  shows "lock_of (host_execution_locks db) h = Some l \<longleftrightarrow> l \<in> set (host_execution_locks db) \<and> hl_host_id l = h"
  unfolding lock_of_def using assms by (intro lookup_Some_iff) (simp add: keys_ok_def)

lemma locks_kept_upsert:
  assumes "keys_ok db" and "host_execution_locks db' = snd (upsert_locks now news (host_execution_locks db))"
    and "distinct (map hl_host_id news)"
  shows "locks_kept now db db'"
  unfolding locks_kept_def
proof (intro ballI impI disjI2)
  fix l assume l: "l \<in> set (host_execution_locks db)" "now < hl_expires_at l"
  then have "lock_of (host_execution_locks db) (hl_host_id l) = Some l" by (simp add: lock_of_set [OF assms(1)])
  then have "lock_of (host_execution_locks db') (hl_host_id l) = Some l"
    using l(2) unfolding assms(2) lock_of_upsert_locks [OF assms(3)] by (auto split: option.splits)
  then have "l \<in> set (host_execution_locks db')" by (auto simp: lock_of_def dest: fetch_one_SomeD)
  then show "\<exists>l' \<in> set (host_execution_locks db'). same_holder l l' \<and> now < hl_expires_at l'"
    using l(2) by (auto simp: same_holder_def)
qed

text \<open>A successful claim holds the lock of every target.\<close>

lemma claim_next_holds:
  assumes inv: "run_inv db" and claim: "claim_next id locked_rows w now e db = Inr (Some run, db')" and "now < e"
  shows "holds_targets now (r_id run) db'"
  unfolding holds_targets_def
proof (intro allI impI)
  fix h assume h: "(r_id run, h) \<in> target_pairs db'"
  have keys: "keys_ok db" using run_invD(1) [OF inv] .
  obtain r where run: "run = claimed_row w now r"
    and db': "db' = db\<lparr>runs := update_where (\<lambda>x. r_id x = r_id r) (claimed_row w now) (runs db),
           host_execution_locks := snd (upsert_locks now
             (map (run_lock (r_id r) w now e) (target_host_ids (r_id r) db)) (host_execution_locks db))\<rparr>"
    and full: "length (fst (upsert_locks now (map (run_lock (r_id r) w now e) (target_host_ids (r_id r) db))
           (host_execution_locks db))) = length (target_host_ids (r_id r) db)"
    using claim by (rule claim_next_SomeD)
  let ?news = "map (run_lock (r_id r) w now e) (target_host_ids (r_id r) db)"
  let ?new = "run_lock (r_id r) w now e h"
  have dist: "distinct (map hl_host_id ?news)"
    by (simp add: comp_def run_lock_def distinct_target_host_ids [OF keys])
  have id: "r_id run = r_id r" by (simp add: run claimed_row_def)
  have "(r_id r, h) \<in> target_pairs db" using h by (simp add: id db' target_pairs_def)
  then have new: "?new \<in> set ?news" by (simp add: set_target_host_ids)
  moreover have "hl_host_id ?new = h" by (simp add: run_lock_def)
  ultimately have "fetch_one (\<lambda>n. hl_host_id n = h) ?news = Some ?new" using fetch_one_by_key [OF dist] by metis
  moreover have "case lock_of (host_execution_locks db) h of None \<Rightarrow> True | Some l \<Rightarrow> hl_expires_at l \<le> now"
    using upsert_locks_complete_iff [OF dist, of now "host_execution_locks db"] full new \<open>hl_host_id ?new = h\<close> by fastforce
  ultimately have "lock_of (host_execution_locks db') h = Some ?new"
    by (simp add: db' lock_of_upsert_locks [OF dist])
  then have "?new \<in> set (host_execution_locks db')" by (auto simp: lock_of_def dest: fetch_one_SomeD)
  then show "\<exists>l \<in> set (host_execution_locks db'). hl_host_id l = h \<and> hl_run_id l = Some (r_id run) \<and> now < hl_expires_at l"
    using assms(3) id by (auto simp: run_lock_def intro!: bexI)
qed

lemma claim_next_sound:
  assumes inv: "run_inv db" and claim: "claim_next id locked_rows w now e db = Inr (Some run, db')"
    and lease: "lease_of w db = Some lease" "wl_expires_at lease = e" and later: "now < e"
  shows "sound_step (now, lab) db db'"
proof (rule sound_stepI)
  show "run_inv db'" using inv claim lease by (rule claim_next_inv)
  have keys: "keys_ok db" using run_invD(1) [OF inv] .
  obtain r where r: "claim_candidate locked_rows now db = Some r" and run: "run = claimed_row w now r"
    and db': "db' = db\<lparr>runs := update_where (\<lambda>x. r_id x = r_id r) (claimed_row w now) (runs db),
           host_execution_locks := snd (upsert_locks now
             (map (run_lock (r_id r) w now e) (target_host_ids (r_id r) db)) (host_execution_locks db))\<rparr>"
    using claim by (rule claim_next_SomeD)
  have get: "get_run (r_id r) db = Some r" and queued: "r_status r = RS_QUEUED"
    using claim_candidate_SomeD(1,2) [OF r] keys by (auto simp: get_run_Some_iff claim_eligible_def)
  have "run_row_ok r" using run_inv_row [OF inv get] .
  then have "run_evolves r (claimed_row w now r)"
    using queued by (auto simp: run_evolves_def same_request_def claimed_row_def run_row_ok_def terminal_iff)
  then show "history_kept db db'"
    by (rule history_change_run [OF get, where f = "claimed_row w now" and p = "\<lambda>_. False" and g = "\<lambda>t. t"])
      (simp_all add: db' claimed_row_def update_where_False)
  show "locks_kept (fst (now, lab)) db db'"
    unfolding fst_conv
    by (rule locks_kept_upsert [OF keys, where news = "map (run_lock (r_id r) w now e) (target_host_ids (r_id r) db)"])
      (simp_all add: db' comp_def run_lock_def distinct_target_host_ids [OF keys])
  have "holds_targets now (r_id r) db'"
    using claim_next_holds [OF inv claim later] by (simp add: run claimed_row_def)
  moreover have "get_run j db' = map_option (\<lambda>x. if r_id x = r_id r then claimed_row w now x else x) (get_run j db)" for j
    by (rule get_run_update [where f = "claimed_row w now"]) (simp add: db', simp add: claimed_row_def)
  moreover have "target_pairs db' = target_pairs db" "\<And>x. lease_of x db' = lease_of x db"
    by (simp_all add: db' target_pairs_def lease_of_def)
  ultimately show "calm (now, lab) db db'"
    unfolding calm_def by (auto dest: get_run_SomeD split: if_splits)
qed

lemma recover_stale_sound:
  assumes inv: "run_inv db"
  shows "sound_step (now, lab) db (snd (recover_stale now db))" (is "sound_step (now, lab) db ?db")
proof (rule sound_stepI)
  show "run_inv ?db" using inv by (rule recover_stale_inv)
  note keys = run_invD(1) [OF inv] and T = recover_stale_tables [of now db]
  let ?int = "interrupted_by_recovery now db"
  have get: "get_run j ?db = map_option (\<lambda>r. if ?int r then interrupt_row now r else r) (get_run j db)" for j
    by (rule get_run_update [OF T(1)]) (simp add: interrupt_row_def)
  have evolves: "run_evolves r (interrupt_row now r)" if "?int r" for r
    using that
    by (auto simp: run_evolves_def same_request_def interrupt_row_def interrupted_by_recovery_def terminal_iff)
  have "map target_identity (run_targets ?db) = map target_identity (run_targets db)"
    unfolding T(2) by (rule map_key_update_where) (simp add: target_identity_def)
  then show "history_kept db ?db" using evolves by (simp add: history_kept_def get T(5))
  have "lease_of w ?db = (case lease_of w db of None \<Rightarrow> None | Some l \<Rightarrow> if wl_expires_at l \<le> now then None else Some l)" for w
    unfolding lease_of_def T(3) using keys by (intro lookup_delete_where) (simp add: keys_ok_def)
  moreover have "target_pairs ?db = target_pairs db" by (simp add: target_pairs_update [OF T(2)])
  ultimately show "calm (now, lab) db ?db"
    unfolding calm_def by (auto simp: get interrupt_row_def split: option.splits if_splits)
  show "locks_kept (fst (now, lab)) db ?db"
    unfolding locks_kept_def fst_conv
  proof (intro ballI impI)
    fix l assume l: "l \<in> set (host_execution_locks db)" "now < hl_expires_at l"
    show "holder_ended l ?db \<or> (\<exists>l' \<in> set (host_execution_locks ?db). same_holder l l' \<and> now < hl_expires_at l')"
    proof (cases "l \<in> set (host_execution_locks ?db)")
      case True
      then show ?thesis using l by (auto simp: same_holder_def)
    next
      case False
      then obtain i where i: "hl_run_id l = Some i" "i \<in> set (map r_id (filter ?int (runs db)))"
        using l unfolding T(4) by (auto split: option.splits)
      from inv l(1) obtain r where r: "get_run i db = Some r"
        by (cases rule: lock_cases) (use i in \<open>auto simp: run_lock_ok_def split: option.splits\<close>)
      then have "?int r" using i(2) interrupted_id_iff [OF keys] by blast
      then have "holder_ended l ?db" using i r by (simp add: holder_ended_def get interrupt_row_def terminal_iff)
      then show ?thesis ..
    qed
  qed
qed

section \<open>The operations of Web Shell sessions\<close>

lemma session_step_sound:
  assumes "run_inv db'" and "runs db' = runs db" "run_targets db' = run_targets db"
    "run_events db' = run_events db" "worker_leases db' = worker_leases db" and "locks_kept (fst lab) db db'"
  shows "sound_step lab db db'"
  using assms by (intro sound_stepI history_kept_tables calm_tables) auto

lemma delete_sessions_locks_kept:
  assumes "run_inv db"
  shows "locks_kept now db (delete_sessions p db)" (is "locks_kept now db ?db")
  unfolding locks_kept_def
proof (intro ballI impI)
  fix l assume l: "l \<in> set (host_execution_locks db)" "now < hl_expires_at l"
  have keys: "keys_ok db" using run_invD(1) [OF assms] .
  have get: "ws_get i ?db = (case ws_get i db of None \<Rightarrow> None | Some s \<Rightarrow> if p s then None else Some s)" for i
    unfolding ws_get_def delete_sessions_def Let_def using keys by (simp add: keys_ok_def lookup_delete_where)
  show "holder_ended l ?db \<or> (\<exists>l' \<in> set (host_execution_locks ?db). same_holder l l' \<and> now < hl_expires_at l')"
  proof (cases "l \<in> set (host_execution_locks ?db)")
    case True
    then show ?thesis using l by (auto simp: same_holder_def)
  next
    case False
    then obtain s where s: "s \<in> set (web_shell_sessions db)" "p s" "hl_web_shell_session_id l = Some (ws_id s)"
      using l by (auto simp: delete_sessions_def Let_def split: option.splits)
    then have "ws_get (ws_id s) db = Some s" using keys by (simp add: ws_get_Some_iff)
    then have "ws_get (ws_id s) ?db = None" using s(2) by (simp add: get)
    moreover have "hl_run_id l = None" using assms l(1) by (cases rule: lock_cases) (use s in auto)
    ultimately show ?thesis using s by (simp add: holder_ended_def)
  qed
qed

lemma delete_expired_locks:
  assumes "run_inv db" and "l \<in> set (host_execution_locks db)" and "now < hl_expires_at l"
  shows "l \<in> set (host_execution_locks (delete_sessions (ws_expired now) db))"
  using assms(1,2)
proof (cases rule: lock_cases)
  case (run i)
  then show ?thesis using assms(2) by (simp add: delete_sessions_def Let_def)
next
  case (session i s)
  then have "\<not> ws_expired now s" using assms(3) by (auto simp: ws_expired_def split: if_splits)
  moreover have "s' = s" if "s' \<in> set (web_shell_sessions db)" "ws_id s' = i" for s'
    using that session(3) run_invD(1) [OF assms(1)] by (auto simp: ws_get_Some_iff keys_ok_def dest: row_by_key)
  ultimately show ?thesis using session assms(2) by (auto simp: delete_sessions_def Let_def)
qed

lemma delete_sessions_sound: "run_inv db \<Longrightarrow> sound_step lab db (delete_sessions p db)"
  by (intro session_step_sound delete_sessions_locks_kept delete_sessions_inv)
    (simp_all add: delete_sessions_def Let_def)

end
