(* ===== verification/Service_Steps.thy ===== *)
theory Service_Steps
  imports Run_History
begin

text \<open>
  Every method of \<open>RunService\<close>, \<open>WorkerCoordinator\<close> and \<open>WebShellService\<close> that writes takes a
  sound step: it keeps the invariant, moves runs only forward, and takes no unexpired lock away
  from a holder that has not ended.
\<close>

section \<open>The services take sound steps\<close>

lemma persist_secrets_same:
  assumes "persist_secrets svc fresh i secrets db = Inr db'"
  shows "same_run_tables db db'"
  using assms
  by (auto simp: persist_secrets_def add_secret_inputs_def same_run_tables_def split: if_splits sum.splits)

lemma append_event_sessions: "append_event ev db = Inr (stored, db') \<Longrightarrow> web_shell_sessions db' = web_shell_sessions db"
  by (auto simp: append_event_def Let_def split: option.splits)

lemma new_targets_pending:
  "t \<in> set (new_targets fresh i resolved) \<Longrightarrow> t_run_id t = i \<and> t_status t = TS_PENDING"
  by (auto simp: new_targets_def new_target_def)

lemma persist_run_sound:
  assumes inv: "run_inv db"
    and ok: "persist_run svc env fresh run targets resolved secrets data db = Inr ((persisted, created), db')"
    and new: "r_status run = RS_QUEUED" "r_claimed_by run = None" "r_finished_at run = None"
    and tgt: "\<And>t. t \<in> set targets \<Longrightarrow> t_run_id t = r_id run \<and> t_status t = TS_PENDING"
  shows "sound_step lab db db'"
proof -
  obtain db1 where c: "create_or_get run targets db = Inr ((persisted, created), db1)"
    using ok by (auto simp: persist_run_def split: sum.splits if_splits prod.splits)
  have s1: "sound_step lab db db1" using inv c new tgt by (rule create_or_get_sound)
  show ?thesis
  proof (cases created)
    case False
    then show ?thesis using ok c s1 by (auto simp: persist_run_def split: sum.splits if_splits)
  next
    case True
    then obtain db2 stored where p: "persist_secrets svc fresh (r_id persisted) secrets db1 = Inr db2"
      and a: "append_event (new_event (fr_event_id fresh) (r_id persisted) ''run_queued'' data (e_now env)) db2
                = Inr (stored, db')"
      using ok c by (auto simp: persist_run_def split: sum.splits if_splits)
    have i1: "run_inv db1" using s1 by (simp add: sound_step_def)
    note s2 = sound_step_same [OF i1 persist_secrets_same [OF p], of lab]
    have "sound_step lab db db2"
      by (rule sound_step_trans [OF s1 s2]) (use persist_secrets_same [OF p] in \<open>simp add: same_run_tables_def\<close>)
    moreover have "sound_step lab db2 db'"
      using s2 by (intro append_event_sound [OF _ a]) (simp add: sound_step_def)
    ultimately show ?thesis by (rule sound_step_trans) (rule append_event_sessions [OF a])
  qed
qed

lemma sound_step_refl: "run_inv db \<Longrightarrow> sound_step lab db db"
  by (rule sound_step_same) simp_all

lemma create_body_sound:
  assumes "run_inv db" and "create_body svc env fresh rq fp db = Inr (run, db')"
  shows "sound_step lab db db'"
proof -
  from assms(2) obtain resolved ro inventory created db1 where
    p: "persist_run svc env fresh (new_run rq fresh (e_now env) fp ro inventory resolved)
          (new_targets fresh (fr_run_id fresh) (map (\<lambda>h. (rh_host_id h, rh_name h, rh_address h)) resolved))
          (map (\<lambda>h. (rh_host_id h, rh_name h)) resolved) (ro_secret_inputs ro)
          [(''hostCount'', JInt (int (length resolved))), (''kind'', JStr (run_kind_value (rq_kind rq)))] db
        = Inr ((run, created), db1)"
    and db': "db' = audit_append env (if created then RUN_CREATED else RUN_IDEMPOTENT_REPLAY)
         (if created then AO_SUCCEEDED else AO_NOOP) (rs_audit_source svc) (replay_details rq (r_id run)) db1"
    unfolding create_body_def by (auto split: sum.splits prod.splits)
  show ?thesis
    unfolding db' using assms(1) p
    by (intro sound_step_audit persist_run_sound) (auto simp: new_run_def dest: new_targets_pending)
qed

lemma create_run_sound:
  assumes inv: "run_inv db"
  shows "sound_step lab db (snd (create_run svc env fresh rq db))"
proof -
  have replay: "sound_step lab db db1" if "unit_of_work (create_replay svc env rq fp) db = (res, db1)" for fp res db1
    using that inv
    by (auto simp: unit_of_work_def create_replay_def intro: sound_step_audit sound_step_refl
        split: sum.splits option.splits if_splits)
  have body: "sound_step lab db db2"
    if "unit_of_work (create_replay svc env rq a) db = (Inr None, db1)"
      and "unit_of_work (create_body svc env fresh rq (a, b)) db1 = (res, db2)" for a b res db1 db2
  proof -
    have "db1 = db"
      using that(1) by (auto simp: unit_of_work_def create_replay_def split: sum.splits option.splits if_splits)
    then show ?thesis
      using that(2) create_body_sound [OF inv, of svc env fresh rq "(a, b)" _ _ lab] sound_step_refl [OF inv, of lab]
      by (auto simp: unit_of_work_def split: sum.splits)
  qed
  have failed: "sound_step lab db (create_failed svc env rq stage e db2)" if "sound_step lab db db2" for stage e db2
    using that by (auto simp: create_failed_def audit_conflict_def audit_resolution_failed_def intro: sound_step_audit)
  show ?thesis
    using inv replay body failed
    by (auto simp: create_run_def audit_conflict_def intro!: sound_step_audit intro: sound_step_refl
        split: sum.splits prod.splits option.splits)
qed

lemma retry_sound:
  assumes inv: "run_inv db"
  shows "sound_step lab db (snd (retry svc env fresh actor i user key params db))"
proof (cases rule: unit_of_work_cases [of "retry_body svc env fresh actor i user key params" db])
  case (committed run db')
  from committed(1) obtain src spec fp rs created db1 secrets ts where
    p: "persist_run svc env fresh (retried_run src fresh (e_now env) (acting_user actor user) key fp spec)
          (new_targets fresh (fr_run_id fresh) ts) rs secrets
          [(''hostCount'', JInt (int (length (targets_of i db)))), (''kind'', JStr (run_kind_value (r_kind src))),
           (''sourceRunId'', JStr (uuid_str (r_id src)))] db = Inr ((run, created), db1)"
    and db': "db' = audit_append env (if created then RUN_RETRY_CREATED else RUN_IDEMPOTENT_REPLAY)
         (if created then AO_SUCCEEDED else AO_NOOP) (rs_audit_source svc)
         (run_details (acting_user actor user) (r_id run)) db1"
    unfolding retry_body_def Let_def by (auto split: sum.splits prod.splits)
  have "sound_step lab db db'"
    unfolding db' using inv p
    by (intro sound_step_audit persist_run_sound) (auto simp: retried_run_def dest: new_targets_pending)
  then show ?thesis using committed(2) inv by (simp add: retry_def sound_step_refl)
qed (simp add: retry_def inv sound_step_refl)

lemma cancel_sound:
  assumes inv: "run_inv db"
  shows "sound_step (e_now env, lab) db (snd (cancel svc env fresh actor i user db))"
proof (cases rule: unit_of_work_cases [of "cancel_body svc env fresh i (acting_user actor user)" db])
  case (committed run db')
  then obtain db1 db2 stored where c: "request_cancel i (e_now env) db = (Some run, db1)"
    and a: "append_event (new_event (fr_event_id fresh) i ''cancel_requested'' [] (e_now env)) db1 = Inr (stored, db2)"
    and db': "db' = audit_append env RUN_CANCEL_REQUESTED AO_SUCCEEDED (rs_audit_source svc)
                 (run_details (acting_user actor user) i) db2"
    by (auto simp: cancel_body_def split: option.splits if_splits prod.splits sum.splits)
  have s1: "sound_step (e_now env, lab) db db1" using request_cancel_sound [OF inv, of "e_now env" lab i] c by simp
  then have "sound_step (e_now env, lab) db1 db2" by (intro append_event_sound [OF _ a]) (simp add: sound_step_def)
  then have "sound_step (e_now env, lab) db db'"
    unfolding db' by (intro sound_step_audit sound_step_trans [OF s1] append_event_sessions [OF a])
  then show ?thesis using committed(2) inv by (simp add: cancel_def sound_step_refl)
qed (simp add: cancel_def inv sound_step_refl)

lemma consume_sound:
  assumes inv: "run_inv db"
  shows "sound_step lab db (snd (consume_secret_inputs svc env i names db))"
proof (cases rule: unit_of_work_cases [of "consume_body svc env i names" db])
  case (committed secrets db')
  then have "same_run_tables db db'"
    by (auto simp: consume_body_def delete_secret_inputs_def same_run_tables_def
        split: option.splits if_splits sum.splits)
  then show ?thesis using committed(2) inv
    by (simp add: consume_secret_inputs_def sound_step_same sound_step_refl)
qed (simp add: consume_secret_inputs_def inv sound_step_refl)

text \<open>The bounds of \<open>worker_lease_seconds\<close> that loading the settings enforces.\<close>

definition worker_ok :: "worker \<Rightarrow> bool" where
  "worker_ok w \<longleftrightarrow> 5 \<le> set_worker_lease_seconds (w_settings w) \<and> set_worker_lease_seconds (w_settings w) \<le> 600"

lemma lease_until_later: "worker_ok w \<Longrightarrow> e_now env < lease_until w env"
  by (simp add: worker_ok_def lease_until_def)

lemma worker_heartbeat_sound:
  "run_inv db \<Longrightarrow> worker_ok w \<Longrightarrow> sound_step (e_now env, Some (w_id w)) db (worker_heartbeat w env i db)"
  by (simp add: worker_heartbeat_def heartbeat_sound lease_until_later)

lemma worker_recover_stale_sound:
  "run_inv db \<Longrightarrow> sound_step (e_now env, lab) db (snd (worker_recover_stale w env db))"
  using recover_stale_sound [of db "e_now env" lab]
  by (auto simp: worker_recover_stale_def intro: sound_step_audit split: prod.splits)

lemma claim_next_None: "claim_next id locked w now e db = Inr (None, db') \<Longrightarrow> db' = db"
  by (auto simp: claim_next_def Let_def split: option.splits prod.splits if_splits)

lemma claim_next_sessions:
  "claim_next id locked w now e db = Inr (res, db') \<Longrightarrow> web_shell_sessions db' = web_shell_sessions db"
  by (auto simp: claim_next_def Let_def split: option.splits prod.splits if_splits)

text \<open>A claim that commits: the lease is refreshed, then the run and its locks are taken.\<close>

lemma claim_body_SomeD:
  assumes "claim_body id locked w env db = Inr (Some run, db')"
  obtains db2 where "claim_next id locked (w_id w) (e_now env) (lease_until w env)
      (heartbeat (w_id w) None (e_now env) (lease_until w env) db) = Inr (Some run, db2)"
    and "db' = audit_append env RUN_CLAIMED AO_SUCCEEDED SRC_WORKER (worker_run_details w (r_id run))
      (heartbeat (w_id w) (Some (r_id run)) (e_now env) (lease_until w env) db2)"
  using assms unfolding claim_body_def Let_def by (auto split: sum.splits option.splits prod.splits)

lemma claim_body_sound:
  assumes inv: "run_inv db" and w: "worker_ok w" and ok: "claim_body id locked w env db = Inr (res, db')"
  shows "sound_step (e_now env, Some (w_id w)) db db'"
proof -
  let ?e = "lease_until w env"
  let ?h = "heartbeat (w_id w) None (e_now env) ?e db"
  have s1: "sound_step (e_now env, Some (w_id w)) db ?h" by (rule heartbeat_sound [OF inv lease_until_later [OF w]])
  then have inv1: "run_inv ?h" by (simp add: sound_step_def)
  show ?thesis
  proof (cases res)
    case None
    then have "db' = ?h"
      using ok claim_next_None unfolding claim_body_def Let_def by (auto split: sum.splits option.splits prod.splits)
    then show ?thesis using s1 by simp
  next
    case (Some run)
    with ok obtain db2 where c: "claim_next id locked (w_id w) (e_now env) ?e ?h = Inr (Some run, db2)"
      and db': "db' = audit_append env RUN_CLAIMED AO_SUCCEEDED SRC_WORKER (worker_run_details w (r_id run))
        (heartbeat (w_id w) (Some (r_id run)) (e_now env) ?e db2)"
      using claim_body_SomeD by metis
    have lease: "lease_of (w_id w) ?h = Some \<lparr>wl_worker_id = w_id w, wl_run_id = None,
        wl_heartbeat_at = e_now env, wl_expires_at = ?e\<rparr>"
      by (simp add: lease_of_heartbeat)
    have s2: "sound_step (e_now env, Some (w_id w)) ?h db2" by (rule claim_next_sound [OF inv1 c lease _ lease_until_later [OF w]]) simp
    have s12: "sound_step (e_now env, Some (w_id w)) db db2"
      by (rule sound_step_trans [OF s1 s2]) (rule claim_next_sessions [OF c])
    have "sound_step (e_now env, Some (w_id w)) db2 (heartbeat (w_id w) (Some (r_id run)) (e_now env) ?e db2)"
      using s2 by (intro heartbeat_sound [OF _ lease_until_later [OF w]]) (simp add: sound_step_def)
    then show ?thesis unfolding db' by (intro sound_step_audit sound_step_trans [OF s12]) simp_all
  qed
qed

lemma worker_claim_sound:
  assumes "run_inv db" and "worker_ok w"
  shows "sound_step (e_now env, Some (w_id w)) db (snd (worker_claim id locked w env db))"
proof (cases rule: unit_of_work_cases [of "claim_body id locked w env" db])
  case (raised e)
  then show ?thesis
    using assms(1) by (auto simp: worker_claim_def intro: sound_step_audit sound_step_refl split: ops_error.splits)
next
  case (committed res db')
  then show ?thesis using claim_body_sound [OF assms committed(1)] by (simp add: worker_claim_def)
qed

lemma worker_mark_running_sound:
  "\<lbrakk>run_inv db; get_run i db = Some r; r_claimed_by r \<noteq> None\<rbrakk> \<Longrightarrow>
     sound_step (e_now env, lab) db (worker_mark_running w env i db)"
  by (auto simp: worker_mark_running_def intro: sound_step_audit mark_running_sound)

lemma worker_append_event_sound:
  assumes "run_inv db"
  shows "sound_step lab db (snd (worker_append_event w env ev i ty out task data tgt db))"
proof -
  have "sound_step lab db (snd (unit_of_work (append_event e) db))" for e
    using assms by (cases rule: unit_of_work_cases [of "append_event e" db])
      (auto intro: append_event_sound sound_step_refl)
  then show ?thesis by (simp add: worker_append_event_def)
qed

lemma claimed_not_queued:
  "run_inv db \<Longrightarrow> get_run i db = Some r \<Longrightarrow> r_claimed_by r \<noteq> None \<Longrightarrow> r_status r \<noteq> RS_QUEUED"
  using run_inv_row [of db i r] by (auto simp: run_row_ok_def)

lemma worker_finish_target_sound:
  assumes "run_inv db" and "t \<in> set (run_targets db)" and "get_run (t_run_id t) db = Some r"
    and "r_claimed_by r \<noteq> None" and "status \<notin> {TS_PENDING, TS_RUNNING}"
  shows "sound_step (e_now env, lab) db (worker_finish_target w env i (t_id t) h status rc out err result tr ch fa un db)"
  unfolding worker_finish_target_def Let_def
  using assms claimed_not_queued [OF assms(1,3,4)]
  by (intro sound_step_audit finish_target_sound) auto

lemma worker_finish_sound:
  assumes inv: "run_inv db" and status: "terminal status"
  shows "sound_step (e_now env, lab) db (snd (worker_finish w env ev i status rc summary fc fm st db))"
proof (cases rule: unit_of_work_cases [of "finish_body w env ev i status rc summary fc fm st" db])
  case (committed run db')
  from committed(1) obtain db1 db2 stored act outcome d where
    f: "finish i (w_id w) status rc summary fc fm (e_now env) db = (Some run, db1)"
    and a: "append_event (finish_event ev i status rc summary (e_now env)) db1 = Inr (stored, db2)"
    and db': "db' = audit_append env act outcome SRC_WORKER d db2"
    unfolding finish_body_def Let_def by (auto split: option.splits prod.splits sum.splits)
  have "\<exists>r. get_run i db = Some r \<and> r_claimed_by r = Some (w_id w) \<and> active (r_status r)"
    using finish_None [OF run_invD(1) [OF inv], of i "w_id w" status rc summary fc fm "e_now env"] f by auto
  then obtain r where "get_run i db = Some r" "r_claimed_by r = Some (w_id w)" "active (r_status r)" by blast
  then have s1: "sound_step (e_now env, lab) db db1"
    using finish_sound [OF inv _ _ _ status, of i r "w_id w" "e_now env" lab rc summary fc fm] f by simp
  then have "sound_step (e_now env, lab) db1 db2" by (intro append_event_sound [OF _ a]) (simp add: sound_step_def)
  then have "sound_step (e_now env, lab) db db'"
    unfolding db' by (intro sound_step_audit sound_step_trans [OF s1] append_event_sessions [OF a])
  then show ?thesis using committed(2) by (simp add: worker_finish_def)
qed (simp add: worker_finish_def sound_step_refl inv)

section \<open>The sessions take sound steps\<close>

lemma ws_admission_locks:
  assumes "run_inv db" and "l \<in> set (host_execution_locks db)" and "e_now env < hl_expires_at l"
  shows "l \<in> set (host_execution_locks (ws_admission env db))"
  using delete_expired_locks [OF assms] by (auto simp: ws_admission_def cleanup_expired_def)

lemma ws_admission_tables [simp]:
  "runs (ws_admission env db) = runs db" "run_targets (ws_admission env db) = run_targets db"
  "run_events (ws_admission env db) = run_events db" "worker_leases (ws_admission env db) = worker_leases db"
  by (simp_all add: ws_admission_def cleanup_expired_def delete_sessions_def Let_def)

lemma ws_create_body_sound:
  assumes inv: "run_inv db" and ok: "ws_create_body cfg env new_id host_id actor owner db = Inr (s, db')"
  shows "sound_step (e_now env, lab) db db'"
proof (rule session_step_sound)
  show "run_inv db'" using assms by (rule ws_create_body_inv)
  let ?a = "ws_admission env db"
  let ?l = "ws_lock host_id new_id (''pending:'' @ owner) (e_now env) (e_now env + seconds WEB_SHELL_TICKET_SECONDS)"
  have db': "db' = audit_append env WEB_SHELL_REQUESTED AO_SUCCEEDED SRC_API (ws_audit_details actor new_id)
      (?a\<lparr>web_shell_sessions := web_shell_sessions ?a @ [s],
          host_execution_locks := snd (upsert_lock (e_now env) ?l (host_execution_locks ?a))\<rparr>)"
    using ws_create_body_InrD [OF ok] by metis
  then show "runs db' = runs db" "run_targets db' = run_targets db" "run_events db' = run_events db"
    "worker_leases db' = worker_leases db" by simp_all
  show "locks_kept (fst (e_now env, lab)) db db'"
    unfolding locks_kept_def fst_conv
  proof (intro ballI impI disjI2)
    fix l assume l: "l \<in> set (host_execution_locks db)" "e_now env < hl_expires_at l"
    have keys: "keys_ok ?a" using run_invD(1) [OF ws_admission_inv [OF inv]] .
    have "lock_of (host_execution_locks ?a) (hl_host_id l) = Some l"
      using ws_admission_locks [OF inv l] by (simp add: lock_of_set [OF keys])
    then have "lock_of (host_execution_locks db') (hl_host_id l) = Some l"
      using host_locks.unexpired_lock_kept [OF _ l(2)] by (simp add: db')
    then have "l \<in> set (host_execution_locks db')" by (auto simp: lock_of_def dest: fetch_one_SomeD)
    then show "\<exists>l' \<in> set (host_execution_locks db'). same_holder l l' \<and> e_now env < hl_expires_at l'"
      using l(2) by (auto simp: same_holder_def)
  qed
qed

lemma ws_create_sound:
  "run_inv db \<Longrightarrow> sound_step (e_now env, lab) db (snd (ws_create cfg env new_id host_id actor owner db))"
  by (cases rule: unit_of_work_cases [of "ws_create_body cfg env new_id host_id actor owner" db])
    (auto simp: ws_create_def intro: ws_create_body_sound sound_step_refl)

lemma activate_sound:
  assumes "run_inv db" and act: "activate i auth w now e db = Inr (res, db')" and "now < e"
  shows "sound_step (now, lab) db db'"
proof (rule session_step_sound, unfold fst_conv)
  show "run_inv db'" using assms(1,2) by (rule activate_inv)
  show "runs db' = runs db" "run_targets db' = run_targets db" "run_events db' = run_events db" "worker_leases db' = worker_leases db"
    using act by (auto simp: activate_def Let_def split: option.splits if_splits)
  show "locks_kept now db db'"
  proof (cases res)
    case None
    then show ?thesis using act
      by (intro locks_kept_same) (auto simp: activate_def Let_def split: option.splits if_splits)
  next
    case (Some s)
    show ?thesis
      by (rule locks_kept_update [where q = "\<lambda>l. hl_web_shell_session_id l = Some i \<and> hl_expires_at l > now"
            and g = "\<lambda>l. l\<lparr>hl_owner_id := w, hl_expires_at := e\<rparr>"])
        (use act Some assms(3) in \<open>auto simp: activate_def Let_def same_holder_def split: option.splits if_splits\<close>)
  qed
qed

lemma ws_claim_sound:
  assumes inv: "run_inv db"
  shows "sound_step (e_now env, lab) db (snd (ws_claim decrypt env i actor owner db))"
proof (cases rule: unit_of_work_cases [of "ws_claim_body decrypt env i actor owner" db])
  case (committed launch db')
  from committed(1) obtain act db1 where a: "activate i (sp_session_id actor) owner (e_now env)
      (e_now env + seconds WEB_SHELL_LEASE_SECONDS) db = Inr (Some act, db1)"
    and db': "db' = audit_append env WEB_SHELL_STARTED AO_SUCCEEDED SRC_API (ws_audit_details actor i) db1"
    by (rule ws_claim_body_InrD)
  have "sound_step (e_now env, lab) db db'"
    unfolding db' by (intro sound_step_audit activate_sound [OF inv a]) (simp add: WEB_SHELL_LEASE_SECONDS_def)
  then show ?thesis using committed(2) inv by (simp add: ws_claim_def sound_step_refl)
qed (simp add: ws_claim_def sound_step_refl inv)

lemma ws_heartbeat_sound:
  assumes "run_inv db"
  shows "sound_step (e_now env, lab) db (snd (ws_heartbeat env i w la db))"
  unfolding ws_heartbeat_db
proof (rule session_step_sound)
  let ?e = "e_now env + seconds WEB_SHELL_LEASE_SECONDS"
  show "run_inv (snd (ws_heartbeat_row i w (e_now env) ?e la db))" using assms by (rule ws_heartbeat_row_inv)
  have "\<exists>q. host_execution_locks (snd (ws_heartbeat_row i w (e_now env) ?e la db)) =
      update_where q (\<lambda>l. l\<lparr>hl_expires_at := ?e\<rparr>) (host_execution_locks db)"
    by (auto simp: ws_heartbeat_row_def Let_def)
  then obtain q where q: "host_execution_locks (snd (ws_heartbeat_row i w (e_now env) ?e la db)) =
      update_where q (\<lambda>l. l\<lparr>hl_expires_at := ?e\<rparr>) (host_execution_locks db)" ..
  show "locks_kept (fst (e_now env, lab)) db (snd (ws_heartbeat_row i w (e_now env) ?e la db))"
    by (rule locks_kept_update [OF q]) (simp_all add: same_holder_def WEB_SHELL_LEASE_SECONDS_def)
qed (simp_all add: ws_heartbeat_row_def Let_def)

lemma mark_close_requested_sound:
  "run_inv db \<Longrightarrow> sound_step lab db (snd (mark_close_requested i user now' db))"
  by (intro session_step_sound mark_close_requested_inv locks_kept_same)
    (simp_all add: mark_close_requested_def Let_def)

lemma ws_delete_sound: "run_inv db \<Longrightarrow> sound_step lab db (snd (ws_delete i w db))"
  by (simp add: ws_delete_def Let_def delete_sessions_sound)

lemma ws_finished_event_sound:
  "sound_step lab db db1 \<Longrightarrow> sound_step lab db (ws_finished_event env s reason db1)"
  by (simp add: ws_finished_event_def Let_def sound_step_audit)

lemma ws_request_close_sound:
  assumes "run_inv db"
  shows "sound_step lab db (ws_request_close env i actor db)"
proof -
  note sound_step_refl [OF assms, of lab] ws_delete_sound [OF assms, of lab i None]
    mark_close_requested_sound [OF assms, of lab i "sp_user_id actor" "e_now env"]
  then show ?thesis
    by (auto simp: ws_request_close_def intro: sound_step_audit ws_finished_event_sound
        split: option.splits prod.splits web_shell_state.splits)
qed

lemma ws_finish_sound: "run_inv db \<Longrightarrow> sound_step lab db (ws_finish env i w reason db)"
  using ws_delete_sound [of db lab i "Some w"]
  by (auto simp: ws_finish_def intro: ws_finished_event_sound split: prod.splits option.splits)

lemma ws_recover_stale_sound: "run_inv db \<Longrightarrow> sound_step lab db (snd (ws_recover_stale env db))"
  using delete_sessions_sound [of db lab "ws_expired (e_now env)"]
  by (auto simp: ws_recover_stale_def cleanup_expired_def intro: sound_step_audit)

end
