(* ===== verification/Executions.thy ===== *)
theory Executions
  imports Main
begin

text \<open>
  Executions of a labelled step relation. The locales state what is to be shown of one step, an
  invariant and a relation between earlier and later states, and give the consequence for
  executions; they are interpreted on the steps of the queue, of accounts, of assets and of playbooks.
\<close>

section \<open>Executions\<close>

inductive exec :: "('l \<Rightarrow> 's \<Rightarrow> 's \<Rightarrow> bool) \<Rightarrow> 's \<Rightarrow> 'l list \<Rightarrow> 's \<Rightarrow> bool" for step where
  exec_refl: "exec step s [] s"
| exec_step: "step l s s1 \<Longrightarrow> exec step s1 ls s2 \<Longrightarrow> exec step s (l # ls) s2"

inductive_simps exec_Nil_iff: "exec step s [] s'"
inductive_simps exec_Cons_iff: "exec step s (l # ls) s'"

lemmas exec_iff = exec_Nil_iff exec_Cons_iff

locale invariant_system =
  fixes step :: "'l \<Rightarrow> 's \<Rightarrow> 's \<Rightarrow> bool" and ok :: "'s \<Rightarrow> bool"
  assumes step_ok: "\<lbrakk>ok s; step l s s'\<rbrakk> \<Longrightarrow> ok s'"
begin

lemma exec_ok: "exec step s ls s' \<Longrightarrow> ok s \<Longrightarrow> ok s'"
  by (induction rule: exec.induct) (auto dest: step_ok)

end

locale monotone_system = invariant_system +
  fixes below :: "'s \<Rightarrow> 's \<Rightarrow> bool"
  assumes below_refl: "below s s"
    and below_trans: "\<lbrakk>below s s1; below s1 s2\<rbrakk> \<Longrightarrow> below s s2"
    and step_below: "\<lbrakk>ok s; step l s s'\<rbrakk> \<Longrightarrow> below s s'"
begin

lemma exec_below: "exec step s ls s' \<Longrightarrow> ok s \<Longrightarrow> below s s'"
proof (induction rule: exec.induct)
  case (exec_step l s s1 ls s2)
  then show ?case using step_ok step_below below_trans by blast
qed (rule below_refl)

end

end
