(* ===== verification/Run_Machine.thy ===== *)
theory Run_Machine
  imports Service_Steps Executions
begin

text \<open>
  The services as a labelled state machine over the database, its executions, and what holds along
  every execution: the invariant, the history and, while workers renew their leases in time, that
  two running runs never share a host. The locales of \<open>Executions\<close> are interpreted on \<open>run_step\<close> and
  on its timed version.
\<close>

section \<open>The steps\<close>

text \<open>
  A label is the time of the step and the worker whose lease it renews, if any. The guards of the
  worker's rules are what \<open>worker.py\<close> guarantees of its calls: it reports only on runs it claimed
  and on their targets, and only final statuses. Whatever other services do leaves the six tables
  alone: hosts that a lock names cannot be deleted (\<open>ON DELETE RESTRICT\<close> of targets and sessions).
\<close>

inductive run_step :: "step_label \<Rightarrow> db \<Rightarrow> db \<Rightarrow> bool" where
  create_run: "run_step (e_now env, None) db (snd (create_run svc env fresh rq db))"
| retry: "run_step (e_now env, None) db (snd (retry svc env fresh actor i user key params db))"
| cancel: "run_step (e_now env, None) db (snd (cancel svc env fresh actor i user db))"
| consume: "run_step (e_now env, None) db (snd (consume_secret_inputs svc env i names db))"
| worker_heartbeat: "worker_ok w \<Longrightarrow>
    run_step (e_now env, Some (w_id w)) db (worker_heartbeat w env run_id db)"
| worker_recover_stale: "run_step (e_now env, None) db (snd (worker_recover_stale w env db))"
| worker_claim: "worker_ok w \<Longrightarrow>
    run_step (e_now env, Some (w_id w)) db (snd (worker_claim id locked w env db))"
| worker_mark_running: "get_run i db = Some r \<Longrightarrow> r_claimed_by r = Some (w_id w) \<Longrightarrow>
    run_step (e_now env, None) db (worker_mark_running w env i db)"
| worker_append_event:
    "run_step (e_now env, None) db (snd (worker_append_event w env ev i ty out task data tgt db))"
| worker_finish_target: "t \<in> set (run_targets db) \<Longrightarrow> get_run (t_run_id t) db = Some r \<Longrightarrow>
    r_claimed_by r = Some (w_id w) \<Longrightarrow> status \<notin> {TS_PENDING, TS_RUNNING} \<Longrightarrow>
    run_step (e_now env, None) db
      (worker_finish_target w env (t_run_id t) (t_id t) (t_host_id t) status rc out err result tr ch fa un db)"
| worker_finish: "terminal status \<Longrightarrow>
    run_step (e_now env, None) db (snd (worker_finish w env ev i status rc summary fc fm st db))"
| ws_create: "run_step (e_now env, None) db (snd (ws_create cfg env new_id host_id actor owner db))"
| ws_claim: "run_step (e_now env, None) db (snd (ws_claim decrypt env i actor owner db))"
| ws_heartbeat: "run_step (e_now env, None) db (snd (ws_heartbeat env i owner la db))"
| ws_request_close: "run_step (e_now env, None) db (ws_request_close env i actor db)"
| ws_finish: "run_step (e_now env, None) db (ws_finish env i owner reason db)"
| ws_recover_stale: "run_step (e_now env, None) db (snd (ws_recover_stale env db))"
| other: "same_run_tables db db' \<Longrightarrow> run_step (now, None) db db'"

lemmas service_sound = create_run_sound retry_sound cancel_sound consume_sound worker_heartbeat_sound
  worker_recover_stale_sound worker_claim_sound worker_append_event_sound worker_finish_sound
  ws_create_sound ws_claim_sound ws_heartbeat_sound ws_request_close_sound ws_finish_sound
  ws_recover_stale_sound sound_step_same

lemma run_step_sound:
  assumes "run_step l db db'" and "run_inv db"
  shows "sound_step l db db'"
  using assms
proof (cases rule: run_step.cases)
  case (worker_mark_running i r w env)
  then show ?thesis using worker_mark_running_sound [OF assms(2)] by simp
next
  case (worker_finish_target t r w status env)
  then show ?thesis using worker_finish_target_sound [OF assms(2)] by simp
qed (simp_all add: service_sound)

interpretation queue: monotone_system run_step run_inv history_kept
  by unfold_locales
    (auto dest: run_step_sound simp: sound_step_def intro: history_kept_trans)

section \<open>Leases renewed in time\<close>

definition live_worker :: "string \<Rightarrow> timestamp \<Rightarrow> db \<Rightarrow> bool" where
  "live_worker w now db = (case lease_of w db of None \<Rightarrow> False | Some l \<Rightarrow> now < wl_expires_at l)"

text \<open>A run is executing when it is active and the lease of its worker has not expired.\<close>

definition executing :: "timestamp \<Rightarrow> db \<Rightarrow> uuid \<Rightarrow> bool" where
  "executing now db i =
     (case get_run i db of
        None \<Rightarrow> False
      | Some r \<Rightarrow> active (r_status r) \<and>
          (case r_claimed_by r of None \<Rightarrow> False | Some w \<Rightarrow> live_worker w now db))"

definition covered :: "timestamp \<Rightarrow> db \<Rightarrow> bool" where
  "covered now db \<longleftrightarrow> (\<forall>i. executing now db i \<longrightarrow> holds_targets now i db)"

text \<open>
  A worker with an active run renews its lease before it expires; the clock does not run backwards.
\<close>

definition renews_in_time :: "step_label \<Rightarrow> db \<Rightarrow> bool" where
  "renews_in_time lab db \<longleftrightarrow>
     (\<forall>r \<in> set (runs db). active (r_status r) \<longrightarrow> r_claimed_by r \<noteq> None \<longrightarrow>
        r_claimed_by r = snd lab \<longrightarrow> live_worker (the (snd lab)) (fst lab) db)"

inductive timed_step :: "step_label \<Rightarrow> timestamp \<times> db \<Rightarrow> timestamp \<times> db \<Rightarrow> bool" where
  timed: "\<lbrakk>t \<le> fst lab; renews_in_time lab db; run_step lab db db'\<rbrakk> \<Longrightarrow>
     timed_step lab (t, db) (fst lab, db')"

inductive_cases timed_stepE: "timed_step lab s s'"

lemma executingE:
  assumes "executing now db i"
  obtains r w where "get_run i db = Some r" "active (r_status r)" "r_claimed_by r = Some w" "live_worker w now db"
  using assms by (auto simp: executing_def split: option.splits)

lemma executing_before:
  assumes calm: "calm lab db db'" and renew: "renews_in_time lab db" and "t \<le> fst lab"
    and ex: "executing (fst lab) db' i" and new: "\<not> holds_targets (fst lab) i db'"
  shows "executing t db i" and "executing (fst lab) db i"
proof -
  obtain r' w where r': "get_run i db' = Some r'" "active (r_status r')" "r_claimed_by r' = Some w"
    and live: "live_worker w (fst lab) db'" using ex by (rule executingE)
  obtain r where r: "get_run i db = Some r" "active (r_status r)" "r_claimed_by r = Some w"
    using calmD(1) [OF calm r'(1,2)] new r'(3) by auto
  obtain l' where l': "lease_of w db' = Some l'" "fst lab < wl_expires_at l'"
    using live by (auto simp: live_worker_def split: option.splits)
  have "live_worker w (fst lab) db"
  proof (cases "snd lab = Some w")
    case True
    have "r \<in> set (runs db)" using get_run_SomeD [OF r(1)] by simp
    then show ?thesis using renew r(2,3) True unfolding renews_in_time_def by fastforce
  next
    case False
    then show ?thesis using calmD(3) [OF calm l'(1)] l'(2) by (auto simp: live_worker_def)
  qed
  moreover from this have "live_worker w t db"
    using assms(3) by (auto simp: live_worker_def split: option.splits)
  ultimately show "executing t db i" and "executing (fst lab) db i" using r by (simp_all add: executing_def)
qed

text \<open>The lock of an executing run expires with the lease of its worker.\<close>

lemma holds_targets_executing:
  assumes inv: "run_inv db" and "holds_targets t i db" and ex: "executing now db i"
  shows "holds_targets now i db"
  unfolding holds_targets_def
proof (intro allI impI)
  fix h assume "(i, h) \<in> target_pairs db"
  then obtain l where l: "l \<in> set (host_execution_locks db)" "hl_host_id l = h" "hl_run_id l = Some i"
    using assms(2) unfolding holds_targets_def by metis
  obtain r w where r: "get_run i db = Some r" "r_claimed_by r = Some w" and live: "live_worker w now db"
    using ex by (rule executingE)
  have "w = hl_owner_id l" using run_lock_active(2) [OF inv l(1,3) r(1)] r(2) by simp
  moreover from inv l(1) obtain x where "lease_of (hl_owner_id l) db = Some x" "wl_expires_at x = hl_expires_at l"
    by (cases rule: lock_cases) (use l(3) in \<open>auto simp: run_lock_ok_def split: option.splits\<close>)
  ultimately have "now < hl_expires_at l" using live by (simp add: live_worker_def)
  then show "\<exists>l \<in> set (host_execution_locks db). hl_host_id l = h \<and> hl_run_id l = Some i \<and> now < hl_expires_at l"
    using l by blast
qed

lemma timed_step_covered:
  assumes inv: "run_inv db" and cov: "covered t db" and "t \<le> fst lab" and renew: "renews_in_time lab db"
    and step: "run_step lab db db'"
  shows "covered (fst lab) db'"
  unfolding covered_def
proof (intro allI impI)
  fix i assume ex: "executing (fst lab) db' i"
  have sound: "locks_kept (fst lab) db db'" "calm lab db db'"
    using run_step_sound [OF step inv] by (simp_all add: sound_step_def)
  show "holds_targets (fst lab) i db'"
  proof (rule ccontr)
    assume new: "\<not> holds_targets (fst lab) i db'"
    note before = executing_before [OF sound(2) renew assms(3) ex new]
    have "holds_targets (fst lab) i db"
      using holds_targets_executing [OF inv _ before(2)] cov before(1) by (auto simp: covered_def)
    moreover have "(i, h) \<in> target_pairs db" if "(i, h) \<in> target_pairs db'" for h
      using calmD(2) [OF sound(2) that] before(1) by (auto simp: executing_def)
    ultimately show False using holds_targets_kept [OF _ sound(1)] ex new by (meson executingE)
  qed
qed

interpretation timed: invariant_system timed_step "\<lambda>s. run_inv (snd s) \<and> covered (fst s) (snd s)"
  by unfold_locales (auto elim!: timed_stepE dest: queue.step_ok timed_step_covered)

lemma holders_agree:
  assumes "keys_ok db" and "holds_targets t i db" and "holds_targets t j db"
    and "(i, h) \<in> target_pairs db" and "(j, h) \<in> target_pairs db"
  shows "i = j"
proof -
  obtain l where l: "l \<in> set (host_execution_locks db)" "hl_host_id l = h" "hl_run_id l = Some i"
    using assms(2,4) unfolding holds_targets_def by metis
  obtain l' where l': "l' \<in> set (host_execution_locks db)" "hl_host_id l' = h" "hl_run_id l' = Some j"
    using assms(3,5) unfolding holds_targets_def by metis
  have "l = l'" using row_by_key [of hl_host_id _ l l'] assms(1) l(1,2) l'(1,2) by (auto simp: keys_ok_def)
  then show ?thesis using l(3) l'(3) by simp
qed

end
