(* ===== verification/Run_Properties.thy ===== *)
theory Run_Properties
  imports Run_Machine
begin

text \<open>
  The properties of the run queue, with a small sample database on which their witnesses run: two
  queued runs for one host and two workers.
\<close>

section \<open>A sample database\<close>

definition sample_run :: "uuid \<Rightarrow> run" where
  "sample_run i =
     \<lparr>r_id = i, r_source_run_id = None, r_kind = PING, r_status = RS_QUEUED, r_target_spec = [],
      r_resolved_targets = [], r_operation_spec = [], r_inventory_snapshot = [],
      r_workspace_revision = None, r_playbook_id = None, r_playbook_revision = None,
      r_credential_versions = [], r_timeout_seconds = 60, r_forks = 1, r_cancel_requested_at = None,
      r_claimed_by = None, r_claimed_at = None, r_started_at = None, r_finished_at = None,
      r_return_code = None, r_summary = [], r_failure_code = None, r_failure_message = None,
      r_requested_by = 9, r_idempotency_key = replicate i (CHR ''k''), r_request_fingerprint = ''fp'',
      r_fingerprint_scheme = LEGACY_SHA256, r_created_at = int i, r_updated_at = int i,
      r_next_event_sequence = 1\<rparr>"

definition sample_db :: db where
  "sample_db = empty_db\<lparr>runs := [sample_run 1, sample_run 2],
     run_targets := [new_target 11 1 100 ''host'' ''10.0.0.1'', new_target 12 2 100 ''host'' ''10.0.0.1'']\<rparr>"

definition sample_settings :: settings where
  "sample_settings = \<lparr>set_worker_lease_seconds = 30, set_max_event_output_bytes = 1024,
     set_max_run_output_bytes = 4096, set_playbook_source_mode = MODE_BOTH,
     set_web_shell_max_sessions = 4, set_totp_enabled = True, set_session_ttl_seconds = 3600,
     set_auth_login_ip_limit = 20, set_auth_login_ip_window_seconds = 300,
     set_auth_login_username_ip_limit = 5, set_auth_login_username_ip_window_seconds = 300\<rparr>"

definition sample_worker :: "string \<Rightarrow> worker" where
  "sample_worker w = \<lparr>w_id = w, w_settings = sample_settings\<rparr>"

definition sample_env :: "timestamp \<Rightarrow> env" where
  "sample_env now = \<lparr>e_now = now, e_ctx = empty_context\<rparr>"

text \<open>Worker \<open>a\<close> claims run 1; ten seconds after that lease ended, worker \<open>b\<close> claims run 2.\<close>

definition sample_claimed :: db where
  "sample_claimed = snd (worker_claim id [] (sample_worker ''a'') (sample_env (seconds 1)) sample_db)"

definition sample_overtaken :: db where
  "sample_overtaken = snd (worker_claim id [] (sample_worker ''b'') (sample_env (seconds 41)) sample_claimed)"

lemma sample_inv: "run_inv sample_db"
proof
  show "keys_ok sample_db" "rows_ok sample_db" "targets_ok sample_db" "locks_ok sample_db" by code_simp+
  show "events_ok sample_db"
    by (auto simp: events_ok_def sample_db_def empty_db_def get_run_def sample_run_def)
qed

lemma sample_covered: "covered 0 sample_db"
  by (auto simp: covered_def executing_def sample_db_def get_run_def sample_run_def split: option.splits)

lemma worker_ok_sample [simp]: "worker_ok (sample_worker w)"
  by (simp add: worker_ok_def sample_worker_def sample_settings_def)

lemma sample_simps [simp]: "w_id (sample_worker w) = w" "e_now (sample_env t) = t"
  by (simp_all add: sample_worker_def sample_env_def)

lemma sample_claim_step: "run_step (seconds 1, Some ''a'') sample_db sample_claimed"
  using run_step.worker_claim [of "sample_worker ''a''" "sample_env (seconds 1)" sample_db "[]"]
  by (simp add: sample_claimed_def)

lemma sample_overtake_step: "run_step (seconds 41, Some ''b'') sample_claimed sample_overtaken"
  using run_step.worker_claim [of "sample_worker ''b''" "sample_env (seconds 41)" sample_claimed "[]"]
  by (simp add: sample_overtaken_def)

lemma sample_exec: "exec run_step sample_db [(seconds 1, Some ''a''), (seconds 41, Some ''b'')] sample_overtaken"
  using sample_claim_step sample_overtake_step by (auto simp: exec_iff)

section \<open>The invariant and the locks\<close>

text \<open>
  C1: Every state the services reach from a state with the invariant has it: keys are unique, a run
  is unclaimed while queued and claimed while active, a finished run has no unfinished target,
  every lock belongs to an active run of its owner or to a session and expires with its holder's
  lease, and the events of a run are numbered 1, 2, 3, .. without a gap.
\<close>

theorem services_keep_invariant:
  assumes "exec run_step db ls db'" and "run_inv db"
  shows "run_inv db'"
  using assms by (rule queue.exec_ok)

theorem services_keep_invariant_witness: "run_inv sample_overtaken"
  by (rule services_keep_invariant [OF sample_exec sample_inv])

text \<open>
  C2: No operation takes an unexpired host lock away: after any step of any service, at the time of
  the step, the lock is still held by the same run or session and still unexpired, unless that run
  is terminal or that session is gone. So a host has one holder at a time.
\<close>

theorem unexpired_lock_kept_or_released:
  assumes "run_step (now, renewed) db db'" and "run_inv db"
    and "l \<in> set (host_execution_locks db)" and "now < hl_expires_at l"
  shows "holder_ended l db' \<or>
     (\<exists>l' \<in> set (host_execution_locks db'). same_holder l l' \<and> now < hl_expires_at l' \<and>
        lock_of (host_execution_locks db') (hl_host_id l) = Some l')"
proof -
  have "run_inv db'" "locks_kept now db db'"
    using run_step_sound [OF assms(1,2)] by (simp_all add: sound_step_def)
  then show ?thesis
    using assms(3,4) lock_of_set [OF run_invD(1)] unfolding locks_kept_def same_holder_def by metis
qed

lemma sample_claimed_lock:
  "run_lock 1 ''a'' (seconds 1) (seconds 31) 100 \<in> set (host_execution_locks sample_claimed)"
  by code_simp

lemma sample_claimed_inv: "run_inv sample_claimed"
  using queue.step_ok [OF sample_inv sample_claim_step] .

definition sample_blocked :: db where
  "sample_blocked = snd (worker_claim id [] (sample_worker ''b'') (sample_env (seconds 20)) sample_claimed)"

lemma sample_blocked_step: "run_step (seconds 20, Some ''b'') sample_claimed sample_blocked"
  using run_step.worker_claim [of "sample_worker ''b''" "sample_env (seconds 20)" sample_claimed "[]"]
  by (simp add: sample_blocked_def)

theorem unexpired_lock_kept_or_released_witness:
  "\<exists>l \<in> set (host_execution_locks sample_blocked). hl_run_id l = Some 1 \<and> hl_host_id l = 100"
proof -
  let ?l = "run_lock 1 ''a'' (seconds 1) (seconds 31) 100"
  have "\<not> holder_ended ?l sample_blocked" by code_simp
  moreover have "seconds 20 < hl_expires_at ?l" by (simp add: run_lock_def)
  ultimately show ?thesis
    using unexpired_lock_kept_or_released [OF sample_blocked_step sample_claimed_inv sample_claimed_lock]
    by (auto simp: same_holder_def run_lock_def)
qed

text \<open>
  C3: As long as every worker renews its lease before it expires, two executing runs never share a
  target host, whatever requests, claims, cancellations, recoveries and Web Shell sessions are
  interleaved.
\<close>

theorem executing_runs_disjoint:
  assumes "exec timed_step (t0, db0) ls (t, db)" and "run_inv db0" and "covered t0 db0"
    and "executing t db i" and "executing t db j" and "i \<noteq> j"
  shows "\<not> ((i, h) \<in> target_pairs db \<and> (j, h) \<in> target_pairs db)"
proof -
  have "run_inv db \<and> covered t db" using timed.exec_ok [OF assms(1)] assms(2,3) by simp
  then show ?thesis
    using holders_agree [OF run_invD(1), of db t i j h] assms(4-6) by (auto simp: covered_def)
qed

definition sample_two_hosts :: db where
  "sample_two_hosts = sample_db\<lparr>run_targets :=
     [new_target 11 1 100 ''host'' ''10.0.0.1'', new_target 12 2 200 ''other'' ''10.0.0.2'']\<rparr>"

definition sample_two_claims :: db where
  "sample_two_claims = snd (worker_claim id [] (sample_worker ''b'') (sample_env (seconds 2))
     (snd (worker_claim id [] (sample_worker ''a'') (sample_env (seconds 1)) sample_two_hosts)))"

lemma sample_two_exec:
  "exec timed_step (0, sample_two_hosts) [(seconds 1, Some ''a''), (seconds 2, Some ''b'')] (seconds 2, sample_two_claims)"
proof -
  let ?db = "snd (worker_claim id [] (sample_worker ''a'') (sample_env (seconds 1)) sample_two_hosts)"
  have "run_step (seconds 1, Some ''a'') sample_two_hosts ?db"
    using run_step.worker_claim [of "sample_worker ''a''" "sample_env (seconds 1)" sample_two_hosts "[]"] by simp
  moreover have "renews_in_time (seconds 1, Some ''a'') sample_two_hosts" by code_simp
  ultimately have 1: "timed_step (seconds 1, Some ''a'') (0, sample_two_hosts) (seconds 1, ?db)"
    using timed [of 0 "(seconds 1, Some ''a'')"] by simp
  have "run_step (seconds 2, Some ''b'') ?db sample_two_claims"
    using run_step.worker_claim [of "sample_worker ''b''" "sample_env (seconds 2)" ?db "[]"]
    by (simp add: sample_two_claims_def)
  moreover have "renews_in_time (seconds 2, Some ''b'') ?db" by code_simp
  ultimately have "timed_step (seconds 2, Some ''b'') (seconds 1, ?db) (seconds 2, sample_two_claims)"
    using timed [of "seconds 1" "(seconds 2, Some ''b'')"] by simp
  then show ?thesis using 1 by (auto simp: exec_iff)
qed

lemma sample_two_inv: "run_inv sample_two_hosts"
proof
  show "keys_ok sample_two_hosts" "rows_ok sample_two_hosts" "targets_ok sample_two_hosts" "locks_ok sample_two_hosts"
    by code_simp+
  show "events_ok sample_two_hosts"
    by (auto simp: events_ok_def sample_two_hosts_def sample_db_def empty_db_def get_run_def sample_run_def)
qed

theorem executing_runs_disjoint_witness:
  "executing (seconds 2) sample_two_claims 1 \<and> executing (seconds 2) sample_two_claims 2 \<and>
   \<not> ((1, 100) \<in> target_pairs sample_two_claims \<and> (2, 100) \<in> target_pairs sample_two_claims)"
proof -
  have e: "executing (seconds 2) sample_two_claims 1" "executing (seconds 2) sample_two_claims 2" by code_simp+
  have "covered 0 sample_two_hosts"
    by (auto simp: covered_def executing_def sample_two_hosts_def sample_db_def get_run_def sample_run_def
        split: option.splits)
  then show ?thesis
    using executing_runs_disjoint [OF sample_two_exec sample_two_inv _ e, of 100] e by simp
qed

text \<open>
  Without that premise exclusivity fails: a heartbeat after the lease ended revives the run
  although another worker has meanwhile locked its host and claimed a second run there. Both runs
  are then active with unexpired leases on host 100.
\<close>

theorem late_heartbeat_shares_host:
  "\<exists>ls db. exec run_step sample_db ls db \<and> executing (seconds 45) db 1 \<and> executing (seconds 45) db 2 \<and>
     (1, 100) \<in> target_pairs db \<and> (2, 100) \<in> target_pairs db"
proof -
  let ?db = "worker_heartbeat (sample_worker ''a'') (sample_env (seconds 45)) (Some 1) sample_overtaken"
  have "run_step (seconds 45, Some ''a'') sample_overtaken ?db"
    using run_step.worker_heartbeat [of "sample_worker ''a''" "sample_env (seconds 45)" sample_overtaken "Some 1"] by simp
  then have "exec run_step sample_db [(seconds 1, Some ''a''), (seconds 41, Some ''b''), (seconds 45, Some ''a'')] ?db"
    using sample_claim_step sample_overtake_step by (auto simp: exec_iff)
  moreover have "executing (seconds 45) ?db 1 \<and> executing (seconds 45) ?db 2 \<and>
      (1, 100) \<in> target_pairs ?db \<and> (2, 100) \<in> target_pairs ?db"
    by code_simp
  ultimately show ?thesis by blast
qed

section \<open>The history of a run\<close>

text \<open>
  C4: A terminal run is final: along every execution its row stays exactly as it was, except that
  later events may raise its event counter.
\<close>

theorem terminal_run_frozen:
  assumes "exec run_step db ls db'" and "run_inv db" and "get_run i db = Some r" and "terminal (r_status r)"
  shows "\<exists>n \<ge> r_next_event_sequence r. get_run i db' = Some (r\<lparr>r_next_event_sequence := n\<rparr>)"
proof -
  obtain r' where r': "get_run i db' = Some r'" "run_evolves r r'"
    using queue.exec_below [OF assms(1,2)] assms(3) unfolding history_kept_def by blast
  obtain n where n: "r' = r\<lparr>r_next_event_sequence := n\<rparr>" using r'(2) assms(4) by (rule run_evolves_terminal)
  moreover have "r_next_event_sequence r \<le> r_next_event_sequence r'" using r'(2) by (simp add: run_evolves_def)
  ultimately show ?thesis using r'(1) by auto
qed

definition sample_recovered :: db where
  "sample_recovered = snd (worker_recover_stale (sample_worker ''b'') (sample_env (seconds 41)) sample_claimed)"

lemma sample_recover_step: "run_step (seconds 41, None) sample_claimed sample_recovered"
  using run_step.worker_recover_stale [of "sample_env (seconds 41)" sample_claimed "sample_worker ''b''"]
  by (simp add: sample_recovered_def)

lemma sample_recovered_inv: "run_inv sample_recovered"
  using queue.step_ok [OF sample_claimed_inv sample_recover_step] .

text \<open>The interrupted worker still appends an event and reports its target.\<close>

definition sample_late_event :: db where
  "sample_late_event = snd (worker_append_event (sample_worker ''a'') (sample_env (seconds 50)) 77 1
     ''runner_on_ok'' (Some ''ok'') None [] (Some 11) sample_recovered)"

lemma sample_late_event_exec: "exec run_step sample_recovered [(seconds 50, None)] sample_late_event"
  using run_step.worker_append_event [of "sample_env (seconds 50)" sample_recovered "sample_worker ''a''" 77 1
      "''runner_on_ok''" "Some ''ok''" None "[]" "Some 11"]
  by (auto simp: exec_iff sample_late_event_def)

theorem terminal_run_frozen_witness:
  "\<exists>r n. get_run 1 sample_recovered = Some r \<and> r_status r = RS_INTERRUPTED \<and>
     get_run 1 sample_late_event = Some (r\<lparr>r_next_event_sequence := n\<rparr>)"
proof -
  have "case get_run 1 sample_recovered of None \<Rightarrow> False | Some r \<Rightarrow> r_status r = RS_INTERRUPTED" by code_simp
  then obtain r where r: "get_run 1 sample_recovered = Some r" "r_status r = RS_INTERRUPTED"
    by (auto split: option.splits)
  then show ?thesis
    using terminal_run_frozen [OF sample_late_event_exec sample_recovered_inv r(1)] by (auto simp: terminal_iff)
qed

text \<open>
  The life of a run as an abstract automaton: queued, claimed by one worker, running, and finished
  by that worker (or by recovery on its behalf), or canceled while queued.
\<close>

inductive lifecycle :: "run_status \<times> string option \<Rightarrow> run_status \<times> string option \<Rightarrow> bool" where
  claimed: "lifecycle (RS_QUEUED, None) (RS_PREPARING, Some w)"
| started: "lifecycle (RS_PREPARING, Some w) (RS_RUNNING, Some w)"
| finished: "active s \<Longrightarrow> terminal s' \<Longrightarrow> lifecycle (s, Some w) (s', Some w)"
| canceled: "lifecycle (RS_QUEUED, None) (RS_CANCELED, None)"

definition life :: "run \<Rightarrow> run_status \<times> string option" where
  "life r = (r_status r, r_claimed_by r)"

lemma lifecycle_active: "active s \<Longrightarrow> lifecycle\<^sup>*\<^sup>* (RS_QUEUED, None) (s, Some w)"
  by (auto intro: lifecycle.intros rtranclp.intros)

lemma lifecycle_queued:
  assumes "run_row_ok r"
  shows "lifecycle\<^sup>*\<^sup>* (RS_QUEUED, None) (life r)"
proof (cases "r_claimed_by r")
  case None
  then have "life r = (RS_QUEUED, None) \<or> life r = (RS_CANCELED, None)" using assms by (auto simp: run_row_ok_def life_def)
  then show ?thesis using r_into_rtranclp [of lifecycle, OF lifecycle.canceled] by auto
next
  case (Some w)
  then have "active (r_status r) \<or> terminal (r_status r)" using assms by (cases "r_status r") (auto simp: run_row_ok_def terminal_iff)
  then show ?thesis
    using Some lifecycle_active lifecycle.finished [of RS_PREPARING "r_status r" w]
    by (auto simp: life_def intro: rtranclp.rtrancl_into_rtrancl [OF lifecycle_active])
qed

lemma lifecycle_evolves:
  assumes "run_evolves r r'" and "run_row_ok r" and "run_row_ok r'"
  shows "lifecycle\<^sup>*\<^sup>* (life r) (life r')"
proof (cases "r_status r = RS_QUEUED")
  case True
  then show ?thesis using assms(2) lifecycle_queued [OF assms(3)] by (simp add: life_def run_row_ok_def)
next
  case False
  show ?thesis
  proof (cases "terminal (r_status r)")
    case True
    then show ?thesis using assms(1) by (auto simp: life_def elim!: run_evolves_terminal)
  next
    case unfinished: False
    then have act: "active (r_status r)" using False by (cases "r_status r") (auto simp: terminal_iff)
    then obtain w where w: "r_claimed_by r = Some w" "r_claimed_by r' = Some w"
      using assms(1,2) by (auto simp: run_row_ok_def run_evolves_def)
    consider "r_status r' = r_status r" | "status_rank (r_status r) < status_rank (r_status r')"
      using assms(1) by (auto simp: run_evolves_def)
    then show ?thesis
    proof cases
      case 2
      then have "r_status r = RS_PREPARING \<and> r_status r' = RS_RUNNING \<or> terminal (r_status r')"
        using act by (cases "r_status r'") (auto simp: terminal_iff)
      then show ?thesis using act w lifecycle.started lifecycle.finished by (auto simp: life_def)
    qed (simp add: life_def w)
  qed
qed

text \<open>
  C5: The queue refines the abstract life cycle of a run: whatever the services do, the status and owner
  of a run move along the automaton, from queued through a claim by one worker to a final state, and
  what the run was asked to do (kind, targets, operation, inventory and credential snapshot,
  playbook revision, limits, requester, fingerprint) never changes.
\<close>

theorem queue_refines_lifecycle:
  assumes "exec run_step db ls db'" and "run_inv db" and "get_run i db = Some r"
  shows "\<exists>r'. get_run i db' = Some r' \<and> same_request r r' \<and> lifecycle\<^sup>*\<^sup>* (life r) (life r')"
proof -
  obtain r' where r': "get_run i db' = Some r'" "run_evolves r r'"
    using queue.exec_below [OF assms(1,2)] assms(3) unfolding history_kept_def by blast
  have "run_row_ok r'" using run_inv_row [OF queue.exec_ok [OF assms(1,2)]] r'(1) by blast
  then show ?thesis
    using r' lifecycle_evolves [OF r'(2) run_inv_row [OF assms(2,3)]] by (auto simp: run_evolves_def)
qed

theorem queue_refines_lifecycle_witness:
  "\<exists>r'. get_run 1 sample_overtaken = Some r' \<and> same_request (sample_run 1) r'"
proof -
  have "get_run 1 sample_db = Some (sample_run 1)" by (simp add: get_run_def sample_db_def sample_run_def)
  then show ?thesis using queue_refines_lifecycle [OF sample_exec sample_inv] by blast
qed

text \<open>
  C6: The event log is append-only and gapless: along every execution the events before stay a
  prefix, and the events of a run are numbered from 1 up to its counter.
\<close>

theorem events_append_only_gapless:
  assumes "exec run_step db ls db'" and "run_inv db" and "get_run i db' = Some r"
  shows "\<exists>es. run_events db' = run_events db @ es \<and>
     map ev_sequence (filter (\<lambda>e. ev_run_id e = i) (run_events db')) = [1..<r_next_event_sequence r]"
proof -
  have "events_ok db'" using queue.exec_ok [OF assms(1,2)] by (rule run_invD(5))
  moreover obtain es where "run_events db' = run_events db @ es"
    using queue.exec_below [OF assms(1,2)] unfolding history_kept_def by blast
  ultimately show ?thesis using assms(3) by (simp add: events_ok_def)
qed

theorem events_append_only_gapless_witness:
  "map ev_sequence (filter (\<lambda>e. ev_run_id e = 1) (run_events sample_late_event)) = [1..<2]"
proof -
  have "case get_run 1 sample_late_event of None \<Rightarrow> False | Some r \<Rightarrow> r_next_event_sequence r = 2" by code_simp
  then obtain r where "get_run 1 sample_late_event = Some r" "r_next_event_sequence r = 2"
    by (auto split: option.splits)
  then show ?thesis
    using events_append_only_gapless [OF sample_late_event_exec sample_recovered_inv] by metis
qed

text \<open>
  The targets of a terminal run are not as final as its row: \<open>finish_target\<close> checks neither the
  owner nor the status of the run, so a worker that lost its lease still overwrites the target
  that recovery has marked interrupted.
\<close>

theorem target_of_terminal_run_overwritten:
  "\<exists>ls db. exec run_step sample_recovered ls db \<and>
     map_option r_status (get_run 1 sample_recovered) = Some RS_INTERRUPTED \<and>
     map t_status (targets_of 1 sample_recovered) = [TS_INTERRUPTED] \<and>
     map_option r_status (get_run 1 db) = Some RS_INTERRUPTED \<and>
     map t_status (targets_of 1 db) = [TS_SUCCEEDED]"
proof -
  let ?t = "hd (targets_of 1 sample_recovered)"
  let ?r = "the (get_run 1 sample_recovered)"
  let ?db = "worker_finish_target (sample_worker ''a'') (sample_env (seconds 50)) (t_run_id ?t) (t_id ?t)
      (t_host_id ?t) TS_SUCCEEDED (Some 0) [] [] [] False 0 0 0 sample_recovered"
  have guards: "?t \<in> set (run_targets sample_recovered)" "get_run (t_run_id ?t) sample_recovered = Some ?r"
    "r_claimed_by ?r = Some ''a''" by code_simp+
  then have "run_step (seconds 50, None) sample_recovered ?db"
    using run_step.worker_finish_target [of ?t sample_recovered ?r "sample_worker ''a''" TS_SUCCEEDED
        "sample_env (seconds 50)"] by simp
  then have "exec run_step sample_recovered [(seconds 50, None)] ?db" by (auto simp: exec_iff)
  moreover have "map_option r_status (get_run 1 sample_recovered) = Some RS_INTERRUPTED \<and>
     map t_status (targets_of 1 sample_recovered) = [TS_INTERRUPTED] \<and>
     map_option r_status (get_run 1 ?db) = Some RS_INTERRUPTED \<and>
     map t_status (targets_of 1 ?db) = [TS_SUCCEEDED]" by code_simp
  ultimately show ?thesis by (intro exI conjI) (assumption | (elim conjE, assumption))+
qed

end
