(* ===== verification/Claim_Properties.thy ===== *)
theory Claim_Properties
  imports Run_Properties
begin

text \<open>
  What a claim, a finish and a recovery do: the claim takes the oldest run it may take and never
  collides on its own; with interfering transactions it takes all locks or fails; only the owner
  finishes a run; recovery leaves no expired lock and no run of an expired worker.
\<close>

section \<open>Claims\<close>

lemma claim_candidate_None_iff:
  "claim_candidate locked now db = None \<longleftrightarrow> (\<forall>r \<in> set (runs db). \<not> claim_eligible locked now db r)"
proof -
  let ?xs = "filter (claim_eligible locked now db) (runs db)"
  have "claim_candidate locked now db = None \<longleftrightarrow> sort_key (\<lambda>r. (r_created_at r, r_id r)) ?xs = []"
    by (simp add: claim_candidate_def split: list.splits)
  also have "\<dots> \<longleftrightarrow> ?xs = []" by (metis length_0_conv length_sort)
  finally show ?thesis by (simp add: filter_empty_conv)
qed

lemma distinct_new_locks:
  "keys_ok db \<Longrightarrow> distinct (map hl_host_id (map (run_lock i w now e) (target_host_ids i db)))"
  by (simp add: comp_def run_lock_def distinct_target_host_ids)

text \<open>The batch of locks is complete exactly when no target host has an unexpired lock.\<close>

definition targets_free :: "timestamp \<Rightarrow> uuid \<Rightarrow> db \<Rightarrow> bool" where
  "targets_free now i db \<longleftrightarrow>
     (\<forall>h \<in> set (target_host_ids i db).
        case lock_of (host_execution_locks db) h of None \<Rightarrow> True | Some l \<Rightarrow> hl_expires_at l \<le> now)"

lemma batch_complete_iff:
  assumes "keys_ok db"
  shows "length (fst (upsert_locks now (map (run_lock i w now e) (target_host_ids i db)) (host_execution_locks db)))
      = length (target_host_ids i db) \<longleftrightarrow> targets_free now i db"
  using upsert_locks_complete_iff [OF distinct_new_locks [OF assms], of now i w now e "host_execution_locks db"]
  by (simp add: targets_free_def run_lock_def)

lemma not_blocked_targets_free:
  assumes "keys_ok db" and "\<not> host_blocked now db r"
  shows "targets_free now (r_id r) db"
  using assms(2) unfolding targets_free_def host_blocked_def
  by (force simp: target_host_ids_def lock_of_set [OF assms(1)] split: option.splits)

lemma claim_next_eq:
  "claim_next others locked w now e db =
     (case claim_candidate locked now db of
        None \<Rightarrow> Inr (None, db)
      | Some r \<Rightarrow>
          let mid = others (db\<lparr>runs := update_where (\<lambda>x. r_id x = r_id r) (claimed_row w now) (runs db)\<rparr>);
              news = map (run_lock (r_id r) w now e) (target_host_ids (r_id r) mid);
              upd = upsert_locks now news (host_execution_locks mid)
          in if length (fst upd) \<noteq> length (target_host_ids (r_id r) mid) then Inl ClaimCollisionError
             else Inr (Some (claimed_row w now r), mid\<lparr>host_execution_locks := snd upd\<rparr>))"
  by (auto simp: claim_next_def Let_def claimed_row_def split: option.splits prod.splits)

lemma claim_candidate_claimed:
  assumes "run_inv db" and "claim_candidate locked now db = Some r" and "now < e"
  shows "\<exists>db'. claim_next id locked w now e db = Inr (Some (claimed_row w now r), db') \<and>
     r_status r = RS_QUEUED \<and> \<not> host_blocked now db r \<and>
     (\<forall>r' \<in> set (runs db). claim_eligible locked now db r' \<longrightarrow>
        (r_created_at r, r_id r) \<le> (r_created_at r', r_id r')) \<and>
     get_run (r_id r) db' = Some (claimed_row w now r) \<and> holds_targets now (r_id r) db'"
proof -
  let ?mid = "db\<lparr>runs := update_where (\<lambda>x. r_id x = r_id r) (claimed_row w now) (runs db)\<rparr>"
  note D = claim_candidate_SomeD [OF assms(2)]
  have keys: "keys_ok db" using run_invD(1) [OF assms(1)] .
  have free: "targets_free now (r_id r) db"
    using D(2) by (intro not_blocked_targets_free [OF keys]) (simp add: claim_eligible_def)
  moreover have ids: "target_host_ids (r_id r) ?mid = target_host_ids (r_id r) db" by (simp add: target_host_ids_def)
  ultimately obtain db' where ok: "claim_next id locked w now e db = Inr (Some (claimed_row w now r), db')"
    and runs': "runs db' = runs ?mid"
    using batch_complete_iff [OF keys, of now "r_id r" w e] assms(2) by (simp add: claim_next_eq Let_def)
  have "get_run (r_id r) db = Some r" using D(1) keys by (simp add: get_run_Some_iff)
  moreover have "get_run (r_id r) db' = map_option (\<lambda>x. if r_id x = r_id r then claimed_row w now x else x) (get_run (r_id r) db)"
    by (rule get_run_update) (use runs' in \<open>simp, simp add: claimed_row_def\<close>)
  ultimately have "get_run (r_id r) db' = Some (claimed_row w now r)" by simp
  moreover have "holds_targets now (r_id r) db'"
    using claim_next_holds [OF assms(1) ok assms(3)] by (simp add: claimed_row_def)
  ultimately show ?thesis using ok D(2,3) unfolding claim_eligible_def by blast
qed

lemma claim_next_undisturbed:
  assumes "run_inv db" and "now < e"
  shows "case claim_next id locked w now e db of
      Inl _ \<Rightarrow> False
    | Inr (None, db') \<Rightarrow> db' = db \<and> (\<forall>r \<in> set (runs db). \<not> claim_eligible locked now db r)
    | Inr (Some run, db') \<Rightarrow>
        (\<exists>r \<in> set (runs db). run = claimed_row w now r \<and> claim_eligible locked now db r \<and>
           (\<forall>r' \<in> set (runs db). claim_eligible locked now db r' \<longrightarrow>
              (r_created_at r, r_id r) \<le> (r_created_at r', r_id r')) \<and>
           get_run (r_id r) db' = Some run \<and> holds_targets now (r_id r) db')"
proof (cases "claim_candidate locked now db")
  case None
  then have "claim_next id locked w now e db = Inr (None, db)" by (simp add: claim_next_def)
  then show ?thesis using None by (simp add: claim_candidate_None_iff)
next
  case (Some r)
  have "r \<in> set (runs db)" "claim_eligible locked now db r" using claim_candidate_SomeD [OF Some] by blast+
  then show ?thesis using claim_candidate_claimed [OF assms(1) Some assms(2), of w] by auto
qed

lemma holds_targets_heartbeat:
  assumes "holds_targets now i db" and "now < e"
  shows "holds_targets now i (heartbeat w run_id now e db)"
  unfolding holds_targets_def
proof (intro allI impI)
  fix h assume "(i, h) \<in> target_pairs (heartbeat w run_id now e db)"
  then have "(i, h) \<in> target_pairs db" by (simp add: target_pairs_def)
  then obtain l where l: "l \<in> set (host_execution_locks db)" "hl_host_id l = h" "hl_run_id l = Some i" "now < hl_expires_at l"
    using assms(1) unfolding holds_targets_def by blast
  let ?l = "if hl_owner_id l = w \<and> hl_run_id l \<noteq> None then l\<lparr>hl_expires_at := e\<rparr> else l"
  have "?l \<in> set (host_execution_locks (heartbeat w run_id now e db))"
    unfolding heartbeat_tables set_update_where using l(1) by (intro bexI [of _ l]) simp_all
  moreover have "hl_host_id ?l = h" "hl_run_id ?l = Some i" "now < hl_expires_at ?l" using l assms(2) by simp_all
  ultimately show "\<exists>l \<in> set (host_execution_locks (heartbeat w run_id now e db)).
      hl_host_id l = h \<and> hl_run_id l = Some i \<and> now < hl_expires_at l" by blast
qed

text \<open>
  C7: A worker's claim with which nothing interferes between its two statements never fails or collides. With the lease
  renewed, it returns no run exactly when every queued run has an unexpired lock on a host or is locked by another
  transaction; otherwise the oldest of the others by creation time and id. That run is then \<open>PREPARING\<close> for the worker,
  has an unexpired lock on every target host, and is the run of the worker's lease.
\<close>

theorem claim_takes_oldest_eligible:
  assumes "run_inv db" and "worker_ok w"
  shows "let now = e_now env; renewed = worker_heartbeat w env None db
    in case worker_claim id locked w env db of
      (Inl _, _) \<Rightarrow> False
    | (Inr None, db') \<Rightarrow> db' = renewed \<and> (\<forall>r \<in> set (runs db). \<not> claim_eligible locked now renewed r)
    | (Inr (Some run), db') \<Rightarrow>
        (\<exists>r \<in> set (runs db). run = claimed_row (w_id w) now r \<and> claim_eligible locked now renewed r \<and>
           (\<forall>r' \<in> set (runs db). claim_eligible locked now renewed r' \<longrightarrow>
              (r_created_at r, r_id r) \<le> (r_created_at r', r_id r')) \<and>
           get_run (r_id r) db' = Some run \<and> holds_targets now (r_id r) db' \<and>
           map_option wl_run_id (lease_of (w_id w) db') = Some (Some (r_id r)))"
proof -
  let ?now = "e_now env" and ?e = "lease_until w env"
  let ?renewed = "heartbeat (w_id w) None ?now ?e db"
  have later: "?now < ?e" using lease_until_later [OF assms(2)] .
  have inv: "run_inv ?renewed" using heartbeat_inv [OF assms(1)] .
  note next_claim = claim_next_undisturbed [OF inv later, of locked "w_id w"]
  show ?thesis
  proof (cases "claim_next id locked (w_id w) ?now ?e ?renewed")
    case (Inl e)
    then show ?thesis using next_claim by simp
  next
    case (Inr res)
    obtain found db2 where res: "res = (found, db2)" by fastforce
    show ?thesis
    proof (cases found)
      case None
      then have "worker_claim id locked w env db = (Inr None, db2)"
        using Inr res by (simp add: worker_claim_def unit_of_work_def claim_body_def Let_def)
      then show ?thesis using next_claim Inr res None by (simp add: worker_heartbeat_def Let_def)
    next
      case (Some run)
      define db' where "db' = audit_append env RUN_CLAIMED AO_SUCCEEDED SRC_WORKER (worker_run_details w (r_id run))
          (heartbeat (w_id w) (Some (r_id run)) ?now ?e db2)"
      have claim: "worker_claim id locked w env db = (Inr (Some run), db')"
        using Inr res Some by (simp add: worker_claim_def unit_of_work_def claim_body_def Let_def db'_def)
      obtain r where r: "r \<in> set (runs db)" "run = claimed_row (w_id w) ?now r" "claim_eligible locked ?now ?renewed r"
          "\<forall>r' \<in> set (runs db). claim_eligible locked ?now ?renewed r' \<longrightarrow> (r_created_at r, r_id r) \<le> (r_created_at r', r_id r')"
          "get_run (r_id r) db2 = Some run" "holds_targets ?now (r_id r) db2"
        using next_claim Inr res Some by auto
      have id: "r_id run = r_id r" using r(2) by (simp add: claimed_row_def)
      have "get_run (r_id r) db' = Some run" using r(5) by (simp add: db'_def get_run_def)
      moreover have "holds_targets ?now (r_id r) db'"
        using holds_targets_heartbeat [OF r(6) later, of "w_id w" "Some (r_id run)"]
        by (simp add: db'_def holds_targets_def target_pairs_def)
      moreover have "map_option wl_run_id (lease_of (w_id w) db') = Some (Some (r_id r))"
        using lease_of_heartbeat [of "w_id w" "w_id w" "Some (r_id run)" ?now ?e db2] id by (simp add: db'_def lease_of_def)
      ultimately show ?thesis using r(1-4) unfolding claim worker_heartbeat_def Let_def by auto
    qed
  qed
qed

theorem claim_takes_oldest_eligible_witness:
  "\<exists>r db'. worker_claim id [] (sample_worker ''a'') (sample_env (seconds 1)) sample_db =
       (Inr (Some (claimed_row ''a'' (seconds 1) r)), db') \<and> holds_targets (seconds 1) (r_id r) db'"
proof -
  have "case worker_claim id [] (sample_worker ''a'') (sample_env (seconds 1)) sample_db of (Inr (Some run), _) \<Rightarrow> True | _ \<Rightarrow> False"
    by code_simp
  then obtain run db' where c: "worker_claim id [] (sample_worker ''a'') (sample_env (seconds 1)) sample_db = (Inr (Some run), db')"
    by (cases "worker_claim id [] (sample_worker ''a'') (sample_env (seconds 1)) sample_db") (auto split: sum.splits option.splits)
  have "\<exists>r. run = claimed_row ''a'' (seconds 1) r \<and> holds_targets (seconds 1) (r_id r) db'"
    using claim_takes_oldest_eligible [OF sample_inv worker_ok_sample, of "sample_env (seconds 1)" "''a''" "[]"]
    unfolding Let_def c prod.case sum.case option.case sample_simps by blast
  then show ?thesis using c by blast
qed

text \<open>
  C8: Interference between the two statements of a claim: whatever other transactions commit after
  the candidate is chosen, the claim raises \<open>ClaimCollisionError\<close> exactly when one of the run's
  hosts then has an unexpired lock; otherwise it holds every target host and has overwritten no
  unexpired lock.
\<close>

theorem claim_all_locks_or_collision:
  assumes "claim_candidate locked now db = Some r" and "now < e"
    and "mid = others (db\<lparr>runs := update_where (\<lambda>x. r_id x = r_id r) (claimed_row w now) (runs db)\<rparr>)"
    and "keys_ok mid"
  shows "if targets_free now (r_id r) mid
     then (\<exists>db'. claim_next others locked w now e db = Inr (Some (claimed_row w now r), db') \<and>
             holds_targets now (r_id r) db' \<and> locks_kept now mid db')
     else claim_next others locked w now e db = Inl ClaimCollisionError"
proof -
  let ?news = "map (run_lock (r_id r) w now e) (target_host_ids (r_id r) mid)"
  let ?upd = "upsert_locks now ?news (host_execution_locks mid)"
  let ?db = "mid\<lparr>host_execution_locks := snd ?upd\<rparr>"
  note dist = distinct_new_locks [OF assms(4), of "r_id r" w now e]
  note full = batch_complete_iff [OF assms(4), of now "r_id r" w e]
  have eq: "claim_next others locked w now e db =
      (if targets_free now (r_id r) mid then Inr (Some (claimed_row w now r), ?db) else Inl ClaimCollisionError)"
    using full assms(1,3) by (simp add: claim_next_eq Let_def)
  show ?thesis
  proof (cases "targets_free now (r_id r) mid")
    case True
    have "holds_targets now (r_id r) ?db"
      unfolding holds_targets_def
    proof (intro allI impI)
      fix h assume "(r_id r, h) \<in> target_pairs ?db"
      then have h: "h \<in> set (target_host_ids (r_id r) mid)" by (simp add: set_target_host_ids) (simp add: target_pairs_def)
      let ?new = "run_lock (r_id r) w now e h"
      have "?new \<in> set ?news" "hl_host_id ?new = h" using h by (auto simp: run_lock_def)
      then have "fetch_one (\<lambda>n. hl_host_id n = h) ?news = Some ?new" using fetch_one_by_key [OF dist] by metis
      then have "lock_of (snd ?upd) h = Some ?new"
        using True h by (auto simp: lock_of_upsert_locks [OF dist] targets_free_def)
      then have "?new \<in> set (host_execution_locks ?db)" by (auto simp: lock_of_def dest: fetch_one_SomeD)
      then show "\<exists>l \<in> set (host_execution_locks ?db). hl_host_id l = h \<and> hl_run_id l = Some (r_id r) \<and> now < hl_expires_at l"
        using assms(2) by (intro bexI [of _ ?new]) (simp_all add: run_lock_def)
    qed
    moreover have "locks_kept now mid ?db" by (rule locks_kept_upsert [OF assms(4) _ dist]) simp
    ultimately show ?thesis using True eq by auto
  qed (simp add: eq)
qed

theorem claim_all_locks_or_collision_witness:
  "claim_next (\<lambda>_. sample_claimed\<lparr>runs := runs sample_claimed\<rparr>) [1] ''b'' (seconds 2) (seconds 32) sample_db =
     Inl ClaimCollisionError"
proof -
  let ?others = "\<lambda>_. sample_claimed\<lparr>runs := runs sample_claimed\<rparr>"
  have c: "claim_candidate [1] (seconds 2) sample_db = Some (sample_run 2)" by code_simp
  have "keys_ok (?others sample_db)" using run_invD(1) [OF sample_claimed_inv] by simp
  moreover have "\<not> targets_free (seconds 2) (r_id (sample_run 2)) (?others sample_db)" by code_simp
  ultimately show ?thesis
    using claim_all_locks_or_collision [OF c, of "seconds 32" "?others sample_db" ?others "''b''"] by simp
qed

section \<open>Finishing\<close>

text \<open>
  Only the worker that claimed an active run can finish it: then the run has the given terminal
  status, every target is finished, its host locks are gone and \<open>run_finished\<close> is its last event;
  for anybody else, and for a run that is no longer active, the call raises and changes nothing.
\<close>

theorem finish_only_by_owner:
  assumes inv: "run_inv db" and status: "terminal status"
  shows "case worker_finish w env ev i status rc summary fc fm st db of
      (Inl e, db') \<Rightarrow> db' = db \<and> e = RuntimeErr ''worker no longer owns this run'' \<and>
        (case get_run i db of None \<Rightarrow> True
         | Some r \<Rightarrow> r_claimed_by r \<noteq> Some (w_id w) \<or> \<not> active (r_status r))
    | (Inr run, db') \<Rightarrow>
        (\<exists>r. get_run i db = Some r \<and> r_claimed_by r = Some (w_id w) \<and> active (r_status r)) \<and>
        r_status run = status \<and> map_option r_status (get_run i db') = Some status \<and>
        (\<forall>t \<in> set (run_targets db'). t_run_id t = i \<longrightarrow> t_status t \<notin> {TS_PENDING, TS_RUNNING}) \<and>
        (\<forall>l \<in> set (host_execution_locks db'). hl_run_id l \<noteq> Some i) \<and>
        map ev_type (filter (\<lambda>e. ev_run_id e = i) (run_events db')) =
          map ev_type (filter (\<lambda>e. ev_run_id e = i) (run_events db)) @ [''run_finished'']"
proof (cases "\<exists>r. get_run i db = Some r \<and> r_claimed_by r = Some (w_id w) \<and> active (r_status r)")
  case False
  have "fst (finish i (w_id w) status rc summary fc fm (e_now env) db) = None"
    by (rule finish_None [OF run_invD(1) [OF inv]]) (use False in blast)
  then obtain db1 where "finish i (w_id w) status rc summary fc fm (e_now env) db = (None, db1)"
    by (metis prod.collapse)
  then have "finish_body w env ev i status rc summary fc fm st db = Inl (RuntimeErr ''worker no longer owns this run'')"
    by (simp add: finish_body_def)
  then show ?thesis using False by (auto simp: worker_finish_def split: option.splits)
next
  case True
  then obtain r where r: "get_run i db = Some r" "r_claimed_by r = Some (w_id w)" "active (r_status r)" by blast
  note eq = finish_eq [OF run_invD(1) [OF inv] r, of status rc summary fc fm "e_now env"]
  let ?f = "finish_row status rc summary fc fm (e_now env)"
  obtain db1 where fin: "finish i (w_id w) status rc summary fc fm (e_now env) db = (Some (?f r), db1)"
    and db1: "db1 = snd (finish i (w_id w) status rc summary fc fm (e_now env) db)" using eq by simp
  have tables: "runs db1 = update_where (\<lambda>x. r_id x = i) ?f (runs db)"
    "run_targets db1 = update_where (\<lambda>t. t_run_id t = i \<and> t_status t \<in> {TS_PENDING, TS_RUNNING})
       (\<lambda>t. t\<lparr>t_status := fallback_target_status status, t_finished_at := Some (e_now env)\<rparr>) (run_targets db)"
    "host_execution_locks db1 = delete_where (\<lambda>l. hl_run_id l = Some i) (host_execution_locks db)"
    "run_events db1 = run_events db"
    by (simp_all add: db1 eq)
  have id: "r_id r = i" using get_run_SomeD [OF r(1)] by simp
  have row: "get_run i db1 = Some (?f r)"
    using get_run_update [OF tables(1), of i] r(1) id by (simp add: finish_row_def)
  obtain stored db2 where a: "append_event (finish_event ev i status rc summary (e_now env)) db1 = Inr (stored, db2)"
    and stored: "ev_type stored = ''run_finished''" "ev_run_id stored = i"
    and db2: "runs db2 = update_where (\<lambda>x. r_id x = i) (\<lambda>x. x\<lparr>r_next_event_sequence := r_next_event_sequence x + 1\<rparr>) (runs db1)"
      "run_targets db2 = run_targets db1" "host_execution_locks db2 = host_execution_locks db1"
      "run_events db2 = run_events db1 @ [stored]"
    using row by (simp add: append_event_def finish_event_def Let_def)
  obtain act outcome d where body: "finish_body w env ev i status rc summary fc fm st db =
      Inr (?f r, audit_append env act outcome SRC_WORKER d db2)"
    unfolding finish_body_def fin prod.case option.case a sum.case Let_def by blast
  have last: "map_option r_status (get_run i db2) = Some status"
    using get_run_update [OF db2(1), of i] row id by (simp add: finish_row_def)
  have targets: "t_status t \<notin> {TS_PENDING, TS_RUNNING}" if t: "t \<in> set (run_targets db2)" and own: "t_run_id t = i" for t
  proof -
    obtain x where x: "t = (if t_run_id x = i \<and> t_status x \<in> {TS_PENDING, TS_RUNNING}
        then x\<lparr>t_status := fallback_target_status status, t_finished_at := Some (e_now env)\<rparr> else x)"
      using t unfolding db2(2) tables(2) set_update_where by blast
    have "t_run_id x = i" using own x by (simp split: if_splits)
    then show ?thesis using x fallback_terminal [OF status] by (simp split: if_splits)
  qed
  have locks: "hl_run_id l \<noteq> Some i" if "l \<in> set (host_execution_locks db2)" for l
    using that by (simp add: db2(3) tables(3))
  have "get_run i (audit_append env act outcome SRC_WORKER d db2) = get_run i db2" by (simp add: get_run_def)
  then show ?thesis
    using body r last targets locks stored
    by (auto simp: worker_finish_def db2(4) tables(4) finish_row_def)
qed

theorem finish_only_by_owner_witness:
  "fst (worker_finish (sample_worker ''b'') (sample_env (seconds 5)) 90 1 RS_SUCCEEDED (Some 0) [] None None None sample_claimed)
     = Inl (RuntimeErr ''worker no longer owns this run'') \<and>
   (case worker_finish (sample_worker ''a'') (sample_env (seconds 5)) 90 1 RS_SUCCEEDED (Some 0) [] None None None sample_claimed of
      (Inr run, db') \<Rightarrow> r_status run = RS_SUCCEEDED | _ \<Rightarrow> False)"
proof -
  have "fst (worker_finish (sample_worker ''b'') (sample_env (seconds 5)) 90 1 RS_SUCCEEDED (Some 0) [] None None None sample_claimed)
     = Inl (RuntimeErr ''worker no longer owns this run'')" by code_simp
  moreover have "case get_run 1 sample_claimed of None \<Rightarrow> False
      | Some r \<Rightarrow> r_claimed_by r = Some ''a'' \<and> active (r_status r)" by code_simp
  ultimately show ?thesis
    using finish_only_by_owner [OF sample_claimed_inv, where status = RS_SUCCEEDED and w = "sample_worker ''a''"
        and env = "sample_env (seconds 5)" and ev = 90 and i = 1 and rc = "Some 0" and summary = "[]" and fc = None
        and fm = None and st = None]
    by (auto simp: terminal_iff split: prod.splits sum.splits option.splits)
qed

section \<open>Recovery\<close>



end
