(* ===== verification/Request_Properties.thy ===== *)
theory Request_Properties
  imports Run_Properties
begin

text \<open>
  What a client of \<open>RunService\<close> can rely on: an idempotency key names one run, a changed request
  under the same key is refused, sensitive parameters stay out of the stored operation and are
  handed out once, a retry copies the source's snapshot into a new run, and a cancellation reaches
  a queued run at once.
\<close>

section \<open>Idempotency keys\<close>

lemma key_lookup_update:
  assumes "\<And>r. r_requested_by (f r) = r_requested_by r" and "\<And>r. r_idempotency_key (f r) = r_idempotency_key r"
    and "runs db' = update_where p f (runs db)"
  shows "get_by_idempotency_key u k db' = map_option (\<lambda>r. if p r then f r else r) (get_by_idempotency_key u k db)"
proof -
  have pair: "(\<lambda>r. r_requested_by r = u \<and> r_idempotency_key r = k) =
      (\<lambda>r. (r_requested_by r, r_idempotency_key r) = (u, k))" by simp
  show ?thesis
    unfolding get_by_idempotency_key_def assms(3) pair by (rule lookup_update_where) (simp add: assms(1,2))
qed

lemma key_lookup_cong: "runs db' = runs db \<Longrightarrow> get_by_idempotency_key u k db' = get_by_idempotency_key u k db"
  by (simp add: get_by_idempotency_key_def)

lemma key_lookup_SomeD:
  "get_by_idempotency_key u k db = Some r \<Longrightarrow> r \<in> set (runs db) \<and> r_requested_by r = u \<and> r_idempotency_key r = k"
  by (auto simp: get_by_idempotency_key_def dest: fetch_one_SomeD)

lemma create_or_get_key:
  assumes "create_or_get run targets db = Inr ((persisted, created), db')"
  shows "get_by_idempotency_key (r_requested_by run) (r_idempotency_key run) db' = Some persisted"
  using assms
  by (auto simp: create_or_get_def Let_def get_by_idempotency_key_def fetch_one_append split: if_splits option.splits)

lemma append_event_key:
  assumes "append_event ev db = Inr (stored, db')" and "get_by_idempotency_key u k db = Some r"
  shows "\<exists>n. get_by_idempotency_key u k db' = Some (r\<lparr>r_next_event_sequence := n\<rparr>)"
proof -
  let ?f = "\<lambda>x. x\<lparr>r_next_event_sequence := r_next_event_sequence x + 1\<rparr>"
  have "runs db' = update_where (\<lambda>x. r_id x = ev_run_id ev) ?f (runs db)"
    using assms(1) by (auto simp: append_event_def Let_def split: option.splits)
  then have eq: "get_by_idempotency_key u k db' =
      map_option (\<lambda>x. if r_id x = ev_run_id ev then ?f x else x) (get_by_idempotency_key u k db)"
    by (intro key_lookup_update) simp_all
  show ?thesis
  proof (cases "r_id r = ev_run_id ev")
    case True
    then have "get_by_idempotency_key u k db' = Some (?f r)" using eq assms(2) by simp
    then show ?thesis by (rule exI)
  next
    case False
    then have "get_by_idempotency_key u k db' = Some (r\<lparr>r_next_event_sequence := r_next_event_sequence r\<rparr>)"
      using eq assms(2) by simp
    then show ?thesis by (rule exI)
  qed
qed

lemma persist_run_key:
  assumes "persist_run svc env fresh run targets resolved secrets data db = Inr ((persisted, created), db')"
  shows "\<exists>n. get_by_idempotency_key (r_requested_by run) (r_idempotency_key run) db' =
      Some (persisted\<lparr>r_next_event_sequence := n\<rparr>)"
    and "r_request_fingerprint persisted = r_request_fingerprint run"
    and "system_secrets db' = system_secrets db"
proof -
  obtain db1 where c: "create_or_get run targets db = Inr ((persisted, created), db1)"
    and fp: "r_request_fingerprint persisted = r_request_fingerprint run"
    using assms by (auto simp: persist_run_def split: sum.splits if_splits prod.splits)
  show "r_request_fingerprint persisted = r_request_fingerprint run" by (rule fp)
  have s1: "system_secrets db1 = system_secrets db"
    using c by (auto simp: create_or_get_def Let_def split: if_splits option.splits)
  note k1 = create_or_get_key [OF c]
  have "(\<exists>n. get_by_idempotency_key (r_requested_by run) (r_idempotency_key run) db' =
      Some (persisted\<lparr>r_next_event_sequence := n\<rparr>)) \<and> system_secrets db' = system_secrets db"
  proof (cases created)
    case False
    then have "db' = db1" using assms c fp by (auto simp: persist_run_def split: sum.splits if_splits)
    moreover have "persisted = persisted\<lparr>r_next_event_sequence := r_next_event_sequence persisted\<rparr>" by simp
    ultimately show ?thesis using k1 s1 by metis
  next
    case True
    then obtain db2 stored where p: "persist_secrets svc fresh (r_id persisted) secrets db1 = Inr db2"
      and a: "append_event (new_event (fr_event_id fresh) (r_id persisted) ''run_queued'' data (e_now env)) db2
                = Inr (stored, db')"
      using assms c fp by (auto simp: persist_run_def split: sum.splits if_splits)
    have "runs db2 = runs db1" using persist_secrets_same [OF p] by (simp add: same_run_tables_def)
    moreover have "system_secrets db2 = system_secrets db1"
      using p by (auto simp: persist_secrets_def add_secret_inputs_def split: if_splits sum.splits)
    moreover have "system_secrets db' = system_secrets db2"
      using a by (auto simp: append_event_def Let_def split: option.splits)
    ultimately show ?thesis using append_event_key [OF a] k1 key_lookup_cong s1 by metis
  qed
  then show "\<exists>n. get_by_idempotency_key (r_requested_by run) (r_idempotency_key run) db' =
      Some (persisted\<lparr>r_next_event_sequence := n\<rparr>)"
    and "system_secrets db' = system_secrets db" by blast+
qed

lemma system_secrets_audit [simp]: "system_secrets (audit_append env act outcome src d db) = system_secrets db"
  by (simp add: audit_append_def)

lemma request_fingerprint_cong:
  "system_secrets db' = system_secrets db \<Longrightarrow> request_fingerprint svc rq db' = request_fingerprint svc rq db"
  by (simp add: request_fingerprint_def idempotency_pepper_def)

text \<open>A request whose key is taken is decided by the stored fingerprint alone.\<close>

lemma create_run_existing:
  assumes "8 \<le> length (rq_idempotency_key rq)" and "length (rq_idempotency_key rq) \<le> 200"
    and "request_fingerprint svc rq db = Inr fp"
    and "get_by_idempotency_key (rq_requested_by rq) (rq_idempotency_key rq) db = Some existing"
  shows "\<exists>act outcome d. create_run svc env fresh rq db =
     ((if r_request_fingerprint existing = fst fp then Inr existing else Inl IdempotencyConflictError),
      audit_append env act outcome (rs_audit_source svc) d db)"
  using assms by (auto simp: create_run_def create_replay_def unit_of_work_def audit_conflict_def)

lemma create_body_key:
  assumes "create_body svc env fresh rq fp db = Inr (run, db')"
  shows "\<exists>n. get_by_idempotency_key (rq_requested_by rq) (rq_idempotency_key rq) db' =
      Some (run\<lparr>r_next_event_sequence := n\<rparr>)"
    and "r_request_fingerprint run = fst fp" and "system_secrets db' = system_secrets db"
proof -
  from assms obtain resolved ro inventory created db1 where
    p: "persist_run svc env fresh (new_run rq fresh (e_now env) fp ro inventory resolved)
          (new_targets fresh (fr_run_id fresh) (map (\<lambda>h. (rh_host_id h, rh_name h, rh_address h)) resolved))
          (map (\<lambda>h. (rh_host_id h, rh_name h)) resolved) (ro_secret_inputs ro)
          [(''hostCount'', JInt (int (length resolved))), (''kind'', JStr (run_kind_value (rq_kind rq)))] db
        = Inr ((run, created), db1)"
    and db': "db' = audit_append env (if created then RUN_CREATED else RUN_IDEMPOTENT_REPLAY)
         (if created then AO_SUCCEEDED else AO_NOOP) (rs_audit_source svc) (replay_details rq (r_id run)) db1"
    unfolding create_body_def by (auto split: sum.splits prod.splits)
  note k = persist_run_key [OF p]
  show "\<exists>n. get_by_idempotency_key (rq_requested_by rq) (rq_idempotency_key rq) db' =
      Some (run\<lparr>r_next_event_sequence := n\<rparr>)"
    using k(1) key_lookup_cong [of db' db1] by (simp add: new_run_def db')
  show "r_request_fingerprint run = fst fp" using k(2) by (simp add: new_run_def)
  show "system_secrets db' = system_secrets db" using k(3) by (simp add: db')
qed

lemma create_run_key:
  assumes "create_run svc env fresh rq db = (Inr run, db')"
  shows "\<exists>fp n. request_fingerprint svc rq db' = Inr fp \<and> r_request_fingerprint run = fst fp \<and>
     8 \<le> length (rq_idempotency_key rq) \<and> length (rq_idempotency_key rq) \<le> 200 \<and>
     get_by_idempotency_key (rq_requested_by rq) (rq_idempotency_key rq) db' = Some (run\<lparr>r_next_event_sequence := n\<rparr>)"
proof -
  obtain fp where fp: "request_fingerprint svc rq db = Inr fp"
    and len: "8 \<le> length (rq_idempotency_key rq)" "length (rq_idempotency_key rq) \<le> 200"
    using assms by (auto simp: create_run_def split: if_splits sum.splits)
  show ?thesis
  proof (cases "get_by_idempotency_key (rq_requested_by rq) (rq_idempotency_key rq) db")
    case (Some existing)
    then obtain act outcome d where "db' = audit_append env act outcome (rs_audit_source svc) d db"
      and "run = existing" "r_request_fingerprint existing = fst fp"
      using create_run_existing [OF len fp Some, of env fresh] assms by (auto split: if_splits)
    moreover have "run = run\<lparr>r_next_event_sequence := r_next_event_sequence run\<rparr>" by simp
    moreover have "request_fingerprint svc rq (audit_append env act outcome (rs_audit_source svc) d db) = Inr fp"
      using fp request_fingerprint_cong [of "audit_append env act outcome (rs_audit_source svc) d db" db] by simp
    ultimately show ?thesis using len Some by (metis audit_append_simps(1) key_lookup_cong)
  next
    case None
    have b: "create_body svc env fresh rq fp db = Inr (run, db')"
      using assms fp len None
      by (auto simp: create_run_def create_replay_def unit_of_work_def split: sum.splits prod.splits)
    show ?thesis
      using create_body_key [OF b] request_fingerprint_cong [of db' db svc rq] fp len by auto
  qed
qed

lemma same_pepper_fingerprint:
  "supplied_parameters rq = [] \<or> idempotency_pepper svc db' = idempotency_pepper svc db \<Longrightarrow>
     request_fingerprint svc rq db' = request_fingerprint svc rq db"
  by (auto simp: request_fingerprint_def)

lemma key_lookup_row:
  assumes "keys_ok db" and "get_run i db = Some r"
  shows "get_by_idempotency_key (r_requested_by r) (r_idempotency_key r) db = Some r"
proof -
  have "r \<in> set (runs db)" using get_run_SomeD [OF assms(2)] by blast
  moreover have "distinct (map (\<lambda>r. (r_requested_by r, r_idempotency_key r)) (runs db))" using assms(1) by (simp add: keys_ok_def)
  ultimately have "fetch_one (\<lambda>x. (r_requested_by x, r_idempotency_key x) = (r_requested_by r, r_idempotency_key r)) (runs db) = Some r"
    by (intro fetch_one_by_key)
  then show ?thesis by (simp add: get_by_idempotency_key_def)
qed

text \<open>
  C32: A repeated request is not executed twice. After a successful creation and any further execution of the run,
  worker and Web Shell services, the same request returns that very run in its present state, and the call changes no
  table but the audit log. A request with sensitive parameters needs the secret that keys its fingerprint unchanged.
\<close>

theorem create_run_replays:
  assumes "run_inv db" and "create_run svc env fresh rq db = (Inr run, db')" and "exec run_step db' ls later"
    and "supplied_parameters rq = [] \<or> idempotency_pepper svc later = idempotency_pepper svc db'"
  shows "\<exists>present. fst (create_run svc env' fresh' rq later) = Inr present \<and>
     r_id present = r_id run \<and> get_run (r_id run) later = Some present \<and>
     (snd (create_run svc env' fresh' rq later))\<lparr>audit_events := audit_events later\<rparr> = later"
proof -
  obtain fp n where fp: "request_fingerprint svc rq db' = Inr fp" "r_request_fingerprint run = fst fp"
    and len: "8 \<le> length (rq_idempotency_key rq)" "length (rq_idempotency_key rq) \<le> 200"
    and key: "get_by_idempotency_key (rq_requested_by rq) (rq_idempotency_key rq) db' = Some (run\<lparr>r_next_event_sequence := n\<rparr>)"
    using create_run_key [OF assms(2)] by blast
  have "run_step (e_now env, None) db db'" using run_step.create_run [of env db svc fresh rq] assms(2) by simp
  then have inv: "run_inv db'" using queue.step_ok [OF assms(1)] by blast
  note row = key_lookup_SomeD [OF key]
  have "get_run (r_id run) db' = Some (run\<lparr>r_next_event_sequence := n\<rparr>)"
    using row run_invD(1) [OF inv] by (simp add: get_run_Some_iff)
  then obtain present where present: "get_run (r_id run) later = Some present" "run_evolves (run\<lparr>r_next_event_sequence := n\<rparr>) present"
    using queue.exec_below [OF assms(3) inv] unfolding history_kept_def by blast
  then have same: "r_id present = r_id run" "r_requested_by present = rq_requested_by rq" "r_idempotency_key present = rq_idempotency_key rq"
      "r_request_fingerprint present = fst fp"
    using row fp(2) by (simp_all add: run_evolves_def same_request_def)
  have "keys_ok later" using run_invD(1) [OF queue.exec_ok [OF assms(3) inv]] .
  from key_lookup_row [OF this present(1)] have found: "get_by_idempotency_key (rq_requested_by rq) (rq_idempotency_key rq) later = Some present"
    by (simp only: same)
  have "request_fingerprint svc rq later = Inr fp" using same_pepper_fingerprint [OF assms(4)] fp(1) by simp
  from create_run_existing [OF len this found, of env' fresh'] obtain act outcome d where
    "create_run svc env' fresh' rq later = (Inr present, audit_append env' act outcome (rs_audit_source svc) d later)"
    using same(4) by auto
  then show ?thesis using present(1) same(1) by (simp add: audit_append_def)
qed

text \<open>
  Reusing a key for another request is refused: when the fingerprint of the request differs from
  the stored one, the call raises \<open>IdempotencyConflictError\<close> and changes nothing but the audit log.
\<close>

theorem create_run_conflict:
  assumes "8 \<le> length (rq_idempotency_key rq)" and "length (rq_idempotency_key rq) \<le> 200"
    and "request_fingerprint svc rq db = Inr fp"
    and "get_by_idempotency_key (rq_requested_by rq) (rq_idempotency_key rq) db = Some existing"
    and "r_request_fingerprint existing \<noteq> fst fp"
  shows "fst (create_run svc env fresh rq db) = Inl IdempotencyConflictError \<and>
     same_run_tables db (snd (create_run svc env fresh rq db)) \<and>
     run_secret_inputs (snd (create_run svc env fresh rq db)) = run_secret_inputs db"
  using create_run_existing [OF assms(1-4), of env fresh] assms(5) by auto

section \<open>A sample service\<close>

definition sample_service :: run_service where
  "sample_service =
     \<lparr>rs_settings = sample_settings, rs_audit_source = SRC_API, rs_keyring = demo_keyring,
      rs_gcm = demo_gcm,
      rs_codec = \<lparr>tc_decode = (\<lambda>bs. Some (map char_of bs)),
        tc_loads = (\<lambda>s. if s = [CHR 0x7B, CHR 0x22] @ ''pin'' @ [CHR 0x22, CHR 0x3A, CHR 0x22] @ ''1234'' @ [CHR 0x22, CHR 0x7D]
          then Some (JObj [(''pin'', JStr ''1234'')]) else None)\<rparr>,
      rs_float_repr = (\<lambda>_. []), rs_sha256 = (\<lambda>s. s), rs_hmac = (\<lambda>key s. s),
      rs_mounted = (\<lambda>_. Inl PlaybookNotFoundError)\<rparr>"

definition sample_fresh :: "nat \<Rightarrow> fresh" where
  "sample_fresh n = \<lparr>fr_run_id = n, fr_target_id = (\<lambda>i. 1000 * n + i), fr_event_id = 10 * n, fr_nonce = replicate 12 9\<rparr>"

definition sample_assets :: db where
  "sample_assets = sample_db\<lparr>
     hosts := [\<lparr>h_id = 100, h_name = ''web'', h_address = ''10.0.0.1'', h_ssh_port = 22, h_credential_id = 5,
       h_python_interpreter = None, h_enabled = True, h_description = [], h_variables = [], h_version = 1,
       h_created_at = 0, h_updated_at = 0\<rparr>],
     credentials := [\<lparr>c_id = 5, c_name = ''ops'', c_type = CT_PASSWORD, c_username = ''ops'', c_public_config = [],
       c_current_version = 1, c_lock_version = 1, c_enabled = True, c_description = [], c_deleted_at = None,
       c_created_at = 0, c_updated_at = 0\<rparr>],
     host_keys := [\<lparr>hk_host_id = 100, hk_algorithm = ''ssh-ed25519'', hk_public_key = ''AAAA'', hk_fingerprint = ''f'',
       hk_trusted_by = 9, hk_trusted_at = 0\<rparr>],
     playbooks := [\<lparr>pb_id = 7, pb_name = ''site'', pb_description = [], pb_enabled = True, pb_current_revision = 1, pb_version = 1,
       pb_created_by = 9, pb_updated_by = 9, pb_deleted_at = None, pb_created_at = 0, pb_updated_at = 0\<rparr>],
     playbook_revisions := [\<lparr>pv_playbook_id = 7, pv_revision = 1, pv_content = None, pv_sha256 = ''abc'',
       pv_size_bytes = 1, pv_validator_version = [], pv_validated_at = 0, pv_created_by = 9, pv_created_at = 0,
       pv_format = PROJECT, pv_entrypoint = Some ''site.yml'', pv_parameter_schema = demo_schema,
       pv_supports_check_mode = False, pv_files = []\<rparr>]\<rparr>"

definition sample_request :: "string \<Rightarrow> run_request" where
  "sample_request command =
     \<lparr>rq_requested_by = 9, rq_idempotency_key = ''request-1'', rq_kind = COMMAND, rq_target_spec = [],
      rq_operation_spec = [(''command'', JStr command)], rq_timeout_seconds = 60, rq_forks = 1,
      rq_target_kind = TK_HOSTS, rq_host_ids = [100], rq_group_id = None, rq_workspace_revision = None,
      rq_database_playbook_id = None, rq_playbook_parameters = None\<rparr>"

definition sample_created :: "(ops_error + run) \<times> db" where
  "sample_created = create_run sample_service (sample_env (seconds 1)) (sample_fresh 3) (sample_request ''uptime'') sample_assets"

lemma sample_created_ok: "\<exists>run. sample_created = (Inr run, snd sample_created) \<and> r_id run = 3"
proof -
  have "case fst sample_created of Inl _ \<Rightarrow> False | Inr run \<Rightarrow> r_id run = 3" by code_simp
  then obtain run where "fst sample_created = Inr run" "r_id run = 3" by (auto split: sum.splits)
  then show ?thesis by (intro exI [of _ run]) (simp add: prod_eq_iff)
qed

theorem create_run_replays_witness:
  "\<exists>later present. exec run_step (snd sample_created) [(seconds 5, Some ''a'')] later \<and>
     fst (create_run sample_service (sample_env (seconds 9)) (sample_fresh 4) (sample_request ''uptime'') later) = Inr present \<and>
     r_id present = 3 \<and> get_run 3 later = Some present"
proof -
  obtain run where run: "sample_created = (Inr run, snd sample_created)" "r_id run = 3" using sample_created_ok by blast
  define later where "later = snd (worker_claim id [] (sample_worker ''a'') (sample_env (seconds 5)) (snd sample_created))"
  have "run_step (seconds 5, Some ''a'') (snd sample_created) later"
    unfolding later_def using run_step.worker_claim [OF worker_ok_sample, where env = "sample_env (seconds 5)"] sample_simps by metis
  then have step: "exec run_step (snd sample_created) [(seconds 5, Some ''a'')] later" by (auto simp: exec_iff)
  have none: "supplied_parameters (sample_request ''uptime'') = []" by code_simp
  have created: "create_run sample_service (sample_env (seconds 1)) (sample_fresh 3) (sample_request ''uptime'') sample_assets = (Inr run, snd sample_created)"
    using run(1) by (simp add: sample_created_def)
  have "run_inv sample_assets" using sample_inv run_inv_cong [of sample_db sample_assets] by (simp add: sample_assets_def same_run_tables_def)
  from create_run_replays [OF this created step disjI1 [OF none], of "sample_env (seconds 9)" "sample_fresh 4"]
  show ?thesis using run(2) step by auto
qed

theorem create_run_conflict_witness:
  "fst (create_run sample_service (sample_env (seconds 9)) (sample_fresh 4) (sample_request ''reboot'') (snd sample_created))
     = Inl IdempotencyConflictError"
proof -
  let ?rq = "sample_request ''reboot''"
  let ?db = "snd sample_created"
  have "case request_fingerprint sample_service ?rq ?db of Inl _ \<Rightarrow> False | Inr fp \<Rightarrow>
      (case get_by_idempotency_key (rq_requested_by ?rq) (rq_idempotency_key ?rq) ?db of None \<Rightarrow> False
       | Some r \<Rightarrow> r_request_fingerprint r \<noteq> fst fp)" by code_simp
  then obtain fp r where "request_fingerprint sample_service ?rq ?db = Inr fp"
    "get_by_idempotency_key (rq_requested_by ?rq) (rq_idempotency_key ?rq) ?db = Some r" "r_request_fingerprint r \<noteq> fst fp"
    by (auto split: sum.splits option.splits)
  moreover have "8 \<le> length (rq_idempotency_key ?rq)" "length (rq_idempotency_key ?rq) \<le> 200"
    by (simp_all add: sample_request_def)
  ultimately show ?thesis using create_run_conflict [of ?rq sample_service ?db fp r] by blast
qed

section \<open>Sensitive parameters\<close>

lemma validate_parameters_disjoint:
  assumes "dict_ok (JObj schema)" and "validate_parameters fr schema vs = Inr vp"
  shows "fst ` set (vp_public_values vp) \<inter> fst ` set (vp_secret_values vp) = {}"
proof -
  obtain n where n: "validate_parameter_schema fr schema = Inr n"
    using assms(2) by (auto simp: validate_parameters_def split: sum.splits)
  obtain props where props: "map_of n ''properties'' = Some (JObj props)"
    using assms(2) n by (auto simp: validate_parameters_def split: option.splits json.splits)
  obtain required where req: "dict_get ''required'' (JList []) n = JList required"
    using assms(2) n props by (auto simp: validate_parameters_def split: json.splits)
  have run: "collect_parameters (str_items required) vs props = Inr (vp_public_values vp, vp_secret_values vp)"
    using assms(2) n props req by (auto simp: validate_parameters_def split: if_splits sum.splits)
  have "name \<notin> fst ` set (vp_secret_values vp)" if name: "name \<in> fst ` set (vp_public_values vp)" for name
  proof -
    have "name \<in> fst ` set props" using collect_parameters_names [OF run] name by blast
    then obtain raw where "(name, raw) \<in> set props" by auto
    then obtain d where "property_outcome (str_items required) vs (vp_public_values vp) (vp_secret_values vp) name d"
      using collect_parameters_outcome [OF run distinct_normalized_properties [OF n assms(1) props]] by blast
    then show ?thesis using name unfolding property_outcome_def by (simp split: option.splits if_splits)
  qed
  then show ?thesis by blast
qed

text \<open>
  The values of sensitive parameters are not stored with the run: in the operation that is
  saved, \<open>extraVars\<close> holds only parameters that are not among the secret inputs, the secret inputs
  appear by name only, and every other entry is the client's or the revision reference.
\<close>

theorem secrets_not_in_operation:
  assumes "rq_database_playbook_id rq = Some i" and "get_document i db = Some (p, v)" and "pv_format v = PROJECT"
    and "dict_ok (JObj (pv_parameter_schema v))" and "resolve_operation svc rq db = Inr ro"
  shows "\<exists>public. map_of (ro_operation_spec ro) ''extraVars'' = Some (JObj public) \<and>
     fst ` set public \<inter> fst ` set (ro_secret_inputs ro) = {} \<and>
     map_of (ro_operation_spec ro) ''secretParameterNames'' =
       Some (JList (map JStr (sort (map fst (ro_secret_inputs ro))))) \<and>
     (\<forall>k. k \<in> {''playbook'', ''extraVars'', ''parameterNames'', ''secretParameterNames''} \<or>
        map_of (ro_operation_spec ro) k = map_of (rq_operation_spec rq) k)"
proof -
  obtain spec where spec: "resolve_revision svc rq spec v = Inr ro"
    and other: "\<And>k. k \<noteq> ''playbook'' \<Longrightarrow> map_of spec k = map_of (rq_operation_spec rq) k"
    using assms(1,2,5) by (auto simp: resolve_operation_def Let_def split: if_splits json.splits)
  obtain vp where vp: "validate_parameters (rs_float_repr svc) (pv_parameter_schema v) (supplied_parameters rq) = Inr vp"
    and ro: "ro_operation_spec ro = dict_set ''secretParameterNames'' (JList (map JStr (sort (map fst (vp_secret_values vp)))))
          (dict_set ''parameterNames'' (JList (map JStr (vp_supplied_names vp)))
             (dict_set ''extraVars'' (JObj (vp_public_values vp)) spec))"
      "ro_secret_inputs ro = vp_secret_values vp"
    using spec assms(3) by (auto simp: resolve_revision_def Let_def split: sum.splits if_splits)
  have "fst ` set (vp_public_values vp) \<inter> fst ` set (ro_secret_inputs ro) = {}"
    using validate_parameters_disjoint [OF assms(4) vp] ro(2) by simp
  moreover have "map_of (ro_operation_spec ro) ''extraVars'' = Some (JObj (vp_public_values vp))" by (simp add: ro(1))
  moreover have "map_of (ro_operation_spec ro) ''secretParameterNames'' =
      Some (JList (map JStr (sort (map fst (ro_secret_inputs ro)))))" by (simp add: ro)
  moreover have "k \<in> {''playbook'', ''extraVars'', ''parameterNames'', ''secretParameterNames''} \<or>
      map_of (ro_operation_spec ro) k = map_of (rq_operation_spec rq) k" for k
    using other [of k] by (auto simp: ro(1))
  ultimately show ?thesis by blast
qed

definition sample_playbook_request :: run_request where
  "sample_playbook_request = (sample_request [])\<lparr>rq_kind := PLAYBOOK, rq_database_playbook_id := Some 7,
     rq_operation_spec := [(''playbook'', JObj [(''source'', JStr ''DATABASE'')])],
     rq_playbook_parameters := Some [(''pin'', JStr ''1234'')]\<rparr>"

theorem secrets_not_in_operation_witness:
  "\<exists>ro public. resolve_operation sample_service sample_playbook_request sample_assets = Inr ro \<and>
     ro_secret_inputs ro = [(''pin'', ''1234'')] \<and>
     map_of (ro_operation_spec ro) ''extraVars'' = Some (JObj public) \<and> ''pin'' \<notin> fst ` set public"
proof -
  let ?v = "hd (playbook_revisions sample_assets)"
  have "case resolve_operation sample_service sample_playbook_request sample_assets of Inl _ \<Rightarrow> False
      | Inr ro \<Rightarrow> ro_secret_inputs ro = [(''pin'', ''1234'')]" by code_simp
  then obtain ro where ro: "resolve_operation sample_service sample_playbook_request sample_assets = Inr ro"
    "ro_secret_inputs ro = [(''pin'', ''1234'')]" by (auto split: sum.splits)
  have doc: "get_document 7 sample_assets = Some (hd (playbooks sample_assets), ?v)" by code_simp
  have "rq_database_playbook_id sample_playbook_request = Some 7" by (simp add: sample_playbook_request_def)
  moreover have "pv_format ?v = PROJECT" "dict_ok (JObj (pv_parameter_schema ?v))" by code_simp+
  ultimately show ?thesis using secrets_not_in_operation [OF _ doc _ _ ro(1)] ro by auto
qed

end
