(* ===== verification/Secret_Payloads.thy ===== *)
theory Secret_Payloads
  imports Crypto
begin

text \<open>
  Dictionaries of strings as the plaintext of an envelope: what the credential cipher and the run
  parameters read back of a dictionary they stored, given that \<open>json.loads\<close> after UTF-8 decoding inverts
  the encoding of this dictionary.
\<close>

lemma str_values_strings:
  "(\<And>k v. (k, v) \<in> set d \<Longrightarrow> \<exists>s. v = JStr s) \<Longrightarrow>
     \<exists>xs. str_values d = Some xs \<and> map (\<lambda>(k, s). (k, JStr s)) xs = d"
proof (induction d)
  case (Cons kv d)
  obtain k v where kv: "kv = (k, v)" by fastforce
  then obtain s where "v = JStr s" using Cons.prems by fastforce
  moreover obtain xs where "str_values d = Some xs" "map (\<lambda>(k, s). (k, JStr s)) xs = d" using Cons by fastforce
  ultimately show ?case using kv by auto
qed simp

lemma map_of_JStr: "map_of (map (\<lambda>(k, s). (k, JStr s)) xs) k = map_option JStr (map_of xs k)"
  by (induction xs) auto

lemma canonical_strings:
  "canonical (JObj (map (\<lambda>(k, s). (k, JStr s)) xs)) = JObj (sort_keys (map (\<lambda>(k, s). (k, JStr s)) xs))"
proof -
  have "map (\<lambda>(k, v). (k, canonical v)) (map (\<lambda>(k, s). (k, JStr s)) xs) = map (\<lambda>(k, s). (k, JStr s)) xs"
    by auto
  then show ?thesis by (metis canonical.simps(2))
qed

lemma json_dumps_object_not_Nil: "json_dumps fr (JObj d) \<noteq> []"
  by (cases d) auto

lemma str_values_sorted:
  assumes "distinct (map fst secrets)"
  shows "\<exists>got. str_values (sort_keys (map (\<lambda>(k, v). (k, JStr v)) secrets)) = Some got \<and> map_of got = map_of secrets"
proof -
  let ?d = "map (\<lambda>(k, v). (k, JStr v)) secrets"
  have "\<exists>s. v = JStr s" if "(k, v) \<in> set (sort_keys ?d)" for k v using that by auto
  then obtain got where got: "str_values (sort_keys ?d) = Some got" "map (\<lambda>(k, s). (k, JStr s)) got = sort_keys ?d"
    using str_values_strings [of "sort_keys ?d"] by blast
  have dist: "distinct (map fst ?d)" using assms by (simp add: comp_def case_prod_beta)
  have "map_option JStr (map_of got k) = map_option JStr (map_of secrets k)" for k
    using map_of_JStr [of got k] map_of_JStr [of secrets k] got(2) map_of_sort_keys [OF dist] by simp
  then have "map_of got = map_of secrets" by (intro ext) (metis json.inject(4) option.inj_map_strong)
  then show ?thesis using got(1) by blast
qed

section \<open>Envelopes\<close>

lemma encrypted_version:
  "encrypt_bytes gcm nonce kr purpose subject plain None = Inr (envelope, version) \<Longrightarrow> version = kr_primary_version kr"
  by (auto simp: encrypt_bytes_def encrypt_with_aad_def chosen_version_def Let_def split: sum.splits option.splits if_splits)

lemma decrypt_encrypted:
  assumes "gcm_ok gcm" and "length nonce = 12" and "plain \<noteq> []"
    and "encrypt_bytes gcm nonce kr purpose subject plain v = Inr (envelope, version)"
  shows "decrypt_bytes gcm kr purpose subject envelope version = Inr plain"
  using assms decrypt_encrypted_with_aad [OF assms(1,2)]
  by (auto simp: encrypt_bytes_def decrypt_bytes_def split: sum.splits)

section \<open>The credential cipher\<close>

text \<open>The JSON text of a secret, as \<open>CredentialCipher.encrypt\<close> writes it.\<close>

definition secret_text :: "(string \<times> string) list \<Rightarrow> string" where
  "secret_text secret = json_dumps (\<lambda>_. []) (canonical (JObj (map (\<lambda>(k, v). (k, JStr v)) secret)))"

definition reads_secret :: "text_codec \<Rightarrow> (string \<times> string) list \<Rightarrow> bool" where
  "reads_secret codec secret \<longleftrightarrow>
     Option.bind (tc_decode codec (encode_ascii (secret_text secret))) (tc_loads codec) =
       Some (canonical (JObj (map (\<lambda>(k, v). (k, JStr v)) secret)))"

lemma cipher_encrypt_InrD:
  assumes "cipher_encrypt gcm nonce kr i n secret = Inr envelope"
  shows "encrypt_with_aad gcm nonce kr (encode_ascii (secret_text secret)) (credential_aad i n) None =
     Inr (envelope, kr_primary_version kr)"
  using assms by (auto simp: cipher_encrypt_def secret_text_def encrypt_with_aad_def chosen_version_def Let_def
      split: sum.splits option.splits)

lemma cipher_roundtrip:
  assumes "gcm_ok gcm" and "length nonce = 12" and "1 \<le> kr_primary_version kr"
    and "distinct (map fst secret)" and "reads_secret codec secret"
    and "cipher_encrypt gcm nonce kr i n secret = Inr envelope"
  shows "\<exists>got. cipher_decrypt gcm codec kr i n envelope (nat (kr_primary_version kr)) = Inr got \<and> map_of got = map_of secret"
proof -
  have "encode_ascii (secret_text secret) \<noteq> []"
    by (simp add: encode_ascii_def secret_text_def json_dumps_object_not_Nil del: json_dumps.simps)
  then have plain: "decrypt_with_aad gcm kr envelope (credential_aad i n) (kr_primary_version kr) = Inr (encode_ascii (secret_text secret))"
    using decrypt_encrypted_with_aad [OF assms(1,2) cipher_encrypt_InrD [OF assms(6)]] by simp
  obtain got where "str_values (sort_keys (map (\<lambda>(k, v). (k, JStr v)) secret)) = Some got" "map_of got = map_of secret"
    using str_values_sorted [OF assms(4)] by blast
  then show ?thesis using plain assms(3,5)
    by (simp add: cipher_decrypt_def chosen_version_def reads_secret_def canonical_strings del: canonical.simps json_dumps.simps)
qed

end
