(* ===== verification/Lifecycle_Properties.thy ===== *)
theory Lifecycle_Properties
  imports Request_Properties Secret_Payloads
begin

text \<open>
  Secret inputs reach the worker once and unchanged, a retry is a new run with the source's
  snapshot, and what a cancellation does on each status.
\<close>

section \<open>Secret inputs\<close>

text \<open>
  The worker reads back what was stored: \<open>json.loads\<close> after UTF-8 decoding inverts the encoding of
  a dictionary of strings.
\<close>

definition reads_back :: "run_service \<Rightarrow> (string \<times> string) list \<Rightarrow> bool" where
  "reads_back svc secrets \<longleftrightarrow>
     (let v = canonical (JObj (map (\<lambda>(k, s). (k, JStr s)) secrets)) in
      Option.bind (tc_decode (rs_codec svc) (encode_ascii (json_dumps (rs_float_repr svc) v))) (tc_loads (rs_codec svc))
        = Some v)"

lemma persist_secrets_InrD:
  assumes "persist_secrets svc fresh i secrets db = Inr db'" and "secrets \<noteq> []"
  obtains envelope version where
    "encrypt_bytes (rs_gcm svc) (fr_nonce fresh) (rs_keyring svc) ''run-parameters'' (uuid_str i)
       (encode_ascii (json_dumps (rs_float_repr svc) (canonical (JObj (map (\<lambda>(k, v). (k, JStr v)) secrets))))) None
       = Inr (envelope, version)"
    and "db' = db\<lparr>run_secret_inputs := run_secret_inputs db @
       [\<lparr>si_run_id = i, si_encrypted_payload = envelope, si_key_version = nat version,
         si_parameter_names = sort (map fst secrets)\<rparr>]\<rparr>"
    and "i \<notin> set (map si_run_id (run_secret_inputs db))"
proof -
  obtain envelope version where e: "encrypt_json (rs_gcm svc) (rs_float_repr svc) (fr_nonce fresh) (rs_keyring svc)
      ''run-parameters'' (uuid_str i) (map (\<lambda>(k, v). (k, JStr v)) secrets) None = Inr (envelope, version)"
    using assms by (auto simp: persist_secrets_def split: sum.splits)
  show thesis
    by (rule that [of envelope version])
      (use e assms in \<open>auto simp: persist_secrets_def encrypt_json_def add_secret_inputs_def split: if_splits\<close>)
qed

lemma secret_lookup:
  assumes "i \<notin> set (map si_run_id xs)"
  shows "fetch_one (\<lambda>s. si_run_id s = i) (xs @ [\<lparr>si_run_id = i, si_encrypted_payload = a, si_key_version = b,
      si_parameter_names = c\<rparr>]) = Some \<lparr>si_run_id = i, si_encrypted_payload = a, si_key_version = b, si_parameter_names = c\<rparr>"
proof -
  have "fetch_one (\<lambda>s. si_run_id s = i) xs = None" using assms by (auto simp: fetch_one_None_iff)
  then show ?thesis by (simp add: fetch_one_append)
qed

lemma consume_after_delete:
  assumes "i \<notin> set (map si_run_id (run_secret_inputs db))" and "names \<noteq> []"
  shows "consume_secret_inputs svc env i names db = (Inl (SecretParametersRequiredError names), db)"
proof -
  have "fetch_one (\<lambda>s. si_run_id s = i) (run_secret_inputs db) = None" using assms(1) by (auto simp: fetch_one_None_iff)
  then show ?thesis using assms(2) by (simp add: consume_secret_inputs_def consume_body_def delete_secret_inputs_def)
qed

text \<open>
  C33: Secret inputs are delivered once: with an authenticated cipher that decrypts what it
  encrypted, the worker that asks for the names of the run gets exactly the values the client
  supplied; from then on they are gone, and a second request for them raises.
\<close>

theorem secrets_delivered_once:
  assumes "gcm_ok (rs_gcm svc)" and "length (fr_nonce fresh) = 12" and "0 \<le> kr_primary_version (rs_keyring svc)"
    and "secrets \<noteq> []" and "distinct (map fst secrets)" and "reads_back svc secrets"
    and "persist_secrets svc fresh i secrets db = Inr db1" and "names = sort (map fst secrets)"
  shows "\<exists>got db2. consume_secret_inputs svc env i names db1 = (Inr got, db2) \<and> map_of got = map_of secrets \<and>
     consume_secret_inputs svc env' i names db2 = (Inl (SecretParametersRequiredError names), db2)"
proof -
  let ?d = "map (\<lambda>(k, v). (k, JStr v)) secrets"
  let ?plain = "encode_ascii (json_dumps (rs_float_repr svc) (canonical (JObj ?d)))"
  let ?kr = "rs_keyring svc"
  obtain envelope version where
    enc: "encrypt_bytes (rs_gcm svc) (fr_nonce fresh) ?kr ''run-parameters'' (uuid_str i) ?plain None = Inr (envelope, version)"
    and db1: "db1 = db\<lparr>run_secret_inputs := run_secret_inputs db @
       [\<lparr>si_run_id = i, si_encrypted_payload = envelope, si_key_version = nat version, si_parameter_names = names\<rparr>]\<rparr>"
    and new: "i \<notin> set (map si_run_id (run_secret_inputs db))"
    using persist_secrets_InrD [OF assms(7,4)] assms(8) by metis
  have version: "int (nat version) = version" using encrypted_version [OF enc] assms(3) by simp
  have "?plain \<noteq> []" by (simp add: encode_ascii_def json_dumps_object_not_Nil del: json_dumps.simps)
  then have "decrypt_bytes (rs_gcm svc) ?kr ''run-parameters'' (uuid_str i) envelope version = Inr ?plain"
    by (rule decrypt_encrypted [OF assms(1,2) _ enc])
  then have dec: "decrypt_json (rs_gcm svc) (rs_codec svc) ?kr ''run-parameters'' (uuid_str i) envelope (int (nat version))
      = Inr (sort_keys ?d)"
    using assms(6) version by (simp add: decrypt_json_def reads_back_def Let_def canonical_strings del: canonical.simps json_dumps.simps)
  obtain got where got: "str_values (sort_keys ?d) = Some got" and same: "map_of got = map_of secrets"
    using str_values_sorted [OF assms(5)] by blast
  have keys: "set (map fst (sort_keys ?d)) = set names" by (simp add: assms(8) image_image case_prod_beta)
  have nonempty: "names \<noteq> []" using assms(4,8) by (metis length_0_conv length_map length_sort)
  have sorted: "sort names = names" by (simp add: assms(8) sorted_sort_id)
  note lookup = secret_lookup [OF new, of envelope "nat version" names]
  let ?db2 = "db1\<lparr>run_secret_inputs := delete_where (\<lambda>s. si_run_id s = i) (run_secret_inputs db1)\<rparr>"
  have body: "\<exists>act out src d. consume_body svc env i names db1 = Inr (got, audit_append env act out src d ?db2)"
    using lookup dec got(1) keys sorted by (auto simp: consume_body_def delete_secret_inputs_def db1)
  then obtain act out src d where "consume_body svc env i names db1 = Inr (got, audit_append env act out src d ?db2)"
    by blast
  then have first: "consume_secret_inputs svc env i names db1 = (Inr got, audit_append env act out src d ?db2)"
    using nonempty by (simp add: consume_secret_inputs_def)
  have "i \<notin> set (map si_run_id (run_secret_inputs (audit_append env act out src d ?db2)))" by auto
  then show ?thesis using first same consume_after_delete [OF _ nonempty] by blast
qed

theorem secrets_delivered_once_witness:
  "\<exists>db1 got db2. persist_secrets sample_service (sample_fresh 3) 3 [(''pin'', ''1234'')] sample_db = Inr db1 \<and>
     consume_secret_inputs sample_service (sample_env 0) 3 [''pin''] db1 = (Inr got, db2) \<and> map_of got ''pin'' = Some ''1234''"
proof -
  have "case persist_secrets sample_service (sample_fresh 3) 3 [(''pin'', ''1234'')] sample_db of Inl _ \<Rightarrow> False | Inr _ \<Rightarrow> True"
    by code_simp
  then obtain db1 where db1: "persist_secrets sample_service (sample_fresh 3) 3 [(''pin'', ''1234'')] sample_db = Inr db1"
    by (auto split: sum.splits)
  have "reads_back sample_service [(''pin'', ''1234'')]" by code_simp
  moreover have "gcm_ok (rs_gcm sample_service)" by (simp add: sample_service_def gcm_ok_demo)
  moreover have "length (fr_nonce (sample_fresh 3)) = 12" by (simp add: sample_fresh_def)
  moreover have "0 \<le> kr_primary_version (rs_keyring sample_service)" by (simp add: sample_service_def demo_keyring_def)
  ultimately have "\<exists>got db2. consume_secret_inputs sample_service (sample_env 0) 3 [''pin''] db1 = (Inr got, db2) \<and>
      map_of got = map_of [(''pin'', ''1234'')] \<and> consume_secret_inputs sample_service (sample_env 0) 3 [''pin''] db2 =
        (Inl (SecretParametersRequiredError [''pin'']), db2)"
    by (intro secrets_delivered_once [OF _ _ _ _ _ _ db1]) simp_all
  then show ?thesis using db1 by (metis map_of_Cons_code(2))
qed

section \<open>Retries\<close>

lemma retry_guard_InrD:
  assumes "retry_guard svc actor i db = Inr source"
  shows "get_run i db = Some source" and "terminal (r_status source)" and "targets_of i db \<noteq> []"
  using assms by (auto simp: retry_guard_def split: option.splits if_splits sum.splits)

lemma persist_run_created:
  assumes "persist_run svc env fresh run targets resolved secrets data db = Inr ((persisted, created), db')"
    and "get_by_idempotency_key (r_requested_by run) (r_idempotency_key run) db = None"
  shows "persisted = run\<lparr>r_next_event_sequence := 1\<rparr>" and "get_run (r_id run) db = None"
    and "run_targets db' = run_targets db @ targets"
    and "\<And>j. j \<noteq> r_id run \<Longrightarrow> get_run j db' = get_run j db"
proof -
  let ?row = "run\<lparr>r_next_event_sequence := 1\<rparr>"
  have c: "create_or_get run targets db = Inr ((?row, True),
      db\<lparr>runs := runs db @ [?row], run_targets := run_targets db @ targets\<rparr>)"
    and fresh: "r_id run \<notin> set (map r_id (runs db))"
    using assms by (auto simp: persist_run_def create_or_get_def Let_def split: sum.splits if_splits prod.splits)
  let ?db1 = "db\<lparr>runs := runs db @ [?row], run_targets := run_targets db @ targets\<rparr>"
  obtain db2 stored where p: "persist_secrets svc fresh (r_id run) secrets ?db1 = Inr db2"
    and a: "append_event (new_event (fr_event_id fresh) (r_id run) ''run_queued'' data (e_now env)) db2 = Inr (stored, db')"
    and persisted: "persisted = ?row"
    using assms(1) c by (auto simp: persist_run_def split: sum.splits if_splits)
  show "persisted = ?row" by (rule persisted)
  show "get_run (r_id run) db = None" using fresh by (metis get_run_SomeD image_eqI list.set_map not_None_eq)
  have same: "runs db2 = runs db @ [?row]" "run_targets db2 = run_targets db @ targets"
    using persist_secrets_same [OF p] by (simp_all add: same_run_tables_def)
  have db': "runs db' = update_where (\<lambda>x. r_id x = r_id run) (\<lambda>x. x\<lparr>r_next_event_sequence := r_next_event_sequence x + 1\<rparr>) (runs db2)"
    "run_targets db' = run_targets db2"
    using a by (auto simp: append_event_def new_event_def Let_def split: option.splits)
  show "run_targets db' = run_targets db @ targets" using same db' by simp
  show "get_run j db' = get_run j db" if j: "j \<noteq> r_id run" for j
  proof -
    have "get_run j db' = map_option (\<lambda>x. if r_id x = r_id run then x\<lparr>r_next_event_sequence := r_next_event_sequence x + 1\<rparr> else x) (get_run j db2)"
      by (rule get_run_update [OF db'(1)]) simp
    moreover have "get_run j db2 = get_run j db"
      using same(1) j by (auto simp: get_run_def fetch_one_append split: option.splits)
    moreover have "r_id x = j" if "get_run j db = Some x" for x using get_run_SomeD [OF that] by simp
    ultimately show ?thesis using j by (cases "get_run j db") auto
  qed
qed

lemma new_targets_pairs:
  "map (\<lambda>t. (t_run_id t, t_host_id t)) (new_targets fresh i xs) = map (\<lambda>(h, _). (i, h)) xs"
proof -
  have "map (\<lambda>t. (t_run_id t, t_host_id t)) (new_targets fresh i xs) = map (\<lambda>(h, _). (i, h)) (map snd (enumerate 0 xs))"
    by (simp add: new_targets_def new_target_def comp_def case_prod_beta del: map_snd_enumerate)
  then show ?thesis unfolding map_snd_enumerate .
qed

text \<open>
  A retry is a new run: it leaves the terminal source exactly as it is and queues another run
  that points back to it, with the same kind, target and inventory snapshot, playbook revision,
  credential versions and limits, for exactly the hosts the source had.
\<close>

theorem retry_copies_snapshot:
  assumes inv: "run_inv db" and ok: "retry svc env fresh actor i user key params db = (Inr run, db')"
    and new: "get_by_idempotency_key (acting_user actor user) key db = None"
  shows "\<exists>source. get_run i db = Some source \<and> terminal (r_status source) \<and> get_run i db' = Some source \<and>
     r_id run = fr_run_id fresh \<and> r_id run \<noteq> i \<and> r_source_run_id run = Some i \<and> r_status run = RS_QUEUED \<and>
     r_kind run = r_kind source \<and> r_target_spec run = r_target_spec source \<and>
     r_resolved_targets run = r_resolved_targets source \<and> r_inventory_snapshot run = r_inventory_snapshot source \<and>
     r_playbook_id run = r_playbook_id source \<and> r_playbook_revision run = r_playbook_revision source \<and>
     r_workspace_revision run = r_workspace_revision source \<and>
     r_credential_versions run = r_credential_versions source \<and>
     r_timeout_seconds run = r_timeout_seconds source \<and> r_forks run = r_forks source \<and>
     {h. (r_id run, h) \<in> target_pairs db'} = {h. (i, h) \<in> target_pairs db}"
proof -
  have body: "retry_body svc env fresh actor i user key params db = Inr (run, db')"
    using ok by (auto simp: retry_def unit_of_work_def split: if_splits sum.splits)
  obtain source where g: "retry_guard svc actor i db = Inr source"
    using body by (auto simp: retry_body_def split: sum.splits)
  let ?ts = "map (\<lambda>t. (t_host_id t, t_host_name t, t_host_address t)) (targets_of i db)"
  from body g obtain spec fp rs secrets data created db1 act out d where
    p: "persist_run svc env fresh (retried_run source fresh (e_now env) (acting_user actor user) key fp spec)
          (new_targets fresh (fr_run_id fresh) ?ts) rs secrets data db = Inr ((run, created), db1)"
    and db': "runs db' = runs db1" "run_targets db' = run_targets db1"
    unfolding retry_body_def Let_def by (auto split: sum.splits prod.splits)
  note R = persist_run_created [OF p]
  have key: "get_by_idempotency_key (r_requested_by (retried_run source fresh (e_now env) (acting_user actor user) key fp spec))
      (r_idempotency_key (retried_run source fresh (e_now env) (acting_user actor user) key fp spec)) db = None"
    using new by (simp add: retried_run_def)
  note src = retry_guard_InrD [OF g]
  have id: "r_id source = i" using get_run_SomeD [OF src(1)] by simp
  have ne: "fr_run_id fresh \<noteq> i" using R(2) [OF key] src(1) by (auto simp: retried_run_def)
  have run: "run = (retried_run source fresh (e_now env) (acting_user actor user) key fp spec)\<lparr>r_next_event_sequence := 1\<rparr>"
    using R(1) [OF key] .
  have keep: "get_run i db' = Some source"
    using R(4) [OF key, of i] ne src(1) db'(1) by (simp add: retried_run_def get_run_def)
  have "(fr_run_id fresh, h) \<notin> target_pairs db" for h
    using run_invD(3) [OF inv] R(2) [OF key] by (auto simp: targets_ok_def target_pairs_def retried_run_def split: option.splits)
  moreover have "target_pairs db' = target_pairs db \<union> (\<lambda>(h, _). (fr_run_id fresh, h)) ` set ?ts"
    unfolding target_pairs_def db'(2) R(3) [OF key] map_append set_append new_targets_pairs
    by (simp add: image_image)
  moreover have "h \<in> t_host_id ` set (targets_of i db) \<longleftrightarrow> (i, h) \<in> target_pairs db" for h
    by (auto simp: targets_of_def target_pairs_def)
  ultimately have hosts: "{h. (fr_run_id fresh, h) \<in> target_pairs db'} = {h. (i, h) \<in> target_pairs db}"
    by (auto simp: image_iff)
  show ?thesis
    by (rule exI [of _ source]) (use src keep ne id hosts in \<open>simp add: run retried_run_def\<close>)
qed

definition sample_finished :: db where
  "sample_finished = snd (worker_recover_stale (sample_worker ''b'') (sample_env (seconds 41))
     (snd (worker_claim id [] (sample_worker ''a'') (sample_env (seconds 1)) sample_assets)))"

lemma sample_assets_inv: "run_inv sample_assets"
proof -
  have "same_run_tables sample_db sample_assets" by (simp add: same_run_tables_def sample_assets_def)
  then show ?thesis using run_inv_cong sample_inv by blast
qed

lemma sample_finished_inv: "run_inv sample_finished"
proof -
  have "sound_step (seconds 1, Some ''a'') sample_assets
      (snd (worker_claim id [] (sample_worker ''a'') (sample_env (seconds 1)) sample_assets))"
    using worker_claim_sound [OF sample_assets_inv worker_ok_sample, of "sample_env (seconds 1)" "''a''"] by simp
  then show ?thesis
    using worker_recover_stale_sound unfolding sample_finished_def sound_step_def by metis
qed

theorem retry_copies_snapshot_witness:
  "\<exists>run db'. retry sample_service (sample_env (seconds 60)) (sample_fresh 5) None 1 9 ''retry-key'' None sample_finished = (Inr run, db') \<and>
     r_source_run_id run = Some 1 \<and> {h. (5, h) \<in> target_pairs db'} = {h. (1, h) \<in> target_pairs sample_finished}"
proof -
  let ?r = "retry sample_service (sample_env (seconds 60)) (sample_fresh 5) None 1 9 ''retry-key'' None sample_finished"
  have "case fst ?r of Inl _ \<Rightarrow> False | Inr run \<Rightarrow> True" by code_simp
  then obtain run where "fst ?r = Inr run" by (auto split: sum.splits)
  then have r: "?r = (Inr run, snd ?r)" by (simp add: prod_eq_iff)
  have "get_by_idempotency_key (acting_user None 9) ''retry-key'' sample_finished = None" by code_simp
  from retry_copies_snapshot [OF sample_finished_inv r this] have
    "r_id run = 5" "r_source_run_id run = Some 1"
    "{h. (r_id run, h) \<in> target_pairs (snd ?r)} = {h. (1, h) \<in> target_pairs sample_finished}"
    by (auto simp: sample_fresh_def)
  then show ?thesis using r by metis
qed

section \<open>Cancellation\<close>

text \<open>
  What a permitted cancellation does: a queued run becomes \<open>CANCELED\<close> at once with all its
  targets, so no worker can claim it any more; an active run is only marked, keeps its status and
  its targets, and its worker sees the mark; a terminal run raises \<open>RunNotCancelableError\<close> and an
  unknown one \<open>NotFoundError\<close>, and neither changes anything.
\<close>

theorem cancel_by_status:
  assumes inv: "run_inv db" and allowed: "\<not> denied actor RUN_CANCEL"
  shows "case cancel svc env fresh actor i user db of (res, db') \<Rightarrow>
     (case get_run i db of
        None \<Rightarrow> res = Inl (NotFoundError ''run not found'') \<and> db' = db
      | Some r \<Rightarrow>
          if terminal (r_status r) then res = Inl RunNotCancelableError \<and> db' = db
          else res = Inr (cancel_row (e_now env) r) \<and> cancellation_requested i db' \<and>
            map_option r_status (get_run i db') = Some (if r_status r = RS_QUEUED then RS_CANCELED else r_status r) \<and>
            (if r_status r = RS_QUEUED
             then \<forall>t \<in> set (run_targets db'). t_run_id t = i \<longrightarrow> t_status t = TS_CANCELED
             else run_targets db' = run_targets db))"
proof (cases "get_run i db")
  case None
  then show ?thesis using allowed by (simp add: cancel_def cancel_body_def)
next
  case (Some r)
  show ?thesis
  proof (cases "terminal (r_status r)")
    case True
    then show ?thesis using Some allowed by (simp add: cancel_def cancel_body_def)
  next
    case False
    have keys: "keys_ok db" using run_invD(1) [OF inv] .
    have open_status: "r_status r \<in> {RS_QUEUED, RS_PREPARING, RS_RUNNING}" using False by (auto simp: terminal_iff)
    obtain db1 where c: "request_cancel i (e_now env) db = (Some (cancel_row (e_now env) r), db1)"
      and runs1: "runs db1 = update_where (\<lambda>x. r_id x = i) (cancel_row (e_now env)) (runs db)"
      and targets1: "run_targets db1 = (if r_status r = RS_QUEUED
          then update_where (\<lambda>t. t_run_id t = i \<and> t_status t = TS_PENDING)
                 (\<lambda>t. t\<lparr>t_status := TS_CANCELED, t_finished_at := Some (e_now env)\<rparr>) (run_targets db)
          else run_targets db)"
      using open_status Some by (simp add: request_cancel_eq [OF keys])
    have id: "r_id r = i" using get_run_SomeD [OF Some] by simp
    have row1: "get_run i db1 = Some (cancel_row (e_now env) r)"
      using get_run_update [OF runs1, of i] Some id by (simp add: cancel_row_def)
    let ?ev = "new_event (fr_event_id fresh) i ''cancel_requested'' [] (e_now env)"
    obtain stored db2 where a: "append_event ?ev db1 = Inr (stored, db2)"
      and db2: "runs db2 = update_where (\<lambda>x. r_id x = i) (\<lambda>x. x\<lparr>r_next_event_sequence := r_next_event_sequence x + 1\<rparr>) (runs db1)"
        "run_targets db2 = run_targets db1"
      using row1 by (simp add: append_event_def new_event_def Let_def)
    have "r_id (cancel_row (e_now env) r) = i" using id by (simp add: cancel_row_def)
    then have row2: "get_run i db2 = Some ((cancel_row (e_now env) r)\<lparr>r_next_event_sequence :=
        r_next_event_sequence (cancel_row (e_now env) r) + 1\<rparr>)"
      using get_run_update [OF db2(1), of i] row1 by simp
    have targets2: "\<forall>t \<in> set (run_targets db2). t_run_id t = i \<longrightarrow> t_status t = TS_CANCELED" if q: "r_status r = RS_QUEUED"
    proof (intro ballI impI)
      fix t assume t: "t \<in> set (run_targets db2)" "t_run_id t = i"
      then obtain x where x: "x \<in> set (run_targets db)" "t = (if t_run_id x = i \<and> t_status x = TS_PENDING
          then x\<lparr>t_status := TS_CANCELED, t_finished_at := Some (e_now env)\<rparr> else x)"
        unfolding db2(2) targets1 using q by (auto simp: set_update_where)
      then have own: "t_run_id x = i" using t(2) by (simp split: if_splits)
      then have "t_status x = TS_PENDING"
        using run_invD(3) [OF inv] x(1) Some q by (auto simp: targets_ok_def target_fits_def)
      then show "t_status t = TS_CANCELED" using x(2) own by simp
    qed
    let ?db' = "audit_append env RUN_CANCEL_REQUESTED AO_SUCCEEDED (rs_audit_source svc) (run_details (acting_user actor user) i) db2"
    have res: "cancel svc env fresh actor i user db = (Inr (cancel_row (e_now env) r), ?db')"
      using allowed Some False c a by (simp add: cancel_def cancel_body_def)
    have "get_run i ?db' = get_run i db2" by (simp add: get_run_def)
    then show ?thesis
      using row2 targets2 targets1 db2(2) Some False
      by (auto simp: res cancellation_requested_def cancel_row_def)
  qed
qed

theorem cancel_by_status_witness:
  "case cancel sample_service (sample_env (seconds 3)) (sample_fresh 8) None 2 9 sample_claimed of (res, db') \<Rightarrow>
     map_option r_status (get_run 2 db') = Some RS_CANCELED \<and> cancellation_requested 2 db'"
proof -
  have "\<not> denied None RUN_CANCEL" by (simp add: denied_def)
  moreover have "case get_run 2 sample_claimed of None \<Rightarrow> False | Some r \<Rightarrow> r_status r = RS_QUEUED" by code_simp
  ultimately show ?thesis
    using cancel_by_status [OF sample_claimed_inv, where actor = None and svc = sample_service
        and env = "sample_env (seconds 3)" and fresh = "sample_fresh 8" and i = 2 and user = 9]
    by (auto simp: terminal_iff split: option.splits prod.splits)
qed

end
