(* ===== verification/Session_Properties.thy ===== *)
theory Session_Properties
  imports Request_Properties
begin

text \<open>
  Web Shell sessions: admission counts live sessions and holds the host exclusively, a ticket can
  be exchanged once, and a heartbeat never revives a session that lost its host.
\<close>

section \<open>Admission\<close>

lemma count_live_delete_expired: "count_live now (delete_sessions (ws_expired now) db) = count_live now db"
proof -
  have "filter (\<lambda>s. (ws_state s = WS_PENDING \<and> ws_ticket_expires_at s > now) \<or>
         (ws_state s \<in> {WS_ACTIVE, WS_CLOSE_REQUESTED} \<and> ws_lease_expires_at s > now)) (delete_where (ws_expired now) xs) =
      filter (\<lambda>s. (ws_state s = WS_PENDING \<and> ws_ticket_expires_at s > now) \<or>
         (ws_state s \<in> {WS_ACTIVE, WS_CLOSE_REQUESTED} \<and> ws_lease_expires_at s > now)) xs" for xs
    by (induction xs) (auto simp: ws_expired_def)
  then show ?thesis by (simp add: count_live_def delete_sessions_def Let_def)
qed

lemma count_live_cong:
  "web_shell_sessions db' = web_shell_sessions db \<Longrightarrow> count_live now db' = count_live now db"
  by (simp add: count_live_def)

lemma count_live_admission: "count_live (e_now env) (ws_admission env db) = count_live (e_now env) db"
proof -
  have "web_shell_sessions (ws_admission env db) = web_shell_sessions (delete_sessions (ws_expired (e_now env)) db)"
    by (simp add: ws_admission_def cleanup_expired_def)
  from count_live_cong [OF this, of "e_now env"] show ?thesis by (simp only: count_live_delete_expired)
qed

text \<open>
  C34: An admitted Web Shell session is counted and holds its host: the number of live sessions grows
  by exactly one and stays within the configured maximum, the session is pending for the caller's
  user and login session for thirty seconds, its host had no unexpired lock of anybody else, and
  the host's lock is now the session's until the ticket expires.
\<close>

theorem web_shell_admission:
  assumes inv: "run_inv db" and ok: "ws_create cfg env new_id host_id actor owner db = (Inr s, db')"
  shows "count_live (e_now env) db' = count_live (e_now env) db + 1 \<and>
     count_live (e_now env) db' \<le> set_web_shell_max_sessions cfg \<and>
     ws_get new_id db' = Some s \<and> ws_state s = WS_PENDING \<and> ws_host_id s = host_id \<and>
     ws_actor_user_id s = sp_user_id actor \<and> ws_auth_session_id s = sp_session_id actor \<and>
     ws_deadline s = e_now env + seconds 30 \<and> list_host_keys host_id db' \<noteq> [] \<and>
     lock_of (host_execution_locks db') host_id =
       Some (ws_lock host_id new_id (''pending:'' @ owner) (e_now env) (e_now env + seconds 30)) \<and>
     (\<forall>l \<in> set (host_execution_locks db). hl_host_id l = host_id \<longrightarrow> hl_expires_at l \<le> e_now env)"
proof -
  let ?a = "ws_admission env db"
  let ?l = "ws_lock host_id new_id (''pending:'' @ owner) (e_now env) (e_now env + seconds WEB_SHELL_TICKET_SECONDS)"
  have body: "ws_create_body cfg env new_id host_id actor owner db = Inr (s, db')"
    using ok by (auto simp: ws_create_def unit_of_work_def split: if_splits sum.splits)
  obtain target where s: "s = ws_new_session (e_now env) new_id actor owner target" "rh_host_id target = host_id"
    and room: "count_live (e_now env) ?a < set_web_shell_max_sessions cfg"
    and keys: "list_host_keys host_id ?a \<noteq> []"
    and fresh: "new_id \<notin> set (map ws_id (web_shell_sessions ?a))"
    and got: "fst (upsert_lock (e_now env) ?l (host_execution_locks ?a))"
    and db': "db' = audit_append env WEB_SHELL_REQUESTED AO_SUCCEEDED SRC_API (ws_audit_details actor new_id)
          (?a\<lparr>web_shell_sessions := web_shell_sessions ?a @ [s],
             host_execution_locks := snd (upsert_lock (e_now env) ?l (host_execution_locks ?a))\<rparr>)"
    using ws_create_body_InrD [OF body] by metis
  have live: "ws_state s = WS_PENDING" "ws_ticket_expires_at s = e_now env + seconds 30" "ws_id s = new_id"
    using s(1) by (simp_all add: ws_new_session_def WEB_SHELL_TICKET_SECONDS_def)
  then have count: "count_live (e_now env) db' = count_live (e_now env) ?a + 1"
    by (simp add: count_live_def db')
  have "fetch_one (\<lambda>x. ws_id x = new_id) (web_shell_sessions ?a) = None"
    using fresh by (auto simp: fetch_one_None_iff)
  then have get: "ws_get new_id db' = Some s" using live(3) by (simp add: ws_get_def db' fetch_one_append)
  have host: "hl_host_id ?l = host_id" by (simp add: ws_lock_def)
  have lock: "lock_of (host_execution_locks db') host_id = Some ?l"
    using host_locks.acquire_holder [of "e_now env" ?l "host_execution_locks ?a" host_id] got host by (simp add: db')
  have free: "hl_expires_at l \<le> e_now env" if l: "l \<in> set (host_execution_locks db)" "hl_host_id l = host_id" for l
  proof (rule ccontr)
    assume "\<not> hl_expires_at l \<le> e_now env"
    then have "l \<in> set (host_execution_locks ?a)" by (intro ws_admission_locks [OF inv l(1)]) simp
    then have "lock_of (host_execution_locks ?a) host_id = Some l"
      using l(2) by (simp add: lock_of_set [OF run_invD(1) [OF ws_admission_inv [OF inv]]])
    then show False
      using got host_locks.refused_iff [of "e_now env" ?l "host_execution_locks ?a"] host \<open>\<not> hl_expires_at l \<le> e_now env\<close> by simp
  qed
  have "list_host_keys host_id db' \<noteq> []" using keys by (simp add: list_host_keys_def db')
  then show ?thesis
    using count count_live_admission [of env db] room get live lock free s
    by (auto simp: ws_new_session_def WEB_SHELL_TICKET_SECONDS_def)
qed

definition sample_actor :: session_principal where
  "sample_actor = \<lparr>sp_session_id = 70, sp_user_id = 9, sp_username = ''ops'', sp_role = OWNER,
     sp_permissions = [WEB_SHELL], sp_mfa_enabled = False, sp_mfa_enrollment_required = False,
     sp_mfa_verified_at = None, sp_reauthenticated_at = None, sp_elevated_until = None,
     sp_csrf_hash = [], sp_expires_at = seconds 9000\<rparr>"

definition sample_login :: db where
  "sample_login = sample_assets\<lparr>
     users := [\<lparr>u_id = 9, u_username = ''ops'', u_password_hash = None, u_status = US_ACTIVE, u_role = OWNER,
       u_mfa_enrollment_required = False, u_activated_at = None, u_version = 1, u_created_at = 0, u_updated_at = 0,
       u_password_updated_at = None\<rparr>],
     sessions := [\<lparr>s_id = 70, s_user_id = 9, s_token_hash = [], s_csrf_hash = [], s_expires_at = seconds 9000,
       s_created_at = 0, s_mfa_verified_at = None, s_reauthenticated_at = None, s_elevated_until = None\<rparr>],
     credential_revisions := [\<lparr>cr_credential_id = 5, cr_version = 1, cr_encrypted_secret = [], cr_key_version = 1,
       cr_created_at = 0, cr_updated_at = 0\<rparr>]\<rparr>"

lemma sample_login_inv: "run_inv sample_login"
proof -
  have "same_run_tables sample_db sample_login" by (simp add: same_run_tables_def sample_login_def sample_assets_def)
  then show ?thesis using run_inv_cong sample_inv by blast
qed

definition sample_admitted :: "(ops_error + web_shell_session) \<times> db" where
  "sample_admitted = ws_create sample_settings (sample_env (seconds 1)) 50 100 sample_actor ''api'' sample_login"

lemma sample_admitted_ok: "\<exists>s. sample_admitted = (Inr s, snd sample_admitted)"
proof -
  have "case fst sample_admitted of Inl _ \<Rightarrow> False | Inr _ \<Rightarrow> True" by code_simp
  then obtain s where "fst sample_admitted = Inr s" by (auto split: sum.splits)
  then show ?thesis by (intro exI [of _ s]) (simp add: prod_eq_iff)
qed

theorem web_shell_admission_witness:
  "count_live (seconds 1) (snd sample_admitted) = 1 \<and>
   (\<exists>l. lock_of (host_execution_locks (snd sample_admitted)) 100 = Some l \<and> hl_web_shell_session_id l = Some 50)"
proof -
  obtain s where "sample_admitted = (Inr s, snd sample_admitted)" using sample_admitted_ok by blast
  then have "ws_create sample_settings (sample_env (seconds 1)) 50 100 sample_actor ''api'' sample_login = (Inr s, snd sample_admitted)"
    by (simp add: sample_admitted_def)
  from web_shell_admission [OF sample_login_inv this] show ?thesis
    by (simp add: ws_lock_def sample_login_def sample_assets_def sample_db_def empty_db_def count_live_def)
qed

section \<open>Tickets\<close>

lemma activate_SomeD:
  assumes inv: "run_inv db" and "activate i auth w now e db = Inr (Some act, db')"
  shows "\<exists>s. ws_get i db = Some s \<and> ws_auth_session_id s = auth \<and> ws_state s = WS_PENDING \<and> ws_ticket_expires_at s > now \<and>
      auth_session_live now auth db \<and> act = s\<lparr>ws_state := WS_ACTIVE, ws_owner_id := Some w, ws_connected_at := Some now,
        ws_last_activity_at := Some now, ws_lease_expires_at := e\<rparr>"
    and "ws_get i db' = Some act"
proof -
  let ?hit = "\<lambda>s. ws_id s = i \<and> ws_auth_session_id s = auth \<and> ws_state s = WS_PENDING \<and>
      ws_ticket_expires_at s > now \<and> auth_session_live now (ws_auth_session_id s) db"
  let ?f = "\<lambda>s. s\<lparr>ws_state := WS_ACTIVE, ws_owner_id := Some w, ws_connected_at := Some now,
      ws_last_activity_at := Some now, ws_lease_expires_at := e\<rparr>"
  obtain s where s: "fetch_one ?hit (web_shell_sessions db) = Some s" and act: "act = ?f s"
    and db': "web_shell_sessions db' = update_where ?hit ?f (web_shell_sessions db)"
    using assms(2) by (auto simp: activate_def Let_def split: option.splits if_splits)
  have hit: "?hit s" and mem: "s \<in> set (web_shell_sessions db)" using fetch_one_SomeD [OF s] by auto
  have get: "ws_get i db = Some s" using mem hit run_invD(1) [OF inv] by (simp add: ws_get_Some_iff)
  then show "\<exists>s. ws_get i db = Some s \<and> ws_auth_session_id s = auth \<and> ws_state s = WS_PENDING \<and> ws_ticket_expires_at s > now \<and>
      auth_session_live now auth db \<and> act = ?f s" using hit act by blast
  have "ws_get i db' = map_option (\<lambda>s. if ?hit s then ?f s else s) (ws_get i db)"
    by (rule ws_get_update [OF db']) simp
  moreover have "auth_session_live now auth db" using hit by auto
  ultimately show "ws_get i db' = Some act" using get hit act by auto
qed

text \<open>
  C35: A Web Shell ticket is good for one connection: it can only be exchanged by the user and login
  session it was issued to, before it expires and while that login is valid; the session is then
  active for the owner, and every later exchange of the same ticket, by anybody, fails with an
  error and changes nothing.
\<close>

theorem web_shell_ticket_single_use:
  assumes inv: "run_inv db" and ok: "ws_claim decrypt env i actor owner db = (Inr launch, db')"
  shows "(\<exists>s. ws_get i db = Some s \<and> ws_actor_user_id s = sp_user_id actor \<and> ws_auth_session_id s = sp_session_id actor \<and>
       ws_state s = WS_PENDING \<and> e_now env < ws_ticket_expires_at s \<and> auth_session_live (e_now env) (sp_session_id actor) db) \<and>
     ws_state (la_session launch) = WS_ACTIVE \<and> ws_owner_id (la_session launch) = Some owner \<and>
     ws_get i db' = Some (la_session launch) \<and>
     snd (ws_claim decrypt' env' i actor' owner' db') = db' \<and>
     fst (ws_claim decrypt' env' i actor' owner' db') \<in> {Inl PermissionDeniedError, Inl WebShellSessionExpiredError}"
proof -
  have body: "ws_claim_body decrypt env i actor owner db = Inr (launch, db')"
    using ok by (auto simp: ws_claim_def unit_of_work_def split: if_splits sum.splits)
  obtain current act db1 where c: "ws_get i db = Some current" "ws_actor_user_id current = sp_user_id actor"
    and a: "activate i (sp_session_id actor) owner (e_now env) (e_now env + seconds WEB_SHELL_LEASE_SECONDS) db = Inr (Some act, db1)"
    and l: "la_session launch = act"
    and db': "db' = audit_append env WEB_SHELL_STARTED AO_SUCCEEDED SRC_API (ws_audit_details actor i) db1"
    using ws_claim_body_InrD [OF body] by metis
  note A = activate_SomeD [OF inv a]
  have get: "ws_get i db' = Some act" using A(2) by (simp add: db' ws_get_def)
  moreover have state: "ws_state act = WS_ACTIVE" "ws_owner_id act = Some owner" using A(1) by auto
  ultimately have "ws_claim_body decrypt' env' i actor' owner' db' = Inl WebShellSessionExpiredError"
    by (simp add: ws_claim_body_def)
  then show ?thesis using A(1) c get state l by (auto simp: ws_claim_def)
qed

theorem web_shell_ticket_single_use_witness:
  "\<exists>launch db'. ws_claim (\<lambda>_ _ _ _. Inr [(''password'', ''s3cret'')]) (sample_env (seconds 2)) 50 sample_actor ''api'' (snd sample_admitted)
      = (Inr launch, db') \<and>
    fst (ws_claim (\<lambda>_ _ _ _. Inr [(''password'', ''s3cret'')]) (sample_env (seconds 3)) 50 sample_actor ''api'' db')
      \<in> {Inl PermissionDeniedError, Inl WebShellSessionExpiredError}"
proof -
  let ?dec = "\<lambda>_ _ _ _. Inr [(''password'', ''s3cret'')]"
  let ?c = "ws_claim ?dec (sample_env (seconds 2)) 50 sample_actor ''api'' (snd sample_admitted)"
  have inv: "run_inv (snd sample_admitted)" unfolding sample_admitted_def by (rule ws_create_inv [OF sample_login_inv])
  have "case fst ?c of Inl _ \<Rightarrow> False | Inr _ \<Rightarrow> True" by code_simp
  then obtain launch where "fst ?c = Inr launch" by (auto split: sum.splits)
  then have c: "?c = (Inr launch, snd ?c)" by (simp add: prod_eq_iff)
  show ?thesis
    using web_shell_ticket_single_use [OF inv c, of ?dec "sample_env (seconds 3)" sample_actor "''api''"] c by blast
qed

section \<open>Heartbeats\<close>

text \<open>
  A terminal goes on only while it holds its host: a heartbeat answers "go on" exactly when the
  session is active, owned by the caller, its login is valid and the host's lock is still its own;
  session and lock then both run for another thirty seconds. Otherwise the terminal is told to
  close, with \<open>USER_REQUESTED\<close> exactly when a close was requested of its owner.
\<close>

theorem web_shell_heartbeat_holds_host:
  assumes inv: "run_inv db"
  shows "case ws_heartbeat env i owner la db of
      (None, db') \<Rightarrow>
        (\<exists>s l. ws_get i db = Some s \<and> ws_state s = WS_ACTIVE \<and> ws_owner_id s = Some owner \<and>
           auth_session_live (e_now env) (ws_auth_session_id s) db \<and>
           l \<in> set (host_execution_locks db) \<and> hl_web_shell_session_id l = Some i \<and> hl_host_id l = ws_host_id s \<and>
           l\<lparr>hl_expires_at := e_now env + seconds 30\<rparr> \<in> set (host_execution_locks db') \<and>
           map_option ws_lease_expires_at (ws_get i db') = Some (e_now env + seconds 30))
    | (Some reason, db') \<Rightarrow>
        (reason = USER_REQUESTED \<longleftrightarrow>
           (\<exists>s. ws_get i db = Some s \<and> ws_owner_id s = Some owner \<and> ws_state s = WS_CLOSE_REQUESTED)) \<and>
        reason \<in> {USER_REQUESTED, AUTH_SESSION_INVALID}"
proof -
  let ?now = "e_now env" let ?e = "e_now env + seconds WEB_SHELL_LEASE_SECONDS"
  let ?hit = "\<lambda>s. ws_id s = i \<and> ws_owner_id s = Some owner \<and> ws_state s = WS_ACTIVE \<and>
      auth_session_live ?now (ws_auth_session_id s) db"
  let ?f = "\<lambda>s. s\<lparr>ws_lease_expires_at := ?e, ws_last_activity_at := Some la\<rparr>"
  let ?ids = "set (map ws_id (filter ?hit (web_shell_sessions db)))"
  let ?q = "\<lambda>l. (case hl_web_shell_session_id l of None \<Rightarrow> False | Some i \<Rightarrow> i \<in> ?ids) \<and> hl_owner_id l = owner"
  let ?db = "snd (ws_heartbeat_row i owner ?now ?e la db)"
  have sess: "web_shell_sessions ?db = update_where ?hit ?f (web_shell_sessions db)"
    and locks: "host_execution_locks ?db = update_where ?q (\<lambda>l. l\<lparr>hl_expires_at := ?e\<rparr>) (host_execution_locks db)"
    by (simp_all add: ws_heartbeat_row_def Let_def)
  have ok: "fst (ws_heartbeat_row i owner ?now ?e la db) \<longleftrightarrow> ?ids \<noteq> {} \<and> (\<exists>l \<in> set (host_execution_locks db). ?q l)"
    unfolding ws_heartbeat_row_def Let_def fst_conv map_is_Nil_conv set_empty filter_empty_conv by blast
  have get: "ws_get i ?db = map_option (\<lambda>s. if ?hit s then ?f s else s) (ws_get i db)"
    by (rule ws_get_update [OF sess]) simp
  have keys: "keys_ok db" using run_invD(1) [OF inv] .
  have in_ids: "j \<in> ?ids \<longleftrightarrow> j = i \<and> (\<exists>s. ws_get i db = Some s \<and> ?hit s)" for j
    using keys by (auto simp: ws_get_Some_iff)
  have eq: "ws_heartbeat env i owner la db =
      (if fst (ws_heartbeat_row i owner ?now ?e la db) then None
       else case ws_get i ?db of
         Some current \<Rightarrow> if ws_owner_id current = Some owner \<and> ws_state current = WS_CLOSE_REQUESTED
            then Some USER_REQUESTED else Some AUTH_SESSION_INVALID
       | None \<Rightarrow> Some AUTH_SESSION_INVALID, ?db)"
    by (simp add: ws_heartbeat_def split: prod.splits)
  show ?thesis
  proof (cases "fst (ws_heartbeat_row i owner ?now ?e la db)")
    case True
    then obtain l where l: "l \<in> set (host_execution_locks db)" "?q l" using ok by blast
    then have sid: "hl_web_shell_session_id l = Some i" and "\<exists>s. ws_get i db = Some s \<and> ?hit s"
      using in_ids by (auto split: option.splits)
    then obtain s where s: "ws_get i db = Some s" "?hit s" by blast
    have host: "hl_host_id l = ws_host_id s" using inv l(1) by (cases rule: lock_cases) (use sid s in auto)
    have "l\<lparr>hl_expires_at := ?e\<rparr> \<in> set (host_execution_locks ?db)"
      using l unfolding locks set_update_where by auto
    moreover have "map_option ws_lease_expires_at (ws_get i ?db) = Some ?e" using get s by simp
    ultimately show ?thesis
      using True s l(1) sid host by (auto simp: eq WEB_SHELL_LEASE_SECONDS_def)
  next
    case False
    then show ?thesis using get by (auto simp: eq split: option.splits if_splits)
  qed
qed

theorem web_shell_heartbeat_holds_host_witness:
  "case ws_heartbeat (sample_env (seconds 5)) 50 ''api'' (seconds 5) (snd sample_admitted) of
     (None, _) \<Rightarrow> False | (Some reason, _) \<Rightarrow> reason = AUTH_SESSION_INVALID"
proof -
  have inv: "run_inv (snd sample_admitted)" unfolding sample_admitted_def by (rule ws_create_inv [OF sample_login_inv])
  have "case ws_get 50 (snd sample_admitted) of None \<Rightarrow> False | Some s \<Rightarrow> ws_state s = WS_PENDING" by code_simp
  then show ?thesis
    using web_shell_heartbeat_holds_host [OF inv, where env = "sample_env (seconds 5)" and i = 50 and owner = "''api''" and la = "seconds 5"]
    by (auto split: option.splits prod.splits)
qed

end
