(* ===== verification/Migration_Engine.thy ===== *)
theory Migration_Engine
  imports Prelude "HOL-Library.Multiset"
begin

text \<open>
  The forward-only migration engine of \<open>db/migration_engine.py\<close>: the depth-first order of the
  migration graph and the runner that brings a database to the current schema. SHA-256 and the
  execution of SQL text by PostgreSQL are arguments of the definitions. The order is
  characterised completely: it exists exactly for duplicate-free, closed and acyclic graphs,
  and then it is a permutation in which every migration follows its dependencies.
\<close>

section \<open>Migrations and their errors\<close>

datatype migration_error =
    DuplicateMigrationId
  | MissingDependencies string "string list"
  | MigrationCycle string
  | MigrationKeyError string
  | RecursionError
  | DatabaseNotInitialized
  | UnknownMigrations "string list"
  | ChecksumMismatch string
  | PendingMigrations "string list"
  | SqlError string

datatype migration_state = MIG_APPLIED | MIG_PENDING

record migration =
  migration_id :: string
  dependencies :: "string list"
  up_sql :: string

record migration_status =
  mgs_migration_id :: string
  mgs_checksum :: string
  mgs_state :: migration_state
  mgs_applied_at :: "timestamp option"

fun join_comma :: "string list \<Rightarrow> string" where
  "join_comma [] = ''''"
| "join_comma [x] = x"
| "join_comma (x # xs) = x @ '','' @ join_comma xs"

definition migration_checksum :: "(string \<Rightarrow> string) \<Rightarrow> migration \<Rightarrow> string" where
  "migration_checksum sha256 m =
     sha256 (migration_id m @ [CHR 0x0A] @ join_comma (dependencies m) @ [CHR 0x0A] @ up_sql m)"

section \<open>The order of the migrations\<close>

text \<open>
  \<open>for_each\<close> is a Python loop whose body may raise. The nested function \<open>visit\<close> recurses on the
  call stack; its first argument is the number of frames left, and Python raises
  \<open>RecursionError\<close> when there are none.
\<close>

fun for_each :: "('a \<Rightarrow> 's \<Rightarrow> 'e + 's) \<Rightarrow> 'a list \<Rightarrow> 's \<Rightarrow> 'e + 's" where
  "for_each f [] s = Inr s"
| "for_each f (x # xs) s = (case f x s of Inl e \<Rightarrow> Inl e | Inr s' \<Rightarrow> for_each f xs s')"

record visit_state =
  vs_ordered :: "migration list"
  vs_visiting :: "string list"
  vs_visited :: "string list"

definition by_id :: "migration list \<Rightarrow> string \<Rightarrow> migration option" where
  "by_id ms i = fetch_one (\<lambda>m. migration_id m = i) ms"

primrec visit :: "nat \<Rightarrow> migration list \<Rightarrow> string \<Rightarrow> visit_state \<Rightarrow> migration_error + visit_state" where
  "visit 0 ms i s = Inl RecursionError"
| "visit (Suc n) ms i s =
     (if i \<in> set (vs_visited s) then Inr s
      else if i \<in> set (vs_visiting s) then Inl (MigrationCycle i)
      else case by_id ms i of
             None \<Rightarrow> Inl (MigrationKeyError i)
           | Some m \<Rightarrow>
               (case for_each (visit n ms) (sort (dependencies m))
                       (s\<lparr>vs_visiting := i # vs_visiting s\<rparr>) of
                  Inl e \<Rightarrow> Inl e
                | Inr s' \<Rightarrow> Inr (s'\<lparr>vs_visiting := remove1 i (vs_visiting s'),
                                 vs_visited := i # vs_visited s',
                                 vs_ordered := vs_ordered s' @ [m]\<rparr>)))"

definition missing_dependencies :: "migration list \<Rightarrow> migration \<Rightarrow> string list" where
  "missing_dependencies ms m =
     filter (\<lambda>d. d \<notin> set (map migration_id ms)) (dependencies m)"

fun sorted_set :: "string list \<Rightarrow> string list" where
  "sorted_set xs = sort (remdups xs)"

definition ordered_migrations :: "nat \<Rightarrow> migration list \<Rightarrow> migration_error + migration list" where
  "ordered_migrations frames ms =
     (if \<not> distinct (map migration_id ms) then Inl DuplicateMigrationId
      else case filter (\<lambda>m. missing_dependencies ms m \<noteq> []) ms of
             m # _ \<Rightarrow> Inl (MissingDependencies (migration_id m) (sorted_set (missing_dependencies ms m)))
           | [] \<Rightarrow>
               (case for_each (visit frames ms) (sort (map migration_id ms))
                       \<lparr>vs_ordered = [], vs_visiting = [], vs_visited = []\<rparr> of
                  Inl e \<Rightarrow> Inl e
                | Inr s \<Rightarrow> Inr (vs_ordered s)))"

section \<open>The specification of the order\<close>

definition depends_on :: "migration list \<Rightarrow> (string \<times> string) set" where
  "depends_on ms = {(migration_id m, d) |m d. m \<in> set ms \<and> d \<in> set (dependencies m)}"

definition closed_graph :: "migration list \<Rightarrow> bool" where
  "closed_graph ms \<longleftrightarrow>
     (\<forall>m \<in> set ms. set (dependencies m) \<subseteq> set (map migration_id ms))"

fun topological :: "string list \<Rightarrow> migration list \<Rightarrow> bool" where
  "topological seen [] \<longleftrightarrow> True"
| "topological seen (m # ms) \<longleftrightarrow>
     migration_id m \<notin> set seen \<and> set (dependencies m) \<subseteq> set seen \<and>
     topological (migration_id m # seen) ms"

lemma topological_append:
  "topological seen (xs @ ys) \<longleftrightarrow> topological seen xs \<and> topological (rev (map migration_id xs) @ seen) ys"
  by (induction xs arbitrary: seen) auto

lemma topological_set_cong: "set seen = set seen' \<Longrightarrow> topological seen xs = topological seen' xs"
  by (induction xs arbitrary: seen seen') (simp_all, metis list.simps(15))

lemma topological_distinct:
  "topological seen xs \<Longrightarrow> distinct (map migration_id xs) \<and> set (map migration_id xs) \<inter> set seen = {}"
  by (induction xs arbitrary: seen) fastforce+

definition position :: "migration list \<Rightarrow> string \<Rightarrow> nat" where
  "position ms i = length (takeWhile (\<lambda>m. migration_id m \<noteq> i) ms)"

lemma topological_position:
  assumes "topological [] ms" and "(i, d) \<in> depends_on ms"
  shows "position ms d < position ms i"
proof -
  obtain m where m: "m \<in> set ms" "i = migration_id m" "d \<in> set (dependencies m)"
    using assms(2) by (auto simp: depends_on_def)
  then obtain xs ys where split: "ms = xs @ m # ys" by (auto dest: split_list)
  then have top: "migration_id m \<notin> set (map migration_id xs)" "set (dependencies m) \<subseteq> set (map migration_id xs)"
    using assms(1) by (auto simp: topological_append)
  then have "takeWhile (\<lambda>x. migration_id x \<noteq> i) ms = xs"
    using m(2) unfolding split by (subst takeWhile_append2) (auto simp: image_iff)
  then have "position ms i = length xs" by (simp add: position_def)
  moreover obtain x where x: "x \<in> set xs" "migration_id x = d" using top(2) m(3) by auto
  then have "length (takeWhile (\<lambda>m. migration_id m \<noteq> d) xs) < length xs"
    by (metis (mono_tags, lifting) length_takeWhile_le nat_less_le takeWhile_eq_all_conv takeWhile_eq_take take_all)
  then have "position ms d < length xs"
    using x by (auto simp: position_def split takeWhile_append)
  ultimately show ?thesis by simp
qed

lemma topological_acyclic:
  assumes "topological [] ms" shows "acyclic (depends_on ms)"
proof -
  have "(depends_on ms)\<inverse> \<subseteq> measure (position ms)" using topological_position [OF assms] by auto
  then have "wf ((depends_on ms)\<inverse>)" by (rule wf_subset [OF wf_measure])
  then show ?thesis by (simp only: acyclic_converse wf_acyclic [THEN acyclic_converse [THEN iffD1]])
qed

lemma by_id_Some_iff:
  "distinct (map migration_id ms) \<Longrightarrow> by_id ms i = Some m \<longleftrightarrow> m \<in> set ms \<and> migration_id m = i"
  using fetch_one_by_key [of migration_id ms] by (auto simp: by_id_def dest: fetch_one_SomeD)

section \<open>The depth-first search meets the specification\<close>

lemma for_each_rule:
  assumes "P s" and "\<And>x s. x \<in> set xs \<Longrightarrow> P s \<Longrightarrow>
      (case f x s of Inl e \<Rightarrow> E e | Inr s' \<Rightarrow> P s' \<and> Q x s' \<and> (\<forall>z. Q z s \<longrightarrow> Q z s'))"
  shows "case for_each f xs s of Inl e \<Rightarrow> E e
    | Inr s' \<Rightarrow> P s' \<and> (\<forall>x \<in> set xs. Q x s') \<and> (\<forall>z. Q z s \<longrightarrow> Q z s')"
  using assms
proof (induction xs arbitrary: s)
  case Nil
  then show ?case by simp
next
  case (Cons x xs)
  show ?case
  proof (cases "f x s")
    case (Inl e)
    then show ?thesis using Cons.prems(2) [of x s] Cons.prems(1) by simp
  next
    case (Inr s1)
    then have s1: "P s1" "Q x s1" "\<forall>z. Q z s \<longrightarrow> Q z s1" using Cons.prems(2) [of x s] Cons.prems(1) by auto
    from Cons.IH [OF s1(1) Cons.prems(2)] show ?thesis using s1 Inr by (auto split: sum.splits)
  qed
qed

definition visit_inv :: "migration list \<Rightarrow> visit_state \<Rightarrow> bool" where
  "visit_inv ms s \<longleftrightarrow>
     topological [] (vs_ordered s) \<and> set (vs_ordered s) \<subseteq> set ms \<and>
     set (vs_visited s) = set (map migration_id (vs_ordered s)) \<and>
     set (vs_visiting s) \<subseteq> set (map migration_id ms) \<and> distinct (vs_visiting s) \<and>
     set (vs_visiting s) \<inter> set (vs_visited s) = {}"

lemma visit_spec:
  assumes graph: "distinct (map migration_id ms)" "closed_graph ms"
    and "visit_inv ms s" and "i \<in> set (map migration_id ms)"
    and "\<forall>v \<in> set (vs_visiting s). (v, i) \<in> (depends_on ms)\<^sup>+"
    and "length ms < n + length (vs_visiting s)"
  shows "case visit n ms i s of
      Inl e \<Rightarrow> \<exists>j. e = MigrationCycle j \<and> (j, j) \<in> (depends_on ms)\<^sup>+
    | Inr s' \<Rightarrow> (visit_inv ms s' \<and> vs_visiting s' = vs_visiting s) \<and> i \<in> set (vs_visited s') \<and>
        (\<forall>z. z \<in> set (vs_visited s) \<longrightarrow> z \<in> set (vs_visited s'))"
  using assms(3-)
proof (induction n arbitrary: i s)
  case 0
  have "length (vs_visiting s) = card (set (vs_visiting s))" using 0(1) by (simp add: visit_inv_def distinct_card)
  also have "\<dots> \<le> card (set (map migration_id ms))" using 0(1) by (intro card_mono) (auto simp: visit_inv_def)
  also have "\<dots> \<le> length ms" by (metis card_length length_map)
  finally show ?case using 0(4) by simp
next
  case (Suc n)
  show ?case
  proof (cases "i \<in> set (vs_visited s) \<or> i \<in> set (vs_visiting s)")
    case True
    then show ?thesis using Suc.prems by (auto simp: visit_inv_def)
  next
    case new: False
    obtain m where m: "m \<in> set ms" "migration_id m = i" and "by_id ms i = Some m"
      using Suc.prems(2) by (auto simp: by_id_Some_iff [OF graph(1)])
    let ?s1 = "s\<lparr>vs_visiting := i # vs_visiting s\<rparr>"
    let ?P = "\<lambda>t. visit_inv ms t \<and> vs_visiting t = i # vs_visiting s"
    let ?loop = "for_each (visit n ms) (sort (dependencies m)) ?s1"
    have edge: "(i, d) \<in> depends_on ms" if "d \<in> set (dependencies m)" for d using that m by (auto simp: depends_on_def)
    have "case ?loop of Inl e \<Rightarrow> \<exists>j. e = MigrationCycle j \<and> (j, j) \<in> (depends_on ms)\<^sup>+
      | Inr t \<Rightarrow> ?P t \<and> (\<forall>d \<in> set (sort (dependencies m)). d \<in> set (vs_visited t)) \<and>
          (\<forall>z. z \<in> set (vs_visited ?s1) \<longrightarrow> z \<in> set (vs_visited t))"
    proof (rule for_each_rule)
      show "?P ?s1" using Suc.prems(1,2) new by (auto simp: visit_inv_def)
      fix d t assume d: "d \<in> set (sort (dependencies m))" and t: "?P t"
      have "d \<in> set (map migration_id ms)" using d m graph(2) by (auto simp: closed_graph_def)
      moreover have "\<forall>v \<in> set (vs_visiting t). (v, d) \<in> (depends_on ms)\<^sup>+"
        using t d edge Suc.prems(3) by (auto intro: trancl_into_trancl)
      ultimately show "case visit n ms d t of Inl e \<Rightarrow> \<exists>j. e = MigrationCycle j \<and> (j, j) \<in> (depends_on ms)\<^sup>+
        | Inr t' \<Rightarrow> ?P t' \<and> d \<in> set (vs_visited t') \<and> (\<forall>z. z \<in> set (vs_visited t) \<longrightarrow> z \<in> set (vs_visited t'))"
        using Suc.IH [of t d] t Suc.prems(4) by (auto split: sum.splits)
    qed
    then show ?thesis
      using new m \<open>by_id ms i = Some m\<close> by (auto simp: visit_inv_def topological_append split: sum.splits)
  qed
qed

lemma closed_graph_iff: "closed_graph ms \<longleftrightarrow> filter (\<lambda>m. missing_dependencies ms m \<noteq> []) ms = []"
  by (auto simp: closed_graph_def missing_dependencies_def filter_empty_conv)

lemma complete_visit:
  assumes "distinct (map migration_id ms)" and "visit_inv ms t" and "\<forall>m \<in> set ms. migration_id m \<in> set (vs_visited t)"
  shows "acyclic (depends_on ms)" and "mset (vs_ordered t) = mset ms" and "topological [] (vs_ordered t)"
proof -
  show top: "topological [] (vs_ordered t)" using assms(2) by (simp add: visit_inv_def)
  have sub: "set (vs_ordered t) \<subseteq> set ms" using assms(2) by (simp add: visit_inv_def)
  have "m \<in> set (vs_ordered t)" if m: "m \<in> set ms" for m
  proof -
    obtain m' where m': "m' \<in> set (vs_ordered t)" "migration_id m' = migration_id m"
      using assms(2,3) m by (auto simp: visit_inv_def image_iff)
    then have "m' = m" using m sub row_by_key [OF assms(1), of m' m] by auto
    then show ?thesis using m'(1) by simp
  qed
  then have same: "set (vs_ordered t) = set ms" using sub by blast
  moreover have "distinct (vs_ordered t)" "distinct ms"
    using topological_distinct [OF top] assms(1) by (auto simp: distinct_map)
  ultimately show "mset (vs_ordered t) = mset ms" by (simp add: set_eq_iff_mset_eq_distinct)
  show "acyclic (depends_on ms)" using topological_acyclic [OF top] same by (simp add: depends_on_def)
qed

lemma ordered_migrations_graph:
  assumes "length ms < frames" and graph: "distinct (map migration_id ms)" "closed_graph ms"
  shows "case ordered_migrations frames ms of
      Inl e \<Rightarrow> \<exists>j. e = MigrationCycle j \<and> (j, j) \<in> (depends_on ms)\<^sup>+
    | Inr ms' \<Rightarrow> acyclic (depends_on ms) \<and> mset ms' = mset ms \<and> topological [] ms'"
proof -
  let ?init = "\<lparr>vs_ordered = [], vs_visiting = [], vs_visited = []\<rparr>"
  have "case for_each (visit frames ms) (sort (map migration_id ms)) ?init of
      Inl e \<Rightarrow> \<exists>j. e = MigrationCycle j \<and> (j, j) \<in> (depends_on ms)\<^sup>+
    | Inr t \<Rightarrow> (visit_inv ms t \<and> vs_visiting t = []) \<and>
        (\<forall>i \<in> set (sort (map migration_id ms)). i \<in> set (vs_visited t)) \<and>
        (\<forall>z. z \<in> set (vs_visited ?init) \<longrightarrow> z \<in> set (vs_visited t))"
  proof (rule for_each_rule)
    show "visit_inv ms ?init \<and> vs_visiting ?init = []" by (simp add: visit_inv_def)
    fix i t assume "i \<in> set (sort (map migration_id ms))" and "visit_inv ms t \<and> vs_visiting t = []"
    then show "case visit frames ms i t of Inl e \<Rightarrow> \<exists>j. e = MigrationCycle j \<and> (j, j) \<in> (depends_on ms)\<^sup>+
      | Inr t' \<Rightarrow> (visit_inv ms t' \<and> vs_visiting t' = []) \<and> i \<in> set (vs_visited t') \<and>
          (\<forall>z. z \<in> set (vs_visited t) \<longrightarrow> z \<in> set (vs_visited t'))"
      using visit_spec [OF graph, of t i frames] assms(1) by (auto split: sum.splits)
  qed
  then show ?thesis
    using graph complete_visit [OF graph(1)]
    by (cases "for_each (visit frames ms) (sort (map migration_id ms)) ?init")
      (auto simp: ordered_migrations_def closed_graph_iff)
qed

lemma ordered_migrations_distinct:
  assumes "length ms < frames" and "ordered_migrations frames ms = Inr ms'"
  shows "distinct (map migration_id ms')"
proof -
  have "distinct (map migration_id ms)" "closed_graph ms"
    using assms(2) by (auto simp: ordered_migrations_def closed_graph_iff split: if_splits list.splits)
  then have "topological [] ms'" using ordered_migrations_graph [OF assms(1)] assms(2) by fastforce
  then show ?thesis using topological_distinct by blast
qed

text \<open>
  C30: The migration order is total and complete. With more stack frames than migrations the search
  never runs out of them; it succeeds exactly when ids are unique, dependencies exist and the graph
  has no cycle, and then returns all migrations, each once and after its dependencies.
\<close>

theorem ordered_migrations_correct:
  assumes "length ms < frames"
  shows "case ordered_migrations frames ms of
      Inr ms' \<Rightarrow> distinct (map migration_id ms) \<and> closed_graph ms \<and> acyclic (depends_on ms) \<and>
        mset ms' = mset ms \<and> topological [] ms'
    | Inl DuplicateMigrationId \<Rightarrow> \<not> distinct (map migration_id ms)
    | Inl (MissingDependencies i ds) \<Rightarrow> \<exists>m \<in> set ms. migration_id m = i \<and> ds \<noteq> [] \<and>
        set ds = set (dependencies m) - set (map migration_id ms)
    | Inl (MigrationCycle i) \<Rightarrow> (i, i) \<in> (depends_on ms)\<^sup>+
    | Inl _ \<Rightarrow> False"
proof -
  consider (dup) "\<not> distinct (map migration_id ms)"
    | (missing) m rest where "distinct (map migration_id ms)" "filter (\<lambda>m. missing_dependencies ms m \<noteq> []) ms = m # rest"
    | (graph) "distinct (map migration_id ms)" "closed_graph ms"
    by (cases "filter (\<lambda>m. missing_dependencies ms m \<noteq> []) ms") (auto simp: closed_graph_iff)
  then show ?thesis
  proof cases
    case dup
    then show ?thesis by (simp add: ordered_migrations_def)
  next
    case missing
    then have "m \<in> set ms" "missing_dependencies ms m \<noteq> []" by (auto dest!: filter_eq_ConsD)
    moreover from this have "sorted_set (missing_dependencies ms m) \<noteq> []"
      by (metis set_empty2 set_remdups set_sort sorted_set.simps)
    ultimately show ?thesis using missing
      by (auto simp: ordered_migrations_def missing_dependencies_def intro!: bexI [of _ m])
  next
    case graph
    then show ?thesis using ordered_migrations_graph [OF assms graph] by (auto split: sum.splits)
  qed
qed

definition demo_migrations :: "migration list" where
  "demo_migrations =
     [\<lparr>migration_id = ''auth'', dependencies = [''core''], up_sql = ''B''\<rparr>,
      \<lparr>migration_id = ''runs'', dependencies = [''core'', ''auth''], up_sql = ''C''\<rparr>,
      \<lparr>migration_id = ''core'', dependencies = [], up_sql = ''A''\<rparr>]"

lemma demo_migrations_order:
  "ordered_migrations 4 demo_migrations = Inr [demo_migrations ! 2, demo_migrations ! 0, demo_migrations ! 1]"
  by code_simp

theorem ordered_migrations_correct_witness:
  "length demo_migrations < 4 \<and> acyclic (depends_on demo_migrations) \<and>
   topological [] [demo_migrations ! 2, demo_migrations ! 0, demo_migrations ! 1]"
proof -
  have "length demo_migrations < 4" by (simp add: demo_migrations_def)
  with ordered_migrations_correct [OF this] demo_migrations_order show ?thesis by (simp del: topological.simps)
qed

section \<open>The runner\<close>

text \<open>
  The database the runner sees: the rows of \<open>schema_migrations\<close>, if the table exists, and the
  rest of the schema, which only the migrations' SQL changes. \<open>exec\<close> is PostgreSQL running one SQL
  text. \<open>_applied\<close> reads the rows ordered by id (in the C collation).
\<close>

record 's mig_db =
  tracking :: "(string \<times> string \<times> timestamp) list option"
  schema :: 's

definition tracking_exists :: "'s mig_db \<Rightarrow> bool" where
  "tracking_exists db \<longleftrightarrow> tracking db \<noteq> None"

definition applied :: "'s mig_db \<Rightarrow> (string \<times> string \<times> timestamp) list" where
  "applied db = (case tracking db of None \<Rightarrow> [] | Some rows \<Rightarrow> sort_key fst rows)"

definition validate_history ::
    "(string \<Rightarrow> string) \<Rightarrow> migration list \<Rightarrow> 's mig_db \<Rightarrow> migration_error + unit" where
  "validate_history sha256 ms db =
     (if \<not> tracking_exists db then Inl DatabaseNotInitialized
      else
        let rows = applied db;
            unknown = filter (\<lambda>i. i \<notin> set (map migration_id ms)) (map fst rows);
            changed = filter (\<lambda>(i, c, _). map_option (migration_checksum sha256) (by_id ms i) \<noteq> Some c) rows
        in if unknown \<noteq> [] then Inl (UnknownMigrations (sorted_set unknown))
           else case changed of
                  (i, _) # _ \<Rightarrow> Inl (ChecksumMismatch i)
                | [] \<Rightarrow> Inr ())"

definition pending_ids :: "migration list \<Rightarrow> 's mig_db \<Rightarrow> string list" where
  "pending_ids ms db = filter (\<lambda>i. i \<notin> set (map fst (applied db))) (map migration_id ms)"

definition validate_current ::
    "(string \<Rightarrow> string) \<Rightarrow> migration list \<Rightarrow> 's mig_db \<Rightarrow> migration_error + unit" where
  "validate_current sha256 ms db =
     (case validate_history sha256 ms db of
        Inl e \<Rightarrow> Inl e
      | Inr _ \<Rightarrow> if pending_ids ms db \<noteq> [] then Inl (PendingMigrations (pending_ids ms db)) else Inr ())"

definition migration_status_of ::
    "(string \<Rightarrow> string) \<Rightarrow> migration list \<Rightarrow> 's mig_db \<Rightarrow> migration_status list" where
  "migration_status_of sha256 ms db =
     map (\<lambda>m. let row = map_of (applied db) (migration_id m) in
        \<lparr>mgs_migration_id = migration_id m, mgs_checksum = migration_checksum sha256 m,
         mgs_state = (if row \<noteq> None then MIG_APPLIED else MIG_PENDING),
         mgs_applied_at = map_option snd row\<rparr>) ms"

definition create_tracking :: "'s mig_db \<Rightarrow> 's mig_db" where
  "create_tracking db = (case tracking db of None \<Rightarrow> db\<lparr>tracking := Some []\<rparr> | Some _ \<Rightarrow> db)"

definition apply_migration ::
    "(string \<Rightarrow> 's \<Rightarrow> string + 's) \<Rightarrow> (string \<Rightarrow> string) \<Rightarrow> timestamp \<Rightarrow> migration \<Rightarrow> 's mig_db \<Rightarrow>
     migration_error + 's mig_db" where
  "apply_migration exec sha256 now m db =
     (case exec (up_sql m) (schema db) of
        Inl e \<Rightarrow> Inl (SqlError e)
      | Inr schema' \<Rightarrow>
          if migration_id m \<in> set (map fst (the (tracking db)))
          then Inl (SqlError ''duplicate key value violates unique constraint'')
          else Inr (db\<lparr>schema := schema',
                       tracking := Some (the (tracking db) @
                         [(migration_id m, migration_checksum sha256 m, now)])\<rparr>))"

definition up_body ::
    "(string \<Rightarrow> 's \<Rightarrow> string + 's) \<Rightarrow> (string \<Rightarrow> string) \<Rightarrow> timestamp \<Rightarrow> migration list \<Rightarrow>
     (migration_error, 's mig_db, string list) tx" where
  "up_body exec sha256 now ms db =
     (let db1 = create_tracking db
      in case validate_history sha256 ms db1 of
           Inl e \<Rightarrow> Inl e
         | Inr _ \<Rightarrow>
             let todo = filter (\<lambda>m. migration_id m \<notin> set (map fst (applied db1))) ms
             in case for_each (apply_migration exec sha256 now) todo db1 of
                  Inl e \<Rightarrow> Inl e
                | Inr db2 \<Rightarrow> Inr (map migration_id todo, db2))"

definition up ::
    "(string \<Rightarrow> 's \<Rightarrow> string + 's) \<Rightarrow> (string \<Rightarrow> string) \<Rightarrow> timestamp \<Rightarrow> migration list \<Rightarrow> 's mig_db \<Rightarrow>
     (migration_error + string list) \<times> 's mig_db" where
  "up exec sha256 now ms db = unit_of_work (up_body exec sha256 now ms) db"

text \<open>The rows of the tracking table, and when they agree with the application's migrations.\<close>

definition tracked_rows :: "'s mig_db \<Rightarrow> (string \<times> string \<times> timestamp) list" where
  "tracked_rows db = (case tracking db of None \<Rightarrow> [] | Some rows \<Rightarrow> rows)"

definition history_matches ::
    "(string \<Rightarrow> string) \<Rightarrow> migration list \<Rightarrow> (string \<times> string \<times> timestamp) list \<Rightarrow> bool" where
  "history_matches sha256 ms rows \<longleftrightarrow>
     (\<forall>(i, c, t) \<in> set rows. \<exists>m \<in> set ms. migration_id m = i \<and> migration_checksum sha256 m = c)"

lemma set_applied [simp]: "set (applied db) = set (tracked_rows db)"
  by (simp add: applied_def tracked_rows_def split: option.splits)

lemma create_tracking_simps [simp]:
  "tracking (create_tracking db) = Some (tracked_rows db)" "tracked_rows (create_tracking db) = tracked_rows db"
  "schema (create_tracking db) = schema db" "create_tracking db\<lparr>tracking := t\<rparr> = db\<lparr>tracking := t\<rparr>"
  "create_tracking db\<lparr>schema := x, tracking := t\<rparr> = db\<lparr>schema := x, tracking := t\<rparr>"
  by (auto simp: create_tracking_def tracked_rows_def split: option.splits)

lemma validate_history_iff:
  assumes "distinct (map migration_id ms)"
  shows "validate_history sha256 ms db = Inr () \<longleftrightarrow> tracking db \<noteq> None \<and> history_matches sha256 ms (tracked_rows db)"
proof -
  let ?unknown = "filter (\<lambda>i. i \<notin> set (map migration_id ms)) (map fst (applied db))"
  let ?changed = "filter (\<lambda>(i, c, _). map_option (migration_checksum sha256) (by_id ms i) \<noteq> Some c) (applied db)"
  have by_id: "map_option (migration_checksum sha256) (by_id ms i) = Some c \<longleftrightarrow>
      (\<exists>m \<in> set ms. migration_id m = i \<and> migration_checksum sha256 m = c)" for i c
    by (auto simp: by_id_Some_iff [OF assms])
  have changed: "?changed = [] \<longleftrightarrow> history_matches sha256 ms (tracked_rows db)"
    unfolding filter_empty_conv by_id history_matches_def set_applied by blast
  have unknown: "?unknown = []" if "?changed = []"
    using that unfolding changed history_matches_def by (fastforce simp: filter_empty_conv)
  have "validate_history sha256 ms db = Inr () \<longleftrightarrow> tracking db \<noteq> None \<and> ?unknown = [] \<and> ?changed = []"
    by (cases ?changed) (auto simp: validate_history_def Let_def tracking_exists_def)
  then show ?thesis using unknown changed by blast
qed

lemma apply_migrations:
  assumes "distinct (map migration_id todo)" and "tracking db = Some rows"
    and "set (map migration_id todo) \<inter> set (map fst rows) = {}"
  shows "for_each (apply_migration exec sha256 now) todo db =
     (case for_each exec (map up_sql todo) (schema db) of
        Inl e \<Rightarrow> Inl (SqlError e)
      | Inr schema' \<Rightarrow> Inr (db\<lparr>schema := schema', tracking :=
          Some (rows @ map (\<lambda>m. (migration_id m, migration_checksum sha256 m, now)) todo)\<rparr>))"
  using assms
proof (induction todo arbitrary: db rows)
  case Nil
  then show ?case by simp
next
  case (Cons m todo)
  show ?case
  proof (cases "exec (up_sql m) (schema db)")
    case (Inl e)
    then show ?thesis by (simp add: apply_migration_def)
  next
    case (Inr schema')
    let ?row = "(migration_id m, migration_checksum sha256 m, now)"
    have "apply_migration exec sha256 now m db = Inr (db\<lparr>schema := schema', tracking := Some (rows @ [?row])\<rparr>)"
      using Cons.prems Inr by (simp add: apply_migration_def)
    then show ?thesis using Cons.prems Inr by (simp add: Cons.IH [of _ "rows @ [?row]"] split: sum.splits)
  qed
qed

lemma up_eq:
  assumes "distinct (map migration_id ms)"
    and "todo = filter (\<lambda>m. migration_id m \<notin> set (map fst (tracked_rows db))) ms"
  shows "\<not> history_matches sha256 ms (tracked_rows db) \<Longrightarrow> \<exists>e. up exec sha256 now ms db = (Inl e, db)"
    and "history_matches sha256 ms (tracked_rows db) \<Longrightarrow> up exec sha256 now ms db =
     (case for_each exec (map up_sql todo) (schema db) of
        Inl e \<Rightarrow> (Inl (SqlError e), db)
      | Inr schema' \<Rightarrow> (Inr (map migration_id todo), db\<lparr>schema := schema', tracking :=
          Some (tracked_rows db @ map (\<lambda>m. (migration_id m, migration_checksum sha256 m, now)) todo)\<rparr>))"
proof -
  note valid = validate_history_iff [OF assms(1), of sha256 "create_tracking db"]
  show "\<exists>e. up exec sha256 now ms db = (Inl e, db)" if "\<not> history_matches sha256 ms (tracked_rows db)"
    using valid that by (cases "validate_history sha256 ms (create_tracking db)")
      (auto simp: up_def up_body_def unit_of_work_def)
  have "distinct (map migration_id todo)"
    "set (map migration_id todo) \<inter> set (map fst (tracked_rows db)) = {}"
    using assms by (auto simp: distinct_map_filter)
  note loop = apply_migrations [OF this(1) create_tracking_simps(1) this(2), of exec sha256 now]
  assume "history_matches sha256 ms (tracked_rows db)"
  then show "up exec sha256 now ms db =
     (case for_each exec (map up_sql todo) (schema db) of
        Inl e \<Rightarrow> (Inl (SqlError e), db)
      | Inr schema' \<Rightarrow> (Inr (map migration_id todo), db\<lparr>schema := schema', tracking :=
          Some (tracked_rows db @ map (\<lambda>m. (migration_id m, migration_checksum sha256 m, now)) todo)\<rparr>))"
    using valid loop assms(2) by (simp add: up_def unit_of_work_def up_body_def Let_def split: sum.splits)
qed

text \<open>
  C31: \<open>up\<close> brings a database with a valid history to the current schema in one transaction: either
  an SQL text fails and nothing changes, or exactly the migrations that were not applied run,
  in the order of their dependencies, each is recorded with its checksum after the old rows,
  the schema is current, and a second \<open>up\<close> does nothing. A history with an unknown id or a
  changed checksum is refused without a change.
\<close>

theorem up_brings_current:
  assumes "length ms0 < frames" and "ordered_migrations frames ms0 = Inr ms"
    and "todo = filter (\<lambda>m. migration_id m \<notin> set (map fst (tracked_rows db))) ms"
  shows "case up exec sha256 now ms db of
      (Inl e, db') \<Rightarrow> db' = db \<and>
        (if history_matches sha256 ms (tracked_rows db)
         then \<exists>sql_error. for_each exec (map up_sql todo) (schema db) = Inl sql_error \<and> e = SqlError sql_error
         else True)
    | (Inr ids, db') \<Rightarrow> history_matches sha256 ms (tracked_rows db) \<and> ids = map migration_id todo \<and>
        for_each exec (map up_sql todo) (schema db) = Inr (schema db') \<and>
        tracked_rows db' = tracked_rows db @ map (\<lambda>m. (migration_id m, migration_checksum sha256 m, now)) todo \<and>
        validate_current sha256 ms db' = Inr () \<and> up exec sha256 later ms db' = (Inr [], db')"
proof -
  note distinct = ordered_migrations_distinct [OF assms(1,2)]
  note eq = up_eq [OF distinct assms(3), of sha256 exec now]
  show ?thesis
  proof (cases "history_matches sha256 ms (tracked_rows db)")
    case False
    then show ?thesis using eq(1) by auto
  next
    case ok: True
    show ?thesis
    proof (cases "for_each exec (map up_sql todo) (schema db)")
      case (Inl e)
      then show ?thesis using eq(2) [OF ok] ok by simp
    next
      case (Inr schema')
      let ?rows = "tracked_rows db @ map (\<lambda>m. (migration_id m, migration_checksum sha256 m, now)) todo"
      let ?db = "db\<lparr>schema := schema', tracking := Some ?rows\<rparr>"
      have rows: "tracked_rows ?db = ?rows" by (simp add: tracked_rows_def)
      have matches: "history_matches sha256 ms ?rows" using ok assms(3) by (fastforce simp: history_matches_def)
      have none: "filter (\<lambda>m. migration_id m \<notin> set (map fst ?rows)) ms = []"
        using assms(3) by (auto simp: filter_empty_conv)
      then have "pending_ids ms ?db = []" by (auto simp: pending_ids_def filter_empty_conv rows image_Un image_image)
      moreover have "validate_history sha256 ms ?db = Inr ()"
        using matches validate_history_iff [OF distinct] rows by fastforce
      ultimately have current: "validate_current sha256 ms ?db = Inr ()" by (simp add: validate_current_def)
      have "up exec sha256 later ms ?db = (Inr [], ?db)"
        using up_eq(2) [OF distinct refl, of sha256 ?db exec later] matches none by (simp add: rows)
      then show ?thesis using eq(2) [OF ok] ok Inr current rows by simp
    qed
  qed
qed

definition demo_exec :: "string \<Rightarrow> string \<Rightarrow> string + string" where
  "demo_exec sql sch = Inr (sch @ sql)"

definition demo_database :: "string mig_db" where
  "demo_database = \<lparr>tracking = Some [(''core'', migration_checksum id (demo_migrations ! 2), 3)], schema = ''A''\<rparr>"

theorem up_brings_current_witness:
  "\<exists>db'. up demo_exec id 7 [demo_migrations ! 2, demo_migrations ! 0, demo_migrations ! 1] demo_database =
      (Inr [''auth'', ''runs''], db') \<and> schema db' = ''ABC'' \<and>
     up demo_exec id 9 [demo_migrations ! 2, demo_migrations ! 0, demo_migrations ! 1] db' = (Inr [], db')"
proof -
  let ?ms = "[demo_migrations ! 2, demo_migrations ! 0, demo_migrations ! 1]"
  have small: "length demo_migrations < 4" by (simp add: demo_migrations_def)
  have todo: "[demo_migrations ! 0, demo_migrations ! 1] =
      filter (\<lambda>m. migration_id m \<notin> set (map fst (tracked_rows demo_database))) ?ms" by code_simp
  have "case fst (up demo_exec id 7 ?ms demo_database) of Inl _ \<Rightarrow> False | Inr _ \<Rightarrow> True" by code_simp
  then obtain ids db' where run: "up demo_exec id 7 ?ms demo_database = (Inr ids, db')"
    by (cases "up demo_exec id 7 ?ms demo_database") (auto split: sum.splits)
  note facts = up_brings_current [OF small demo_migrations_order todo, where exec = demo_exec and ?sha256.0 = id and now = 7 and later = 9, unfolded run prod.case sum.case]
  then have "ids = [''auth'', ''runs'']" by (simp add: demo_migrations_def)
  moreover have "Inr (schema db') = (Inr ''ABC'' :: string + string)"
    using facts by (simp add: demo_exec_def demo_migrations_def demo_database_def)
  ultimately show ?thesis using run facts by simp
qed

end
