(* ===== verification/Transaction.thy ===== *)
theory Transaction
  imports Prelude
begin

text \<open>
  Transactions as state-passing functions that may raise: the statements of a body in sequence,
  guards that raise, and reads and writes of the database. \<open>keeps P m\<close> says that the body \<open>m\<close> takes every
  state that satisfies \<open>P\<close> to such states; it is proved statement by statement, and carries over to
  the body run as one unit of work.
\<close>

definition tx_return :: "'a \<Rightarrow> ('e, 'd, 'a) tx" where
  "tx_return a d = Inr (a, d)"

definition tx_raise :: "'e \<Rightarrow> ('e, 'd, 'a) tx" where
  "tx_raise e d = Inl e"

definition tx_bind :: "('e, 'd, 'a) tx \<Rightarrow> ('a \<Rightarrow> ('e, 'd, 'b) tx) \<Rightarrow> ('e, 'd, 'b) tx" where
  "tx_bind m f d = (case m d of Inl e \<Rightarrow> Inl e | Inr (a, d') \<Rightarrow> f a d')"

definition tx_then :: "('e, 'd, 'a) tx \<Rightarrow> ('e, 'd, 'b) tx \<Rightarrow> ('e, 'd, 'b) tx" where
  "tx_then m n = tx_bind m (\<lambda>_. n)"

definition tx_read :: "('d \<Rightarrow> 'a) \<Rightarrow> ('e, 'd, 'a) tx" where
  "tx_read f d = Inr (f d, d)"

definition tx_write :: "('d \<Rightarrow> 'd) \<Rightarrow> ('e, 'd, unit) tx" where
  "tx_write f d = Inr ((), f d)"

definition tx_query :: "('d \<Rightarrow> 'a \<times> 'd) \<Rightarrow> ('e, 'd, 'a) tx" where
  "tx_query f d = Inr (f d)"

definition tx_check :: "'e + 'a \<Rightarrow> ('e, 'd, 'a) tx" where
  "tx_check r d = (case r of Inl e \<Rightarrow> Inl e | Inr a \<Rightarrow> Inr (a, d))"

definition tx_guard :: "bool \<Rightarrow> 'e \<Rightarrow> ('e, 'd, unit) tx" where
  "tx_guard ok e d = (if ok then Inr ((), d) else Inl e)"

lemma tx_simps [simp]:
  "tx_return a d = Inr (a, d)" "tx_raise e d = Inl e" "tx_read f d = Inr (f d, d)"
  "tx_write g d = Inr ((), g d)" "tx_query q d = Inr (q d)"
  by (simp_all add: tx_return_def tx_raise_def tx_read_def tx_write_def tx_query_def)

lemma tx_bind_Inr_iff:
  "tx_bind m f d = Inr (b, d') \<longleftrightarrow> (\<exists>a d1. m d = Inr (a, d1) \<and> f a d1 = Inr (b, d'))"
  by (auto simp: tx_bind_def split: sum.splits)

lemma tx_then_Inr_iff:
  "tx_then m n d = Inr (b, d') \<longleftrightarrow> (\<exists>a d1. m d = Inr (a, d1) \<and> n d1 = Inr (b, d'))"
  by (simp add: tx_then_def tx_bind_Inr_iff)

lemma tx_check_Inr_iff: "tx_check r d = Inr (a, d') \<longleftrightarrow> r = Inr a \<and> d' = d"
  by (auto simp: tx_check_def split: sum.splits)

lemma tx_guard_Inr_iff: "tx_guard ok e d = Inr (a, d') \<longleftrightarrow> ok \<and> d' = d"
  by (auto simp: tx_guard_def)

lemmas tx_Inr_iff = tx_bind_Inr_iff tx_then_Inr_iff tx_check_Inr_iff tx_guard_Inr_iff

lemma tx_bind_Inl: "m d = Inl e \<Longrightarrow> tx_bind m f d = Inl e" "m d = Inl e \<Longrightarrow> tx_then m n d = Inl e"
  by (simp_all add: tx_bind_def tx_then_def)

lemma tx_bind_Inr: "m d = Inr (a, d1) \<Longrightarrow> tx_bind m f d = f a d1" "m d = Inr (a, d1) \<Longrightarrow> tx_then m n d = n d1"
  by (simp_all add: tx_bind_def tx_then_def)

section \<open>Invariants of transactions\<close>

definition keeps :: "('d \<Rightarrow> bool) \<Rightarrow> ('e, 'd, 'a) tx \<Rightarrow> bool" where
  "keeps P m \<longleftrightarrow> (\<forall>d a d'. P d \<longrightarrow> m d = Inr (a, d') \<longrightarrow> P d')"

named_theorems keeping

lemma keepsI: "(\<And>d a d'. P d \<Longrightarrow> m d = Inr (a, d') \<Longrightarrow> P d') \<Longrightarrow> keeps P m"
  by (auto simp: keeps_def)

lemma keepsD: "keeps P m \<Longrightarrow> P d \<Longrightarrow> m d = Inr (a, d') \<Longrightarrow> P d'"
  by (auto simp: keeps_def)

lemma keeps_basic [keeping, intro]:
  "keeps P (tx_return a)" "keeps P (tx_raise e)" "keeps P (tx_read r)" "keeps P (tx_check c)" "keeps P (tx_guard b e)"
  by (auto simp: keeps_def tx_check_def tx_guard_def split: sum.splits if_splits)

lemma keeps_bind [keeping, intro]: "keeps P m \<Longrightarrow> (\<And>a. keeps P (f a)) \<Longrightarrow> keeps P (tx_bind m f)"
  unfolding keeps_def tx_bind_Inr_iff by blast

lemma keeps_then [keeping, intro]: "keeps P m \<Longrightarrow> keeps P n \<Longrightarrow> keeps P (tx_then m n)"
  unfolding keeps_def tx_then_Inr_iff by blast

lemma keeps_write [intro]: "(\<And>d. P d \<Longrightarrow> P (f d)) \<Longrightarrow> keeps P (tx_write f)"
  by (simp add: keeps_def)

lemma keeps_query [intro]: "(\<And>d. P d \<Longrightarrow> P (snd (f d))) \<Longrightarrow> keeps P (tx_query f)"
  by (metis keepsI old.sum.inject(2) snd_conv tx_simps(5))

lemma keeps_if [keeping, intro]: "keeps P m \<Longrightarrow> keeps P n \<Longrightarrow> keeps P (if b then m else n)"
  by simp

lemma keeps_option [keeping, intro]:
  "keeps P m \<Longrightarrow> (\<And>a. keeps P (f a)) \<Longrightarrow> keeps P (case x of None \<Rightarrow> m | Some a \<Rightarrow> f a)"
  by (cases x) auto

lemma keeps_unit_of_work: "keeps P m \<Longrightarrow> P d \<Longrightarrow> P (snd (unit_of_work m d))"
  by (cases "m d") (auto simp: keeps_def unit_of_work_def)

lemma unit_of_work_Inr_iff: "unit_of_work m d = (Inr a, d') \<longleftrightarrow> m d = Inr (a, d')"
  by (auto simp: unit_of_work_def split: sum.splits)

end
