(* ===== verification/Auth_Repository.thy ===== *)
theory Auth_Repository
  imports Database Transaction Py_Text
begin

text \<open>
  \<open>auth/repository.py\<close>: the statements of \<open>PostgresAuthRepository\<close> on users, sessions, challenges, MFA
  factors, recovery codes, activation tokens and rate limits, with the unique, foreign-key and
  password constraints of the migrations that can make a statement fail. The checks that
  compare time stamps of one row hold as long as the clock does not go back and are left out.
  \<open>lower(username)\<close> is ASCII case folding.
\<close>

type_synonym 'a auth_tx = "(auth_error, db, 'a) tx"

definition unique_violation :: auth_error where
  "unique_violation = AuthRuntimeError ''UniqueViolation''"

definition foreign_key_violation :: auth_error where
  "foreign_key_violation = AuthRuntimeError ''ForeignKeyViolation''"

section \<open>Users\<close>

definition user_key_taken :: "user_row \<Rightarrow> db \<Rightarrow> bool" where
  "user_key_taken u db \<longleftrightarrow>
     (\<exists>x \<in> set (users db). u_id x = u_id u \<or> casefold (u_username x) = casefold (u_username u))"

definition insert_user :: "user_row \<Rightarrow> user_row auth_tx" where
  "insert_user u db =
     (if user_key_taken u db then Inl AdminAlreadyExists
      else Inr (u, db\<lparr>users := users db @ [u]\<rparr>))"

definition add_admin :: "user_row \<Rightarrow> user_row auth_tx" where
  "add_admin = insert_user"

definition add_user :: "user_row \<Rightarrow> user_row auth_tx" where
  "add_user identity = insert_user (identity\<lparr>u_password_hash := None, u_password_updated_at := None\<rparr>)"

definition count_users :: "db \<Rightarrow> nat" where
  "count_users db = length (users db)"

definition list_users :: "db \<Rightarrow> user_row list" where
  "list_users db = sort_key (\<lambda>u. (casefold (u_username u), u_id u)) (users db)"

definition get_user :: "uuid \<Rightarrow> db \<Rightarrow> user_row option" where
  "get_user user_id db = fetch_one (\<lambda>u. u_id u = user_id) (users db)"

definition find_user_by_username :: "string \<Rightarrow> db \<Rightarrow> user_row option" where
  "find_user_by_username username db = fetch_one (\<lambda>u. casefold (u_username u) = username) (users db)"

definition confirmed_factor :: "db \<Rightarrow> uuid \<Rightarrow> bool" where
  "confirmed_factor db user_id \<longleftrightarrow>
     (\<exists>f \<in> set (user_mfa_factors db). mf_user_id f = user_id \<and> mf_confirmed_at f \<noteq> None)"

definition changed_user ::
    "db \<Rightarrow> user_role \<Rightarrow> user_status \<Rightarrow> timestamp \<Rightarrow> user_row \<Rightarrow> user_row" where
  "changed_user db role status updated_at u =
     u\<lparr>u_role := role, u_status := status,
       u_mfa_enrollment_required :=
         (if role \<in> {OWNER, ADMIN} \<and> \<not> confirmed_factor db (u_id u) then True
          else u_mfa_enrollment_required u),
       u_version := u_version u + 1, u_updated_at := updated_at\<rparr>"

definition update_user ::
    "uuid \<Rightarrow> user_role \<Rightarrow> user_status \<Rightarrow> nat \<Rightarrow> timestamp \<Rightarrow> user_row option auth_tx" where
  "update_user user_id role status expected_version updated_at db =
     (let hit = (\<lambda>u. u_id u = user_id \<and> u_version u = expected_version);
          change = changed_user db role status updated_at
      in case fetch_one hit (users db) of
           None \<Rightarrow> Inr (None, db)
         | Some u \<Rightarrow>
             if status = US_ACTIVE \<and> (u_password_hash u = None \<or> u_password_updated_at u = None)
             then Inl (AuthRuntimeError ''users_password_state_check'')
             else Inr (Some (change u), db\<lparr>users := update_where hit change (users db)\<rparr>))"

definition activated_user :: "string \<Rightarrow> bool \<Rightarrow> timestamp \<Rightarrow> user_row \<Rightarrow> user_row" where
  "activated_user password_hash mfa_required activated_at u =
     u\<lparr>u_password_hash := Some password_hash, u_status := US_ACTIVE,
       u_mfa_enrollment_required := mfa_required, u_password_updated_at := Some activated_at,
       u_activated_at := Some activated_at, u_updated_at := activated_at,
       u_version := u_version u + 1\<rparr>"

definition activate_user :: "uuid \<Rightarrow> string \<Rightarrow> bool \<Rightarrow> timestamp \<Rightarrow> user_row auth_tx" where
  "activate_user user_id password_hash mfa_required activated_at db =
     (let hit = (\<lambda>u. u_id u = user_id \<and> u_status u = PENDING_ACTIVATION);
          change = activated_user password_hash mfa_required activated_at
      in case fetch_one hit (users db) of
           None \<Rightarrow> Inl (AuthRuntimeError ''pending user activation returned no row'')
         | Some u \<Rightarrow> Inr (change u, db\<lparr>users := update_where hit change (users db)\<rparr>))"

definition update_password_hash :: "uuid \<Rightarrow> string \<Rightarrow> timestamp \<Rightarrow> db \<Rightarrow> db" where
  "update_password_hash user_id password_hash updated_at db =
     db\<lparr>users := update_where (\<lambda>u. u_id u = user_id)
          (\<lambda>u. u\<lparr>u_password_hash := Some password_hash, u_password_updated_at := Some updated_at,
                 u_updated_at := updated_at, u_version := u_version u + 1\<rparr>) (users db)\<rparr>"

definition count_active_owners :: "db \<Rightarrow> nat" where
  "count_active_owners db =
     length (filter (\<lambda>u. u_role u = OWNER \<and> u_status u = US_ACTIVE) (users db))"

text \<open>
  The deferred constraint trigger \<open>users_require_active_owner\<close>: a transaction that updated the role
  or status of a user commits only if there is an active owner.
\<close>

definition enforce_active_owner :: "unit auth_tx" where
  "enforce_active_owner db =
     (if count_active_owners db = 0 then Inl (AuthRuntimeError ''ck_users_active_owner'')
      else Inr ((), db))"

section \<open>Activation tokens\<close>

definition invalidate_activation_tokens :: "uuid \<Rightarrow> timestamp \<Rightarrow> db \<Rightarrow> db" where
  "invalidate_activation_tokens user_id consumed_at db =
     db\<lparr>user_activation_tokens :=
          update_where (\<lambda>t. at_user_id t = user_id \<and> at_consumed_at t = None)
            (\<lambda>t. t\<lparr>at_consumed_at := Some consumed_at\<rparr>) (user_activation_tokens db)\<rparr>"

definition add_activation_token :: "activation_token \<Rightarrow> unit auth_tx" where
  "add_activation_token tok db =
     (if \<exists>t \<in> set (user_activation_tokens db).
           at_id t = at_id tok \<or> at_token_hash t = at_token_hash tok \<or>
           (at_user_id t = at_user_id tok \<and> at_consumed_at t = None)
      then Inl unique_violation
      else if get_user (at_user_id tok) db = None \<or> get_user (at_created_by tok) db = None
      then Inl foreign_key_violation
      else Inr ((), db\<lparr>user_activation_tokens := user_activation_tokens db @ [tok]\<rparr>))"

definition pending_user_of :: "db \<Rightarrow> activation_token \<Rightarrow> user_row option" where
  "pending_user_of db t =
     fetch_one (\<lambda>u. u_id u = at_user_id t \<and> u_status u = PENDING_ACTIVATION) (users db)"

definition consume_activation_token ::
    "string \<Rightarrow> timestamp \<Rightarrow> db \<Rightarrow> (uuid \<times> user_row) option \<times> db" where
  "consume_activation_token token_hash consumed_at db =
     (let hit = (\<lambda>t. at_token_hash t = token_hash \<and> at_consumed_at t = None \<and>
                     at_expires_at t > consumed_at \<and> pending_user_of db t \<noteq> None)
      in case fetch_one hit (user_activation_tokens db) of
           None \<Rightarrow> (None, db)
         | Some t \<Rightarrow>
             (map_option (\<lambda>u. (at_id t, u)) (pending_user_of db t),
              db\<lparr>user_activation_tokens := update_where hit
                   (\<lambda>t. t\<lparr>at_consumed_at := Some consumed_at\<rparr>) (user_activation_tokens db)\<rparr>))"

section \<open>Sessions\<close>

definition add_session :: "session_row \<Rightarrow> unit auth_tx" where
  "add_session s db =
     (if \<exists>x \<in> set (sessions db). s_id x = s_id s \<or> s_token_hash x = s_token_hash s
      then Inl unique_violation
      else if get_user (s_user_id s) db = None then Inl foreign_key_violation
      else Inr ((), db\<lparr>sessions := sessions db @ [s]\<rparr>))"

definition principal_of :: "db \<Rightarrow> session_row \<Rightarrow> user_row \<Rightarrow> session_principal" where
  "principal_of db s u =
     \<lparr>sp_session_id = s_id s, sp_user_id = s_user_id s, sp_username = u_username u, sp_role = u_role u,
      sp_permissions = permissions_for_role (u_role u), sp_mfa_enabled = confirmed_factor db (u_id u),
      sp_mfa_enrollment_required = u_mfa_enrollment_required u,
      sp_mfa_verified_at = s_mfa_verified_at s, sp_reauthenticated_at = s_reauthenticated_at s,
      sp_elevated_until = s_elevated_until s, sp_csrf_hash = s_csrf_hash s,
      sp_expires_at = s_expires_at s\<rparr>"

definition active_user_of :: "db \<Rightarrow> session_row \<Rightarrow> user_row option" where
  "active_user_of db s = fetch_one (\<lambda>u. u_id u = s_user_id s \<and> u_status u = US_ACTIVE) (users db)"

definition session_principal_where :: "(session_row \<Rightarrow> bool) \<Rightarrow> db \<Rightarrow> session_principal option" where
  "session_principal_where hit db =
     (case fetch_one (\<lambda>s. hit s \<and> active_user_of db s \<noteq> None) (sessions db) of
        None \<Rightarrow> None
      | Some s \<Rightarrow> map_option (principal_of db s) (active_user_of db s))"

definition resolve_session :: "string \<Rightarrow> timestamp \<Rightarrow> db \<Rightarrow> session_principal option" where
  "resolve_session token_hash now db =
     session_principal_where (\<lambda>s. s_token_hash s = token_hash \<and> s_expires_at s > now) db"

definition delete_session :: "uuid \<Rightarrow> db \<Rightarrow> db" where
  "delete_session session_id db = db\<lparr>sessions := delete_where (\<lambda>s. s_id s = session_id) (sessions db)\<rparr>"

definition delete_user_sessions :: "uuid \<Rightarrow> db \<Rightarrow> db" where
  "delete_user_sessions user_id db =
     db\<lparr>sessions := delete_where (\<lambda>s. s_user_id s = user_id) (sessions db)\<rparr>"

definition elevate_session ::
    "uuid \<Rightarrow> timestamp \<Rightarrow> timestamp \<Rightarrow> db \<Rightarrow> session_principal option \<times> db" where
  "elevate_session session_id reauthenticated_at elevated_until db =
     (let db1 = db\<lparr>sessions := update_where (\<lambda>s. s_id s = session_id)
            (\<lambda>s. s\<lparr>s_reauthenticated_at := Some reauthenticated_at,
                   s_elevated_until := Some elevated_until\<rparr>) (sessions db)\<rparr>
      in (session_principal_where (\<lambda>s. s_id s = session_id) db1, db1))"

section \<open>Challenges\<close>

definition add_challenge :: "challenge_row \<Rightarrow> unit auth_tx" where
  "add_challenge c db =
     (if \<exists>x \<in> set (auth_challenges db). ch_id x = ch_id c \<or> ch_token_hash x = ch_token_hash c
      then Inl unique_violation
      else if get_user (ch_user_id c) db = None then Inl foreign_key_violation
      else Inr ((), db\<lparr>auth_challenges := auth_challenges db @ [c]\<rparr>))"

definition open_challenge :: "string \<Rightarrow> timestamp \<Rightarrow> challenge_row \<Rightarrow> bool" where
  "open_challenge token_hash now c \<longleftrightarrow>
     ch_token_hash c = token_hash \<and> ch_consumed_at c = None \<and> ch_expires_at c > now"

definition consume_challenge :: "string \<Rightarrow> timestamp \<Rightarrow> db \<Rightarrow> challenge_row option \<times> db" where
  "consume_challenge token_hash consumed_at db =
     (fetch_one (open_challenge token_hash consumed_at) (auth_challenges db),
      db\<lparr>auth_challenges := update_where (open_challenge token_hash consumed_at)
           (\<lambda>c. c\<lparr>ch_consumed_at := Some consumed_at\<rparr>) (auth_challenges db)\<rparr>)"

definition resolve_challenge :: "string \<Rightarrow> timestamp \<Rightarrow> db \<Rightarrow> challenge_row option" where
  "resolve_challenge token_hash now db = fetch_one (open_challenge token_hash now) (auth_challenges db)"

definition mark_challenge_consumed :: "uuid \<Rightarrow> timestamp \<Rightarrow> db \<Rightarrow> bool \<times> db" where
  "mark_challenge_consumed challenge_id consumed_at db =
     (let hit = (\<lambda>c. ch_id c = challenge_id \<and> ch_consumed_at c = None)
      in (fetch_one hit (auth_challenges db) \<noteq> None,
          db\<lparr>auth_challenges := update_where hit
               (\<lambda>c. c\<lparr>ch_consumed_at := Some consumed_at\<rparr>) (auth_challenges db)\<rparr>))"

section \<open>MFA factors and recovery codes\<close>

definition get_mfa_factor :: "uuid \<Rightarrow> db \<Rightarrow> mfa_factor option" where
  "get_mfa_factor user_id db = fetch_one (\<lambda>f. mf_user_id f = user_id) (user_mfa_factors db)"

definition put_mfa_factor :: "mfa_factor \<Rightarrow> unit auth_tx" where
  "put_mfa_factor factor db =
     (if get_user (mf_user_id factor) db = None then Inl foreign_key_violation
      else Inr ((),
        if get_mfa_factor (mf_user_id factor) db = None
        then db\<lparr>user_mfa_factors := user_mfa_factors db @ [factor]\<rparr>
        else db\<lparr>user_mfa_factors := update_where (\<lambda>f. mf_user_id f = mf_user_id factor)
               (\<lambda>f. f\<lparr>mf_encrypted_totp_secret := mf_encrypted_totp_secret factor,
                      mf_key_version := mf_key_version factor, mf_last_accepted_step := None,
                      mf_confirmed_at := None, mf_updated_at := mf_updated_at factor\<rparr>)
               (user_mfa_factors db)\<rparr>))"

definition confirm_mfa_factor :: "uuid \<Rightarrow> timestamp \<Rightarrow> db \<Rightarrow> db" where
  "confirm_mfa_factor user_id confirmed_at db =
     db\<lparr>user_mfa_factors := update_where (\<lambda>f. mf_user_id f = user_id)
          (\<lambda>f. f\<lparr>mf_confirmed_at := Some confirmed_at, mf_updated_at := confirmed_at\<rparr>) (user_mfa_factors db),
        users := update_where (\<lambda>u. u_id u = user_id)
          (\<lambda>u. u\<lparr>u_mfa_enrollment_required := False, u_updated_at := confirmed_at,
                 u_version := u_version u + 1\<rparr>) (users db)\<rparr>"

definition accept_totp_step :: "uuid \<Rightarrow> int \<Rightarrow> timestamp \<Rightarrow> db \<Rightarrow> bool \<times> db" where
  "accept_totp_step user_id step updated_at db =
     (let hit = (\<lambda>f. mf_user_id f = user_id \<and> mf_confirmed_at f \<noteq> None \<and>
                     (case mf_last_accepted_step f of None \<Rightarrow> True | Some l \<Rightarrow> l < step))
      in (fetch_one hit (user_mfa_factors db) \<noteq> None,
          db\<lparr>user_mfa_factors := update_where hit
               (\<lambda>f. f\<lparr>mf_last_accepted_step := Some step, mf_updated_at := updated_at\<rparr>)
               (user_mfa_factors db)\<rparr>))"

definition replace_recovery_codes :: "uuid \<Rightarrow> (uuid \<times> string) list \<Rightarrow> timestamp \<Rightarrow> unit auth_tx" where
  "replace_recovery_codes user_id rows created_at db =
     (let kept = delete_where (\<lambda>c. rc_user_id c = user_id) (user_recovery_codes db)
      in if \<not> distinct (map fst rows) \<or> \<not> distinct (map snd rows) \<or>
            set (map fst rows) \<inter> set (map rc_id kept) \<noteq> {}
         then Inl unique_violation
         else if rows \<noteq> [] \<and> get_user user_id db = None then Inl foreign_key_violation
         else Inr ((), db\<lparr>user_recovery_codes := kept @
                map (\<lambda>(i, h). \<lparr>rc_id = i, rc_user_id = user_id, rc_code_hash = h,
                                rc_used_at = None, rc_created_at = created_at\<rparr>) rows\<rparr>))"

definition unused_code :: "uuid \<Rightarrow> string \<Rightarrow> recovery_code \<Rightarrow> bool" where
  "unused_code user_id code_hash c \<longleftrightarrow>
     rc_user_id c = user_id \<and> rc_code_hash c = code_hash \<and> rc_used_at c = None"

definition consume_recovery_code :: "uuid \<Rightarrow> string \<Rightarrow> timestamp \<Rightarrow> db \<Rightarrow> bool \<times> db" where
  "consume_recovery_code user_id code_hash used_at db =
     (fetch_one (unused_code user_id code_hash) (user_recovery_codes db) \<noteq> None,
      db\<lparr>user_recovery_codes := update_where (unused_code user_id code_hash)
           (\<lambda>c. c\<lparr>rc_used_at := Some used_at\<rparr>) (user_recovery_codes db)\<rparr>)"

definition count_unused_recovery_codes :: "uuid \<Rightarrow> db \<Rightarrow> nat" where
  "count_unused_recovery_codes user_id db =
     length (filter (\<lambda>c. rc_user_id c = user_id \<and> rc_used_at c = None) (user_recovery_codes db))"

definition reset_mfa :: "uuid \<Rightarrow> timestamp \<Rightarrow> db \<Rightarrow> db" where
  "reset_mfa user_id updated_at db =
     db\<lparr>user_recovery_codes := delete_where (\<lambda>c. rc_user_id c = user_id) (user_recovery_codes db),
        user_mfa_factors := delete_where (\<lambda>f. mf_user_id f = user_id) (user_mfa_factors db),
        sessions := delete_where (\<lambda>s. s_user_id s = user_id) (sessions db),
        users := update_where (\<lambda>u. u_id u = user_id)
          (\<lambda>u. u\<lparr>u_mfa_enrollment_required := True, u_updated_at := updated_at,
                 u_version := u_version u + 1\<rparr>) (users db)\<rparr>"

section \<open>Rate limits and purging\<close>

definition same_bucket :: "string \<Rightarrow> string \<Rightarrow> timestamp \<Rightarrow> rate_limit \<Rightarrow> bool" where
  "same_bucket scope subject_hash window_started_at l \<longleftrightarrow>
     rl_scope l = scope \<and> rl_subject_hash l = subject_hash \<and> rl_window_started_at l = window_started_at"

definition consume_rate_limit_row ::
    "string \<Rightarrow> string \<Rightarrow> timestamp \<Rightarrow> timestamp \<Rightarrow> db \<Rightarrow> nat \<times> db" where
  "consume_rate_limit_row scope subject_hash window_started_at expires_at db =
     (let hit = same_bucket scope subject_hash window_started_at
      in case fetch_one hit (auth_rate_limits db) of
           None \<Rightarrow> (1, db\<lparr>auth_rate_limits := auth_rate_limits db @
             [\<lparr>rl_scope = scope, rl_subject_hash = subject_hash, rl_window_started_at = window_started_at,
               rl_attempt_count = 1, rl_expires_at = expires_at\<rparr>]\<rparr>)
         | Some l \<Rightarrow> (rl_attempt_count l + 1, db\<lparr>auth_rate_limits := update_where hit
             (\<lambda>l. l\<lparr>rl_attempt_count := rl_attempt_count l + 1, rl_expires_at := expires_at\<rparr>)
             (auth_rate_limits db)\<rparr>))"

definition clear_rate_limit :: "string \<Rightarrow> string \<Rightarrow> timestamp \<Rightarrow> db \<Rightarrow> db" where
  "clear_rate_limit scope subject_hash window_started_at db =
     db\<lparr>auth_rate_limits :=
          delete_where (same_bucket scope subject_hash window_started_at) (auth_rate_limits db)\<rparr>"

definition count_expired :: "timestamp \<Rightarrow> db \<Rightarrow> nat \<times> nat" where
  "count_expired now db =
     (length (filter (\<lambda>s. s_expires_at s \<le> now) (sessions db)),
      length (filter (\<lambda>l. rl_expires_at l \<le> now) (auth_rate_limits db)))"

definition purge_expired_rows :: "timestamp \<Rightarrow> db \<Rightarrow> (nat \<times> nat) \<times> db" where
  "purge_expired_rows now db =
     (count_expired now db,
      db\<lparr>sessions := delete_where (\<lambda>s. s_expires_at s \<le> now) (sessions db),
         auth_rate_limits := delete_where (\<lambda>l. rl_expires_at l \<le> now) (auth_rate_limits db),
         auth_challenges := delete_where (\<lambda>c. ch_expires_at c \<le> now) (auth_challenges db),
         user_activation_tokens :=
           delete_where (\<lambda>t. at_expires_at t \<le> now \<or> at_consumed_at t \<noteq> None) (user_activation_tokens db)\<rparr>)"

end
