(* ===== verification/Auth_Security.thy ===== *)
theory Auth_Security
  imports Auth_Model Py_Text
begin

text \<open>
  \<open>auth/security.py\<close>: password verification, token hashes, TOTP codes and recovery codes.
  Argon2 (a third-party package), SHA-256 and HMAC-SHA1 are arguments of the definitions; Base32, the
  big-endian packing and the formatting of codes are written out.
\<close>

unbundle bit_operations_syntax

section \<open>Positional digits\<close>

text \<open>\<open>int.to_bytes(k, "big")\<close>, \<open>struct.pack\<close> and Base32 quanta are digits in a base.\<close>

fun to_digits :: "nat \<Rightarrow> nat \<Rightarrow> nat \<Rightarrow> nat list" where
  "to_digits b 0 n = []"
| "to_digits b (Suc k) n = to_digits b k (n div b) @ [n mod b]"

definition from_digits :: "nat \<Rightarrow> nat list \<Rightarrow> nat" where
  "from_digits b ds = foldl (\<lambda>acc d. acc * b + d) 0 ds"

lemma from_digits_Nil [simp]: "from_digits b [] = 0"
  by (simp add: from_digits_def)

lemma from_digits_snoc [simp]: "from_digits b (ds @ [d]) = from_digits b ds * b + d"
  by (simp add: from_digits_def)

lemma length_to_digits [simp]: "length (to_digits b k n) = k"
  by (induction b k n rule: to_digits.induct) auto

lemma to_digits_less: "0 < b \<Longrightarrow> d \<in> set (to_digits b k n) \<Longrightarrow> d < b"
  by (induction b k n rule: to_digits.induct) auto

lemma from_to_digits: "0 < b \<Longrightarrow> from_digits b (to_digits b k n) = n mod b ^ k"
proof (induction b k n rule: to_digits.induct)
  case (2 b k n)
  then have "from_digits b (to_digits b (Suc k) n) = (n div b mod b ^ k) * b + n mod b" by simp
  also have "\<dots> = n mod (b * b ^ k)" by (simp add: mod_mult2_eq mult.commute)
  finally show ?case by simp
qed simp

lemma to_from_digits:
  "0 < b \<Longrightarrow> \<forall>d \<in> set ds. d < b \<Longrightarrow> to_digits b (length ds) (from_digits b ds) = ds"
  by (induction ds rule: rev_induct) auto

lemma from_digits_less: "0 < b \<Longrightarrow> \<forall>d \<in> set ds. d < b \<Longrightarrow> from_digits b ds < b ^ length ds"
  by (metis from_to_digits mod_less_divisor to_from_digits zero_less_power)

section \<open>Passwords and tokens\<close>

text \<open>\<open>argon2.PasswordHasher\<close>: hashing (with its random salt), verification, which raises or not, and the
  check of the parameters of a hash; \<open>sha256\<close> and \<open>hmac_sha256\<close> give hexadecimal digests.\<close>

record hashing =
  ph_hash :: "string \<Rightarrow> string"
  ph_verify :: "string \<Rightarrow> string \<Rightarrow> bool"
  ph_needs_rehash :: "string \<Rightarrow> bool"
  sha256_hex :: "string \<Rightarrow> string"
  hmac_sha256_hex :: "string \<Rightarrow> string \<Rightarrow> string"
  hmac_sha1 :: "bytes \<Rightarrow> bytes \<Rightarrow> bytes"

record password_verification =
  pv_valid :: bool
  pv_needs_rehash :: bool

definition hash_token :: "hashing \<Rightarrow> string \<Rightarrow> string" where
  "hash_token h token = sha256_hex h token"

definition token_matches :: "hashing \<Rightarrow> string \<Rightarrow> string \<Rightarrow> bool" where
  "token_matches h token expected_hash \<longleftrightarrow> hash_token h token = expected_hash"

definition hash_password :: "hashing \<Rightarrow> string \<Rightarrow> string" where
  "hash_password h password = ph_hash h password"

definition DUMMY_PASSWORD_HASH :: "hashing \<Rightarrow> string" where
  "DUMMY_PASSWORD_HASH h = ph_hash h ''project-forge-dummy-password''"

definition verify_password :: "hashing \<Rightarrow> string option \<Rightarrow> string \<Rightarrow> password_verification" where
  "verify_password h password_hash password =
     (let candidate_hash = (case password_hash of
            Some ph \<Rightarrow> if ph \<noteq> [] then ph else DUMMY_PASSWORD_HASH h
          | None \<Rightarrow> DUMMY_PASSWORD_HASH h)
      in if \<not> ph_verify h candidate_hash password
         then \<lparr>pv_valid = False, pv_needs_rehash = False\<rparr>
         else case password_hash of
                None \<Rightarrow> \<lparr>pv_valid = False, pv_needs_rehash = False\<rparr>
              | Some ph \<Rightarrow> \<lparr>pv_valid = True, pv_needs_rehash = ph_needs_rehash h ph\<rparr>)"

definition hmac_subject :: "hashing \<Rightarrow> string \<Rightarrow> string \<Rightarrow> string \<Rightarrow> string" where
  "hmac_subject h secret scope subject = hmac_sha256_hex h secret (scope @ [CHR 0x00] @ subject)"

section \<open>Base32\<close>

definition B32_ALPHABET :: string where
  "B32_ALPHABET = ''ABCDEFGHIJKLMNOPQRSTUVWXYZ234567''"

definition b32_char :: "nat \<Rightarrow> char" where
  "b32_char d = B32_ALPHABET ! d"

definition b32_value :: "char \<Rightarrow> nat option" where
  "b32_value c =
     (let n = of_char c :: nat
      in if 65 \<le> n \<and> n \<le> 90 then Some (n - 65) else if 50 \<le> n \<and> n \<le> 55 then Some (n - 24) else None)"

definition upper_char :: "char \<Rightarrow> char" where
  "upper_char c = (if CHR ''a'' \<le> c \<and> c \<le> CHR ''z'' then char_of ((of_char c :: nat) - 32) else c)"

definition py_upper :: "string \<Rightarrow> string" where
  "py_upper s = map upper_char s"

definition rstrip_char :: "char \<Rightarrow> string \<Rightarrow> string" where
  "rstrip_char c s = rev (dropWhile (\<lambda>x. x = c) (rev s))"

text \<open>\<open>base64.b32encode\<close>: five bytes give eight characters, an incomplete last group is padded.\<close>

definition b32_quantum :: "bytes \<Rightarrow> string" where
  "b32_quantum bs = map b32_char (to_digits 32 8 (from_digits 256 bs))"

function b32encode :: "bytes \<Rightarrow> string" where
  "b32encode bs =
     (if bs = [] then []
      else if length bs < 5
      then let used = (8 * length bs + 4) div 5
           in take used (b32_quantum (bs @ replicate (5 - length bs) 0)) @ replicate (8 - used) CHR ''=''
      else b32_quantum (take 5 bs) @ b32encode (drop 5 bs))"
  by pat_completeness auto

termination
  by (relation "measure length") auto

declare b32encode.simps [simp del]

text \<open>\<open>base64.b32decode\<close> (with \<open>casefold\<close>): \<open>None\<close> stands for \<open>binascii.Error\<close>.\<close>

fun b32_values :: "string \<Rightarrow> nat list option" where
  "b32_values [] = Some []"
| "b32_values (c # s) = (case (b32_value c, b32_values s) of (Some v, Some vs) \<Rightarrow> Some (v # vs) | _ \<Rightarrow> None)"

function b32_groups :: "nat list \<Rightarrow> nat list list" where
  "b32_groups vs = (if vs = [] then [] else take 8 vs # b32_groups (drop 8 vs))"
  by pat_completeness auto

termination
  by (relation "measure length") auto

declare b32_groups.simps [simp del]

definition b32decode :: "string \<Rightarrow> bytes option" where
  "b32decode s =
     (if length s mod 8 \<noteq> 0 then None
      else
        let body = rstrip_char (CHR ''='') (py_upper s);
            padchars = length s - length body
        in case b32_values body of
             None \<Rightarrow> None
           | Some vs \<Rightarrow>
               let groups = b32_groups vs;
                   decoded = concat (map (\<lambda>g. to_digits 256 5 (from_digits 32 g)) groups)
               in if padchars \<notin> {0, 1, 3, 4, 6} then None
                  else if padchars \<noteq> 0 \<and> decoded \<noteq> []
                  then Some (take (length decoded - 5) decoded @
                         take ((43 - 5 * padchars) div 8)
                           (to_digits 256 5 (from_digits 32 (last groups) * 2 ^ (5 * padchars))))
                  else Some decoded)"

lemma b32_value_char: "d < 32 \<Longrightarrow> b32_value (b32_char d) = Some d"
proof -
  have "\<forall>d \<in> set [0..<32]. b32_value (b32_char d) = Some d" by code_simp
  then show "d < 32 \<Longrightarrow> b32_value (b32_char d) = Some d" by simp
qed

lemma b32_values_chars: "\<forall>d \<in> set ds. d < 32 \<Longrightarrow> b32_values (map b32_char ds) = Some ds"
  by (induction ds) (auto simp: b32_value_char)

lemma b32_char_upper: "d < 32 \<Longrightarrow> upper_char (b32_char d) = b32_char d \<and> b32_char d \<noteq> CHR ''=''"
proof -
  have "\<forall>d \<in> set [0..<32]. upper_char (b32_char d) = b32_char d \<and> b32_char d \<noteq> CHR ''=''" by code_simp
  then show "d < 32 \<Longrightarrow> upper_char (b32_char d) = b32_char d \<and> b32_char d \<noteq> CHR ''=''" by simp
qed

section \<open>TOTP\<close>

definition generate_totp_secret :: "bytes \<Rightarrow> string" where
  "generate_totp_secret token_bytes = rstrip_char (CHR ''='') (b32encode token_bytes)"

definition decode_totp_secret :: "string \<Rightarrow> auth_error + bytes" where
  "decode_totp_secret secret =
     (case b32decode (py_upper secret @ replicate ((8 - length secret mod 8) mod 8) CHR ''='') of
        None \<Rightarrow> Inl (AuthValueError ''TOTP secret is invalid'')
      | Some bs \<Rightarrow> Inr bs)"

definition zfill :: "nat \<Rightarrow> string \<Rightarrow> string" where
  "zfill w s = replicate (w - length s) CHR ''0'' @ s"

definition totp_code :: "hashing \<Rightarrow> string \<Rightarrow> int \<Rightarrow> auth_error + string" where
  "totp_code h secret step =
     (case decode_totp_secret secret of
        Inl e \<Rightarrow> Inl e
      | Inr key \<Rightarrow>
          if step < 0 \<or> step \<ge> 2 ^ 64 then Inl (AuthRuntimeError ''struct.error'')
          else
            let digest = hmac_sha1 h key (to_digits 256 8 (nat step));
                offset = last digest AND 0x0F;
                value = from_digits 256 (take 4 (drop offset digest)) AND 0x7FFFFFFF
            in Inr (zfill 6 (str_nat (value mod 1000000))))"

definition is_digit :: "char \<Rightarrow> bool" where
  "is_digit c \<longleftrightarrow> CHR ''0'' \<le> c \<and> c \<le> CHR ''9''"

text \<open>The loop over the steps of \<open>match_totp_step\<close>; a step that raises ends it.\<close>

fun match_steps :: "hashing \<Rightarrow> string \<Rightarrow> string \<Rightarrow> int option \<Rightarrow> int list \<Rightarrow> auth_error + int option" where
  "match_steps h secret code last_accepted [] = Inr None"
| "match_steps h secret code last_accepted (step # steps) =
     (if step < 0 \<or> (case last_accepted of Some l \<Rightarrow> step \<le> l | None \<Rightarrow> False)
      then match_steps h secret code last_accepted steps
      else case totp_code h secret step of
             Inl e \<Rightarrow> Inl e
           | Inr c \<Rightarrow> if c = code then Inr (Some step) else match_steps h secret code last_accepted steps)"

text \<open>\<open>now\<close> is in microseconds; \<open>now // 30\<close> is the floor of the seconds.\<close>

definition totp_step_of :: "timestamp \<Rightarrow> int" where
  "totp_step_of now = now div seconds 30"

definition match_totp_step ::
    "hashing \<Rightarrow> string \<Rightarrow> string \<Rightarrow> timestamp \<Rightarrow> int option \<Rightarrow> auth_error + int option" where
  "match_totp_step h secret code now last_accepted =
     (if length code \<noteq> 6 \<or> \<not> list_all is_digit code then Inr None
      else let current = totp_step_of now
           in match_steps h secret code last_accepted [current, current - 1, current + 1])"

section \<open>Recovery codes\<close>

fun chunks5 :: "string \<Rightarrow> string list" where
  "chunks5 (a # b # c # d # e # rest) = [a, b, c, d, e] # chunks5 rest"
| "chunks5 [] = []"
| "chunks5 s = [s]"

definition recovery_code_text :: "bytes \<Rightarrow> string" where
  "recovery_code_text token_bytes =
     py_join ''-'' (chunks5 (rstrip_char (CHR ''='') (b32encode token_bytes)))"

definition generate_recovery_codes :: "bytes list \<Rightarrow> string list" where
  "generate_recovery_codes draws = map recovery_code_text draws"

definition is_alnum :: "char \<Rightarrow> bool" where
  "is_alnum c \<longleftrightarrow> is_digit c \<or> CHR ''A'' \<le> c \<and> c \<le> CHR ''Z'' \<or> CHR ''a'' \<le> c \<and> c \<le> CHR ''z''"

definition normalize_recovery_code :: "string \<Rightarrow> string" where
  "normalize_recovery_code code = filter is_alnum (py_upper code)"

definition hash_recovery_code :: "hashing \<Rightarrow> string \<Rightarrow> string" where
  "hash_recovery_code h code = sha256_hex h (normalize_recovery_code code)"

section \<open>Secrets read back\<close>

lemma b32_groups_append: "length g = 8 \<Longrightarrow> b32_groups (g @ vs) = g # b32_groups vs"
  by (subst b32_groups.simps) auto

lemma from_digits_256_5: "length bs = 5 \<Longrightarrow> \<forall>b \<in> set bs. b < 256 \<Longrightarrow> from_digits 256 bs < 32 ^ 8"
  using from_digits_less [of 256 bs] by simp

lemma b32encode_digits:
  assumes "length bs mod 5 = 0" and "\<forall>b \<in> set bs. b < 256"
  shows "\<exists>ds. b32encode bs = map b32_char ds \<and> (\<forall>d \<in> set ds. d < 32) \<and> length ds mod 8 = 0 \<and>
     concat (map (\<lambda>g. to_digits 256 5 (from_digits 32 g)) (b32_groups ds)) = bs"
  using assms
proof (induction bs rule: b32encode.induct)
  case (1 bs)
  show ?case
  proof (cases "bs = []")
    case True
    then show ?thesis by (simp add: b32encode.simps b32_groups.simps)
  next
    case False
    then have five: "\<not> length bs < 5" using 1(2) by (metis mod_less length_0_conv)
    then have aligned: "length (drop 5 bs) mod 5 = 0" using 1(2) le_mod_geq [of 5 "length bs"] by simp
    have rest: "\<forall>b \<in> set (drop 5 bs). b < 256" using 1(3) by (blast dest: in_set_dropD)
    obtain ds where ds: "b32encode (drop 5 bs) = map b32_char ds" "\<forall>d \<in> set ds. d < 32" "length ds mod 8 = 0"
      "concat (map (\<lambda>g. to_digits 256 5 (from_digits 32 g)) (b32_groups ds)) = drop 5 bs"
      using 1(1) [OF False five aligned rest] by (elim exE conjE) (rule that)
    let ?n = "from_digits 256 (take 5 bs)"
    have small: "\<forall>b \<in> set (take 5 bs). b < 256" using 1(3) by (auto dest: in_set_takeD)
    have "from_digits 32 (to_digits 32 8 ?n) = ?n"
      using from_digits_256_5 [of "take 5 bs"] small five by (simp add: from_to_digits)
    moreover have "to_digits 256 5 ?n = take 5 bs" using to_from_digits [OF _ small] five by simp
    ultimately have "concat (map (\<lambda>g. to_digits 256 5 (from_digits 32 g)) (b32_groups (to_digits 32 8 ?n @ ds))) = bs"
      using ds(4) by (simp add: b32_groups_append)
    moreover have "b32encode bs = map b32_char (to_digits 32 8 ?n @ ds)"
      using False five ds(1) by (subst b32encode.simps) (simp add: b32_quantum_def)
    ultimately show ?thesis using ds(2,3) by (intro exI [of _ "to_digits 32 8 ?n @ ds"]) (auto dest: to_digits_less [rotated])
  qed
qed

lemma rstrip_char_none: "c \<notin> set s \<Longrightarrow> rstrip_char c s = s"
  by (metis (mono_tags, lifting) dropWhile_eq_self_iff hd_in_set rev_rev_ident rstrip_char_def set_rev)

lemma b32_text:
  assumes "\<forall>d \<in> set ds. d < 32"
  shows "py_upper (map b32_char ds) = map b32_char ds" and "CHR ''='' \<notin> set (map b32_char ds)"
proof -
  show "py_upper (map b32_char ds) = map b32_char ds" using assms b32_char_upper by (simp add: py_upper_def)
  show "CHR ''='' \<notin> set (map b32_char ds)" 
  proof
    assume "CHR ''='' \<in> set (map b32_char ds)"
    then obtain d where "d \<in> set ds" "b32_char d = CHR ''=''" by (auto simp del: b32_char_def)
    then show False using assms b32_char_upper [of d] by blast
  qed
qed

lemma decode_generated_secret:
  assumes "length bs mod 5 = 0" and "\<forall>b \<in> set bs. b < 256"
  shows "decode_totp_secret (generate_totp_secret bs) = Inr bs"
proof -
  obtain ds where ds: "b32encode bs = map b32_char ds" "\<forall>d \<in> set ds. d < 32" "length ds mod 8 = 0"
    "concat (map (\<lambda>g. to_digits 256 5 (from_digits 32 g)) (b32_groups ds)) = bs"
    using b32encode_digits [OF assms] by (elim exE conjE) (rule that)
  note alpha = b32_text [OF ds(2)]
  note strip = rstrip_char_none [OF alpha(2)]
  have "generate_totp_secret bs = map b32_char ds" by (simp only: generate_totp_secret_def ds(1) strip)
  moreover have "b32decode (map b32_char ds) = Some bs"
    unfolding b32decode_def Let_def alpha(1) strip b32_values_chars [OF ds(2)] option.case ds(4) using ds(3) by simp
  ultimately show ?thesis using ds(3) alpha(1) by (simp add: decode_totp_secret_def)
qed

section \<open>Codes\<close>

lemma length_str_nat: "n < 10 ^ k \<Longrightarrow> 0 < k \<Longrightarrow> length (str_nat n) \<le> k"
proof (induction k arbitrary: n)
  case (Suc k)
  show ?case
  proof (cases "n < 10")
    case True
    then show ?thesis by (simp add: str_nat.simps)
  next
    case False
    then have "0 < k" using Suc.prems by (cases k) auto
    moreover have "n div 10 < 10 ^ k" using Suc.prems by (simp add: less_mult_imp_div_less mult.commute)
    ultimately have "length (str_nat (n div 10)) \<le> k" using Suc.IH by blast
    then show ?thesis using False by (subst str_nat.simps) simp
  qed
qed simp

lemma totp_code_format:
  assumes "totp_code h secret step = Inr c"
  shows "length c = 6 \<and> list_all is_digit c"
proof -
  obtain v where c: "c = zfill 6 (str_nat (v mod 1000000))"
    using assms by (auto simp: totp_code_def Let_def split: sum.splits if_splits)
  have "length (str_nat (v mod 1000000)) \<le> 6" by (rule length_str_nat) auto
  moreover have "list_all is_digit (str_nat n)" for n using str_nat_chars by (auto simp: list_all_iff is_digit_def)
  ultimately show ?thesis by (auto simp: c zfill_def list_all_iff is_digit_def)
qed

lemma match_steps_Some:
  "match_steps h secret code last_accepted steps = Inr (Some step) \<Longrightarrow>
     step \<in> set steps \<and> 0 \<le> step \<and> (\<forall>l. last_accepted = Some l \<longrightarrow> l < step) \<and> totp_code h secret step = Inr code"
  by (induction steps) (auto split: if_splits sum.splits option.splits)

lemma match_steps_None:
  "match_steps h secret code last_accepted steps = Inr None \<Longrightarrow> step \<in> set steps \<Longrightarrow> 0 \<le> step \<Longrightarrow>
     (\<forall>l. last_accepted = Some l \<longrightarrow> l < step) \<Longrightarrow> totp_code h secret step \<noteq> Inr code"
  by (induction steps) (auto split: if_splits sum.splits option.splits)

lemma match_totp_step_cases:
  "match_totp_step h secret code now last_accepted = Inr (Some step) \<Longrightarrow>
     \<bar>step - totp_step_of now\<bar> \<le> 1 \<and> 0 \<le> step \<and> (\<forall>l. last_accepted = Some l \<longrightarrow> l < step) \<and>
     totp_code h secret step = Inr code"
  "match_totp_step h secret code now last_accepted = Inr None \<Longrightarrow> \<bar>step - totp_step_of now\<bar> \<le> 1 \<Longrightarrow> 0 \<le> step \<Longrightarrow>
     (\<forall>l. last_accepted = Some l \<longrightarrow> l < step) \<Longrightarrow> totp_code h secret step \<noteq> Inr code"
proof -
  let ?s = "[totp_step_of now, totp_step_of now - 1, totp_step_of now + 1]"
  have near: "step \<in> set ?s \<longleftrightarrow> \<bar>step - totp_step_of now\<bar> \<le> 1" by auto
  show "match_totp_step h secret code now last_accepted = Inr (Some step) \<Longrightarrow>
     \<bar>step - totp_step_of now\<bar> \<le> 1 \<and> 0 \<le> step \<and> (\<forall>l. last_accepted = Some l \<longrightarrow> l < step) \<and>
     totp_code h secret step = Inr code"
    using match_steps_Some [of h secret code last_accepted ?s step] near
    by (simp add: match_totp_step_def Let_def split: if_splits)
  assume "match_totp_step h secret code now last_accepted = Inr None" "\<bar>step - totp_step_of now\<bar> \<le> 1" "0 \<le> step"
    "\<forall>l. last_accepted = Some l \<longrightarrow> l < step"
  then show "totp_code h secret step \<noteq> Inr code"
    using match_steps_None [of h secret code last_accepted ?s step] near totp_code_format [of h secret step code]
    by (auto simp: match_totp_step_def Let_def split: if_splits)
qed

section \<open>Recovery codes are read without case and separators\<close>

lemma chunks5_flat: "concat (chunks5 s) = s"
  by (induction s rule: chunks5.induct) auto

lemma filter_join: "\<not> P sep \<Longrightarrow> filter P (py_join [sep] parts) = filter P (concat parts)"
  by (induction "[sep]" parts rule: py_join.induct) auto

lemma normalize_recovery_join:
  "normalize_recovery_code (py_join ''-'' parts) = normalize_recovery_code (concat parts)"
proof -
  have "py_upper (py_join ''-'' parts) = py_join ''-'' (map py_upper parts)"
    by (induction "''-''" parts rule: py_join.induct) (auto simp: py_upper_def upper_char_def)
  moreover have "\<not> is_alnum CHR ''-''" by (simp add: is_alnum_def is_digit_def)
  moreover have "concat (map py_upper parts) = py_upper (concat parts)" by (simp add: py_upper_def [abs_def] map_concat)
  ultimately show ?thesis by (simp add: normalize_recovery_code_def filter_join)
qed

lemma upper_lower_char: "upper_char (lower_char c) = upper_char c"
  by (auto simp: upper_char_def lower_char_def less_eq_char_def)

end
