(* ===== verification/Auth_Service.thy ===== *)
theory Auth_Service
  imports Auth_Repository Auth_Security Crypto
begin

text \<open>
  \<open>auth/service.py\<close>: the operations of \<open>AuthService\<close>, each a transaction on the tables of
  \<open>Auth_Repository\<close>. Random tokens, codes, ids and nonces are the fields of \<open>auth_fresh\<close>; the hash
  functions, the cipher and the keyring come with the service. Metadata of audit events is left out.
\<close>

record auth_service =
  as_cfg :: settings
  as_keyring :: keyring
  as_gcm :: aes_gcm
  as_hash :: hashing
  as_source :: audit_source
  as_rate_secret :: string

record auth_fresh =
  af_session_id :: uuid
  af_session_token :: string
  af_csrf_token :: string
  af_challenge_id :: uuid
  af_challenge_token :: string
  af_totp_bytes :: bytes
  af_nonce :: bytes
  af_user_id :: uuid
  af_activation_id :: uuid
  af_activation_code :: string
  af_recovery :: "(uuid \<times> bytes) list"

record issued_session =
  is_principal :: session_principal
  is_session_token :: string
  is_csrf_token :: string

record issued_challenge =
  ic_challenge_id :: uuid
  ic_user_id :: uuid
  ic_username :: string
  ic_purpose :: challenge_purpose
  ic_expires_at :: timestamp
  ic_challenge_token :: string
  ic_enrollment_secret :: "string option"
  ic_otpauth_uri :: "string option"

datatype auth_result = Session_Issued issued_session | Challenge_Issued issued_challenge

record completed_mfa =
  cm_issued :: issued_session
  cm_recovery_codes :: "string list"

record created_user =
  cu_user :: user_row
  cu_activation_code :: string
  cu_activation_expires_at :: timestamp

record consumed_rate_limit =
  cl_scope :: string
  cl_subject_hash :: string
  cl_window_started_at :: timestamp
  cl_reset_at :: timestamp
  cl_count :: nat
  cl_maximum :: nat

record security_status =
  st_totp_policy_enabled :: bool
  st_mfa_enabled :: bool
  st_mfa_enrollment_required :: bool
  st_unused_recovery_codes :: nat
  st_elevated_until :: "timestamp option"

definition AUTH_CHALLENGE_TTL :: timestamp where
  "AUTH_CHALLENGE_TTL = seconds (5 * 60)"

definition ACTIVATION_TTL :: timestamp where
  "ACTIVATION_TTL = seconds (24 * 60 * 60)"

definition REAUTHENTICATION_TTL :: timestamp where
  "REAUTHENTICATION_TTL = seconds (10 * 60)"

definition MFA_REQUIRED_ROLES :: "user_role set" where
  "MFA_REQUIRED_ROLES = {OWNER, ADMIN}"

definition canonical_username :: "string \<Rightarrow> string" where
  "canonical_username username = casefold (py_strip username)"

definition fixed_window :: "timestamp \<Rightarrow> int \<Rightarrow> timestamp \<times> timestamp" where
  "fixed_window now secs =
     (let epoch = now div 1000000; start_epoch = epoch - epoch mod secs
      in (seconds start_epoch, seconds start_epoch + seconds secs))"

definition validate_username :: "string \<Rightarrow> auth_error + unit" where
  "validate_username username =
     (if username = [] \<or> length username > 64
      then Inl (AuthValueError ''username must contain between 1 and 64 characters'') else Inr ())"

definition validate_password :: "string \<Rightarrow> auth_error + unit" where
  "validate_password password =
     (if length password < 12 \<or> length password > 200
      then Inl (AuthValueError ''password must contain between 12 and 200 characters'') else Inr ())"

definition auth_details :: "uuid option \<Rightarrow> uuid option \<Rightarrow> string \<Rightarrow> uuid \<Rightarrow> audit_details" where
  "auth_details actor session resource_type resource_id =
     no_details\<lparr>ad_actor_user_id := actor, ad_session_id := session,
       ad_resource_type := Some resource_type, ad_resource_id := Some resource_id\<rparr>"

definition audit :: "auth_service \<Rightarrow> env \<Rightarrow> audit_action \<Rightarrow> audit_details \<Rightarrow> unit auth_tx" where
  "audit svc env act d = tx_write (audit_append env act AO_SUCCEEDED (as_source svc) d)"

text \<open>Errors of the keyring inside the authentication service.\<close>

fun auth_crypto :: "ops_error + 'a \<Rightarrow> auth_error + 'a" where
  "auth_crypto (Inr a) = Inr a"
| "auth_crypto (Inl (ValueErr m)) = Inl (AuthValueError m)"
| "auth_crypto (Inl _) = Inl (AuthRuntimeError ''encryption failed'')"

section \<open>Issuing sessions and challenges\<close>

definition issued_row ::
    "auth_service \<Rightarrow> env \<Rightarrow> auth_fresh \<Rightarrow> user_row \<Rightarrow> timestamp option \<Rightarrow> bool \<Rightarrow> session_row" where
  "issued_row svc env fresh user mfa_verified_at elevated =
     \<lparr>s_id = af_session_id fresh, s_user_id = u_id user,
      s_token_hash = hash_token (as_hash svc) (af_session_token fresh),
      s_csrf_hash = hash_token (as_hash svc) (af_csrf_token fresh),
      s_expires_at = e_now env + seconds (set_session_ttl_seconds (as_cfg svc)), s_created_at = e_now env,
      s_mfa_verified_at = mfa_verified_at,
      s_reauthenticated_at = (if elevated then Some (e_now env) else None),
      s_elevated_until = (if elevated then Some (e_now env + REAUTHENTICATION_TTL) else None)\<rparr>"

definition issue ::
    "auth_service \<Rightarrow> env \<Rightarrow> auth_fresh \<Rightarrow> user_row \<Rightarrow> bool \<Rightarrow> timestamp option \<Rightarrow> bool \<Rightarrow>
     issued_session auth_tx" where
  "issue svc env fresh user mfa_enabled mfa_verified_at elevated =
     (let s = issued_row svc env fresh user mfa_verified_at elevated
      in tx_then (add_session s)
           (tx_return \<lparr>is_principal =
                \<lparr>sp_session_id = s_id s, sp_user_id = u_id user, sp_username = u_username user,
                 sp_role = u_role user, sp_permissions = permissions_for_role (u_role user),
                 sp_mfa_enabled = mfa_enabled, sp_mfa_enrollment_required = u_mfa_enrollment_required user,
                 sp_mfa_verified_at = mfa_verified_at, sp_reauthenticated_at = s_reauthenticated_at s,
                 sp_elevated_until = s_elevated_until s, sp_csrf_hash = s_csrf_hash s,
                 sp_expires_at = s_expires_at s\<rparr>,
              is_session_token = af_session_token fresh, is_csrf_token = af_csrf_token fresh\<rparr>))"

definition require_totp_enabled :: "auth_service \<Rightarrow> auth_error + unit" where
  "require_totp_enabled svc = (if set_totp_enabled (as_cfg svc) then Inr () else Inl TotpDisabled)"

definition enroll_factor ::
    "auth_service \<Rightarrow> env \<Rightarrow> auth_fresh \<Rightarrow> user_row \<Rightarrow> (string \<times> string) auth_tx" where
  "enroll_factor svc env fresh user =
     (let secret = generate_totp_secret (af_totp_bytes fresh);
          label = url_quote (''OpsComposer:'' @ u_username user)
      in tx_bind (tx_check (auth_crypto (encrypt_bytes (as_gcm svc) (af_nonce fresh) (as_keyring svc)
                    ''totp'' (uuid_str (u_id user)) (encode_ascii secret) None)))
          (\<lambda>(envelope, key_version).
             tx_then
               (put_mfa_factor \<lparr>mf_user_id = u_id user, mf_encrypted_totp_secret = envelope,
                  mf_key_version = key_version, mf_last_accepted_step = None, mf_confirmed_at = None,
                  mf_created_at = e_now env, mf_updated_at = e_now env\<rparr>)
               (tx_return (secret, ''otpauth://totp/'' @ label @ ''?secret='' @ secret @
                  ''&issuer=OpsComposer&algorithm=SHA1&digits=6&period=30''))))"

definition issue_challenge ::
    "auth_service \<Rightarrow> env \<Rightarrow> auth_fresh \<Rightarrow> user_row \<Rightarrow> challenge_purpose \<Rightarrow> bool \<Rightarrow>
     issued_challenge auth_tx" where
  "issue_challenge svc env fresh user purpose begin_enrollment =
     tx_then (tx_check (require_totp_enabled svc))
      (tx_bind (if begin_enrollment
                then tx_bind (enroll_factor svc env fresh user) (\<lambda>su. tx_return (Some su))
                else tx_return None)
        (\<lambda>enrollment.
           tx_then
             (add_challenge \<lparr>ch_id = af_challenge_id fresh, ch_user_id = u_id user,
                ch_token_hash = hash_token (as_hash svc) (af_challenge_token fresh), ch_purpose = purpose,
                ch_expires_at = e_now env + AUTH_CHALLENGE_TTL, ch_consumed_at = None,
                ch_created_at = e_now env\<rparr>)
             (tx_return \<lparr>ic_challenge_id = af_challenge_id fresh, ic_user_id = u_id user,
                ic_username = u_username user, ic_purpose = purpose,
                ic_expires_at = e_now env + AUTH_CHALLENGE_TTL,
                ic_challenge_token = af_challenge_token fresh,
                ic_enrollment_secret = map_option fst enrollment,
                ic_otpauth_uri = map_option snd enrollment\<rparr>)))"

section \<open>Bootstrap\<close>

definition bootstrap ::
    "auth_service \<Rightarrow> env \<Rightarrow> auth_fresh \<Rightarrow> string \<Rightarrow> string \<Rightarrow> db \<Rightarrow> (auth_error + user_row) \<times> db" where
  "bootstrap svc env fresh username password =
     (let normalized = canonical_username username;
          now = e_now env;
          identity = \<lparr>u_id = af_user_id fresh, u_username = normalized,
            u_password_hash = Some (hash_password (as_hash svc) password), u_status = US_ACTIVE,
            u_role = OWNER, u_mfa_enrollment_required = True, u_activated_at = Some now, u_version = 1,
            u_created_at = now, u_updated_at = now, u_password_updated_at = Some now\<rparr>
      in unit_of_work
        (tx_then (tx_check (validate_username normalized))
        (tx_then (tx_check (validate_password password))
        (tx_bind (tx_read count_users) (\<lambda>n.
         tx_then (tx_guard (n = 0) AdminAlreadyExists)
        (tx_bind (add_admin identity) (\<lambda>created.
         tx_then (tx_write (audit_append env ADMIN_BOOTSTRAPPED AO_SUCCEEDED SRC_CLI
                    (auth_details (Some (u_id identity)) None ''user'' (u_id identity))))
           (tx_return created))))))))"

section \<open>Rate limits and login\<close>

text \<open>\<open>math.ceil\<close> of the seconds between two time stamps.\<close>

definition ceil_seconds :: "timestamp \<Rightarrow> int" where
  "ceil_seconds d = - ((- d) div 1000000)"

definition consume_rate_limit ::
    "auth_service \<Rightarrow> env \<Rightarrow> string \<Rightarrow> string \<Rightarrow> nat \<Rightarrow> nat \<Rightarrow> db \<Rightarrow>
     (auth_error + consumed_rate_limit) \<times> db" where
  "consume_rate_limit svc env scope subject maximum window_seconds db =
     (let (window_start, window_end) = fixed_window (e_now env) (int window_seconds);
          subject_hash = hmac_subject (as_hash svc) (as_rate_secret svc) scope subject;
          (count, db1) = consume_rate_limit_row scope subject_hash window_start window_end db
      in (if count > maximum
          then Inl (AuthRateLimited (max 1 (ceil_seconds (window_end - e_now env))))
          else Inr \<lparr>cl_scope = scope, cl_subject_hash = subject_hash, cl_window_started_at = window_start,
                    cl_reset_at = window_end, cl_count = count, cl_maximum = maximum\<rparr>, db1))"

definition login_result ::
    "auth_service \<Rightarrow> env \<Rightarrow> auth_fresh \<Rightarrow> user_row \<Rightarrow> auth_result auth_tx" where
  "login_result svc env fresh identity =
     tx_bind (tx_read (get_mfa_factor (u_id identity))) (\<lambda>factor.
       let factor_enabled = (case factor of None \<Rightarrow> False | Some f \<Rightarrow> mf_confirmed_at f \<noteq> None);
           enrollment_required = (u_mfa_enrollment_required identity \<or>
             (u_role identity \<in> MFA_REQUIRED_ROLES \<and> \<not> factor_enabled))
       in if \<not> set_totp_enabled (as_cfg svc)
          then tx_bind (issue svc env fresh identity factor_enabled None True) (\<lambda>i. tx_return (Session_Issued i))
          else if enrollment_required
          then tx_bind (issue_challenge svc env fresh identity MFA_ENROLLMENT True)
                 (\<lambda>c. tx_return (Challenge_Issued c))
          else if factor_enabled
          then tx_bind (issue_challenge svc env fresh identity LOGIN_MFA False)
                 (\<lambda>c. tx_return (Challenge_Issued c))
          else tx_bind (issue svc env fresh identity False None False) (\<lambda>i. tx_return (Session_Issued i)))"

definition login_details :: "user_row \<Rightarrow> auth_result \<Rightarrow> audit_details" where
  "login_details identity result =
     (case result of
        Session_Issued i \<Rightarrow>
          auth_details (Some (u_id identity)) (Some (sp_session_id (is_principal i)))
            ''session'' (sp_session_id (is_principal i))
      | Challenge_Issued c \<Rightarrow>
          auth_details (Some (u_id identity)) None ''auth_challenge'' (ic_challenge_id c))"

definition login_body ::
    "auth_service \<Rightarrow> env \<Rightarrow> auth_fresh \<Rightarrow> string \<Rightarrow> string \<Rightarrow> consumed_rate_limit \<Rightarrow> auth_result auth_tx" where
  "login_body svc env fresh normalized password bucket =
     tx_bind (tx_read (find_user_by_username normalized)) (\<lambda>user.
       let verification = verify_password (as_hash svc) (case user of None \<Rightarrow> None | Some u \<Rightarrow> u_password_hash u) password
       in case user of
            None \<Rightarrow> tx_raise InvalidCredentials
          | Some identity \<Rightarrow>
              tx_then (tx_guard (u_status identity = US_ACTIVE \<and> pv_valid verification) InvalidCredentials)
             (tx_then (if pv_needs_rehash verification
                       then tx_write (update_password_hash (u_id identity)
                              (hash_password (as_hash svc) password) (e_now env))
                       else tx_return ())
             (tx_then (tx_write (clear_rate_limit (cl_scope bucket) (cl_subject_hash bucket)
                         (cl_window_started_at bucket)))
             (tx_bind (login_result svc env fresh identity) (\<lambda>result.
              tx_then (audit svc env AUTH_LOGIN_SUCCEEDED (login_details identity result))
                (tx_return result))))))"

definition login ::
    "auth_service \<Rightarrow> env \<Rightarrow> auth_fresh \<Rightarrow> string \<Rightarrow> string \<Rightarrow> string \<Rightarrow> db \<Rightarrow>
     (auth_error + auth_result) \<times> db" where
  "login svc env fresh username password client_key db =
     (let normalized = canonical_username username; cfg = as_cfg svc
      in case consume_rate_limit svc env ''login:ip'' client_key (set_auth_login_ip_limit cfg)
                (set_auth_login_ip_window_seconds cfg) db of
           (Inl e, db1) \<Rightarrow> (Inl e, db1)
         | (Inr _, db1) \<Rightarrow>
             (case consume_rate_limit svc env ''login:username_ip'' (normalized @ [CHR 0x00] @ client_key)
                     (set_auth_login_username_ip_limit cfg)
                     (set_auth_login_username_ip_window_seconds cfg) db1 of
                (Inl e, db2) \<Rightarrow> (Inl e, db2)
              | (Inr bucket, db2) \<Rightarrow>
                  unit_of_work (login_body svc env fresh normalized password bucket) db2))"

section \<open>Second factors\<close>

definition decrypt_totp :: "auth_service \<Rightarrow> mfa_factor \<Rightarrow> auth_error + string" where
  "decrypt_totp svc factor =
     (case decrypt_bytes (as_gcm svc) (as_keyring svc) ''totp'' (uuid_str (mf_user_id factor))
             (mf_encrypted_totp_secret factor) (mf_key_version factor) of
        Inr plain \<Rightarrow> if \<forall>b \<in> set plain. b < 128 then Inr (map char_of plain) else Inl InvalidMfaCode
      | Inl (ValueErr _) \<Rightarrow> Inl InvalidMfaCode
      | Inl _ \<Rightarrow> Inl (AuthRuntimeError ''decryption failed''))"

definition verify_mfa_value ::
    "auth_service \<Rightarrow> env \<Rightarrow> mfa_factor \<Rightarrow> string \<Rightarrow> bool \<Rightarrow> (bool \<times> bool) auth_tx" where
  "verify_mfa_value svc env factor value allow_recovery =
     tx_bind (tx_check (decrypt_totp svc factor)) (\<lambda>secret.
     tx_bind (tx_check (match_totp_step (as_hash svc) secret value (e_now env) (mf_last_accepted_step factor)))
       (\<lambda>step. case step of
          Some n \<Rightarrow> tx_bind (tx_query (accept_totp_step (mf_user_id factor) n (e_now env)))
                      (\<lambda>ok. tx_return (ok, False))
        | None \<Rightarrow>
            if allow_recovery
            then tx_bind (tx_query (consume_recovery_code (mf_user_id factor)
                   (hash_recovery_code (as_hash svc) value) (e_now env)))
                   (\<lambda>used. tx_return (used, used))
            else tx_return (False, False)))"

definition recovery_rows :: "auth_service \<Rightarrow> auth_fresh \<Rightarrow> (uuid \<times> string) list" where
  "recovery_rows svc fresh =
     map (\<lambda>(i, bs). (i, hash_recovery_code (as_hash svc) (recovery_code_text bs))) (af_recovery fresh)"

definition finish_enrollment ::
    "auth_service \<Rightarrow> env \<Rightarrow> auth_fresh \<Rightarrow> user_row \<Rightarrow> mfa_factor \<Rightarrow> string \<Rightarrow>
     (user_row \<times> string list) auth_tx" where
  "finish_enrollment svc env fresh user factor value =
     tx_then (tx_guard (mf_confirmed_at factor = None) InvalidChallenge)
    (tx_bind (tx_check (decrypt_totp svc factor)) (\<lambda>secret.
     tx_bind (tx_check (match_totp_step (as_hash svc) secret value (e_now env) None)) (\<lambda>step.
     case step of
       None \<Rightarrow> tx_raise InvalidMfaCode
     | Some n \<Rightarrow>
         tx_then (tx_write (confirm_mfa_factor (u_id user) (e_now env)))
        (tx_bind (tx_query (accept_totp_step (u_id user) n (e_now env))) (\<lambda>ok.
         tx_then (tx_guard ok InvalidMfaCode)
        (tx_then (replace_recovery_codes (u_id user) (recovery_rows svc fresh) (e_now env))
           (tx_return (user\<lparr>u_mfa_enrollment_required := False\<rparr>,
              generate_recovery_codes (map snd (af_recovery fresh))))))))))"

text \<open>The two branches of \<open>complete_mfa\<close>, and what follows both of them.\<close>

definition pass_second_factor ::
    "auth_service \<Rightarrow> env \<Rightarrow> auth_fresh \<Rightarrow> challenge_row \<Rightarrow> user_row \<Rightarrow> mfa_factor \<Rightarrow> string \<Rightarrow>
     (user_row \<times> string list \<times> audit_action) auth_tx" where
  "pass_second_factor svc env fresh challenge user factor value =
     (if ch_purpose challenge = MFA_ENROLLMENT
      then tx_bind (finish_enrollment svc env fresh user factor value)
             (\<lambda>(u, codes). tx_return (u, codes, USER_MFA_ENROLLMENT_SUCCEEDED))
      else tx_bind (verify_mfa_value svc env factor value True) (\<lambda>(verified, used_recovery).
             tx_then (tx_guard verified InvalidMfaCode)
               (tx_return (user, [], if used_recovery then AUTH_RECOVERY_USED else AUTH_MFA_SUCCEEDED))))"

definition replace_sessions ::
    "auth_service \<Rightarrow> env \<Rightarrow> auth_fresh \<Rightarrow> challenge_row \<Rightarrow> user_row \<Rightarrow> string list \<Rightarrow> audit_action \<Rightarrow>
     completed_mfa auth_tx" where
  "replace_sessions svc env fresh challenge u codes act =
     tx_bind (tx_query (mark_challenge_consumed (ch_id challenge) (e_now env))) (\<lambda>ok.
     tx_then (tx_guard ok InvalidChallenge)
    (tx_then (tx_write (delete_user_sessions (u_id u)))
    (tx_bind (issue svc env fresh u True (Some (e_now env)) True) (\<lambda>issued.
     tx_then (audit svc env act (auth_details (Some (u_id u))
                (Some (sp_session_id (is_principal issued))) ''user'' (u_id u)))
       (tx_return \<lparr>cm_issued = issued, cm_recovery_codes = codes\<rparr>)))))"

definition complete_mfa_body ::
    "auth_service \<Rightarrow> env \<Rightarrow> auth_fresh \<Rightarrow> string \<Rightarrow> string \<Rightarrow> challenge_purpose option \<Rightarrow>
     completed_mfa auth_tx" where
  "complete_mfa_body svc env fresh challenge_token value expected_purpose =
     tx_bind (tx_read (resolve_challenge (hash_token (as_hash svc) challenge_token) (e_now env))) (\<lambda>found.
     case found of
       None \<Rightarrow> tx_raise InvalidChallenge
     | Some challenge \<Rightarrow>
         tx_then (tx_guard (expected_purpose = None \<or> expected_purpose = Some (ch_purpose challenge)) InvalidChallenge)
        (tx_bind (tx_read (get_user (ch_user_id challenge))) (\<lambda>found_user.
         tx_bind (tx_read (get_mfa_factor (ch_user_id challenge))) (\<lambda>found_factor.
         case (found_user, found_factor) of
           (Some user, Some factor) \<Rightarrow>
             tx_bind (pass_second_factor svc env fresh challenge user factor value)
               (\<lambda>(u, codes, act). replace_sessions svc env fresh challenge u codes act)
         | _ \<Rightarrow> tx_raise InvalidChallenge))))"

definition complete_mfa ::
    "auth_service \<Rightarrow> env \<Rightarrow> auth_fresh \<Rightarrow> string \<Rightarrow> string \<Rightarrow> challenge_purpose option \<Rightarrow> db \<Rightarrow>
     (auth_error + completed_mfa) \<times> db" where
  "complete_mfa svc env fresh challenge_token value expected_purpose =
     unit_of_work (tx_then (tx_check (require_totp_enabled svc))
       (complete_mfa_body svc env fresh challenge_token value expected_purpose))"

definition begin_mfa_enrollment ::
    "auth_service \<Rightarrow> env \<Rightarrow> auth_fresh \<Rightarrow> session_principal \<Rightarrow> db \<Rightarrow> (auth_error + issued_challenge) \<times> db" where
  "begin_mfa_enrollment svc env fresh actor =
     unit_of_work
       (tx_then (tx_check (require_totp_enabled svc))
       (tx_bind (tx_read (get_user (sp_user_id actor))) (\<lambda>found.
        case found of
          None \<Rightarrow> tx_raise InvalidSession
        | Some user \<Rightarrow>
            tx_bind (issue_challenge svc env fresh (user\<lparr>u_mfa_enrollment_required := True\<rparr>) MFA_ENROLLMENT True)
              (\<lambda>challenge.
                 tx_then (audit svc env USER_MFA_ENROLLMENT_STARTED
                   (auth_details (Some (u_id user)) (Some (sp_session_id actor)) ''user'' (u_id user)))
                   (tx_return challenge)))))"

text \<open>The second factor of \<open>reauthenticate\<close>: required whenever the TOTP policy is on.\<close>

definition reauthenticate_factor ::
    "auth_service \<Rightarrow> env \<Rightarrow> session_principal \<Rightarrow> string option \<Rightarrow> unit auth_tx" where
  "reauthenticate_factor svc env actor mfa_value =
     (if \<not> set_totp_enabled (as_cfg svc) then tx_return ()
      else tx_bind (tx_read (get_mfa_factor (sp_user_id actor))) (\<lambda>found.
        case (found, mfa_value) of
          (Some factor, Some value) \<Rightarrow>
            tx_then (tx_guard (mf_confirmed_at factor \<noteq> None) InvalidMfaCode)
           (tx_bind (verify_mfa_value svc env factor value True) (\<lambda>(verified, _).
              tx_guard verified InvalidMfaCode))
        | _ \<Rightarrow> tx_raise InvalidMfaCode))"

definition reauthenticate ::
    "auth_service \<Rightarrow> env \<Rightarrow> session_principal \<Rightarrow> string \<Rightarrow> string option \<Rightarrow> db \<Rightarrow>
     (auth_error + session_principal) \<times> db" where
  "reauthenticate svc env actor password mfa_value =
     unit_of_work
       (tx_bind (tx_read (find_user_by_username (sp_username actor))) (\<lambda>user.
        let verification = verify_password (as_hash svc) (case user of None \<Rightarrow> None | Some u \<Rightarrow> u_password_hash u) password
        in tx_then (tx_guard (user \<noteq> None \<and> pv_valid verification) InvalidCredentials)
          (tx_then (reauthenticate_factor svc env actor mfa_value)
          (tx_bind (tx_query (elevate_session (sp_session_id actor) (e_now env) (e_now env + REAUTHENTICATION_TTL)))
            (\<lambda>elevated. case elevated of
               None \<Rightarrow> tx_raise InvalidSession
             | Some p \<Rightarrow>
                 tx_then (audit svc env AUTH_REAUTH_SUCCEEDED
                   (auth_details (Some (sp_user_id actor)) (Some (sp_session_id actor)) ''session'' (sp_session_id actor)))
                   (tx_return p))))))"

section \<open>Users\<close>

definition auth_activate ::
    "auth_service \<Rightarrow> env \<Rightarrow> auth_fresh \<Rightarrow> string \<Rightarrow> string \<Rightarrow> db \<Rightarrow> (auth_error + auth_result) \<times> db" where
  "auth_activate svc env fresh activation_code password =
     unit_of_work
       (tx_then (tx_check (validate_password password))
       (tx_bind (tx_query (consume_activation_token (hash_token (as_hash svc) activation_code) (e_now env)))
         (\<lambda>grant. case grant of
            None \<Rightarrow> tx_raise ActivationExpired
          | Some (_, granted) \<Rightarrow>
              let requires_mfa = u_role granted \<in> MFA_REQUIRED_ROLES
              in tx_bind (activate_user (u_id granted) (hash_password (as_hash svc) password) requires_mfa (e_now env))
                (\<lambda>user.
                 tx_bind (if requires_mfa \<and> set_totp_enabled (as_cfg svc)
                          then tx_bind (issue_challenge svc env fresh user MFA_ENROLLMENT True)
                                 (\<lambda>c. tx_return (Challenge_Issued c))
                          else tx_bind (issue svc env fresh user False None (\<not> set_totp_enabled (as_cfg svc)))
                                 (\<lambda>i. tx_return (Session_Issued i)))
                   (\<lambda>result.
                      tx_then (audit svc env USER_ACTIVATED (auth_details (Some (u_id user)) None ''user'' (u_id user)))
                     (tx_then enforce_active_owner (tx_return result)))))))"

definition list_all_users ::
    "session_principal \<Rightarrow> db \<Rightarrow> (auth_error + user_row list) \<times> db" where
  "list_all_users actor =
     unit_of_work (tx_then (tx_check (require_permission actor USER_READ)) (tx_read list_users))"

definition manage_users :: "env \<Rightarrow> session_principal \<Rightarrow> unit auth_tx" where
  "manage_users env actor =
     tx_then (tx_check (require_permission actor USER_MANAGE))
       (tx_check (require_recent_reauthentication (e_now env) actor))"

definition new_activation_token ::
    "auth_service \<Rightarrow> env \<Rightarrow> auth_fresh \<Rightarrow> session_principal \<Rightarrow> uuid \<Rightarrow> activation_token" where
  "new_activation_token svc env fresh actor user_id =
     \<lparr>at_id = af_activation_id fresh, at_user_id = user_id,
      at_token_hash = hash_token (as_hash svc) (af_activation_code fresh), at_created_by = sp_user_id actor,
      at_expires_at = e_now env + ACTIVATION_TTL, at_consumed_at = None, at_created_at = e_now env\<rparr>"

definition create_user_body ::
    "auth_service \<Rightarrow> env \<Rightarrow> auth_fresh \<Rightarrow> session_principal \<Rightarrow> string \<Rightarrow> user_role \<Rightarrow> created_user auth_tx" where
  "create_user_body svc env fresh actor username role =
     (let normalized = canonical_username username;
          now = e_now env;
          identity = \<lparr>u_id = af_user_id fresh, u_username = normalized, u_password_hash = None,
            u_status = PENDING_ACTIVATION, u_role = role,
            u_mfa_enrollment_required = (role \<in> MFA_REQUIRED_ROLES), u_activated_at = None,
            u_version = 1, u_created_at = now, u_updated_at = now, u_password_updated_at = None\<rparr>
      in tx_then (manage_users env actor)
        (tx_then (tx_check (validate_username normalized))
        (tx_bind (add_user identity) (\<lambda>created.
         tx_then (add_activation_token (new_activation_token svc env fresh actor (u_id created)))
        (tx_then (audit svc env USER_CREATED
                    (auth_details (Some (sp_user_id actor)) (Some (sp_session_id actor)) ''user'' (u_id created)))
           (tx_return \<lparr>cu_user = created, cu_activation_code = af_activation_code fresh,
                       cu_activation_expires_at = now + ACTIVATION_TTL\<rparr>))))))"

definition create_user ::
    "auth_service \<Rightarrow> env \<Rightarrow> auth_fresh \<Rightarrow> session_principal \<Rightarrow> string \<Rightarrow> user_role \<Rightarrow> db \<Rightarrow>
     (auth_error + created_user) \<times> db" where
  "create_user svc env fresh actor username role db =
     (case unit_of_work (create_user_body svc env fresh actor username role) db of
        (Inl AdminAlreadyExists, db') \<Rightarrow> (Inl UserConflict, db')
      | r \<Rightarrow> r)"

definition reissue_activation ::
    "auth_service \<Rightarrow> env \<Rightarrow> auth_fresh \<Rightarrow> session_principal \<Rightarrow> uuid \<Rightarrow> db \<Rightarrow>
     (auth_error + created_user) \<times> db" where
  "reissue_activation svc env fresh actor user_id =
     unit_of_work
       (tx_then (manage_users env actor)
       (tx_bind (tx_read (get_user user_id)) (\<lambda>found.
        case found of
          None \<Rightarrow> tx_raise ActivationExpired
        | Some user \<Rightarrow>
            tx_then (tx_guard (u_status user = PENDING_ACTIVATION) ActivationExpired)
           (tx_then (tx_write (invalidate_activation_tokens user_id (e_now env)))
           (tx_then (add_activation_token (new_activation_token svc env fresh actor user_id))
           (tx_then (audit svc env USER_ACTIVATION_REISSUED
                       (auth_details (Some (sp_user_id actor)) (Some (sp_session_id actor)) ''user'' user_id))
              (tx_return \<lparr>cu_user = user, cu_activation_code = af_activation_code fresh,
                          cu_activation_expires_at = e_now env + ACTIVATION_TTL\<rparr>)))))))"

definition status_change_allowed :: "user_row \<Rightarrow> user_status \<Rightarrow> bool" where
  "status_change_allowed before status \<longleftrightarrow>
     \<not> (u_status before = PENDING_ACTIVATION \<and> status = US_ACTIVE) \<and>
     \<not> (u_status before \<noteq> PENDING_ACTIVATION \<and> status = PENDING_ACTIVATION) \<and>
     \<not> (status = US_ACTIVE \<and> u_activated_at before = None)"

definition user_update_action :: "user_row \<Rightarrow> user_role \<Rightarrow> user_status \<Rightarrow> audit_action" where
  "user_update_action before role status =
     (if status = US_DISABLED then USER_DISABLED
      else if role \<noteq> u_role before then USER_ROLE_CHANGED else USER_UPDATED)"

definition change_user_body ::
    "auth_service \<Rightarrow> env \<Rightarrow> session_principal \<Rightarrow> uuid \<Rightarrow> user_role \<Rightarrow> user_status \<Rightarrow> nat \<Rightarrow> user_row auth_tx" where
  "change_user_body svc env actor user_id role status expected_version =
     tx_then (manage_users env actor)
    (tx_bind (tx_read (get_user user_id)) (\<lambda>found.
     case found of
       None \<Rightarrow> tx_raise InvalidCredentials
     | Some before \<Rightarrow>
         tx_then (tx_guard (status_change_allowed before status) UserConflict)
        (tx_bind (update_user user_id role status expected_version (e_now env)) (\<lambda>result.
         case result of
           None \<Rightarrow> tx_raise UserVersionConflict
         | Some updated \<Rightarrow>
             tx_then (tx_write (delete_user_sessions user_id))
            (tx_then (audit svc env (user_update_action before role status)
                        (auth_details (Some (sp_user_id actor)) (Some (sp_session_id actor)) ''user'' user_id))
            (tx_then enforce_active_owner (tx_return updated)))))))"

definition change_user ::
    "auth_service \<Rightarrow> env \<Rightarrow> session_principal \<Rightarrow> uuid \<Rightarrow> user_role \<Rightarrow> user_status \<Rightarrow> nat \<Rightarrow> db \<Rightarrow>
     (auth_error + user_row) \<times> db" where
  "change_user svc env actor user_id role status expected_version db =
     (case unit_of_work (change_user_body svc env actor user_id role status expected_version) db of
        (Inl e, db') \<Rightarrow>
          (Inl (if e = AuthRuntimeError ''ck_users_active_owner'' then LastOwnerRequired else e), db')
      | r \<Rightarrow> r)"

definition reset_user_mfa ::
    "auth_service \<Rightarrow> env \<Rightarrow> session_principal \<Rightarrow> uuid \<Rightarrow> db \<Rightarrow> (auth_error + unit) \<times> db" where
  "reset_user_mfa svc env actor user_id =
     unit_of_work
       (tx_then (manage_users env actor)
       (tx_then (tx_guard (sp_user_id actor \<noteq> user_id) PermissionDenied)
       (tx_bind (tx_read (get_user user_id)) (\<lambda>found.
        tx_then (tx_guard (found \<noteq> None) InvalidCredentials)
       (tx_then (tx_write (reset_mfa user_id (e_now env)))
          (audit svc env USER_MFA_RESET
             (auth_details (Some (sp_user_id actor)) (Some (sp_session_id actor)) ''user'' user_id)))))))"

definition security_status_of :: "auth_service \<Rightarrow> session_principal \<Rightarrow> db \<Rightarrow> security_status" where
  "security_status_of svc actor db =
     \<lparr>st_totp_policy_enabled = set_totp_enabled (as_cfg svc),
      st_mfa_enabled = (case get_mfa_factor (sp_user_id actor) db of None \<Rightarrow> False | Some f \<Rightarrow> mf_confirmed_at f \<noteq> None),
      st_mfa_enrollment_required = sp_mfa_enrollment_required actor,
      st_unused_recovery_codes = count_unused_recovery_codes (sp_user_id actor) db,
      st_elevated_until = sp_elevated_until actor\<rparr>"

definition regenerate_recovery_codes ::
    "auth_service \<Rightarrow> env \<Rightarrow> auth_fresh \<Rightarrow> session_principal \<Rightarrow> db \<Rightarrow> (auth_error + string list) \<times> db" where
  "regenerate_recovery_codes svc env fresh actor =
     unit_of_work
       (tx_then (tx_check (require_totp_enabled svc))
       (tx_then (tx_check (require_recent_reauthentication (e_now env) actor))
       (tx_bind (tx_read (get_mfa_factor (sp_user_id actor))) (\<lambda>found.
        tx_then (tx_guard (case found of None \<Rightarrow> False | Some f \<Rightarrow> mf_confirmed_at f \<noteq> None) InvalidMfaCode)
       (tx_then (replace_recovery_codes (sp_user_id actor) (recovery_rows svc fresh) (e_now env))
       (tx_then (audit svc env USER_RECOVERY_CODES_REGENERATED
                   (auth_details (Some (sp_user_id actor)) (Some (sp_session_id actor)) ''user'' (sp_user_id actor)))
          (tx_return (generate_recovery_codes (map snd (af_recovery fresh))))))))))"

definition change_password ::
    "auth_service \<Rightarrow> env \<Rightarrow> session_principal \<Rightarrow> string \<Rightarrow> string \<Rightarrow> string option \<Rightarrow> db \<Rightarrow>
     (auth_error + unit) \<times> db" where
  "change_password svc env actor current_password new_password mfa_value =
     unit_of_work
       (tx_then (tx_check (validate_password new_password))
       (tx_bind (tx_read (find_user_by_username (sp_username actor))) (\<lambda>user.
        let verification = verify_password (as_hash svc) (case user of None \<Rightarrow> None | Some u \<Rightarrow> u_password_hash u)
              current_password
        in tx_then (tx_guard (case user of None \<Rightarrow> False | Some u \<Rightarrow> u_id u = sp_user_id actor \<and> pv_valid verification)
                      InvalidCredentials)
          (tx_bind (tx_read (get_mfa_factor (sp_user_id actor))) (\<lambda>found.
           tx_then
             (case found of
                None \<Rightarrow> tx_return ()
              | Some factor \<Rightarrow>
                  if set_totp_enabled (as_cfg svc) \<and> mf_confirmed_at factor \<noteq> None
                  then (case mfa_value of
                          None \<Rightarrow> tx_raise InvalidMfaCode
                        | Some value \<Rightarrow> tx_bind (verify_mfa_value svc env factor value True)
                            (\<lambda>(verified, _). tx_guard verified InvalidMfaCode))
                  else tx_return ())
          (tx_then (tx_write (update_password_hash (sp_user_id actor)
                      (hash_password (as_hash svc) new_password) (e_now env)))
          (tx_then (tx_write (delete_user_sessions (sp_user_id actor)))
             (audit svc env USER_PASSWORD_CHANGED
               (auth_details (Some (sp_user_id actor)) (Some (sp_session_id actor)) ''user'' (sp_user_id actor))))))))))"

section \<open>Break-glass commands\<close>

definition sole_owner :: "db \<Rightarrow> user_row option \<Rightarrow> bool" where
  "sole_owner db user \<longleftrightarrow>
     (case user of
        None \<Rightarrow> False
      | Some u \<Rightarrow> u_role u = OWNER \<and> u_status u = US_ACTIVE \<and> count_active_owners db = 1)"

definition sole_owner_error :: auth_error where
  "sole_owner_error =
     AuthValueError ''break-glass is allowed only for the sole active OWNER; use another OWNER''"

definition break_glass_reset_mfa ::
    "auth_service \<Rightarrow> env \<Rightarrow> string \<Rightarrow> string \<Rightarrow> db \<Rightarrow> (auth_error + user_row) \<times> db" where
  "break_glass_reset_mfa svc env username confirmation =
     (let normalized = canonical_username username;
          expected = ''RESET MFA FOR '' @ normalized
      in unit_of_work
        (tx_then (tx_guard (confirmation = expected) (AuthValueError (''confirmation must exactly match: '' @ expected)))
        (tx_bind (tx_read (\<lambda>db. (find_user_by_username normalized db, sole_owner db (find_user_by_username normalized db))))
          (\<lambda>(found, sole). case found of
             None \<Rightarrow> tx_raise sole_owner_error
           | Some user \<Rightarrow>
               tx_then (tx_guard sole sole_owner_error)
              (tx_then (tx_write (reset_mfa (u_id user) (e_now env)))
              (tx_then (tx_write (audit_append env USER_MFA_BREAK_GLASS AO_SUCCEEDED SRC_CLI
                          (auth_details (Some (u_id user)) None ''user'' (u_id user))))
                 (tx_return (user\<lparr>u_mfa_enrollment_required := True, u_version := u_version user + 1,
                                  u_updated_at := e_now env\<rparr>))))))))"

definition break_glass_reset_password ::
    "auth_service \<Rightarrow> env \<Rightarrow> string \<Rightarrow> string \<Rightarrow> string \<Rightarrow> db \<Rightarrow> (auth_error + user_row) \<times> db" where
  "break_glass_reset_password svc env username confirmation new_password =
     (let normalized = canonical_username username;
          expected = ''RESET PASSWORD FOR '' @ normalized
      in unit_of_work
        (tx_then (tx_check (validate_username normalized))
        (tx_then (tx_guard (confirmation = expected) (AuthValueError (''confirmation must exactly match: '' @ expected)))
        (tx_then (tx_check (validate_password new_password))
        (tx_bind (tx_read (\<lambda>db. (find_user_by_username normalized db, sole_owner db (find_user_by_username normalized db))))
          (\<lambda>(found, sole). case found of
             None \<Rightarrow> tx_raise sole_owner_error
           | Some user \<Rightarrow>
               tx_then (tx_guard sole sole_owner_error)
              (tx_then (tx_write (update_password_hash (u_id user)
                          (hash_password (as_hash svc) new_password) (e_now env)))
              (tx_then (tx_write (delete_user_sessions (u_id user)))
              (tx_then (tx_write (audit_append env USER_PASSWORD_CHANGED AO_SUCCEEDED SRC_CLI
                          (auth_details (Some (u_id user)) None ''user'' (u_id user))))
                 (tx_return (user\<lparr>u_version := u_version user + 1, u_updated_at := e_now env\<rparr>)))))))))))"

section \<open>Requests\<close>

definition resolve :: "auth_service \<Rightarrow> env \<Rightarrow> string \<Rightarrow> db \<Rightarrow> auth_error + session_principal" where
  "resolve svc env session_token db =
     (case resolve_session (hash_token (as_hash svc) session_token) (e_now env) db of
        None \<Rightarrow> Inl InvalidSession
      | Some p \<Rightarrow>
          if set_totp_enabled (as_cfg svc) \<and>
             (sp_mfa_enrollment_required p \<or>
              (sp_role p \<in> MFA_REQUIRED_ROLES \<and> \<not> sp_mfa_enabled p) \<or>
              (sp_mfa_enabled p \<and> sp_mfa_verified_at p = None))
          then Inl InvalidSession else Inr p)"

definition logout :: "auth_service \<Rightarrow> env \<Rightarrow> session_principal \<Rightarrow> db \<Rightarrow> (auth_error + unit) \<times> db" where
  "logout svc env actor =
     unit_of_work
       (tx_then (tx_write (delete_session (sp_session_id actor)))
          (audit svc env AUTH_LOGOUT_SUCCEEDED
             (auth_details (Some (sp_user_id actor)) (Some (sp_session_id actor)) ''session'' (sp_session_id actor))))"

definition require_csrf :: "auth_service \<Rightarrow> session_principal \<Rightarrow> string \<Rightarrow> auth_error + unit" where
  "require_csrf svc actor csrf_token =
     (if token_matches (as_hash svc) csrf_token (sp_csrf_hash actor) then Inr () else Inl CsrfValidation)"

definition purge_expired ::
    "auth_service \<Rightarrow> env \<Rightarrow> bool \<Rightarrow> db \<Rightarrow> (auth_error + nat \<times> nat) \<times> db" where
  "purge_expired svc env dry_run =
     unit_of_work
       (if dry_run then tx_read (count_expired (e_now env))
        else tx_bind (tx_query (purge_expired_rows (e_now env))) (\<lambda>result.
               tx_then (tx_write (audit_append env AUTH_PURGE_COMPLETED AO_SUCCEEDED SRC_CLI no_details))
                 (tx_return result)))"

end
