(* ===== verification/Auth_Invariant.thy ===== *)
theory Auth_Invariant
  imports Auth_Service Executions
begin

text \<open>
  The invariant of the authentication tables: unique keys, sessions, challenges and factors of existing
  users, passwords of active users, at most one live activation token per user, and an active owner as
  soon as there is a user. Every operation of \<open>AuthService\<close> keeps it.
\<close>

section \<open>The invariant\<close>

definition users_ok :: "user_row list \<Rightarrow> bool" where
  "users_ok us \<longleftrightarrow> distinct (map u_id us) \<and> distinct (map (\<lambda>u. casefold (u_username u)) us) \<and>
     (\<forall>u \<in> set us. u_status u = US_ACTIVE \<longrightarrow> u_password_hash u \<noteq> None \<and> u_password_updated_at u \<noteq> None)"

definition sessions_ok :: "uuid set \<Rightarrow> session_row list \<Rightarrow> bool" where
  "sessions_ok ids ss \<longleftrightarrow> distinct (map s_id ss) \<and> distinct (map s_token_hash ss) \<and> (\<forall>s \<in> set ss. s_user_id s \<in> ids)"

definition challenges_ok :: "uuid set \<Rightarrow> challenge_row list \<Rightarrow> bool" where
  "challenges_ok ids cs \<longleftrightarrow> distinct (map ch_id cs) \<and> distinct (map ch_token_hash cs) \<and> (\<forall>c \<in> set cs. ch_user_id c \<in> ids)"

definition factors_ok :: "uuid set \<Rightarrow> mfa_factor list \<Rightarrow> bool" where
  "factors_ok ids fs \<longleftrightarrow> distinct (map mf_user_id fs) \<and> (\<forall>f \<in> set fs. mf_user_id f \<in> ids)"

definition codes_ok :: "uuid set \<Rightarrow> recovery_code list \<Rightarrow> bool" where
  "codes_ok ids cs \<longleftrightarrow> distinct (map rc_id cs) \<and> distinct (map (\<lambda>c. (rc_user_id c, rc_code_hash c)) cs) \<and>
     (\<forall>c \<in> set cs. rc_user_id c \<in> ids)"

definition tokens_ok :: "uuid set \<Rightarrow> activation_token list \<Rightarrow> bool" where
  "tokens_ok ids ts \<longleftrightarrow> distinct (map at_id ts) \<and> distinct (map at_token_hash ts) \<and>
     distinct (map at_user_id (filter (\<lambda>t. at_consumed_at t = None) ts)) \<and> (\<forall>t \<in> set ts. at_user_id t \<in> ids)"

definition limit_key :: "rate_limit \<Rightarrow> string \<times> string \<times> timestamp" where
  "limit_key l = (rl_scope l, rl_subject_hash l, rl_window_started_at l)"

definition limits_ok :: "rate_limit list \<Rightarrow> bool" where
  "limits_ok ls \<longleftrightarrow> distinct (map limit_key ls) \<and> (\<forall>l \<in> set ls. 1 \<le> rl_attempt_count l)"

definition auth_keys :: "db \<Rightarrow> bool" where
  "auth_keys db \<longleftrightarrow> (let ids = u_id ` set (users db) in
     users_ok (users db) \<and> sessions_ok ids (sessions db) \<and> challenges_ok ids (auth_challenges db) \<and>
     factors_ok ids (user_mfa_factors db) \<and> codes_ok ids (user_recovery_codes db) \<and>
     tokens_ok ids (user_activation_tokens db) \<and> limits_ok (auth_rate_limits db))"

definition owner_ok :: "db \<Rightarrow> bool" where
  "owner_ok db \<longleftrightarrow> users db = [] \<or> count_active_owners db \<noteq> 0"

definition auth_inv :: "db \<Rightarrow> bool" where
  "auth_inv db \<longleftrightarrow> auth_keys db \<and> owner_ok db"

section \<open>Tables\<close>

lemma ids_update_where [simp]:
  "(\<And>u. u_id (f u) = u_id u) \<Longrightarrow> u_id ` set (update_where P f us) = u_id ` set us"
  by (metis map_key_update_where set_map)

lemma users_ok_append: "users_ok us \<Longrightarrow> u_id u \<notin> u_id ` set us \<Longrightarrow>
    casefold (u_username u) \<notin> (\<lambda>u. casefold (u_username u)) ` set us \<Longrightarrow>
    (u_status u = US_ACTIVE \<longrightarrow> u_password_hash u \<noteq> None \<and> u_password_updated_at u \<noteq> None) \<Longrightarrow> users_ok (us @ [u])"
  by (auto simp: users_ok_def)

lemma users_ok_update:
  assumes "users_ok us" and "\<And>u. u_id (f u) = u_id u" and "\<And>u. u_username (f u) = u_username u"
    and "\<And>u. u \<in> set us \<Longrightarrow> P u \<Longrightarrow> u_status (f u) = US_ACTIVE \<Longrightarrow>
      u_password_hash (f u) \<noteq> None \<and> u_password_updated_at (f u) \<noteq> None"
  shows "users_ok (update_where P f us)"
proof -
  have "map u_id (update_where P f us) = map u_id us" by (rule map_key_update_where) (use assms(2) in auto)
  moreover have "map (\<lambda>u. casefold (u_username u)) (update_where P f us) = map (\<lambda>u. casefold (u_username u)) us"
    by (rule map_key_update_where) (use assms(3) in auto)
  ultimately show ?thesis using assms(1,4) by (auto simp: users_ok_def set_update_where)
qed

lemma sessions_ok_delete: "sessions_ok ids ss \<Longrightarrow> sessions_ok ids (delete_where P ss)"
  by (auto simp: sessions_ok_def distinct_map_delete_where set_delete_where)

lemma get_user_ids: "get_user i db \<noteq> None \<longleftrightarrow> i \<in> u_id ` set (users db)"
  by (auto simp: get_user_def fetch_one_None_iff)

lemma ok_mono:
  "sessions_ok ids ss \<Longrightarrow> ids \<subseteq> ids' \<Longrightarrow> sessions_ok ids' ss"
  "challenges_ok ids cs \<Longrightarrow> ids \<subseteq> ids' \<Longrightarrow> challenges_ok ids' cs"
  "factors_ok ids fs \<Longrightarrow> ids \<subseteq> ids' \<Longrightarrow> factors_ok ids' fs"
  "codes_ok ids rs \<Longrightarrow> ids \<subseteq> ids' \<Longrightarrow> codes_ok ids' rs"
  "tokens_ok ids ts \<Longrightarrow> ids \<subseteq> ids' \<Longrightarrow> tokens_ok ids' ts"
  by (auto simp: sessions_ok_def challenges_ok_def factors_ok_def codes_ok_def tokens_ok_def)

text \<open>Changing one table keeps the invariant when the table stays well-formed.\<close>

lemma auth_keysD:
  assumes "auth_keys db"
  shows "users_ok (users db)" "sessions_ok (u_id ` set (users db)) (sessions db)"
    "challenges_ok (u_id ` set (users db)) (auth_challenges db)" "factors_ok (u_id ` set (users db)) (user_mfa_factors db)"
    "codes_ok (u_id ` set (users db)) (user_recovery_codes db)" "tokens_ok (u_id ` set (users db)) (user_activation_tokens db)"
    "limits_ok (auth_rate_limits db)"
  using assms by (simp_all add: auth_keys_def Let_def)

lemma auth_keys_users:
  assumes "auth_keys db" and "users_ok us" and "u_id ` set (users db) \<subseteq> u_id ` set us"
  shows "auth_keys (db\<lparr>users := us\<rparr>)"
  using assms auth_keysD [OF assms(1)] ok_mono by (simp add: auth_keys_def Let_def)

lemma owner_ok_cong: "users db' = users db \<Longrightarrow> owner_ok db' = owner_ok db"
  by (simp add: owner_ok_def count_active_owners_def)

lemma auth_inv_table:
  assumes "auth_inv db"
  shows "sessions_ok (u_id ` set (users db)) ss \<Longrightarrow> auth_inv (db\<lparr>sessions := ss\<rparr>)"
    "challenges_ok (u_id ` set (users db)) cs \<Longrightarrow> auth_inv (db\<lparr>auth_challenges := cs\<rparr>)"
    "factors_ok (u_id ` set (users db)) fs \<Longrightarrow> auth_inv (db\<lparr>user_mfa_factors := fs\<rparr>)"
    "codes_ok (u_id ` set (users db)) rs \<Longrightarrow> auth_inv (db\<lparr>user_recovery_codes := rs\<rparr>)"
    "tokens_ok (u_id ` set (users db)) ts \<Longrightarrow> auth_inv (db\<lparr>user_activation_tokens := ts\<rparr>)"
    "limits_ok ls \<Longrightarrow> auth_inv (db\<lparr>auth_rate_limits := ls\<rparr>)"
  using assms by (simp_all add: auth_inv_def auth_keys_def Let_def owner_ok_def count_active_owners_def)

lemma auth_inv_users:
  assumes "auth_inv db" and "users_ok us"
    and "map (\<lambda>u. (u_id u, u_role u, u_status u)) us = map (\<lambda>u. (u_id u, u_role u, u_status u)) (users db)"
  shows "auth_inv (db\<lparr>users := us\<rparr>)"
proof -
  have "map fst (map (\<lambda>u. (u_id u, u_role u, u_status u)) us) = map fst (map (\<lambda>u. (u_id u, u_role u, u_status u)) (users db))"
    using assms(3) by simp
  then have "map u_id us = map u_id (users db)" by (simp add: comp_def)
  then have "u_id ` set us = u_id ` set (users db)" by (metis set_map)
  moreover have count: "length (filter (\<lambda>u. u_role u = OWNER \<and> u_status u = US_ACTIVE) xs) =
      length (filter (\<lambda>(i, r, s). r = OWNER \<and> s = US_ACTIVE) (map (\<lambda>u. (u_id u, u_role u, u_status u)) xs))" for xs
    by (induction xs) auto
  have "count_active_owners (db\<lparr>users := us\<rparr>) = count_active_owners db"
    unfolding count_active_owners_def count by (simp add: assms(3) del: length_filter_map filter_map)
  moreover have "us = [] \<longleftrightarrow> users db = []" using \<open>map u_id us = map u_id (users db)\<close> by (metis Nil_is_map_conv)
  ultimately show ?thesis using assms(1,2) by (simp add: auth_inv_def auth_keys_users owner_ok_def)
qed

lemma auth_inv_audit [simp]: "auth_inv (audit_append env act outcome src d db) = auth_inv db"
  by (simp add: auth_inv_def auth_keys_def Let_def owner_ok_def count_active_owners_def)

section \<open>Statements\<close>

lemma keeps_audit [keeping]: "keeps auth_inv (audit svc env act d)" "keeps auth_inv (tx_write (audit_append env act outcome src d))"
  by (auto simp: audit_def)

lemma auth_inv_user_fields:
  assumes "auth_inv db" and "\<And>u. u_id (f u) = u_id u \<and> u_username (f u) = u_username u \<and> u_role (f u) = u_role u \<and>
      u_status (f u) = u_status u"
    and "\<And>u. u_password_hash u \<noteq> None \<and> u_password_updated_at u \<noteq> None \<Longrightarrow>
      u_password_hash (f u) \<noteq> None \<and> u_password_updated_at (f u) \<noteq> None"
  shows "auth_inv (db\<lparr>users := update_where P f (users db)\<rparr>)"
proof (rule auth_inv_users [OF assms(1)])
  show "users_ok (update_where P f (users db))"
    using assms by (intro users_ok_update) (auto simp: auth_inv_def users_ok_def dest!: auth_keysD(1))
  show "map (\<lambda>u. (u_id u, u_role u, u_status u)) (update_where P f (users db)) = map (\<lambda>u. (u_id u, u_role u, u_status u)) (users db)"
    by (rule map_key_update_where) (use assms(2) in auto)
qed

lemma keeps_password [keeping]: "keeps auth_inv (tx_write (update_password_hash i h t))"
  by (intro keeps_write) (auto simp: update_password_hash_def intro: auth_inv_user_fields)

lemma auth_inv_delete_sessions: "auth_inv db \<Longrightarrow> auth_inv (db\<lparr>sessions := delete_where P (sessions db)\<rparr>)"
  by (rule auth_inv_table(1)) (auto simp: auth_inv_def intro: sessions_ok_delete dest: auth_keysD(2))

lemma keeps_delete_sessions [keeping]:
  "keeps auth_inv (tx_write (delete_session i))" "keeps auth_inv (tx_write (delete_user_sessions i))"
  by (intro keeps_write; simp add: delete_session_def delete_user_sessions_def auth_inv_delete_sessions)+

lemma keeps_add_session [keeping]: "keeps auth_inv (add_session s)"
proof (rule keepsI)
  fix db a db' assume inv: "auth_inv db" and "add_session s db = Inr (a, db')"
  then have db': "db' = db\<lparr>sessions := sessions db @ [s]\<rparr>" and "get_user (s_user_id s) db \<noteq> None"
    "\<forall>x \<in> set (sessions db). s_id x \<noteq> s_id s \<and> s_token_hash x \<noteq> s_token_hash s"
    by (auto simp: add_session_def split: if_splits)
  then have "sessions_ok (u_id ` set (users db)) (sessions db @ [s])"
    using inv unfolding get_user_ids by (auto simp: auth_inv_def sessions_ok_def dest!: auth_keysD(2))
  then show "auth_inv db'" using auth_inv_table(1) [OF inv] db' by simp
qed

lemma keeps_add_challenge [keeping]: "keeps auth_inv (add_challenge c)"
proof (rule keepsI)
  fix db a db' assume inv: "auth_inv db" and "add_challenge c db = Inr (a, db')"
  then have db': "db' = db\<lparr>auth_challenges := auth_challenges db @ [c]\<rparr>" and "get_user (ch_user_id c) db \<noteq> None"
    "\<forall>x \<in> set (auth_challenges db). ch_id x \<noteq> ch_id c \<and> ch_token_hash x \<noteq> ch_token_hash c"
    by (auto simp: add_challenge_def split: if_splits)
  then have "challenges_ok (u_id ` set (users db)) (auth_challenges db @ [c])"
    using inv unfolding get_user_ids by (auto simp: auth_inv_def challenges_ok_def dest!: auth_keysD(3))
  then show "auth_inv db'" using auth_inv_table(2) [OF inv] db' by simp
qed

lemma ok_update:
  "sessions_ok ids ss \<Longrightarrow> (\<And>s. s_id (g s) = s_id s \<and> s_token_hash (g s) = s_token_hash s \<and> s_user_id (g s) = s_user_id s) \<Longrightarrow>
     sessions_ok ids (update_where P1 g ss)"
  "challenges_ok ids cs \<Longrightarrow> (\<And>c. ch_id (h c) = ch_id c \<and> ch_token_hash (h c) = ch_token_hash c \<and> ch_user_id (h c) = ch_user_id c) \<Longrightarrow>
     challenges_ok ids (update_where P2 h cs)"
  "factors_ok ids fs \<Longrightarrow> (\<And>f. mf_user_id (k f) = mf_user_id f) \<Longrightarrow> factors_ok ids (update_where P3 k fs)"
  "codes_ok ids rs \<Longrightarrow> (\<And>r. rc_id (m r) = rc_id r \<and> rc_user_id (m r) = rc_user_id r \<and> rc_code_hash (m r) = rc_code_hash r) \<Longrightarrow>
     codes_ok ids (update_where P4 m rs)"
  by (auto simp: sessions_ok_def challenges_ok_def factors_ok_def codes_ok_def map_key_update_where set_update_where)

lemma keeps_elevate [keeping]: "keeps auth_inv (tx_query (elevate_session i t e))"
  by (rule keeps_query)
    (auto simp: elevate_session_def Let_def auth_inv_def intro!: auth_inv_table(1) [unfolded auth_inv_def] ok_update(1)
      dest: auth_keysD(2))

lemma keeps_mark_challenge [keeping]: "keeps auth_inv (tx_query (mark_challenge_consumed i t))"
  by (rule keeps_query)
    (auto simp: mark_challenge_consumed_def Let_def auth_inv_def intro!: auth_inv_table(2) [unfolded auth_inv_def] ok_update(2)
      dest: auth_keysD(3))

lemma keeps_accept_step [keeping]: "keeps auth_inv (tx_query (accept_totp_step i n t))"
  by (rule keeps_query)
    (auto simp: accept_totp_step_def Let_def auth_inv_def intro!: auth_inv_table(3) [unfolded auth_inv_def] ok_update(3)
      dest: auth_keysD(4))

lemma keeps_consume_code [keeping]: "keeps auth_inv (tx_query (consume_recovery_code i h t))"
  by (rule keeps_query)
    (auto simp: consume_recovery_code_def auth_inv_def intro!: auth_inv_table(4) [unfolded auth_inv_def] ok_update(4)
      dest: auth_keysD(5))

lemma keeps_put_factor [keeping]: "keeps auth_inv (put_mfa_factor f)"
proof (rule keepsI)
  fix db a db' assume inv: "auth_inv db" and put: "put_mfa_factor f db = Inr (a, db')"
  have ok: "factors_ok (u_id ` set (users db)) (user_mfa_factors db)" using inv by (simp add: auth_inv_def auth_keysD)
  have user: "mf_user_id f \<in> u_id ` set (users db)"
    using put get_user_ids [of "mf_user_id f" db] by (auto simp: put_mfa_factor_def split: if_splits)
  show "auth_inv db'"
  proof (cases "get_mfa_factor (mf_user_id f) db")
    case None
    then have "factors_ok (u_id ` set (users db)) (user_mfa_factors db @ [f])"
      using ok user by (auto simp: factors_ok_def get_mfa_factor_def fetch_one_None_iff)
    then show ?thesis using put None auth_inv_table(3) [OF inv] by (auto simp: put_mfa_factor_def split: if_splits)
  next
    case (Some f0)
    then show ?thesis using put auth_inv_table(3) [OF inv] ok_update(3) [OF ok]
      by (auto simp: put_mfa_factor_def split: if_splits)
  qed
qed

lemma keeps_confirm_factor [keeping]: "keeps auth_inv (tx_write (confirm_mfa_factor i t))"
proof (rule keeps_write)
  fix db assume inv: "auth_inv db"
  let ?fs = "update_where (\<lambda>f. mf_user_id f = i) (\<lambda>f. f\<lparr>mf_confirmed_at := Some t, mf_updated_at := t\<rparr>) (user_mfa_factors db)"
  have "auth_inv (db\<lparr>user_mfa_factors := ?fs\<rparr>)"
    using inv by (intro auth_inv_table(3) ok_update(3)) (auto simp: auth_inv_def dest: auth_keysD)
  from auth_inv_user_fields [OF this] show "auth_inv (confirm_mfa_factor i t db)" by (simp add: confirm_mfa_factor_def)
qed

lemma keeps_reset_mfa [keeping]: "keeps auth_inv (tx_write (reset_mfa i t))"
proof (rule keeps_write)
  fix db assume inv: "auth_inv db"
  let ?rs = "delete_where (\<lambda>c. rc_user_id c = i) (user_recovery_codes db)"
  let ?fs = "delete_where (\<lambda>f. mf_user_id f = i) (user_mfa_factors db)"
  have rs: "auth_inv (db\<lparr>user_recovery_codes := ?rs\<rparr>)"
    using inv by (intro auth_inv_table(4)) (auto simp: auth_inv_def codes_ok_def distinct_map_delete_where dest!: auth_keysD(5))
  have fs: "auth_inv (db\<lparr>user_recovery_codes := ?rs, user_mfa_factors := ?fs\<rparr>)"
    using auth_inv_table(3) [OF rs] inv by (auto simp: auth_inv_def factors_ok_def distinct_map_delete_where dest!: auth_keysD(4))
  from auth_inv_user_fields [OF auth_inv_delete_sessions [OF fs, of "\<lambda>s. s_user_id s = i"]]
  show "auth_inv (reset_mfa i t db)" by (simp add: reset_mfa_def)
qed

lemma codes_ok_append:
  assumes "codes_ok ids kept" and "\<forall>c \<in> set kept. rc_user_id c \<noteq> i"
    and "\<forall>c \<in> set new. rc_user_id c = i" and "distinct (map rc_id new)" and "distinct (map rc_code_hash new)"
    and "set (map rc_id new) \<inter> set (map rc_id kept) = {}" and "new \<noteq> [] \<Longrightarrow> i \<in> ids"
  shows "codes_ok ids (kept @ new)"
proof -
  have "distinct (map (\<lambda>c. (rc_user_id c, rc_code_hash c)) new)"
    using assms(5) by (auto simp: distinct_map inj_on_def)
  moreover have "new \<noteq> []" if "c \<in> set new" for c using that by auto
  ultimately show ?thesis using assms unfolding codes_ok_def map_append distinct_append by (fastforce simp: disjoint_iff)
qed

lemma keeps_replace_codes [keeping]: "keeps auth_inv (replace_recovery_codes i rows t)"
proof (rule keepsI)
  fix db a db' assume inv: "auth_inv db" and put: "replace_recovery_codes i rows t db = Inr (a, db')"
  let ?kept = "delete_where (\<lambda>c. rc_user_id c = i) (user_recovery_codes db)"
  let ?row = "\<lambda>(j, h). \<lparr>rc_id = j, rc_user_id = i, rc_code_hash = h, rc_used_at = None, rc_created_at = t\<rparr>"
  have db': "db' = db\<lparr>user_recovery_codes := ?kept @ map ?row rows\<rparr>"
    and rows: "distinct (map fst rows)" "distinct (map snd rows)" "set (map fst rows) \<inter> set (map rc_id ?kept) = {}"
      "rows \<noteq> [] \<Longrightarrow> i \<in> u_id ` set (users db)"
    using put get_user_ids [of i db] by (auto simp: replace_recovery_codes_def Let_def split: if_splits)
  let ?new = "map ?row rows"
  have new: "map rc_id ?new = map fst rows" "map rc_code_hash ?new = map snd rows" "\<forall>c \<in> set ?new. rc_user_id c = i"
    by (auto simp: split_def)
  have kept: "codes_ok (u_id ` set (users db)) ?kept" "\<forall>c \<in> set ?kept. rc_user_id c \<noteq> i"
    using inv by (auto simp: auth_inv_def codes_ok_def distinct_map_delete_where dest!: auth_keysD(5))
  have "codes_ok (u_id ` set (users db)) (?kept @ ?new)"
  proof (rule codes_ok_append [OF kept new(3)])
    show "distinct (map rc_id ?new)" "distinct (map rc_code_hash ?new)" using rows(1,2) by (simp_all only: new)
    show "set (map rc_id ?new) \<inter> set (map rc_id ?kept) = {}" using rows(3) by (simp only: new)
    show "i \<in> u_id ` set (users db)" if "?new \<noteq> []" using that rows(4) by simp
  qed
  then show "auth_inv db'" using auth_inv_table(4) [OF inv] db' by simp
qed

lemma keeps_insert_user:
  assumes "u_status u = US_ACTIVE \<longrightarrow> u_password_hash u \<noteq> None \<and> u_password_updated_at u \<noteq> None"
    and "auth_inv db" and "insert_user u db = Inr (a, db')"
    and "users db \<noteq> [] \<or> u_role u = OWNER \<and> u_status u = US_ACTIVE"
  shows "auth_inv db'"
proof -
  have db': "db' = db\<lparr>users := users db @ [u]\<rparr>"
    and new: "u_id u \<notin> u_id ` set (users db)" "casefold (u_username u) \<notin> (\<lambda>u. casefold (u_username u)) ` set (users db)"
    using assms(3) by (auto simp: insert_user_def user_key_taken_def split: if_splits)
  have "auth_keys db'"
    using assms(1,2) new unfolding db' by (intro auth_keys_users users_ok_append) (auto simp: auth_inv_def dest: auth_keysD)
  moreover have "owner_ok db'" using assms(2,4) by (auto simp: db' auth_inv_def owner_ok_def count_active_owners_def)
  ultimately show ?thesis by (simp add: auth_inv_def)
qed

lemma auth_inv_deletions:
  assumes "auth_inv db"
  shows "auth_inv (db\<lparr>auth_rate_limits := delete_where P (auth_rate_limits db)\<rparr>)"
    and "auth_inv (db\<lparr>auth_challenges := delete_where Q (auth_challenges db)\<rparr>)"
    and "auth_inv (db\<lparr>user_activation_tokens := delete_where R (user_activation_tokens db)\<rparr>)"
proof -
  have "distinct (map at_user_id (filter L (delete_where R ts)))" if "distinct (map at_user_id (filter L ts))" for L ts
    using distinct_map_delete_where [OF that, of R] by (simp add: delete_where_def conj_commute)
  then have "limits_ok (delete_where P (auth_rate_limits db))"
    "challenges_ok (u_id ` set (users db)) (delete_where Q (auth_challenges db))"
    "tokens_ok (u_id ` set (users db)) (delete_where R (user_activation_tokens db))"
    using assms auth_keysD(3,6,7) [of db]
    by (auto simp: auth_inv_def limits_ok_def challenges_ok_def tokens_ok_def distinct_map_delete_where)
  then show "auth_inv (db\<lparr>auth_rate_limits := delete_where P (auth_rate_limits db)\<rparr>)"
    "auth_inv (db\<lparr>auth_challenges := delete_where Q (auth_challenges db)\<rparr>)"
    "auth_inv (db\<lparr>user_activation_tokens := delete_where R (user_activation_tokens db)\<rparr>)"
    using auth_inv_table [OF assms] by auto
qed

lemma keeps_clear_limit [keeping]: "keeps auth_inv (tx_write (clear_rate_limit sc h w))"
  by (rule keeps_write) (simp add: clear_rate_limit_def auth_inv_deletions)

lemma consume_rate_limit_inv: "auth_inv db \<Longrightarrow> auth_inv (snd (consume_rate_limit_row sc h w e db))"
proof -
  assume inv: "auth_inv db"
  then have ok: "limits_ok (auth_rate_limits db)" by (simp add: auth_inv_def auth_keysD)
  have "limits_ok (update_where P (\<lambda>l. l\<lparr>rl_attempt_count := rl_attempt_count l + 1, rl_expires_at := e\<rparr>) (auth_rate_limits db))" for P
    using ok by (auto simp: limits_ok_def map_key_update_where limit_key_def set_update_where)
  moreover have "limits_ok (auth_rate_limits db @ [\<lparr>rl_scope = sc, rl_subject_hash = h, rl_window_started_at = w,
      rl_attempt_count = 1, rl_expires_at = e\<rparr>])" if "fetch_one (same_bucket sc h w) (auth_rate_limits db) = None"
    using ok that by (auto simp: limits_ok_def limit_key_def fetch_one_None_iff same_bucket_def)
  ultimately show ?thesis
    using auth_inv_table(6) [OF inv] by (simp add: consume_rate_limit_row_def Let_def split: option.splits)
qed

lemma keeps_purge [keeping]: "keeps auth_inv (tx_query (purge_expired_rows now))"
proof (rule keeps_query)
  fix db assume "auth_inv db"
  from auth_inv_deletions(3) [OF auth_inv_deletions(2) [OF auth_inv_deletions(1) [OF auth_inv_delete_sessions [OF this]]]]
  show "auth_inv (snd (purge_expired_rows now db))" by (simp add: purge_expired_rows_def)
qed

lemma consume_tokens_inv:
  assumes "auth_inv db"
  shows "auth_inv (db\<lparr>user_activation_tokens :=
    update_where P (\<lambda>x. x\<lparr>at_consumed_at := Some t\<rparr>) (user_activation_tokens db)\<rparr>)"
proof (rule auth_inv_table(5) [OF assms])
  let ?f = "\<lambda>x. x\<lparr>at_consumed_at := Some t\<rparr>"
  have "filter (\<lambda>t. at_consumed_at t = None) (update_where P ?f ts) =
      filter (\<lambda>t. \<not> P t) (filter (\<lambda>t. at_consumed_at t = None) ts)" for ts
    by (induction ts) auto
  moreover have "tokens_ok (u_id ` set (users db)) (user_activation_tokens db)"
    using assms by (simp add: auth_inv_def auth_keysD)
  ultimately show "tokens_ok (u_id ` set (users db)) (update_where P ?f (user_activation_tokens db))"
    by (auto simp: tokens_ok_def map_key_update_where set_update_where distinct_map_filter simp del: filter_filter)
qed

lemma keeps_tokens [keeping]:
  "keeps auth_inv (tx_write (invalidate_activation_tokens i t))" "keeps auth_inv (tx_query (consume_activation_token h t))"
proof -
  show "keeps auth_inv (tx_write (invalidate_activation_tokens i t))"
    by (rule keeps_write) (simp add: invalidate_activation_tokens_def consume_tokens_inv)
  show "keeps auth_inv (tx_query (consume_activation_token h t))"
    by (rule keeps_query) (simp add: consume_activation_token_def Let_def consume_tokens_inv split: option.splits)
qed

lemma keeps_add_token [keeping]: "keeps auth_inv (add_activation_token tok)"
proof (rule keepsI)
  fix db a db' assume inv: "auth_inv db" and add: "add_activation_token tok db = Inr (a, db')"
  have "tokens_ok (u_id ` set (users db)) (user_activation_tokens db)" using inv by (simp add: auth_inv_def auth_keysD)
  moreover have "at_user_id tok \<in> u_id ` set (users db)"
    using add get_user_ids [of "at_user_id tok" db] by (auto simp: add_activation_token_def split: if_splits)
  ultimately have "tokens_ok (u_id ` set (users db)) (user_activation_tokens db @ [tok])"
    using add by (auto simp: add_activation_token_def tokens_ok_def split: if_splits)
  then show "auth_inv db'"
    using add auth_inv_table(5) [OF inv] by (auto simp: add_activation_token_def split: if_splits)
qed

section \<open>Operations\<close>

lemma keeps_prod [keeping]: "(\<And>a b. keeps P (f a b)) \<Longrightarrow> keeps P (case x of (a, b) \<Rightarrow> f a b)"
  by (cases x) auto

lemma keeps_issue [keeping]: "keeps auth_inv (issue svc env fresh user m v e)"
  unfolding issue_def Let_def by (intro keeping)

lemma keeps_enroll [keeping]: "keeps auth_inv (enroll_factor svc env fresh user)"
  unfolding enroll_factor_def Let_def by (intro keeping)

lemma keeps_issue_challenge [keeping]: "keeps auth_inv (issue_challenge svc env fresh user p b)"
  unfolding issue_challenge_def by (intro keeping)

lemma keeps_verify_mfa [keeping]: "keeps auth_inv (verify_mfa_value svc env factor value allow)"
  unfolding verify_mfa_value_def by (intro keeping)

lemma keeps_finish_enrollment [keeping]: "keeps auth_inv (finish_enrollment svc env fresh user factor value)"
  unfolding finish_enrollment_def by (intro keeping)

lemma keeps_login_body: "keeps auth_inv (login_body svc env fresh name password bucket)"
  unfolding login_body_def login_result_def Let_def by (intro keeping)

lemma keeps_complete_mfa: "keeps auth_inv (complete_mfa_body svc env fresh tok value p)"
  unfolding complete_mfa_body_def pass_second_factor_def replace_sessions_def by (intro keeping)

lemma keeps_reauth_factor [keeping]: "keeps auth_inv (reauthenticate_factor svc env actor value)"
  unfolding reauthenticate_factor_def by (intro keeping)

lemma keeps_manage [keeping]: "keeps P (manage_users env actor)"
  unfolding manage_users_def by (intro keeping)

lemma owner_ok_iff: "owner_ok db \<longleftrightarrow> users db = [] \<or> (\<exists>u \<in> set (users db). u_role u = OWNER \<and> u_status u = US_ACTIVE)"
  by (auto simp: owner_ok_def count_active_owners_def filter_empty_conv)

lemma keeps_activate_user [keeping]: "keeps auth_inv (activate_user i h m t)"
proof (rule keepsI)
  fix db a db' assume inv: "auth_inv db" and act: "activate_user i h m t db = Inr (a, db')"
  let ?hit = "\<lambda>u. u_id u = i \<and> u_status u = PENDING_ACTIVATION"
  have db': "db' = db\<lparr>users := update_where ?hit (activated_user h m t) (users db)\<rparr>"
    using act by (auto simp: activate_user_def Let_def split: option.splits)
  have "auth_keys db'"
    using inv unfolding db' by (intro auth_keys_users users_ok_update) (auto simp: auth_inv_def activated_user_def dest: auth_keysD)
  moreover have "owner_ok db'"
  proof (cases "users db = []")
    case False
    then obtain u where "u \<in> set (users db)" "u_role u = OWNER" "u_status u = US_ACTIVE"
      using inv by (auto simp: auth_inv_def owner_ok_iff)
    then have "u \<in> set (users db')" by (auto simp: db' set_update_where intro!: bexI [of _ u])
    then show ?thesis using \<open>u_role u = OWNER\<close> \<open>u_status u = US_ACTIVE\<close> by (auto simp: owner_ok_iff)
  qed (simp add: db' owner_ok_iff)
  ultimately show "auth_inv db'" by (simp add: auth_inv_def)
qed

lemma keeps_enforce [keeping]: "keeps P enforce_active_owner"
  by (auto simp: keeps_def enforce_active_owner_def split: if_splits)

lemma change_user_body_InrD:
  assumes "change_user_body svc env actor i role status v db = Inr (u, db')"
  shows "\<exists>before db1. get_user i db = Some before \<and> status_change_allowed before status \<and>
     update_user i role status v (e_now env) db = Inr (Some u, db1) \<and> count_active_owners db1 \<noteq> 0 \<and>
     db' = audit_append env (user_update_action before role status) AO_SUCCEEDED (as_source svc)
       (auth_details (Some (sp_user_id actor)) (Some (sp_session_id actor)) ''user'' i) (delete_user_sessions i db1)"
  using assms
  by (auto simp: change_user_body_def manage_users_def tx_Inr_iff audit_def enforce_active_owner_def count_active_owners_def
      delete_user_sessions_def split: option.splits if_splits)

lemma update_user_keys:
  assumes "auth_keys db" and "update_user i role status v t db = Inr (Some u, db1)"
  shows "auth_keys db1"
proof -
  let ?hit = "\<lambda>u. u_id u = i \<and> u_version u = v"
  obtain u0 where u0: "fetch_one ?hit (users db) = Some u0"
    and pw: "status = US_ACTIVE \<Longrightarrow> u_password_hash u0 \<noteq> None \<and> u_password_updated_at u0 \<noteq> None"
    and db1: "db1 = db\<lparr>users := update_where ?hit (changed_user db role status t) (users db)\<rparr>"
    using assms(2) by (auto simp: update_user_def Let_def split: option.splits if_splits)
  have distinct: "distinct (map u_id (users db))" using auth_keysD(1) [OF assms(1)] by (simp add: users_ok_def)
  have "x = u0" if "x \<in> set (users db)" "?hit x" for x
    using row_by_key [OF distinct, of x u0] fetch_one_SomeD [OF u0] that by auto
  then show ?thesis
    using assms(1) pw unfolding db1
    by (intro auth_keys_users users_ok_update) (auto simp: changed_user_def dest: auth_keysD)
qed

lemma keeps_change_user: "keeps auth_inv (change_user_body svc env actor i role status v)"
proof (rule keepsI)
  fix db u db' assume inv: "auth_inv db" and "change_user_body svc env actor i role status v db = Inr (u, db')"
  then obtain act d db1 where "update_user i role status v (e_now env) db = Inr (Some u, db1)" and owners: "count_active_owners db1 \<noteq> 0"
    and db': "db' = audit_append env act AO_SUCCEEDED (as_source svc) d (delete_user_sessions i db1)"
    using change_user_body_InrD by blast
  then have "auth_inv db1" using inv update_user_keys by (auto simp: auth_inv_def owner_ok_def)
  then show "auth_inv db'" by (simp add: db' delete_user_sessions_def auth_inv_delete_sessions)
qed

section \<open>The state machine of authentication\<close>

text \<open>
  One step is one call of the service, or a step of another service. The actor of \<open>create_user\<close> comes from a resolved session, so
  its user exists. Other services leave the seven tables alone.
\<close>

definition same_auth_tables :: "db \<Rightarrow> db \<Rightarrow> bool" where
  "same_auth_tables db db' \<longleftrightarrow> users db' = users db \<and> sessions db' = sessions db \<and>
     auth_challenges db' = auth_challenges db \<and> user_mfa_factors db' = user_mfa_factors db \<and>
     user_recovery_codes db' = user_recovery_codes db \<and>
     user_activation_tokens db' = user_activation_tokens db \<and> auth_rate_limits db' = auth_rate_limits db"

inductive auth_call :: "timestamp \<Rightarrow> db \<Rightarrow> db \<Rightarrow> bool" where
  bootstrap: "auth_call (e_now env) db (snd (bootstrap svc env fresh name password db))"
| login: "auth_call (e_now env) db (snd (login svc env fresh name password client db))"
| complete_mfa: "auth_call (e_now env) db (snd (complete_mfa svc env fresh tok value purpose db))"
| begin_mfa_enrollment: "auth_call (e_now env) db (snd (begin_mfa_enrollment svc env fresh actor db))"
| reauthenticate: "auth_call (e_now env) db (snd (reauthenticate svc env actor password mfa db))"
| activate: "auth_call (e_now env) db (snd (auth_activate svc env fresh code password db))"
| create_user: "get_user (sp_user_id actor) db \<noteq> None \<Longrightarrow>
    auth_call (e_now env) db (snd (create_user svc env fresh actor name role db))"
| reissue_activation: "auth_call (e_now env) db (snd (reissue_activation svc env fresh actor i db))"
| change_user: "auth_call (e_now env) db (snd (change_user svc env actor i role status v db))"
| reset_user_mfa: "auth_call (e_now env) db (snd (reset_user_mfa svc env actor i db))"
| regenerate_recovery_codes: "auth_call (e_now env) db (snd (regenerate_recovery_codes svc env fresh actor db))"
| change_password: "auth_call (e_now env) db (snd (change_password svc env actor old new mfa db))"
| break_glass_reset_mfa: "auth_call (e_now env) db (snd (break_glass_reset_mfa svc env name phrase db))"
| break_glass_reset_password:
    "auth_call (e_now env) db (snd (break_glass_reset_password svc env name phrase password db))"
| logout: "auth_call (e_now env) db (snd (logout svc env actor db))"
| purge_expired: "auth_call (e_now env) db (snd (purge_expired svc env dry_run db))"

inductive auth_step :: "timestamp \<Rightarrow> db \<Rightarrow> db \<Rightarrow> bool" where
  call: "auth_call now db db' \<Longrightarrow> auth_step now db db'"
| other: "same_auth_tables db db' \<Longrightarrow> auth_step now db db'"

inductive_simps auth_step_iff: "auth_step now db db'"

lemma consume_rate_limit_db:
  "snd (consume_rate_limit svc env scope subject maximum secs db) =
     snd (consume_rate_limit_row scope (hmac_subject (as_hash svc) (as_rate_secret svc) scope subject)
       (fst (fixed_window (e_now env) (int secs))) (snd (fixed_window (e_now env) (int secs))) db)"
  by (simp add: consume_rate_limit_def split_def Let_def)

lemma consume_rate_limit_service_inv:
  "auth_inv db \<Longrightarrow> consume_rate_limit svc env scope subject maximum secs db = (r, db') \<Longrightarrow> auth_inv db'"
  using consume_rate_limit_db [of svc env scope subject maximum secs db] consume_rate_limit_inv by (metis snd_conv)

lemma login_inv: "auth_inv db \<Longrightarrow> auth_inv (snd (login svc env fresh name password client db))"
  unfolding login_def Let_def
  by (auto split: prod.splits sum.splits dest: consume_rate_limit_service_inv
      intro: keeps_unit_of_work [OF keeps_login_body])

lemma auth_unit: "auth_inv db \<Longrightarrow> keeps auth_inv m \<Longrightarrow> auth_inv (snd (unit_of_work m db))"
  by (rule keeps_unit_of_work)

lemma keeps_add_admin:
  assumes "u_role u = OWNER" "u_status u = US_ACTIVE" "u_password_hash u \<noteq> None" "u_password_updated_at u \<noteq> None"
  shows "keeps auth_inv (add_admin u)"
  using assms by (auto simp: add_admin_def intro: keepsI keeps_insert_user)

lemma keeps_conj: "keeps P m \<Longrightarrow> keeps Q m \<Longrightarrow> keeps (\<lambda>d. P d \<and> Q d) m"
  by (auto simp: keeps_def)

lemma keeps_with_users:
  "keeps (\<lambda>db. auth_inv db \<and> users db \<noteq> []) (add_activation_token t)"
  "keeps (\<lambda>db. auth_inv db \<and> users db \<noteq> []) (audit svc env act d)"
  "u_status u \<noteq> US_ACTIVE \<Longrightarrow> keeps (\<lambda>db. auth_inv db \<and> users db \<noteq> []) (add_user u)"
proof -
  have "keeps (\<lambda>db. users db \<noteq> []) (add_activation_token t)" "keeps (\<lambda>db. users db \<noteq> []) (audit svc env act d)"
    by (auto simp: keeps_def add_activation_token_def audit_def split: if_splits)
  then show "keeps (\<lambda>db. auth_inv db \<and> users db \<noteq> []) (add_activation_token t)"
    "keeps (\<lambda>db. auth_inv db \<and> users db \<noteq> []) (audit svc env act d)"
    by (auto intro: keeps_conj keeping)
  show "keeps (\<lambda>db. auth_inv db \<and> users db \<noteq> []) (add_user u)" if "u_status u \<noteq> US_ACTIVE"
  proof (rule keepsI)
    fix db a db' assume "auth_inv db \<and> users db \<noteq> []" and add: "add_user u db = Inr (a, db')"
    then have "auth_inv db'"
      using keeps_insert_user [of "u\<lparr>u_password_hash := None, u_password_updated_at := None\<rparr>" db a db'] that
      by (simp add: add_user_def)
    then show "auth_inv db' \<and> users db' \<noteq> []" using add by (auto simp: add_user_def insert_user_def split: if_splits)
  qed
qed

lemma create_user_inv:
  assumes "auth_inv db" and "get_user (sp_user_id actor) db \<noteq> None"
  shows "auth_inv (snd (create_user svc env fresh actor name role db))"
proof -
  have "keeps (\<lambda>db. auth_inv db \<and> users db \<noteq> []) (create_user_body svc env fresh actor name role)"
    unfolding create_user_body_def Let_def by (intro keeping keeps_with_users) simp_all
  moreover have "users db \<noteq> []" using assms(2) by (auto simp: get_user_def)
  ultimately have "auth_inv (snd (unit_of_work (create_user_body svc env fresh actor name role) db))"
    using assms(1) keeps_unit_of_work [of "\<lambda>db. auth_inv db \<and> users db \<noteq> []"] by blast
  then show ?thesis by (auto simp: create_user_def split: prod.splits sum.splits auth_error.splits)
qed

lemma change_user_inv: "auth_inv db \<Longrightarrow> auth_inv (snd (change_user svc env actor i role status v db))"
  using keeps_unit_of_work [OF keeps_change_user, of db svc env actor i role status v]
  by (auto simp: change_user_def split: prod.splits sum.splits)

lemma auth_call_inv: "auth_call now db db' \<Longrightarrow> auth_inv db \<Longrightarrow> auth_inv db'"
proof (induction rule: auth_call.induct)
  case (login env db svc fresh name password client)
  then show ?case by (rule login_inv)
next
  case (bootstrap env db svc fresh name password)
  show ?case unfolding bootstrap_def Let_def
    by (rule auth_unit [OF bootstrap]) (intro keeping keeps_add_admin; simp)
next
  case (create_user actor db env svc fresh name role)
  then show ?case by (intro create_user_inv)
next
  case (change_user env db svc actor i role status v)
  then show ?case by (rule change_user_inv)
next
  case (complete_mfa env db svc fresh tok v purpose)
  show ?case unfolding complete_mfa_def by (rule auth_unit [OF complete_mfa]) (intro keeping keeps_complete_mfa)
next
  case (begin_mfa_enrollment env db svc fresh actor)
  show ?case unfolding begin_mfa_enrollment_def by (rule auth_unit [OF begin_mfa_enrollment]) (intro keeping)
next
  case (reauthenticate env db svc actor password mfa)
  show ?case unfolding reauthenticate_def Let_def by (rule auth_unit [OF reauthenticate]) (intro keeping)
next
  case (activate env db svc fresh code password)
  show ?case unfolding auth_activate_def Let_def by (rule auth_unit [OF activate]) (intro keeping)
next
  case (reissue_activation env db svc fresh actor i)
  show ?case unfolding reissue_activation_def by (rule auth_unit [OF reissue_activation]) (intro keeping)
next
  case (reset_user_mfa env db svc actor i)
  show ?case unfolding reset_user_mfa_def by (rule auth_unit [OF reset_user_mfa]) (intro keeping)
next
  case (regenerate_recovery_codes env db svc fresh actor)
  show ?case unfolding regenerate_recovery_codes_def by (rule auth_unit [OF regenerate_recovery_codes]) (intro keeping)
next
  case (change_password env db svc actor old new mfa)
  show ?case unfolding change_password_def Let_def by (rule auth_unit [OF change_password]) (intro keeping)
next
  case (break_glass_reset_mfa env db svc name phrase)
  show ?case unfolding break_glass_reset_mfa_def Let_def by (rule auth_unit [OF break_glass_reset_mfa]) (intro keeping)
next
  case (break_glass_reset_password env db svc name phrase password)
  show ?case unfolding break_glass_reset_password_def Let_def
    by (rule auth_unit [OF break_glass_reset_password]) (intro keeping)
next
  case (logout env db svc actor)
  show ?case unfolding logout_def by (rule auth_unit [OF logout]) (intro keeping)
next
  case (purge_expired env db svc dry_run)
  show ?case unfolding purge_expired_def by (rule auth_unit [OF purge_expired]) (intro keeping)
qed

lemma same_auth_inv: "same_auth_tables db db' \<Longrightarrow> auth_inv db' = auth_inv db"
  by (simp add: same_auth_tables_def auth_inv_def auth_keys_def owner_ok_def count_active_owners_def)

lemma auth_step_inv: "auth_step now db db' \<Longrightarrow> auth_inv db \<Longrightarrow> auth_inv db'"
  by (auto simp: auth_step_iff same_auth_inv dest: auth_call_inv)

interpretation accounts: invariant_system auth_step auth_inv
  by unfold_locales (rule auth_step_inv)

end
