(* ===== verification/Auth_Properties.thy ===== *)
theory Auth_Properties
  imports Auth_Invariant
begin

text \<open>
  What the authentication service guarantees: an active owner at all times, sessions only for valid
  credentials and the configured second factor, codes, challenges and activation tokens that work once,
  bounded guessing, and no session that survives a change of the account.
\<close>

section \<open>A sample service\<close>

definition sample_hashing :: hashing where
  "sample_hashing = \<lparr>ph_hash = (\<lambda>p. ''h:'' @ p), ph_verify = (\<lambda>h p. h = ''h:'' @ p), ph_needs_rehash = (\<lambda>_. False),
     sha256_hex = id, hmac_sha256_hex = (\<lambda>k m. k @ m), hmac_sha1 = (\<lambda>k m. k @ m)\<rparr>"

definition sample_auth :: "bool \<Rightarrow> auth_service" where
  "sample_auth totp = \<lparr>as_cfg = \<lparr>set_worker_lease_seconds = 30, set_max_event_output_bytes = 10, set_max_run_output_bytes = 10,
       set_playbook_source_mode = MODE_DATABASE, set_web_shell_max_sessions = 1, set_totp_enabled = totp,
       set_session_ttl_seconds = 3600, set_auth_login_ip_limit = 20, set_auth_login_ip_window_seconds = 60,
       set_auth_login_username_ip_limit = 2, set_auth_login_username_ip_window_seconds = 300\<rparr>,
     as_keyring = demo_keyring, as_gcm = demo_gcm, as_hash = sample_hashing, as_source = SRC_API, as_rate_secret = ''s''\<rparr>"

definition sample_auth_fresh :: "nat \<Rightarrow> auth_fresh" where
  "sample_auth_fresh n = \<lparr>af_session_id = 1000 + n, af_session_token = ''s'' @ str_nat n, af_csrf_token = ''c'' @ str_nat n,
     af_challenge_id = 2000 + n, af_challenge_token = ''t'' @ str_nat n, af_totp_bytes = replicate 20 (n mod 256),
     af_nonce = replicate 12 0, af_user_id = 1 + n, af_activation_id = 3000 + n, af_activation_code = ''a'' @ str_nat n,
     af_recovery = [(4000 + n, [1]), (5000 + n, [2])]\<rparr>"

definition auth_env :: "timestamp \<Rightarrow> env" where
  "auth_env t = \<lparr>e_now = t, e_ctx = empty_context\<rparr>"

definition sample_accounts :: "bool \<Rightarrow> db" where
  "sample_accounts totp = snd (bootstrap (sample_auth totp) (auth_env 0) (sample_auth_fresh 0) ''Ann'' ''correct horse'' empty_db)"

lemma auth_inv_empty: "auth_inv empty_db"
  by (simp add: auth_inv_def auth_keys_def Let_def owner_ok_def empty_db_def users_ok_def sessions_ok_def challenges_ok_def
      factors_ok_def codes_ok_def tokens_ok_def limits_ok_def)

lemma sample_accounts_exec: "exec auth_step empty_db [0] (sample_accounts totp)"
proof -
  have "auth_step (e_now (auth_env 0)) empty_db (sample_accounts totp)"
    unfolding sample_accounts_def by (intro auth_step.call auth_call.bootstrap)
  then show ?thesis by (auto simp: auth_env_def exec_iff)
qed

lemma sample_accounts_inv: "auth_inv (sample_accounts totp)"
  using accounts.exec_ok [OF sample_accounts_exec] auth_inv_empty by blast

section \<open>An active owner\<close>

text \<open>
  C19: Whatever sequence of calls the authentication service runs, its tables stay consistent (unique
  users, sessions, tokens and codes, all of existing users, with passwords for active users), and from
  the first user on there is always an active owner.
\<close>

theorem active_owner_kept:
  assumes "exec auth_step db ls db'" and "auth_inv db"
  shows "auth_inv db' \<and> (users db' \<noteq> [] \<longrightarrow> (\<exists>u \<in> set (users db'). u_role u = OWNER \<and> u_status u = US_ACTIVE))"
  using accounts.exec_ok [OF assms] by (auto simp: auth_inv_def owner_ok_iff)

theorem active_owner_kept_witness:
  "\<exists>u \<in> set (users (sample_accounts True)). u_role u = OWNER \<and> u_status u = US_ACTIVE"
proof -
  have "users (sample_accounts True) \<noteq> []" by code_simp
  then show ?thesis using active_owner_kept [OF sample_accounts_exec [of True] auth_inv_empty] by blast
qed

section \<open>Resolving sessions\<close>

lemma session_principal_where_SomeD:
  assumes "session_principal_where hit db = Some p"
  shows "\<exists>s u. s \<in> set (sessions db) \<and> hit s \<and> u \<in> set (users db) \<and> u_id u = s_user_id s \<and> u_status u = US_ACTIVE \<and>
     p = principal_of db s u"
  using assms by (auto simp: session_principal_where_def active_user_of_def split: option.splits dest!: fetch_one_SomeD)

text \<open>
  C21: A request is authenticated only by a live session: its token hash is stored, it has not expired
  and its user is active now; the principal carries the permissions of the user's current role; and with
  the TOTP policy on, an owner or administrator has a confirmed factor, and whoever has one passed
  it in this session.
\<close>

theorem resolve_live_session:
  assumes "resolve svc env token db = Inr p"
  shows "\<exists>s u. s \<in> set (sessions db) \<and> s_token_hash s = hash_token (as_hash svc) token \<and> e_now env < s_expires_at s \<and>
     u \<in> set (users db) \<and> u_id u = s_user_id s \<and> u_status u = US_ACTIVE \<and>
     sp_user_id p = u_id u \<and> sp_session_id p = s_id s \<and> sp_permissions p = permissions_for_role (u_role u) \<and>
     (set_totp_enabled (as_cfg svc) \<longrightarrow> \<not> u_mfa_enrollment_required u \<and>
        (u_role u \<in> {OWNER, ADMIN} \<longrightarrow> confirmed_factor db (u_id u)) \<and>
        (confirmed_factor db (u_id u) \<longrightarrow> s_mfa_verified_at s \<noteq> None))"
proof -
  obtain s u where "s \<in> set (sessions db)" "s_token_hash s = hash_token (as_hash svc) token" "e_now env < s_expires_at s"
    "u \<in> set (users db)" "u_id u = s_user_id s" "u_status u = US_ACTIVE" and p: "p = principal_of db s u"
    using assms session_principal_where_SomeD by (fastforce simp: resolve_def resolve_session_def split: option.splits if_splits)
  moreover have "set_totp_enabled (as_cfg svc) \<longrightarrow> \<not> (sp_mfa_enrollment_required p \<or>
      (sp_role p \<in> MFA_REQUIRED_ROLES \<and> \<not> sp_mfa_enabled p) \<or> (sp_mfa_enabled p \<and> sp_mfa_verified_at p = None))"
    using assms by (auto simp: resolve_def split: option.splits if_splits)
  ultimately show ?thesis by (intro exI [of _ s] exI [of _ u]) (auto simp: principal_of_def MFA_REQUIRED_ROLES_def)
qed

definition sample_logged_in :: "(auth_error + auth_result) \<times> db" where
  "sample_logged_in = login (sample_auth False) (auth_env (seconds 1)) (sample_auth_fresh 1) '' ann '' ''correct horse'' ''ip''
     (sample_accounts False)"

theorem resolve_live_session_witness:
  "\<exists>p. resolve (sample_auth False) (auth_env (seconds 9)) ''s1'' (snd sample_logged_in) = Inr p \<and>
     sp_permissions p = permissions_for_role OWNER"
proof -
  have "case resolve (sample_auth False) (auth_env (seconds 9)) ''s1'' (snd sample_logged_in) of Inl _ \<Rightarrow> False | Inr p \<Rightarrow> sp_role p = OWNER"
    by code_simp
  then obtain p where p: "resolve (sample_auth False) (auth_env (seconds 9)) ''s1'' (snd sample_logged_in) = Inr p" "sp_role p = OWNER"
    by (auto split: sum.splits)
  have owners: "list_all (\<lambda>u. u_role u = OWNER) (users (snd sample_logged_in))" by code_simp
  from resolve_live_session [OF p(1)] show ?thesis using p owners by (auto simp: list_all_iff)
qed

section \<open>Account changes revoke sessions\<close>

definition no_session_of :: "uuid \<Rightarrow> db \<Rightarrow> bool" where
  "no_session_of i db \<longleftrightarrow> (\<forall>s \<in> set (sessions db). s_user_id s \<noteq> i)"

lemma no_session_unresolved:
  assumes "no_session_of i db" and "resolve svc env token db = Inr p"
  shows "sp_user_id p \<noteq> i"
proof -
  obtain s u where "s \<in> set (sessions db)" "p = principal_of db s u"
    using assms(2) session_principal_where_SomeD by (fastforce simp: resolve_def resolve_session_def split: option.splits if_splits)
  then show ?thesis using assms(1) by (auto simp: no_session_of_def principal_of_def)
qed

lemma no_session_deleted [simp]:
  "no_session_of i (delete_user_sessions i db)" "no_session_of i (reset_mfa i t db)"
  "no_session_of i (audit_append env act outcome src d db) = no_session_of i db"
  by (simp_all add: no_session_of_def delete_user_sessions_def reset_mfa_def)

text \<open>
  C23: After a change of role or status, a change of password, a reset of the second factor or a
  break-glass command succeeded, no session of that user is left: no token, whenever it was issued before,
  resolves to that user.
\<close>

theorem account_change_revokes_sessions:
  assumes "change_user svc env actor i role status v db = (Inr u, db') \<or>
     (sp_user_id actor = i \<and> change_password svc env actor old new mfa db = (Inr (), db')) \<or>
     reset_user_mfa svc env actor i db = (Inr (), db') \<or>
     (u_id u = i \<and> break_glass_reset_mfa svc env name phrase db = (Inr u, db')) \<or>
     (u_id u = i \<and> break_glass_reset_password svc env name phrase new db = (Inr u, db'))"
  shows "no_session_of i db' \<and> (case resolve svc' env' token db' of Inl _ \<Rightarrow> True | Inr p \<Rightarrow> sp_user_id p \<noteq> i)"
proof -
  have "no_session_of i db'" using assms
  proof (elim disjE conjE)
    assume "change_user svc env actor i role status v db = (Inr u, db')"
    then have "change_user_body svc env actor i role status v db = Inr (u, db')"
      by (auto simp: change_user_def unit_of_work_Inr_iff split: prod.splits sum.splits)
    from change_user_body_InrD [OF this] show ?thesis by auto
  next
    assume "sp_user_id actor = i" "change_password svc env actor old new mfa db = (Inr (), db')"
    then show ?thesis by (auto simp: change_password_def Let_def unit_of_work_Inr_iff tx_Inr_iff audit_def)
  next
    assume "reset_user_mfa svc env actor i db = (Inr (), db')"
    then show ?thesis by (auto simp: reset_user_mfa_def unit_of_work_Inr_iff tx_Inr_iff audit_def)
  next
    assume "u_id u = i" "break_glass_reset_mfa svc env name phrase db = (Inr u, db')"
    then show ?thesis
      by (auto simp: break_glass_reset_mfa_def Let_def unit_of_work_Inr_iff tx_Inr_iff split: option.splits)
  next
    assume "u_id u = i" "break_glass_reset_password svc env name phrase new db = (Inr u, db')"
    then show ?thesis
      by (auto simp: break_glass_reset_password_def Let_def unit_of_work_Inr_iff tx_Inr_iff split: option.splits)
  qed
  then show ?thesis using no_session_unresolved by (auto split: sum.splits)
qed

theorem account_change_revokes_sessions_witness:
  "\<exists>p db'. resolve (sample_auth False) (auth_env (seconds 9)) ''s1'' (snd sample_logged_in) = Inr p \<and>
     change_password (sample_auth False) (auth_env (seconds 10)) p ''correct horse'' ''battery staple'' None (snd sample_logged_in)
       = (Inr (), db') \<and> no_session_of (sp_user_id p) db'"
proof -
  let ?r = "resolve (sample_auth False) (auth_env (seconds 9)) ''s1'' (snd sample_logged_in)"
  have "case ?r of Inl _ \<Rightarrow> False | Inr p \<Rightarrow> (case fst (change_password (sample_auth False) (auth_env (seconds 10)) p
      ''correct horse'' ''battery staple'' None (snd sample_logged_in)) of Inl _ \<Rightarrow> False | Inr _ \<Rightarrow> True)"
    by code_simp
  then obtain p db' where p: "?r = Inr p" and c: "change_password (sample_auth False) (auth_env (seconds 10)) p
      ''correct horse'' ''battery staple'' None (snd sample_logged_in) = (Inr (), db')"
    by (auto split: sum.splits) (metis prod.collapse)
  then show ?thesis using account_change_revokes_sessions [of _ _ p "sp_user_id p"] by blast
qed

section \<open>Bounded guessing\<close>

definition attempts :: "string \<Rightarrow> string \<Rightarrow> timestamp \<Rightarrow> db \<Rightarrow> nat" where
  "attempts scope subject_hash start db =
     (case fetch_one (same_bucket scope subject_hash start) (auth_rate_limits db) of
        None \<Rightarrow> 0 | Some l \<Rightarrow> rl_attempt_count l)"

lemma consume_row_attempts:
  "fst (consume_rate_limit_row scope h start e db) = attempts scope h start db + 1"
  "attempts scope h start (snd (consume_rate_limit_row scope h start e db)) = attempts scope h start db + 1"
proof -
  show "fst (consume_rate_limit_row scope h start e db) = attempts scope h start db + 1"
    by (simp add: consume_rate_limit_row_def attempts_def Let_def split: option.splits)
  have "fetch_one P (update_where P f xs) = map_option f (fetch_one P xs)" if "\<And>x. P (f x) = P x" for P f and xs :: "rate_limit list"
    using that by (induction xs) auto
  moreover have "same_bucket scope h start (l\<lparr>rl_attempt_count := n, rl_expires_at := x\<rparr>) = same_bucket scope h start l" for l n x
    by (simp add: same_bucket_def)
  ultimately show "attempts scope h start (snd (consume_rate_limit_row scope h start e db)) = attempts scope h start db + 1"
    by (auto simp: consume_rate_limit_row_def attempts_def Let_def fetch_one_append same_bucket_def split: option.splits)
qed

lemma fixed_window_bounds:
  assumes "0 < secs"
  shows "fst (fixed_window now secs) \<le> now" and "now < fst (fixed_window now secs) + seconds secs"
    and "snd (fixed_window now secs) = fst (fixed_window now secs) + seconds secs"
proof -
  have eq: "now = seconds (now div 1000000) + now mod 1000000" by simp
  have "0 \<le> now div 1000000 mod secs" "now div 1000000 mod secs < secs" using assms by simp_all
  moreover have "0 \<le> now mod 1000000" "now mod 1000000 < 1000000" by simp_all
  ultimately show "fst (fixed_window now secs) \<le> now" "now < fst (fixed_window now secs) + seconds secs"
    using eq by (simp_all add: fixed_window_def Let_def algebra_simps)
  show "snd (fixed_window now secs) = fst (fixed_window now secs) + seconds secs" by (simp add: fixed_window_def Let_def)
qed

lemma ceil_seconds_bounds: "d \<le> seconds (ceil_seconds d)" "seconds (ceil_seconds d) < d + seconds 1"
proof -
  have "- d = seconds ((- d) div 1000000) + (- d) mod 1000000" by simp
  moreover have "0 \<le> (- d) mod 1000000" "(- d) mod 1000000 < 1000000" by simp_all
  ultimately show "d \<le> seconds (ceil_seconds d)" "seconds (ceil_seconds d) < d + seconds 1"
    by (simp_all add: ceil_seconds_def)
qed

lemma consume_rate_limit_attempts:
  fixes svc :: auth_service and scope subject :: string
  defines "h \<equiv> hmac_subject (as_hash svc) (as_rate_secret svc) scope subject"
  assumes "\<forall>e \<in> set envs. fst (fixed_window (e_now e) (int secs)) = start"
  shows "attempts scope h start (fold (\<lambda>e d. snd (consume_rate_limit svc e scope subject maximum secs d)) envs db)
     = attempts scope h start db + length envs"
  using assms(2)
proof (induction envs arbitrary: db)
  case (Cons e envs)
  then show ?case by (simp add: consume_rate_limit_db h_def [symmetric] consume_row_attempts)
qed simp

text \<open>
  C25: The number of guesses is bounded: within one window of a rate limit, after any number of
  earlier attempts the next one is let through exactly when fewer than the maximum were counted. A refused
  caller is told to wait between one second and the length of the window, and after that wait the
  window is over.
\<close>

theorem rate_limit_bounds_guessing:
  fixes svc :: auth_service
  assumes "0 < secs" and "\<forall>e \<in> set envs. fst (fixed_window (e_now e) (int secs)) = fst (fixed_window (e_now env) (int secs))"
    and "start = fst (fixed_window (e_now env) (int secs))"
    and "n = attempts scope (hmac_subject (as_hash svc) (as_rate_secret svc) scope subject) start db + length envs"
  shows "case fst (consume_rate_limit svc env scope subject maximum secs
       (fold (\<lambda>e d. snd (consume_rate_limit svc e scope subject maximum secs d)) envs db)) of
      Inr bucket \<Rightarrow> n < maximum \<and> cl_count bucket = n + 1
    | Inl err \<Rightarrow> maximum \<le> n \<and> (\<exists>wait. err = AuthRateLimited wait \<and> 1 \<le> wait \<and> wait \<le> int secs \<and>
        start + seconds (int secs) \<le> fst (fixed_window (e_now env + seconds wait) (int secs)))"
proof -
  let ?h = "hmac_subject (as_hash svc) (as_rate_secret svc) scope subject"
  let ?now = "e_now env" let ?stop = "start + seconds (int secs)"
  let ?db = "fold (\<lambda>e d. snd (consume_rate_limit svc e scope subject maximum secs d)) envs db"
  let ?wait = "max 1 (ceil_seconds (?stop - ?now))"
  have pos: "0 < int secs" using assms(1) by simp
  have window: "start \<le> ?now" "?now < ?stop" "snd (fixed_window ?now (int secs)) = ?stop"
    using fixed_window_bounds [OF pos, of ?now] assms(3) by auto
  have count: "attempts scope ?h start ?db = n" using consume_rate_limit_attempts [of envs secs start] assms(2-4) by simp
  have eq: "fst (consume_rate_limit svc env scope subject maximum secs ?db) =
      (if n + 1 > maximum then Inl (AuthRateLimited ?wait)
       else Inr \<lparr>cl_scope = scope, cl_subject_hash = ?h, cl_window_started_at = start, cl_reset_at = ?stop,
                 cl_count = n + 1, cl_maximum = maximum\<rparr>)"
    using window(3) assms(3) consume_row_attempts(1) [of scope ?h start ?stop ?db] count
    by (simp add: consume_rate_limit_def split_def Let_def)
  note c = ceil_seconds_bounds [of "?stop - ?now"]
  have "?stop - ?now \<le> seconds ?wait" using c(1) by (simp add: max_def)
  moreover have "1 \<le> ?wait" "?wait \<le> int secs" using c window assms(1) by (simp_all add: max_def)
  moreover have "?stop \<le> fst (fixed_window t (int secs))" if "?stop \<le> t" for t
  proof -
    let ?e = "t div 1000000" and ?b = "start div 1000000"
    have b: "start = seconds ?b" "?b mod int secs = 0" using assms(3) by (simp_all add: fixed_window_def Let_def)
    have "?b + int secs \<le> ?e" using that b(1) by (simp add: zdiv_mono1 [of "seconds (?b + int secs)" t 1000000, simplified] algebra_simps)
    moreover have "(?b + int secs) div int secs \<le> ?e div int secs" using zdiv_mono1 [OF calculation pos] .
    moreover have "?e - ?e mod int secs = int secs * (?e div int secs)" by (simp add: minus_mod_eq_mult_div)
    moreover have "?b + int secs = int secs * ((?b + int secs) div int secs)" 
      using b(2) mult_div_mod_eq [of "int secs" "?b + int secs"] by simp
    ultimately have "?b + int secs \<le> ?e - ?e mod int secs" using pos by (metis mult_left_mono less_imp_le)
    then show ?thesis using b(1) by (simp add: fixed_window_def Let_def)
  qed
  ultimately show ?thesis unfolding eq by (auto simp: algebra_simps)
qed

theorem rate_limit_bounds_guessing_witness:
  "case fst (consume_rate_limit (sample_auth True) (auth_env (seconds 7)) ''login:username_ip'' ''ann'' 2 300
      (fold (\<lambda>e d. snd (consume_rate_limit (sample_auth True) e ''login:username_ip'' ''ann'' 2 300 d))
        [auth_env (seconds 3), auth_env (seconds 5)] empty_db)) of
     Inr _ \<Rightarrow> False | Inl err \<Rightarrow> \<exists>wait. err = AuthRateLimited wait \<and> 1 \<le> wait \<and> wait \<le> 300"
proof -
  have zero: "attempts scope h start empty_db = 0" for scope h start by (simp add: attempts_def empty_db_def)
  have same: "\<forall>e \<in> set [auth_env (seconds 3), auth_env (seconds 5)].
      fst (fixed_window (e_now e) (int 300)) = fst (fixed_window (e_now (auth_env (seconds 7))) (int 300))" by code_simp
  show ?thesis
    using rate_limit_bounds_guessing [OF _ same refl refl, where svc = "sample_auth True"
      and scope = "''login:username_ip''" and subject = "''ann''" and db = empty_db and maximum = 2]
    by (auto simp: zero split: sum.splits)
qed

section \<open>Login\<close>

lemma get_mfa_factor_confirmed:
  assumes "auth_inv db"
  shows "(case get_mfa_factor i db of None \<Rightarrow> False | Some f \<Rightarrow> mf_confirmed_at f \<noteq> None) \<longleftrightarrow> confirmed_factor db i"
proof -
  have distinct: "distinct (map mf_user_id (user_mfa_factors db))"
    using assms by (auto simp: auth_inv_def factors_ok_def dest: auth_keysD(4))
  show ?thesis
  proof (cases "get_mfa_factor i db")
    case None
    then have "\<forall>f \<in> set (user_mfa_factors db). mf_user_id f \<noteq> i" by (simp add: get_mfa_factor_def fetch_one_None_iff)
    then show ?thesis using None by (auto simp: confirmed_factor_def)
  next
    case (Some f)
    then have "f \<in> set (user_mfa_factors db)" "mf_user_id f = i" by (auto simp: get_mfa_factor_def dest: fetch_one_SomeD)
    moreover from this have "g = f" if "g \<in> set (user_mfa_factors db)" "mf_user_id g = i" for g
      using row_by_key [OF distinct that(1), of f] that(2) by simp
    ultimately have "confirmed_factor db i \<longleftrightarrow> mf_confirmed_at f \<noteq> None" unfolding confirmed_factor_def by blast
    then show ?thesis using Some by simp
  qed
qed

text \<open>The authentication tables other than the rate limits and the users.\<close>

definition same_sessions :: "db \<Rightarrow> db \<Rightarrow> bool" where
  "same_sessions db db' \<longleftrightarrow> sessions db' = sessions db \<and> auth_challenges db' = auth_challenges db \<and>
     user_mfa_factors db' = user_mfa_factors db \<and> user_recovery_codes db' = user_recovery_codes db \<and>
     user_activation_tokens db' = user_activation_tokens db"

lemma consume_rate_limit_same:
  "consume_rate_limit svc env scope subject maximum secs db = (r, db') \<Longrightarrow> users db' = users db \<and> same_sessions db db'"
  by (auto simp: consume_rate_limit_def consume_rate_limit_row_def same_sessions_def split_def Let_def split: option.splits)

lemma issue_InrD:
  assumes "issue svc env fresh user m v e db = Inr (i, db')"
  shows "sp_user_id (is_principal i) = u_id user \<and> sp_permissions (is_principal i) = permissions_for_role (u_role user) \<and>
     db' = db\<lparr>sessions := sessions db @ [issued_row svc env fresh user v e]\<rparr>"
  using assms by (auto simp: issue_def Let_def tx_Inr_iff add_session_def split: if_splits)

lemma enroll_factor_same:
  "enroll_factor svc env fresh user db = Inr (r, db') \<Longrightarrow> users db' = users db \<and> sessions db' = sessions db"
  by (auto simp: enroll_factor_def Let_def tx_Inr_iff put_mfa_factor_def split: prod.splits if_splits)

lemma issue_challenge_InrD:
  assumes "issue_challenge svc env fresh user p b db = Inr (c, db')"
  shows "set_totp_enabled (as_cfg svc) \<and> ic_user_id c = u_id user \<and> ic_purpose c = p \<and>
     users db' = users db \<and> sessions db' = sessions db"
proof -
  obtain en db1 where en: "(if b then tx_bind (enroll_factor svc env fresh user) (\<lambda>su. tx_return (Some su)) else tx_return None) db
      = Inr (en, db1)" and rest: "require_totp_enabled svc = Inr ()" "ic_user_id c = u_id user" "ic_purpose c = p"
      "users db' = users db1" "sessions db' = sessions db1"
    using assms unfolding issue_challenge_def tx_Inr_iff tx_simps
    by (auto simp: add_challenge_def split: if_splits)
  have "users db1 = users db \<and> sessions db1 = sessions db"
    using en by (auto simp: tx_Inr_iff split: if_splits dest: enroll_factor_same)
  then show ?thesis using rest by (auto simp: require_totp_enabled_def split: if_splits)
qed

lemma login_result_cases:
  assumes "auth_inv db" and "login_result svc env fresh u db = Inr (result, db')"
  shows "users db' = users db \<and> (case result of
      Session_Issued i \<Rightarrow> sp_user_id (is_principal i) = u_id u \<and>
        sp_permissions (is_principal i) = permissions_for_role (u_role u) \<and>
        (\<exists>e. sessions db' = sessions db @ [issued_row svc env fresh u None e]) \<and>
        (set_totp_enabled (as_cfg svc) \<longrightarrow> \<not> u_mfa_enrollment_required u \<and> u_role u \<notin> MFA_REQUIRED_ROLES \<and>
           \<not> confirmed_factor db (u_id u))
    | Challenge_Issued c \<Rightarrow> set_totp_enabled (as_cfg svc) \<and> sessions db' = sessions db \<and> ic_user_id c = u_id u \<and>
        (ic_purpose c = LOGIN_MFA \<longleftrightarrow> confirmed_factor db (u_id u) \<and> \<not> u_mfa_enrollment_required u))"
  using assms(2) get_mfa_factor_confirmed [OF assms(1), of "u_id u"]
  by (auto simp: login_result_def Let_def tx_Inr_iff split: if_splits dest!: issue_InrD issue_challenge_InrD)

lemma login_body_InrD:
  assumes "auth_inv db" and "login_body svc env fresh name password bucket db = Inr (result, db')"
  shows "\<exists>u db1 db2. find_user_by_username name db = Some u \<and> u_status u = US_ACTIVE \<and>
     pv_valid (verify_password (as_hash svc) (u_password_hash u) password) \<and> auth_inv db1 \<and>
     sessions db1 = sessions db \<and> user_mfa_factors db1 = user_mfa_factors db \<and>
     login_result svc env fresh u db1 = Inr (result, db2) \<and> sessions db' = sessions db2"
proof -
  obtain u where u: "find_user_by_username name db = Some u" "u_status u = US_ACTIVE"
      "pv_valid (verify_password (as_hash svc) (u_password_hash u) password)"
    using assms(2) by (auto simp: login_body_def Let_def tx_Inr_iff split: option.splits)
  let ?v = "verify_password (as_hash svc) (u_password_hash u) password"
  let ?r = "if pv_needs_rehash ?v then update_password_hash (u_id u) (hash_password (as_hash svc) password) (e_now env) db else db"
  let ?d = "clear_rate_limit (cl_scope bucket) (cl_subject_hash bucket) (cl_window_started_at bucket) ?r"
  obtain db2 where r: "login_result svc env fresh u ?d = Inr (result, db2)" "sessions db' = sessions db2"
    using assms(2) u by (auto simp: login_body_def Let_def tx_Inr_iff audit_def split: if_splits)
  have "auth_inv ?r" using keeps_password [THEN keepsD, OF assms(1)] assms(1) by simp
  then have "auth_inv ?d" using keeps_clear_limit [THEN keepsD] by fastforce
  moreover have "sessions ?d = sessions db" "user_mfa_factors ?d = user_mfa_factors db"
    by (simp_all add: clear_rate_limit_def update_password_hash_def)
  ultimately show ?thesis using u r by (intro exI [of _ u] exI [of _ ?d] exI [of _ db2]) simp
qed

text \<open>
  C20: A login succeeds only for an active user with the right password. What it issues follows the
  policy: with TOTP on, a session is issued only to a user who neither has a confirmed factor nor
  needs one; everybody else gets a challenge and no session. A login that fails leaves users, sessions,
  challenges, factors, codes and tokens as they were.
\<close>

theorem login_follows_policy:
  assumes "auth_inv db"
  shows "case login svc env fresh name password client db of
      (Inl e, db') \<Rightarrow> users db' = users db \<and> same_sessions db db'
    | (Inr result, db') \<Rightarrow>
        (\<exists>u. find_user_by_username (canonical_username name) db = Some u \<and> u_status u = US_ACTIVE \<and>
           pv_valid (verify_password (as_hash svc) (u_password_hash u) password) \<and>
           (case result of
              Session_Issued i \<Rightarrow> sp_user_id (is_principal i) = u_id u \<and>
                sp_permissions (is_principal i) = permissions_for_role (u_role u) \<and>
                (\<exists>e. sessions db' = sessions db @ [issued_row svc env fresh u None e]) \<and>
                (set_totp_enabled (as_cfg svc) \<longrightarrow> \<not> u_mfa_enrollment_required u \<and> u_role u \<notin> MFA_REQUIRED_ROLES \<and>
                   \<not> confirmed_factor db (u_id u))
            | Challenge_Issued c \<Rightarrow> set_totp_enabled (as_cfg svc) \<and> sessions db' = sessions db \<and> ic_user_id c = u_id u \<and>
                (ic_purpose c = LOGIN_MFA \<longleftrightarrow> confirmed_factor db (u_id u) \<and> \<not> u_mfa_enrollment_required u)))"
proof -
  let ?cfg = "as_cfg svc" let ?name = "canonical_username name"
  obtain r1 db1 where one: "consume_rate_limit svc env ''login:ip'' client (set_auth_login_ip_limit ?cfg)
      (set_auth_login_ip_window_seconds ?cfg) db = (r1, db1)" by fastforce
  obtain r2 db2 where two: "consume_rate_limit svc env ''login:username_ip'' (?name @ [CHR 0x00] @ client)
      (set_auth_login_username_ip_limit ?cfg) (set_auth_login_username_ip_window_seconds ?cfg) db1 = (r2, db2)" by fastforce
  note same = consume_rate_limit_same [OF one] consume_rate_limit_same [OF two]
  have inv: "auth_inv db2" using assms consume_rate_limit_service_inv one two by blast
  have login: "login svc env fresh name password client db = (case r1 of Inl e \<Rightarrow> (Inl e, db1) | Inr _ \<Rightarrow>
      (case r2 of Inl e \<Rightarrow> (Inl e, db2) | Inr bucket \<Rightarrow> unit_of_work (login_body svc env fresh ?name password bucket) db2))"
    unfolding login_def Let_def one prod.case two by (simp split: sum.splits)
  have find: "find_user_by_username n db2 = find_user_by_username n db" "confirmed_factor db2 = confirmed_factor db"
    "sessions db2 = sessions db" for n
    using same by (auto simp: find_user_by_username_def confirmed_factor_def same_sessions_def fun_eq_iff)
  show ?thesis
  proof (cases "fst (login svc env fresh name password client db)")
    case (Inl e)
    then have "snd (login svc env fresh name password client db) \<in> {db1, db2}"
      by (auto simp: login unit_of_work_def split: sum.splits)
    then show ?thesis using Inl same by (cases "login svc env fresh name password client db") (auto simp: same_sessions_def)
  next
    case (Inr result)
    then obtain bucket db' where run: "login svc env fresh name password client db = (Inr result, db')"
      and body: "login_body svc env fresh ?name password bucket db2 = Inr (result, db')"
      by (auto simp: login unit_of_work_def split: sum.splits)
    obtain u db3 db4 where u: "find_user_by_username ?name db = Some u" "u_status u = US_ACTIVE"
        "pv_valid (verify_password (as_hash svc) (u_password_hash u) password)"
      and 3: "auth_inv db3" "sessions db3 = sessions db" "confirmed_factor db3 = confirmed_factor db"
      and r: "login_result svc env fresh u db3 = Inr (result, db4)" "sessions db' = sessions db4"
      using login_body_InrD [OF inv body] same unfolding find
      by (elim exE conjE, intro that) (auto simp: confirmed_factor_def same_sessions_def fun_eq_iff)
    show ?thesis
      using login_result_cases [OF 3(1) r(1)] u 3 r(2) by (cases result) (auto simp: run)
  qed
qed

theorem login_follows_policy_witness:
  "case login (sample_auth True) (auth_env (seconds 1)) (sample_auth_fresh 1) '' ann '' ''correct horse'' ''ip'' (sample_accounts True) of
     (Inr (Challenge_Issued c), db') \<Rightarrow> sessions db' = sessions (sample_accounts True) \<and> ic_purpose c = MFA_ENROLLMENT
   | _ \<Rightarrow> False"
proof -
  let ?l = "login (sample_auth True) (auth_env (seconds 1)) (sample_auth_fresh 1) '' ann '' ''correct horse'' ''ip'' (sample_accounts True)"
  have "case fst ?l of Inr (Challenge_Issued c) \<Rightarrow> ic_purpose c = MFA_ENROLLMENT | _ \<Rightarrow> False" by code_simp
  then show ?thesis
    using login_follows_policy [OF sample_accounts_inv [of True], where svc = "sample_auth True" and env = "auth_env (seconds 1)"
        and fresh = "sample_auth_fresh 1" and name = "'' ann ''" and password = "''correct horse''" and client = "''ip''"]
    by (auto split: sum.splits auth_result.splits prod.splits)
qed

end
