(* ===== verification/Mfa_Properties.thy ===== *)
theory Mfa_Properties
  imports Auth_Properties
begin

text \<open>
  Second factors: which TOTP codes are accepted, that a code, a recovery code, a challenge and an
  activation code work once, and that passing the second factor replaces all sessions of the user.
\<close>

section \<open>TOTP codes\<close>

text \<open>
  C26: For an enrolled secret of twenty random bytes, \<open>match_totp_step\<close> decides exactly: it returns a step
  iff the code is the TOTP code of a step within one of the current one, not negative and later than
  the last accepted step; codes have six digits; and it never raises as long as the step fits into 64 bits.
\<close>

theorem match_totp_step_exact:
  assumes "length bs = 20" and "\<forall>b \<in> set bs. b < 256" and "secret = generate_totp_secret bs"
    and "totp_step_of now + 1 < 2 ^ 64"
  shows "case match_totp_step h secret code now last_accepted of
      Inl _ \<Rightarrow> False
    | Inr (Some step) \<Rightarrow> \<bar>step - totp_step_of now\<bar> \<le> 1 \<and> 0 \<le> step \<and> (\<forall>l. last_accepted = Some l \<longrightarrow> l < step) \<and>
        totp_code h secret step = Inr code \<and> length code = 6 \<and> list_all is_digit code
    | Inr None \<Rightarrow> (\<forall>step. \<bar>step - totp_step_of now\<bar> \<le> 1 \<and> 0 \<le> step \<and> (\<forall>l. last_accepted = Some l \<longrightarrow> l < step) \<longrightarrow>
        totp_code h secret step \<noteq> Inr code)"
proof -
  have secret: "decode_totp_secret secret = Inr bs" using decode_generated_secret [OF _ assms(2)] assms(1,3) by simp
  have total: "totp_code h secret step \<noteq> Inl e" if "0 \<le> step" "step \<le> totp_step_of now + 1" for step e
    using that assms(4) by (simp add: totp_code_def secret Let_def)
  have steps: "match_steps h secret code last_accepted steps \<noteq> Inl e" if "\<forall>s \<in> set steps. s \<le> totp_step_of now + 1" for steps e
    using that by (induction steps) (auto simp: total split: sum.splits option.splits)
  have "match_totp_step h secret code now last_accepted \<noteq> Inl e" for e
    using steps [of "[totp_step_of now, totp_step_of now - 1, totp_step_of now + 1]" e]
    by (simp add: match_totp_step_def Let_def del: match_steps.simps)
  then show ?thesis
    using match_totp_step_cases [of h secret code now last_accepted] totp_code_format [of h secret]
    by (auto split: sum.splits option.splits)
qed

theorem match_totp_step_exact_witness:
  "\<exists>code. totp_code sample_hashing (generate_totp_secret (replicate 20 7)) 1 = Inr code \<and>
     match_totp_step sample_hashing (generate_totp_secret (replicate 20 7)) code (seconds 31) (Some 1) \<noteq> Inr (Some 1)"
proof -
  have "\<exists>code. totp_code sample_hashing (generate_totp_secret (replicate 20 7)) 1 = Inr code"
    by (simp add: totp_code_def decode_generated_secret Let_def)
  moreover have "totp_step_of (seconds 31) + 1 < 2 ^ 64" by (simp add: totp_step_of_def)
  ultimately show ?thesis
    using match_totp_step_exact [where bs = "replicate 20 7" and now = "seconds 31" and h = sample_hashing and last_accepted = "Some 1"]
    by (fastforce split: sum.splits option.splits)
qed

section \<open>Codes work once\<close>

lemma consumed_code_refused: "\<not> fst (consume_recovery_code i h t' (snd (consume_recovery_code i h t db)))"
proof -
  have "\<not> unused_code i h r" if r: "r \<in> set (update_where (unused_code i h) (\<lambda>c. c\<lparr>rc_used_at := Some t\<rparr>) cs)" for r cs
  proof -
    obtain r0 where "r = (if unused_code i h r0 then r0\<lparr>rc_used_at := Some t\<rparr> else r0)"
      using r unfolding set_update_where by blast
    then show ?thesis by (cases "unused_code i h r0") (auto simp: unused_code_def)
  qed
  then show ?thesis by (simp add: consume_recovery_code_def fetch_one_None_iff)
qed

lemma consume_counts:
  assumes "auth_inv db" and "fst (consume_recovery_code i h t db)"
  shows "count_unused_recovery_codes i (snd (consume_recovery_code i h t db)) + 1 = count_unused_recovery_codes i db"
proof -
  let ?f = "\<lambda>c. c\<lparr>rc_used_at := Some t\<rparr>"
  let ?live = "\<lambda>c. rc_user_id c = i \<and> rc_used_at c = None"
  have "length (filter ?live (update_where (unused_code i h) ?f cs)) + 1 = length (filter ?live cs)"
    if "distinct (map (\<lambda>c. (rc_user_id c, rc_code_hash c)) cs)" "\<exists>c \<in> set cs. unused_code i h c" for cs
    using that
  proof (induction cs)
    case (Cons c cs)
    show ?case
    proof (cases "unused_code i h c")
      case True
      have "\<not> unused_code i h d" if "d \<in> set cs" for d
        using True Cons.prems(1) imageI [OF that, of "\<lambda>c. (rc_user_id c, rc_code_hash c)"] by (auto simp: unused_code_def)
      then have "update_where (unused_code i h) ?f cs = cs" by (rule update_where_id)
      moreover have "rc_user_id c = i" "rc_used_at c = None" using True by (auto simp: unused_code_def)
      ultimately show ?thesis using True by simp
    qed (use Cons in auto)
  qed simp
  moreover have "distinct (map (\<lambda>c. (rc_user_id c, rc_code_hash c)) (user_recovery_codes db))"
    using assms(1) by (auto simp: auth_inv_def codes_ok_def dest: auth_keysD(5))
  moreover have "\<exists>c \<in> set (user_recovery_codes db). unused_code i h c"
    using assms(2) by (auto simp: consume_recovery_code_def dest!: fetch_one_SomeD)
  ultimately show ?thesis by (simp add: count_unused_recovery_codes_def consume_recovery_code_def)
qed

lemma accept_step_factor:
  assumes "get_mfa_factor i db = Some f" and "fst (accept_totp_step i n t db)" and "auth_inv db"
  shows "get_mfa_factor i (snd (accept_totp_step i n t db)) = Some (f\<lparr>mf_last_accepted_step := Some n, mf_updated_at := t\<rparr>)"
proof -
  let ?hit = "\<lambda>g. mf_user_id g = i \<and> mf_confirmed_at g \<noteq> None \<and> (case mf_last_accepted_step g of None \<Rightarrow> True | Some l \<Rightarrow> l < n)"
  have distinct: "distinct (map mf_user_id (user_mfa_factors db))"
    using assms(3) by (auto simp: auth_inv_def factors_ok_def dest: auth_keysD(4))
  have f: "f \<in> set (user_mfa_factors db)" "mf_user_id f = i" using assms(1) by (auto simp: get_mfa_factor_def dest: fetch_one_SomeD)
  obtain g where "g \<in> set (user_mfa_factors db)" "?hit g"
    using assms(2) by (auto simp: accept_totp_step_def Let_def dest!: fetch_one_SomeD)
  then have "?hit f" using row_by_key [OF distinct, of g f] f by auto
  moreover have fetch: "fetch_one (\<lambda>x. mf_user_id x = i) (update_where ?hit (\<lambda>f. f\<lparr>mf_last_accepted_step := Some n, mf_updated_at := t\<rparr>) fs) =
      map_option (\<lambda>x. if ?hit x then x\<lparr>mf_last_accepted_step := Some n, mf_updated_at := t\<rparr> else x)
        (fetch_one (\<lambda>x. mf_user_id x = i) fs)" for fs
    by (induction fs) auto
  moreover have "user_mfa_factors (snd (accept_totp_step i n t db)) =
      update_where ?hit (\<lambda>f. f\<lparr>mf_last_accepted_step := Some n, mf_updated_at := t\<rparr>) (user_mfa_factors db)"
    by (simp add: accept_totp_step_def Let_def)
  ultimately show ?thesis using assms(1) unfolding get_mfa_factor_def by (simp only: fetch) simp
qed

text \<open>
  C24: A second factor works once. When a value is accepted as a TOTP code, the factor's last step
  advances to the code's step, and from then on only later steps match. When it is accepted as a
  recovery code, exactly one unused code of the user is used up, and the same code, in whatever spelling,
  is refused from then on.
\<close>

theorem mfa_value_single_use:
  assumes inv: "auth_inv db" and get: "get_mfa_factor i db = Some f"
    and ok: "verify_mfa_value svc env f value True db = Inr ((True, used), db')"
  shows "if used
    then count_unused_recovery_codes i db' + 1 = count_unused_recovery_codes i db \<and>
      (\<forall>value' t. normalize_recovery_code value' = normalize_recovery_code value \<longrightarrow>
         \<not> fst (consume_recovery_code i (hash_recovery_code (as_hash svc) value') t db'))
    else (\<exists>secret step f'. decrypt_totp svc f = Inr secret \<and> totp_code (as_hash svc) secret step = Inr value \<and>
      (\<forall>l. mf_last_accepted_step f = Some l \<longrightarrow> l < step) \<and>
      get_mfa_factor i db' = Some f' \<and> mf_last_accepted_step f' = Some step \<and>
      (\<forall>code now step'. match_totp_step (as_hash svc) secret code now (mf_last_accepted_step f') = Inr (Some step') \<longrightarrow>
         step < step'))"
proof -
  have i: "mf_user_id f = i" using get by (auto simp: get_mfa_factor_def dest: fetch_one_SomeD)
  obtain secret found where secret: "decrypt_totp svc f = Inr secret"
    and found: "match_totp_step (as_hash svc) secret value (e_now env) (mf_last_accepted_step f) = Inr found"
    using ok by (auto simp: verify_mfa_value_def tx_Inr_iff)
  show ?thesis
  proof (cases found)
    case None
    let ?c = "consume_recovery_code i (hash_recovery_code (as_hash svc) value) (e_now env) db"
    have "fst ?c" "used" "db' = snd ?c"
      using ok secret found None i by (auto simp: verify_mfa_value_def tx_Inr_iff)
    then show ?thesis
      using consume_counts [OF inv] consumed_code_refused by (auto simp: hash_recovery_code_def)
  next
    case (Some step)
    let ?a = "accept_totp_step i step (e_now env) db"
    have a: "fst ?a" "\<not> used" "db' = snd ?a"
      using ok secret found Some i by (auto simp: verify_mfa_value_def tx_Inr_iff)
    note m = match_totp_step_cases(1) [OF found [unfolded Some]]
    have "get_mfa_factor i db' = Some (f\<lparr>mf_last_accepted_step := Some step, mf_updated_at := e_now env\<rparr>)"
      using accept_step_factor [OF get a(1) inv] a(3) by simp
    then show ?thesis using secret m a(2) by (auto dest!: match_totp_step_cases(1))
  qed
qed

definition sample_code :: string where
  "sample_code = (case totp_code sample_hashing (generate_totp_secret (replicate 20 1)) 0 of Inl _ \<Rightarrow> [] | Inr c \<Rightarrow> c)"

definition sample_challenged :: db where
  "sample_challenged = snd (login (sample_auth True) (auth_env (seconds 1)) (sample_auth_fresh 1) ''ann'' ''correct horse'' ''ip''
     (sample_accounts True))"

definition sample_enrolled :: "(auth_error + completed_mfa) \<times> db" where
  "sample_enrolled = complete_mfa (sample_auth True) (auth_env (seconds 2)) (sample_auth_fresh 2) ''t1'' sample_code
     (Some MFA_ENROLLMENT) sample_challenged"

lemma sample_challenged_inv: "auth_inv sample_challenged"
  unfolding sample_challenged_def by (rule login_inv [OF sample_accounts_inv])

lemma sample_enrolled_inv: "auth_inv (snd sample_enrolled)"
  unfolding sample_enrolled_def by (rule auth_call_inv [OF auth_call.complete_mfa sample_challenged_inv])

theorem mfa_value_single_use_witness:
  "\<exists>f db'. get_mfa_factor 1 (snd sample_enrolled) = Some f \<and>
     verify_mfa_value (sample_auth True) (auth_env (seconds 9)) f (casefold (recovery_code_text [1])) True (snd sample_enrolled)
       = Inr ((True, True), db') \<and>
     count_unused_recovery_codes 1 db' + 1 = count_unused_recovery_codes 1 (snd sample_enrolled)"
proof -
  let ?v = "\<lambda>f. verify_mfa_value (sample_auth True) (auth_env (seconds 9)) f (casefold (recovery_code_text [1])) True (snd sample_enrolled)"
  have "case get_mfa_factor 1 (snd sample_enrolled) of None \<Rightarrow> False | Some f \<Rightarrow>
      (case ?v f of Inl _ \<Rightarrow> False | Inr (r, _) \<Rightarrow> r = (True, True))" by code_simp
  then obtain f db' where "get_mfa_factor 1 (snd sample_enrolled) = Some f" "?v f = Inr ((True, True), db')"
    by (auto split: option.splits sum.splits)
  then show ?thesis using mfa_value_single_use [OF sample_enrolled_inv] by fastforce
qed

section \<open>Challenges work once\<close>

lemma verify_mfa_same:
  "verify_mfa_value svc env f value allow db = Inr (r, db') \<Longrightarrow> auth_challenges db' = auth_challenges db"
  by (auto simp: verify_mfa_value_def tx_Inr_iff accept_totp_step_def consume_recovery_code_def Let_def
      split: option.splits if_splits)

lemma finish_enrollment_same:
  "finish_enrollment svc env fresh user f value db = Inr ((u, codes), db') \<Longrightarrow>
     auth_challenges db' = auth_challenges db \<and> u_id u = u_id user"
  by (auto simp: finish_enrollment_def tx_Inr_iff accept_totp_step_def confirm_mfa_factor_def replace_recovery_codes_def Let_def
      split: option.splits if_splits)

lemma pass_second_factor_same:
  "pass_second_factor svc env fresh c user f value db = Inr ((u, codes, act), db') \<Longrightarrow>
     auth_challenges db' = auth_challenges db \<and> u_id u = u_id user"
  by (auto simp: pass_second_factor_def tx_Inr_iff split: if_splits dest: verify_mfa_same finish_enrollment_same)

lemma replace_sessions_InrD:
  assumes "replace_sessions svc env fresh c u codes act db = Inr (cm, db')"
  shows "auth_challenges db' = update_where (\<lambda>x. ch_id x = ch_id c \<and> ch_consumed_at x = None)
      (\<lambda>x. x\<lparr>ch_consumed_at := Some (e_now env)\<rparr>) (auth_challenges db) \<and>
    sessions db' = delete_where (\<lambda>s. s_user_id s = u_id u) (sessions db) @ [issued_row svc env fresh u (Some (e_now env)) True] \<and>
    sp_user_id (is_principal (cm_issued cm)) = u_id u"
  using assms
  by (auto simp: replace_sessions_def tx_Inr_iff audit_def mark_challenge_consumed_def delete_user_sessions_def Let_def
      dest!: issue_InrD)

lemma complete_mfa_InrD:
  assumes "complete_mfa svc env fresh tok value p db = (Inr cm, db')"
  shows "set_totp_enabled (as_cfg svc) \<and> (\<exists>c u codes act db2.
     resolve_challenge (hash_token (as_hash svc) tok) (e_now env) db = Some c \<and> u_id u = ch_user_id c \<and>
     auth_challenges db2 = auth_challenges db \<and> replace_sessions svc env fresh c u codes act db2 = Inr (cm, db'))"
proof -
  have body: "complete_mfa_body svc env fresh tok value p db = Inr (cm, db')" and on: "set_totp_enabled (as_cfg svc)"
    using assms by (auto simp: complete_mfa_def unit_of_work_Inr_iff tx_Inr_iff require_totp_enabled_def split: if_splits)
  from body obtain c user f u codes act db2 where c: "resolve_challenge (hash_token (as_hash svc) tok) (e_now env) db = Some c"
    and user: "get_user (ch_user_id c) db = Some user"
    and pass: "pass_second_factor svc env fresh c user f value db = Inr ((u, codes, act), db2)"
    and rest: "replace_sessions svc env fresh c u codes act db2 = Inr (cm, db')"
    by (auto simp: complete_mfa_body_def tx_Inr_iff split: option.splits)
  have "u_id user = ch_user_id c" using user by (auto simp: get_user_def dest: fetch_one_SomeD)
  then show ?thesis using on c rest pass_second_factor_same [OF pass] by auto
qed

text \<open>
  A challenge works once: after it was completed, the user's only session is the one that was
  issued, marked as verified by the second factor, and every later attempt with the same challenge
  token is refused and changes nothing.
\<close>

theorem challenge_single_use:
  assumes inv: "auth_inv db" and ok: "complete_mfa svc env fresh tok value p db = (Inr cm, db')"
  shows "(\<exists>u s. set (filter (\<lambda>s. s_user_id s = u) (sessions db')) = {s} \<and> s_mfa_verified_at s = Some (e_now env) \<and>
       sp_user_id (is_principal (cm_issued cm)) = u) \<and>
     complete_mfa svc env' fresh' tok value' p' db' = (Inl InvalidChallenge, db')"
proof -
  obtain c u codes act db2 where on: "set_totp_enabled (as_cfg svc)"
    and c: "resolve_challenge (hash_token (as_hash svc) tok) (e_now env) db = Some c"
    and same: "auth_challenges db2 = auth_challenges db"
    and rest: "replace_sessions svc env fresh c u codes act db2 = Inr (cm, db')"
    using complete_mfa_InrD [OF ok] by blast
  note r = replace_sessions_InrD [OF rest]
  let ?row = "issued_row svc env fresh u (Some (e_now env)) True"
  have row: "s_user_id ?row = u_id u" "s_mfa_verified_at ?row = Some (e_now env)" by (simp_all add: issued_row_def)
  have one: "set (filter (\<lambda>s. s_user_id s = u_id u) (sessions db')) = {?row}" using r row(1) by auto
  have mem: "c \<in> set (auth_challenges db)" "ch_token_hash c = hash_token (as_hash svc) tok"
    using c by (auto simp: resolve_challenge_def open_challenge_def dest: fetch_one_SomeD)
  have distinct: "distinct (map ch_token_hash (auth_challenges db))"
    using inv by (auto simp: auth_inv_def challenges_ok_def dest: auth_keysD(3))
  have "\<not> open_challenge (hash_token (as_hash svc) tok) t x" if x: "x \<in> set (auth_challenges db')" for x t
  proof -
    obtain x0 where x0: "x0 \<in> set (auth_challenges db)"
      "x = (if ch_id x0 = ch_id c \<and> ch_consumed_at x0 = None then x0\<lparr>ch_consumed_at := Some (e_now env)\<rparr> else x0)"
      using x r same unfolding set_update_where [symmetric] by (auto simp: set_update_where)
    then show ?thesis using row_by_key [OF distinct x0(1) mem(1)] mem(2) by (auto simp: open_challenge_def split: if_splits)
  qed
  then have "resolve_challenge (hash_token (as_hash svc) tok) t db' = None" for t
    by (simp add: resolve_challenge_def fetch_one_None_iff)
  then have "complete_mfa svc env' fresh' tok value' p' db' = (Inl InvalidChallenge, db')"
    using on by (simp add: complete_mfa_def require_totp_enabled_def complete_mfa_body_def tx_bind_def tx_then_def tx_check_def)
  then show ?thesis using one row(2) r by blast
qed

theorem challenge_single_use_witness:
  "\<exists>cm. fst sample_enrolled = Inr cm \<and>
     complete_mfa (sample_auth True) (auth_env (seconds 3)) (sample_auth_fresh 3) ''t1'' sample_code None (snd sample_enrolled)
       = (Inl InvalidChallenge, snd sample_enrolled)"
proof -
  have "case fst sample_enrolled of Inl _ \<Rightarrow> False | Inr _ \<Rightarrow> True" by code_simp
  then obtain cm where cm: "fst sample_enrolled = Inr cm" by (auto split: sum.splits)
  then have "complete_mfa (sample_auth True) (auth_env (seconds 2)) (sample_auth_fresh 2) ''t1'' sample_code
      (Some MFA_ENROLLMENT) sample_challenged = (Inr cm, snd sample_enrolled)"
    by (simp add: sample_enrolled_def prod_eq_iff)
  from challenge_single_use [OF sample_challenged_inv this] cm show ?thesis by blast
qed

end
