(* ===== verification/Auth_Queue.thy ===== *)
theory Auth_Queue
  imports Auth_Invariant Run_Machine
begin

text \<open>
  Authentication beside the queue: no call of the authentication service touches a table of the
  queue, so each of them is a step of the run machine, and what holds along its executions holds with
  logins, account changes and purges interleaved.
\<close>

named_theorems queue_keeping

lemma keeps_queue_statements [queue_keeping]:
  "keeps (same_run_tables d0) (audit svc env act d)" "keeps (same_run_tables d0) (tx_write (audit_append env act outcome src d))"
  "keeps (same_run_tables d0) (tx_write (update_password_hash i h t))" "keeps (same_run_tables d0) (tx_write (delete_session i))"
  "keeps (same_run_tables d0) (tx_write (delete_user_sessions i))" "keeps (same_run_tables d0) (tx_write (confirm_mfa_factor i t))"
  "keeps (same_run_tables d0) (tx_write (reset_mfa i t))" "keeps (same_run_tables d0) (tx_write (clear_rate_limit sc h t))"
  "keeps (same_run_tables d0) (tx_write (invalidate_activation_tokens i t))"
  by (simp_all add: keeps_def same_run_tables_def audit_def update_password_hash_def delete_session_def
      delete_user_sessions_def confirm_mfa_factor_def reset_mfa_def clear_rate_limit_def invalidate_activation_tokens_def)

lemma keeps_queue_queries [queue_keeping]:
  "keeps (same_run_tables d0) (tx_query (elevate_session i t e))" "keeps (same_run_tables d0) (tx_query (mark_challenge_consumed i t))"
  "keeps (same_run_tables d0) (tx_query (accept_totp_step i n t))" "keeps (same_run_tables d0) (tx_query (consume_recovery_code i h t))"
  "keeps (same_run_tables d0) (tx_query (purge_expired_rows t))" "keeps (same_run_tables d0) (tx_query (consume_activation_token h t))"
  by (auto simp: keeps_def same_run_tables_def elevate_session_def mark_challenge_consumed_def accept_totp_step_def
      consume_recovery_code_def purge_expired_rows_def consume_activation_token_def Let_def split: option.splits)

lemma keeps_queue_inserts [queue_keeping]:
  "keeps (same_run_tables d0) (add_session s)" "keeps (same_run_tables d0) (add_challenge c)"
  "keeps (same_run_tables d0) (put_mfa_factor f)" "keeps (same_run_tables d0) (replace_recovery_codes i rows t)"
  "keeps (same_run_tables d0) (add_activation_token tok)" "keeps (same_run_tables d0) (insert_user u)"
  "keeps (same_run_tables d0) (update_user i role status v t)" "keeps (same_run_tables d0) (activate_user i h m t)"
  by (auto simp: keeps_def same_run_tables_def add_session_def add_challenge_def put_mfa_factor_def replace_recovery_codes_def
      add_activation_token_def insert_user_def update_user_def activate_user_def Let_def split: option.splits if_splits)

lemma keeps_queue_enforce [queue_keeping]: "keeps (same_run_tables d0) enforce_active_owner"
  by (rule keeps_enforce)

lemma keeps_queue_parts [queue_keeping]:
  "keeps (same_run_tables d0) (issue svc env fresh user m v e)"
  "keeps (same_run_tables d0) (issue_challenge svc env fresh user p b)"
  "keeps (same_run_tables d0) (verify_mfa_value svc env factor value allow)"
  "keeps (same_run_tables d0) (finish_enrollment svc env fresh user factor value)"
  "keeps (same_run_tables d0) (manage_users env actor)"
  unfolding issue_def issue_challenge_def enroll_factor_def verify_mfa_value_def finish_enrollment_def manage_users_def Let_def
  by (intro keeping queue_keeping)+

lemma keeps_queue_bodies [queue_keeping]:
  "keeps (same_run_tables d0) (login_body svc env fresh name password bucket)"
  "keeps (same_run_tables d0) (complete_mfa_body svc env fresh tok value p)"
  "keeps (same_run_tables d0) (reauthenticate_factor svc env actor value')"
  "keeps (same_run_tables d0) (create_user_body svc env fresh actor name role)"
  "keeps (same_run_tables d0) (change_user_body svc env actor i role status v)"
  unfolding login_body_def login_result_def complete_mfa_body_def pass_second_factor_def replace_sessions_def
    reauthenticate_factor_def create_user_body_def change_user_body_def add_user_def Let_def
  by (intro keeping queue_keeping)+

lemma queue_unit: "keeps (same_run_tables db) m \<Longrightarrow> same_run_tables db (snd (unit_of_work m db))"
  using keeps_unit_of_work [of "same_run_tables db" m db] by simp

lemma consume_rate_limit_queue:
  "same_run_tables d0 db \<Longrightarrow> consume_rate_limit svc env scope subject maximum secs db = (r, db') \<Longrightarrow> same_run_tables d0 db'"
  by (auto simp: consume_rate_limit_def consume_rate_limit_row_def same_run_tables_def split_def Let_def split: option.splits)

lemma login_queue: "same_run_tables db (snd (login svc env fresh name password client db))"
proof -
  let ?cfg = "as_cfg svc" let ?name = "canonical_username name"
  obtain r1 db1 where one: "consume_rate_limit svc env ''login:ip'' client (set_auth_login_ip_limit ?cfg)
      (set_auth_login_ip_window_seconds ?cfg) db = (r1, db1)" by fastforce
  obtain r2 db2 where two: "consume_rate_limit svc env ''login:username_ip'' (?name @ [CHR 0x00] @ client)
      (set_auth_login_username_ip_limit ?cfg) (set_auth_login_username_ip_window_seconds ?cfg) db1 = (r2, db2)" by fastforce
  have same1: "same_run_tables db db1" by (rule consume_rate_limit_queue [OF same_run_tables_refl one])
  have same2: "same_run_tables db db2" by (rule consume_rate_limit_queue [OF same1 two])
  show ?thesis
    unfolding login_def Let_def one prod.case two
    using same1 same2 keeps_unit_of_work [OF keeps_queue_bodies(1) same2] by (simp split: sum.splits)
qed

lemma auth_call_queue: "auth_call now db db' \<Longrightarrow> same_run_tables db db'"
proof (induction rule: auth_call.induct)
  case (login env db svc fresh name password client)
  show ?case by (rule login_queue)
next
  case (create_user actor db env svc fresh name role)
  then show ?case
    using queue_unit [OF keeps_queue_bodies(4), of db svc env fresh actor name role]
    by (auto simp: create_user_def split: prod.splits sum.splits auth_error.splits)
next
  case (change_user env db svc actor i role status v)
  then show ?case
    using queue_unit [OF keeps_queue_bodies(5), of db svc env actor i role status v]
    by (auto simp: change_user_def split: prod.splits sum.splits)
qed (unfold bootstrap_def add_admin_def complete_mfa_def begin_mfa_enrollment_def reauthenticate_def auth_activate_def
    reissue_activation_def reset_user_mfa_def regenerate_recovery_codes_def change_password_def break_glass_reset_mfa_def
    break_glass_reset_password_def logout_def purge_expired_def Let_def, (rule queue_unit, intro keeping queue_keeping)+)

end
