(* ===== verification/Asset_Repository.thy ===== *)
theory Asset_Repository
  imports Assets Transaction
begin

text \<open>
  The statements of \<open>repositories/assets.py\<close> that list and change credentials, hosts, groups, host
  keys and settings. Primary keys, unique names and foreign keys of migrations \<open>0030\<close>, \<open>0060\<close> and
  \<open>0080\<close> are checked by the statements that could violate them; \<open>ON DELETE CASCADE\<close> is written out.
\<close>

type_synonym 'a ops_tx = "(ops_error, db, 'a) tx"

section \<open>Credentials\<close>

definition live_credential :: "uuid \<Rightarrow> credential \<Rightarrow> bool" where
  "live_credential credential_id c \<longleftrightarrow> c_id c = credential_id \<and> c_deleted_at c = None"

definition list_credentials :: "db \<Rightarrow> credential list" where
  "list_credentials db = sort_key c_name (filter (\<lambda>c. c_deleted_at c = None) (credentials db))"

definition get_credential :: "uuid \<Rightarrow> db \<Rightarrow> credential option" where
  "get_credential credential_id db = fetch_one (live_credential credential_id) (credentials db)"

text \<open>The two inserts into \<open>credential_revisions\<close> and \<open>credential_secret_envelopes\<close>.\<close>

definition insert_credential_revision :: "credential_revision \<Rightarrow> unit ops_tx" where
  "insert_credential_revision r db =
     (if cr_credential_id r \<notin> set (map c_id (credentials db)) then Inl (ForeignKeyViolation ''credential_revisions'')
      else if (cr_credential_id r, cr_version r) \<in>
                set (map (\<lambda>x. (cr_credential_id x, cr_version x)) (credential_revisions db))
      then Inl (UniqueViolation ''credential_revisions'')
      else Inr ((), db\<lparr>credential_revisions := credential_revisions db @ [r]\<rparr>))"

definition insert_credential :: "credential \<Rightarrow> credential ops_tx" where
  "insert_credential c db =
     (if \<exists>x \<in> set (credentials db). c_id x = c_id c \<or> c_name x = c_name c
      then Inl (ConflictError ''credential name already exists'')
      else Inr (c, db\<lparr>credentials := credentials db @ [c]\<rparr>))"

definition add_credential :: "credential \<Rightarrow> credential_revision \<Rightarrow> credential ops_tx" where
  "add_credential c r =
     tx_bind (insert_credential c) (\<lambda>row. tx_then (insert_credential_revision r) (tx_return row))"

definition rotated_credential :: "nat \<Rightarrow> timestamp \<Rightarrow> credential \<Rightarrow> credential" where
  "rotated_credential version now c =
     c\<lparr>c_current_version := version, c_lock_version := c_lock_version c + 1, c_updated_at := now\<rparr>"

definition rotate_credential ::
    "uuid \<Rightarrow> credential_revision \<Rightarrow> timestamp \<Rightarrow> credential option ops_tx" where
  "rotate_credential credential_id r now =
     tx_then (insert_credential_revision r)
       (tx_query (\<lambda>db. (map_option (rotated_credential (cr_version r) now) (get_credential credential_id db),
          db\<lparr>credentials := update_where (live_credential credential_id)
                              (rotated_credential (cr_version r) now) (credentials db)\<rparr>)))"

definition described_credential :: "credential \<Rightarrow> credential \<Rightarrow> credential" where
  "described_credential new c =
     c\<lparr>c_name := c_name new, c_username := c_username new, c_public_config := c_public_config new,
       c_enabled := c_enabled new, c_description := c_description new,
       c_lock_version := c_lock_version c + 1, c_updated_at := c_updated_at new\<rparr>"

definition update_credential_metadata :: "credential \<Rightarrow> nat \<Rightarrow> credential option ops_tx" where
  "update_credential_metadata new expected db =
     (let p = (\<lambda>c. live_credential (c_id new) c \<and> c_lock_version c = expected) in
      case fetch_one p (credentials db) of
        None \<Rightarrow> Inr (None, db)
      | Some c \<Rightarrow>
          if \<exists>x \<in> set (credentials db). c_id x \<noteq> c_id new \<and> c_name x = c_name new
          then Inl (ConflictError ''credential name already exists'')
          else Inr (Some (described_credential new c),
                    db\<lparr>credentials := update_where p (described_credential new) (credentials db)\<rparr>))"

definition list_credential_revisions :: "uuid \<Rightarrow> db \<Rightarrow> credential_revision list" where
  "list_credential_revisions credential_id db =
     rev (sort_key cr_version (filter (\<lambda>r. cr_credential_id r = credential_id) (credential_revisions db)))"

definition delete_credential :: "uuid \<Rightarrow> timestamp \<Rightarrow> db \<Rightarrow> bool \<times> db" where
  "delete_credential credential_id now db =
     (let p = (\<lambda>c. live_credential credential_id c \<and> c_id c \<notin> set (map h_credential_id (hosts db))) in
      (fetch_one p (credentials db) \<noteq> None,
       db\<lparr>credentials := update_where p
            (\<lambda>c. c\<lparr>c_enabled := False, c_deleted_at := Some now, c_updated_at := now\<rparr>) (credentials db)\<rparr>))"

section \<open>Hosts\<close>

definition list_hosts :: "db \<Rightarrow> host list" where
  "list_hosts db = sort_key h_name (hosts db)"

definition add_host :: "host \<Rightarrow> host ops_tx" where
  "add_host h db =
     (if \<exists>x \<in> set (hosts db). h_id x = h_id h \<or> h_name x = h_name h
      then Inl (ConflictError ''host name already exists'')
      else if h_credential_id h \<notin> set (map c_id (credentials db)) then Inl (ForeignKeyViolation ''hosts'')
      else Inr (h, db\<lparr>hosts := hosts db @ [h]\<rparr>))"

definition changed_host :: "host \<Rightarrow> host \<Rightarrow> host" where
  "changed_host new h =
     h\<lparr>h_name := h_name new, h_address := h_address new, h_ssh_port := h_ssh_port new,
       h_credential_id := h_credential_id new, h_python_interpreter := h_python_interpreter new,
       h_enabled := h_enabled new, h_description := h_description new, h_variables := h_variables new,
       h_version := h_version h + 1, h_updated_at := h_updated_at new\<rparr>"

definition update_host_row :: "host \<Rightarrow> nat \<Rightarrow> host option ops_tx" where
  "update_host_row new expected db =
     (let p = (\<lambda>h. h_id h = h_id new \<and> h_version h = expected) in
      case fetch_one p (hosts db) of
        None \<Rightarrow> Inr (None, db)
      | Some h \<Rightarrow>
          if \<exists>x \<in> set (hosts db). h_id x \<noteq> h_id new \<and> h_name x = h_name new
          then Inl (ConflictError ''host name already exists'')
          else if h_credential_id new \<notin> set (map c_id (credentials db)) then Inl (ForeignKeyViolation ''hosts'')
          else Inr (Some (changed_host new h), db\<lparr>hosts := update_where p (changed_host new) (hosts db)\<rparr>))"

text \<open>
  Deleting a host takes its keys, memberships and locks along; a Web Shell session on the host
  restricts the deletion, and the statement raises.
\<close>

definition delete_host_row :: "uuid \<Rightarrow> bool ops_tx" where
  "delete_host_row host_id db =
     (if get_host host_id db = None \<or> host_id \<in> set (map t_host_id (run_targets db)) then Inr (False, db)
      else if host_id \<in> set (map ws_host_id (web_shell_sessions db))
      then Inl (ForeignKeyViolation ''web_shell_sessions'')
      else Inr (True, db\<lparr>hosts := delete_where (\<lambda>h. h_id h = host_id) (hosts db),
                         host_keys := delete_where (\<lambda>k. hk_host_id k = host_id) (host_keys db),
                         host_group_members := delete_where (\<lambda>m. snd m = host_id) (host_group_members db),
                         host_execution_locks :=
                           delete_where (\<lambda>l. hl_host_id l = host_id) (host_execution_locks db)\<rparr>))"

section \<open>Groups\<close>

text \<open>The \<open>host_ids\<close> of a group: \<open>array_agg(m.host_id ORDER BY m.host_id)\<close>.\<close>

definition group_host_ids :: "uuid \<Rightarrow> db \<Rightarrow> uuid list" where
  "group_host_ids group_id db = sort (map snd (filter (\<lambda>m. fst m = group_id) (host_group_members db)))"

definition list_groups :: "db \<Rightarrow> (host_group \<times> uuid list) list" where
  "list_groups db = map (\<lambda>g. (g, group_host_ids (g_id g) db)) (sort_key g_name (host_groups db))"

definition add_group :: "host_group \<Rightarrow> host_group ops_tx" where
  "add_group g db =
     (if \<exists>x \<in> set (host_groups db). g_id x = g_id g \<or> g_name x = g_name g
      then Inl (ConflictError ''group name already exists'')
      else Inr (g, db\<lparr>host_groups := host_groups db @ [g]\<rparr>))"

definition changed_group :: "host_group \<Rightarrow> host_group \<Rightarrow> host_group" where
  "changed_group new g =
     g\<lparr>g_name := g_name new, g_description := g_description new, g_variables := g_variables new,
       g_updated_at := g_updated_at new\<rparr>"

definition update_group_row :: "host_group \<Rightarrow> host_group option ops_tx" where
  "update_group_row new db =
     (case get_group (g_id new) db of
        None \<Rightarrow> Inr (None, db)
      | Some g \<Rightarrow>
          if \<exists>x \<in> set (host_groups db). g_id x \<noteq> g_id new \<and> g_name x = g_name new
          then Inl (ConflictError ''group name already exists'')
          else Inr (Some (changed_group new g),
                    db\<lparr>host_groups := update_where (\<lambda>x. g_id x = g_id new) (changed_group new) (host_groups db)\<rparr>))"

definition delete_group_row :: "uuid \<Rightarrow> db \<Rightarrow> bool \<times> db" where
  "delete_group_row group_id db =
     (get_group group_id db \<noteq> None,
      db\<lparr>host_groups := delete_where (\<lambda>g. g_id g = group_id) (host_groups db),
         host_group_members := delete_where (\<lambda>m. fst m = group_id) (host_group_members db)\<rparr>)"

fun insert_members :: "uuid \<Rightarrow> uuid list \<Rightarrow> unit ops_tx" where
  "insert_members group_id [] db = Inr ((), db)"
| "insert_members group_id (h # hs) db =
     (if get_group group_id db = None \<or> get_host h db = None then Inl (ForeignKeyViolation ''host_group_members'')
      else if (group_id, h) \<in> set (host_group_members db) then Inl (UniqueViolation ''host_group_members'')
      else insert_members group_id hs (db\<lparr>host_group_members := host_group_members db @ [(group_id, h)]\<rparr>))"

definition replace_group_members :: "uuid \<Rightarrow> uuid list \<Rightarrow> unit ops_tx" where
  "replace_group_members group_id host_ids =
     tx_then (tx_write (\<lambda>db. db\<lparr>host_group_members := delete_where (\<lambda>m. fst m = group_id) (host_group_members db)\<rparr>))
       (insert_members group_id host_ids)"

section \<open>Host keys and settings\<close>

definition upsert_host_key :: "host_key \<Rightarrow> host_key ops_tx" where
  "upsert_host_key k db =
     (let p = (\<lambda>x. hk_host_id x = hk_host_id k \<and> hk_algorithm x = hk_algorithm k) in
      if get_host (hk_host_id k) db = None \<or> hk_trusted_by k \<notin> set (map u_id (users db))
      then Inl (ForeignKeyViolation ''host_keys'')
      else Inr (k, db\<lparr>host_keys := (if \<exists>x \<in> set (host_keys db). p x then update_where p (\<lambda>_. k) (host_keys db)
                                    else host_keys db @ [k])\<rparr>))"

definition get_setting :: "string \<Rightarrow> db \<Rightarrow> ops_error + jobj option" where
  "get_setting key db =
     (case map_of (app_settings db) key of
        None \<Rightarrow> Inr None
      | Some (JObj d) \<Rightarrow> Inr (Some d)
      | Some _ \<Rightarrow> Inl (RuntimeErr ''setting value is not a JSON object''))"

definition put_setting :: "string \<Rightarrow> jobj \<Rightarrow> db \<Rightarrow> db" where
  "put_setting key v db =
     db\<lparr>app_settings := (if key \<in> set (map fst (app_settings db))
                         then update_where (\<lambda>s. fst s = key) (\<lambda>s. (fst s, JObj v)) (app_settings db)
                         else app_settings db @ [(key, JObj v)])\<rparr>"

end
