(* ===== verification/Asset_Validation.thy ===== *)
theory Asset_Validation
  imports Crypto
begin

text \<open>
  The checks of \<open>services/assets.py\<close> on what operators enter: host and group names, reserved Ansible
  variables and addresses, with the parsers of Python's \<open>ipaddress\<close> module and the host name
  pattern \<open>FQDN\<close> they rest on; and base64 as the host-key scan uses it.
\<close>

section \<open>Names and variables\<close>

text \<open>\<open>HOST_NAME\<close> and \<open>GROUP_NAME\<close> are the same pattern.\<close>

definition name_char :: "char \<Rightarrow> bool" where
  "name_char c \<longleftrightarrow> alnum c \<or> c \<in> set ''._-''"

definition HOST_NAME :: "string \<Rightarrow> bool" where
  "HOST_NAME s \<longleftrightarrow>
     (case s of [] \<Rightarrow> False | c # cs \<Rightarrow> alnum c \<and> (\<forall>x \<in> set cs. name_char x) \<and> length cs \<le> 127)"

definition RESERVED_VARIABLES :: "string list" where
  "RESERVED_VARIABLES =
     [''ansible_password'', ''ansible_become_password'', ''ansible_private_key_file'',
      ''ansible_ssh_common_args'', ''ansible_connection'', ''ansible_host'', ''ansible_port'', ''ansible_user'']"

definition validate_variables :: "jobj \<Rightarrow> ops_error + unit" where
  "validate_variables variables =
     (if \<exists>k \<in> set (dict_keys variables). k \<in> set RESERVED_VARIABLES
      then Inl (ValidationError ''reserved Ansible connection variables are not allowed'') else Inr ())"

section \<open>Addresses\<close>

text \<open>\<open>IPv4Address\<close>: four decimal octets without leading zeros.\<close>

definition ascii_digit :: "char \<Rightarrow> bool" where
  "ascii_digit c \<longleftrightarrow> CHR ''0'' \<le> c \<and> c \<le> CHR ''9''"

definition ipv4_octet :: "string \<Rightarrow> bool" where
  "ipv4_octet s \<longleftrightarrow> s \<noteq> [] \<and> list_all ascii_digit s \<and> length s \<le> 3 \<and>
     (s = ''0'' \<or> hd s \<noteq> CHR ''0'') \<and> digits_value s \<le> 255"

definition ipv4_address :: "string \<Rightarrow> bool" where
  "ipv4_address s \<longleftrightarrow>
     (let octets = py_split (CHR ''.'') s in length octets = 4 \<and> list_all ipv4_octet octets)"

text \<open>\<open>IPv6Address\<close>: hextets, at most one \<open>::\<close>, an embedded IPv4 tail and a scope.\<close>

definition hextet :: "string \<Rightarrow> bool" where
  "hextet s \<longleftrightarrow> s \<noteq> [] \<and> length s \<le> 4 \<and>
     list_all (\<lambda>c. ascii_digit c \<or> (CHR ''a'' \<le> c \<and> c \<le> CHR ''f'') \<or> (CHR ''A'' \<le> c \<and> c \<le> CHR ''F'')) s"

text \<open>An embedded IPv4 address stands for two hextets.\<close>

definition ipv6_expand :: "string list \<Rightarrow> string list option" where
  "ipv6_expand parts =
     (if CHR ''.'' \<in> set (last parts)
      then (if ipv4_address (last parts) then Some (butlast parts @ [''0'', ''0'']) else None)
      else Some parts)"

definition ipv6_parts :: "string list \<Rightarrow> bool" where
  "ipv6_parts parts \<longleftrightarrow>
     (case filter (\<lambda>i. parts ! i = []) [1..<length parts - 1] of
        [] \<Rightarrow> length parts = 8 \<and> list_all hextet parts
      | [skip] \<Rightarrow>
          (let high = take skip parts; low = drop (skip + 1) parts;
               high' = (if hd parts = [] then tl high else high);
               low' = (if last parts = [] then butlast low else low)
           in (hd parts = [] \<longrightarrow> high' = []) \<and> (last parts = [] \<longrightarrow> low' = []) \<and>
              length high' + length low' < 8 \<and> list_all hextet high' \<and> list_all hextet low')
      | _ \<Rightarrow> False)"

definition ipv6_number :: "string \<Rightarrow> bool" where
  "ipv6_number s \<longleftrightarrow>
     (let parts = py_split (CHR '':'') s in
      3 \<le> length parts \<and>
      (case ipv6_expand parts of None \<Rightarrow> False | Some ps \<Rightarrow> length ps \<le> 9 \<and> ipv6_parts ps))"

definition ipv6_address :: "string \<Rightarrow> bool" where
  "ipv6_address s \<longleftrightarrow> CHR ''/'' \<notin> set s \<and>
     (case py_split (CHR ''%'') s of
        [addr] \<Rightarrow> ipv6_number addr
      | [addr, scope] \<Rightarrow> scope \<noteq> [] \<and> ipv6_number addr
      | _ \<Rightarrow> False)"

definition ip_address :: "string \<Rightarrow> bool" where
  "ip_address s \<longleftrightarrow> ipv4_address s \<or> ipv6_address s"

text \<open>\<open>FQDN\<close>: labels of letters, digits and inner dashes, of at most 63 characters, at most 253 in all.\<close>

definition fqdn_label :: "string \<Rightarrow> bool" where
  "fqdn_label s \<longleftrightarrow> s \<noteq> [] \<and> length s \<le> 63 \<and> alnum (hd s) \<and> alnum (last s) \<and>
     list_all (\<lambda>c. alnum c \<or> c = CHR ''-'') s"

definition fqdn_body :: "string \<Rightarrow> string" where
  "fqdn_body s = (if s \<noteq> [] \<and> last s = CHR ''.'' then butlast s else s)"

definition FQDN :: "string \<Rightarrow> bool" where
  "FQDN s \<longleftrightarrow> length (fqdn_body s) \<le> 253 \<and> list_all fqdn_label (py_split (CHR ''.'') (fqdn_body s))"

definition validate_address :: "string \<Rightarrow> ops_error + string" where
  "validate_address address =
     (let normalized = py_strip address in
      if ip_address normalized \<or> FQDN normalized then Inr normalized
      else Inl (ValidationError ''address must be an IPv4, IPv6, or FQDN''))"

section \<open>Base64\<close>

definition B64_ALPHABET :: string where
  "B64_ALPHABET = ''ABCDEFGHIJKLMNOPQRSTUVWXYZabcdefghijklmnopqrstuvwxyz0123456789+/''"

definition b64_char :: "nat \<Rightarrow> char" where
  "b64_char n = B64_ALPHABET ! n"

fun b64encode :: "bytes \<Rightarrow> string" where
  "b64encode [] = []"
| "b64encode [a] = [b64_char (a div 4), b64_char ((a mod 4) * 16), CHR ''='', CHR ''='']"
| "b64encode [a, b] = [b64_char (a div 4), b64_char ((a mod 4) * 16 + b div 16), b64_char ((b mod 16) * 4), CHR ''='']"
| "b64encode (a # b # c # rest) =
     [b64_char (a div 4), b64_char ((a mod 4) * 16 + b div 16), b64_char ((b mod 16) * 4 + c div 64),
      b64_char (c mod 64)] @ b64encode rest"

text \<open>
  \<open>b64decode\<close> without \<open>validate\<close>: characters outside the alphabet are skipped, a complete padding ends the
  input, and what is left of a group of four raises. The accumulator holds the values of the group.
\<close>

fun b64_group :: "nat list \<Rightarrow> bytes" where
  "b64_group [x, y] = [x * 4 + y div 16]"
| "b64_group [x, y, z] = [x * 4 + y div 16, (y mod 16) * 16 + z div 4]"
| "b64_group [x, y, z, w] = [x * 4 + y div 16, (y mod 16) * 16 + z div 4, (z mod 4) * 64 + w]"
| "b64_group _ = []"

definition std_b64_value :: "char \<Rightarrow> nat option" where
  "std_b64_value c = (if c \<in> set ''-_'' then None else b64_value c)"

fun lenient_b64 :: "nat list \<Rightarrow> nat \<Rightarrow> string \<Rightarrow> bytes option" where
  "lenient_b64 quad pads [] = (if quad = [] then Some [] else None)"
| "lenient_b64 quad pads (c # cs) =
     (if c = CHR ''=''
      then (if 2 \<le> length quad \<and> 4 \<le> length quad + (pads + 1) then Some (b64_group quad)
            else lenient_b64 quad (if 2 \<le> length quad then pads + 1 else pads) cs)
      else case std_b64_value c of
             None \<Rightarrow> lenient_b64 quad pads cs
           | Some v \<Rightarrow>
               (if length quad = 3
                then map_option ((@) (b64_group (quad @ [v]))) (lenient_b64 [] 0 cs)
                else lenient_b64 (quad @ [v]) 0 cs))"

definition b64decode_lenient :: "string \<Rightarrow> bytes option" where
  "b64decode_lenient s = lenient_b64 [] 0 s"

definition std_b64decode :: "string \<Rightarrow> bytes option" where
  "std_b64decode s = (if CHR ''-'' \<in> set s \<or> CHR ''_'' \<in> set s then None else b64decode s)"

section \<open>Words and lines\<close>

text \<open>\<open>str.split()\<close> without a separator: the maximal runs of characters that are not white space.\<close>

fun py_words :: "string \<Rightarrow> string list" where
  "py_words [] = []"
| "py_words (c # cs) =
     (if is_space c then py_words cs
      else case cs of
             [] \<Rightarrow> [[c]]
           | d # ds \<Rightarrow> (if is_space d then [c] # py_words cs
                        else case py_words cs of [] \<Rightarrow> [[c]] | w # ws \<Rightarrow> (c # w) # ws))"

text \<open>\<open>str.splitlines()\<close>: ASCII line boundaries, \<open>\r\n\<close> counting once, no empty line at the end.\<close>

definition line_break :: "char \<Rightarrow> bool" where
  "line_break c \<longleftrightarrow> c \<in> {CHR 0x0A, CHR 0x0B, CHR 0x0C, CHR 0x0D, CHR 0x1C, CHR 0x1D, CHR 0x1E}"

fun split_lines :: "string \<Rightarrow> string \<Rightarrow> string list" where
  "split_lines line [] = (if line = [] then [] else [line])"
| "split_lines line (c # cs) =
     (if c = CHR 0x0D \<and> cs \<noteq> [] \<and> hd cs = CHR 0x0A then line # split_lines [] (tl cs)
      else if line_break c then line # split_lines [] cs
      else split_lines (line @ [c]) cs)"

definition py_splitlines :: "string \<Rightarrow> string list" where
  "py_splitlines s = split_lines [] s"

definition rstrip_pad :: "string \<Rightarrow> string" where
  "rstrip_pad s = rev (dropWhile (\<lambda>c. c = CHR ''='') (rev s))"

text \<open>\<open>str_strip_whitespace\<close> of \<open>StrictDomainModel\<close> applies to the keys of a \<open>dict[str, object]\<close> too.\<close>

definition strip_keys :: "jobj \<Rightarrow> jobj" where
  "strip_keys d = fold (\<lambda>(k, v) acc. dict_set (py_strip k) v acc) d []"

end
