(* ===== verification/Credential_Service.thy ===== *)
theory Credential_Service
  imports Asset_Repository Asset_Validation
begin

text \<open>
  \<open>CredentialService\<close> of \<open>services/assets.py\<close>: creating, rotating, updating, decrypting and deleting
  credentials. Reading a private key is the work of the package \<open>cryptography\<close> and comes with the
  service as \<open>cs_load_key\<close>, which gives the key and its public line or nothing where it raises; the
  values of \<open>uuid4()\<close> and of the nonce are arguments.
\<close>

datatype ssh_key = Ed25519 | RSA nat | EC string nat | Other_Key

record credential_service =
  cs_gcm :: aes_gcm
  cs_codec :: text_codec
  cs_keyring :: keyring
  cs_load_key :: "string \<Rightarrow> string option \<Rightarrow> (ssh_key \<times> string) option"
  cs_sha256 :: "bytes \<Rightarrow> bytes"
  cs_source :: audit_source

text \<open>Who calls: the audit columns and the principal the guards check, if any.\<close>

record caller =
  ca_actor_user_id :: "uuid option"
  ca_session_id :: "uuid option"
  ca_actor :: "session_principal option"

definition allowed :: "caller \<Rightarrow> permission \<Rightarrow> ops_error + unit" where
  "allowed who p =
     (case ca_actor who of None \<Rightarrow> Inr ()
      | Some actor \<Rightarrow> if permitted actor p then Inr () else Inl PermissionDeniedError)"

definition recently :: "env \<Rightarrow> caller \<Rightarrow> ops_error + unit" where
  "recently env who =
     (case ca_actor who of None \<Rightarrow> Inr ()
      | Some actor \<Rightarrow> if require_recent_reauthentication (e_now env) actor = Inr () then Inr ()
                     else Inl ReauthenticationRequiredError)"

definition resource_details :: "caller \<Rightarrow> string \<Rightarrow> uuid \<Rightarrow> audit_details" where
  "resource_details who resource_type resource_id =
     no_details\<lparr>ad_actor_user_id := ca_actor_user_id who, ad_session_id := ca_session_id who,
       ad_resource_type := Some resource_type, ad_resource_id := Some resource_id\<rparr>"

definition ops_audit ::
    "env \<Rightarrow> audit_source \<Rightarrow> caller \<Rightarrow> audit_action \<Rightarrow> string \<Rightarrow> uuid \<Rightarrow> unit ops_tx" where
  "ops_audit env src who act resource_type resource_id =
     tx_write (audit_append env act AO_SUCCEEDED src (resource_details who resource_type resource_id))"

section \<open>Public configuration\<close>

definition common_public_config :: "bool \<Rightarrow> string \<Rightarrow> string \<Rightarrow> ops_error + jobj" where
  "common_public_config become_enabled become_method become_user =
     (if become_method \<notin> {''sudo'', ''su'', ''doas''}
      then Inl (ValidationError ''unsupported privilege escalation method'')
      else Inr [(''becomeEnabled'', JBool become_enabled), (''becomeMethod'', JStr become_method),
                (''becomeUser'', JStr (if py_strip become_user = [] then ''root'' else py_strip become_user))])"

definition key_algorithm :: "ssh_key \<Rightarrow> ops_error + (string \<times> nat)" where
  "key_algorithm key =
     (case key of
        Ed25519 \<Rightarrow> Inr (''ssh-ed25519'', 256)
      | RSA bits \<Rightarrow> if bits < 2048 then Inl (ValidationError ''RSA private keys must contain at least 2048 bits'')
                   else Inr (''ssh-rsa'', bits)
      | EC curve bits \<Rightarrow> if curve \<in> {''secp256r1'', ''secp384r1'', ''secp521r1''} then Inr (''ecdsa-'' @ curve, bits)
                        else Inl (ValidationError ''unsupported SSH private key algorithm'')
      | Other_Key \<Rightarrow> Inl (ValidationError ''unsupported SSH private key algorithm''))"

definition fingerprint_of :: "(bytes \<Rightarrow> bytes) \<Rightarrow> bytes \<Rightarrow> string" where
  "fingerprint_of sha256 blob = ''SHA256:'' @ rstrip_pad (b64encode (sha256 blob))"

definition private_key_metadata :: "credential_service \<Rightarrow> string \<Rightarrow> string option \<Rightarrow> ops_error + jobj" where
  "private_key_metadata svc private_key passphrase =
     (case cs_load_key svc private_key passphrase of
        None \<Rightarrow> Inl (ValidationError ''SSH private key or passphrase is invalid'')
      | Some (key, public_line) \<Rightarrow>
          (case key_algorithm key of
             Inl e \<Rightarrow> Inl e
           | Inr (algorithm, bits) \<Rightarrow>
               (case (if length (py_words public_line) < 2 then None else std_b64decode (py_words public_line ! 1)) of
                  None \<Rightarrow> Inl (ValidationError ''SSH public key derivation failed'')
                | Some blob \<Rightarrow>
                    Inr [(''keyAlgorithm'', JStr algorithm), (''keyBits'', JInt (int bits)),
                         (''publicKeyFingerprint'', JStr (fingerprint_of (cs_sha256 svc) blob)),
                         (''hasPassphrase'', JBool (passphrase \<noteq> None))])))"

section \<open>Creating\<close>

definition new_credential ::
    "env \<Rightarrow> uuid \<Rightarrow> string \<Rightarrow> string \<Rightarrow> credential_type \<Rightarrow> jobj \<Rightarrow> string \<Rightarrow> credential" where
  "new_credential env credential_id name username ctype public_config description =
     \<lparr>c_id = credential_id, c_name = py_strip name, c_type = ctype, c_username = py_strip username,
      c_public_config = public_config, c_current_version = 1, c_lock_version = 1, c_enabled = True,
      c_description = py_strip description, c_deleted_at = None, c_created_at = e_now env,
      c_updated_at = e_now env\<rparr>"

definition new_revision ::
    "credential_service \<Rightarrow> env \<Rightarrow> bytes \<Rightarrow> uuid \<Rightarrow> nat \<Rightarrow> (string \<times> string) list \<Rightarrow>
     ops_error + credential_revision" where
  "new_revision svc env nonce credential_id version secret =
     (case cipher_encrypt (cs_gcm svc) nonce (cs_keyring svc) credential_id version secret of
        Inl e \<Rightarrow> Inl e
      | Inr envelope \<Rightarrow>
          Inr \<lparr>cr_credential_id = credential_id, cr_version = version, cr_encrypted_secret = envelope,
               cr_key_version = nat (kr_primary_version (cs_keyring svc)), cr_created_at = e_now env,
               cr_updated_at = e_now env\<rparr>)"

definition create_credential_body ::
    "credential_service \<Rightarrow> env \<Rightarrow> caller \<Rightarrow> uuid \<Rightarrow> bytes \<Rightarrow> string \<Rightarrow> string \<Rightarrow> credential_type \<Rightarrow>
     (string \<times> string) list \<Rightarrow> jobj \<Rightarrow> string \<Rightarrow> credential ops_tx" where
  "create_credential_body svc env who credential_id nonce name username ctype secret public_config description =
     tx_then (tx_guard (py_strip name \<noteq> [] \<and> py_strip username \<noteq> []) (ValidationError ''name and username are required''))
      (tx_bind (tx_check (new_revision svc env nonce credential_id 1 secret)) (\<lambda>revision.
       tx_bind (add_credential (new_credential env credential_id name username ctype public_config description) revision) (\<lambda>created.
       tx_then (ops_audit env (cs_source svc) who CREDENTIAL_CREATED ''credential'' credential_id)
         (tx_return created))))"

definition become_secret :: "string option \<Rightarrow> (string \<times> string) list" where
  "become_secret become_password =
     (case become_password of None \<Rightarrow> [] | Some p \<Rightarrow> [(''becomePassword'', p)])"

definition key_secret :: "string \<Rightarrow> string option \<Rightarrow> string option \<Rightarrow> (string \<times> string) list" where
  "key_secret private_key passphrase become_password =
     [(''privateKey'', private_key)] @
     (case passphrase of None \<Rightarrow> [] | Some p \<Rightarrow> [(''passphrase'', p)]) @ become_secret become_password"

definition credential_writer :: "env \<Rightarrow> caller \<Rightarrow> unit ops_tx" where
  "credential_writer env who =
     tx_then (tx_check (allowed who CREDENTIAL_WRITE)) (tx_check (recently env who))"

definition create_credential ::
    "credential_service \<Rightarrow> env \<Rightarrow> caller \<Rightarrow> uuid \<Rightarrow> bytes \<Rightarrow> string \<Rightarrow> string \<Rightarrow> string \<Rightarrow> string option \<Rightarrow>
     bool \<Rightarrow> string \<Rightarrow> string \<Rightarrow> string \<Rightarrow> db \<Rightarrow> (ops_error + credential) \<times> db" where
  "create_credential svc env who credential_id nonce name username password become_password
       become_enabled become_method become_user description =
     unit_of_work
      (tx_then (credential_writer env who)
      (tx_then (tx_guard (password \<noteq> []) (ValidationError ''password is required''))
      (tx_bind (tx_check (common_public_config become_enabled become_method become_user)) (\<lambda>config.
       create_credential_body svc env who credential_id nonce name username CT_PASSWORD
         ([(''password'', password)] @ become_secret become_password)
         (dict_set ''hasBecomePassword'' (JBool (become_password \<noteq> None)) config) description))))"

definition create_ssh_private_key ::
    "credential_service \<Rightarrow> env \<Rightarrow> caller \<Rightarrow> uuid \<Rightarrow> bytes \<Rightarrow> string \<Rightarrow> string \<Rightarrow> string \<Rightarrow> string option \<Rightarrow>
     string option \<Rightarrow> bool \<Rightarrow> string \<Rightarrow> string \<Rightarrow> string \<Rightarrow> db \<Rightarrow> (ops_error + credential) \<times> db" where
  "create_ssh_private_key svc env who credential_id nonce name username private_key passphrase become_password
       become_enabled become_method become_user description =
     unit_of_work
      (tx_then (credential_writer env who)
      (tx_bind (tx_check (private_key_metadata svc private_key passphrase)) (\<lambda>metadata.
       tx_bind (tx_check (common_public_config become_enabled become_method become_user)) (\<lambda>config.
       create_credential_body svc env who credential_id nonce name username CT_SSH_PRIVATE_KEY
         (key_secret private_key passphrase become_password)
         (dict_set ''hasBecomePassword'' (JBool (become_password \<noteq> None)) (dict_update config metadata)) description))))"

section \<open>Rotating\<close>

text \<open>A rotated credential is stored a second time when its public configuration changes.\<close>

definition store_public_metadata :: "env \<Rightarrow> jobj \<Rightarrow> credential \<Rightarrow> credential ops_tx" where
  "store_public_metadata env metadata rotated =
     (if metadata = [] then tx_return rotated
      else let changed = rotated\<lparr>c_public_config := dict_update (c_public_config rotated) metadata,
                                 c_updated_at := e_now env\<rparr>
           in tx_bind (update_credential_metadata changed (c_lock_version changed)) (\<lambda>replaced.
              tx_return (case replaced of None \<Rightarrow> changed | Some c \<Rightarrow> c)))"

definition rotate_body ::
    "credential_service \<Rightarrow> env \<Rightarrow> caller \<Rightarrow> bytes \<Rightarrow> uuid \<Rightarrow> credential_type \<Rightarrow> (string \<times> string) list \<Rightarrow> jobj \<Rightarrow>
     credential ops_tx" where
  "rotate_body svc env who nonce credential_id expected_type secret metadata =
     tx_bind (tx_read (get_credential credential_id)) (\<lambda>found.
       case found of
         None \<Rightarrow> tx_raise (NotFoundError ''credential not found'')
       | Some credential \<Rightarrow>
           tx_then (tx_guard (c_type credential = expected_type)
                      (ValidationError ''credential revision type cannot be changed''))
          (tx_bind (tx_check (new_revision svc env nonce credential_id (c_current_version credential + 1) secret)) (\<lambda>revision.
           tx_bind (rotate_credential credential_id revision (e_now env)) (\<lambda>result.
           case result of
             None \<Rightarrow> tx_raise (NotFoundError ''credential not found'')
           | Some rotated \<Rightarrow>
               tx_bind (store_public_metadata env metadata rotated) (\<lambda>stored.
               tx_then (ops_audit env (cs_source svc) who CREDENTIAL_ROTATED ''credential'' credential_id)
                 (tx_return stored))))))"

definition rotate_password ::
    "credential_service \<Rightarrow> env \<Rightarrow> caller \<Rightarrow> bytes \<Rightarrow> uuid \<Rightarrow> string \<Rightarrow> string option \<Rightarrow> db \<Rightarrow>
     (ops_error + credential) \<times> db" where
  "rotate_password svc env who nonce credential_id password become_password =
     unit_of_work
      (tx_then (credential_writer env who)
      (tx_then (tx_guard (password \<noteq> []) (ValidationError ''password is required''))
        (rotate_body svc env who nonce credential_id CT_PASSWORD
           ([(''password'', password)] @ become_secret become_password)
           [(''hasBecomePassword'', JBool (become_password \<noteq> None))])))"

definition rotate_ssh_private_key ::
    "credential_service \<Rightarrow> env \<Rightarrow> caller \<Rightarrow> bytes \<Rightarrow> uuid \<Rightarrow> string \<Rightarrow> string option \<Rightarrow> string option \<Rightarrow> db \<Rightarrow>
     (ops_error + credential) \<times> db" where
  "rotate_ssh_private_key svc env who nonce credential_id private_key passphrase become_password =
     unit_of_work
      (tx_then (credential_writer env who)
      (tx_bind (tx_check (private_key_metadata svc private_key passphrase)) (\<lambda>metadata.
        rotate_body svc env who nonce credential_id CT_SSH_PRIVATE_KEY
          (key_secret private_key passphrase become_password)
          (dict_set ''hasBecomePassword'' (JBool (become_password \<noteq> None)) metadata))))"

section \<open>Updating, reading and deleting\<close>

definition credential_action :: "bool \<Rightarrow> bool \<Rightarrow> audit_action" where
  "credential_action before enabled =
     (if enabled \<and> \<not> before then CREDENTIAL_ENABLED
      else if before \<and> \<not> enabled then CREDENTIAL_DISABLED else CREDENTIAL_UPDATED)"

definition update_credential ::
    "credential_service \<Rightarrow> env \<Rightarrow> caller \<Rightarrow> uuid \<Rightarrow> string \<Rightarrow> string \<Rightarrow> string \<Rightarrow> bool \<Rightarrow> bool \<Rightarrow> string \<Rightarrow>
     string \<Rightarrow> nat \<Rightarrow> db \<Rightarrow> (ops_error + credential) \<times> db" where
  "update_credential svc env who credential_id name username description enabled
       become_enabled become_method become_user expected =
     unit_of_work
      (tx_then (credential_writer env who)
      (tx_bind (tx_check (common_public_config become_enabled become_method become_user)) (\<lambda>common.
       tx_bind (tx_read (get_credential credential_id)) (\<lambda>found.
       case found of
         None \<Rightarrow> tx_raise (NotFoundError ''credential not found'')
       | Some current \<Rightarrow>
           tx_bind (update_credential_metadata
                      (current\<lparr>c_name := py_strip name, c_username := py_strip username,
                               c_description := py_strip description, c_enabled := enabled,
                               c_public_config := dict_update (c_public_config current) common,
                               c_updated_at := e_now env\<rparr>) expected) (\<lambda>result.
           case result of
             None \<Rightarrow> tx_raise (ConflictError ''credential was modified by another request'')
           | Some updated \<Rightarrow>
               tx_then (ops_audit env (cs_source svc) who (credential_action (c_enabled current) enabled)
                          ''credential'' credential_id)
                 (tx_return updated))))))"

definition credential_revisions_of :: "uuid \<Rightarrow> db \<Rightarrow> ops_error + credential_revision list" where
  "credential_revisions_of credential_id db =
     (if get_credential credential_id db = None then Inl (NotFoundError ''credential not found'')
      else Inr (list_credential_revisions credential_id db))"

definition decrypt_revision ::
    "credential_service \<Rightarrow> uuid \<Rightarrow> nat \<Rightarrow> db \<Rightarrow> ops_error + (string \<times> string) list" where
  "decrypt_revision svc credential_id version db =
     (case get_credential_revision credential_id version db of
        None \<Rightarrow> Inl (NotFoundError ''credential revision not found'')
      | Some r \<Rightarrow>
          if \<not> has_version (cs_keyring svc) (int (cr_key_version r))
          then Inl (KeyVersionMissingError [int (cr_key_version r)])
          else cipher_decrypt (cs_gcm svc) (cs_codec svc) (cs_keyring svc) (cr_credential_id r) (cr_version r)
                 (cr_encrypted_secret r) (cr_key_version r))"

definition remove_credential ::
    "credential_service \<Rightarrow> env \<Rightarrow> caller \<Rightarrow> uuid \<Rightarrow> db \<Rightarrow> (ops_error + unit) \<times> db" where
  "remove_credential svc env who credential_id =
     unit_of_work
      (tx_then (credential_writer env who)
      (tx_bind (tx_query (delete_credential credential_id (e_now env))) (\<lambda>deleted.
       tx_then (tx_guard deleted (ConflictError ''credential is missing or is still assigned to a host''))
         (ops_audit env (cs_source svc) who CREDENTIAL_DELETED ''credential'' credential_id))))"

end
