(* ===== verification/Asset_Service.thy ===== *)
theory Asset_Service
  imports Credential_Service
begin

text \<open>
  \<open>AssetService\<close> of \<open>services/assets.py\<close>: hosts, groups, target resolution and host keys. The
  program \<open>ssh-keyscan\<close> is the argument \<open>scan\<close>, which gives its exit code and output or fails to run.
  Events recorded with \<open>record_best_effort\<close> are transactions of their own, before or after the others.
\<close>

record asset_service =
  av_sha256 :: "bytes \<Rightarrow> bytes"
  av_source :: audit_source

section \<open>Hosts\<close>

definition PORT_RANGE :: "nat \<Rightarrow> bool" where
  "PORT_RANGE p \<longleftrightarrow> 1 \<le> p \<and> p \<le> 65535"

definition read_host :: "uuid \<Rightarrow> db \<Rightarrow> ops_error + host" where
  "read_host host_id db =
     (case get_host host_id db of None \<Rightarrow> Inl (NotFoundError ''host not found'') | Some h \<Rightarrow> Inr h)"

text \<open>The constructor \<open>Host(..)\<close>: \<open>StrictDomainModel\<close> strips strings and keys and checks the port.\<close>

definition make_host :: "host \<Rightarrow> ops_error + host" where
  "make_host h =
     (if \<not> PORT_RANGE (h_ssh_port h) then Inl (ValueErr ''ssh_port'')
      else Inr (h\<lparr>h_name := py_strip (h_name h), h_address := py_strip (h_address h),
                 h_python_interpreter := map_option py_strip (h_python_interpreter h),
                 h_description := py_strip (h_description h), h_variables := strip_keys (h_variables h)\<rparr>))"

definition require_usable_credential :: "uuid \<Rightarrow> unit ops_tx" where
  "require_usable_credential credential_id =
     tx_bind (tx_read (get_credential credential_id)) (\<lambda>found.
       tx_guard (case found of None \<Rightarrow> False | Some c \<Rightarrow> c_enabled c)
         (ValidationError ''credential is missing or disabled''))"

definition create_host ::
    "asset_service \<Rightarrow> env \<Rightarrow> caller \<Rightarrow> uuid \<Rightarrow> string \<Rightarrow> string \<Rightarrow> nat \<Rightarrow> uuid \<Rightarrow> string option \<Rightarrow> bool \<Rightarrow>
     string \<Rightarrow> jobj \<Rightarrow> db \<Rightarrow> (ops_error + host) \<times> db" where
  "create_host svc env who host_id name address ssh_port credential_id python_interpreter enabled
       description variables =
     unit_of_work
      (tx_then (tx_check (allowed who ASSET_WRITE))
      (tx_then (tx_guard (HOST_NAME name)
         (ValidationError ''host name may only contain letters, digits, dot, dash, and underscore''))
      (tx_then (tx_check (validate_variables variables))
      (tx_bind (tx_check (validate_address address)) (\<lambda>normalized.
       tx_bind (tx_check (make_host
         \<lparr>h_id = host_id, h_name = name, h_address = normalized, h_ssh_port = ssh_port,
          h_credential_id = credential_id,
          h_python_interpreter = (case python_interpreter of None \<Rightarrow> Some ''/usr/bin/python3''
             | Some p \<Rightarrow> Some (if p = [] then ''/usr/bin/python3'' else p)),
          h_enabled = enabled, h_description = description, h_variables = variables, h_version = 1,
          h_created_at = e_now env, h_updated_at = e_now env\<rparr>)) (\<lambda>host.
       tx_then (require_usable_credential credential_id)
      (tx_bind (add_host host) (\<lambda>created.
       tx_then (ops_audit env (av_source svc) who HOST_CREATED ''host'' host_id)
         (tx_return created)))))))))"

text \<open>The keyword arguments \<open>**changes\<close>: \<open>None\<close> for a field that is not given.\<close>

record host_changes =
  hc_name :: "string option"
  hc_address :: "string option"
  hc_ssh_port :: "nat option"
  hc_credential_id :: "uuid option"
  hc_python_interpreter :: "string option option"
  hc_enabled :: "bool option"
  hc_description :: "string option"
  hc_variables :: "jobj option"

definition given :: "'a option \<Rightarrow> 'a \<Rightarrow> 'a" where
  "given x old = (case x of None \<Rightarrow> old | Some v \<Rightarrow> v)"

definition apply_changes :: "host_changes \<Rightarrow> timestamp \<Rightarrow> host \<Rightarrow> host" where
  "apply_changes ch now h =
     h\<lparr>h_name := given (hc_name ch) (h_name h), h_address := given (hc_address ch) (h_address h),
       h_ssh_port := given (hc_ssh_port ch) (h_ssh_port h),
       h_credential_id := given (hc_credential_id ch) (h_credential_id h),
       h_python_interpreter := given (hc_python_interpreter ch) (h_python_interpreter h),
       h_enabled := given (hc_enabled ch) (h_enabled h),
       h_description := given (hc_description ch) (h_description h),
       h_variables := given (hc_variables ch) (h_variables h), h_updated_at := now\<rparr>"

definition update_host ::
    "asset_service \<Rightarrow> env \<Rightarrow> caller \<Rightarrow> uuid \<Rightarrow> nat \<Rightarrow> host_changes \<Rightarrow> db \<Rightarrow> (ops_error + host) \<times> db" where
  "update_host svc env who host_id expected ch =
     unit_of_work
      (tx_then (tx_check (allowed who ASSET_WRITE))
      (tx_bind (tx_read (get_host host_id)) (\<lambda>found.
       case found of
         None \<Rightarrow> tx_raise (NotFoundError ''host not found'')
       | Some current \<Rightarrow>
           (let data = apply_changes ch (e_now env) current in
            tx_then (tx_check (validate_variables (h_variables data)))
           (tx_then (tx_guard (HOST_NAME (h_name data)) (ValidationError ''invalid host name''))
           (tx_bind (tx_check (validate_address (h_address data))) (\<lambda>normalized.
            tx_then (require_usable_credential (h_credential_id data))
           (tx_bind (tx_check (make_host (data\<lparr>h_address := normalized\<rparr>))) (\<lambda>host.
            tx_bind (update_host_row host expected) (\<lambda>result.
            case result of
              None \<Rightarrow> tx_raise (ConflictError ''host was modified by another request'')
            | Some updated \<Rightarrow>
                tx_then (ops_audit env (av_source svc) who HOST_UPDATED ''host'' host_id)
                  (tx_return updated)))))))))))"

definition delete_host ::
    "asset_service \<Rightarrow> env \<Rightarrow> caller \<Rightarrow> uuid \<Rightarrow> db \<Rightarrow> (ops_error + unit) \<times> db" where
  "delete_host svc env who host_id =
     unit_of_work
      (tx_then (tx_check (allowed who ASSET_WRITE))
      (tx_bind (delete_host_row host_id) (\<lambda>deleted.
       tx_then (tx_guard deleted (ConflictError ''host is missing or referenced by execution history''))
         (ops_audit env (av_source svc) who HOST_DELETED ''host'' host_id))))"

section \<open>Groups\<close>

definition validate_host_ids :: "uuid list \<Rightarrow> unit ops_tx" where
  "validate_host_ids host_ids =
     tx_then (tx_guard (distinct host_ids) (ValidationError ''group membership contains duplicate hosts''))
      (tx_bind (tx_read list_hosts) (\<lambda>available.
       tx_guard (set host_ids \<subseteq> set (map h_id available)) (ValidationError ''group contains unknown hosts'')))"

definition create_group ::
    "asset_service \<Rightarrow> env \<Rightarrow> caller \<Rightarrow> uuid \<Rightarrow> string \<Rightarrow> string \<Rightarrow> jobj \<Rightarrow> uuid list \<Rightarrow> db \<Rightarrow>
     (ops_error + (host_group \<times> uuid list)) \<times> db" where
  "create_group svc env who group_id name description variables host_ids =
     unit_of_work
      (tx_then (tx_check (allowed who ASSET_WRITE))
      (tx_then (tx_guard (HOST_NAME name) (ValidationError ''invalid group name''))
      (tx_then (tx_check (validate_variables variables))
      (tx_then (validate_host_ids host_ids)
      (tx_bind (add_group \<lparr>g_id = group_id, g_name = py_strip name, g_description = py_strip description,
                           g_variables = strip_keys variables, g_created_at = e_now env,
                           g_updated_at = e_now env\<rparr>) (\<lambda>created.
       tx_then (replace_group_members (g_id created) host_ids)
      (tx_then (ops_audit env (av_source svc) who GROUP_CREATED ''group'' group_id)
         (tx_return (created, host_ids)))))))))"

text \<open>\<open>model_copy\<close> does not validate, so nothing is stripped here.\<close>

definition update_group ::
    "asset_service \<Rightarrow> env \<Rightarrow> caller \<Rightarrow> uuid \<Rightarrow> string \<Rightarrow> string \<Rightarrow> jobj \<Rightarrow> uuid list \<Rightarrow> db \<Rightarrow>
     (ops_error + (host_group \<times> uuid list)) \<times> db" where
  "update_group svc env who group_id name description variables host_ids =
     unit_of_work
      (tx_then (tx_check (allowed who ASSET_WRITE))
      (tx_then (tx_guard (HOST_NAME name) (ValidationError ''invalid group name''))
      (tx_then (tx_check (validate_variables variables))
      (tx_bind (tx_read (get_group group_id)) (\<lambda>found.
       case found of
         None \<Rightarrow> tx_raise (NotFoundError ''group not found'')
       | Some current \<Rightarrow>
           tx_then (validate_host_ids host_ids)
          (tx_bind (update_group_row (current\<lparr>g_name := name, g_description := description,
                                       g_variables := variables, g_updated_at := e_now env\<rparr>)) (\<lambda>result.
           case result of
             None \<Rightarrow> tx_raise (NotFoundError ''group not found'')
           | Some updated \<Rightarrow>
               tx_then (replace_group_members group_id host_ids)
              (tx_then (ops_audit env (av_source svc) who GROUP_UPDATED ''group'' group_id)
                 (tx_return (updated, host_ids))))))))))"

definition delete_group ::
    "asset_service \<Rightarrow> env \<Rightarrow> caller \<Rightarrow> uuid \<Rightarrow> db \<Rightarrow> (ops_error + unit) \<times> db" where
  "delete_group svc env who group_id =
     unit_of_work
      (tx_then (tx_check (allowed who ASSET_WRITE))
      (tx_bind (tx_query (delete_group_row group_id)) (\<lambda>deleted.
       tx_then (tx_guard deleted (NotFoundError ''group not found''))
         (ops_audit env (av_source svc) who GROUP_DELETED ''group'' group_id))))"

section \<open>Target resolution\<close>

definition resolve_targets ::
    "target_kind \<Rightarrow> uuid list \<Rightarrow> uuid option \<Rightarrow> db \<Rightarrow> ops_error + resolved_host list" where
  "resolve_targets kind host_ids group_id db =
     (let nonempty = (\<lambda>hs. if hs = [] then Inl (ValidationError ''target resolves to no enabled hosts'') else Inr hs) in
      case kind of
        TK_ALL \<Rightarrow> nonempty (resolve_all_hosts db)
      | TK_HOSTS \<Rightarrow>
          if host_ids = [] then Inl (ValidationError ''at least one host is required'')
          else if length (resolve_host_ids host_ids db) \<noteq> card (set host_ids)
          then Inl (ValidationError ''one or more hosts are missing, disabled, or unusable'')
          else nonempty (resolve_host_ids host_ids db)
      | TK_GROUP \<Rightarrow>
          (case group_id of
             None \<Rightarrow> Inl (ValidationError ''groupId is required for a group target'')
           | Some g \<Rightarrow>
               if get_group g db = None then Inl (NotFoundError ''group not found'')
               else nonempty (resolve_group_hosts g db)))"

section \<open>Host keys\<close>

definition read_host_keys :: "uuid \<Rightarrow> db \<Rightarrow> ops_error + host_key list" where
  "read_host_keys host_id db =
     (if get_host host_id db = None then Inl (NotFoundError ''host not found'') else Inr (list_host_keys host_id db))"

datatype scan_result = Scan_Unavailable | Scan_Exit int string

record scanned_key =
  sk_algorithm :: string
  sk_public_key :: string
  sk_fingerprint :: string

definition parse_scan_line :: "(bytes \<Rightarrow> bytes) \<Rightarrow> string \<Rightarrow> scanned_key option" where
  "parse_scan_line sha256 line =
     (if line = [] \<or> hd line = CHR ''#'' \<or> length (py_words line) < 3 then None
      else case b64decode_lenient (py_words line ! 2) of
             None \<Rightarrow> None
           | Some blob \<Rightarrow> Some \<lparr>sk_algorithm = py_words line ! 1, sk_public_key = py_words line ! 2,
                               sk_fingerprint = fingerprint_of sha256 blob\<rparr>)"

text \<open>The dictionary \<open>keys\<close>, by algorithm: the last usable line of an algorithm wins.\<close>

definition collect_keys :: "(bytes \<Rightarrow> bytes) \<Rightarrow> string \<Rightarrow> (string \<times> scanned_key) list" where
  "collect_keys sha256 stdout =
     fold (\<lambda>line keys. case parse_scan_line sha256 line of None \<Rightarrow> keys | Some k \<Rightarrow> dict_set (sk_algorithm k) k keys)
       (py_splitlines stdout) []"

definition scan_outcome :: "(bytes \<Rightarrow> bytes) \<Rightarrow> scan_result \<Rightarrow> ops_error + scanned_key list" where
  "scan_outcome sha256 result =
     (case result of
        Scan_Unavailable \<Rightarrow> Inl (ValidationError ''SSH host-key scan failed'')
      | Scan_Exit code stdout \<Rightarrow>
          if code \<noteq> 0 \<or> stdout = [] then Inl (ValidationError ''SSH host-key scan returned no keys'')
          else let keys = collect_keys sha256 stdout in
               if keys = [] then Inl (ValidationError ''SSH host-key scan returned no usable keys'')
               else Inr (map snd (sort_key fst keys)))"

definition scan_failure_code :: "scan_result \<Rightarrow> string" where
  "scan_failure_code result =
     (case result of Scan_Unavailable \<Rightarrow> ''host_key_scan_failed''
      | Scan_Exit code stdout \<Rightarrow> if code \<noteq> 0 \<or> stdout = [] then ''host_key_scan_empty'' else ''host_key_scan_unusable'')"

definition scan_failure_details :: "caller \<Rightarrow> uuid \<Rightarrow> scan_result \<Rightarrow> audit_details" where
  "scan_failure_details who host_id result =
     (resource_details who ''host'' host_id)\<lparr>ad_severity := SEV_WARNING,
        ad_error_code := Some (scan_failure_code result),
        ad_failure_stage := Some (if scan_failure_code result = ''host_key_scan_unusable'' then ''host_key_parse'' else ''ssh_keyscan''),
        ad_retryable := Some (scan_failure_code result \<noteq> ''host_key_scan_unusable'')\<rparr>"

definition scan_host_keys ::
    "asset_service \<Rightarrow> env \<Rightarrow> caller \<Rightarrow> (host \<Rightarrow> scan_result) \<Rightarrow> uuid \<Rightarrow> db \<Rightarrow> (ops_error + scanned_key list) \<times> db" where
  "scan_host_keys svc env who scan host_id db =
     (case allowed who ASSET_WRITE of
        Inl e \<Rightarrow> (Inl e, db)
      | Inr _ \<Rightarrow>
          (case read_host host_id db of
             Inl e \<Rightarrow> (Inl e, db)
           | Inr host \<Rightarrow>
               (let db1 = audit_append env HOST_KEY_SCAN_STARTED AO_STARTED (av_source svc)
                            (resource_details who ''host'' host_id) db
                in case scan_outcome (av_sha256 svc) (scan host) of
                     Inl e \<Rightarrow> (Inl e, audit_append env HOST_KEY_SCAN_FAILED AO_FAILED (av_source svc)
                                      (scan_failure_details who host_id (scan host)) db1)
                   | Inr keys \<Rightarrow> (Inr keys, audit_append env HOST_KEY_SCAN_SUCCEEDED AO_SUCCEEDED (av_source svc)
                                          (resource_details who ''host'' host_id) db1))))"

definition confirm_host_key ::
    "asset_service \<Rightarrow> env \<Rightarrow> caller \<Rightarrow> (host \<Rightarrow> scan_result) \<Rightarrow> uuid \<Rightarrow> uuid \<Rightarrow> string \<Rightarrow> string \<Rightarrow> db \<Rightarrow>
     (ops_error + host_key) \<times> db" where
  "confirm_host_key svc env who scan user_id host_id algorithm fingerprint db =
     (case scan_host_keys svc env
             (if ca_actor who = None then \<lparr>ca_actor_user_id = None, ca_session_id = None, ca_actor = None\<rparr>
              else who\<lparr>ca_actor_user_id := Some user_id\<rparr>) scan host_id db of
        (Inl e, db1) \<Rightarrow> (Inl e, db1)
      | (Inr scanned, db1) \<Rightarrow>
          (case find (\<lambda>k. sk_algorithm k = algorithm \<and> sk_fingerprint k = fingerprint) scanned of
             None \<Rightarrow>
               (Inl HostKeyChangedError,
                audit_append env HOST_KEY_CHANGED AO_DENIED (av_source svc)
                  ((resource_details (who\<lparr>ca_actor_user_id := Some user_id\<rparr>) ''host'' host_id)\<lparr>
                     ad_severity := SEV_WARNING, ad_error_code := Some ''host_key_changed'',
                     ad_failure_stage := Some ''host_key_confirmation'', ad_retryable := Some False\<rparr>) db1)
           | Some k \<Rightarrow>
               unit_of_work
                (tx_bind (upsert_host_key \<lparr>hk_host_id = host_id, hk_algorithm = algorithm,
                            hk_public_key = sk_public_key k, hk_fingerprint = fingerprint,
                            hk_trusted_by = user_id, hk_trusted_at = e_now env\<rparr>) (\<lambda>key.
                 tx_then (ops_audit env (av_source svc) (who\<lparr>ca_actor_user_id := Some user_id\<rparr>)
                            HOST_KEY_CONFIRMED ''host'' host_id)
                   (tx_return key))) db1))"

end
