(* ===== verification/Asset_Invariant.thy ===== *)
theory Asset_Invariant
  imports Asset_Service Run_Invariant
begin

text \<open>
  The invariant of the asset tables and that every operation of \<open>CredentialService\<close> and
  \<open>AssetService\<close> keeps it: unique keys and names, complete revision histories, hosts with a live
  credential, and keys, memberships, run targets and sessions of existing hosts only.
\<close>

definition live_ids :: "db \<Rightarrow> uuid set" where
  "live_ids db = c_id ` {c \<in> set (credentials db). c_deleted_at c = None}"

definition host_ids_of :: "db \<Rightarrow> uuid set" where
  "host_ids_of db = h_id ` set (hosts db)"

definition revision_keys :: "db \<Rightarrow> (uuid \<times> nat) list" where
  "revision_keys db = map (\<lambda>r. (cr_credential_id r, cr_version r)) (credential_revisions db)"

definition credentials_ok :: "db \<Rightarrow> bool" where
  "credentials_ok db \<longleftrightarrow>
     distinct (map c_id (credentials db)) \<and> distinct (map c_name (credentials db)) \<and> distinct (revision_keys db) \<and>
     (\<forall>i n. (i, n) \<in> set (revision_keys db) \<longleftrightarrow>
        (\<exists>c \<in> set (credentials db). c_id c = i \<and> 1 \<le> n \<and> n \<le> c_current_version c)) \<and>
     (\<forall>c \<in> set (credentials db). c_current_version c \<le> c_lock_version c)"

definition host_ok :: "host \<Rightarrow> bool" where
  "host_ok h \<longleftrightarrow> HOST_NAME (h_name h) \<and> (ip_address (h_address h) \<or> FQDN (h_address h)) \<and>
     PORT_RANGE (h_ssh_port h)"

definition hosts_ok :: "db \<Rightarrow> bool" where
  "hosts_ok db \<longleftrightarrow>
     distinct (map h_id (hosts db)) \<and> distinct (map h_name (hosts db)) \<and>
     (\<forall>h \<in> set (hosts db). host_ok h \<and> 1 \<le> h_version h \<and> h_credential_id h \<in> live_ids db)"

definition keys_hosted :: "db \<Rightarrow> bool" where
  "keys_hosted db \<longleftrightarrow>
     distinct (map (\<lambda>k. (hk_host_id k, hk_algorithm k)) (host_keys db)) \<and>
     hk_host_id ` set (host_keys db) \<union> t_host_id ` set (run_targets db) \<union> ws_host_id ` set (web_shell_sessions db)
       \<subseteq> host_ids_of db"

definition groups_ok :: "db \<Rightarrow> bool" where
  "groups_ok db \<longleftrightarrow>
     distinct (map g_id (host_groups db)) \<and> distinct (map g_name (host_groups db)) \<and>
     distinct (host_group_members db) \<and>
     set (host_group_members db) \<subseteq> g_id ` set (host_groups db) \<times> host_ids_of db"

definition asset_inv :: "db \<Rightarrow> bool" where
  "asset_inv db \<longleftrightarrow> credentials_ok db \<and> hosts_ok db \<and> keys_hosted db \<and> groups_ok db"

text \<open>What a part of the invariant depends on.\<close>

lemma credentials_ok_cong:
  "credentials db' = credentials db \<Longrightarrow> credential_revisions db' = credential_revisions db \<Longrightarrow>
     credentials_ok db' = credentials_ok db"
  by (simp add: credentials_ok_def revision_keys_def)

lemma hosts_ok_cong: "hosts db' = hosts db \<Longrightarrow> live_ids db' = live_ids db \<Longrightarrow> hosts_ok db' = hosts_ok db"
  by (simp add: hosts_ok_def)

lemma keys_hosted_cong:
  "host_keys db' = host_keys db \<Longrightarrow> run_targets db' = run_targets db \<Longrightarrow>
     web_shell_sessions db' = web_shell_sessions db \<Longrightarrow> host_ids_of db' = host_ids_of db \<Longrightarrow> keys_hosted db' = keys_hosted db"
  by (simp add: keys_hosted_def)

lemma groups_ok_cong:
  "host_groups db' = host_groups db \<Longrightarrow> host_group_members db' = host_group_members db \<Longrightarrow>
     host_ids_of db' = host_ids_of db \<Longrightarrow> groups_ok db' = groups_ok db"
  by (simp add: groups_ok_def)

lemmas asset_cong = credentials_ok_cong hosts_ok_cong keys_hosted_cong groups_ok_cong

lemma asset_inv_audit [simp]: "asset_inv (audit_append env act outcome src d db) = asset_inv db"
  by (simp add: asset_inv_def credentials_ok_def revision_keys_def hosts_ok_def live_ids_def keys_hosted_def host_ids_of_def groups_ok_def)

lemma asset_inv_empty: "asset_inv empty_db"
  by (simp add: asset_inv_def credentials_ok_def revision_keys_def hosts_ok_def live_ids_def keys_hosted_def
      host_ids_of_def groups_ok_def empty_db_def)

text \<open>Quantifiers over an updated table.\<close>

lemma bex_update_where: "(\<exists>r \<in> set (update_where p f rows). Q r) \<longleftrightarrow> (\<exists>r \<in> set rows. Q (if p r then f r else r))"
  by (auto simp: update_where_def)

lemma ball_update_where: "(\<forall>r \<in> set (update_where p f rows). Q r) \<longleftrightarrow> (\<forall>r \<in> set rows. Q (if p r then f r else r))"
  by (auto simp: update_where_def)

lemma image_update_where: "(\<And>r. key (f r) = key r) \<Longrightarrow> key ` set (update_where p f rows) = key ` set rows"
  by (metis list.set_map map_key_update_where)

text \<open>A row renamed to a name no other row has.\<close>

lemma distinct_renamed:
  assumes "distinct (map key rows)" and "distinct (map name rows)"
    and "\<And>r. p r \<Longrightarrow> key r = k" and "\<And>r. name (f r) = n"
    and "\<And>r. r \<in> set rows \<Longrightarrow> key r \<noteq> k \<Longrightarrow> name r \<noteq> n"
  shows "distinct (map name (update_where p f rows))"
  using assms(1,2,5)
proof (induction rows)
  case (Cons r rows)
  have others: "key x \<noteq> key r" "name x \<noteq> name r" if "x \<in> set rows" for x
    using Cons.prems(1,2) that by (auto simp: image_iff)
  show ?case
  proof (cases "p r")
    case True
    then have "\<not> p x" "name x \<noteq> n" if "x \<in> set rows" for x
      using others(1) [OF that] assms(3) Cons.prems(3) that by auto
    then have "update_where p f rows = rows" "n \<notin> name ` set rows" by (auto intro: update_where_id)
    then show ?thesis using True Cons.prems assms(4) by simp
  next
    case False
    have "name r \<noteq> name (if p x then f x else x)" if "x \<in> set rows" for x
      using others [OF that] assms(3,4) Cons.prems(3) [of r] by (cases "p x") auto
    then have "name r \<notin> name ` set (update_where p f rows)" by (force simp: set_update_where)
    then show ?thesis using False Cons by simp
  qed
qed simp

section \<open>Credentials\<close>

lemma credentials_ok_updated:
  assumes "credentials_ok db" and "\<And>c. c_id (f c) = c_id c" and "\<And>c. c_current_version (f c) = c_current_version c"
    and "\<And>c. c_lock_version c \<le> c_lock_version (f c)"
    and "distinct (map c_name (update_where p f (credentials db)))"
  shows "credentials_ok (db\<lparr>credentials := update_where p f (credentials db)\<rparr>)"
proof -
  have same: "c_id (if p c then f c else c) = c_id c" "c_current_version (if p c then f c else c) = c_current_version c"
    "c_lock_version c \<le> c_lock_version (if p c then f c else c)" for c using assms(2-4) by auto
  have "\<forall>c \<in> set (credentials db). c_current_version c \<le> c_lock_version (if p c then f c else c)"
    using assms(1) same(3) unfolding credentials_ok_def by (blast intro: order_trans)
  then show ?thesis using assms(1,2,5)
    by (simp add: credentials_ok_def revision_keys_def map_key_update_where bex_update_where ball_update_where same)
qed

lemma live_ids_updated:
  assumes "\<And>c. c_id (f c) = c_id c" and "\<And>c. c_deleted_at (f c) = c_deleted_at c"
  shows "live_ids (db\<lparr>credentials := update_where p f (credentials db)\<rparr>) = live_ids db"
proof -
  have "{c \<in> set (update_where p f cs). c_deleted_at c = None} =
      set (update_where p f (filter (\<lambda>c. c_deleted_at c = None) cs))" for cs
    using assms(2) by (induction cs) auto
  then show ?thesis using image_update_where [of c_id f, OF assms(1)] by (simp add: live_ids_def)
qed

lemma keeps_metadata: "keeps asset_inv (update_credential_metadata new expected)"
proof (rule keepsI)
  fix db a db' assume inv: "asset_inv db" and "update_credential_metadata new expected db = Inr (a, db')"
  then consider "db' = db" | "db' = db\<lparr>credentials := update_where
        (\<lambda>c. live_credential (c_id new) c \<and> c_lock_version c = expected) (described_credential new) (credentials db)\<rparr>"
      "\<forall>x \<in> set (credentials db). c_id x \<noteq> c_id new \<longrightarrow> c_name x \<noteq> c_name new"
    by (auto simp: update_credential_metadata_def Let_def split: option.splits if_splits)
  then show "asset_inv db'"
  proof cases
    case 2
    let ?p = "\<lambda>c. live_credential (c_id new) c \<and> c_lock_version c = expected"
    have "distinct (map c_name (update_where ?p (described_credential new) (credentials db)))"
      using inv 2(2) by (intro distinct_renamed [of c_id _ _ _ "c_id new" _ "c_name new"])
        (auto simp: asset_inv_def credentials_ok_def live_credential_def described_credential_def)
    then have "credentials_ok db'" unfolding 2(1) using inv
      by (intro credentials_ok_updated) (simp_all add: asset_inv_def described_credential_def)
    moreover have "live_ids db' = live_ids db" unfolding 2(1) by (rule live_ids_updated) (simp_all add: described_credential_def)
    ultimately show ?thesis using inv 2(1)
      by (simp add: asset_inv_def hosts_ok_def keys_hosted_def groups_ok_def host_ids_of_def)
  qed (use inv in simp)
qed

text \<open>Appending the next revision of a credential and counting it.\<close>

lemma insert_revision_Inr:
  "insert_credential_revision r db = Inr (a, db') \<longleftrightarrow>
     cr_credential_id r \<in> c_id ` set (credentials db) \<and> (cr_credential_id r, cr_version r) \<notin> set (revision_keys db) \<and>
     db' = db\<lparr>credential_revisions := credential_revisions db @ [r]\<rparr>"
  by (auto simp: insert_credential_revision_def revision_keys_def)

lemma keeps_add_credential:
  assumes "cr_credential_id r = c_id c" and "cr_version r = 1" and "c_current_version c = 1" and "c_lock_version c = 1"
    and "c_deleted_at c = None"
  shows "keeps asset_inv (add_credential c r)"
proof (rule keepsI)
  fix db a db' assume inv: "asset_inv db" and "add_credential c r db = Inr (a, db')"
  then have new: "\<forall>x \<in> set (credentials db). c_id x \<noteq> c_id c \<and> c_name x \<noteq> c_name c"
    and db': "db' = db\<lparr>credentials := credentials db @ [c], credential_revisions := credential_revisions db @ [r]\<rparr>"
    by (auto simp: add_credential_def tx_Inr_iff insert_credential_def insert_revision_Inr split: if_splits)
  have "(c_id c, 1) \<notin> set (revision_keys db)" using inv new unfolding asset_inv_def credentials_ok_def by auto
  then have "credentials_ok db'" using inv new assms unfolding db'
    by (auto simp: asset_inv_def credentials_ok_def revision_keys_def)
  moreover have "live_ids db \<subseteq> live_ids db'" by (auto simp: db' live_ids_def)
  ultimately show "asset_inv db'" using inv db'
    by (auto simp: asset_inv_def hosts_ok_def keys_hosted_def groups_ok_def host_ids_of_def)
qed

lemma rotate_credential_inv:
  assumes inv: "asset_inv db" and found: "get_credential i db = Some c"
    and "cr_credential_id r = i" and "cr_version r = c_current_version c + 1"
    and run: "rotate_credential i r now db = Inr (a, db')"
  shows "asset_inv db' \<and> a = Some (rotated_credential (cr_version r) now c) \<and> get_credential i db' = a"
proof -
  let ?f = "rotated_credential (cr_version r) now"
  have c: "c \<in> set (credentials db)" "c_id c = i" "c_deleted_at c = None"
    using found by (auto simp: get_credential_def live_credential_def dest: fetch_one_SomeD)
  have one: "live_credential i x \<longleftrightarrow> x = c" if "x \<in> set (credentials db)" for x
    using inv c that row_by_key [of c_id "credentials db"]
    by (auto simp: asset_inv_def credentials_ok_def live_credential_def)
  have db': "db' = db\<lparr>credentials := update_where (live_credential i) ?f (credentials db),
      credential_revisions := credential_revisions db @ [r]\<rparr>" and a: "a = Some (?f c)"
    using run found by (auto simp: rotate_credential_def tx_Inr_iff insert_revision_Inr get_credential_def)
  have new: "(i, cr_version r) \<notin> set (revision_keys db)"
    using run by (auto simp: rotate_credential_def tx_Inr_iff insert_revision_Inr assms(3))
  have ok: "credentials_ok db" using inv by (simp add: asset_inv_def)
  have "credentials_ok db'"
    unfolding credentials_ok_def
  proof (intro conjI allI)
    show "distinct (map c_id (credentials db'))" "distinct (map c_name (credentials db'))"
      using ok by (simp_all add: db' credentials_ok_def map_key_update_where rotated_credential_def)
    show "distinct (revision_keys db')" using ok new by (auto simp: db' credentials_ok_def revision_keys_def assms(3))
    show "\<forall>c \<in> set (credentials db'). c_current_version c \<le> c_lock_version c"
      using ok assms(4) one by (auto simp: db' credentials_ok_def ball_update_where rotated_credential_def)
    show "((j, n) \<in> set (revision_keys db')) = (\<exists>c \<in> set (credentials db'). c_id c = j \<and> 1 \<le> n \<and> n \<le> c_current_version c)" for j n
    proof (cases "j = i")
      case True
      have "(j, n) \<in> set (revision_keys db') \<longleftrightarrow> (j, n) \<in> set (revision_keys db) \<or> n = cr_version r"
        by (auto simp: db' revision_keys_def assms(3) True)
      also have "\<dots> \<longleftrightarrow> 1 \<le> n \<and> n \<le> cr_version r"
        using ok c one True assms(4) row_by_key [of c_id "credentials db"] unfolding credentials_ok_def
        by (metis One_nat_def Suc_eq_plus1 le_Suc_eq le_add2)
      also have "\<dots> \<longleftrightarrow> (\<exists>x \<in> set (credentials db'). c_id x = j \<and> 1 \<le> n \<and> n \<le> c_current_version x)"
      proof
        assume "1 \<le> n \<and> n \<le> cr_version r"
        then show "\<exists>x \<in> set (credentials db'). c_id x = j \<and> 1 \<le> n \<and> n \<le> c_current_version x"
          unfolding db' using c True by (auto simp: bex_update_where rotated_credential_def live_credential_def intro!: bexI [of _ c])
      next
        assume "\<exists>x \<in> set (credentials db'). c_id x = j \<and> 1 \<le> n \<and> n \<le> c_current_version x"
        then obtain x where "x \<in> set (credentials db)" "c_id (if live_credential i x then ?f x else x) = i" "1 \<le> n"
            "n \<le> c_current_version (if live_credential i x then ?f x else x)"
          unfolding db' by (auto simp: bex_update_where True)
        moreover from this have "x = c" using c ok row_by_key [of c_id "credentials db" x c]
          by (auto simp: credentials_ok_def rotated_credential_def split: if_splits)
        ultimately show "1 \<le> n \<and> n \<le> cr_version r" using c by (simp add: live_credential_def rotated_credential_def)
      qed
      finally show ?thesis .
    next
      case False
      then have "(\<exists>x \<in> set (credentials db'). c_id x = j \<and> 1 \<le> n \<and> n \<le> c_current_version x) \<longleftrightarrow>
          (\<exists>x \<in> set (credentials db). c_id x = j \<and> 1 \<le> n \<and> n \<le> c_current_version x)"
        by (auto simp: db' bex_update_where rotated_credential_def live_credential_def)
      then show ?thesis using False ok by (auto simp: db' revision_keys_def credentials_ok_def assms(3))
    qed
  qed
  moreover have "live_ids db' = live_ids db"
    unfolding db' using live_ids_updated [of ?f "live_credential i" db] by (simp add: rotated_credential_def live_ids_def)
  moreover have "get_credential i db' = Some (?f c)"
    unfolding db' get_credential_def using found
    by (simp add: fetch_one_update_where rotated_credential_def live_credential_def get_credential_def)
  ultimately show ?thesis using inv a db'
    by (simp add: asset_inv_def hosts_ok_def keys_hosted_def groups_ok_def host_ids_of_def)
qed

lemma keeps_delete_credential: "keeps asset_inv (tx_query (delete_credential i now))"
proof (rule keeps_query)
  fix db assume inv: "asset_inv db"
  let ?p = "\<lambda>c. live_credential i c \<and> c_id c \<notin> set (map h_credential_id (hosts db))"
  let ?f = "\<lambda>c. c\<lparr>c_enabled := False, c_deleted_at := Some now, c_updated_at := now\<rparr>"
  have db': "snd (delete_credential i now db) = db\<lparr>credentials := update_where ?p ?f (credentials db)\<rparr>"
    by (simp add: delete_credential_def Let_def)
  have "credentials_ok (db\<lparr>credentials := update_where ?p ?f (credentials db)\<rparr>)"
    using inv by (intro credentials_ok_updated) (auto simp: asset_inv_def credentials_ok_def map_key_update_where)
  moreover have "h_credential_id h \<in> live_ids (db\<lparr>credentials := update_where ?p ?f (credentials db)\<rparr>)"
    if h: "h \<in> set (hosts db)" for h
  proof -
    obtain c where "c \<in> set (credentials db)" "c_deleted_at c = None" "c_id c = h_credential_id h"
      using inv h by (auto simp: asset_inv_def hosts_ok_def live_ids_def)
    moreover from this have "\<not> ?p c" using h by auto
    ultimately have "c \<in> {x \<in> set (update_where ?p ?f (credentials db)). c_deleted_at x = None}"
      by (auto simp: set_update_where intro!: bexI [of _ c])
    then show ?thesis using \<open>c_id c = _\<close> by (auto simp: live_ids_def image_iff)
  qed
  ultimately show "asset_inv (snd (delete_credential i now db))"
    unfolding db' using inv by (simp add: asset_inv_def hosts_ok_def keys_hosted_def groups_ok_def host_ids_of_def)
qed

section \<open>Hosts and keys\<close>

lemma py_strip_fixed: "t = [] \<or> \<not> is_space (hd t) \<and> \<not> is_space (last t) \<Longrightarrow> py_strip t = t"
proof (cases "t = []")
  case False
  assume "t = [] \<or> \<not> is_space (hd t) \<and> \<not> is_space (last t)"
  then have "dropWhile is_space t = t" "dropWhile is_space (rev t) = rev t"
    using False by (simp_all add: dropWhile_eq_self_iff hd_rev)
  then show ?thesis by (simp add: py_strip_def)
qed (simp add: py_strip_def)

lemma py_strip_again: "py_strip (py_strip s) = py_strip s"
proof (rule py_strip_fixed)
  let ?d = "dropWhile is_space s" let ?x = "dropWhile is_space (rev ?d)"
  have "\<not> is_space (hd (rev ?x)) \<and> \<not> is_space (last (rev ?x))" if "?x \<noteq> []"
  proof
    have "last (takeWhile is_space (rev ?d) @ ?x) = last ?x" using that by (rule last_appendR)
    then have "hd (rev ?x) = hd ?d" unfolding takeWhile_dropWhile_id by (simp only: hd_rev last_rev)
    moreover have "?d \<noteq> []" using that by (metis dropWhile.simps(1) rev.simps(1))
    ultimately show "\<not> is_space (hd (rev ?x))" by (simp add: hd_dropWhile)
    show "\<not> is_space (last (rev ?x))" using that by (simp add: last_rev hd_dropWhile)
  qed
  then show "py_strip s = [] \<or> \<not> is_space (hd (py_strip s)) \<and> \<not> is_space (last (py_strip s))"
    by (auto simp: py_strip_def)
qed

lemma name_char_no_space: "name_char c \<Longrightarrow> \<not> is_space c"
  by (auto simp: name_char_def alnum_def is_space_def)

lemma HOST_NAME_strip: "HOST_NAME s \<Longrightarrow> py_strip s = s"
proof -
  assume "HOST_NAME s"
  then have "s \<noteq> []" "list_all name_char s"
    by (auto simp: HOST_NAME_def name_char_def list_all_iff split: list.splits)
  then show ?thesis by (intro py_strip_fixed) (auto simp: list_all_iff dest: name_char_no_space)
qed

lemma made_host_ok:
  assumes "HOST_NAME (h_name h)" and "validate_address a = Inr (h_address h)" and "make_host h = Inr h'"
  shows "host_ok h' \<and> h_id h' = h_id h \<and> h_name h' = h_name h \<and> h_credential_id h' = h_credential_id h \<and> h_version h' = h_version h"
proof -
  have "h_address h = py_strip a" "ip_address (h_address h) \<or> FQDN (h_address h)"
    using assms(2) by (auto simp: validate_address_def Let_def split: if_splits)
  then show ?thesis using assms(1,3) HOST_NAME_strip py_strip_again
    by (auto simp: make_host_def host_ok_def split: if_splits)
qed

lemma usable_credential_Inr:
  "require_usable_credential i db = Inr (a, db') \<longleftrightarrow> (\<exists>c. get_credential i db = Some c \<and> c_enabled c) \<and> db' = db"
  by (auto simp: require_usable_credential_def tx_Inr_iff split: option.splits)

lemma usable_live: "get_credential i db = Some c \<Longrightarrow> i \<in> live_ids db"
  by (auto simp: get_credential_def live_credential_def live_ids_def dest!: fetch_one_SomeD)

lemma add_host_inv:
  assumes "asset_inv db" and "host_ok h \<and> 1 \<le> h_version h" and "h_credential_id h \<in> live_ids db" and "add_host h db = Inr (a, db')"
  shows "asset_inv db'"
proof -
  have "db' = db\<lparr>hosts := hosts db @ [h]\<rparr>" "\<forall>x \<in> set (hosts db). h_id x \<noteq> h_id h \<and> h_name x \<noteq> h_name h"
    using assms(4) by (auto simp: add_host_def split: if_splits)
  then show ?thesis using assms(1-3)
    by (auto simp: asset_inv_def credentials_ok_def revision_keys_def hosts_ok_def live_ids_def keys_hosted_def
        host_ids_of_def groups_ok_def)
qed

lemma update_host_inv:
  assumes inv: "asset_inv db" and "host_ok new" and "h_credential_id new \<in> live_ids db"
    and "update_host_row new expected db = Inr (a, db')"
  shows "asset_inv db'"
proof -
  let ?p = "\<lambda>h. h_id h = h_id new \<and> h_version h = expected"
  have "db' = db \<or> db' = db\<lparr>hosts := update_where ?p (changed_host new) (hosts db)\<rparr> \<and>
      (\<forall>x \<in> set (hosts db). h_id x \<noteq> h_id new \<longrightarrow> h_name x \<noteq> h_name new)"
    using assms(4) by (auto simp: update_host_row_def Let_def split: option.splits if_splits)
  then show ?thesis
  proof
    assume db': "db' = db\<lparr>hosts := update_where ?p (changed_host new) (hosts db)\<rparr> \<and>
      (\<forall>x \<in> set (hosts db). h_id x \<noteq> h_id new \<longrightarrow> h_name x \<noteq> h_name new)"
    then have names: "distinct (map h_name (hosts db'))"
      using inv by (auto simp: asset_inv_def hosts_ok_def changed_host_def
          intro!: distinct_renamed [of h_id _ _ _ "h_id new" _ "h_name new"])
    have live: "live_ids db' = live_ids db" using db' by (simp add: live_ids_def)
    have "host_ok (if ?p h then changed_host new h else h) \<and> 1 \<le> h_version (if ?p h then changed_host new h else h) \<and> h_credential_id (if ?p h then changed_host new h else h) \<in> live_ids db"
      if "h \<in> set (hosts db)" for h
      using that inv assms(2,3) by (auto simp: asset_inv_def hosts_ok_def host_ok_def changed_host_def)
    moreover have "map h_id (hosts db') = map h_id (hosts db)"
      using db' by (simp add: map_key_update_where changed_host_def)
    moreover from this have "host_ids_of db' = host_ids_of db" by (metis host_ids_of_def list.set_map)
    ultimately show ?thesis using inv db' names live
      by (simp add: asset_inv_def credentials_ok_def revision_keys_def hosts_ok_def keys_hosted_def groups_ok_def
          ball_update_where)
  qed (use inv in simp)
qed

lemma keeps_delete_host: "keeps asset_inv (delete_host_row i)"
proof (rule keepsI)
  fix db a db' assume inv: "asset_inv db" and "delete_host_row i db = Inr (a, db')"
  then consider "db' = db" | "db' = db\<lparr>hosts := delete_where (\<lambda>h. h_id h = i) (hosts db),
                         host_keys := delete_where (\<lambda>k. hk_host_id k = i) (host_keys db),
                         host_group_members := delete_where (\<lambda>m. snd m = i) (host_group_members db),
                         host_execution_locks := delete_where (\<lambda>l. hl_host_id l = i) (host_execution_locks db)\<rparr>"
      "i \<notin> t_host_id ` set (run_targets db)" "i \<notin> ws_host_id ` set (web_shell_sessions db)"
    by (auto simp: delete_host_row_def split: if_splits)
  then show "asset_inv db'"
  proof cases
    case 2
    have ids: "host_ids_of db' = host_ids_of db - {i}" by (auto simp: 2(1) host_ids_of_def)
    have "credentials_ok db'" "hosts_ok db'"
      using inv by (auto simp: 2(1) asset_inv_def credentials_ok_def revision_keys_def hosts_ok_def live_ids_def
          intro: distinct_map_delete_where)
    moreover have "keys_hosted db'"
      using inv 2 unfolding keys_hosted_def asset_inv_def ids by (auto intro: distinct_map_delete_where)
    moreover have "groups_ok db'"
      using inv unfolding groups_ok_def asset_inv_def ids by (auto simp: 2(1) delete_where_def)
    ultimately show ?thesis by (simp add: asset_inv_def)
  qed (use inv in simp)
qed

lemma get_host_exists: "get_host i db \<noteq> None \<longleftrightarrow> i \<in> host_ids_of db"
  by (auto simp: get_host_def fetch_one_None_iff host_ids_of_def simp del: not_None_eq)

lemma keeps_upsert_host_key: "keeps asset_inv (upsert_host_key k)"
proof (rule keepsI)
  fix db a db' assume inv: "asset_inv db" and run: "upsert_host_key k db = Inr (a, db')"
  let ?key = "\<lambda>k. (hk_host_id k, hk_algorithm k)"
  let ?p = "\<lambda>x. hk_host_id x = hk_host_id k \<and> hk_algorithm x = hk_algorithm k"
  let ?ks = "if \<exists>x \<in> set (host_keys db). ?p x then update_where ?p (\<lambda>_. k) (host_keys db) else host_keys db @ [k]"
  have db': "db' = db\<lparr>host_keys := ?ks\<rparr>" and host: "hk_host_id k \<in> host_ids_of db"
    using run by (auto simp: upsert_host_key_def Let_def simp flip: get_host_exists split: if_splits)
  have "map ?key (update_where ?p (\<lambda>_. k) (host_keys db)) = map ?key (host_keys db)"
    by (auto simp: update_where_def)
  then have "distinct (map ?key ?ks)" using inv by (auto simp: asset_inv_def keys_hosted_def)
  moreover have "hk_host_id ` set ?ks \<subseteq> host_ids_of db"
    using inv host by (auto simp: asset_inv_def keys_hosted_def set_update_where image_subset_iff)
  ultimately show "asset_inv db'" using inv unfolding db'
    by (simp add: asset_inv_def credentials_ok_def revision_keys_def hosts_ok_def live_ids_def keys_hosted_def
        host_ids_of_def groups_ok_def)
qed

section \<open>Groups\<close>

lemma keeps_add_group: "keeps asset_inv (add_group g)"
  by (auto simp: keeps_def add_group_def asset_inv_def credentials_ok_def revision_keys_def hosts_ok_def live_ids_def
      keys_hosted_def host_ids_of_def groups_ok_def split: if_splits)

lemma keeps_update_group: "keeps asset_inv (update_group_row new)"
proof (rule keepsI)
  fix db a db' assume inv: "asset_inv db" and "update_group_row new db = Inr (a, db')"
  then have "db' = db \<or> db' = db\<lparr>host_groups := update_where (\<lambda>x. g_id x = g_id new) (changed_group new) (host_groups db)\<rparr> \<and>
      (\<forall>x \<in> set (host_groups db). g_id x \<noteq> g_id new \<longrightarrow> g_name x \<noteq> g_name new)"
    by (auto simp: update_group_row_def split: option.splits if_splits)
  then show "asset_inv db'"
  proof
    let ?gs = "update_where (\<lambda>x. g_id x = g_id new) (changed_group new) (host_groups db)"
    assume db': "db' = db\<lparr>host_groups := ?gs\<rparr> \<and> (\<forall>x \<in> set (host_groups db). g_id x \<noteq> g_id new \<longrightarrow> g_name x \<noteq> g_name new)"
    then have "distinct (map g_name ?gs)"
      using inv by (auto simp: asset_inv_def groups_ok_def changed_group_def
          intro!: distinct_renamed [of g_id _ _ _ "g_id new" _ "g_name new"])
    moreover have "map g_id ?gs = map g_id (host_groups db)" by (simp add: map_key_update_where changed_group_def)
    moreover from this have "g_id ` set ?gs = g_id ` set (host_groups db)" by (metis list.set_map)
    ultimately show ?thesis using inv db'
      by (simp add: asset_inv_def credentials_ok_def revision_keys_def hosts_ok_def live_ids_def keys_hosted_def
          host_ids_of_def groups_ok_def)
  qed (use inv in simp)
qed

lemma keeps_delete_group: "keeps asset_inv (tx_query (delete_group_row i))"
  by (rule keeps_query)
    (auto simp: delete_group_row_def asset_inv_def credentials_ok_def revision_keys_def hosts_ok_def live_ids_def
      keys_hosted_def host_ids_of_def groups_ok_def delete_where_def intro: distinct_map_filter)

lemma keeps_insert_members: "keeps asset_inv (insert_members g hs)"
proof (induction hs)
  case (Cons h hs)
  have "asset_inv (db\<lparr>host_group_members := host_group_members db @ [(g, h)]\<rparr>)"
    if "asset_inv db" "get_group g db \<noteq> None" "get_host h db \<noteq> None" "(g, h) \<notin> set (host_group_members db)" for db
  proof -
    have "g \<in> g_id ` set (host_groups db)" "h \<in> h_id ` set (hosts db)"
      using that(2,3) by (auto simp: get_group_def get_host_def dest!: fetch_one_SomeD)
    then show ?thesis using that(1,4)
      by (auto simp: asset_inv_def credentials_ok_def revision_keys_def hosts_ok_def live_ids_def keys_hosted_def
          host_ids_of_def groups_ok_def)
  qed
  then show ?case using Cons unfolding keeps_def by (auto split: if_splits)
qed (simp add: keeps_def)

lemma keeps_replace_members: "keeps asset_inv (replace_group_members g hs)"
  unfolding replace_group_members_def
  by (intro keeps_then keeps_insert_members keeps_write)
    (auto simp: asset_inv_def credentials_ok_def revision_keys_def hosts_ok_def live_ids_def keys_hosted_def
      host_ids_of_def groups_ok_def delete_where_def)

section \<open>The services\<close>

named_theorems asset_keeping

lemmas [asset_keeping] = keeps_metadata keeps_delete_credential keeps_delete_host keeps_upsert_host_key keeps_add_group
  keeps_update_group keeps_delete_group keeps_replace_members

lemma keeps_check_bind: "(\<And>a. r = Inr a \<Longrightarrow> keeps P (f a)) \<Longrightarrow> keeps P (tx_bind (tx_check r) f)"
  by (auto simp: keeps_def tx_Inr_iff)

lemma keeps_guard_then: "(ok \<Longrightarrow> keeps P m) \<Longrightarrow> keeps P (tx_then (tx_guard ok e) m)"
  by (auto simp: keeps_def tx_Inr_iff)

lemma keeps_writer: "keeps P (credential_writer env who)"
  unfolding credential_writer_def by (intro keeping)

lemma keeps_ops_audit [asset_keeping]: "keeps asset_inv (ops_audit env src who act ty i)"
  by (simp add: ops_audit_def keeps_def)

lemma new_revision_Inr:
  "new_revision svc env nonce i n secret = Inr r \<Longrightarrow> cr_credential_id r = i \<and> cr_version r = n"
  by (auto simp: new_revision_def split: sum.splits)

lemma keeps_create_body [asset_keeping]: "keeps asset_inv (create_credential_body svc env who i nonce name user ty secret config descr)"
  unfolding create_credential_body_def
  by (intro keeps_guard_then keeps_check_bind keeps_add_credential asset_keeping keeping)
    (simp_all add: new_credential_def new_revision_Inr)

lemma keeps_store_metadata [asset_keeping]: "keeps asset_inv (store_public_metadata env metadata c)"
  unfolding store_public_metadata_def Let_def by (intro keeping asset_keeping)

lemma keeps_rotate_body [asset_keeping]: "keeps asset_inv (rotate_body svc env who nonce i ty secret metadata)"
proof (rule keepsI)
  fix db a db' assume inv: "asset_inv db" and run: "rotate_body svc env who nonce i ty secret metadata db = Inr (a, db')"
  obtain c r x db1 where c: "get_credential i db = Some c"
    and r: "new_revision svc env nonce i (c_current_version c + 1) secret = Inr r"
    and x: "rotate_credential i r (e_now env) db = Inr (x, db1)"
    and rest: "(case x of None \<Rightarrow> tx_raise (NotFoundError ''credential not found'')
       | Some rotated \<Rightarrow> tx_bind (store_public_metadata env metadata rotated) (\<lambda>stored.
            tx_then (ops_audit env (cs_source svc) who CREDENTIAL_ROTATED ''credential'' i) (tx_return stored))) db1 = Inr (a, db')"
    using run by (auto simp: rotate_body_def tx_Inr_iff split: option.splits)
  have "asset_inv db1" using rotate_credential_inv [OF inv c _ _ x] new_revision_Inr [OF r] by simp
  moreover have "keeps asset_inv (case x of None \<Rightarrow> tx_raise (NotFoundError ''credential not found'')
       | Some rotated \<Rightarrow> tx_bind (store_public_metadata env metadata rotated) (\<lambda>stored.
            tx_then (ops_audit env (cs_source svc) who CREDENTIAL_ROTATED ''credential'' i) (tx_return stored)))"
    by (intro keeping asset_keeping)
  ultimately show "asset_inv db'" using rest by (simp add: keeps_def)
qed

lemma keeps_place_host:
  assumes "host_ok h \<and> 1 \<le> h_version h" and "\<And>a. keeps asset_inv (f a)"
  shows "keeps asset_inv (tx_then (require_usable_credential (h_credential_id h)) (tx_bind (add_host h) f))"
proof (rule keepsI)
  fix db b db'
  assume inv: "asset_inv db" and "tx_then (require_usable_credential (h_credential_id h)) (tx_bind (add_host h) f) db = Inr (b, db')"
  then obtain c a db1 where "get_credential (h_credential_id h) db = Some c" "add_host h db = Inr (a, db1)" "f a db1 = Inr (b, db')"
    by (auto simp: tx_Inr_iff usable_credential_Inr)
  moreover from this have "asset_inv db1" by (intro add_host_inv [OF inv assms(1)] usable_live)
  ultimately show "asset_inv db'" using assms(2) by (simp add: keeps_def)
qed

lemma keeps_change_host:
  assumes "\<And>h. made = Inr h \<Longrightarrow> host_ok h \<and> h_credential_id h = i" and "\<And>a. keeps asset_inv (f a)"
  shows "keeps asset_inv (tx_then (require_usable_credential i)
     (tx_bind (tx_check made) (\<lambda>h. tx_bind (update_host_row h expected) f)))"
proof (rule keepsI)
  fix db b db'
  assume inv: "asset_inv db" and "tx_then (require_usable_credential i)
     (tx_bind (tx_check made) (\<lambda>h. tx_bind (update_host_row h expected) f)) db = Inr (b, db')"
  then obtain c h a db1 where "get_credential i db = Some c" "made = Inr h" "update_host_row h expected db = Inr (a, db1)"
      "f a db1 = Inr (b, db')"
    by (auto simp: tx_Inr_iff usable_credential_Inr)
  moreover from this have "asset_inv db1" using assms(1) usable_live by (intro update_host_inv [OF inv]) auto
  ultimately show "asset_inv db'" using assms(2) by (simp add: keeps_def)
qed

lemma keeps_create_host:
  "asset_inv db \<Longrightarrow> asset_inv (snd (create_host svc env who i name addr port cid py en descr vars db))"
  unfolding create_host_def
proof (rule keeps_unit_of_work, intro keeps_then [OF keeps_basic(4)] keeps_guard_then keeps_check_bind, goal_cases)
  case (1 normalized h)
  then have ok: "HOST_NAME name" "validate_address addr = Inr normalized" "make_host
         \<lparr>h_id = i, h_name = name, h_address = normalized, h_ssh_port = port, h_credential_id = cid,
          h_python_interpreter = (case py of None \<Rightarrow> Some ''/usr/bin/python3''
             | Some p \<Rightarrow> Some (if p = [] then ''/usr/bin/python3'' else p)),
          h_enabled = en, h_description = descr, h_variables = vars, h_version = 1,
          h_created_at = e_now env, h_updated_at = e_now env\<rparr> = Inr h" by simp_all
  have "host_ok h \<and> 1 \<le> h_version h \<and> h_credential_id h = cid"
    using made_host_ok [OF _ _ ok(3), of addr] ok(1,2) by simp
  then have ok: "host_ok h \<and> 1 \<le> h_version h" and cid: "cid = h_credential_id h" by simp_all
  show ?case unfolding cid by (intro keeps_place_host ok keeping asset_keeping)
qed

lemma keeps_update_host:
  "asset_inv db \<Longrightarrow> asset_inv (snd (update_host svc env who i expected ch db))"
  unfolding update_host_def Let_def
proof (rule keeps_unit_of_work, intro keeps_change_host keeps_guard_then keeps_check_bind keeping, goal_cases)
  case (1 _ current normalized h)
  then show ?case using made_host_ok [of "(apply_changes ch (e_now env) current)\<lparr>h_address := normalized\<rparr>"
        "h_address (apply_changes ch (e_now env) current)" h] by simp
qed (intro keeping asset_keeping)+

end
