(* ===== verification/Asset_Properties.thy ===== *)
theory Asset_Properties
  imports Asset_Invariant Secret_Payloads Session_Properties
begin

text \<open>
  The calls of the asset services as steps, what holds along their executions, and the properties of
  single operations: secrets come back as they were stored, stale versions change nothing, and a
  trusted host key is one the host presented.
\<close>

section \<open>Calls\<close>

inductive asset_call :: "timestamp \<Rightarrow> db \<Rightarrow> db \<Rightarrow> bool" where
  create_credential: "asset_call (e_now env) db
    (snd (create_credential svc env who i nonce name user pw bpw be bm bu descr db))"
| create_ssh_private_key: "asset_call (e_now env) db
    (snd (create_ssh_private_key svc env who i nonce name user key pass bpw be bm bu descr db))"
| rotate_password: "asset_call (e_now env) db (snd (rotate_password svc env who nonce i pw bpw db))"
| rotate_ssh_private_key: "asset_call (e_now env) db (snd (rotate_ssh_private_key svc env who nonce i key pass bpw db))"
| update_credential: "asset_call (e_now env) db
    (snd (update_credential svc env who i name user descr en be bm bu expected db))"
| remove_credential: "asset_call (e_now env) db (snd (remove_credential svc env who i db))"
| create_host: "asset_call (e_now env) db
    (snd (create_host asv env who i name addr port cid py en descr vars db))"
| update_host: "asset_call (e_now env) db (snd (update_host asv env who i expected ch db))"
| delete_host: "asset_call (e_now env) db (snd (delete_host asv env who i db))"
| create_group: "asset_call (e_now env) db (snd (create_group asv env who i name descr vars ids db))"
| update_group: "asset_call (e_now env) db (snd (update_group asv env who i name descr vars ids db))"
| delete_group: "asset_call (e_now env) db (snd (delete_group asv env who i db))"
| scan_host_keys: "asset_call (e_now env) db (snd (scan_host_keys asv env who scan i db))"
| confirm_host_key: "asset_call (e_now env) db (snd (confirm_host_key asv env who scan user i alg fp db))"

lemmas service_bodies = create_credential_def create_ssh_private_key_def rotate_password_def rotate_ssh_private_key_def
  update_credential_def remove_credential_def delete_host_def create_group_def update_group_def delete_group_def

lemma keeps_validate_ids [asset_keeping]: "keeps P (validate_host_ids ids)"
  unfolding validate_host_ids_def by (intro keeping)

lemma scan_host_keys_table:
  "\<exists>evs. snd (scan_host_keys svc env who scan i db) = db\<lparr>audit_events := audit_events db @ evs\<rparr>"
  by (auto simp: scan_host_keys_def audit_append_def Let_def split: sum.splits intro: exI [of _ "[]"])

lemma asset_inv_events [simp]: "asset_inv (db\<lparr>audit_events := evs\<rparr>) = asset_inv db"
  by (simp add: asset_inv_def credentials_ok_def revision_keys_def hosts_ok_def live_ids_def keys_hosted_def host_ids_of_def groups_ok_def)

lemma confirm_host_key_cases:
  obtains (scanned) evs where "snd (confirm_host_key svc env who scan user i alg fp db) = db\<lparr>audit_events := audit_events db @ evs\<rparr>"
  | (stored) evs k src who' where "snd (confirm_host_key svc env who scan user i alg fp db) = snd (unit_of_work
       (tx_bind (upsert_host_key k) (\<lambda>key. tx_then (ops_audit env src who' HOST_KEY_CONFIRMED ''host'' i) (tx_return key)))
       (db\<lparr>audit_events := audit_events db @ evs\<rparr>))"
proof -
  let ?who = "if ca_actor who = None then \<lparr>ca_actor_user_id = None, ca_session_id = None, ca_actor = None\<rparr>
              else who\<lparr>ca_actor_user_id := Some user\<rparr>"
  obtain evs where evs: "snd (scan_host_keys svc env ?who scan i db) = db\<lparr>audit_events := audit_events db @ evs\<rparr>"
    using scan_host_keys_table by blast
  obtain r d where rd: "scan_host_keys svc env ?who scan i db = (r, d)" by (cases "scan_host_keys svc env ?who scan i db")
  then have d: "d = db\<lparr>audit_events := audit_events db @ evs\<rparr>" using evs by simp
  show ?thesis
  proof (cases r)
    case (Inl e)
    then have "snd (confirm_host_key svc env who scan user i alg fp db) = d"
      unfolding confirm_host_key_def rd by simp
    then show ?thesis using d that(1) by blast
  next
    case (Inr keys)
    show ?thesis
    proof (cases "find (\<lambda>k. sk_algorithm k = alg \<and> sk_fingerprint k = fp) keys")
      case None
      then have "\<exists>ev. snd (confirm_host_key svc env who scan user i alg fp db) = d\<lparr>audit_events := audit_events d @ [ev]\<rparr>"
        unfolding confirm_host_key_def rd Inr by (simp add: audit_append_def) (rule exI, rule refl)
      then show ?thesis using d that(1) [of "evs @ _"] by auto
    next
      case (Some k)
      then show ?thesis using that(2) d unfolding confirm_host_key_def rd Inr by simp
    qed
  qed
qed

lemma keeps_confirm [asset_keeping]:
  "keeps asset_inv (tx_bind (upsert_host_key k) (\<lambda>key. tx_then (ops_audit env src who act ty i) (tx_return key)))"
  by (intro keeping asset_keeping)

lemma asset_call_inv: "asset_call now db db' \<Longrightarrow> asset_inv db \<Longrightarrow> asset_inv db'"
proof (induction rule: asset_call.induct)
  case (confirm_host_key env db asv who scan user i alg fp)
  then show ?case
    by (cases rule: confirm_host_key_cases [of asv env who scan user i alg fp db]) (auto intro: keeps_unit_of_work keeps_confirm)
next
  case (scan_host_keys env db asv who scan i)
  then show ?case using scan_host_keys_table [of asv env who scan i db] by auto
qed (unfold service_bodies, (rule keeps_create_host keeps_update_host, assumption | rule keeps_unit_of_work, intro keeping keeps_writer asset_keeping, assumption)+)

section \<open>The queue beside the assets\<close>

lemma committed_queue: "keeps (same_run_tables d) m \<Longrightarrow> same_run_tables d (snd (unit_of_work m d))"
  by (rule keeps_unit_of_work [where P = "same_run_tables d"]) simp_all

named_theorems asset_queue_keeping

lemma same_events [simp]: "same_run_tables d0 (db\<lparr>audit_events := evs\<rparr>) = same_run_tables d0 db"
  by (simp add: same_run_tables_def)

lemma keeps_queue_asset_statements [asset_queue_keeping]:
  "keeps (same_run_tables d0) (ops_audit env src who act ty i)" "keeps (same_run_tables d0) (insert_credential_revision r)"
  "keeps (same_run_tables d0) (insert_credential c)" "keeps (same_run_tables d0) (update_credential_metadata c n)"
  "keeps (same_run_tables d0) (add_host h)" "keeps (same_run_tables d0) (update_host_row h n)"
  "keeps (same_run_tables d0) (add_group g)" "keeps (same_run_tables d0) (update_group_row g)"
  "keeps (same_run_tables d0) (upsert_host_key k)"
  by (auto simp: keeps_def same_run_tables_def ops_audit_def insert_credential_revision_def insert_credential_def
      update_credential_metadata_def add_host_def update_host_row_def add_group_def update_group_row_def upsert_host_key_def
      Let_def split: option.splits if_splits)

lemma keeps_queue_asset_queries [asset_queue_keeping]:
  "keeps (same_run_tables d0) (tx_query (delete_credential i now))" "keeps (same_run_tables d0) (tx_query (delete_group_row i))"
  "keeps (same_run_tables d0) (rotate_credential i r now)"
  by (auto simp: keeps_def same_run_tables_def delete_credential_def delete_group_row_def rotate_credential_def tx_Inr_iff
      insert_revision_Inr Let_def)

lemma keeps_queue_members [asset_queue_keeping]: "keeps (same_run_tables d0) (replace_group_members g ids)"
proof -
  have "insert_members g ids db = Inr (a, db') \<Longrightarrow> same_run_tables d0 db \<Longrightarrow> same_run_tables d0 db'" for a db db'
    by (induction ids arbitrary: db) (auto simp: same_run_tables_def split: if_splits)
  then show ?thesis by (auto simp: keeps_def replace_group_members_def tx_Inr_iff same_run_tables_def)
qed

lemma keeps_queue_asset_parts [asset_queue_keeping]:
  "keeps (same_run_tables d0) (add_credential c r)"
  "keeps (same_run_tables d0) (create_credential_body svc env who i nonce name user ty secret config descr)"
  "keeps (same_run_tables d0) (store_public_metadata env metadata c)"
  "keeps (same_run_tables d0) (rotate_body svc env who nonce i ty secret metadata)"
  "keeps (same_run_tables d0) (require_usable_credential i)"
  unfolding add_credential_def create_credential_body_def store_public_metadata_def rotate_body_def
    require_usable_credential_def Let_def
  by (intro keeping asset_queue_keeping)+

lemma delete_host_queue:
  assumes "run_inv db" and "delete_host_row i db = Inr (a, db')"
  shows "same_run_tables db db'"
proof -
  have "hl_host_id l \<noteq> i" if "l \<in> set (host_execution_locks db)"
    "i \<notin> t_host_id ` set (run_targets db)" "i \<notin> ws_host_id ` set (web_shell_sessions db)" for l
  proof -
    have "lock_ok db l" using assms(1) that(1) by (simp add: run_inv_def locks_ok_def)
    then have "hl_host_id l \<in> t_host_id ` set (run_targets db) \<union> ws_host_id ` set (web_shell_sessions db)"
      by (auto simp: lock_ok_def run_lock_ok_def session_lock_ok_def target_pairs_def ws_get_def
          split: option.splits dest!: fetch_one_SomeD intro: rev_image_eqI)
    then show ?thesis using that(2,3) by auto
  qed
  then have "delete_where (\<lambda>l. hl_host_id l = i) (host_execution_locks db) = host_execution_locks db"
    if "i \<notin> t_host_id ` set (run_targets db)" "i \<notin> ws_host_id ` set (web_shell_sessions db)"
    using that by (simp add: delete_where_def filter_id_conv)
  then show ?thesis using assms(2) by (auto simp: delete_host_row_def same_run_tables_def split: if_splits)
qed

lemma delete_host_service_queue:
  assumes "run_inv db"
  shows "same_run_tables db (snd (delete_host svc env who i db))"
proof -
  let ?body = "tx_then (tx_check (allowed who ASSET_WRITE))
      (tx_bind (delete_host_row i) (\<lambda>deleted.
       tx_then (tx_guard deleted (ConflictError ''host is missing or referenced by execution history''))
         (ops_audit env (av_source svc) who HOST_DELETED ''host'' i)))"
  have "same_run_tables db db'" if r: "?body db = Inr (a, db')" for a db'
  proof -
    obtain x db1 where 1: "delete_host_row i db = Inr (x, db1)" and 2: "ops_audit env (av_source svc) who HOST_DELETED ''host'' i db1 = Inr (a, db')"
      using r unfolding tx_Inr_iff by (elim exE conjE) (rule that, simp_all)
    show ?thesis using delete_host_queue [OF assms 1] 2 by (auto simp: ops_audit_def same_run_tables_def)
  qed
  then show ?thesis by (cases "?body db") (auto simp: delete_host_def unit_of_work_def)
qed

lemma asset_call_queue:
  assumes "asset_call now db db'" and "run_inv db"
  shows "same_run_tables db db'"
  using assms
proof (induction rule: asset_call.induct)
  case (delete_host env db asv who i)
  then show ?case by (rule delete_host_service_queue)
next
  case (confirm_host_key env db asv who scan user i alg fp)
  show ?case
  proof (cases rule: confirm_host_key_cases [of asv env who scan user i alg fp db])
    case (stored evs k src who')
    show ?thesis unfolding stored
      by (rule keeps_unit_of_work [where P = "same_run_tables db"], intro keeping asset_queue_keeping) simp
  qed simp
next
  case (scan_host_keys env db asv who scan i)
  then show ?case using scan_host_keys_table [of asv env who scan i db] by auto
qed (unfold service_bodies create_host_def update_host_def Let_def,
  (rule committed_queue, intro keeping keeps_writer asset_queue_keeping asset_keeping(9-))+)

section \<open>An inventory\<close>

definition sample_inventory :: db where
  "sample_inventory = empty_db\<lparr>
     users := [\<lparr>u_id = 9, u_username = ''ops'', u_password_hash = None, u_status = US_ACTIVE, u_role = OWNER,
       u_mfa_enrollment_required = False, u_activated_at = None, u_version = 1, u_created_at = 0, u_updated_at = 0,
       u_password_updated_at = None\<rparr>],
     hosts := [\<lparr>h_id = 100, h_name = ''web'', h_address = ''10.0.0.1'', h_ssh_port = 22, h_credential_id = 5,
       h_python_interpreter = None, h_enabled = True, h_description = [], h_variables = [], h_version = 1,
       h_created_at = 0, h_updated_at = 0\<rparr>],
     credentials := [\<lparr>c_id = 5, c_name = ''ops'', c_type = CT_PASSWORD, c_username = ''ops'', c_public_config = [],
       c_current_version = 1, c_lock_version = 1, c_enabled = True, c_description = [], c_deleted_at = None,
       c_created_at = 0, c_updated_at = 0\<rparr>],
     credential_revisions := [\<lparr>cr_credential_id = 5, cr_version = 1, cr_encrypted_secret = [], cr_key_version = 1,
       cr_created_at = 0, cr_updated_at = 0\<rparr>]\<rparr>"

lemma sample_inventory_inv: "asset_inv sample_inventory"
proof -
  have "hosts_ok sample_inventory" by code_simp
  moreover have "credentials_ok sample_inventory"
    by (auto simp: credentials_ok_def revision_keys_def sample_inventory_def empty_db_def)
  ultimately show ?thesis
    by (simp add: asset_inv_def keys_hosted_def groups_ok_def sample_inventory_def empty_db_def)
qed

lemma sample_inventory_queue: "run_inv sample_inventory"
proof -
  have "same_run_tables empty_db sample_inventory" by (simp add: same_run_tables_def sample_inventory_def)
  then show ?thesis using run_inv_cong run_inv_empty by blast
qed

definition nobody :: caller where
  "nobody = \<lparr>ca_actor_user_id = None, ca_session_id = None, ca_actor = None\<rparr>"

definition sample_assets_service :: asset_service where
  "sample_assets_service = \<lparr>av_sha256 = (\<lambda>b. b), av_source = SRC_API\<rparr>"

definition sample_credentials_service :: credential_service where
  "sample_credentials_service = \<lparr>cs_gcm = demo_gcm,
     cs_codec = \<lparr>tc_decode = (\<lambda>bs. Some (map char_of bs)),
       tc_loads = (\<lambda>s. Some (canonical (JObj [(''password'', JStr ''pw'')])))\<rparr>,
     cs_keyring = demo_keyring, cs_load_key = (\<lambda>_ _. None), cs_sha256 = (\<lambda>b. b), cs_source = SRC_API\<rparr>"

section \<open>Rotated credentials\<close>

lemma get_credential_live: "get_credential i db = Some c \<Longrightarrow> c \<in> set (credentials db) \<and> c_id c = i \<and> c_deleted_at c = None"
  by (auto simp: get_credential_def live_credential_def dest: fetch_one_SomeD)

lemma get_credential_unique:
  assumes "asset_inv db" and "get_credential i db = Some c" and "x \<in> set (credentials db)" and "c_id x = i"
  shows "x = c"
  using assms get_credential_live [OF assms(2)] row_by_key [of c_id "credentials db" x c]
  by (auto simp: asset_inv_def credentials_ok_def)

lemma store_metadata_Inr:
  assumes inv: "asset_inv db" and c: "get_credential i db = Some c"
    and run: "store_public_metadata env metadata c db = Inr (c', db')"
  shows "credential_revisions db' = credential_revisions db \<and> get_credential i db' = Some c' \<and>
     c_current_version c' = c_current_version c"
proof (cases "metadata = []")
  case True
  then show ?thesis using run c by (simp add: store_public_metadata_def)
next
  case False
  let ?new = "c\<lparr>c_public_config := dict_update (c_public_config c) metadata, c_updated_at := e_now env\<rparr>"
  let ?p = "\<lambda>x. live_credential i x \<and> c_lock_version x = c_lock_version c"
  note live = get_credential_live [OF c]
  have eq: "?p x \<longleftrightarrow> x = c" if "x \<in> set (credentials db)" for x
    using get_credential_unique [OF inv c that] live by (auto simp: live_credential_def)
  have p: "fetch_one ?p (credentials db) = Some c"
  proof -
    have "fetch_one ?p (credentials db) \<noteq> None" using live eq by (auto simp: fetch_one_None_iff simp del: not_None_eq)
    then show ?thesis using eq by (auto dest: fetch_one_SomeD)
  qed
  have "c_name x \<noteq> c_name c" if "x \<in> set (credentials db)" "c_id x \<noteq> i" for x
    using that live inv row_by_key [of c_name "credentials db" x c] by (auto simp: asset_inv_def credentials_ok_def)
  then have "update_credential_metadata ?new (c_lock_version c) db =
      Inr (Some (described_credential ?new c), db\<lparr>credentials := update_where ?p (described_credential ?new) (credentials db)\<rparr>)"
    using p live by (auto simp: update_credential_metadata_def Let_def)
  then have r: "c' = described_credential ?new c" "db' = db\<lparr>credentials := update_where ?p (described_credential ?new) (credentials db)\<rparr>"
    using run False by (simp_all add: store_public_metadata_def Let_def tx_Inr_iff tx_bind_def)
  have "fetch_one (live_credential i) (update_where ?p (described_credential ?new) rows) =
      map_option (\<lambda>x. if ?p x then described_credential ?new x else x) (fetch_one (live_credential i) rows)" for rows
    by (induction rows) (auto simp: live_credential_def described_credential_def)
  then have "get_credential i db' = Some c'"
    using c live r by (simp add: get_credential_def live_credential_def)
  then show ?thesis using r by (simp add: described_credential_def)
qed

lemma rotate_body_Inr:
  assumes inv: "asset_inv db" and run: "rotate_body svc env who nonce i ty secret metadata db = Inr (c, db')"
  obtains old r where "get_credential i db = Some old" and "c_type old = ty"
    and "new_revision svc env nonce i (c_current_version old + 1) secret = Inr r"
    and "credential_revisions db' = credential_revisions db @ [r]" and "get_credential i db' = Some c"
    and "c_current_version c = c_current_version old + 1" and "(i, c_current_version old + 1) \<notin> set (revision_keys db)"
proof -
  obtain old r x db1 c1 db2 where old: "get_credential i db = Some old" and ty: "c_type old = ty"
    and r: "new_revision svc env nonce i (c_current_version old + 1) secret = Inr r"
    and x: "rotate_credential i r (e_now env) db = Inr (Some x, db1)"
    and st: "store_public_metadata env metadata x db1 = Inr (c1, db2)"
    and au: "ops_audit env (cs_source svc) who CREDENTIAL_ROTATED ''credential'' i db2 = Inr ((), db')" and c1: "c1 = c"
    using run by (auto simp: rotate_body_def tx_Inr_iff split: option.splits)
  note rot = rotate_credential_inv [OF inv old _ _ x] new_revision_Inr [OF r]
  have x1: "asset_inv db1" "x = rotated_credential (cr_version r) (e_now env) old" "get_credential i db1 = Some x"
    using rot by auto
  have rev1: "credential_revisions db1 = credential_revisions db @ [r]" and new: "(i, cr_version r) \<notin> set (revision_keys db)"
    using x rot(2) by (auto simp: rotate_credential_def tx_Inr_iff insert_revision_Inr)
  note st2 = store_metadata_Inr [OF x1(1,3) st]
  have "credential_revisions db' = credential_revisions db2" "credentials db' = credentials db2"
    using au by (auto simp: ops_audit_def)
  then show thesis using st2 rev1 new rot(2) x1(2) c1
    by (intro that [OF old ty r]) (auto simp: get_credential_def rotated_credential_def)
qed

lemma lookup_revision_append:
  "get_credential_revision i n db' = (case get_credential_revision i n db of
      None \<Rightarrow> if cr_credential_id r = i \<and> cr_version r = n then Some r else None | Some x \<Rightarrow> Some x)"
  if "credential_revisions db' = credential_revisions db @ [r]"
  using that by (simp add: get_credential_revision_def fetch_one_append split: option.splits)

lemma revision_exists: "get_credential_revision i n db \<noteq> None \<longleftrightarrow> (i, n) \<in> set (revision_keys db)"
  by (auto simp: get_credential_revision_def revision_keys_def fetch_one_None_iff image_iff simp del: not_None_eq)

text \<open>
  C38: A rotated password is stored as the next revision of its credential: decrypting that revision
  gives the password and become password back, every earlier revision decrypts to what it did before, and the
  new revision becomes the current one.
\<close>

theorem rotated_secret_comes_back:
  assumes "gcm_ok (cs_gcm svc)" and "length nonce = 12" and "1 \<le> kr_primary_version (cs_keyring svc)"
    and "asset_inv db" and "rotate_password svc env who nonce i pw bpw db = (Inr c, db')"
    and "secret = (''password'', pw) # become_secret bpw" and "reads_secret (cs_codec svc) secret"
  shows "\<exists>old got. get_credential i db = Some old \<and> c_current_version c = c_current_version old + 1 \<and>
     get_credential i db' = Some c \<and>
     decrypt_revision svc i (c_current_version c) db' = Inr got \<and> map_of got = map_of secret \<and>
     (\<forall>n. n \<noteq> c_current_version c \<longrightarrow> decrypt_revision svc i n db' = decrypt_revision svc i n db)"
proof -
  let ?kr = "cs_keyring svc"
  have "rotate_body svc env who nonce i CT_PASSWORD secret [(''hasBecomePassword'', JBool (bpw \<noteq> None))] db = Inr (c, db')"
    using assms(5,6) by (auto simp: rotate_password_def unit_of_work_Inr_iff tx_Inr_iff credential_writer_def)
  then obtain old r where old: "get_credential i db = Some old"
    and r: "new_revision svc env nonce i (c_current_version old + 1) secret = Inr r"
    and rev: "credential_revisions db' = credential_revisions db @ [r]" and c: "get_credential i db' = Some c"
    and n: "c_current_version c = c_current_version old + 1" and new: "(i, c_current_version old + 1) \<notin> set (revision_keys db)"
    by (rule rotate_body_Inr [OF assms(4)])
  obtain envelope where env: "cipher_encrypt (cs_gcm svc) nonce ?kr i (c_current_version c) secret = Inr envelope"
    and rr: "r = \<lparr>cr_credential_id = i, cr_version = c_current_version c, cr_encrypted_secret = envelope,
       cr_key_version = nat (kr_primary_version ?kr), cr_created_at = e_now env, cr_updated_at = e_now env\<rparr>"
    using r n by (auto simp: new_revision_def split: sum.splits)
  have "distinct (map fst secret)" by (simp add: assms(6) become_secret_def split: option.splits)
  then obtain got where got: "cipher_decrypt (cs_gcm svc) (cs_codec svc) ?kr i (c_current_version c) envelope
      (nat (kr_primary_version ?kr)) = Inr got" "map_of got = map_of secret"
    using cipher_roundtrip [OF assms(1-3) _ assms(7) env] by blast
  have "get_credential_revision i (c_current_version c) db = None" using new n revision_exists by metis
  then have "get_credential_revision i (c_current_version c) db' = Some r"
    using lookup_revision_append [OF rev, of i "c_current_version c"] rr by simp
  moreover have "has_version ?kr (kr_primary_version ?kr)"
    using cipher_encrypt_InrD [OF env]
    by (auto simp: encrypt_with_aad_def chosen_version_def has_version_def Let_def image_iff split: option.splits dest!: map_of_SomeD intro: rev_bexI)
  ultimately have "decrypt_revision svc i (c_current_version c) db' = Inr got"
    using got(1) assms(3) rr by (simp add: decrypt_revision_def)
  moreover have "decrypt_revision svc i m db' = decrypt_revision svc i m db" if "m \<noteq> c_current_version c" for m
    using lookup_revision_append [OF rev, of i m] rr that by (auto simp: decrypt_revision_def split: option.splits)
  ultimately show ?thesis using old n c got(2) by blast
qed

theorem rotated_secret_comes_back_witness:
  "\<exists>c db' got. rotate_password sample_credentials_service (sample_env 0) nobody (replicate 12 9) 5 ''pw'' None sample_inventory = (Inr c, db') \<and>
     decrypt_revision sample_credentials_service 5 (c_current_version c) db' = Inr got \<and> map_of got ''password'' = Some ''pw''"
proof -
  let ?r = "rotate_password sample_credentials_service (sample_env 0) nobody (replicate 12 9) 5 ''pw'' None sample_inventory"
  have "case fst ?r of Inl _ \<Rightarrow> False | Inr _ \<Rightarrow> True" by code_simp
  then obtain c db' where r: "?r = (Inr c, db')" by (cases ?r) (auto split: sum.splits)
  have "reads_secret (cs_codec sample_credentials_service) [(''password'', ''pw'')]" by code_simp
  then have "\<exists>old got. get_credential 5 sample_inventory = Some old \<and> c_current_version c = c_current_version old + 1 \<and>
     get_credential 5 db' = Some c \<and> decrypt_revision sample_credentials_service 5 (c_current_version c) db' = Inr got \<and>
     map_of got = map_of [(''password'', ''pw'')] \<and> (\<forall>n. n \<noteq> c_current_version c \<longrightarrow>
       decrypt_revision sample_credentials_service 5 n db' = decrypt_revision sample_credentials_service 5 n sample_inventory)"
    by (intro rotated_secret_comes_back [OF _ _ _ sample_inventory_inv r])
      (simp_all add: sample_credentials_service_def gcm_ok_demo demo_keyring_def become_secret_def)
  then show ?thesis using r by (metis map_of_Cons_code(2))
qed

section \<open>Concurrent edits\<close>

lemma changed_host_simps [simp]: "h_id (changed_host new h) = h_id h" "h_version (changed_host new h) = h_version h + 1"
  by (simp_all add: changed_host_def)

lemma update_host_row_Inr:
  assumes "asset_inv db" and "update_host_row new expected db = Inr (Some h', db')"
  obtains h where "get_host (h_id new) db = Some h" and "h_version h = expected" and "h' = changed_host new h"
    and "get_host (h_id new) db' = Some h'" and "\<forall>j. j \<noteq> h_id new \<longrightarrow> get_host j db' = get_host j db"
proof -
  let ?p = "\<lambda>h. h_id h = h_id new \<and> h_version h = expected"
  obtain h where h: "fetch_one ?p (hosts db) = Some h" and h': "h' = changed_host new h"
    and db': "db' = db\<lparr>hosts := update_where ?p (changed_host new) (hosts db)\<rparr>"
    using assms(2) by (auto simp: update_host_row_def Let_def split: option.splits if_splits)
  have hv: "h \<in> set (hosts db)" "h_id h = h_id new" "h_version h = expected" using fetch_one_SomeD [OF h] by auto
  have get: "get_host (h_id new) db = Some h"
    using hv(1,2) lookup_Some_iff [of h_id "hosts db" "h_id new" h] assms(1)
    by (simp add: get_host_def asset_inv_def hosts_ok_def)
  have "get_host j db' = map_option (\<lambda>r. if ?p r then changed_host new r else r) (get_host j db)" for j
    unfolding get_host_def db' using lookup_update_where [of h_id "changed_host new" j ?p] by simp
  then have "get_host (h_id new) db' = Some h'" "\<forall>j. j \<noteq> h_id new \<longrightarrow> get_host j db' = get_host j db"
    using get hv h' by (auto simp: get_host_def map_option_case split: option.splits dest: fetch_one_SomeD)
  then show thesis using that [OF get hv(3) h'] by blast
qed

lemma update_host_InrD:
  assumes "update_host svc env who i expected ch db = (Inr h', db')"
  obtains h new db1 where "get_host i db = Some h" and "h_id new = h_id h"
    and "update_host_row new expected db = Inr (Some h', db1)" and "hosts db' = hosts db1"
proof -
  obtain h n new x db1 where 1: "get_host i db = Some h"
    and 2: "make_host ((apply_changes ch (e_now env) h)\<lparr>h_address := n\<rparr>) = Inr new"
    and 3: "update_host_row new expected db = Inr (x, db1)"
    and 4: "(case x of None \<Rightarrow> tx_raise (ConflictError ''host was modified by another request'')
       | Some updated \<Rightarrow> tx_then (ops_audit env (av_source svc) who HOST_UPDATED ''host'' i) (tx_return updated)) db1 = Inr (h', db')"
    using assms unfolding update_host_def unit_of_work_Inr_iff Let_def
    by (auto simp: tx_Inr_iff usable_credential_Inr split: option.splits)
  have "h_id new = h_id h" using 2 by (auto simp: make_host_def apply_changes_def split: if_splits)
  moreover have "x = Some h'" "hosts db' = hosts db1" using 4 by (auto simp: tx_Inr_iff ops_audit_def split: option.splits)
  ultimately show thesis using that 1 3 by blast
qed

lemma update_host_Inl: "update_host svc env who i expected ch db = (Inl e, db') \<Longrightarrow> db' = db"
  unfolding update_host_def by (rule unit_of_work_rollback)

text \<open>
  Two editors cannot overwrite each other: an update of a host that succeeds was made against its
  current version and raises the version by one, changing no other host; a later update against the same
  version raises and changes nothing.
\<close>

theorem host_update_not_lost:
  assumes "asset_inv db" and "update_host svc env who i expected ch db = (Inr h', db')"
  shows "\<exists>h. get_host i db = Some h \<and> h_version h = expected \<and> h_version h' = expected + 1 \<and> get_host i db' = Some h' \<and>
     (\<forall>j. j \<noteq> i \<longrightarrow> get_host j db' = get_host j db) \<and>
     (\<forall>svc2 env2 who2 ch2. \<exists>e. update_host svc2 env2 who2 i expected ch2 db' = (Inl e, db'))"
proof -
  obtain h new db1 where h: "get_host i db = Some h" "h_id new = h_id h"
    and row: "update_host_row new expected db = Inr (Some h', db1)" and same: "hosts db' = hosts db1"
    by (rule update_host_InrD [OF assms(2)])
  have i: "h_id h = i" using h(1) by (auto simp: get_host_def dest: fetch_one_SomeD)
  obtain h0 where h0: "get_host i db = Some h0" "h_version h0 = expected" "h' = changed_host new h0"
    "get_host i db1 = Some h'" "\<forall>j. j \<noteq> i \<longrightarrow> get_host j db1 = get_host j db"
    by (rule update_host_row_Inr [OF assms(1) row]) (use h(2) i in simp)
  have hosts: "get_host j db' = get_host j db1" for j using same by (simp add: get_host_def)
  have inv': "asset_inv db'" using keeps_update_host [OF assms(1), of svc env who i expected ch] assms(2) by simp
  have "\<exists>e. update_host svc2 env2 who2 i expected ch2 db' = (Inl e, db')" for svc2 env2 who2 ch2
  proof (cases "update_host svc2 env2 who2 i expected ch2 db'")
    case (Pair r db2)
    show ?thesis
    proof (cases r)
      case (Inl e)
      then show ?thesis using Pair update_host_Inl by blast
    next
      case (Inr h2)
      obtain h1 new2 db3 where h1: "get_host i db' = Some h1" "h_id new2 = h_id h1" "update_host_row new2 expected db' = Inr (Some h2, db3)"
        by (rule update_host_InrD [OF Pair [unfolded Inr]])
      then have new2: "h_id new2 = i" by (auto simp: get_host_def dest: fetch_one_SomeD)
      have "h_version h1 = expected"
        by (rule update_host_row_Inr [OF inv' h1(3)]) (use h1(1) new2 in simp)
      moreover have "h1 = h'" using h1(1) hosts h0(4) by simp
      ultimately show ?thesis using h0(2,3) by simp
    qed
  qed
  then show ?thesis using h0 hosts by (auto simp: changed_host_simps)
qed

definition sample_changes :: host_changes where
  "sample_changes = \<lparr>hc_name = None, hc_address = None, hc_ssh_port = Some 2222, hc_credential_id = None,
     hc_python_interpreter = None, hc_enabled = None, hc_description = None, hc_variables = None\<rparr>"

theorem host_update_not_lost_witness:
  "\<exists>h' db' e. update_host sample_assets_service (sample_env 0) nobody 100 1 sample_changes sample_inventory = (Inr h', db') \<and>
     h_version h' = 2 \<and> update_host sample_assets_service (sample_env 1) nobody 100 1 sample_changes db' = (Inl e, db')"
proof -
  let ?r = "update_host sample_assets_service (sample_env 0) nobody 100 1 sample_changes sample_inventory"
  have "case fst ?r of Inl _ \<Rightarrow> False | Inr _ \<Rightarrow> True" by code_simp
  then obtain h' db' where r: "?r = (Inr h', db')" by (cases ?r) (auto split: sum.splits)
  then show ?thesis using host_update_not_lost [OF sample_inventory_inv r] by (metis one_add_one)
qed

text \<open>A host with an open terminal is not refused like one with runs: the foreign key's error leaves the service as it is.\<close>

lemma delete_host_open_session:
  assumes "allowed who ASSET_WRITE = Inr ()" and "get_host i db = Some h" and "i \<notin> set (map t_host_id (run_targets db))"
    and "i \<in> set (map ws_host_id (web_shell_sessions db))"
  shows "delete_host svc env who i db = (Inl (ForeignKeyViolation ''web_shell_sessions''), db)"
  using assms by (simp add: delete_host_def delete_host_row_def unit_of_work_def tx_then_def tx_bind_def tx_check_def)

section \<open>Trusted host keys\<close>

lemma set_dict_set: "set (dict_set k v d) \<subseteq> insert (k, v) (set d)"
  by (induction k v d rule: dict_set.induct) (auto split: if_splits)

lemma collect_keys_scanned:
  assumes "(a, k) \<in> set (collect_keys sha256 out)"
  shows "a = sk_algorithm k \<and> (\<exists>line \<in> set (py_splitlines out). parse_scan_line sha256 line = Some k)"
proof -
  let ?f = "\<lambda>line keys. case parse_scan_line sha256 line of None \<Rightarrow> keys | Some k \<Rightarrow> dict_set (sk_algorithm k) k keys"
  have "(a, k) \<in> set (fold ?f lines keys) \<Longrightarrow> (a, k) \<in> set keys \<or>
      a = sk_algorithm k \<and> (\<exists>line \<in> set lines. parse_scan_line sha256 line = Some k)" for lines keys
  proof (induction lines arbitrary: keys)
    case (Cons line lines)
    from Cons.prems have "(a, k) \<in> set (?f line keys) \<or> a = sk_algorithm k \<and> (\<exists>l \<in> set lines. parse_scan_line sha256 l = Some k)"
      by (intro Cons.IH) simp
    moreover have "(a, k) \<in> set (?f line keys) \<Longrightarrow> (a, k) \<in> set keys \<or> a = sk_algorithm k \<and> parse_scan_line sha256 line = Some k"
      using set_dict_set by (fastforce split: option.splits)
    ultimately show ?case by auto
  qed simp
  then show ?thesis using assms by (fastforce simp: collect_keys_def)
qed

lemma scan_outcome_Inr:
  assumes "scan_outcome sha256 result = Inr keys" and "k \<in> set keys"
  obtains out line where "result = Scan_Exit 0 out" and "line \<in> set (py_splitlines out)" and "parse_scan_line sha256 line = Some k"
proof -
  obtain out where out: "result = Scan_Exit 0 out" "keys = map snd (sort_key fst (collect_keys sha256 out))"
    using assms(1) by (auto simp: scan_outcome_def Let_def split: scan_result.splits if_splits)
  then obtain a where "(a, k) \<in> set (collect_keys sha256 out)" using assms(2) by auto
  then show thesis using that out(1) collect_keys_scanned by blast
qed

text \<open>
  A host key is trusted only as the host presents it: a confirmation that succeeds stores the key of
  the confirmed algorithm from a line the scan of this very host returned, its fingerprint is the digest of that key
  and the one the operator confirmed; a confirmation that raises leaves every trusted key as it was.
\<close>

theorem confirmed_key_was_scanned:
  "case confirm_host_key svc env who scan user i alg fp db of
     (Inr k, db') \<Rightarrow> k \<in> set (list_host_keys i db') \<and> hk_algorithm k = alg \<and> hk_fingerprint k = fp \<and> hk_trusted_by k = user \<and>
       (\<exists>h out line blob. get_host i db = Some h \<and> scan h = Scan_Exit 0 out \<and> line \<in> set (py_splitlines out) \<and>
          py_words line ! 1 = alg \<and> py_words line ! 2 = hk_public_key k \<and>
          b64decode_lenient (hk_public_key k) = Some blob \<and> fp = fingerprint_of (av_sha256 svc) blob) \<and>
       (\<forall>x \<in> set (host_keys db). (hk_host_id x, hk_algorithm x) \<noteq> (i, alg) \<longrightarrow> x \<in> set (host_keys db'))
   | (Inl e, db') \<Rightarrow> host_keys db' = host_keys db"
proof (cases "confirm_host_key svc env who scan user i alg fp db")
  case (Pair r db')
  let ?who = "if ca_actor who = None then \<lparr>ca_actor_user_id = None, ca_session_id = None, ca_actor = None\<rparr>
              else who\<lparr>ca_actor_user_id := Some user\<rparr>"
  obtain r1 d where rd: "scan_host_keys svc env ?who scan i db = (r1, d)" by (cases "scan_host_keys svc env ?who scan i db")
  have d: "host_keys d = host_keys db" using scan_host_keys_table [of svc env ?who scan i db] rd by auto
  show ?thesis
  proof (cases r)
    case (Inl e)
    have "host_keys db' = host_keys d"
      using Pair rd Inl unfolding confirm_host_key_def
      by (auto split: sum.splits option.splits dest: unit_of_work_rollback)
    then show ?thesis using Pair Inl d by simp
  next
    case (Inr k)
    obtain keys sk where keys: "r1 = Inr keys" and sk: "find (\<lambda>k. sk_algorithm k = alg \<and> sk_fingerprint k = fp) keys = Some sk"
      using Pair rd Inr unfolding confirm_host_key_def by (auto split: sum.splits option.splits)
    let ?k = "\<lparr>hk_host_id = i, hk_algorithm = alg, hk_public_key = sk_public_key sk, hk_fingerprint = fp,
          hk_trusted_by = user, hk_trusted_at = e_now env\<rparr>"
    have "unit_of_work (tx_bind (upsert_host_key ?k) (\<lambda>key. tx_then (ops_audit env (av_source svc)
        (who\<lparr>ca_actor_user_id := Some user\<rparr>) HOST_KEY_CONFIRMED ''host'' i) (tx_return key))) d = (Inr k, db')"
      using Pair rd keys sk Inr unfolding confirm_host_key_def by simp
    then obtain d1 where up: "upsert_host_key ?k d = Inr (k, d1)" and d1: "host_keys db' = host_keys d1"
      unfolding unit_of_work_Inr_iff by (auto simp: tx_Inr_iff ops_audit_def)
    let ?p = "\<lambda>x. hk_host_id x = i \<and> hk_algorithm x = alg"
    have k: "k = ?k" and tables: "host_keys db' = (if \<exists>x \<in> set (host_keys db). ?p x then update_where ?p (\<lambda>_. k) (host_keys db)
        else host_keys db @ [k])"
      using up d d1 by (auto simp: upsert_host_key_def Let_def split: if_splits)
    have "k \<in> set (host_keys db')" unfolding tables by (auto simp: set_update_where)
    moreover have "\<forall>x \<in> set (host_keys db). (hk_host_id x, hk_algorithm x) \<noteq> (i, alg) \<longrightarrow> x \<in> set (host_keys db')"
      unfolding tables by (auto simp: set_update_where)
    moreover obtain h where h: "get_host i db = Some h" "scan_outcome (av_sha256 svc) (scan h) = Inr keys"
      using rd keys by (auto simp: scan_host_keys_def read_host_def Let_def split: sum.splits option.splits)
    moreover have in_keys: "sk \<in> set keys" "sk_algorithm sk = alg" "sk_fingerprint sk = fp"
      using sk by (auto simp: find_Some_iff)
    moreover obtain out line where ol: "scan h = Scan_Exit 0 out" "line \<in> set (py_splitlines out)"
        "parse_scan_line (av_sha256 svc) line = Some sk"
      by (rule scan_outcome_Inr [OF h(2) in_keys(1)])
    moreover from ol(3) in_keys obtain blob where "py_words line ! 1 = alg" "py_words line ! 2 = sk_public_key sk"
        "b64decode_lenient (sk_public_key sk) = Some blob" "fp = fingerprint_of (av_sha256 svc) blob"
      by (auto simp: parse_scan_line_def split: if_splits option.splits)
    ultimately show ?thesis using Pair Inr k by (auto simp: list_host_keys_def)
  qed
qed

definition sample_scan :: "host \<Rightarrow> scan_result" where
  "sample_scan h = Scan_Exit 0 (h_address h @ '' ssh-ed25519 AAEC'')"

theorem confirmed_key_was_scanned_witness:
  "\<exists>k db'. confirm_host_key sample_assets_service (sample_env 0) nobody sample_scan 9 100 ''ssh-ed25519'' ''SHA256:AAEC''
       sample_inventory = (Inr k, db') \<and> k \<in> set (list_host_keys 100 db')"
proof -
  let ?r = "confirm_host_key sample_assets_service (sample_env 0) nobody sample_scan 9 100 ''ssh-ed25519'' ''SHA256:AAEC'' sample_inventory"
  have "case fst ?r of Inl _ \<Rightarrow> False | Inr _ \<Rightarrow> True" by code_simp
  then obtain k db' where r: "?r = (Inr k, db')" by (cases ?r) (auto split: sum.splits)
  then show ?thesis
    using confirmed_key_was_scanned [where svc = sample_assets_service and env = "sample_env 0" and who = nobody and scan = sample_scan
        and user = 9 and i = 100 and alg = "''ssh-ed25519''" and fp = "''SHA256:AAEC''" and db = sample_inventory]
    by auto
qed

section \<open>Executions\<close>

interpretation inventory: monotone_system asset_call "\<lambda>db. asset_inv db \<and> run_inv db" same_run_tables
proof unfold_locales
  show "asset_inv s' \<and> run_inv s'" if "asset_inv s \<and> run_inv s" "asset_call l s s'" for s l s'
    using that asset_call_inv asset_call_queue run_inv_cong by blast
  show "same_run_tables s s'" if "asset_inv s \<and> run_inv s" "asset_call l s s'" for s l s'
    using that asset_call_queue by blast
qed (auto simp: same_run_tables_def)

text \<open>
  C17: Every sequence of calls of the credential and asset services keeps the inventory consistent:
  names and ids stay unique, every credential has exactly the revisions 1 up to its current version,
  every host has a valid name, address and port and a credential that is not deleted, and keys, group
  members, run targets and Web Shell sessions refer to existing hosts. The queue's tables never
  change, although deleting a host deletes its locks.
\<close>

theorem assets_keep_invariant:
  assumes "exec asset_call db ls db'" and "asset_inv db" and "run_inv db"
  shows "asset_inv db' \<and> run_inv db' \<and> same_run_tables db db'"
  using inventory.exec_ok [OF assms(1)] inventory.exec_below [OF assms(1)] assms(2,3) by blast

theorem assets_keep_invariant_witness:
  "asset_inv (snd (update_host sample_assets_service (sample_env 0) nobody 100 1 sample_changes sample_inventory))"
proof -
  let ?d = "snd (update_host sample_assets_service (sample_env 0) nobody 100 1 sample_changes sample_inventory)"
  have "exec asset_call sample_inventory [e_now (sample_env 0)] ?d"
    by (rule exec_step [where step = asset_call, OF _ exec_refl], rule asset_call.update_host)
  then show ?thesis using assets_keep_invariant [OF _ sample_inventory_inv sample_inventory_queue] by blast
qed

end
