(* ===== verification/Playbook_Store.thy ===== *)
theory Playbook_Store
  imports Playbook_Repository Asset_Repository Py_Text
begin

text \<open>
  The statements of \<open>repositories/playbooks.py\<close> that list and change playbooks, under the constraints of
  migrations \<open>0050\<close> and \<open>0090\<close>: primary keys, the unique lower-case names of playbooks that are not
  deleted, the length and size checks and the references to users. The patterns of digests and the length of
  the validator version are not checked; the deferred reference to the current revision is a theorem.
\<close>

definition revision_checks :: "playbook_revision \<Rightarrow> bool" where
  "revision_checks v \<longleftrightarrow> 1 \<le> pv_revision v \<and> 1 \<le> pv_size_bytes v \<and> pv_size_bytes v \<le> 10485760 \<and>
     (case pv_format v of
        LEGACY_SINGLE_YAML \<Rightarrow> (case pv_content v of None \<Rightarrow> False | Some c \<Rightarrow> 1 \<le> length c \<and> length c \<le> 1048576) \<and> pv_entrypoint v = None
      | PROJECT \<Rightarrow> pv_content v = None \<and> pv_entrypoint v \<noteq> None)"

definition file_checks :: "playbook_file \<Rightarrow> bool" where
  "file_checks f \<longleftrightarrow> 1 \<le> length (pf_path f) \<and> length (pf_path f) \<le> 512 \<and> 1 \<le> length (pf_content f) \<and>
     length (pf_content f) \<le> 1048576 \<and> pf_size_bytes f = length (pf_content f)"

definition insert_revision :: "playbook_revision \<Rightarrow> unit ops_tx" where
  "insert_revision v db =
     (if \<not> revision_checks v then Inl (CheckViolation ''playbook_revisions'')
      else if (pv_playbook_id v, pv_revision v) \<in> set (map (\<lambda>x. (pv_playbook_id x, pv_revision x)) (playbook_revisions db))
      then Inl (UniqueViolation ''playbook_revisions'')
      else if pv_playbook_id v \<notin> set (map pb_id (playbooks db)) \<or> pv_created_by v \<notin> set (map u_id (users db))
      then Inl (ForeignKeyViolation ''playbook_revisions'')
      else if \<not> list_all file_checks (pv_files v) then Inl (CheckViolation ''playbook_revision_files'')
      else if \<not> distinct (map pf_path (pv_files v)) then Inl (UniqueViolation ''playbook_revision_files'')
      else Inr ((), db\<lparr>playbook_revisions := playbook_revisions db @ [v]\<rparr>))"

definition playbook_checks :: "playbook_row \<Rightarrow> bool" where
  "playbook_checks b \<longleftrightarrow> 1 \<le> length (pb_name b) \<and> length (pb_name b) \<le> 128 \<and> length (pb_description b) \<le> 1024 \<and>
     1 \<le> pb_current_revision b \<and> 1 \<le> pb_version b"

definition name_taken :: "playbook_row \<Rightarrow> playbook_row \<Rightarrow> bool" where
  "name_taken b x \<longleftrightarrow> pb_deleted_at x = None \<and> pb_deleted_at b = None \<and> casefold (pb_name x) = casefold (pb_name b)"

definition insert_playbook :: "playbook_row \<Rightarrow> playbook_row ops_tx" where
  "insert_playbook b db =
     (if \<not> playbook_checks b then Inl (CheckViolation ''playbooks'')
      else if \<exists>x \<in> set (playbooks db). pb_id x = pb_id b \<or> name_taken b x then Inl (UniqueViolation ''playbooks'')
      else if pb_created_by b \<notin> set (map u_id (users db)) \<or> pb_updated_by b \<notin> set (map u_id (users db))
      then Inl (ForeignKeyViolation ''playbooks'')
      else Inr (b, db\<lparr>playbooks := playbooks db @ [b]\<rparr>))"

text \<open>\<open>except UniqueViolation: raise ConflictError(message)\<close>.\<close>

definition on_unique_violation :: "string \<Rightarrow> 'a ops_tx \<Rightarrow> 'a ops_tx" where
  "on_unique_violation message m db = (case m db of Inl (UniqueViolation _) \<Rightarrow> Inl (ConflictError message) | r \<Rightarrow> r)"

definition add_playbook :: "playbook_row \<Rightarrow> playbook_revision \<Rightarrow> (playbook_row \<times> playbook_revision) ops_tx" where
  "add_playbook b v =
     on_unique_violation ''playbook name already exists''
       (tx_bind (insert_playbook b) (\<lambda>row. tx_then (insert_revision v) (tx_return (row, v))))"

definition live_version :: "uuid \<Rightarrow> nat \<Rightarrow> playbook_row \<Rightarrow> bool" where
  "live_version i expected b \<longleftrightarrow> pb_id b = i \<and> pb_version b = expected \<and> pb_deleted_at b = None"

definition changed_playbook :: "playbook_row \<Rightarrow> playbook_row \<Rightarrow> playbook_row" where
  "changed_playbook new b =
     b\<lparr>pb_name := pb_name new, pb_description := pb_description new, pb_enabled := pb_enabled new,
       pb_current_revision := pb_current_revision new, pb_version := pb_version new,
       pb_updated_by := pb_updated_by new, pb_updated_at := pb_updated_at new\<rparr>"

definition update_playbook_row :: "playbook_row \<Rightarrow> nat \<Rightarrow> playbook_row option ops_tx" where
  "update_playbook_row new expected db =
     (case fetch_one (live_version (pb_id new) expected) (playbooks db) of
        None \<Rightarrow> Inr (None, db)
      | Some b \<Rightarrow>
          let row = changed_playbook new b in
          if \<not> playbook_checks row then Inl (CheckViolation ''playbooks'')
          else if \<exists>x \<in> set (playbooks db). pb_id x \<noteq> pb_id row \<and> name_taken row x then Inl (UniqueViolation ''playbooks'')
          else if pb_updated_by row \<notin> set (map u_id (users db)) then Inl (ForeignKeyViolation ''playbooks'')
          else Inr (Some row, db\<lparr>playbooks := update_where (live_version (pb_id new) expected) (changed_playbook new) (playbooks db)\<rparr>))"

definition update_playbook ::
    "playbook_row \<Rightarrow> playbook_revision \<Rightarrow> nat \<Rightarrow> (playbook_row \<times> playbook_revision) option ops_tx" where
  "update_playbook new v expected =
     on_unique_violation ''playbook name or revision conflicts''
       (tx_then (insert_revision v)
         (tx_bind (update_playbook_row new expected) (\<lambda>row. tx_return (map_option (\<lambda>b. (b, v)) row))))"

definition deleted_playbook :: "timestamp \<Rightarrow> uuid \<Rightarrow> playbook_row \<Rightarrow> playbook_row" where
  "deleted_playbook now user b =
     b\<lparr>pb_deleted_at := Some now, pb_enabled := False, pb_version := pb_version b + 1, pb_updated_by := user, pb_updated_at := now\<rparr>"

definition soft_delete :: "uuid \<Rightarrow> nat \<Rightarrow> timestamp \<Rightarrow> uuid \<Rightarrow> playbook_row option ops_tx" where
  "soft_delete i expected now user db =
     (case fetch_one (live_version i expected) (playbooks db) of
        None \<Rightarrow> Inr (None, db)
      | Some b \<Rightarrow>
          if user \<notin> set (map u_id (users db)) then Inl (ForeignKeyViolation ''playbooks'')
          else Inr (Some (deleted_playbook now user b),
                    db\<lparr>playbooks := update_where (live_version i expected) (deleted_playbook now user) (playbooks db)\<rparr>))"

text \<open>The row of the catalogue, \<open>Playbook\<close> of \<open>domain/ops.py\<close>.\<close>

record playbook_entry =
  pe_source :: playbook_source
  pe_playbook_id :: "uuid option"
  pe_path :: "string option"
  pe_name :: string
  pe_description :: string
  pe_enabled :: bool
  pe_editable :: bool
  pe_revision :: "nat option"
  pe_version :: "nat option"
  pe_size :: nat
  pe_modified_at :: timestamp
  pe_sha256 :: string
  pe_format :: revision_format
  pe_entrypoint :: "string option"
  pe_supports_check_mode :: bool

definition database_entry :: "playbook_row \<Rightarrow> playbook_revision \<Rightarrow> playbook_entry" where
  "database_entry b v =
     \<lparr>pe_source = PS_DATABASE, pe_playbook_id = Some (pb_id b), pe_path = None, pe_name = pb_name b,
      pe_description = pb_description b, pe_enabled = pb_enabled b, pe_editable = True,
      pe_revision = Some (pb_current_revision b), pe_version = Some (pb_version b), pe_size = pv_size_bytes v,
      pe_modified_at = pb_updated_at b, pe_sha256 = pv_sha256 v, pe_format = pv_format v,
      pe_entrypoint = pv_entrypoint v, pe_supports_check_mode = pv_supports_check_mode v\<rparr>"

definition list_active :: "db \<Rightarrow> playbook_entry list" where
  "list_active db =
     concat (map (\<lambda>b. map (database_entry b)
         (filter (\<lambda>v. pv_playbook_id v = pb_id b \<and> pv_revision v = pb_current_revision b) (playbook_revisions db)))
       (sort_key (\<lambda>b. (casefold (pb_name b), pb_id b)) (filter (\<lambda>b. pb_deleted_at b = None) (playbooks db))))"

end
