(* ===== verification/Playbook_Service.thy ===== *)
theory Playbook_Service
  imports Playbook_Store Playbook_Parameters Credential_Service
begin

text \<open>
  \<open>services/playbooks.py\<close>: validating, saving, deleting, comparing, restoring, importing and exporting
  playbooks. The YAML parser, \<open>ansible-playbook --syntax-check\<close>, the ZIP reader and \<open>difflib\<close> are fields
  of the service object; so are the calls of the operating system behind the catalogue of mounted files.
  A workspace is the list of the files written to it. Text is ASCII, so a text and its encoding have one length.
\<close>

definition MAX_PLAYBOOK_BYTES :: nat where "MAX_PLAYBOOK_BYTES = 1024 * 1024"
definition MAX_VALIDATION_OUTPUT_BYTES :: nat where "MAX_VALIDATION_OUTPUT_BYTES = 16 * 1024"

record playbook_validation =
  vr_valid :: bool
  vr_output :: string
  vr_normalized_content :: "string option"
  vr_sha256 :: "string option"
  vr_size_bytes :: "nat option"
  vr_validator_version :: "string option"
  vr_normalized_files :: "playbook_file list"
  vr_entrypoint :: "string option"
  vr_parameter_schema :: "jobj option"
  vr_supports_check_mode :: bool

text \<open>What \<open>ansible-playbook\<close> did: it is missing, ran into the timeout, or ended with a code and its output.\<close>

datatype syntax_run = Not_Installed | Timed_Out | Exited int string

text \<open>\<open>yaml.safe_load\<close>: an error, a list, or something else.\<close>

datatype yaml_root = YAML_ERROR | YAML_LIST | YAML_OTHER

text \<open>The file system below the mounted workspace: absolute paths are lists of components.\<close>

record mount_files =
  mf_workspace :: "string list"
  mf_resolve :: "string list \<Rightarrow> string list"
  mf_is_file :: "string list \<Rightarrow> bool"
  mf_read_text :: "string list \<Rightarrow> string option"
  mf_modified_at :: "string list \<Rightarrow> timestamp"
  mf_title :: "string list \<Rightarrow> string"
  mf_yaml_files :: "string list list"

record playbook_service =
  ps_cfg :: settings
  ps_version :: string
  ps_sha256 :: "string \<Rightarrow> string"
  ps_float_repr :: "rat \<Rightarrow> string"
  ps_yaml :: "string \<Rightarrow> yaml_root"
  ps_syntax :: "(string \<times> string) list \<Rightarrow> string \<Rightarrow> syntax_run"
  ps_mount_syntax :: "string list \<Rightarrow> syntax_run"
  ps_codec :: text_codec
  ps_open_zip :: "bytes \<Rightarrow> zip_member list option"
  ps_unified_diff :: "string list \<Rightarrow> string list \<Rightarrow> string \<Rightarrow> string \<Rightarrow> string list"
  ps_mount :: mount_files

section \<open>The validator\<close>

definition normalize_playbook :: "string \<Rightarrow> ops_error + string" where
  "normalize_playbook content =
     (let encoded = normalize_newlines content in
      if encoded = [] then Inl (PlaybookInvalidError ''playbook content must not be empty'')
      else if CHR 0x00 \<in> set encoded then Inl (PlaybookInvalidError ''playbook content must not contain NUL bytes'')
      else if length encoded > MAX_PLAYBOOK_BYTES then Inl (PlaybookInvalidError ''playbook content exceeds the 1 MiB limit'')
      else Inr encoded)"

definition validate_document :: "playbook_service \<Rightarrow> string \<Rightarrow> string option" where
  "validate_document svc content =
     (case ps_yaml svc content of
        YAML_ERROR \<Rightarrow> Some ''playbook YAML is invalid''
      | YAML_LIST \<Rightarrow> None
      | YAML_OTHER \<Rightarrow> Some ''playbook root must be a list of plays'')"

text \<open>\<open>text[-MAX_VALIDATION_OUTPUT_BYTES:]\<close>.\<close>

definition syntax_check :: "syntax_run \<Rightarrow> ops_error + bool \<times> string" where
  "syntax_check run =
     (case run of
        Not_Installed \<Rightarrow> Inl (ValidationError ''ansible-playbook is not installed'')
      | Timed_Out \<Rightarrow> Inr (False, ''syntax check timed out'')
      | Exited code out \<Rightarrow> Inr (code = 0, drop (length out - MAX_VALIDATION_OUTPUT_BYTES) out))"

definition invalid_result :: "string \<Rightarrow> playbook_validation" where
  "invalid_result out = \<lparr>vr_valid = False, vr_output = out, vr_normalized_content = None, vr_sha256 = None, vr_size_bytes = None,
     vr_validator_version = None, vr_normalized_files = [], vr_entrypoint = None, vr_parameter_schema = None,
     vr_supports_check_mode = False\<rparr>"

definition validator_content :: "playbook_service \<Rightarrow> string \<Rightarrow> ops_error + playbook_validation" where
  "validator_content svc content =
     (case normalize_playbook content of
        Inl e \<Rightarrow> Inl e
      | Inr normalized \<Rightarrow>
          (case validate_document svc normalized of
             Some message \<Rightarrow> Inr (invalid_result message)
           | None \<Rightarrow>
               (case syntax_check (ps_syntax svc [(''playbook.yml'', normalized)] ''playbook.yml'') of
                  Inl e \<Rightarrow> Inl e
                | Inr (valid, out) \<Rightarrow>
                    Inr ((invalid_result out)\<lparr>vr_valid := valid, vr_normalized_content := Some normalized,
                      vr_sha256 := Some (ps_sha256 svc normalized), vr_size_bytes := Some (length normalized),
                      vr_validator_version := Some (ps_version svc)\<rparr>))))"

definition validator_project ::
    "playbook_service \<Rightarrow> (string \<times> string) list \<Rightarrow> string \<Rightarrow> jobj option \<Rightarrow> bool \<Rightarrow> ops_error + playbook_validation" where
  "validator_project svc files entrypoint schema check =
     (case normalize_project (ps_sha256 svc) files entrypoint of
        Inl e \<Rightarrow> Inl e
      | Inr project \<Rightarrow>
          (case validate_parameter_schema (ps_float_repr svc) (case schema of None \<Rightarrow> [] | Some s \<Rightarrow> s) of
             Inl e \<Rightarrow> Inl e
           | Inr schema' \<Rightarrow>
               (case find (\<lambda>f. pf_path f = np_entrypoint project) (np_files project) of
                  None \<Rightarrow> Inl (RuntimeErr ''StopIteration'')
                | Some entry \<Rightarrow>
                    (case validate_document svc (pf_content entry) of
                       Some message \<Rightarrow> Inr (invalid_result message)
                     | None \<Rightarrow>
                         (case syntax_check (ps_syntax svc (map (\<lambda>f. (pf_path f, pf_content f)) (np_files project))
                                  (np_entrypoint project)) of
                            Inl e \<Rightarrow> Inl e
                          | Inr (valid, out) \<Rightarrow>
                              Inr ((invalid_result out)\<lparr>vr_valid := valid, vr_sha256 := Some (np_sha256 project),
                                vr_size_bytes := Some (np_size_bytes project), vr_validator_version := Some (ps_version svc),
                                vr_normalized_files := np_files project, vr_entrypoint := Some (np_entrypoint project),
                                vr_parameter_schema := Some schema', vr_supports_check_mode := check\<rparr>))))))"

definition validator_path :: "playbook_service \<Rightarrow> string list \<Rightarrow> ops_error + playbook_validation" where
  "validator_path svc path =
     (case mf_read_text (ps_mount svc) path of
        None \<Rightarrow> Inr (invalid_result ''playbook could not be read'')
      | Some content \<Rightarrow>
          (case validate_document svc content of
             Some message \<Rightarrow> Inr (invalid_result message)
           | None \<Rightarrow>
               (case syntax_check (ps_mount_syntax svc path) of
                  Inl e \<Rightarrow> Inl e
                | Inr (valid, out) \<Rightarrow>
                    Inr ((invalid_result out)\<lparr>vr_valid := valid, vr_validator_version := Some (ps_version svc)\<rparr>))))"

section \<open>The mounted catalogue\<close>

definition is_prefix :: "string list \<Rightarrow> string list \<Rightarrow> bool" where
  "is_prefix xs ys \<longleftrightarrow> take (length xs) ys = xs"

definition catalog_resolve :: "playbook_service \<Rightarrow> string \<Rightarrow> ops_error + string list" where
  "catalog_resolve svc requested_path =
     (let m = ps_mount svc in
      if path_is_absolute requested_path \<or> casefold (path_suffix requested_path) \<notin> set YAML_SUFFIXES
      then Inl (ValidationError ''playbook path must be a relative .yml or .yaml file'')
      else
        let resolved = mf_resolve m (mf_workspace m @ path_parts requested_path) in
        if \<not> is_prefix (mf_resolve m (mf_workspace m @ [''playbooks''])) resolved
        then Inl (ValidationError ''playbook path escapes the read-only playbook directory'')
        else if \<not> mf_is_file m resolved then Inl PlaybookNotFoundError
        else Inr resolved)"

definition describe_mounted :: "playbook_service \<Rightarrow> string list \<Rightarrow> string \<Rightarrow> playbook_entry" where
  "describe_mounted svc path content =
     \<lparr>pe_source = PS_MOUNT, pe_playbook_id = None, pe_path = Some (as_posix (drop (length (mf_workspace (ps_mount svc))) path)),
      pe_name = mf_title (ps_mount svc) path, pe_description = [], pe_enabled = True, pe_editable = False, pe_revision = None,
      pe_version = None, pe_size = length content, pe_modified_at = mf_modified_at (ps_mount svc) path,
      pe_sha256 = ps_sha256 svc content, pe_format = LEGACY_SINGLE_YAML, pe_entrypoint = None, pe_supports_check_mode = False\<rparr>"

definition catalog_get :: "playbook_service \<Rightarrow> string \<Rightarrow> ops_error + playbook_entry" where
  "catalog_get svc requested_path =
     (case catalog_resolve svc requested_path of
        Inl e \<Rightarrow> Inl e
      | Inr path \<Rightarrow>
          (case mf_read_text (ps_mount svc) path of
             None \<Rightarrow> Inl (PlaybookInvalidError ''playbook YAML is invalid'')
           | Some content \<Rightarrow>
               (case ps_yaml svc content of
                  YAML_ERROR \<Rightarrow> Inl (PlaybookInvalidError ''playbook YAML is invalid'')
                | YAML_OTHER \<Rightarrow> Inl (PlaybookInvalidError ''playbook root must be a list of plays'')
                | YAML_LIST \<Rightarrow> Inr (describe_mounted svc path content))))"

definition catalog_syntax_check :: "playbook_service \<Rightarrow> string \<Rightarrow> ops_error + bool \<times> string" where
  "catalog_syntax_check svc requested_path =
     (case catalog_resolve svc requested_path of
        Inl e \<Rightarrow> Inl e
      | Inr path \<Rightarrow> (case validator_path svc path of Inl e \<Rightarrow> Inl e | Inr r \<Rightarrow> Inr (vr_valid r, vr_output r)))"

definition mount_relative :: "playbook_service \<Rightarrow> string list \<Rightarrow> string list" where
  "mount_relative svc path = drop (length (mf_workspace (ps_mount svc))) path"

text \<open>\<open>sorted({*rglob("*.yml"), *rglob("*.yaml")})\<close>; a file that cannot be read or is no list of plays is left out.\<close>

definition catalog_list :: "playbook_service \<Rightarrow> playbook_entry list" where
  "catalog_list svc =
     concat (map (\<lambda>path.
       (case catalog_resolve svc (as_posix (mount_relative svc path)) of
          Inl e \<Rightarrow> []
        | Inr resolved \<Rightarrow>
            (case mf_read_text (ps_mount svc) resolved of
               None \<Rightarrow> []
             | Some content \<Rightarrow>
                 if ps_yaml svc content = YAML_LIST then [describe_mounted svc resolved content] else [])))
       (sort (remdups (mf_yaml_files (ps_mount svc)))))"

section \<open>Reading\<close>

definition require_source :: "playbook_service \<Rightarrow> playbook_source \<Rightarrow> ops_error + unit" where
  "require_source svc source =
     (if (case source of PS_DATABASE \<Rightarrow> database_enabled (set_playbook_source_mode (ps_cfg svc))
                       | PS_MOUNT \<Rightarrow> mount_enabled (set_playbook_source_mode (ps_cfg svc)))
      then Inr () else Inl PlaybookSourceDisabledError)"

definition entry_key :: "playbook_entry \<Rightarrow> string \<times> string \<times> string" where
  "entry_key e = (casefold (pe_name e), (case pe_source e of PS_DATABASE \<Rightarrow> ''DATABASE'' | PS_MOUNT \<Rightarrow> ''MOUNT''),
     (case pe_playbook_id e of Some i \<Rightarrow> uuid_str i | None \<Rightarrow> (case pe_path e of Some p \<Rightarrow> p | None \<Rightarrow> ''None'')))"

definition list_playbooks :: "playbook_service \<Rightarrow> db \<Rightarrow> playbook_entry list" where
  "list_playbooks svc db =
     sort_key entry_key
       ((if database_enabled (set_playbook_source_mode (ps_cfg svc)) then list_active db else []) @
        (if mount_enabled (set_playbook_source_mode (ps_cfg svc)) then catalog_list svc else []))"

definition get_database :: "playbook_service \<Rightarrow> uuid \<Rightarrow> db \<Rightarrow> ops_error + (playbook_row \<times> playbook_revision)" where
  "get_database svc i db =
     (case require_source svc PS_DATABASE of
        Inl e \<Rightarrow> Inl e
      | Inr _ \<Rightarrow> (case get_document i db of None \<Rightarrow> Inl PlaybookNotFoundError | Some d \<Rightarrow> Inr d))"

definition get_mounted :: "playbook_service \<Rightarrow> string \<Rightarrow> ops_error + playbook_entry" where
  "get_mounted svc path = (case require_source svc PS_MOUNT of Inl e \<Rightarrow> Inl e | Inr _ \<Rightarrow> catalog_get svc path)"

definition revisions_of :: "playbook_service \<Rightarrow> uuid \<Rightarrow> db \<Rightarrow> ops_error + playbook_revision list" where
  "revisions_of svc i db =
     (case require_source svc PS_DATABASE of
        Inl e \<Rightarrow> Inl e
      | Inr _ \<Rightarrow> if get_document_any i db = None then Inl PlaybookNotFoundError else Inr (list_revisions i db))"

definition revision_of :: "playbook_service \<Rightarrow> uuid \<Rightarrow> nat \<Rightarrow> db \<Rightarrow> ops_error + playbook_revision" where
  "revision_of svc i n db =
     (case require_source svc PS_DATABASE of
        Inl e \<Rightarrow> Inl e
      | Inr _ \<Rightarrow> (case get_revision i n db of None \<Rightarrow> Inl PlaybookNotFoundError | Some v \<Rightarrow> Inr v))"

text \<open>An \<open>assert\<close> that fails raises \<open>AssertionError\<close>.\<close>

definition as_project :: "playbook_service \<Rightarrow> playbook_revision \<Rightarrow> ops_error + normalized_project" where
  "as_project svc v =
     (case pv_format v of
        PROJECT \<Rightarrow>
          (case pv_entrypoint v of
             None \<Rightarrow> Inl (RuntimeErr ''AssertionError'')
           | Some entrypoint \<Rightarrow> Inr \<lparr>np_files = pv_files v, np_entrypoint = entrypoint, np_sha256 = pv_sha256 v,
                                    np_size_bytes = pv_size_bytes v\<rparr>)
      | LEGACY_SINGLE_YAML \<Rightarrow>
          (case pv_content v of
             None \<Rightarrow> Inl (RuntimeErr ''AssertionError'')
           | Some content \<Rightarrow> normalize_project (ps_sha256 svc) [(''playbook.yml'', content)] ''playbook.yml''))"

section \<open>Saving\<close>

definition validation_audit :: "env \<Rightarrow> bool \<Rightarrow> uuid \<Rightarrow> uuid option \<Rightarrow> db \<Rightarrow> db" where
  "validation_audit env valid user playbook_id =
     audit_append env (if valid then PLAYBOOK_VALIDATION_SUCCEEDED else PLAYBOOK_VALIDATION_FAILED)
       (if valid then AO_SUCCEEDED else AO_FAILED) SRC_API
       (no_details\<lparr>ad_severity := (if valid then SEV_INFO else SEV_WARNING), ad_actor_user_id := Some user,
          ad_resource_type := Some ''playbook'', ad_resource_id := playbook_id,
          ad_error_code := (if valid then None else Some ''playbook_invalid''),
          ad_failure_stage := (if valid then None else Some ''playbook_validation''),
          ad_retryable := (if valid then None else Some False)\<rparr>)"

definition playbook_invalid :: "ops_error \<Rightarrow> bool" where
  "playbook_invalid e = (case e of PlaybookInvalidError _ \<Rightarrow> True | PlaybookProjectInvalidError _ \<Rightarrow> True | _ \<Rightarrow> False)"

text \<open>
  \<open>_validate_for_save\<close> and \<open>_validate_project_for_save\<close> differ in the validator they call and the error
  they raise: the failure is recorded, and what passes is handed on.
\<close>

definition checked_for_save ::
    "env \<Rightarrow> uuid \<Rightarrow> uuid option \<Rightarrow> ops_error \<Rightarrow> (playbook_validation \<Rightarrow> bool) \<Rightarrow> ops_error + playbook_validation \<Rightarrow>
     db \<Rightarrow> (ops_error + playbook_validation) \<times> db" where
  "checked_for_save env user playbook_id failure ok result db =
     (case result of
        Inl e \<Rightarrow> (Inl e, if playbook_invalid e then validation_audit env False user playbook_id db else db)
      | Inr v \<Rightarrow> if ok v then (Inr v, db) else (Inl failure, validation_audit env False user playbook_id db))"

definition validate_for_save ::
    "playbook_service \<Rightarrow> env \<Rightarrow> uuid \<Rightarrow> uuid option \<Rightarrow> string \<Rightarrow> db \<Rightarrow> (ops_error + playbook_validation) \<times> db" where
  "validate_for_save svc env user playbook_id content =
     checked_for_save env user playbook_id (PlaybookInvalidError ''playbook validation failed'')
       (\<lambda>v. vr_valid v \<and> vr_normalized_content v \<noteq> None) (validator_content svc content)"

definition validate_project_for_save ::
    "playbook_service \<Rightarrow> env \<Rightarrow> uuid \<Rightarrow> uuid option \<Rightarrow> (string \<times> string) list \<Rightarrow> string \<Rightarrow> jobj option \<Rightarrow> bool \<Rightarrow>
     db \<Rightarrow> (ops_error + playbook_validation) \<times> db" where
  "validate_project_for_save svc env user playbook_id files entrypoint schema check =
     checked_for_save env user playbook_id (PlaybookProjectInvalidError ''Playbook project validation failed'')
       vr_valid (validator_project svc files entrypoint schema check)"

text \<open>The arguments of a save, and the checks and validation that creating and updating share.\<close>

record playbook_input =
  in_name :: string
  in_description :: string
  in_enabled :: bool
  in_content :: "string option"
  in_files :: "(string \<times> string) list option"
  in_entrypoint :: "string option"
  in_schema :: "jobj option"
  in_check_mode :: bool

definition checked_input ::
    "playbook_service \<Rightarrow> env \<Rightarrow> caller \<Rightarrow> uuid \<Rightarrow> uuid option \<Rightarrow> playbook_input \<Rightarrow> db \<Rightarrow>
     (ops_error + (playbook_validation \<times> revision_format)) \<times> db" where
  "checked_input svc env who user playbook_id inp db =
     (case allowed who PLAYBOOK_WRITE of
        Inl e \<Rightarrow> (Inl e, db)
      | Inr _ \<Rightarrow>
     (case require_source svc PS_DATABASE of
        Inl e \<Rightarrow> (Inl e, db)
      | Inr _ \<Rightarrow>
          if py_strip (in_name inp) = [] then (Inl (PlaybookInvalidError ''playbook name must not be empty''), db)
          else if (in_content inp = None) = (in_files inp = None)
          then (Inl (PlaybookInvalidError ''provide exactly one legacy content or project files''), db)
          else (case in_content inp of
             Some content \<Rightarrow>
               (case validate_for_save svc env user playbook_id content db of
                  (Inl e, db1) \<Rightarrow> (Inl e, db1) | (Inr v, db1) \<Rightarrow> (Inr (v, LEGACY_SINGLE_YAML), db1))
           | None \<Rightarrow>
               (case in_entrypoint inp of
                  None \<Rightarrow> (Inl (PlaybookInvalidError ''project entrypoint is required''), db)
                | Some entrypoint \<Rightarrow>
                    (case validate_project_for_save svc env user playbook_id
                            (case in_files inp of None \<Rightarrow> [] | Some fs \<Rightarrow> fs) entrypoint (in_schema inp) (in_check_mode inp) db of
                       (Inl e, db1) \<Rightarrow> (Inl e, db1) | (Inr v, db1) \<Rightarrow> (Inr (v, PROJECT), db1))))))"

text \<open>\<open>PlaybookService._revision\<close>, with the checks of the model \<open>PlaybookRevision\<close>.\<close>

definition new_revision ::
    "playbook_service \<Rightarrow> uuid \<Rightarrow> nat \<Rightarrow> uuid \<Rightarrow> playbook_validation \<Rightarrow> timestamp \<Rightarrow> revision_format \<Rightarrow> ops_error + playbook_revision" where
  "new_revision svc playbook_id n user v now fmt =
     (case (vr_sha256 v, vr_size_bytes v, vr_validator_version v) of
        (Some sha, Some size_bytes, Some version) \<Rightarrow>
          if fmt = LEGACY_SINGLE_YAML \<and> vr_normalized_content v = None
          then Inl (RuntimeErr ''valid legacy Playbook content is missing'')
          else if fmt = PROJECT \<and> (vr_normalized_files v = [] \<or> vr_entrypoint v = None)
          then Inl (RuntimeErr ''valid Playbook project content is missing'')
          else
            (case (case vr_parameter_schema v of
                     Some (kv # s) \<Rightarrow> Inr (kv # s) | _ \<Rightarrow> validate_parameter_schema (ps_float_repr svc) []) of
               Inl e \<Rightarrow> Inl e
             | Inr s \<Rightarrow>
                 let r = \<lparr>pv_playbook_id = playbook_id, pv_revision = n, pv_content = vr_normalized_content v, pv_sha256 = sha,
                    pv_size_bytes = size_bytes, pv_validator_version = version, pv_validated_at = now, pv_created_by = user,
                    pv_created_at = now, pv_format = fmt, pv_entrypoint = vr_entrypoint v, pv_parameter_schema = s,
                    pv_supports_check_mode = vr_supports_check_mode v, pv_files = vr_normalized_files v\<rparr>
                 in if 1 \<le> n \<and> 1 \<le> size_bytes \<and> size_bytes \<le> 10 * 1024 * 1024 \<and> require_revision_payload r
                    then Inr r else Inl (ValueErr ''PlaybookRevision''))
      | _ \<Rightarrow> Inl (RuntimeErr ''valid Playbook content is missing validation metadata''))"

definition playbook_audit :: "env \<Rightarrow> uuid \<Rightarrow> audit_action \<Rightarrow> uuid \<Rightarrow> unit ops_tx" where
  "playbook_audit env user act i =
     tx_write (audit_append env act AO_SUCCEEDED SRC_API
       (no_details\<lparr>ad_actor_user_id := Some user, ad_resource_type := Some ''playbook'', ad_resource_id := Some i\<rparr>))"

definition create_database ::
    "playbook_service \<Rightarrow> env \<Rightarrow> uuid \<Rightarrow> caller \<Rightarrow> uuid \<Rightarrow> playbook_input \<Rightarrow> db \<Rightarrow>
     (ops_error + (playbook_row \<times> playbook_revision)) \<times> db" where
  "create_database svc env new_id who user inp db =
     (case checked_input svc env who user None inp db of
        (Inl e, db1) \<Rightarrow> (Inl e, db1)
      | (Inr (validation, fmt), db1) \<Rightarrow>
          unit_of_work
            (tx_bind (tx_check (new_revision svc new_id 1 user validation (e_now env) fmt)) (\<lambda>revision.
             tx_bind (add_playbook
               \<lparr>pb_id = new_id, pb_name = py_strip (in_name inp), pb_description = py_strip (in_description inp),
                pb_enabled = in_enabled inp, pb_current_revision = 1, pb_version = 1, pb_created_by = user, pb_updated_by = user,
                pb_deleted_at = None, pb_created_at = e_now env, pb_updated_at = e_now env\<rparr> revision) (\<lambda>document.
             tx_then (playbook_audit env user PLAYBOOK_CREATED new_id) (tx_return document)))) db1)"

definition update_body ::
    "playbook_service \<Rightarrow> env \<Rightarrow> uuid \<Rightarrow> uuid \<Rightarrow> nat \<Rightarrow> playbook_input \<Rightarrow> playbook_validation \<Rightarrow> revision_format \<Rightarrow>
     audit_action \<Rightarrow> (playbook_row \<times> playbook_revision) ops_tx" where
  "update_body svc env i user expected inp validation fmt act =
     tx_bind (tx_read (get_document i)) (\<lambda>found.
       case found of
         None \<Rightarrow> tx_raise PlaybookNotFoundError
       | Some (current, _) \<Rightarrow>
           tx_then (tx_guard (pb_version current = expected) PlaybookVersionConflictError)
          (tx_bind (tx_check (new_revision svc i (pb_current_revision current + 1) user validation (e_now env) fmt)) (\<lambda>revision.
           tx_bind (update_playbook (current\<lparr>pb_name := py_strip (in_name inp), pb_description := py_strip (in_description inp),
               pb_enabled := in_enabled inp, pb_current_revision := pb_current_revision current + 1, pb_version := expected + 1,
               pb_updated_by := user, pb_updated_at := e_now env\<rparr>) revision expected) (\<lambda>updated.
             case updated of
               None \<Rightarrow> tx_raise PlaybookVersionConflictError
             | Some document \<Rightarrow> tx_then (playbook_audit env user act i) (tx_return document)))))"

definition update_database ::
    "playbook_service \<Rightarrow> env \<Rightarrow> caller \<Rightarrow> uuid \<Rightarrow> uuid \<Rightarrow> nat \<Rightarrow> playbook_input \<Rightarrow> audit_action \<Rightarrow> db \<Rightarrow>
     (ops_error + (playbook_row \<times> playbook_revision)) \<times> db" where
  "update_database svc env who user i expected inp act db =
     (case checked_input svc env who user (Some i) inp db of
        (Inl e, db1) \<Rightarrow> (Inl e, db1)
      | (Inr (validation, fmt), db1) \<Rightarrow> unit_of_work (update_body svc env i user expected inp validation fmt act) db1)"

definition delete_database ::
    "playbook_service \<Rightarrow> env \<Rightarrow> caller \<Rightarrow> uuid \<Rightarrow> uuid \<Rightarrow> nat \<Rightarrow> db \<Rightarrow> (ops_error + unit) \<times> db" where
  "delete_database svc env who user i expected =
     unit_of_work
      (tx_then (tx_check (allowed who PLAYBOOK_WRITE))
      (tx_then (tx_check (require_source svc PS_DATABASE))
      (tx_bind (tx_read (get_document i)) (\<lambda>found.
         case found of
           None \<Rightarrow> tx_raise PlaybookNotFoundError
         | Some (current, _) \<Rightarrow>
             tx_then (tx_guard (pb_version current = expected) PlaybookVersionConflictError)
            (tx_bind (soft_delete i expected (e_now env) user) (\<lambda>deleted.
             tx_then (tx_guard (deleted \<noteq> None) PlaybookVersionConflictError)
               (playbook_audit env user PLAYBOOK_DELETED i)))))))"

section \<open>Validating without saving\<close>

definition guarded :: "playbook_service \<Rightarrow> caller \<Rightarrow> ops_error + unit" where
  "guarded svc who = (case allowed who PLAYBOOK_WRITE of Inl e \<Rightarrow> Inl e | Inr _ \<Rightarrow> require_source svc PS_DATABASE)"

definition validate_content ::
    "playbook_service \<Rightarrow> env \<Rightarrow> caller \<Rightarrow> uuid \<Rightarrow> string \<Rightarrow> db \<Rightarrow> (ops_error + playbook_validation) \<times> db" where
  "validate_content svc env who user content db =
     (case guarded svc who of
        Inl e \<Rightarrow> (Inl e, db)
      | Inr _ \<Rightarrow>
          (case validator_content svc content of
             Inl e \<Rightarrow> (Inl e, if playbook_invalid e then validation_audit env False user None db else db)
           | Inr v \<Rightarrow> (Inr v, validation_audit env (vr_valid v) user None db)))"

definition validate_project ::
    "playbook_service \<Rightarrow> env \<Rightarrow> caller \<Rightarrow> uuid \<Rightarrow> (string \<times> string) list \<Rightarrow> string \<Rightarrow> jobj option \<Rightarrow> bool \<Rightarrow> db \<Rightarrow>
     (ops_error + playbook_validation) \<times> db" where
  "validate_project svc env who user files entrypoint schema check db =
     (case guarded svc who of
        Inl e \<Rightarrow> (Inl e, db)
      | Inr _ \<Rightarrow>
          (case validator_project svc files entrypoint schema check of
             Inl e \<Rightarrow> (Inl e, db)
           | Inr v \<Rightarrow> (Inr v, validation_audit env (vr_valid v) user None db)))"

definition reference_validation ::
    "playbook_service \<Rightarrow> playbook_reference \<Rightarrow> db \<Rightarrow> ops_error + playbook_validation" where
  "reference_validation svc ref db =
     (case pr_source ref of
        PS_MOUNT \<Rightarrow>
          (case pr_path ref of
             None \<Rightarrow> Inl PlaybookNotFoundError
           | Some path \<Rightarrow>
               (case catalog_get svc path of
                  Inl e \<Rightarrow> Inl e
                | Inr _ \<Rightarrow>
                    (case catalog_syntax_check svc path of
                       Inl e \<Rightarrow> Inl e
                     | Inr (valid, out) \<Rightarrow> Inr ((invalid_result out)\<lparr>vr_valid := valid\<rparr>))))
      | PS_DATABASE \<Rightarrow>
          (case pr_playbook_id ref of
             None \<Rightarrow> Inl PlaybookNotFoundError
           | Some i \<Rightarrow>
               (case get_database svc i db of
                  Inl e \<Rightarrow> Inl e
                | Inr (_, v) \<Rightarrow>
                    (case pv_format v of
                       PROJECT \<Rightarrow>
                         (case pv_entrypoint v of
                            None \<Rightarrow> Inl (RuntimeErr ''AssertionError'')
                          | Some entrypoint \<Rightarrow>
                              validator_project svc (map (\<lambda>f. (pf_path f, pf_content f)) (pv_files v)) entrypoint
                                (Some (pv_parameter_schema v)) (pv_supports_check_mode v))
                     | LEGACY_SINGLE_YAML \<Rightarrow>
                         (case pv_content v of
                            None \<Rightarrow> Inl (RuntimeErr ''AssertionError'')
                          | Some content \<Rightarrow> validator_content svc content)))))"

definition validate_reference ::
    "playbook_service \<Rightarrow> env \<Rightarrow> uuid \<Rightarrow> playbook_reference \<Rightarrow> db \<Rightarrow> (ops_error + playbook_validation) \<times> db" where
  "validate_reference svc env user ref db =
     (case require_source svc (pr_source ref) of
        Inl e \<Rightarrow> (Inl e, db)
      | Inr _ \<Rightarrow>
          (case reference_validation svc ref db of
             Inl e \<Rightarrow> (Inl e, db)
           | Inr r \<Rightarrow> (Inr r, validation_audit env (vr_valid r) user
               (case pr_source ref of PS_MOUNT \<Rightarrow> None | PS_DATABASE \<Rightarrow> pr_playbook_id ref) db)))"

section \<open>Comparing, restoring, importing and exporting\<close>

record revision_diff =
  rd_added :: "string list"
  rd_deleted :: "string list"
  rd_modified :: "string list"
  rd_diff :: string

definition file_at :: "normalized_project \<Rightarrow> string \<Rightarrow> playbook_file option" where
  "file_at p path = map_of (map (\<lambda>f. (pf_path f, f)) (np_files p)) path"

text \<open>\<open>str.splitlines(keepends=True)\<close> of text without carriage returns: a line ends with its boundary.\<close>

definition line_end :: "char \<Rightarrow> bool" where
  "line_end c \<longleftrightarrow> of_char c \<in> {0x0A, 0x0B, 0x0C, 0x1C, 0x1D, 0x1E :: nat}"

fun keep_lines :: "string \<Rightarrow> string \<Rightarrow> string list" where
  "keep_lines line [] = (if line = [] then [] else [rev line])"
| "keep_lines line (c # s) = (if line_end c then rev (c # line) # keep_lines [] s else keep_lines (c # line) s)"

definition DIFF_TRUNCATED :: string where
  "DIFF_TRUNCATED = [CHR 0x0A] @ ''... diff truncated ...'' @ [CHR 0x0A]"

fun diff_lines ::
    "playbook_service \<Rightarrow> normalized_project \<Rightarrow> normalized_project \<Rightarrow> string list \<Rightarrow> string list \<Rightarrow> string list" where
  "diff_lines svc before after lines [] = lines"
| "diff_lines svc before after lines (path # paths) =
     (let old = (case file_at before path of None \<Rightarrow> [] | Some f \<Rightarrow> keep_lines [] (pf_content f));
          new = (case file_at after path of None \<Rightarrow> [] | Some f \<Rightarrow> keep_lines [] (pf_content f));
          lines' = lines @ ps_unified_diff svc old new (''a/'' @ path) (''b/'' @ path)
      in if length lines' > 2000 then take 2000 lines' @ [DIFF_TRUNCATED] else diff_lines svc before after lines' paths)"

definition diff_projects :: "playbook_service \<Rightarrow> normalized_project \<Rightarrow> normalized_project \<Rightarrow> revision_diff" where
  "diff_projects svc before after =
     (let paths = (\<lambda>p. map pf_path (np_files p));
          added = sort (remdups (filter (\<lambda>q. q \<notin> set (paths before)) (paths after)));
          deleted = sort (remdups (filter (\<lambda>q. q \<notin> set (paths after)) (paths before)));
          modified = sort (remdups (filter (\<lambda>q. q \<in> set (paths after) \<and>
             map_option pf_sha256 (file_at before q) \<noteq> map_option pf_sha256 (file_at after q)) (paths before)));
          body = concat (diff_lines svc before after [] (sort (remdups (added @ deleted @ modified))))
      in \<lparr>rd_added = added, rd_deleted = deleted, rd_modified = modified,
          rd_diff = (if length body > 256 * 1024 then take (256 * 1024) body @ DIFF_TRUNCATED else body)\<rparr>)"

definition diff_revisions :: "playbook_service \<Rightarrow> uuid \<Rightarrow> nat \<Rightarrow> nat \<Rightarrow> db \<Rightarrow> ops_error + revision_diff" where
  "diff_revisions svc i n against db =
     (case revision_of svc i against db of
        Inl e \<Rightarrow> Inl e
      | Inr v0 \<Rightarrow>
     (case as_project svc v0 of
        Inl e \<Rightarrow> Inl e
      | Inr before \<Rightarrow>
     (case revision_of svc i n db of
        Inl e \<Rightarrow> Inl e
      | Inr v1 \<Rightarrow>
     (case as_project svc v1 of Inl e \<Rightarrow> Inl e | Inr after \<Rightarrow> Inr (diff_projects svc before after)))))"

definition restore_revision ::
    "playbook_service \<Rightarrow> env \<Rightarrow> caller \<Rightarrow> uuid \<Rightarrow> uuid \<Rightarrow> nat \<Rightarrow> nat \<Rightarrow> db \<Rightarrow>
     (ops_error + (playbook_row \<times> playbook_revision)) \<times> db" where
  "restore_revision svc env who user i n expected db =
     (case allowed who PLAYBOOK_WRITE of
        Inl e \<Rightarrow> (Inl e, db)
      | Inr _ \<Rightarrow>
     (case revision_of svc i n db of
        Inl e \<Rightarrow> (Inl e, db)
      | Inr source \<Rightarrow>
     (case get_database svc i db of
        Inl e \<Rightarrow> (Inl e, db)
      | Inr (current, _) \<Rightarrow>
     (case as_project svc source of
        Inl e \<Rightarrow> (Inl e, db)
      | Inr project \<Rightarrow>
          update_database svc env \<lparr>ca_actor_user_id = None, ca_session_id = None, ca_actor = None\<rparr> user i expected
            \<lparr>in_name = pb_name current, in_description = pb_description current, in_enabled = pb_enabled current,
             in_content = None, in_files = Some (map (\<lambda>f. (pf_path f, pf_content f)) (np_files project)),
             in_entrypoint = Some (np_entrypoint project), in_schema = Some (pv_parameter_schema source),
             in_check_mode = pv_supports_check_mode source\<rparr> PLAYBOOK_REVISION_RESTORED db))))"

definition draft_audit :: "env \<Rightarrow> audit_action \<Rightarrow> uuid \<Rightarrow> string \<Rightarrow> uuid option \<Rightarrow> db \<Rightarrow> db" where
  "draft_audit env act user resource_type resource_id =
     audit_append env act AO_SUCCEEDED SRC_API
       (no_details\<lparr>ad_actor_user_id := Some user, ad_resource_type := Some resource_type, ad_resource_id := resource_id\<rparr>)"

definition import_zip ::
    "playbook_service \<Rightarrow> env \<Rightarrow> caller \<Rightarrow> uuid \<Rightarrow> bytes \<Rightarrow> string option \<Rightarrow> db \<Rightarrow> (ops_error + normalized_project) \<times> db" where
  "import_zip svc env who user payload entrypoint db =
     (case guarded svc who of
        Inl e \<Rightarrow> (Inl e, db)
      | Inr _ \<Rightarrow>
          (case import_project_zip (ps_sha256 svc) (ps_codec svc) (ps_open_zip svc) payload entrypoint of
             Inl e \<Rightarrow> (Inl e, if playbook_invalid e then validation_audit env False user None db else db)
           | Inr project \<Rightarrow> (Inr project, draft_audit env PLAYBOOK_IMPORTED user ''playbook_draft'' None db)))"

text \<open>The bytes of an archive are its members here, as in \<open>export_project_zip\<close>.\<close>

definition export_zip ::
    "playbook_service \<Rightarrow> env \<Rightarrow> uuid \<Rightarrow> uuid \<Rightarrow> nat \<Rightarrow> db \<Rightarrow> (ops_error + zip_member list) \<times> db" where
  "export_zip svc env user i n db =
     (case revision_of svc i n db of
        Inl e \<Rightarrow> (Inl e, db)
      | Inr v \<Rightarrow>
          (case as_project svc v of
             Inl e \<Rightarrow> (Inl e, db)
           | Inr project \<Rightarrow> (Inr (export_project_zip project), draft_audit env PLAYBOOK_EXPORTED user ''playbook'' (Some i) db)))"

end
