(* ===== verification/Playbook_Properties.thy ===== *)
theory Playbook_Properties
  imports Playbook_Service Executions
begin

text \<open>
  Playbooks and their history: every call of the service is one of four changes of the two tables, under
  which revisions are only ever appended, a playbook's revisions are numbered without gaps up to its
  current one, and names and versions stay unique.
\<close>

section \<open>What a stored revision is\<close>

text \<open>
  The files of a project have normalised paths and line ends, with their own digest and size, no two paths
  equal up to case, and the entry point among them.
\<close>

definition stored_file :: "(string \<Rightarrow> string) \<Rightarrow> playbook_file \<Rightarrow> bool" where
  "stored_file sha f \<longleftrightarrow> (\<exists>raw. normalize_project_path raw = Inr (pf_path f)) \<and> normalize_newlines (pf_content f) = pf_content f \<and>
     pf_sha256 f = sha (pf_content f) \<and> pf_size_bytes f = length (pf_content f)"

definition stored_revision :: "(string \<Rightarrow> string) \<Rightarrow> playbook_revision \<Rightarrow> bool" where
  "stored_revision sha v \<longleftrightarrow> require_revision_payload v \<and> pv_parameter_schema v \<noteq> [] \<and>
     (pv_format v = PROJECT \<longrightarrow> (\<forall>f \<in> set (pv_files v). stored_file sha f) \<and>
        distinct (map (\<lambda>f. casefold (pf_path f)) (pv_files v)) \<and>
        (\<exists>f \<in> set (pv_files v). pv_entrypoint v = Some (pf_path f)))"

lemma file_of_stored: "file_of sha item f \<Longrightarrow> stored_file sha f"
  by (auto simp: file_of_def stored_file_def)

lemma normalized_stored:
  assumes "normalize_project sha files entrypoint = Inr p"
  shows "\<forall>f \<in> set (np_files p). stored_file sha f" and "distinct (map (\<lambda>f. casefold (pf_path f)) (np_files p))"
    and "\<exists>f \<in> set (np_files p). np_entrypoint p = pf_path f" and "np_files p \<noteq> []"
proof -
  obtain ne where D: "list_all2 (file_of sha) (sort_key (\<lambda>item. casefold (fst item)) files) (np_files p)"
    "distinct (map (\<lambda>f. casefold (pf_path f)) (np_files p))"
    "filter (\<lambda>q. casefold q = casefold ne) (map pf_path (np_files p)) = [np_entrypoint p]"
    using normalize_project_InrD [OF assms] by metis
  show "\<forall>f \<in> set (np_files p). stored_file sha f"
    using D(1) by (induction rule: list_all2_induct) (auto intro: file_of_stored)
  show "distinct (map (\<lambda>f. casefold (pf_path f)) (np_files p))" by (rule D(2))
  have "np_entrypoint p \<in> set (filter (\<lambda>q. casefold q = casefold ne) (map pf_path (np_files p)))" unfolding D(3) by simp
  then show "\<exists>f \<in> set (np_files p). np_entrypoint p = pf_path f" "np_files p \<noteq> []" by auto
qed

lemma insert_key_not_Nil: "insert_key kv d \<noteq> []"
  by (cases d) auto

lemma schema_not_empty: "validate_parameter_schema fr s = Inr d \<Longrightarrow> d \<noteq> []"
proof -
  have "canonical (JObj (if s = [] then default_schema else s)) \<noteq> JObj []" for s
    by (cases s) (auto simp: default_schema_def sort_keys_def insert_key_not_Nil)
  then show "validate_parameter_schema fr s = Inr d \<Longrightarrow> d \<noteq> []"
    by (auto simp: validate_parameter_schema_def Let_def default_schema_def split: sum.splits if_splits json.splits)
qed

lemma new_revision_simps:
  assumes "new_revision svc i n user v now fmt = Inr r"
  shows "pv_playbook_id r = i" "pv_revision r = n" "pv_format r = fmt" "pv_content r = vr_normalized_content v"
    "pv_files r = vr_normalized_files v" "pv_entrypoint r = vr_entrypoint v" "require_revision_payload r"
    "vr_sha256 v = Some (pv_sha256 r)" "vr_size_bytes v = Some (pv_size_bytes r)" "pv_parameter_schema r \<noteq> []"
    "vr_parameter_schema v = Some d \<Longrightarrow> d \<noteq> [] \<Longrightarrow> pv_parameter_schema r = d"
    "pv_supports_check_mode r = vr_supports_check_mode v"
  using assms
  by (auto simp: new_revision_def Let_def dest: schema_not_empty split: option.splits if_splits sum.splits list.splits)

lemma validator_project_files:
  assumes "validator_project svc files entrypoint schema check = Inr v" and "vr_sha256 v \<noteq> None"
  obtains p where "normalize_project (ps_sha256 svc) files entrypoint = Inr p" "vr_normalized_files v = np_files p"
    "vr_entrypoint v = Some (np_entrypoint p)" "vr_normalized_content v = None" "vr_supports_check_mode v = check"
    "vr_sha256 v = Some (np_sha256 p)"
    "\<exists>d. validate_parameter_schema (ps_float_repr svc) (case schema of None \<Rightarrow> [] | Some s \<Rightarrow> s) = Inr d \<and> vr_parameter_schema v = Some d"
  using assms by (auto simp: validator_project_def invalid_result_def split: sum.splits option.splits)

text \<open>A checked input that becomes a revision becomes a stored one.\<close>

lemma checked_input_cases:
  assumes "checked_input svc env who user pid inp db = (r, db')"
  obtains (failed) e evs where "r = Inl e" "db' = db\<lparr>audit_events := audit_events db @ evs\<rparr>"
  | (content) v c where "r = Inr (v, LEGACY_SINGLE_YAML)" "db' = db" "in_content inp = Some c" "validator_content svc c = Inr v"
  | (project) v fs ep where "r = Inr (v, PROJECT)" "db' = db" "in_content inp = None" "in_files inp = Some fs" "in_entrypoint inp = Some ep"
      "validator_project svc fs ep (in_schema inp) (in_check_mode inp) = Inr v"
proof -
  have failed: "\<exists>evs. d = db\<lparr>audit_events := audit_events db @ evs\<rparr>"
    if "d = db \<or> d = validation_audit env False user pid db" for d
    using that by (auto simp: validation_audit_def audit_append_def intro: exI [of _ "[]"])
  consider "\<exists>e. r = Inl e \<and> (db' = db \<or> db' = validation_audit env False user pid db)"
    | "\<exists>v c. r = Inr (v, LEGACY_SINGLE_YAML) \<and> db' = db \<and> in_content inp = Some c \<and> validator_content svc c = Inr v"
    | "\<exists>v fs ep. r = Inr (v, PROJECT) \<and> db' = db \<and> in_content inp = None \<and> in_files inp = Some fs \<and> in_entrypoint inp = Some ep \<and>
        validator_project svc fs ep (in_schema inp) (in_check_mode inp) = Inr v"
    using assms
    by (auto simp: checked_input_def validate_for_save_def validate_project_for_save_def checked_for_save_def
        split: sum.splits if_splits option.splits prod.splits)
  then show thesis
  proof cases
    case 1
    then show ?thesis using failed that(1) by blast
  qed (use that in blast)+
qed

lemma checked_revision_stored:
  assumes "checked_input svc env who user pid inp db = (Inr (v, fmt), db')" and "new_revision svc i n user' v now fmt = Inr r"
  shows "stored_revision (ps_sha256 svc) r"
  using assms(1)
proof (cases rule: checked_input_cases)
  case (content v' c)
  then show ?thesis using new_revision_simps [OF assms(2)] by (simp add: stored_revision_def)
next
  case (project v' fs ep)
  then have v: "v' = v" "fmt = PROJECT" by simp_all
  obtain p where "normalize_project (ps_sha256 svc) fs ep = Inr p" "vr_normalized_files v = np_files p" "vr_entrypoint v = Some (np_entrypoint p)"
    using validator_project_files [OF project(6)] new_revision_simps(8) [OF assms(2)] v(1) by (metis option.distinct(1))
  then show ?thesis using new_revision_simps [OF assms(2)] normalized_stored by (auto simp: stored_revision_def v(2))
qed simp

section \<open>The changes of the two tables\<close>

inductive playbook_change :: "(string \<Rightarrow> string) \<Rightarrow> db \<Rightarrow> db \<Rightarrow> bool" for sha where
  unchanged: "playbooks db' = playbooks db \<Longrightarrow> playbook_revisions db' = playbook_revisions db \<Longrightarrow> playbook_change sha db db'"
| created: "\<lbrakk>\<And>x. x \<in> set (playbooks db) \<Longrightarrow> pb_id x \<noteq> pb_id b \<and> \<not> name_taken b x; pb_deleted_at b = None;
    pb_current_revision b = 1; pb_version b = 1; pv_playbook_id v = pb_id b; pv_revision v = 1; stored_revision sha v;
    playbooks db' = playbooks db @ [b]; playbook_revisions db' = playbook_revisions db @ [v]\<rbrakk> \<Longrightarrow> playbook_change sha db db'"
| saved: "\<lbrakk>b \<in> set (playbooks db); pb_deleted_at b = None; pb_id new = pb_id b; pb_deleted_at new = None;
    pb_current_revision new = pb_current_revision b + 1; pb_version new = pb_version b + 1;
    \<And>x. x \<in> set (playbooks db) \<Longrightarrow> pb_id x \<noteq> pb_id new \<Longrightarrow> \<not> name_taken new x;
    pv_playbook_id v = pb_id b; pv_revision v = pb_current_revision b + 1; stored_revision sha v;
    playbooks db' = update_where (live_version (pb_id b) (pb_version b)) (changed_playbook new) (playbooks db);
    playbook_revisions db' = playbook_revisions db @ [v]\<rbrakk> \<Longrightarrow> playbook_change sha db db'"
| removed: "\<lbrakk>b \<in> set (playbooks db); pb_deleted_at b = None;
    playbooks db' = update_where (live_version (pb_id b) (pb_version b)) (deleted_playbook now user) (playbooks db);
    playbook_revisions db' = playbook_revisions db\<rbrakk> \<Longrightarrow> playbook_change sha db db'"

definition playbook_inv :: "(string \<Rightarrow> string) \<Rightarrow> db \<Rightarrow> bool" where
  "playbook_inv sha db \<longleftrightarrow> distinct (map pb_id (playbooks db)) \<and>
     distinct (map (\<lambda>v. (pv_playbook_id v, pv_revision v)) (playbook_revisions db)) \<and>
     (\<forall>b \<in> set (playbooks db). \<forall>n. (\<exists>v \<in> set (playbook_revisions db). pv_playbook_id v = pb_id b \<and> pv_revision v = n) \<longleftrightarrow>
        1 \<le> n \<and> n \<le> pb_current_revision b) \<and>
     (\<forall>b \<in> set (playbooks db). pb_version b = pb_current_revision b + (if pb_deleted_at b = None then 0 else 1)) \<and>
     (\<forall>b \<in> set (playbooks db). \<forall>x \<in> set (playbooks db). pb_id x \<noteq> pb_id b \<longrightarrow> \<not> name_taken b x) \<and>
     (\<forall>v \<in> set (playbook_revisions db). pv_playbook_id v \<in> pb_id ` set (playbooks db) \<and> stored_revision sha v)"

lemmas change_defs = changed_playbook_def deleted_playbook_def live_version_def

lemma live_row:
  assumes "distinct (map pb_id rows)" and "b \<in> set rows" and "pb_deleted_at b = None" and "x \<in> set rows"
  shows "live_version (pb_id b) (pb_version b) x \<longleftrightarrow> x = b"
  using row_by_key [OF assms(1,2,4)] assms(3) by (auto simp: live_version_def)

text \<open>Replacing one row by its key.\<close>

lemma set_update_live:
  assumes "distinct (map pb_id rows)" and "b \<in> set rows" and "pb_deleted_at b = None"
  shows "set (update_where (live_version (pb_id b) (pb_version b)) f rows) = insert (f b) (set rows - {b})"
  using live_row [OF assms] assms(2) by (auto simp: set_update_where image_iff split: if_splits)

lemma name_taken_sym: "name_taken b x \<longleftrightarrow> name_taken x b"
  by (auto simp: name_taken_def)

lemma name_taken_deleted [simp]: "pb_deleted_at b = Some t \<Longrightarrow> \<not> name_taken b x" "pb_deleted_at x = Some t \<Longrightarrow> \<not> name_taken b x"
  by (simp_all add: name_taken_def)

lemma change_revisions:
  assumes "playbook_change sha db db'"
  shows "\<exists>new. playbook_revisions db' = playbook_revisions db @ new"
  using assms by cases auto

text \<open>The parts of the invariant, as an introduction and as destruction rules.\<close>

lemma playbook_invD:
  assumes "playbook_inv sha db"
  shows "distinct (map pb_id (playbooks db))" "distinct (map (\<lambda>v. (pv_playbook_id v, pv_revision v)) (playbook_revisions db))"
    "b \<in> set (playbooks db) \<Longrightarrow> (\<exists>v \<in> set (playbook_revisions db). pv_playbook_id v = pb_id b \<and> pv_revision v = n) \<longleftrightarrow> 1 \<le> n \<and> n \<le> pb_current_revision b"
    "b \<in> set (playbooks db) \<Longrightarrow> pb_version b = pb_current_revision b + (if pb_deleted_at b = None then 0 else 1)"
    "b \<in> set (playbooks db) \<Longrightarrow> x \<in> set (playbooks db) \<Longrightarrow> pb_id x \<noteq> pb_id b \<Longrightarrow> \<not> name_taken b x"
    "v \<in> set (playbook_revisions db) \<Longrightarrow> pv_playbook_id v \<in> pb_id ` set (playbooks db) \<and> stored_revision sha v"
  using assms unfolding playbook_inv_def by blast+

lemma playbook_invI:
  assumes "distinct (map pb_id (playbooks db))" "distinct (map (\<lambda>v. (pv_playbook_id v, pv_revision v)) (playbook_revisions db))"
    "\<And>b n. b \<in> set (playbooks db) \<Longrightarrow> (\<exists>v \<in> set (playbook_revisions db). pv_playbook_id v = pb_id b \<and> pv_revision v = n) \<longleftrightarrow> 1 \<le> n \<and> n \<le> pb_current_revision b"
    "\<And>b. b \<in> set (playbooks db) \<Longrightarrow> pb_version b = pb_current_revision b + (if pb_deleted_at b = None then 0 else 1)"
    "\<And>b x. b \<in> set (playbooks db) \<Longrightarrow> x \<in> set (playbooks db) \<Longrightarrow> pb_id x \<noteq> pb_id b \<Longrightarrow> \<not> name_taken b x"
    "\<And>v. v \<in> set (playbook_revisions db) \<Longrightarrow> pv_playbook_id v \<in> pb_id ` set (playbooks db) \<and> stored_revision sha v"
  shows "playbook_inv sha db"
  using assms unfolding playbook_inv_def by blast

lemma created_inv:
  assumes I: "playbook_inv sha db" and fresh: "\<And>x. x \<in> set (playbooks db) \<Longrightarrow> pb_id x \<noteq> pb_id b \<and> \<not> name_taken b x"
    and b: "pb_deleted_at b = None" "pb_current_revision b = 1" "pb_version b = 1"
    and v: "pv_playbook_id v = pb_id b" "pv_revision v = 1" "stored_revision sha v"
    and db': "playbooks db' = playbooks db @ [b]" "playbook_revisions db' = playbook_revisions db @ [v]"
  shows "playbook_inv sha db'"
proof (rule playbook_invI)
  have none: "\<forall>w \<in> set (playbook_revisions db). pv_playbook_id w \<noteq> pb_id b"
    using playbook_invD(6) [OF I] fresh by (metis imageE)
  have "pb_id b \<notin> pb_id ` set (playbooks db)" using fresh by (metis imageE)
  then show "distinct (map pb_id (playbooks db'))" using playbook_invD(1) [OF I] by (simp add: db')
  show "distinct (map (\<lambda>v. (pv_playbook_id v, pv_revision v)) (playbook_revisions db'))"
    using playbook_invD(2) [OF I] none v by (auto simp: db')
  show "(\<exists>w \<in> set (playbook_revisions db'). pv_playbook_id w = pb_id c \<and> pv_revision w = n) \<longleftrightarrow> 1 \<le> n \<and> n \<le> pb_current_revision c"
    if c: "c \<in> set (playbooks db')" for c n
  proof (cases "c = b")
    case True
    then show ?thesis using none b v by (auto simp: db')
  next
    case False
    then have old: "c \<in> set (playbooks db)" using c by (simp add: db')
    show ?thesis using playbook_invD(3) [OF I old, of n] fresh [OF old] v by (auto simp: db')
  qed
  show "pb_version c = pb_current_revision c + (if pb_deleted_at c = None then 0 else 1)" if "c \<in> set (playbooks db')" for c
    using that playbook_invD(4) [OF I] b by (auto simp: db')
  show "\<not> name_taken c x" if "c \<in> set (playbooks db')" "x \<in> set (playbooks db')" "pb_id x \<noteq> pb_id c" for c x
  proof -
    have "c = b \<or> c \<in> set (playbooks db)" "x = b \<or> x \<in> set (playbooks db)" using that(1,2) by (auto simp: db')
    then show ?thesis using fresh playbook_invD(5) [OF I] that(3) name_taken_sym by metis
  qed
  show "pv_playbook_id w \<in> pb_id ` set (playbooks db') \<and> stored_revision sha w" if "w \<in> set (playbook_revisions db')" for w
    using that playbook_invD(6) [OF I] v by (auto simp: db')
qed

text \<open>Replacing a live row by one with its key keeps what is said of rows and revisions elsewhere.\<close>

lemma replaced_inv:
  assumes I: "playbook_inv sha db" and b: "b \<in> set (playbooks db)" "pb_deleted_at b = None"
    and new: "\<And>x. pb_id (f x) = pb_id x" "pb_version (f b) = pb_current_revision (f b) + (if pb_deleted_at (f b) = None then 0 else 1)"
      "\<And>x. x \<in> set (playbooks db) \<Longrightarrow> pb_id x \<noteq> pb_id b \<Longrightarrow> \<not> name_taken (f b) x"
    and vs: "pb_current_revision (f b) = pb_current_revision b + length vs" "length vs \<le> 1"
      "\<And>v. v \<in> set vs \<Longrightarrow> pv_playbook_id v = pb_id b \<and> pv_revision v = pb_current_revision b + 1 \<and> stored_revision sha v"
    and db': "playbooks db' = update_where (live_version (pb_id b) (pb_version b)) f (playbooks db)"
      "playbook_revisions db' = playbook_revisions db @ vs"
  shows "playbook_inv sha db'"
proof (rule playbook_invI)
  have rows: "set (playbooks db') = insert (f b) (set (playbooks db) - {b})"
    using set_update_live [OF playbook_invD(1) [OF I] b] by (simp add: db')
  have other: "pb_id x \<noteq> pb_id b" if "x \<in> set (playbooks db) - {b}" for x
    using row_by_key [OF playbook_invD(1) [OF I], of x b] that b by auto
  have ids: "map pb_id (playbooks db') = map pb_id (playbooks db)" using new(1) by (simp add: db' map_key_update_where)
  show "distinct (map pb_id (playbooks db'))" using playbook_invD(1) [OF I] ids by simp
  have last: "pv_revision w \<le> pb_current_revision b" if "w \<in> set (playbook_revisions db)" "pv_playbook_id w = pb_id b" for w
    using playbook_invD(3) [OF I b(1), of "pv_revision w"] that by blast
  have fresh: "(pb_id b, pb_current_revision b + 1) \<notin> set (map (\<lambda>v. (pv_playbook_id v, pv_revision v)) (playbook_revisions db))"
    using last by force
  have "vs = [] \<or> (\<exists>v. vs = [v])" using vs(2) by (cases vs) auto
  then have "map (\<lambda>v. (pv_playbook_id v, pv_revision v)) vs \<in> {[], [(pb_id b, pb_current_revision b + 1)]}" using vs(3) by auto
  then show "distinct (map (\<lambda>v. (pv_playbook_id v, pv_revision v)) (playbook_revisions db'))"
    using playbook_invD(2) [OF I] fresh unfolding db'(2) map_append by (elim insertE emptyE) (simp_all only: distinct_append, simp_all)
  have "(\<exists>v \<in> set vs. pv_playbook_id v = pb_id c \<and> pv_revision v = n) \<longleftrightarrow> pb_id c = pb_id b \<and> vs \<noteq> [] \<and> n = pb_current_revision b + 1" for c n
    using vs(3) \<open>vs = [] \<or> (\<exists>v. vs = [v])\<close> by auto
  note added = this
  show "(\<exists>w \<in> set (playbook_revisions db'). pv_playbook_id w = pb_id c \<and> pv_revision w = n) \<longleftrightarrow> 1 \<le> n \<and> n \<le> pb_current_revision c"
    if c: "c \<in> set (playbooks db')" for c n
  proof (cases "c = f b")
    case True
    have "length vs = (if vs = [] then 0 else 1)" using vs(2) by (cases vs) auto
    then show ?thesis using playbook_invD(3) [OF I b(1), of n] added [of b n] vs(1) new(1) True by (auto simp: db' bex_Un)
  next
    case False
    then have c: "c \<in> set (playbooks db) - {b}" using c rows by blast
    then show ?thesis using playbook_invD(3) [OF I, of c n] added [of c n] other [OF c] by (auto simp: db' bex_Un)
  qed
  show "pb_version c = pb_current_revision c + (if pb_deleted_at c = None then 0 else 1)" if "c \<in> set (playbooks db')" for c
    using that playbook_invD(4) [OF I, of c] new(2) unfolding rows by blast
  show "\<not> name_taken c x" if "c \<in> set (playbooks db')" "x \<in> set (playbooks db')" "pb_id x \<noteq> pb_id c" for c x
    using that new(1) [of b] new(3) other playbook_invD(5) [OF I] name_taken_sym unfolding rows by (metis Diff_iff insert_iff)
  show "pv_playbook_id w \<in> pb_id ` set (playbooks db') \<and> stored_revision sha w" if "w \<in> set (playbook_revisions db')" for w
  proof -
    have "pb_id ` set (playbooks db') = pb_id ` set (playbooks db)" using ids by (metis list.set_map)
    then show ?thesis using that playbook_invD(6) [OF I] vs(3) b(1) by (auto simp: db')
  qed
qed

lemma change_inv:
  assumes "playbook_change sha db db'" and I: "playbook_inv sha db"
  shows "playbook_inv sha db'"
  using assms(1)
proof cases
  case unchanged
  then show ?thesis using I by (simp add: playbook_inv_def)
next
  case (created b v)
  then show ?thesis by (intro created_inv [OF I]) auto
next
  case (saved b new v)
  have "pb_version b = pb_current_revision b" using playbook_invD(4) [OF I saved(1)] saved(2) by simp
  moreover have "\<not> name_taken (changed_playbook new b) x" if "x \<in> set (playbooks db)" "pb_id x \<noteq> pb_id b" for x
    using saved(2,3,4,7) that by (simp add: name_taken_def changed_playbook_def)
  ultimately show ?thesis using saved
    by (intro replaced_inv [OF I saved(1,2) _ _ _ _ _ _ saved(11), of "[v]"]) (simp_all add: changed_playbook_def)
next
  case (removed b now user)
  have "pb_version b = pb_current_revision b" using playbook_invD(4) [OF I removed(1)] removed(2) by simp
  then show ?thesis using removed
    by (intro replaced_inv [OF I removed(1,2) _ _ _ _ _ _ removed(3), of "[]"]) (simp_all add: deleted_playbook_def name_taken_def)
qed

section \<open>The calls of the service\<close>

text \<open>An audit event changes neither table.\<close>

lemma unchanged_events: "playbook_change sha db (db\<lparr>audit_events := evs\<rparr>)"
  by (rule playbook_change.unchanged) simp_all

lemma add_playbook_InrD:
  assumes "add_playbook b v db = Inr (doc, db')"
  shows "(\<forall>x \<in> set (playbooks db). pb_id x \<noteq> pb_id b \<and> \<not> name_taken b x) \<and> doc = (b, v) \<and>
    db' = db\<lparr>playbooks := playbooks db @ [b], playbook_revisions := playbook_revisions db @ [v]\<rparr>"
  using assms by (auto simp: add_playbook_def on_unique_violation_def insert_playbook_def insert_revision_def tx_bind_def tx_then_def
      split: sum.splits if_splits ops_error.splits)

lemma on_unique_violation_Inr [simp]: "on_unique_violation message m db = Inr r \<longleftrightarrow> m db = Inr r"
  by (auto simp: on_unique_violation_def split: sum.splits ops_error.splits)

lemma insert_revision_InrD: "insert_revision v db = Inr (r, db') \<Longrightarrow> db' = db\<lparr>playbook_revisions := playbook_revisions db @ [v]\<rparr>"
  by (auto simp: insert_revision_def split: if_splits)

lemma update_row_InrD:
  assumes "update_playbook_row new expected db = Inr (Some row, db')"
  shows "\<exists>b. fetch_one (live_version (pb_id new) expected) (playbooks db) = Some b \<and> row = changed_playbook new b \<and>
    (\<forall>x \<in> set (playbooks db). pb_id x \<noteq> pb_id b \<longrightarrow> \<not> name_taken (changed_playbook new b) x) \<and>
    db' = db\<lparr>playbooks := update_where (live_version (pb_id new) expected) (changed_playbook new) (playbooks db)\<rparr>"
proof -
  obtain b where b: "fetch_one (live_version (pb_id new) expected) (playbooks db) = Some b"
    using assms by (auto simp: update_playbook_row_def split: option.splits)
  have "pb_id (changed_playbook new b) = pb_id b" by (simp add: changed_playbook_def)
  then show ?thesis using assms b by (auto simp: update_playbook_row_def Let_def split: if_splits)
qed

lemma update_playbook_InrD:
  assumes "update_playbook new v expected db = Inr (Some doc, db')"
  obtains b where "b \<in> set (playbooks db)" "live_version (pb_id new) expected b" "doc = (changed_playbook new b, v)"
    "\<And>x. x \<in> set (playbooks db) \<Longrightarrow> pb_id x \<noteq> pb_id b \<Longrightarrow> \<not> name_taken (changed_playbook new b) x"
    "db' = db\<lparr>playbook_revisions := playbook_revisions db @ [v],
       playbooks := update_where (live_version (pb_id new) expected) (changed_playbook new) (playbooks db)\<rparr>"
proof -
  obtain row db1 where steps: "insert_revision v db = Inr ((), db1)" "update_playbook_row new expected db1 = Inr (Some row, db')" "doc = (row, v)"
    using assms by (auto simp: update_playbook_def tx_Inr_iff)
  from update_row_InrD [OF steps(2)] insert_revision_InrD [OF steps(1)] show thesis
    using steps(3) fetch_one_SomeD that by fastforce
qed

lemma soft_delete_InrD:
  assumes "soft_delete i expected now user db = Inr (Some b', db')"
  obtains b where "b \<in> set (playbooks db)" "live_version i expected b" "b' = deleted_playbook now user b"
    "db' = db\<lparr>playbooks := update_where (live_version i expected) (deleted_playbook now user) (playbooks db)\<rparr>"
  using assms by (auto simp: soft_delete_def split: option.splits if_splits dest: fetch_one_SomeD)

lemma get_document_live:
  "get_document i db = Some (b, v) \<Longrightarrow> b \<in> set (playbooks db) \<and> pb_id b = i \<and> pb_deleted_at b = None \<and> get_revision i (pb_current_revision b) db = Some v"
  unfolding get_document_def by (drule document_where_Some) simp

text \<open>What a successful update did, in the terms of the two tables.\<close>

lemma update_body_InrD:
  assumes "update_body svc env i user expected inp validation fmt act db = Inr (doc, db')"
  obtains b v revision evs where "get_document i db = Some (b, v)" "pb_version b = expected" "pb_deleted_at b = None" "pb_id b = i"
    "b \<in> set (playbooks db)" "new_revision svc i (pb_current_revision b + 1) user validation (e_now env) fmt = Inr revision"
    "snd doc = revision" "pb_id (fst doc) = i" "pb_deleted_at (fst doc) = None" "pb_version (fst doc) = expected + 1"
    "pb_current_revision (fst doc) = pb_current_revision b + 1" "pb_name (fst doc) = py_strip (in_name inp)"
    "pb_description (fst doc) = py_strip (in_description inp)" "pb_enabled (fst doc) = in_enabled inp"
    "\<And>x. x \<in> set (playbooks db) \<Longrightarrow> pb_id x \<noteq> i \<Longrightarrow> \<not> name_taken (fst doc) x"
    "\<exists>c \<in> set (playbooks db). live_version i expected c \<and> changed_playbook (fst doc) c = fst doc"
    "db' = db\<lparr>playbook_revisions := playbook_revisions db @ [revision],
       playbooks := update_where (live_version i expected) (changed_playbook (fst doc)) (playbooks db), audit_events := audit_events db @ evs\<rparr>"
proof -
  obtain b v revision db1 where
    doc: "get_document i db = Some (b, v)" "pb_version b = expected"
      "new_revision svc i (pb_current_revision b + 1) user validation (e_now env) fmt = Inr revision"
      "update_playbook (b\<lparr>pb_name := py_strip (in_name inp), pb_description := py_strip (in_description inp),
               pb_enabled := in_enabled inp, pb_current_revision := pb_current_revision b + 1, pb_version := expected + 1,
               pb_updated_by := user, pb_updated_at := e_now env\<rparr>) revision expected db = Inr (Some doc, db1)"
      "playbook_audit env user act i db1 = Inr ((), db')"
    using assms by (auto simp: update_body_def tx_Inr_iff split: option.splits)
  note live = get_document_live [OF doc(1)]
  let ?new = "b\<lparr>pb_name := py_strip (in_name inp), pb_description := py_strip (in_description inp),
               pb_enabled := in_enabled inp, pb_current_revision := pb_current_revision b + 1, pb_version := expected + 1,
               pb_updated_by := user, pb_updated_at := e_now env\<rparr>"
  have new: "pb_id ?new = i" using live by simp
  from update_playbook_InrD [OF doc(4), unfolded new] obtain c where
    c: "c \<in> set (playbooks db)" "live_version i expected c" "doc = (changed_playbook ?new c, revision)"
      "\<And>x. x \<in> set (playbooks db) \<Longrightarrow> pb_id x \<noteq> pb_id c \<Longrightarrow> \<not> name_taken (changed_playbook ?new c) x"
      "db1 = db\<lparr>playbook_revisions := playbook_revisions db @ [revision],
         playbooks := update_where (live_version i expected) (changed_playbook ?new) (playbooks db)\<rparr>"
    by blast
  have same: "changed_playbook (fst doc) = changed_playbook ?new"
    using c(3) by (auto simp: changed_playbook_def fun_eq_iff)
  obtain evs where "db' = db1\<lparr>audit_events := audit_events db1 @ evs\<rparr>"
    using doc(5) by (auto simp: playbook_audit_def audit_append_def)
  then have db': "db' = db\<lparr>playbook_revisions := playbook_revisions db @ [revision],
       playbooks := update_where (live_version i expected) (changed_playbook (fst doc)) (playbooks db), audit_events := audit_events db @ evs\<rparr>"
    unfolding same c(5) by simp
  have row: "pb_id (fst doc) = i" "pb_deleted_at (fst doc) = None" "pb_version (fst doc) = expected + 1"
    "pb_current_revision (fst doc) = pb_current_revision b + 1" "pb_name (fst doc) = py_strip (in_name inp)"
    "pb_description (fst doc) = py_strip (in_description inp)" "pb_enabled (fst doc) = in_enabled inp"
    using c(2,3) by (simp_all add: changed_playbook_def live_version_def)
  have taken: "\<not> name_taken (fst doc) x" if "x \<in> set (playbooks db)" "pb_id x \<noteq> i" for x
    using c(2,3,4) that by (simp add: live_version_def)
  have "\<exists>c \<in> set (playbooks db). live_version i expected c \<and> changed_playbook (fst doc) c = fst doc"
    using c(1-3) same by auto
  then show thesis by (intro that [OF doc(1,2) _ _ _ doc(3) _ row taken _ db']) (use live c(3) in simp_all)
qed

lemma create_database_change:
  "playbook_change (ps_sha256 svc) db (snd (create_database svc env new_id who user inp db))"
proof (cases "checked_input svc env who user None inp db")
  case (Pair r db1)
  show ?thesis
  proof (cases r)
    case (Inl e)
    from Pair show ?thesis
    proof (cases rule: checked_input_cases)
      case (failed e' evs)
      then show ?thesis using Pair unchanged_events by (simp add: create_database_def)
    qed (use Inl in simp_all)
  next
    case (Inr vf)
    obtain v fmt where vf: "vf = (v, fmt)" by fastforce
    have db1: "db1 = db" using Pair Inr by (cases rule: checked_input_cases) simp_all
    let ?b = "\<lparr>pb_id = new_id, pb_name = py_strip (in_name inp), pb_description = py_strip (in_description inp),
                pb_enabled = in_enabled inp, pb_current_revision = 1, pb_version = 1, pb_created_by = user, pb_updated_by = user,
                pb_deleted_at = None, pb_created_at = e_now env, pb_updated_at = e_now env\<rparr>"
    let ?tx = "tx_bind (tx_check (new_revision svc new_id 1 user v (e_now env) fmt)) (\<lambda>revision.
             tx_bind (add_playbook ?b revision) (\<lambda>document.
             tx_then (playbook_audit env user PLAYBOOK_CREATED new_id) (tx_return document)))"
    have call: "create_database svc env new_id who user inp db = unit_of_work ?tx db"
      using Pair Inr vf db1 by (simp add: create_database_def)
    show ?thesis
    proof (cases "?tx db")
      case (Inl e)
      then show ?thesis unfolding call by (simp add: unit_of_work_def playbook_change.unchanged)
    next
      case (Inr x)
      then obtain revision doc db2 db3 where steps: "new_revision svc new_id 1 user v (e_now env) fmt = Inr revision"
          "add_playbook ?b revision db = Inr (doc, db2)" "playbook_audit env user PLAYBOOK_CREATED new_id db2 = Inr ((), db3)" "snd x = db3"
        by (cases x) (auto simp: tx_Inr_iff)
      note added = add_playbook_InrD [OF steps(2)]
      have "playbooks db3 = playbooks db @ [?b]" "playbook_revisions db3 = playbook_revisions db @ [revision]"
        using steps(3) added by (auto simp: playbook_audit_def)
      moreover have "stored_revision (ps_sha256 svc) revision" using checked_revision_stored Pair \<open>r = Inr vf\<close> vf steps(1) by metis
      ultimately have "playbook_change (ps_sha256 svc) db db3"
        using added new_revision_simps(1,2) [OF steps(1)] by (intro playbook_change.created [of db ?b revision]) auto
      then show ?thesis unfolding call using Inr steps(4) by (cases x) (simp add: unit_of_work_def)
    qed
  qed
qed

text \<open>An update either fails and leaves the tables alone, or saves the next revision of a live playbook.\<close>

lemma update_database_cases:
  obtains (failed) e evs where "update_database svc env who user i expected inp act db = (Inl e, db\<lparr>audit_events := audit_events db @ evs\<rparr>)"
  | (saved) v fmt doc db' where "update_database svc env who user i expected inp act db = (Inr doc, db')"
      "checked_input svc env who user (Some i) inp db = (Inr (v, fmt), db)"
      "update_body svc env i user expected inp v fmt act db = Inr (doc, db')"
proof (cases "checked_input svc env who user (Some i) inp db")
  case (Pair r db1)
  show thesis
  proof (cases r)
    case (Inl e)
    from Pair show thesis
    proof (cases rule: checked_input_cases)
      case (failed e' evs)
      then show thesis using Pair that(1) by (simp add: update_database_def)
    qed (use Inl in simp_all)
  next
    case (Inr vf)
    obtain v fmt where vf: "vf = (v, fmt)" by fastforce
    have db1: "db1 = db" using Pair Inr by (cases rule: checked_input_cases) simp_all
    have call: "update_database svc env who user i expected inp act db = unit_of_work (update_body svc env i user expected inp v fmt act) db"
      using Pair Inr vf db1 by (simp add: update_database_def)
    show thesis
    proof (cases "update_body svc env i user expected inp v fmt act db")
      case (Inl e)
      then show thesis using that(1) [of e "[]"] call by (simp add: unit_of_work_def)
    next
      case (Inr x)
      then show thesis using that(2) [of "fst x" "snd x" v fmt] call Pair \<open>r = Inr vf\<close> vf db1 by (cases x) (simp add: unit_of_work_def)
    qed
  qed
qed

lemma update_database_change:
  "playbook_change (ps_sha256 svc) db (snd (update_database svc env who user i expected inp act db))"
proof (cases rule: update_database_cases [of svc env who user i expected inp act db])
  case (failed e evs)
  then show ?thesis using unchanged_events by simp
next
  case (saved v fmt doc db')
  from update_body_InrD [OF saved(3)] obtain b v0 revision evs where
    U: "pb_version b = expected" "pb_deleted_at b = None" "pb_id b = i" "b \<in> set (playbooks db)"
      "new_revision svc i (pb_current_revision b + 1) user v (e_now env) fmt = Inr revision"
      "pb_id (fst doc) = i" "pb_deleted_at (fst doc) = None" "pb_version (fst doc) = expected + 1"
      "pb_current_revision (fst doc) = pb_current_revision b + 1"
      "\<And>x. x \<in> set (playbooks db) \<Longrightarrow> pb_id x \<noteq> i \<Longrightarrow> \<not> name_taken (fst doc) x"
      "db' = db\<lparr>playbook_revisions := playbook_revisions db @ [revision],
       playbooks := update_where (live_version i expected) (changed_playbook (fst doc)) (playbooks db), audit_events := audit_events db @ evs\<rparr>"
    by metis
  note R = new_revision_simps(1,2) [OF U(5)]
  have "stored_revision (ps_sha256 svc) revision" by (rule checked_revision_stored [OF saved(2) U(5)])
  then have "playbook_change (ps_sha256 svc) db db'"
    using U R by (intro playbook_change.saved [of b db "fst doc" revision]) simp_all
  then show ?thesis using saved(1) by simp
qed

lemma delete_database_cases:
  obtains (failed) e where "delete_database svc env who user i expected db = (Inl e, db)"
  | (removed) b evs where "fst (delete_database svc env who user i expected db) = Inr ()" "b \<in> set (playbooks db)"
      "pb_deleted_at b = None" "pb_id b = i" "pb_version b = expected"
      "snd (delete_database svc env who user i expected db) = db\<lparr>playbooks := update_where (live_version i expected) (deleted_playbook (e_now env) user)
         (playbooks db), audit_events := audit_events db @ evs\<rparr>"
proof (cases "fst (delete_database svc env who user i expected db)")
  case (Inl e)
  then have "delete_database svc env who user i expected db = (Inl e, db)"
    by (auto simp: delete_database_def unit_of_work_def split: sum.splits prod.splits)
  then show thesis by (rule that(1))
next
  case (Inr u)
  then obtain db' where call: "delete_database svc env who user i expected db = (Inr (), db')" by (metis (full_types) prod.collapse unit.exhaust)
  then obtain b v deleted db1 where steps: "get_document i db = Some (b, v)" "pb_version b = expected"
      "soft_delete i expected (e_now env) user db = Inr (Some deleted, db1)" "playbook_audit env user PLAYBOOK_DELETED i db1 = Inr ((), db')"
    unfolding delete_database_def unit_of_work_Inr_iff by (auto simp: tx_Inr_iff split: option.splits)
  from soft_delete_InrD [OF steps(3)] obtain c where c: "live_version i expected c" "c \<in> set (playbooks db)"
    "db1 = db\<lparr>playbooks := update_where (live_version i expected) (deleted_playbook (e_now env) user) (playbooks db)\<rparr>" by metis
  obtain evs where "db' = db1\<lparr>audit_events := audit_events db1 @ evs\<rparr>"
    using steps(4) by (auto simp: playbook_audit_def audit_append_def)
  then show thesis using that(2) [of c evs] call c by (simp add: live_version_def)
qed

end
