(* ===== verification/Playbook_History.thy ===== *)
theory Playbook_History
  imports Playbook_Properties Run_Properties
begin

text \<open>
  The history of playbooks: executions of the service, lost updates, failed calls, and restoring an
  earlier revision.
\<close>

section \<open>Executions\<close>

inductive playbook_call :: "(string \<Rightarrow> string) \<Rightarrow> timestamp \<Rightarrow> db \<Rightarrow> db \<Rightarrow> bool" for sha where
  create: "ps_sha256 svc = sha \<Longrightarrow> playbook_call sha (e_now env) db (snd (create_database svc env new_id who user inp db))"
| update: "ps_sha256 svc = sha \<Longrightarrow> playbook_call sha (e_now env) db (snd (update_database svc env who user i expected inp act db))"
| delete: "playbook_call sha (e_now env) db (snd (delete_database svc env who user i expected db))"
| restore: "ps_sha256 svc = sha \<Longrightarrow> playbook_call sha (e_now env) db (snd (restore_revision svc env who user i n expected db))"
| validate_content: "playbook_call sha (e_now env) db (snd (validate_content svc env who user content db))"
| validate_project: "playbook_call sha (e_now env) db (snd (validate_project svc env who user files ep schema check db))"
| validate_reference: "playbook_call sha (e_now env) db (snd (validate_reference svc env user ref db))"
| import_zip: "playbook_call sha (e_now env) db (snd (import_zip svc env who user payload ep' db))"
| export_zip: "playbook_call sha (e_now env) db (snd (export_zip svc env user i n db))"

text \<open>What the calls beside the tables of playbooks do.\<close>

definition only_audits :: "db \<Rightarrow> db \<Rightarrow> bool" where
  "only_audits db db' \<longleftrightarrow> (\<exists>evs. db' = db\<lparr>audit_events := audit_events db @ evs\<rparr>)"

lemma only_audits_refl [simp]: "only_audits db db"
  unfolding only_audits_def by (rule exI [of _ "[]"]) simp

lemma only_audits_append [simp]: "only_audits db (audit_append env act outcome src d db)"
  by (auto simp: only_audits_def audit_append_def)

lemma only_audits_validation [simp]:
  "only_audits db (validation_audit env valid user pid db)" "only_audits db (draft_audit env act user ty rid db)"
  by (simp_all add: validation_audit_def draft_audit_def)

lemma only_audits_change: "only_audits db db' \<Longrightarrow> playbook_change sha db db'"
  by (auto simp: only_audits_def intro: unchanged_events)

lemma read_only_calls:
  "only_audits db (snd (validate_content svc env who user content db))"
  "only_audits db (snd (validate_project svc env who user files ep schema check db))"
  "only_audits db (snd (import_zip svc env who user payload ep' db))"
  "only_audits db (snd (export_zip svc env user i n db))"
  by (auto simp: validate_content_def validate_project_def import_zip_def export_zip_def split: sum.splits)

lemma validate_reference_audits: "only_audits db (snd (validate_reference svc env user ref db))"
  by (auto simp: validate_reference_def split: sum.splits)

lemma restore_cases:
  obtains (failed) e where "restore_revision svc env who user i n expected db = (Inl e, db)"
  | (restored) source current v project where "revision_of svc i n db = Inr source" "get_database svc i db = Inr (current, v)"
      "as_project svc source = Inr project"
      "restore_revision svc env who user i n expected db =
         update_database svc env \<lparr>ca_actor_user_id = None, ca_session_id = None, ca_actor = None\<rparr> user i expected
            \<lparr>in_name = pb_name current, in_description = pb_description current, in_enabled = pb_enabled current,
             in_content = None, in_files = Some (map (\<lambda>f. (pf_path f, pf_content f)) (np_files project)),
             in_entrypoint = Some (np_entrypoint project), in_schema = Some (pv_parameter_schema source),
             in_check_mode = pv_supports_check_mode source\<rparr> PLAYBOOK_REVISION_RESTORED db"
proof (cases "allowed who PLAYBOOK_WRITE")
  case (Inl e)
  then show thesis using that(1) by (simp add: restore_revision_def)
next
  case allowed: (Inr u)
  show thesis
  proof (cases "revision_of svc i n db")
    case (Inl e)
    then show thesis using that(1) allowed by (simp add: restore_revision_def)
  next
    case source: (Inr source)
    show thesis
    proof (cases "get_database svc i db")
      case (Inl e)
      then show thesis using that(1) allowed source by (simp add: restore_revision_def)
    next
      case current: (Inr cv)
      obtain c v where cv: "cv = (c, v)" by fastforce
      show thesis
        by (cases "as_project svc source") (use that allowed source current cv in \<open>simp_all add: restore_revision_def\<close>)
    qed
  qed
qed

lemma restore_change: "playbook_change (ps_sha256 svc) db (snd (restore_revision svc env who user i n expected db))"
proof (cases rule: restore_cases [of svc env who user i n expected db])
  case (failed e)
  then show ?thesis by (simp add: playbook_change.unchanged)
next
  case (restored source current v project)
  then show ?thesis by (simp only: update_database_change)
qed

lemma delete_change: "playbook_change sha db (snd (delete_database svc env who user i expected db))"
proof (cases rule: delete_database_cases [of svc env who user i expected db])
  case (failed e)
  then show ?thesis by (simp add: playbook_change.unchanged)
next
  case (removed b evs)
  then show ?thesis by (intro playbook_change.removed [of b db _ "e_now env" user]) simp_all
qed

lemma playbook_call_change: "playbook_call sha now db db' \<Longrightarrow> playbook_change sha db db'"
  by (induction rule: playbook_call.induct)
    (auto intro: create_database_change update_database_change restore_change delete_change
      only_audits_change [OF read_only_calls(1)] only_audits_change [OF read_only_calls(2)] only_audits_change [OF read_only_calls(3)]
      only_audits_change [OF read_only_calls(4)] only_audits_change [OF validate_reference_audits])

definition revisions_kept :: "db \<Rightarrow> db \<Rightarrow> bool" where
  "revisions_kept db db' \<longleftrightarrow> (\<exists>new. playbook_revisions db' = playbook_revisions db @ new)"

lemma revisions_kept_refl: "revisions_kept db db"
  by (simp add: revisions_kept_def)

lemma revisions_kept_trans: "revisions_kept a b \<Longrightarrow> revisions_kept b c \<Longrightarrow> revisions_kept a c"
  by (auto simp: revisions_kept_def)

interpretation history: monotone_system "playbook_call sha" "playbook_inv sha" revisions_kept
  by unfold_locales
    (auto dest!: playbook_call_change dest: change_inv change_revisions intro: revisions_kept_refl revisions_kept_trans simp: revisions_kept_def)

lemma kept_revision: "revisions_kept db db' \<Longrightarrow> get_revision i n db = Some v \<Longrightarrow> get_revision i n db' = Some v"
  by (auto simp: revisions_kept_def get_revision_def fetch_one_append split: option.splits)

text \<open>
  C15: The history of playbooks is append-only: whatever is saved, restored, deleted or imported, every
  revision that could be read, by a run that recorded its number or by the history, reads the same
  afterwards, and the invariant is kept: the revisions of a playbook are numbered from one to its current
  one without gaps, versions count its changes, and no two live playbooks share a name up to case.
\<close>

theorem playbook_history_kept:
  assumes "exec (playbook_call sha) db ls db'" and "playbook_inv sha db"
  shows "playbook_inv sha db' \<and> (\<forall>i n v. get_revision i n db = Some v \<longrightarrow> get_revision i n db' = Some v)"
  using history.exec_ok [OF assms] history.exec_below [OF assms] kept_revision by blast

section \<open>Updates\<close>

lemma get_document_saved:
  assumes I: "playbook_inv sha db" and b: "b \<in> set (playbooks db)" "pb_deleted_at b = None" "pb_id b = i" "pb_version b = expected"
    and v: "pv_playbook_id v = i" "pv_revision v = pb_current_revision b + 1" "pb_current_revision new = pb_current_revision b + 1"
    and new: "\<exists>c \<in> set (playbooks db). live_version i expected c \<and> changed_playbook new c = new"
    and db': "playbooks db' = update_where (live_version i expected) (changed_playbook new) (playbooks db)"
      "playbook_revisions db' = playbook_revisions db @ [v]"
  shows "get_document i db' = Some (new, load_revision v)"
proof -
  have live: "live_version i expected x \<longleftrightarrow> x = b" if "x \<in> set (playbooks db)" for x
    using live_row [OF playbook_invD(1) [OF I] b(1,2) that] b(3,4) by simp
  then have nb: "changed_playbook new b = new" using new by blast
  have "pb_id (changed_playbook new b) = pb_id b" "pb_deleted_at (changed_playbook new b) = pb_deleted_at b"
    by (simp_all add: changed_playbook_def)
  then have fields: "pb_id new = i" "pb_deleted_at new = None" using nb b(2,3) by simp_all
  have "distinct (map pb_id (playbooks db'))"
    using playbook_invD(1) [OF I] by (simp add: db' map_key_update_where changed_playbook_def)
  moreover have "new \<in> set (playbooks db')" using live b(1) nb by (force simp: db' set_update_where)
  ultimately have one: "fetch_one (\<lambda>x. pb_id x = i) (playbooks db') = Some new" using fetch_one_by_key fields(1) by metis
  have "fetch_one (\<lambda>x. pb_id x = i \<and> pb_deleted_at x = None) (playbooks db') = Some new"
  proof -
    have "fetch_one (\<lambda>x. pb_id x = i \<and> pb_deleted_at x = None) rows = Some r"
      if "fetch_one (\<lambda>x. pb_id x = i) rows = Some r" "pb_deleted_at r = None" for rows r
      using that by (induction rows) (auto split: if_splits)
    then show ?thesis using one fields(2) by blast
  qed
  moreover have "fetch_one (\<lambda>w. pv_playbook_id w = i \<and> pv_revision w = pb_current_revision b + 1) (playbook_revisions db) = None"
    using playbook_invD(3) [OF I b(1), of "pb_current_revision b + 1"] b(3) by (simp add: fetch_one_None_iff)
  ultimately show ?thesis using v fields(1)
    by (simp add: get_document_def document_where_def get_revision_def fetch_one_append db')
qed

lemma document_elsewhere:
  assumes "j \<noteq> i" and "pv_playbook_id v = i" and "playbooks db' = update_where (live_version i expected) (changed_playbook new) (playbooks db)"
    and "playbook_revisions db' = playbook_revisions db @ [v]"
  shows "get_document j db' = get_document j db"
proof -
  have "fetch_one (\<lambda>b. pb_id b = j \<and> pb_deleted_at b = None) (playbooks db') = fetch_one (\<lambda>b. pb_id b = j \<and> pb_deleted_at b = None) (playbooks db)"
    unfolding assms(3) by (rule fetch_one_update_where_other) (use assms(1) in \<open>auto simp: changed_playbook_def live_version_def\<close>)
  moreover have "get_revision j n db' = get_revision j n db" for n
    using assms(1,2,4) by (auto simp: get_revision_def fetch_one_append split: option.splits)
  ultimately show ?thesis by (auto simp: get_document_def document_where_def split: option.splits dest: fetch_one_SomeD)
qed

lemma update_success:
  assumes "update_database svc env who user i expected inp act db = (Inr doc, db')" and I: "playbook_inv sha db"
  obtains b v fmt where "b \<in> set (playbooks db)" "pb_deleted_at b = None" "pb_id b = i" "pb_version b = expected"
    "checked_input svc env who user (Some i) inp db = (Inr (v, fmt), db)"
    "new_revision svc i (pb_current_revision b + 1) user v (e_now env) fmt = Inr (snd doc)"
    "get_document i db = Some (b, the (get_revision i (pb_current_revision b) db))" "get_revision i (pb_current_revision b) db \<noteq> None"
    "pb_version (fst doc) = expected + 1" "get_document i db' = Some (fst doc, load_revision (snd doc))" "revisions_kept db db'"
    "\<And>j. j \<noteq> i \<Longrightarrow> get_document j db' = get_document j db"
proof (cases rule: update_database_cases [of svc env who user i expected inp act db])
  case (failed e evs)
  then show thesis using assms(1) by simp
next
  case (saved v fmt doc2 db2)
  then have body: "update_body svc env i user expected inp v fmt act db = Inr (doc, db')" using assms(1) by simp
  show thesis
  proof (rule update_body_InrD [OF body])
    fix b v0 revision evs
    assume U: "get_document i db = Some (b, v0)" "pb_version b = expected" "pb_deleted_at b = None" "pb_id b = i"
      "b \<in> set (playbooks db)" "new_revision svc i (pb_current_revision b + 1) user v (e_now env) fmt = Inr revision"
      "snd doc = revision" "pb_version (fst doc) = expected + 1" "pb_current_revision (fst doc) = pb_current_revision b + 1"
      "\<exists>c \<in> set (playbooks db). live_version i expected c \<and> changed_playbook (fst doc) c = fst doc"
      "db' = db\<lparr>playbook_revisions := playbook_revisions db @ [revision],
         playbooks := update_where (live_version i expected) (changed_playbook (fst doc)) (playbooks db), audit_events := audit_events db @ evs\<rparr>"
    note R = new_revision_simps(1,2) [OF U(6)]
    have found: "get_document i db' = Some (fst doc, load_revision revision)"
      by (rule get_document_saved [OF I U(5,3,4,2) R U(9,10)]) (simp_all add: U(11))
    have others: "get_document j db' = get_document j db" if "j \<noteq> i" for j
      by (rule document_elsewhere [OF that R(1)]) (simp_all add: U(11))
    have kept: "revisions_kept db db'" by (simp add: U(11) revisions_kept_def)
    have v0: "get_revision i (pb_current_revision b) db = Some v0" using get_document_live [OF U(1)] by simp
    have new: "new_revision svc i (pb_current_revision b + 1) user v (e_now env) fmt = Inr (snd doc)" using U(6,7) by simp
    show thesis
      by (rule that [OF U(5,3,4,2) saved(2) new _ _ U(8) _ kept others]) (use U(1,7) v0 found in simp_all)
  qed
qed

text \<open>
  C16: No update of a playbook is lost. One that succeeds named the version it read; the new document
  is what the next reader gets, the one it replaced stays in the history under its number, other
  playbooks are as before, and every other save that read the same version is refused.
\<close>

theorem playbook_update_not_lost:
  assumes "playbook_inv sha db" and "update_database svc env who user i expected inp act db = (Inr (b, v), db')"
  shows "\<exists>b0 v0. get_document i db = Some (b0, v0) \<and> pb_version b0 = expected \<and> pb_version b = expected + 1 \<and>
     get_document i db' = Some (b, load_revision v) \<and> pv_revision v = pv_revision v0 + 1 \<and>
     get_revision i (pv_revision v0) db' = Some v0 \<and> (\<forall>j. j \<noteq> i \<longrightarrow> get_document j db' = get_document j db) \<and>
     (\<forall>svc' env' who' user' inp' act' doc. fst (update_database svc' env' who' user' i expected inp' act' db') \<noteq> Inr doc)"
proof (rule update_success [OF assms(2,1)])
  fix b0 val fmt
  assume U: "pb_version b0 = expected" "new_revision svc i (pb_current_revision b0 + 1) user val (e_now env) fmt = Inr (snd (b, v))"
    "get_document i db = Some (b0, the (get_revision i (pb_current_revision b0) db))" "get_revision i (pb_current_revision b0) db \<noteq> None"
    "pb_version (fst (b, v)) = expected + 1" "get_document i db' = Some (fst (b, v), load_revision (snd (b, v)))" "revisions_kept db db'"
    "\<And>j. j \<noteq> i \<Longrightarrow> get_document j db' = get_document j db"
  obtain v0 where v0: "get_revision i (pb_current_revision b0) db = Some v0" using U(4) by blast
  then have number: "pv_revision v0 = pb_current_revision b0" using get_revision_Some by fastforce
  have "fst (update_database svc' env' who' user' i expected inp' act' db') \<noteq> Inr doc" for svc' env' who' user' inp' act' doc
  proof
    assume again: "fst (update_database svc' env' who' user' i expected inp' act' db') = Inr doc"
    show False
    proof (cases rule: update_database_cases [of svc' env' who' user' i expected inp' act' db'])
      case (saved v2 fmt2 doc2 db2)
      obtain b3 v3 where "get_document i db' = Some (b3, v3)" "pb_version b3 = expected"
        using update_body_InrD [OF saved(3)] by metis
      then show False using U(5,6) by simp
    qed (use again in simp)
  qed
  moreover have "pv_revision v = pv_revision v0 + 1" using number new_revision_simps(2) [OF U(2)] by simp
  moreover have "get_revision i (pv_revision v0) db' = Some v0" using kept_revision [OF U(7) v0] number by simp
  ultimately show ?thesis using U(1,5,6,8) U(3) [unfolded v0 option.sel] by (intro exI [of _ b0] exI [of _ v0]) simp
qed

section \<open>Calls that fail\<close>

lemma checked_input_failed: "checked_input svc env who user pid inp db = (Inl e, db') \<Longrightarrow> only_audits db db'"
  by (cases rule: checked_input_cases) (auto simp: only_audits_def)

lemma checked_input_passed: "checked_input svc env who user pid inp db = (Inr r, db') \<Longrightarrow> db' = db"
  by (cases rule: checked_input_cases) auto

lemma unit_of_work_failed: "fst (unit_of_work m db) = Inl e \<Longrightarrow> snd (unit_of_work m db) = db"
  by (auto simp: unit_of_work_def split: sum.splits)

lemma create_failed: "fst (create_database svc env new_id who user inp db) = Inl e \<Longrightarrow> only_audits db (snd (create_database svc env new_id who user inp db))"
proof (cases "checked_input svc env who user None inp db")
  case (Pair r db1)
  assume failed: "fst (create_database svc env new_id who user inp db) = Inl e"
  show ?thesis
  proof (cases r)
    case (Inl e')
    then show ?thesis using checked_input_failed Pair by (simp add: create_database_def)
  next
    case (Inr vf)
    then obtain m where "create_database svc env new_id who user inp db = unit_of_work m db"
      using Pair checked_input_passed [of svc env who user None inp db vf db1] by (cases vf) (auto simp: create_database_def)
    then show ?thesis using failed unit_of_work_failed by (metis only_audits_refl)
  qed
qed

lemma update_failed:
  "fst (update_database svc env who user i expected inp act db) = Inl e \<Longrightarrow> only_audits db (snd (update_database svc env who user i expected inp act db))"
  by (cases rule: update_database_cases [of svc env who user i expected inp act db]) (auto simp: only_audits_def)

lemma restore_failed:
  "fst (restore_revision svc env who user i n expected db) = Inl e \<Longrightarrow> only_audits db (snd (restore_revision svc env who user i n expected db))"
  by (cases rule: restore_cases [of svc env who user i n expected db]) (auto simp only: update_failed fst_conv snd_conv only_audits_refl)

lemma delete_failed: "fst (delete_database svc env who user i expected db) = Inl e \<Longrightarrow> snd (delete_database svc env who user i expected db) = db"
  unfolding delete_database_def by (rule unit_of_work_failed)

lemma update_refused:
  assumes "checked_input svc env who user (Some i) inp db = (Inr r, db1)"
    and "case get_document i db of None \<Rightarrow> err = PlaybookNotFoundError | Some (b, _) \<Rightarrow> pb_version b \<noteq> expected \<and> err = PlaybookVersionConflictError"
  shows "update_database svc env who user i expected inp act db = (Inl err, db)"
  using assms checked_input_passed [OF assms(1)]
  by (cases r) (auto simp: update_database_def update_body_def unit_of_work_def tx_bind_def tx_then_def tx_guard_def split: option.splits)

text \<open>
  C36: A save that fails changes nothing but the audit log, whichever check failed: creating, updating, deleting
  and restoring leave both tables and everything else as they were. An update whose content is valid is refused with
  \<open>PlaybookNotFoundError\<close> when the playbook is unknown or deleted, and with
  \<open>PlaybookVersionConflictError\<close> when another version is current.
\<close>

theorem failed_save_changes_nothing:
  "(\<forall>e. fst (create_database svc env new_id who user inp db) = Inl e \<longrightarrow> only_audits db (snd (create_database svc env new_id who user inp db))) \<and>
   (\<forall>e. fst (update_database svc env who user i expected inp act db) = Inl e \<longrightarrow> only_audits db (snd (update_database svc env who user i expected inp act db))) \<and>
   (\<forall>e. fst (restore_revision svc env who user i n expected db) = Inl e \<longrightarrow> only_audits db (snd (restore_revision svc env who user i n expected db))) \<and>
   (\<forall>e. fst (delete_database svc env who user i expected db) = Inl e \<longrightarrow> snd (delete_database svc env who user i expected db) = db) \<and>
   (\<forall>r db1 err. checked_input svc env who user (Some i) inp db = (Inr r, db1) \<longrightarrow>
      (case get_document i db of None \<Rightarrow> err = PlaybookNotFoundError | Some (b, _) \<Rightarrow> pb_version b \<noteq> expected \<and> err = PlaybookVersionConflictError) \<longrightarrow>
      update_database svc env who user i expected inp act db = (Inl err, db))"
  by (intro conjI allI impI) (rule create_failed update_failed restore_failed delete_failed update_refused; assumption)+

section \<open>Restoring\<close>

lemma renormalized_file:
  assumes "stored_file sha f" and "file_of sha (pf_path f, pf_content f) g"
  shows "g = f"
proof -
  obtain raw where "normalize_project_path raw = Inr (pf_path f)" using assms(1) by (auto simp: stored_file_def)
  then have "pf_path g = pf_path f"
    using normalize_project_path_again assms(2) by (auto simp: file_of_def split: if_splits)
  then show ?thesis using assms by (cases f, cases g) (auto simp: file_of_def stored_file_def)
qed

lemma renormalized_files:
  assumes "list_all2 (file_of sha) (map (\<lambda>f. (pf_path f, pf_content f)) fs) gs" and "\<forall>f \<in> set fs. stored_file sha f"
  shows "gs = fs"
  using assms
proof (induction fs arbitrary: gs)
  case (Cons f fs)
  then show ?case using renormalized_file by (cases gs) auto
qed simp

lemma renormalized_project:
  assumes "normalize_project sha (map (\<lambda>f. (pf_path f, pf_content f)) fs) ep = Inr p"
    and "\<forall>f \<in> set fs. stored_file sha f" and "distinct (map (\<lambda>f. casefold (pf_path f)) fs)" and "ep \<in> pf_path ` set fs"
  shows "mset (np_files p) = mset fs \<and> np_entrypoint p = ep"
proof -
  let ?k = "\<lambda>item :: string \<times> string. casefold (fst item)"
  obtain ne where D: "list_all2 (file_of sha) (sort_key ?k (map (\<lambda>f. (pf_path f, pf_content f)) fs)) (np_files p)"
    "normalize_project_path ep = Inr ne" "filter (\<lambda>q. casefold q = casefold ne) (map pf_path (np_files p)) = [np_entrypoint p]"
    using normalize_project_InrD [OF assms(1)] by metis
  have "sort_key ?k (map (\<lambda>f. (pf_path f, pf_content f)) fs) = map (\<lambda>f. (pf_path f, pf_content f)) (sort_key (\<lambda>f. casefold (pf_path f)) fs)"
    by (rule sort_key_inj_key_eq) (use assms(3) in \<open>auto simp: comp_def distinct_map inj_on_def\<close>)
  then have files: "np_files p = sort_key (\<lambda>f. casefold (pf_path f)) fs"
    using renormalized_files [of sha "sort_key (\<lambda>f. casefold (pf_path f)) fs"] D(1) assms(2) by simp
  obtain f where f: "f \<in> set fs" "ep = pf_path f" using assms(4) by blast
  then obtain raw where "normalize_project_path raw = Inr ep" using assms(2) by (auto simp: stored_file_def)
  then have "ne = ep" using normalize_project_path_again D(2) by (auto split: if_splits)
  moreover have "ep \<in> set (map pf_path (np_files p))" using f files by auto
  ultimately have "ep \<in> set (filter (\<lambda>q. casefold q = casefold ne) (map pf_path (np_files p)))" by simp
  then have "np_entrypoint p = ep" unfolding D(3) by simp
  then show ?thesis using files by simp
qed

text \<open>
  C37: Restoring brings a project back: when \<open>restore_revision\<close> succeeds on a project revision, the
  document the next reader gets has the same files, entry point and check-mode flag as that revision and the same
  parameter schema up to the order of its keys, as the revision after the current one. Its digest is the one computed
  anew from the stored files, which is what a worker compares. The restored revision and all others stay.
\<close>

theorem restore_brings_back:
  assumes "playbook_inv (ps_sha256 svc) db" and "get_revision i n db = Some v" and "pv_format v = PROJECT"
    and "restore_revision svc env who user i n expected db = (Inr (b, v'), db')"
  shows "\<exists>current w p. map_option fst (get_document i db) = Some current \<and> get_document i db' = Some (b, w) \<and>
     pv_revision w = pb_current_revision current + 1 \<and> pb_version b = expected + 1 \<and> pb_version current = expected \<and>
     pv_format w = PROJECT \<and> pv_files w = pv_files v \<and> pv_entrypoint w = pv_entrypoint v \<and>
     pv_supports_check_mode w = pv_supports_check_mode v \<and> JObj (pv_parameter_schema w) = canonical (JObj (pv_parameter_schema v)) \<and>
     normalize_project (ps_sha256 svc) (map (\<lambda>f. (pf_path f, pf_content f)) (pv_files w)) (the (pv_entrypoint w)) = Inr p \<and>
     pv_sha256 w = np_sha256 p \<and> get_revision i n db' = Some v"
proof (cases rule: restore_cases [of svc env who user i n expected db])
  case (failed e)
  then show ?thesis using assms(4) by simp
next
  case (restored source current cv project)
  have source: "source = v" using restored(1) assms(2) by (auto simp: revision_of_def split: sum.splits)
  obtain v0 where v0: "v0 \<in> set (playbook_revisions db)" "v = load_revision v0" using get_revision_Some [OF assms(2)] by blast
  have S: "stored_revision (ps_sha256 svc) v0" using playbook_invD(6) [OF assms(1) v0(1)] by simp
  then obtain ep where ep: "pv_entrypoint v = Some ep" "ep \<in> pf_path ` set (pv_files v)"
    using assms(3) v0(2) by (auto simp: stored_revision_def)
  have files: "\<forall>f \<in> set (pv_files v). stored_file (ps_sha256 svc) f" "distinct (map (\<lambda>f. casefold (pf_path f)) (pv_files v))"
    and schema: "pv_parameter_schema v \<noteq> []"
    using S assms(3) v0(2) by (auto simp: stored_revision_def distinct_map)
  have project: "np_files project = pv_files v" "np_entrypoint project = ep"
    using restored(3) source assms(3) ep(1) by (auto simp: as_project_def)
  let ?inp = "\<lparr>in_name = pb_name current, in_description = pb_description current, in_enabled = pb_enabled current,
             in_content = None, in_files = Some (map (\<lambda>f. (pf_path f, pf_content f)) (np_files project)),
             in_entrypoint = Some (np_entrypoint project), in_schema = Some (pv_parameter_schema source),
             in_check_mode = pv_supports_check_mode source\<rparr>"
  have call: "update_database svc env \<lparr>ca_actor_user_id = None, ca_session_id = None, ca_actor = None\<rparr> user i expected ?inp
      PLAYBOOK_REVISION_RESTORED db = (Inr (b, v'), db')" using restored(4) assms(4) by simp
  obtain b0 :: playbook_row and val fmt where U: "checked_input svc env \<lparr>ca_actor_user_id = None, ca_session_id = None, ca_actor = None\<rparr> user (Some i) ?inp db = (Inr (val, fmt), db)"
      "new_revision svc i (pb_current_revision b0 + 1) user val (e_now env) fmt = Inr v'"
      "map_option fst (get_document i db) = Some b0" "pb_version b0 = expected" "pb_version b = expected + 1" "get_document i db' = Some (b, load_revision v')" "revisions_kept db db'"
    by (rule update_success [OF call assms(1), unfolded fst_conv snd_conv]) (rule that, simp_all)
  have val: "validator_project svc (map (\<lambda>f. (pf_path f, pf_content f)) (pv_files v)) ep (Some (pv_parameter_schema v)) (pv_supports_check_mode v) = Inr val"
    "fmt = PROJECT"
    using U(1) by (cases rule: checked_input_cases; simp add: project source)+
  note R = new_revision_simps [OF U(2)]
  obtain p d where p: "normalize_project (ps_sha256 svc) (map (\<lambda>f. (pf_path f, pf_content f)) (pv_files v)) ep = Inr p"
      "vr_normalized_files val = np_files p" "vr_entrypoint val = Some (np_entrypoint p)" "vr_supports_check_mode val = pv_supports_check_mode v"
      "validate_parameter_schema (ps_float_repr svc) (pv_parameter_schema v) = Inr d" "vr_parameter_schema val = Some d"
      "vr_sha256 val = Some (np_sha256 p)"
  proof (rule validator_project_files [OF val(1)])
    show "vr_sha256 val \<noteq> None" using R(8) by simp
  qed auto
  note same = renormalized_project [OF p(1) files ep(2)]
  have "sort_key pf_path (np_files p) = pv_files v"
  proof (rule sort_key_inj_key_eq)
    show "inj_on pf_path (set (np_files p))"
      using files(2) mset_eq_setD [OF conjunct1 [OF same]] by (auto simp: distinct_map inj_on_def)
    show "sorted (map pf_path (pv_files v))" using v0(2) by simp
  qed (use same in simp)
  moreover have "JObj d = canonical (JObj (pv_parameter_schema v))"
    using p(5) schema by (auto simp: validate_parameter_schema_def Let_def split: sum.splits if_splits)
  moreover have "pv_parameter_schema v' = d" using R(11) [OF p(6)] schema_not_empty [OF p(5)] by simp
  moreover have "pv_sha256 v' = np_sha256 p" using R(8) p(7) by simp
  ultimately show ?thesis
    using U(3-6) kept_revision [OF U(7) assms(2)] R(2,3,5,6,12) p(1-4) val(2) same ep(1)
    by (intro exI [of _ b0] exI [of _ "load_revision v'"] exI [of _ p]) simp
qed

section \<open>An example\<close>

definition demo_playbook_service :: playbook_service where
  "demo_playbook_service =
     \<lparr>ps_cfg = sample_settings, ps_version = ''ansible-core 2'', ps_sha256 = (\<lambda>s. s), ps_float_repr = (\<lambda>_. ''0''),
      ps_yaml = (\<lambda>_. YAML_LIST), ps_syntax = (\<lambda>_ _. Exited 0 ''ok''), ps_mount_syntax = (\<lambda>_. Not_Installed),
      ps_codec = \<lparr>tc_decode = (\<lambda>_. None), tc_loads = (\<lambda>_. None)\<rparr>, ps_open_zip = (\<lambda>_. None),
      ps_unified_diff = (\<lambda>old new a b. old @ new),
      ps_mount = \<lparr>mf_workspace = [], mf_resolve = (\<lambda>p. p), mf_is_file = (\<lambda>_. False), mf_read_text = (\<lambda>_. None),
        mf_modified_at = (\<lambda>_. 0), mf_title = (\<lambda>_. []), mf_yaml_files = []\<rparr>\<rparr>"

definition demo_caller :: caller where
  "demo_caller = \<lparr>ca_actor_user_id = None, ca_session_id = None, ca_actor = None\<rparr>"

definition demo_input :: "(string \<times> string) list \<Rightarrow> playbook_input" where
  "demo_input files = \<lparr>in_name = ''Site'', in_description = [], in_enabled = True, in_content = None, in_files = Some files,
     in_entrypoint = Some ''site.yml'', in_schema = None, in_check_mode = True\<rparr>"

definition demo_playbook_env :: env where
  "demo_playbook_env = \<lparr>e_now = 5, e_ctx = empty_context\<rparr>"

definition demo_staff :: db where
  "demo_staff = empty_db\<lparr>users := [\<lparr>u_id = 9, u_username = ''ops'', u_password_hash = None, u_status = US_ACTIVE, u_role = OWNER,
       u_mfa_enrollment_required = False, u_activated_at = None, u_version = 1, u_created_at = 0, u_updated_at = 0,
       u_password_updated_at = None\<rparr>]\<rparr>"

definition demo_create :: "(ops_error + (playbook_row \<times> playbook_revision)) \<times> db" where
  "demo_create = create_database demo_playbook_service demo_playbook_env 4 demo_caller 9 (demo_input [(''site.yml'', ''- a''), (''b.yml'', ''- b'')]) demo_staff"

definition demo_shelf :: db where
  "demo_shelf = snd demo_create"

definition demo_update :: "(ops_error + (playbook_row \<times> playbook_revision)) \<times> db" where
  "demo_update = update_database demo_playbook_service demo_playbook_env demo_caller 9 4 1 (demo_input [(''site.yml'', ''- c'')]) PLAYBOOK_UPDATED demo_shelf"

definition demo_restore :: "(ops_error + (playbook_row \<times> playbook_revision)) \<times> db" where
  "demo_restore = restore_revision demo_playbook_service demo_playbook_env demo_caller 9 4 1 2 (snd demo_update)"

lemma demo_staff_inv: "playbook_inv (ps_sha256 demo_playbook_service) demo_staff"
  by (simp add: playbook_inv_def demo_staff_def empty_db_def)

lemma demo_shelf_inv: "playbook_inv (ps_sha256 demo_playbook_service) demo_shelf"
  unfolding demo_shelf_def demo_create_def by (rule change_inv [OF create_database_change demo_staff_inv])

lemma demo_updated_inv: "playbook_inv (ps_sha256 demo_playbook_service) (snd demo_update)"
  unfolding demo_update_def by (rule change_inv [OF update_database_change demo_shelf_inv])

lemma demo_updated: "\<exists>doc. fst demo_update = Inr doc"
proof -
  have "case fst demo_update of Inl _ \<Rightarrow> False | Inr _ \<Rightarrow> True" by code_simp
  then show ?thesis by (cases "fst demo_update") auto
qed

lemma demo_first_revision:
  "\<exists>v. get_revision 4 1 demo_shelf = Some v \<and> pv_format v = PROJECT \<and> map pf_path (pv_files v) = [''b.yml'', ''site.yml'']"
proof -
  have "case get_revision 4 1 demo_shelf of None \<Rightarrow> False | Some v \<Rightarrow> pv_format v = PROJECT \<and> map pf_path (pv_files v) = [''b.yml'', ''site.yml'']"
    by code_simp
  then show ?thesis by (cases "get_revision 4 1 demo_shelf") auto
qed

theorem playbook_history_kept_witness:
  "\<exists>v. get_revision 4 1 (snd (delete_database demo_playbook_service demo_playbook_env demo_caller 9 4 1 demo_shelf)) = Some v \<and> pv_format v = PROJECT"
proof -
  obtain v where v: "get_revision 4 1 demo_shelf = Some v" "pv_format v = PROJECT" using demo_first_revision by blast
  have "exec (playbook_call (ps_sha256 demo_playbook_service)) demo_shelf [e_now demo_playbook_env]
      (snd (delete_database demo_playbook_service demo_playbook_env demo_caller 9 4 1 demo_shelf))"
    by (auto simp: exec_iff intro: playbook_call.delete)
  from playbook_history_kept [OF this demo_shelf_inv] show ?thesis using v by blast
qed

theorem playbook_update_not_lost_witness:
  "\<exists>b v. get_document 4 (snd demo_update) = Some (b, v) \<and> pb_version b = 2"
proof -
  obtain b v where call: "update_database demo_playbook_service demo_playbook_env demo_caller 9 4 1 (demo_input [(''site.yml'', ''- c'')])
      PLAYBOOK_UPDATED demo_shelf = (Inr (b, v), snd demo_update)"
    using demo_updated unfolding demo_update_def by (metis prod.collapse)
  from playbook_update_not_lost [OF demo_shelf_inv call] show ?thesis by auto
qed

theorem failed_save_changes_nothing_witness:
  "update_database demo_playbook_service demo_playbook_env demo_caller 9 4 7 (demo_input [(''site.yml'', ''- c'')]) PLAYBOOK_UPDATED demo_shelf =
     (Inl PlaybookVersionConflictError, demo_shelf)"
proof -
  let ?i = "checked_input demo_playbook_service demo_playbook_env demo_caller 9 (Some 4) (demo_input [(''site.yml'', ''- c'')]) demo_shelf"
  have "case fst ?i of Inl _ \<Rightarrow> False | Inr _ \<Rightarrow> True" by code_simp
  then obtain r db1 where i: "?i = (Inr r, db1)" by (cases ?i; cases "fst ?i") auto
  have "case get_document 4 demo_shelf of None \<Rightarrow> False | Some (b, _) \<Rightarrow> pb_version b \<noteq> 7" by code_simp
  then have doc: "case get_document 4 demo_shelf of None \<Rightarrow> PlaybookVersionConflictError = PlaybookNotFoundError
      | Some (b, _) \<Rightarrow> pb_version b \<noteq> 7 \<and> PlaybookVersionConflictError = PlaybookVersionConflictError" by (cases "get_document 4 demo_shelf") auto
  show ?thesis
    by (rule failed_save_changes_nothing [THEN conjunct2, THEN conjunct2, THEN conjunct2, THEN conjunct2, rule_format, OF i doc])
qed

theorem restore_brings_back_witness:
  "\<exists>b w. get_document 4 (snd demo_restore) = Some (b, w) \<and> map pf_path (pv_files w) = [''b.yml'', ''site.yml''] \<and> pb_version b = 3"
proof -
  obtain v where v: "get_revision 4 1 demo_shelf = Some v" "pv_format v = PROJECT" "map pf_path (pv_files v) = [''b.yml'', ''site.yml'']"
    using demo_first_revision by (elim exE conjE) (rule that)
  have "revisions_kept demo_shelf (snd demo_update)"
    unfolding demo_update_def revisions_kept_def by (rule change_revisions [OF update_database_change])
  then have read: "get_revision 4 1 (snd demo_update) = Some v" using kept_revision v(1) by blast
  have "case fst demo_restore of Inl _ \<Rightarrow> False | Inr _ \<Rightarrow> True" by code_simp
  then obtain d where "fst demo_restore = Inr d" by (cases "fst demo_restore") auto
  then have "demo_restore = (Inr (fst d, snd d), snd demo_restore)" by (metis prod.collapse)
  then have "restore_revision demo_playbook_service demo_playbook_env demo_caller 9 4 1 2 (snd demo_update) = (Inr (fst d, snd d), snd demo_restore)"
    by (simp only: demo_restore_def)
  from restore_brings_back [OF demo_updated_inv read v(2) this] show ?thesis using v(3) by auto
qed

end
