(* ===== verification/Key_Rotation.thy ===== *)
theory Key_Rotation
  imports Credential_Service
begin

text \<open>
  Master keys and their rotation: \<open>domain/encryption.py\<close>, \<open>repositories/encryption.py\<close> and
  \<open>services/encryption.py\<close>. A record to rotate is named by the table it is in and its key there; the
  casts of \<open>uuid\<close> columns to text and back are left out. Rows other transactions have locked
  (\<open>SKIP LOCKED\<close>) are the argument \<open>locked\<close>, the advisory lock is the argument \<open>acquired\<close>, and nonces are arguments.
\<close>

datatype record_ref = Credential_Ref uuid nat | Mfa_Ref uuid | System_Ref string | Run_Ref uuid

datatype record_kind = RK_CREDENTIAL | RK_MFA | RK_SYSTEM | RK_RUN_SECRET

fun kind_of :: "record_ref \<Rightarrow> record_kind" where
  "kind_of (Credential_Ref _ _) = RK_CREDENTIAL"
| "kind_of (Mfa_Ref _) = RK_MFA"
| "kind_of (System_Ref _) = RK_SYSTEM"
| "kind_of (Run_Ref _) = RK_RUN_SECRET"

record encrypted_record =
  er_ref :: record_ref
  er_payload :: bytes
  er_key_version :: int

record encryption_usage =
  eu_key_version :: int
  eu_credential_count :: nat
  eu_mfa_count :: nat
  eu_system_count :: nat
  eu_run_secret_count :: nat

definition total_count :: "encryption_usage \<Rightarrow> nat" where
  "total_count u = eu_credential_count u + eu_mfa_count u + eu_system_count u + eu_run_secret_count u"

definition ROTATION_BATCH_SIZE :: nat where "ROTATION_BATCH_SIZE = 100"

definition ROTATION_LEASE :: timestamp where "ROTATION_LEASE = seconds 30"

definition IDEMPOTENCY_SECRET_NAME :: string where "IDEMPOTENCY_SECRET_NAME = ''run-idempotency-pepper''"

section \<open>The repository\<close>

definition list_keys :: "db \<Rightarrow> encryption_key list" where
  "list_keys db = sort_key ek_version (encryption_keys db)"

text \<open>\<open>ON CONFLICT (key_version) DO NOTHING\<close>.\<close>

definition add_key :: "encryption_key \<Rightarrow> db \<Rightarrow> db" where
  "add_key k db =
     (if ek_version k \<in> set (map ek_version (encryption_keys db)) then db
      else db\<lparr>encryption_keys := encryption_keys db @ [k]\<rparr>)"

definition get_system_secret :: "string \<Rightarrow> db \<Rightarrow> system_secret option" where
  "get_system_secret name db = fetch_one (\<lambda>s. ss_name s = name) (system_secrets db)"

definition put_system_secret :: "system_secret \<Rightarrow> db \<Rightarrow> db" where
  "put_system_secret s db =
     db\<lparr>system_secrets := (if \<exists>x \<in> set (system_secrets db). ss_name x = ss_name s
        then update_where (\<lambda>x. ss_name x = ss_name s) (\<lambda>_. s) (system_secrets db) else system_secrets db @ [s])\<rparr>"

definition used_versions :: "db \<Rightarrow> int list" where
  "used_versions db =
     sort (remdups (map ek_version (encryption_keys db) @ map (\<lambda>r. int (cr_key_version r)) (credential_revisions db) @
       map mf_key_version (user_mfa_factors db) @ map (\<lambda>s. int (ss_key_version s)) (system_secrets db) @
       map (\<lambda>s. int (si_key_version s)) (run_secret_inputs db)))"

definition usage :: "db \<Rightarrow> encryption_usage list" where
  "usage db =
     map (\<lambda>v. \<lparr>eu_key_version = v,
       eu_credential_count = length (filter (\<lambda>r. int (cr_key_version r) = v) (credential_revisions db)),
       eu_mfa_count = length (filter (\<lambda>m. mf_key_version m = v) (user_mfa_factors db)),
       eu_system_count = length (filter (\<lambda>s. int (ss_key_version s) = v) (system_secrets db)),
       eu_run_secret_count = length (filter (\<lambda>s. int (si_key_version s) = v) (run_secret_inputs db))\<rparr>)
     (used_versions db)"

text \<open>The unique index \<open>uq_key_rotation_jobs_active\<close> allows one job that is not finished.\<close>

definition job_active :: "rotation_job \<Rightarrow> bool" where
  "job_active j \<longleftrightarrow> kj_state j = KR_PENDING \<or> kj_state j = KR_RUNNING"

definition create_rotation_job :: "rotation_job \<Rightarrow> rotation_job ops_tx" where
  "create_rotation_job j db =
     (if \<exists>x \<in> set (key_rotation_jobs db). kj_id x = kj_id j \<or> (job_active x \<and> job_active j)
      then Inl KeyRotationInProgressError
      else Inr (j, db\<lparr>key_rotation_jobs := key_rotation_jobs db @ [j]\<rparr>))"

definition latest_rotation_job :: "db \<Rightarrow> rotation_job option" where
  "latest_rotation_job db =
     (case rev (sort_key (\<lambda>j. (kj_created_at j, kj_id j)) (key_rotation_jobs db)) of [] \<Rightarrow> None | j # _ \<Rightarrow> Some j)"

definition claimable :: "timestamp \<Rightarrow> rotation_job \<Rightarrow> bool" where
  "claimable now j \<longleftrightarrow> kj_state j = KR_PENDING \<or>
     (kj_state j = KR_RUNNING \<and> (case kj_lease_expires_at j of None \<Rightarrow> False | Some t \<Rightarrow> t \<le> now))"

definition claimed_job :: "string \<Rightarrow> timestamp \<Rightarrow> timestamp \<Rightarrow> rotation_job \<Rightarrow> rotation_job" where
  "claimed_job worker now lease j =
     j\<lparr>kj_state := KR_RUNNING, kj_claimed_by := Some worker, kj_lease_expires_at := Some lease,
       kj_started_at := (case kj_started_at j of None \<Rightarrow> Some now | Some t \<Rightarrow> Some t), kj_updated_at := now\<rparr>"

definition claim_rotation_job ::
    "bool \<Rightarrow> string \<Rightarrow> timestamp \<Rightarrow> timestamp \<Rightarrow> db \<Rightarrow> rotation_job option \<times> db" where
  "claim_rotation_job acquired worker now lease db =
     (case sort_key (\<lambda>j. (kj_created_at j, kj_id j)) (filter (\<lambda>j. acquired \<and> claimable now j) (key_rotation_jobs db)) of
        [] \<Rightarrow> (None, db)
      | c # _ \<Rightarrow> (Some (claimed_job worker now lease c),
                  db\<lparr>key_rotation_jobs := update_where (\<lambda>j. kj_id j = kj_id c) (claimed_job worker now lease)
                       (key_rotation_jobs db)\<rparr>))"

definition credential_record :: "credential_revision \<Rightarrow> encrypted_record" where
  "credential_record r = \<lparr>er_ref = Credential_Ref (cr_credential_id r) (cr_version r),
     er_payload = cr_encrypted_secret r, er_key_version = int (cr_key_version r)\<rparr>"

definition mfa_record :: "mfa_factor \<Rightarrow> encrypted_record" where
  "mfa_record m = \<lparr>er_ref = Mfa_Ref (mf_user_id m), er_payload = mf_encrypted_totp_secret m, er_key_version = mf_key_version m\<rparr>"

definition system_record :: "system_secret \<Rightarrow> encrypted_record" where
  "system_record s = \<lparr>er_ref = System_Ref (ss_name s), er_payload = ss_encrypted_secret s, er_key_version = int (ss_key_version s)\<rparr>"

definition run_record :: "secret_input \<Rightarrow> encrypted_record" where
  "run_record s = \<lparr>er_ref = Run_Ref (si_run_id s), er_payload = si_encrypted_payload s, er_key_version = int (si_key_version s)\<rparr>"

text \<open>One of the four queries: rows under another key in the order of their key, locked rows skipped.\<close>

definition batch_rows ::
    "(record_ref \<Rightarrow> bool) \<Rightarrow> int \<Rightarrow> nat \<Rightarrow> ('r \<Rightarrow> 'k::linorder) \<Rightarrow> ('r \<Rightarrow> encrypted_record) \<Rightarrow> 'r list \<Rightarrow> encrypted_record list" where
  "batch_rows locked target limit key f rows =
     take limit (map f (sort_key key
       (filter (\<lambda>r. er_key_version (f r) \<noteq> target \<and> \<not> locked (er_ref (f r))) rows)))"

definition load_rotation_batch :: "(record_ref \<Rightarrow> bool) \<Rightarrow> int \<Rightarrow> nat \<Rightarrow> db \<Rightarrow> encrypted_record list" where
  "load_rotation_batch locked target limit db =
     (case batch_rows locked target limit (\<lambda>r. (cr_credential_id r, cr_version r)) credential_record (credential_revisions db) of
        x # xs \<Rightarrow> x # xs
      | [] \<Rightarrow>
         (case batch_rows locked target limit mf_user_id mfa_record (user_mfa_factors db) of
            x # xs \<Rightarrow> x # xs
          | [] \<Rightarrow>
             (case batch_rows locked target limit ss_name system_record (system_secrets db) of
                x # xs \<Rightarrow> x # xs
              | [] \<Rightarrow> batch_rows locked target limit si_run_id run_record (run_secret_inputs db))))"

fun store_record :: "int \<Rightarrow> timestamp \<Rightarrow> record_ref \<Rightarrow> bytes \<Rightarrow> db \<Rightarrow> db" where
  "store_record v now (Credential_Ref i n) payload db =
     db\<lparr>credential_revisions := update_where (\<lambda>r. cr_credential_id r = i \<and> cr_version r = n)
          (\<lambda>r. r\<lparr>cr_encrypted_secret := payload, cr_key_version := nat v, cr_updated_at := now\<rparr>) (credential_revisions db)\<rparr>"
| "store_record v now (Mfa_Ref u) payload db =
     db\<lparr>user_mfa_factors := update_where (\<lambda>m. mf_user_id m = u)
          (\<lambda>m. m\<lparr>mf_encrypted_totp_secret := payload, mf_key_version := v, mf_updated_at := now\<rparr>) (user_mfa_factors db)\<rparr>"
| "store_record v now (System_Ref name) payload db =
     db\<lparr>system_secrets := update_where (\<lambda>s. ss_name s = name)
          (\<lambda>s. s\<lparr>ss_encrypted_secret := payload, ss_key_version := nat v, ss_updated_at := now\<rparr>) (system_secrets db)\<rparr>"
| "store_record v now (Run_Ref i) payload db =
     db\<lparr>run_secret_inputs := update_where (\<lambda>s. si_run_id s = i)
          (\<lambda>s. s\<lparr>si_encrypted_payload := payload, si_key_version := nat v\<rparr>) (run_secret_inputs db)\<rparr>"

definition update_rotation_batch :: "encrypted_record list \<Rightarrow> int \<Rightarrow> timestamp \<Rightarrow> unit ops_tx" where
  "update_rotation_batch records v now db =
     (case records of
        [] \<Rightarrow> Inr ((), db)
      | r # _ \<Rightarrow>
          if \<exists>x \<in> set records. kind_of (er_ref x) \<noteq> kind_of (er_ref r)
          then Inl (ValueErr ''rotation batches must contain one record kind'')
          else Inr ((), fold (\<lambda>x. store_record v now (er_ref x) (er_payload x)) records db))"

definition settled_job ::
    "key_rotation_state \<Rightarrow> nat \<Rightarrow> nat \<Rightarrow> timestamp \<Rightarrow> timestamp option \<Rightarrow> string option \<Rightarrow> rotation_job \<Rightarrow> rotation_job" where
  "settled_job state increment remaining now lease err j =
     j\<lparr>kj_state := state, kj_processed_count := kj_processed_count j + increment, kj_remaining_count := Some remaining,
       kj_lease_expires_at := lease, kj_claimed_by := (if state = KR_RUNNING then kj_claimed_by j else None),
       kj_error_code := err, kj_finished_at := (if state \<in> {KR_SUCCEEDED, KR_FAILED} then Some now else None),
       kj_updated_at := now\<rparr>"

definition update_rotation_job ::
    "uuid \<Rightarrow> key_rotation_state \<Rightarrow> nat \<Rightarrow> nat \<Rightarrow> timestamp \<Rightarrow> timestamp option \<Rightarrow> string option \<Rightarrow> unit ops_tx" where
  "update_rotation_job job_id state increment remaining now lease err db =
     (if state \<in> {KR_PENDING, KR_RUNNING} \<and> (\<exists>j \<in> set (key_rotation_jobs db). kj_id j = job_id) \<and>
         (\<exists>j \<in> set (key_rotation_jobs db). kj_id j \<noteq> job_id \<and> job_active j)
      then Inl (UniqueViolation ''key_rotation_jobs'')
      else Inr ((), db\<lparr>key_rotation_jobs := update_where (\<lambda>j. kj_id j = job_id)
             (settled_job state increment remaining now lease err) (key_rotation_jobs db)\<rparr>))"

section \<open>The service\<close>

record encryption_service =
  es_gcm :: aes_gcm
  es_codec :: text_codec
  es_keyring :: keyring
  es_source :: audit_source

text \<open>The check of an installation that predates the registry; \<open>bool\<close> is a subclass of \<open>int\<close>.\<close>

definition legacy_version :: "json option \<Rightarrow> int option" where
  "legacy_version v = (case v of Some (JInt i) \<Rightarrow> Some i | Some (JBool b) \<Rightarrow> Some (if b then 1 else 0) | _ \<Rightarrow> None)"

definition check_legacy :: "encryption_service \<Rightarrow> jobj \<Rightarrow> ops_error + unit" where
  "check_legacy svc legacy =
     (case (legacy_version (map_of legacy ''version''), map_of legacy ''envelope'') of
        (Some version, Some (JStr encoded)) \<Rightarrow>
          if \<not> has_version (es_keyring svc) version then Inl (KeyVersionMissingError [version])
          else (case std_b64decode encoded of
                  None \<Rightarrow> Inl (ValueErr ''legacy master-key check metadata is invalid'')
                | Some envelope \<Rightarrow> validate_legacy_check (es_gcm svc) (es_keyring svc) version envelope)
      | _ \<Rightarrow> Inl (ValueErr ''legacy master-key check metadata is invalid''))"

fun register_keys ::
    "encryption_service \<Rightarrow> env \<Rightarrow> (int \<Rightarrow> bytes) \<Rightarrow> (int \<times> encryption_key) list \<Rightarrow> int list \<Rightarrow> int list ops_tx" where
  "register_keys svc env nonces registered [] = tx_return []"
| "register_keys svc env nonces registered (v # vs) =
     (case map_of registered v of
        None \<Rightarrow>
          tx_bind (tx_check (encrypt_check (es_gcm svc) (nonces v) (es_keyring svc) v)) (\<lambda>envelope.
          tx_then (tx_write (add_key \<lparr>ek_version = v, ek_envelope = envelope, ek_registered_at = e_now env, ek_retired_at = None\<rparr>))
         (tx_bind (register_keys svc env nonces registered vs) (\<lambda>emitted. tx_return (v # emitted))))
      | Some k \<Rightarrow>
          tx_then (tx_check (validate_check (es_gcm svc) (es_keyring svc) v (ek_envelope k)))
            (register_keys svc env nonces registered vs))"

definition missing_versions :: "encryption_service \<Rightarrow> encryption_usage list \<Rightarrow> int list" where
  "missing_versions svc us =
     sort (map eu_key_version (filter (\<lambda>u. 0 < total_count u \<and> \<not> has_version (es_keyring svc) (eu_key_version u)) us))"

definition ensure_keyring ::
    "encryption_service \<Rightarrow> env \<Rightarrow> (int \<Rightarrow> bytes) \<Rightarrow> bytes \<Rightarrow> bytes \<Rightarrow> db \<Rightarrow> (ops_error + unit) \<times> db" where
  "ensure_keyring svc env nonces pepper_nonce pepper =
     unit_of_work
      (tx_bind (tx_read list_keys) (\<lambda>keys.
       tx_then (if keys = []
                then tx_bind (\<lambda>db. tx_check (get_setting ''encryption.master-key-check'' db) db) (\<lambda>legacy.
                     case legacy of None \<Rightarrow> tx_return () | Some d \<Rightarrow> tx_check (check_legacy svc d))
                else tx_return ())
      (tx_bind (register_keys svc env nonces (map (\<lambda>k. (ek_version k, k)) keys) (key_versions (es_keyring svc))) (\<lambda>emitted.
       tx_bind (tx_read usage) (\<lambda>us.
       tx_then (tx_guard (missing_versions svc us = []) (KeyVersionMissingError (missing_versions svc us)))
      (tx_bind (tx_read (get_system_secret IDEMPOTENCY_SECRET_NAME)) (\<lambda>found.
       tx_then (case found of
                  Some _ \<Rightarrow> tx_return ()
                | None \<Rightarrow>
                    tx_bind (tx_check (encrypt_bytes (es_gcm svc) pepper_nonce (es_keyring svc) ''system-secret''
                               IDEMPOTENCY_SECRET_NAME pepper None)) (\<lambda>(envelope, version).
                      tx_write (put_system_secret \<lparr>ss_name = IDEMPOTENCY_SECRET_NAME, ss_encrypted_secret = envelope,
                         ss_key_version = nat version, ss_updated_at = e_now env\<rparr>)))
         (tx_write (fold (\<lambda>_. audit_append env MASTER_KEY_REGISTERED AO_SUCCEEDED SRC_SYSTEM no_details) emitted)))))))))"

definition remaining_records :: "int \<Rightarrow> db \<Rightarrow> nat" where
  "remaining_records target db = sum_list (map total_count (filter (\<lambda>u. eu_key_version u \<noteq> target) (usage db)))"

definition keyring_status ::
    "encryption_service \<Rightarrow> session_principal \<Rightarrow> db \<Rightarrow>
     ops_error + (int \<times> int list \<times> encryption_usage list \<times> rotation_job option)" where
  "keyring_status svc actor db =
     (if \<not> permitted actor KEY_ROTATE then Inl PermissionDeniedError
      else Inr (kr_primary_version (es_keyring svc), key_versions (es_keyring svc), usage db, latest_rotation_job db))"

definition request_rotation ::
    "encryption_service \<Rightarrow> env \<Rightarrow> uuid \<Rightarrow> session_principal \<Rightarrow> db \<Rightarrow> (ops_error + rotation_job) \<times> db" where
  "request_rotation svc env job_id actor =
     (let who = \<lparr>ca_actor_user_id = Some (sp_user_id actor), ca_session_id = Some (sp_session_id actor), ca_actor = Some actor\<rparr>;
          target = kr_primary_version (es_keyring svc)
      in unit_of_work
        (tx_then (tx_check (allowed who KEY_ROTATE))
        (tx_then (tx_check (recently env who))
        (tx_bind (tx_read (remaining_records target)) (\<lambda>remaining.
         tx_bind (create_rotation_job \<lparr>kj_id = job_id, kj_target_key_version = target, kj_state = KR_PENDING,
            kj_requested_by = sp_user_id actor, kj_claimed_by = None, kj_lease_expires_at = None, kj_processed_count = 0,
            kj_remaining_count = Some remaining, kj_error_code = None, kj_created_at = e_now env, kj_started_at = None,
            kj_finished_at = None, kj_updated_at = e_now env\<rparr>) (\<lambda>job.
         tx_then (ops_audit env (es_source svc) who MASTER_KEY_ROTATION_REQUESTED ''key_rotation_job'' job_id)
           (tx_return job)))))))"

fun purpose_subject :: "record_ref \<Rightarrow> string \<times> string" where
  "purpose_subject (Mfa_Ref u) = (''totp'', uuid_str u)"
| "purpose_subject (System_Ref name) = (''system-secret'', name)"
| "purpose_subject (Run_Ref i) = (''run-parameters'', uuid_str i)"
| "purpose_subject (Credential_Ref i n) = ([], [])"

definition reencrypt ::
    "encryption_service \<Rightarrow> bytes \<Rightarrow> int \<Rightarrow> encrypted_record \<Rightarrow> ops_error + encrypted_record" where
  "reencrypt svc nonce target r =
     (let kr = es_keyring svc; gcm = es_gcm svc in
      case (case er_ref r of
              Credential_Ref i n \<Rightarrow>
                (case cipher_decrypt gcm (es_codec svc) kr i n (er_payload r) (nat (er_key_version r)) of
                   Inl e \<Rightarrow> Inl e | Inr secret \<Rightarrow> cipher_encrypt gcm nonce kr i n secret)
            | _ \<Rightarrow>
                (case purpose_subject (er_ref r) of (purpose, subject) \<Rightarrow>
                   (case decrypt_bytes gcm kr purpose subject (er_payload r) (er_key_version r) of
                      Inl e \<Rightarrow> Inl e
                    | Inr plain \<Rightarrow>
                        (case encrypt_bytes gcm nonce kr purpose subject plain (Some target) of
                           Inl e \<Rightarrow> Inl e | Inr (envelope, _) \<Rightarrow> Inr envelope)))) of
        Inl e \<Rightarrow> Inl e
      | Inr envelope \<Rightarrow> Inr (r\<lparr>er_payload := envelope, er_key_version := target\<rparr>))"

fun reencrypt_all ::
    "encryption_service \<Rightarrow> (nat \<Rightarrow> bytes) \<Rightarrow> int \<Rightarrow> nat \<Rightarrow> encrypted_record list \<Rightarrow> ops_error + encrypted_record list" where
  "reencrypt_all svc nonces target k [] = Inr []"
| "reencrypt_all svc nonces target k (r # rs) =
     (case reencrypt svc (nonces k) target r of
        Inl e \<Rightarrow> Inl e
      | Inr r' \<Rightarrow>
          (case reencrypt_all svc nonces target (k + 1) rs of Inl e \<Rightarrow> Inl e | Inr rs' \<Rightarrow> Inr (r' # rs')))"

definition rotation_audit :: "env \<Rightarrow> string \<Rightarrow> audit_action \<Rightarrow> audit_outcome \<Rightarrow> uuid \<Rightarrow> audit_details \<Rightarrow> db \<Rightarrow> db" where
  "rotation_audit env worker act outcome job_id d =
     audit_append env act outcome SRC_WORKER (d\<lparr>ad_worker_id := Some worker,
       ad_resource_type := Some ''key_rotation_job'', ad_resource_id := Some job_id\<rparr>)"

definition rotate_batch ::
    "encryption_service \<Rightarrow> env \<Rightarrow> (record_ref \<Rightarrow> bool) \<Rightarrow> (nat \<Rightarrow> bytes) \<Rightarrow> string \<Rightarrow> rotation_job \<Rightarrow> bool ops_tx" where
  "rotate_batch svc env locked nonces worker job =
     (let target = kj_target_key_version job in
      tx_then (tx_guard (target = kr_primary_version (es_keyring svc)) (KeyVersionMissingError [target]))
     (tx_bind (tx_read (load_rotation_batch locked target ROTATION_BATCH_SIZE)) (\<lambda>batch.
      tx_bind (tx_check (reencrypt_all svc nonces target 0 batch)) (\<lambda>rotated.
      tx_then (update_rotation_batch rotated target (e_now env))
     (tx_bind (tx_read (remaining_records target)) (\<lambda>remaining.
      tx_then (update_rotation_job (kj_id job) (if remaining = 0 then KR_SUCCEEDED else KR_PENDING)
                 (length rotated) remaining (e_now env) None None)
     (tx_then (tx_write (rotation_audit env worker
                 (if remaining = 0 then MASTER_KEY_ROTATION_SUCCEEDED else MASTER_KEY_ROTATION_BATCH_COMPLETED)
                 AO_SUCCEEDED (kj_id job) no_details))
        (tx_return True))))))))"

text \<open>
  A batch that fails is rolled back with its claim; the job is then marked as failed in a transaction
  of its own, and the error goes on.
\<close>

definition process_rotation_batch ::
    "encryption_service \<Rightarrow> env \<Rightarrow> bool \<Rightarrow> (record_ref \<Rightarrow> bool) \<Rightarrow> (nat \<Rightarrow> bytes) \<Rightarrow> string \<Rightarrow> db \<Rightarrow> (ops_error + bool) \<times> db" where
  "process_rotation_batch svc env acquired locked nonces worker db =
     (case claim_rotation_job acquired worker (e_now env) (e_now env + ROTATION_LEASE) db of
        (None, db1) \<Rightarrow> (Inr False, db1)
      | (Some job, db1) \<Rightarrow>
          (case rotate_batch svc env locked nonces worker job db1 of
             Inr (r, db2) \<Rightarrow> (Inr r, db2)
           | Inl e \<Rightarrow>
               (case unit_of_work (update_rotation_job (kj_id job) KR_FAILED 0
                       (remaining_records (kj_target_key_version job) db) (e_now env) None (Some ''key_rotation_failed'')) db of
                  (Inl e2, db2) \<Rightarrow> (Inl e2, db2)
                | (Inr _, db2) \<Rightarrow>
                    (Inl e, rotation_audit env worker MASTER_KEY_ROTATION_FAILED AO_FAILED (kj_id job)
                       (no_details\<lparr>ad_severity := SEV_ERROR, ad_error_code := Some ''key_rotation_failed'',
                          ad_retryable := Some True\<rparr>) db2))))"

end
