(* ===== verification/Rotation_Properties.thy ===== *)
theory Rotation_Properties
  imports Key_Rotation Secret_Payloads "HOL-Library.Multiset"
begin

text \<open>
  Rotating the master key: the four encrypted tables as one list of envelopes, on which a batch
  replaces some; every batch keeps what each envelope opens to, and repeated batches finish the job with
  every envelope under the new key.
\<close>

section \<open>The envelopes of the database\<close>

definition envelopes :: "db \<Rightarrow> encrypted_record list" where
  "envelopes db = map credential_record (credential_revisions db) @ map mfa_record (user_mfa_factors db) @
     map system_record (system_secrets db) @ map run_record (run_secret_inputs db)"

definition replaced :: "int \<Rightarrow> record_ref \<Rightarrow> bytes \<Rightarrow> encrypted_record \<Rightarrow> encrypted_record" where
  "replaced v ref payload e = (if er_ref e = ref then \<lparr>er_ref = ref, er_payload = payload, er_key_version = v\<rparr> else e)"

lemmas record_defs = credential_record_def mfa_record_def system_record_def run_record_def

lemma er_ref_replaced [simp]: "er_ref (replaced v ref payload e) = er_ref e"
  by (simp add: replaced_def)

lemma envelopes_store:
  assumes "0 \<le> v"
  shows "envelopes (store_record v now ref payload db) = map (replaced v ref payload) (envelopes db)"
proof (cases ref)
  case (Credential_Ref i n)
  then show ?thesis using assms by (auto simp: envelopes_def record_defs replaced_def update_where_def)
next
  case (Mfa_Ref u)
  then show ?thesis by (auto simp: envelopes_def record_defs replaced_def update_where_def)
next
  case (System_Ref name)
  then show ?thesis using assms by (auto simp: envelopes_def record_defs replaced_def update_where_def)
next
  case (Run_Ref i)
  then show ?thesis using assms by (auto simp: envelopes_def record_defs replaced_def update_where_def)
qed

definition replace_all_records :: "int \<Rightarrow> encrypted_record list \<Rightarrow> encrypted_record \<Rightarrow> encrypted_record" where
  "replace_all_records v rs e = fold (\<lambda>x. replaced v (er_ref x) (er_payload x)) rs e"

lemma envelopes_fold:
  assumes "0 \<le> v"
  shows "envelopes (fold (\<lambda>x. store_record v now (er_ref x) (er_payload x)) rs db) =
     map (replace_all_records v rs) (envelopes db)"
proof (induction rs arbitrary: db)
  case (Cons r rs)
  then show ?case by (simp add: replace_all_records_def envelopes_store [OF assms])
qed (simp add: replace_all_records_def [abs_def] id_def [symmetric])

lemma replace_all_ref [simp]: "er_ref (replace_all_records v rs e) = er_ref e"
proof (induction rs arbitrary: e)
  case (Cons r rs)
  then show ?case by (simp add: replace_all_records_def)
qed (simp add: replace_all_records_def)

lemma replace_all_other:
  "er_ref e \<notin> er_ref ` set rs \<Longrightarrow> replace_all_records v rs e = e"
  by (induction rs arbitrary: e) (auto simp: replace_all_records_def replaced_def)

lemma replace_all_hit:
  assumes "distinct (map er_ref rs)" and "x \<in> set rs" and "er_ref x = er_ref e"
  shows "replace_all_records v rs e = \<lparr>er_ref = er_ref x, er_payload = er_payload x, er_key_version = v\<rparr>"
  using assms
proof (induction rs arbitrary: e)
  case (Cons r rs)
  show ?case
  proof (cases "r = x")
    case True
    then have "er_ref x \<notin> er_ref ` set rs" using Cons.prems(1) by simp
    then have "replace_all_records v rs \<lparr>er_ref = er_ref x, er_payload = er_payload x, er_key_version = v\<rparr> =
        \<lparr>er_ref = er_ref x, er_payload = er_payload x, er_key_version = v\<rparr>" by (intro replace_all_other) simp
    then show ?thesis using True Cons.prems(3) by (simp add: replace_all_records_def replaced_def)
  next
    case False
    then have x: "x \<in> set rs" using Cons.prems(2) by simp
    then have "er_ref x \<in> er_ref ` set rs" by (rule imageI)
    then have "er_ref r \<noteq> er_ref e" using Cons.prems(1,3) by auto
    then show ?thesis using Cons x by (simp add: replace_all_records_def replaced_def)
  qed
qed simp

section \<open>Counting\<close>

lemma count_by_key:
  assumes "distinct vs" and "key ` set xs \<subseteq> set vs"
  shows "sum_list (map (\<lambda>w. length (filter (\<lambda>x. key x = w) xs)) (filter (\<lambda>w. w \<noteq> v) vs)) = length (filter (\<lambda>x. key x \<noteq> v) xs)"
  using assms(2)
proof (induction xs)
  case (Cons x xs)
  have "sum_list (map (\<lambda>w. length (filter (\<lambda>y. key y = w) (x # xs))) ws) =
      sum_list (map (\<lambda>w. length (filter (\<lambda>y. key y = w) xs)) ws) + length (filter (\<lambda>w. w = key x) ws)" for ws
    by (induction ws) auto
  moreover have "length (filter (\<lambda>w. w = key x) (filter (\<lambda>w. w \<noteq> v) vs)) = (if key x \<noteq> v then 1 else 0)"
  proof -
    have "length (filter (\<lambda>w. w = key x) (filter (\<lambda>w. w \<noteq> v) vs)) = card {w \<in> set vs. w \<noteq> v \<and> w = key x}"
      using distinct_card [OF distinct_filter [OF assms(1)], of "\<lambda>w. w \<noteq> v \<and> w = key x"] by (simp add: conj_commute)
    also have "{w \<in> set vs. w \<noteq> v \<and> w = key x} = (if key x \<noteq> v then {key x} else {})" using Cons.prems by auto
    finally show ?thesis by simp
  qed
  ultimately show ?case using Cons by simp
qed (simp add: sum_list_0)

lemma remaining_count: "remaining_records v db = length (filter (\<lambda>e. er_key_version e \<noteq> v) (envelopes db))"
proof -
  have "total_count (\<lparr>eu_key_version = w,
       eu_credential_count = length (filter (\<lambda>r. int (cr_key_version r) = w) (credential_revisions db)),
       eu_mfa_count = length (filter (\<lambda>m. mf_key_version m = w) (user_mfa_factors db)),
       eu_system_count = length (filter (\<lambda>s. int (ss_key_version s) = w) (system_secrets db)),
       eu_run_secret_count = length (filter (\<lambda>s. int (si_key_version s) = w) (run_secret_inputs db))\<rparr>) =
      length (filter (\<lambda>e. er_key_version e = w) (envelopes db))" for w
    by (simp add: total_count_def envelopes_def filter_map comp_def record_defs)
  then have "map total_count (filter (\<lambda>u. eu_key_version u \<noteq> v) (usage db)) =
      map (\<lambda>w. length (filter (\<lambda>e. er_key_version e = w) (envelopes db))) (filter (\<lambda>w. w \<noteq> v) (used_versions db))"
    by (simp add: usage_def filter_map comp_def)
  moreover have "er_key_version ` set (envelopes db) \<subseteq> set (used_versions db)"
    by (auto simp: envelopes_def used_versions_def record_defs)
  moreover have "distinct (used_versions db)" by (simp add: used_versions_def)
  ultimately show ?thesis using count_by_key [of "used_versions db" er_key_version "envelopes db" v]
    by (simp add: remaining_records_def)
qed

section \<open>A batch\<close>

lemma batch_rows_set:
  "e \<in> set (batch_rows locked target limit key f rows) \<Longrightarrow>
     e \<in> f ` set rows \<and> er_key_version e \<noteq> target"
  by (auto simp: batch_rows_def dest!: in_set_takeD)

lemma distinct_map_sort_key: "distinct (map g (sort_key k xs)) \<longleftrightarrow> distinct (map g xs)"
  by (simp add: distinct_map)

lemma batch_rows_distinct:
  assumes "distinct (map er_ref (map f rows))"
  shows "distinct (map er_ref (batch_rows locked target limit key f rows))"
proof -
  let ?p = "\<lambda>r. er_key_version (f r) \<noteq> target \<and> \<not> locked (er_ref (f r))"
  have "distinct (map (er_ref \<circ> f) (filter ?p rows))" using assms by (simp add: distinct_map_filter comp_assoc)
  then have "distinct (map (er_ref \<circ> f) (sort_key key (filter ?p rows)))" by (simp add: distinct_map_sort_key)
  then show ?thesis by (simp add: batch_rows_def take_map [symmetric])
qed

lemma batch_rows_Nil:
  assumes "batch_rows (\<lambda>_. False) target limit key f rows = []" and "0 < limit" and "r \<in> set rows"
  shows "er_key_version (f r) = target"
proof -
  have "sort_key key (filter (\<lambda>r. er_key_version (f r) \<noteq> target) rows) = []"
    using assms(1,2) by (simp add: batch_rows_def)
  then have "set (filter (\<lambda>r. er_key_version (f r) \<noteq> target) rows) = {}" by (metis list.set(1) set_sort)
  then show ?thesis using assms(3) by (auto simp: filter_empty_conv)
qed

lemma first_rows: "(case xs of [] \<Rightarrow> ys | z # zs \<Rightarrow> z # zs) = (if xs = [] then ys else xs)"
  by (cases xs) auto

lemma load_batch_cases:
  obtains "load_rotation_batch locked target limit db =
      batch_rows locked target limit (\<lambda>r. (cr_credential_id r, cr_version r)) credential_record (credential_revisions db)"
  | "load_rotation_batch locked target limit db = batch_rows locked target limit mf_user_id mfa_record (user_mfa_factors db)"
  | "load_rotation_batch locked target limit db = batch_rows locked target limit ss_name system_record (system_secrets db)"
  | "load_rotation_batch locked target limit db = batch_rows locked target limit si_run_id run_record (run_secret_inputs db)"
  unfolding load_rotation_batch_def first_rows by metis

lemma load_batch_set:
  assumes "e \<in> set (load_rotation_batch locked target limit db)"
  shows "e \<in> set (envelopes db) \<and> er_key_version e \<noteq> target"
  by (rule load_batch_cases [of locked target limit db]) (use assms in \<open>auto simp: envelopes_def dest!: batch_rows_set\<close>)

lemma load_batch_distinct:
  assumes "distinct (map er_ref (envelopes db))"
  shows "distinct (map er_ref (load_rotation_batch locked target limit db))"
proof -
  have "distinct (map er_ref (map credential_record (credential_revisions db)))"
    "distinct (map er_ref (map mfa_record (user_mfa_factors db)))"
    "distinct (map er_ref (map system_record (system_secrets db)))"
    "distinct (map er_ref (map run_record (run_secret_inputs db)))"
    using assms by (simp_all only: envelopes_def map_append distinct_append)
  then show ?thesis by (cases rule: load_batch_cases [of locked target limit db]) (simp_all only: batch_rows_distinct)
qed

lemma load_batch_kind:
  assumes "e \<in> set (load_rotation_batch locked target limit db)" and "e' \<in> set (load_rotation_batch locked target limit db)"
  shows "kind_of (er_ref e) = kind_of (er_ref e')"
  by (rule load_batch_cases [of locked target limit db]) (use assms in \<open>auto simp: record_defs dest!: batch_rows_set\<close>)

lemma load_batch_Nil:
  assumes "load_rotation_batch (\<lambda>_. False) target limit db = []" and "0 < limit" and "e \<in> set (envelopes db)"
  shows "er_key_version e = target"
proof -
  have "batch_rows (\<lambda>_. False) target limit (\<lambda>r. (cr_credential_id r, cr_version r)) credential_record (credential_revisions db) = []"
    "batch_rows (\<lambda>_. False) target limit mf_user_id mfa_record (user_mfa_factors db) = []"
    "batch_rows (\<lambda>_. False) target limit ss_name system_record (system_secrets db) = []"
    "batch_rows (\<lambda>_. False) target limit si_run_id run_record (run_secret_inputs db) = []"
    using assms(1) by (auto simp: load_rotation_batch_def split: list.splits)
  then show ?thesis using assms(2,3) by (auto simp: envelopes_def dest: batch_rows_Nil)
qed

section \<open>What an envelope opens to\<close>

datatype plaintext = Plain_Bytes bytes | Plain_Secret "string \<rightharpoonup> string"

definition opened_bytes :: "encryption_service \<Rightarrow> encrypted_record \<Rightarrow> ops_error + bytes" where
  "opened_bytes svc e = (case purpose_subject (er_ref e) of (purpose, subject) \<Rightarrow>
     decrypt_bytes (es_gcm svc) (es_keyring svc) purpose subject (er_payload e) (er_key_version e))"

definition opened_secret :: "encryption_service \<Rightarrow> uuid \<Rightarrow> nat \<Rightarrow> encrypted_record \<Rightarrow> ops_error + (string \<times> string) list" where
  "opened_secret svc i n e =
     cipher_decrypt (es_gcm svc) (es_codec svc) (es_keyring svc) i n (er_payload e) (nat (er_key_version e))"

definition open_record :: "encryption_service \<Rightarrow> encrypted_record \<Rightarrow> plaintext option" where
  "open_record svc e =
     (case er_ref e of
        Credential_Ref i n \<Rightarrow> (case opened_secret svc i n e of Inl _ \<Rightarrow> None | Inr s \<Rightarrow> Some (Plain_Secret (map_of s)))
      | _ \<Rightarrow> (case opened_bytes svc e of Inl _ \<Rightarrow> None | Inr p \<Rightarrow> Some (Plain_Bytes p)))"

text \<open>The abstract state a rotation must not change: every secret by its place.\<close>

definition secrets_of :: "encryption_service \<Rightarrow> db \<Rightarrow> (record_ref \<times> plaintext option) list" where
  "secrets_of svc db = map (\<lambda>e. (er_ref e, open_record svc e)) (envelopes db)"

text \<open>
  What opens can be written again: a secret is a dictionary (its keys differ) that survives its own
  JSON text, and a plaintext is not empty.
\<close>

definition faithful :: "encryption_service \<Rightarrow> encrypted_record \<Rightarrow> bool" where
  "faithful svc e =
     (case er_ref e of
        Credential_Ref i n \<Rightarrow> (case opened_secret svc i n e of Inl _ \<Rightarrow> True
           | Inr s \<Rightarrow> distinct (map fst s) \<and> reads_secret (es_codec svc) s)
      | _ \<Rightarrow> opened_bytes svc e \<noteq> Inr [])"

definition unrotated :: "encryption_service \<Rightarrow> db \<Rightarrow> encrypted_record list" where
  "unrotated svc db = filter (\<lambda>e. er_key_version e \<noteq> kr_primary_version (es_keyring svc)) (envelopes db)"

definition service_ok :: "encryption_service \<Rightarrow> (nat \<Rightarrow> bytes) \<Rightarrow> bool" where
  "service_ok svc nonces \<longleftrightarrow> gcm_ok (es_gcm svc) \<and> (\<forall>k. length (nonces k) = 12) \<and> 1 \<le> kr_primary_version (es_keyring svc)"

lemma reencrypt_InrD:
  "reencrypt svc nonce target r = Inr r' \<Longrightarrow> er_ref r' = er_ref r \<and> er_key_version r' = target"
  by (auto simp: reencrypt_def Let_def split: sum.splits record_ref.splits)

lemma reencrypt_opens:
  assumes "reencrypt svc nonce (kr_primary_version (es_keyring svc)) r = Inr r'" and "faithful svc r"
    and "gcm_ok (es_gcm svc)" and "length nonce = 12" and "1 \<le> kr_primary_version (es_keyring svc)"
  shows "open_record svc r' = open_record svc r"
proof (cases "\<exists>i n. er_ref r = Credential_Ref i n")
  case True
  then obtain i n where ref: "er_ref r = Credential_Ref i n" by blast
  then obtain s envelope where s: "opened_secret svc i n r = Inr s"
    "cipher_encrypt (es_gcm svc) nonce (es_keyring svc) i n s = Inr envelope"
    "r' = r\<lparr>er_payload := envelope, er_key_version := kr_primary_version (es_keyring svc)\<rparr>"
    using assms(1) by (auto simp: reencrypt_def opened_secret_def Let_def split: sum.splits)
  then have "distinct (map fst s)" "reads_secret (es_codec svc) s" using assms(2) ref by (simp_all add: faithful_def)
  from cipher_roundtrip [OF assms(3-5) this s(2)] show ?thesis
    using ref s by (auto simp: open_record_def opened_secret_def)
next
  case False
  obtain purpose subject where ps: "purpose_subject (er_ref r) = (purpose, subject)" by fastforce
  obtain plain envelope version where p: "opened_bytes svc r = Inr plain"
    "encrypt_bytes (es_gcm svc) nonce (es_keyring svc) purpose subject plain (Some (kr_primary_version (es_keyring svc))) = Inr (envelope, version)"
    "r' = r\<lparr>er_payload := envelope, er_key_version := kr_primary_version (es_keyring svc)\<rparr>"
    using assms(1) False ps by (auto simp: reencrypt_def opened_bytes_def Let_def split: sum.splits record_ref.splits)
  have "version = kr_primary_version (es_keyring svc)"
    using p(2) by (auto simp: encrypt_bytes_def encrypt_with_aad_def chosen_version_def Let_def split: sum.splits option.splits if_splits)
  moreover have "plain \<noteq> []" using assms(2) False p(1) by (auto simp: faithful_def split: record_ref.splits)
  ultimately have "decrypt_bytes (es_gcm svc) (es_keyring svc) purpose subject envelope (kr_primary_version (es_keyring svc)) = Inr plain"
    using decrypt_encrypted [OF assms(3,4) _ p(2)] by simp
  then show ?thesis using False p(1,3) ps by (auto simp: open_record_def opened_bytes_def split: record_ref.splits)
qed

lemma reencrypt_all_InrD:
  "reencrypt_all svc nonces target k rs = Inr rs' \<Longrightarrow> list_all2 (\<lambda>r r'. \<exists>k. reencrypt svc (nonces k) target r = Inr r') rs rs'"
  by (induction rs arbitrary: k rs') (auto split: sum.splits)

lemma reencrypt_all_Inr:
  "(\<And>r nonce. r \<in> set rs \<Longrightarrow> \<exists>r'. reencrypt svc nonce target r = Inr r') \<Longrightarrow> \<exists>rs'. reencrypt_all svc nonces target k rs = Inr rs'"
proof (induction rs arbitrary: k)
  case (Cons r rs)
  obtain r' where "reencrypt svc (nonces k) target r = Inr r'" using Cons.prems by fastforce
  moreover obtain rs' where "reencrypt_all svc nonces target (k + 1) rs = Inr rs'" using Cons by fastforce
  ultimately show ?case by simp
qed simp

section \<open>The effect of a batch\<close>

lemma envelopes_cong:
  "credential_revisions db' = credential_revisions db \<Longrightarrow> user_mfa_factors db' = user_mfa_factors db \<Longrightarrow>
   system_secrets db' = system_secrets db \<Longrightarrow> run_secret_inputs db' = run_secret_inputs db \<Longrightarrow> envelopes db' = envelopes db"
  by (simp add: envelopes_def)

lemma envelopes_simps [simp]:
  "envelopes (rotation_audit env worker act outcome job d db) = envelopes db"
  "envelopes (db\<lparr>key_rotation_jobs := js\<rparr>) = envelopes db"
  by (simp_all add: envelopes_def rotation_audit_def)

lemma jobs_simps [simp]:
  "key_rotation_jobs (rotation_audit env worker act outcome job d db) = key_rotation_jobs db"
  by (simp add: rotation_audit_def)

lemma jobs_store [simp]: "key_rotation_jobs (store_record v now ref payload db) = key_rotation_jobs db"
  by (cases ref) simp_all

lemma jobs_stores [simp]:
  "key_rotation_jobs (fold (\<lambda>x. store_record v now (er_ref x) (er_payload x)) rs db) = key_rotation_jobs db"
  by (induction rs arbitrary: db) simp_all

text \<open>Where \<open>rotated\<close> re-encrypts some of the envelopes, storing it replaces each by its re-encryption.\<close>

definition rewritten :: "encryption_service \<Rightarrow> (nat \<Rightarrow> bytes) \<Rightarrow> int \<Rightarrow> encrypted_record \<Rightarrow> encrypted_record \<Rightarrow> bool" where
  "rewritten svc nonces target e e' \<longleftrightarrow> (\<exists>k. reencrypt svc (nonces k) target e = Inr e')"

lemma stored_envelope:
  assumes "list_all2 (rewritten svc nonces target) batch rotated" and "set batch \<subseteq> set es"
    and "distinct (map er_ref es)" and "distinct (map er_ref batch)" and "e \<in> set es"
  shows "if e \<in> set batch then rewritten svc nonces target e (replace_all_records target rotated e)
     else replace_all_records target rotated e = e"
proof -
  have refs: "map er_ref rotated = map er_ref batch"
    using assms(1) by (induction rule: list_all2_induct) (auto simp: rewritten_def dest: reencrypt_InrD)
  show ?thesis
  proof (cases "e \<in> set batch")
    case True
    then obtain x where x: "x \<in> set rotated" "rewritten svc nonces target e x"
      using assms(1) by (metis in_set_conv_nth list_all2_conv_all_nth)
    then have "er_ref x = er_ref e" "er_key_version x = target" by (auto simp: rewritten_def dest: reencrypt_InrD)
    moreover from this have "replace_all_records target rotated e = x"
      using replace_all_hit [of rotated x e target] x(1) assms(4) refs by simp
    ultimately show ?thesis using True x(2) by simp
  next
    case False
    have "er_ref b \<noteq> er_ref e" if "b \<in> set batch" for b
      using row_by_key [OF assms(3), of b e] that False assms(2,5) by blast
    then have "er_ref e \<notin> er_ref ` set batch" by (metis imageE)
    then have "er_ref e \<notin> er_ref ` set rotated" using refs by (metis list.set_map)
    then show ?thesis using False replace_all_other by simp
  qed
qed

lemma rotate_batch_effect:
  assumes "rotate_batch svc env locked nonces worker job db = Inr (r, db')" and "0 \<le> kj_target_key_version job"
  shows "kj_target_key_version job = kr_primary_version (es_keyring svc) \<and>
    (\<exists>rotated. list_all2 (rewritten svc nonces (kj_target_key_version job))
        (load_rotation_batch locked (kj_target_key_version job) ROTATION_BATCH_SIZE db) rotated \<and>
      envelopes db' = map (replace_all_records (kj_target_key_version job) rotated) (envelopes db))"
proof -
  let ?v = "kj_target_key_version job"
  obtain rotated db1 db2 where steps: "?v = kr_primary_version (es_keyring svc)"
      "reencrypt_all svc nonces ?v 0 (load_rotation_batch locked ?v ROTATION_BATCH_SIZE db) = Inr rotated"
      "update_rotation_batch rotated ?v (e_now env) db = Inr ((), db1)" "envelopes db2 = envelopes db1" "envelopes db' = envelopes db2"
    using assms(1) by (auto simp: rotate_batch_def Let_def tx_Inr_iff update_rotation_job_def split: if_splits)
  have "envelopes db1 = map (replace_all_records ?v rotated) (envelopes db)"
    using steps(3) envelopes_fold [OF assms(2), of "e_now env" rotated db]
    by (cases rotated) (auto simp: update_rotation_batch_def replace_all_records_def [abs_def] id_def [symmetric] split: if_splits)
  then show ?thesis using steps reencrypt_all_InrD [OF steps(2)] by (auto simp: rewritten_def [abs_def])
qed

lemma rotate_batch_secrets:
  assumes "rotate_batch svc env locked nonces worker job db = Inr (r, db')" and "service_ok svc nonces"
    and "distinct (map er_ref (envelopes db))" and "\<forall>e \<in> set (unrotated svc db). faithful svc e"
  shows "secrets_of svc db' = secrets_of svc db"
proof -
  let ?v = "kj_target_key_version job"
  let ?batch = "load_rotation_batch locked ?v ROTATION_BATCH_SIZE db"
  have primary: "?v = kr_primary_version (es_keyring svc)"
    using assms(1) by (auto simp: rotate_batch_def Let_def tx_Inr_iff)
  then have "0 \<le> ?v" using assms(2) by (simp add: service_ok_def)
  from rotate_batch_effect [OF assms(1) this] obtain rotated where
    rotated: "list_all2 (rewritten svc nonces ?v) ?batch rotated" "envelopes db' = map (replace_all_records ?v rotated) (envelopes db)" by blast
  have sub: "set ?batch \<subseteq> set (envelopes db)" using load_batch_set by blast
  note stored = stored_envelope [OF rotated(1) sub assms(3) load_batch_distinct [OF assms(3)]]
  have "open_record svc (replace_all_records ?v rotated e) = open_record svc e" if e: "e \<in> set (envelopes db)" for e
  proof (cases "e \<in> set ?batch")
    case True
    have "rewritten svc nonces ?v e (replace_all_records ?v rotated e)" using stored [OF e] True by simp
    moreover have "e \<in> set (unrotated svc db)" using load_batch_set [OF True] primary by (simp add: unrotated_def)
    ultimately show ?thesis using reencrypt_opens assms(2,4) primary by (fastforce simp: rewritten_def service_ok_def)
  next
    case False
    then show ?thesis using stored [OF e] by simp
  qed
  then show ?thesis using rotated(2) by (simp add: secrets_of_def)
qed

lemma claim_envelopes:
  "claim_rotation_job acquired worker now lease db = (found, db') \<Longrightarrow> envelopes db' = envelopes db"
  by (auto simp: claim_rotation_job_def split: list.splits)

text \<open>
  C13: Rotating the master key changes no secret: after a call of \<open>process_rotation_batch\<close>, taken as one step, whether it
  succeeded, failed and marked the job, or found nothing to do, and whichever rows other transactions
  held locked, every credential revision, MFA secret, system secret and run secret opens to what it
  opened to before. The call relies on a cipher that decrypts what it encrypted, with nonces of twelve bytes, on
  envelopes with distinct primary keys, and on secrets still to be rotated whose stored form the service reproduces:
  objects without repeated keys whose JSON text parses back, and no empty text.
\<close>

theorem rotation_keeps_secrets:
  assumes "service_ok svc nonces" and "distinct (map er_ref (envelopes db))" and "\<forall>e \<in> set (unrotated svc db). faithful svc e"
  shows "secrets_of svc (snd (process_rotation_batch svc env acquired locked nonces worker db)) = secrets_of svc db"
proof (cases "claim_rotation_job acquired worker (e_now env) (e_now env + ROTATION_LEASE) db")
  case (Pair found db1)
  note same = claim_envelopes [OF Pair]
  show ?thesis
  proof (cases found)
    case None
    then show ?thesis using Pair same by (simp add: process_rotation_batch_def secrets_of_def)
  next
    case (Some job)
    show ?thesis
    proof (cases "rotate_batch svc env locked nonces worker job db1")
      case (Inr x)
      obtain r db2 where x: "x = (r, db2)" by fastforce
      have "unrotated svc db1 = unrotated svc db" using same by (simp add: unrotated_def)
      then have "secrets_of svc db2 = secrets_of svc db1" using rotate_batch_secrets Inr x assms same by metis
      then show ?thesis using Pair Some Inr x same by (simp add: process_rotation_batch_def secrets_of_def)
    next
      case (Inl e)
      then show ?thesis using Pair Some same
        by (auto simp: process_rotation_batch_def secrets_of_def unit_of_work_def update_rotation_job_def split: sum.splits prod.splits if_splits)
    qed
  qed
qed

section \<open>A rotation ends\<close>

lemma reencrypt_Inr:
  assumes "open_record svc r \<noteq> None" and "has_version (es_keyring svc) (kr_primary_version (es_keyring svc))"
  shows "\<exists>r'. reencrypt svc nonce (kr_primary_version (es_keyring svc)) r = Inr r'"
proof -
  obtain key where key: "map_of (kr_keys (es_keyring svc)) (kr_primary_version (es_keyring svc)) = Some key"
    using assms(2) by (auto simp: has_version_def map_of_eq_None_iff image_iff dest!: weak_map_of_SomeI split: option.splits)
  have chosen: "chosen_version (es_keyring svc) (Some (kr_primary_version (es_keyring svc))) = kr_primary_version (es_keyring svc)"
    "chosen_version (es_keyring svc) None = kr_primary_version (es_keyring svc)" by (simp_all add: chosen_version_def)
  show ?thesis
    using assms(1) key chosen
    by (auto simp: open_record_def opened_secret_def opened_bytes_def reencrypt_def Let_def cipher_encrypt_def encrypt_bytes_def
        decrypt_bytes_def encrypt_with_aad_def split: record_ref.splits sum.splits option.splits prod.splits)
qed

definition rotation_ready :: "encryption_service \<Rightarrow> db \<Rightarrow> bool" where
  "rotation_ready svc db \<longleftrightarrow> distinct (map er_ref (envelopes db)) \<and>
     (\<forall>e \<in> set (unrotated svc db). faithful svc e \<and> open_record svc e \<noteq> None)"

definition sole_job :: "uuid \<Rightarrow> int \<Rightarrow> key_rotation_state \<Rightarrow> db \<Rightarrow> bool" where
  "sole_job jid target st db \<longleftrightarrow> distinct (map kj_id (key_rotation_jobs db)) \<and>
     (\<exists>j \<in> set (key_rotation_jobs db). kj_id j = jid \<and> kj_target_key_version j = target \<and> kj_state j = st) \<and>
     (\<forall>j \<in> set (key_rotation_jobs db). kj_id j \<noteq> jid \<longrightarrow> \<not> job_active j)"

lemma filter_single:
  assumes "distinct xs" and "j \<in> set xs" and "P j" and "\<And>x. x \<in> set xs \<Longrightarrow> P x \<Longrightarrow> x = j"
  shows "filter P xs = [j]"
proof -
  have "filter P xs = filter (\<lambda>x. x = j) xs" using assms(3,4) by (intro filter_cong) auto
  also have "\<dots> = [j]" using assms(1,2) by (induction xs) (auto simp: filter_empty_conv)
  finally show ?thesis .
qed

lemma claim_sole:
  assumes "sole_job jid target KR_PENDING db"
  obtains j where "kj_id j = jid" "kj_target_key_version j = target"
    "claim_rotation_job True worker now lease db = (Some (claimed_job worker now lease j),
       db\<lparr>key_rotation_jobs := update_where (\<lambda>x. kj_id x = jid) (claimed_job worker now lease) (key_rotation_jobs db)\<rparr>)"
proof -
  obtain j where j: "j \<in> set (key_rotation_jobs db)" "kj_id j = jid" "kj_target_key_version j = target" "kj_state j = KR_PENDING"
    using assms by (auto simp: sole_job_def)
  have ids: "distinct (map kj_id (key_rotation_jobs db))" using assms by (simp add: sole_job_def)
  have "x = j" if "x \<in> set (key_rotation_jobs db)" "claimable now x" for x
  proof -
    have "job_active x" using that(2) by (auto simp: claimable_def job_active_def)
    then have "kj_id x = jid" using assms that(1) by (auto simp: sole_job_def)
    then show ?thesis using row_by_key [OF ids that(1) j(1)] j(2) by simp
  qed
  then have "filter (claimable now) (key_rotation_jobs db) = [j]"
    using filter_single [OF _ j(1), of "claimable now"] ids j(4) by (simp add: claimable_def distinct_map)
  then have "claim_rotation_job True worker now lease db = (Some (claimed_job worker now lease j),
       db\<lparr>key_rotation_jobs := update_where (\<lambda>x. kj_id x = jid) (claimed_job worker now lease) (key_rotation_jobs db)\<rparr>)"
    using j(2) by (simp add: claim_rotation_job_def)
  then show thesis using that j by blast
qed

lemma claim_finished:
  assumes "sole_job jid target KR_SUCCEEDED db"
  shows "claim_rotation_job acquired worker now lease db = (None, db)"
proof -
  have "\<not> claimable now x" if "x \<in> set (key_rotation_jobs db)" for x
  proof
    assume "claimable now x"
    then have active: "job_active x" by (auto simp: claimable_def job_active_def)
    then have "kj_id x = jid" using assms that by (auto simp: sole_job_def)
    moreover obtain j where "j \<in> set (key_rotation_jobs db)" "kj_id j = jid" "kj_state j = KR_SUCCEEDED"
      using assms by (auto simp: sole_job_def)
    ultimately have "kj_state x = KR_SUCCEEDED"
      using row_by_key [of kj_id "key_rotation_jobs db" x j] assms that by (simp add: sole_job_def)
    then show False using active by (simp add: job_active_def)
  qed
  then have "filter (\<lambda>j. acquired \<and> claimable now j) (key_rotation_jobs db) = []" by (auto simp: filter_empty_conv)
  then show ?thesis by (simp add: claim_rotation_job_def)
qed

lemma sole_job_update:
  assumes "sole_job jid target st db" and "key_rotation_jobs db' = update_where (\<lambda>j. kj_id j = jid) f (key_rotation_jobs db)"
    and "\<And>j. kj_id (f j) = kj_id j \<and> kj_target_key_version (f j) = kj_target_key_version j \<and> kj_state (f j) = st'"
  shows "sole_job jid target st' db'"
proof -
  obtain j where "j \<in> set (key_rotation_jobs db)" "kj_id j = jid" "kj_target_key_version j = target"
    using assms(1) by (auto simp: sole_job_def)
  then have "f j \<in> set (key_rotation_jobs db')" "kj_id (f j) = jid" "kj_target_key_version (f j) = target" "kj_state (f j) = st'"
    using assms(2,3) by (auto simp: set_update_where)
  moreover have "\<not> job_active x" if "x \<in> set (key_rotation_jobs db')" "kj_id x \<noteq> jid" for x
    using assms that by (auto simp: sole_job_def set_update_where split: if_splits)
  moreover have "distinct (map kj_id (key_rotation_jobs db'))"
    using assms by (simp add: sole_job_def map_key_update_where)
  ultimately show ?thesis unfolding sole_job_def by blast
qed

lemma fewer_filtered:
  assumes "\<And>x. x \<in> set xs \<Longrightarrow> P x \<Longrightarrow> Q x" and "x \<in> set xs" and "Q x" and "\<not> P x"
  shows "length (filter P xs) < length (filter Q xs)"
proof -
  have "filter P xs = filter P (filter Q xs)" using assms(1) by (auto simp: filter_filter intro: filter_cong)
  also have "length \<dots> < length (filter Q xs)" by (rule length_filter_less) (use assms in auto)
  finally show ?thesis .
qed

lemma rotation_ready_remaining:
  "remaining_records (kr_primary_version (es_keyring svc)) db = length (unrotated svc db)"
  by (simp add: remaining_count unrotated_def)

lemma stored_progress:
  assumes "rotation_ready svc db" and "list_all2 (rewritten svc nonces (kr_primary_version (es_keyring svc)))
      (load_rotation_batch (\<lambda>_. False) (kr_primary_version (es_keyring svc)) ROTATION_BATCH_SIZE db) rotated"
    and "envelopes db' = map (replace_all_records (kr_primary_version (es_keyring svc)) rotated) (envelopes db)"
  shows "rotation_ready svc db' \<and> (unrotated svc db' = [] \<or> length (unrotated svc db') < length (unrotated svc db))"
proof -
  let ?v = "kr_primary_version (es_keyring svc)"
  let ?batch = "load_rotation_batch (\<lambda>_. False) ?v ROTATION_BATCH_SIZE db"
  let ?kept = "\<lambda>e. er_key_version e \<noteq> ?v \<and> e \<notin> set ?batch"
  have ids: "distinct (map er_ref (envelopes db))" using assms(1) by (simp add: rotation_ready_def)
  have sub: "set ?batch \<subseteq> set (envelopes db)" using load_batch_set by blast
  note stored = stored_envelope [OF assms(2) sub ids load_batch_distinct [OF ids]]
  have version: "er_key_version (replace_all_records ?v rotated e) \<noteq> ?v \<longleftrightarrow> ?kept e"
    and same: "e \<notin> set ?batch \<Longrightarrow> replace_all_records ?v rotated e = e" if "e \<in> set (envelopes db)" for e
    using stored [OF that] by (auto simp: rewritten_def dest: reencrypt_InrD split: if_splits)
  have "unrotated svc db' = map (replace_all_records ?v rotated) (filter ?kept (envelopes db))"
    using filter_cong [OF refl version, of "envelopes db" "\<lambda>e. e"] by (simp add: unrotated_def assms(3) filter_map comp_def)
  also have "\<dots> = filter ?kept (envelopes db)" using same by (intro map_idI) auto
  finally have kept: "unrotated svc db' = filter ?kept (envelopes db)" .
  have "distinct (map er_ref (envelopes db'))" using ids by (simp add: assms(3) comp_def)
  then have "rotation_ready svc db'" using assms(1) kept by (auto simp: rotation_ready_def unrotated_def)
  moreover have "unrotated svc db' = []" if "?batch = []"
    using load_batch_Nil [OF that] kept by (auto simp: filter_empty_conv ROTATION_BATCH_SIZE_def)
  moreover have "length (unrotated svc db') < length (unrotated svc db)" if nonempty: "?batch \<noteq> []"
  proof -
    from nonempty obtain e where "e \<in> set ?batch" by (cases ?batch) auto
    then have "length (filter ?kept (envelopes db)) < length (filter (\<lambda>e. er_key_version e \<noteq> ?v) (envelopes db))"
      using load_batch_set [of e] by (intro fewer_filtered [of _ _ _ e]) auto
    then show ?thesis using kept by (simp add: unrotated_def [of svc db])
  qed
  ultimately show ?thesis by blast
qed

lemma rotate_batch_Inr:
  assumes "rotation_ready svc db" and "has_version (es_keyring svc) (kr_primary_version (es_keyring svc))"
    and "kj_target_key_version job = kr_primary_version (es_keyring svc)"
    and "\<And>j. j \<in> set (key_rotation_jobs db) \<Longrightarrow> kj_id j \<noteq> kj_id job \<Longrightarrow> \<not> job_active j"
  shows "\<exists>db' n. rotate_batch svc env (\<lambda>_. False) nonces worker job db = Inr (True, db') \<and>
     key_rotation_jobs db' = update_where (\<lambda>j. kj_id j = kj_id job)
       (settled_job (if unrotated svc db' = [] then KR_SUCCEEDED else KR_PENDING) n (length (unrotated svc db')) (e_now env) None None)
       (key_rotation_jobs db)"
proof -
  let ?v = "kr_primary_version (es_keyring svc)"
  let ?batch = "load_rotation_batch (\<lambda>_. False) ?v ROTATION_BATCH_SIZE db"
  have "\<exists>r'. reencrypt svc nonce ?v r = Inr r'" if "r \<in> set ?batch" for r nonce
    using reencrypt_Inr [OF _ assms(2)] load_batch_set [OF that] assms(1) by (auto simp: rotation_ready_def unrotated_def)
  then obtain rotated where rotated: "reencrypt_all svc nonces ?v 0 ?batch = Inr rotated" using reencrypt_all_Inr by blast
  have refs: "map er_ref rotated = map er_ref ?batch"
    using reencrypt_all_InrD [OF rotated] by (induction rule: list_all2_induct) (auto dest: reencrypt_InrD)
  have kinds: "kind_of (er_ref x) = kind_of (er_ref y)" if "x \<in> set rotated" "y \<in> set rotated" for x y
  proof -
    have "er_ref ` set rotated = er_ref ` set ?batch" using refs by (metis list.set_map)
    then have "er_ref x \<in> er_ref ` set ?batch" "er_ref y \<in> er_ref ` set ?batch" using that by blast+
    then show ?thesis using load_batch_kind by (elim imageE) metis
  qed
  define db1 where "db1 = fold (\<lambda>x. store_record ?v (e_now env) (er_ref x) (er_payload x)) rotated db"
  have db1: "update_rotation_batch rotated ?v (e_now env) db = Inr ((), db1)"
  proof (cases rotated)
    case (Cons r rs)
    then have "\<not> (\<exists>x \<in> set rotated. kind_of (er_ref x) \<noteq> kind_of (er_ref r))" using kinds by (metis list.set_intros(1))
    then show ?thesis using Cons by (simp add: update_rotation_batch_def db1_def)
  qed (simp add: update_rotation_batch_def db1_def)
  have jobs: "key_rotation_jobs db1 = key_rotation_jobs db" by (simp add: db1_def)
  have "unrotated svc (rotation_audit env worker act outcome jid d (db1\<lparr>key_rotation_jobs := js\<rparr>)) = unrotated svc db1" for act outcome jid d js
    by (simp add: unrotated_def)
  moreover have "\<not> (\<exists>j \<in> set (key_rotation_jobs db). kj_id j \<noteq> kj_id job \<and> job_active j)" using assms(4) by blast
  ultimately show ?thesis using rotated db1 jobs assms(3)
    by (auto simp: rotate_batch_def Let_def tx_bind_def tx_then_def tx_check_def tx_guard_def update_rotation_job_def rotation_ready_remaining)
qed

lemma rotation_round:
  assumes "service_ok svc nonces" and "has_version (es_keyring svc) (kr_primary_version (es_keyring svc))"
    and "rotation_ready svc db" and "sole_job jid (kr_primary_version (es_keyring svc)) KR_PENDING db"
  shows "\<exists>db'. process_rotation_batch svc env True (\<lambda>_. False) nonces worker db = (Inr True, db') \<and>
     rotation_ready svc db' \<and> secrets_of svc db' = secrets_of svc db \<and>
     sole_job jid (kr_primary_version (es_keyring svc)) (if unrotated svc db' = [] then KR_SUCCEEDED else KR_PENDING) db' \<and>
     (unrotated svc db' = [] \<or> length (unrotated svc db') < length (unrotated svc db))"
proof -
  let ?v = "kr_primary_version (es_keyring svc)"
  let ?lease = "e_now env + ROTATION_LEASE"
  obtain j where j: "kj_id j = jid" "kj_target_key_version j = ?v"
    and claim: "claim_rotation_job True worker (e_now env) ?lease db = (Some (claimed_job worker (e_now env) ?lease j),
       db\<lparr>key_rotation_jobs := update_where (\<lambda>x. kj_id x = jid) (claimed_job worker (e_now env) ?lease) (key_rotation_jobs db)\<rparr>)"
    using claim_sole [OF assms(4)] by metis
  define job db1 where "job = claimed_job worker (e_now env) ?lease j"
    and "db1 = db\<lparr>key_rotation_jobs := update_where (\<lambda>x. kj_id x = jid) (claimed_job worker (e_now env) ?lease) (key_rotation_jobs db)\<rparr>"
  have job: "kj_id job = jid" "kj_target_key_version job = ?v" using j by (simp_all add: job_def claimed_job_def)
  have same: "envelopes db1 = envelopes db" by (simp add: db1_def)
  then have ready: "rotation_ready svc db1" and un: "unrotated svc db1 = unrotated svc db" using assms(3) by (simp_all add: rotation_ready_def unrotated_def)
  have sole: "sole_job jid ?v KR_RUNNING db1"
    by (rule sole_job_update [OF assms(4), of _ "claimed_job worker (e_now env) ?lease"]) (simp_all add: db1_def claimed_job_def)
  then obtain db' n where batch: "rotate_batch svc env (\<lambda>_. False) nonces worker job db1 = Inr (True, db')"
    and jobs: "key_rotation_jobs db' = update_where (\<lambda>j. kj_id j = jid)
       (settled_job (if unrotated svc db' = [] then KR_SUCCEEDED else KR_PENDING) n (length (unrotated svc db')) (e_now env) None None)
       (key_rotation_jobs db1)"
    using rotate_batch_Inr [OF ready assms(2) job(2), of env nonces worker] job(1) by (auto simp: sole_job_def)
  have "0 \<le> ?v" using assms(1) by (simp add: service_ok_def)
  from rotate_batch_effect [OF batch] this obtain rotated where "list_all2 (rewritten svc nonces ?v)
        (load_rotation_batch (\<lambda>_. False) ?v ROTATION_BATCH_SIZE db1) rotated"
      "envelopes db' = map (replace_all_records ?v rotated) (envelopes db1)" unfolding job(2) by blast
  note progress = stored_progress [OF ready this]
  have "secrets_of svc db' = secrets_of svc db"
    using rotate_batch_secrets [OF batch assms(1)] ready same by (simp add: rotation_ready_def secrets_of_def)
  moreover have "sole_job jid ?v (if unrotated svc db' = [] then KR_SUCCEEDED else KR_PENDING) db'"
    by (rule sole_job_update [OF sole jobs]) (simp add: settled_job_def)
  moreover have "process_rotation_batch svc env True (\<lambda>_. False) nonces worker db = (Inr True, db')"
    using claim batch by (simp add: process_rotation_batch_def job_def db1_def)
  ultimately show ?thesis using progress un by metis
qed

text \<open>Repeated calls of the rotation worker, each with its clock and nonces.\<close>

fun rotation_rounds :: "encryption_service \<Rightarrow> string \<Rightarrow> (env \<times> (nat \<Rightarrow> bytes)) list \<Rightarrow> db \<Rightarrow> db" where
  "rotation_rounds svc worker [] db = db"
| "rotation_rounds svc worker ((env, nonces) # rounds) db =
     rotation_rounds svc worker rounds (snd (process_rotation_batch svc env True (\<lambda>_. False) nonces worker db))"

lemma rounds_finished:
  assumes "sole_job jid target KR_SUCCEEDED db"
  shows "rotation_rounds svc worker rounds db = db"
  using claim_finished [OF assms]
  by (induction rounds) (auto simp: process_rotation_batch_def)

lemma unrotated_Nil: "unrotated svc db = [] \<longleftrightarrow> (\<forall>e \<in> set (envelopes db). er_key_version e = kr_primary_version (es_keyring svc))"
  by (auto simp: unrotated_def filter_empty_conv)

text \<open>
  C14: A requested rotation ends. Called often enough, at most once for each envelope that is not yet
  under the primary key and at least once, the worker brings the job to \<open>SUCCEEDED\<close>; then
  every envelope is under the primary key and opens to what it opened to before. It takes that the
  keyring has the primary key, that what is under other keys opens, and that no other call holds the locks.
\<close>

theorem rotation_completes:
  assumes "\<forall>(env, nonces) \<in> set rounds. service_ok svc nonces"
    and "has_version (es_keyring svc) (kr_primary_version (es_keyring svc))"
    and "rotation_ready svc db" and "sole_job jid (kr_primary_version (es_keyring svc)) KR_PENDING db"
    and "max 1 (length (unrotated svc db)) \<le> length rounds"
  shows "sole_job jid (kr_primary_version (es_keyring svc)) KR_SUCCEEDED (rotation_rounds svc worker rounds db) \<and>
    (\<forall>e \<in> set (envelopes (rotation_rounds svc worker rounds db)). er_key_version e = kr_primary_version (es_keyring svc)) \<and>
    secrets_of svc (rotation_rounds svc worker rounds db) = secrets_of svc db"
  using assms(1,3-5)
proof (induction rounds arbitrary: db)
  case (Cons r rounds)
  obtain env nonces where r: "r = (env, nonces)" by fastforce
  then have "service_ok svc nonces" using Cons.prems(1) by simp
  from rotation_round [OF this assms(2) Cons.prems(2,3)] obtain db' where
    call: "process_rotation_batch svc env True (\<lambda>_. False) nonces worker db = (Inr True, db')"
    and db': "rotation_ready svc db'" "secrets_of svc db' = secrets_of svc db"
      "sole_job jid (kr_primary_version (es_keyring svc)) (if unrotated svc db' = [] then KR_SUCCEEDED else KR_PENDING) db'"
    and less: "unrotated svc db' = [] \<or> length (unrotated svc db') < length (unrotated svc db)" by blast
  show ?case
  proof (cases "unrotated svc db' = []")
    case True
    then show ?thesis using rounds_finished call r db' by (simp add: unrotated_Nil [symmetric])
  next
    case False
    then have "max 1 (length (unrotated svc db')) \<le> length rounds" using less Cons.prems(4) by (cases "unrotated svc db'") auto
    then show ?thesis using Cons.IH [of db'] Cons.prems(1) call r db' False by simp
  qed
qed simp

section \<open>An example\<close>

definition demo_secret :: "(string \<times> string) list" where
  "demo_secret = [(''password'', ''pw'')]"

definition demo_encryption :: encryption_service where
  "demo_encryption =
     \<lparr>es_gcm = demo_gcm,
      es_codec = \<lparr>tc_decode = (\<lambda>bytes. Some (map char_of bytes)),
        tc_loads = (\<lambda>s. Some (canonical (JObj (map (\<lambda>(k, v). (k, JStr v)) demo_secret))))\<rparr>,
      es_keyring = demo_keyring, es_source = SRC_SYSTEM\<rparr>"

definition demo_nonces :: "nat \<Rightarrow> bytes" where "demo_nonces k = replicate 12 k"

definition demo_envelope :: "string \<Rightarrow> string \<Rightarrow> bytes \<Rightarrow> bytes" where
  "demo_envelope purpose subject plain =
     (case encrypt_bytes demo_gcm (replicate 12 0) demo_keyring purpose subject plain (Some 1) of Inl _ \<Rightarrow> [] | Inr (e, _) \<Rightarrow> e)"

definition demo_job :: rotation_job where
  "demo_job = \<lparr>kj_id = 7, kj_target_key_version = 2, kj_state = KR_PENDING, kj_requested_by = 1, kj_claimed_by = None,
     kj_lease_expires_at = None, kj_processed_count = 0, kj_remaining_count = Some 2, kj_error_code = None, kj_created_at = 0,
     kj_started_at = None, kj_finished_at = None, kj_updated_at = 0\<rparr>"

definition demo_sealed :: db where
  "demo_sealed = empty_db\<lparr>
     credential_revisions := [\<lparr>cr_credential_id = 3, cr_version = 1,
        cr_encrypted_secret = (case cipher_encrypt demo_gcm (replicate 12 0) (demo_keyring\<lparr>kr_primary_version := 1\<rparr>) 3 1 demo_secret of
           Inl _ \<Rightarrow> [] | Inr e \<Rightarrow> e), cr_key_version = 1, cr_created_at = 0, cr_updated_at = 0\<rparr>],
     system_secrets := [\<lparr>ss_name = ''pepper'', ss_encrypted_secret = demo_envelope ''system-secret'' ''pepper'' [1, 2],
        ss_key_version = 1, ss_updated_at = 0\<rparr>],
     run_secret_inputs := [\<lparr>si_run_id = 5, si_encrypted_payload = demo_envelope ''run-parameters'' (uuid_str 5) [3],
        si_key_version = 1, si_parameter_names = [''pin'']\<rparr>],
     key_rotation_jobs := [demo_job]\<rparr>"

definition demo_clock :: "timestamp \<Rightarrow> env" where
  "demo_clock t = \<lparr>e_now = t, e_ctx = empty_context\<rparr>"

lemma demo_service_ok: "service_ok demo_encryption demo_nonces"
  by (simp add: service_ok_def demo_encryption_def gcm_ok_demo demo_nonces_def demo_keyring_def)

lemma demo_unrotated: "unrotated demo_encryption demo_sealed = envelopes demo_sealed"
  by (simp add: unrotated_def envelopes_def demo_sealed_def empty_db_def record_defs demo_encryption_def demo_keyring_def)

lemma demo_envelopes:
  "map er_ref (envelopes demo_sealed) = [Credential_Ref 3 1, System_Ref ''pepper'', Run_Ref 5]"
  by (simp add: envelopes_def demo_sealed_def empty_db_def record_defs)

lemma demo_opened:
  "opened_secret demo_encryption 3 1 (envelopes demo_sealed ! 0) = Inr demo_secret"
  "opened_bytes demo_encryption (envelopes demo_sealed ! 1) = Inr [1, 2]"
  "opened_bytes demo_encryption (envelopes demo_sealed ! 2) = Inr [3]"
  by code_simp+

lemma demo_reads_secret: "reads_secret (es_codec demo_encryption) demo_secret"
  by code_simp

lemma demo_rotation_ready: "rotation_ready demo_encryption demo_sealed"
proof -
  let ?es = "envelopes demo_sealed"
  have es: "?es = [?es ! 0, ?es ! 1, ?es ! 2]" by (simp add: envelopes_def demo_sealed_def empty_db_def)
  have refs: "er_ref (?es ! 0) = Credential_Ref 3 1" "er_ref (?es ! 1) = System_Ref ''pepper''" "er_ref (?es ! 2) = Run_Ref 5"
    by (simp_all add: envelopes_def demo_sealed_def empty_db_def record_defs)
  have "distinct (map fst demo_secret)" by (simp add: demo_secret_def)
  then have "faithful demo_encryption (?es ! 0) \<and> open_record demo_encryption (?es ! 0) \<noteq> None"
    "faithful demo_encryption (?es ! 1) \<and> open_record demo_encryption (?es ! 1) \<noteq> None"
    "faithful demo_encryption (?es ! 2) \<and> open_record demo_encryption (?es ! 2) \<noteq> None"
    by (simp_all add: refs demo_opened faithful_def open_record_def demo_reads_secret del: One_nat_def)
  then have "\<forall>e \<in> set [?es ! 0, ?es ! 1, ?es ! 2]. faithful demo_encryption e \<and> open_record demo_encryption e \<noteq> None" by simp
  then have "\<forall>e \<in> set ?es. faithful demo_encryption e \<and> open_record demo_encryption e \<noteq> None" by (simp only: es [symmetric])
  then show ?thesis using demo_envelopes by (simp add: rotation_ready_def demo_unrotated)
qed

theorem rotation_keeps_secrets_witness:
  "secrets_of demo_encryption (snd (process_rotation_batch demo_encryption (demo_clock 5) True (\<lambda>_. False) demo_nonces ''w'' demo_sealed)) =
     secrets_of demo_encryption demo_sealed"
  using rotation_keeps_secrets [OF demo_service_ok, of demo_sealed] demo_rotation_ready by (simp add: rotation_ready_def)

theorem rotation_completes_witness:
  "sole_job 7 2 KR_SUCCEEDED (rotation_rounds demo_encryption ''w''
     [(demo_clock 1, demo_nonces), (demo_clock 2, demo_nonces), (demo_clock 3, demo_nonces)] demo_sealed)"
proof -
  have "length (unrotated demo_encryption demo_sealed) = 3" 
    using arg_cong [OF demo_envelopes, of length] by (simp add: demo_unrotated)
  moreover have "sole_job 7 2 KR_PENDING demo_sealed" "has_version demo_keyring 2" by code_simp+
  moreover have "kr_primary_version (es_keyring demo_encryption) = 2" "es_keyring demo_encryption = demo_keyring"
    by (simp_all add: demo_encryption_def demo_keyring_def)
  ultimately show ?thesis
    using rotation_completes [of "[(demo_clock 1, demo_nonces), (demo_clock 2, demo_nonces), (demo_clock 3, demo_nonces)]"
        demo_encryption demo_sealed 7 "''w''"] demo_service_ok demo_rotation_ready by simp
qed

end
