(* ===== verification/System_Queue.thy ===== *)
theory System_Queue
  imports Auth_Queue Asset_Properties Playbook_History Rotation_Properties
begin

text \<open>
  Playbooks and key rotation beside the queue: no call of the playbook or encryption service touches a table of
  the queue, as \<open>Auth_Queue\<close> and \<open>Asset_Properties\<close> show for accounts and assets.
\<close>

section \<open>Playbooks\<close>

lemma same_run_events: "same_run_tables db (db\<lparr>audit_events := evs\<rparr>)"
  by (simp add: same_run_tables_def)

lemma only_audits_queue: "only_audits db db' \<Longrightarrow> same_run_tables db db'"
  by (auto simp: only_audits_def same_run_events)

lemma update_database_queue: "same_run_tables db (snd (update_database svc env who user i expected inp act db))"
proof (cases rule: update_database_cases [of svc env who user i expected inp act db])
  case (failed e evs)
  then show ?thesis by (simp add: same_run_events)
next
  case (saved v fmt doc db')
  from update_body_InrD [OF saved(3)] obtain revision evs where
    "db' = db\<lparr>playbook_revisions := playbook_revisions db @ [revision],
       playbooks := update_where (live_version i expected) (changed_playbook (fst doc)) (playbooks db), audit_events := audit_events db @ evs\<rparr>"
    by metis
  then show ?thesis using saved(1) by (simp add: same_run_tables_def)
qed

lemma keeps_playbook_statements:
  "keeps (same_run_tables d0) (add_playbook b v)" "keeps (same_run_tables d0) (playbook_audit env user act i)"
  by (auto intro!: keepsI simp: same_run_tables_def playbook_audit_def audit_append_def dest!: add_playbook_InrD)

lemma create_database_queue: "same_run_tables db (snd (create_database svc env new_id who user inp db))"
proof -
  obtain r db1 where c: "checked_input svc env who user None inp db = (r, db1)" by fastforce
  then have start: "same_run_tables db db1"
    by (cases rule: checked_input_cases) (auto simp: same_run_tables_def)
  show ?thesis
  proof (cases r)
    case (Inl e)
    then show ?thesis using c start by (simp add: create_database_def)
  next
    case (Inr vf)
    obtain v fmt where vf: "vf = (v, fmt)" by fastforce
    show ?thesis unfolding create_database_def c Inr vf prod.case sum.case
      by (rule keeps_unit_of_work [where P = "same_run_tables db", OF _ start]) (intro keeping keeps_playbook_statements)
  qed
qed

lemma playbook_call_queue: "playbook_call sha now db db' \<Longrightarrow> same_run_tables db db'"
proof (induction rule: playbook_call.induct)
  case (delete env db svc who user i expected)
  show ?case
    by (cases rule: delete_database_cases [of svc env who user i expected db]) (simp_all add: same_run_tables_def)
next
  case (restore svc env db who user i n expected)
  show ?case
  proof (cases rule: restore_cases [of svc env who user i n expected db])
    case (restored source current v project)
    then show ?thesis by (simp only: update_database_queue)
  qed (simp add: same_run_tables_def)
qed (simp_all add: create_database_queue update_database_queue only_audits_queue read_only_calls validate_reference_audits)

section \<open>Master keys\<close>

inductive rotation_call :: "timestamp \<Rightarrow> db \<Rightarrow> db \<Rightarrow> bool" where
  ensure_keyring: "rotation_call (e_now env) db (snd (ensure_keyring svc env nonces pepper_nonce pepper db))"
| request_rotation: "rotation_call (e_now env) db (snd (request_rotation svc env job_id actor db))"
| process_rotation_batch: "rotation_call (e_now env) db (snd (process_rotation_batch svc env acquired locked nonces worker db))"

named_theorems rotation_keeping

lemma keeps_rotation_statements [rotation_keeping]:
  "keeps (same_run_tables d0) (update_rotation_job i state n rest now lease err)"
  "keeps (same_run_tables d0) (create_rotation_job job)"
  "keeps (same_run_tables d0) (ops_audit env src who act ty rid)"
  "keeps (same_run_tables d0) (tx_write (rotation_audit env worker act outcome i d))"
  "keeps (same_run_tables d0) (tx_write (add_key k))"
  "keeps (same_run_tables d0) (tx_write (put_system_secret s))"
  by (auto simp: keeps_def same_run_tables_def update_rotation_job_def create_rotation_job_def ops_audit_def rotation_audit_def
      add_key_def put_system_secret_def audit_append_def split: if_splits)

lemma store_records_queue:
  "same_run_tables d0 db \<Longrightarrow> same_run_tables d0 (fold (\<lambda>x. store_record v now (er_ref x) (er_payload x)) rs db)"
proof (induction rs arbitrary: db)
  case (Cons r rs)
  have "same_run_tables d0 (store_record v now (er_ref r) (er_payload r) db)"
    using Cons.prems by (cases "er_ref r") (simp_all add: same_run_tables_def)
  then show ?case using Cons.IH by simp
qed simp

lemma keeps_rotation_batch [rotation_keeping]: "keeps (same_run_tables d0) (update_rotation_batch records v now)"
  unfolding keeps_def
proof (intro allI impI)
  fix d :: db and a d' assume d: "same_run_tables d0 d" "update_rotation_batch records v now d = Inr (a, d')"
  have "d' = fold (\<lambda>x. store_record v now (er_ref x) (er_payload x)) records d"
    using d(2) unfolding update_rotation_batch_def by (cases records) (auto split: if_splits)
  then show "same_run_tables d0 d'" using store_records_queue [OF d(1)] by simp
qed

lemma keeps_read_setting [rotation_keeping]: "keeps P (\<lambda>db. tx_check (get_setting k db) db)"
  by (auto simp: keeps_def tx_check_def split: sum.splits)

lemma keeps_register_keys [rotation_keeping]: "keeps (same_run_tables d0) (register_keys svc env nonces registered vs)"
  by (induction vs) (auto simp only: register_keys.simps intro!: keeping rotation_keeping)

lemma keeps_registrations [rotation_keeping]:
  "keeps (same_run_tables d0) (tx_write (fold (\<lambda>_. audit_append env act outcome src d) vs))"
proof -
  have "same_run_tables d0 db \<Longrightarrow> same_run_tables d0 (fold (\<lambda>_. audit_append env act outcome src d) vs db)" for db
    by (induction vs arbitrary: db) (simp_all add: same_run_tables_def audit_append_def)
  then show ?thesis by (rule keeps_write)
qed

lemma keeps_rotate_batch [rotation_keeping]: "keeps (same_run_tables d0) (rotate_batch svc env locked nonces worker job)"
  unfolding rotate_batch_def Let_def by (intro keeping rotation_keeping)

lemma process_rotation_batch_queue: "same_run_tables db (snd (process_rotation_batch svc env acquired locked nonces worker db))"
proof -
  obtain job db1 where c: "claim_rotation_job acquired worker (e_now env) (e_now env + ROTATION_LEASE) db = (job, db1)" by fastforce
  have d1: "same_run_tables db db1" using c by (auto simp: claim_rotation_job_def same_run_tables_def split: list.splits)
  have batch: "same_run_tables db db2" if "rotate_batch svc env locked nonces worker j db1 = Inr (r, db2)" for j r db2
    using keepsD [OF keeps_rotate_batch d1 that] .
  have failed: "same_run_tables db (snd (unit_of_work (update_rotation_job i st n rest now lease err) db))" for i st n rest now lease err
    by (rule keeps_unit_of_work [OF keeps_rotation_statements(1)]) simp
  show ?thesis
  proof (cases job)
    case None
    then show ?thesis using c d1 by (simp add: process_rotation_batch_def)
  next
    case (Some jb)
    show ?thesis
    proof (cases "rotate_batch svc env locked nonces worker jb db1")
      case (Inr x)
      then show ?thesis using c Some batch by (cases x) (simp add: process_rotation_batch_def)
    next
      case (Inl e)
      let ?u = "unit_of_work (update_rotation_job (kj_id jb) KR_FAILED 0 (remaining_records (kj_target_key_version jb) db) (e_now env) None
         (Some ''key_rotation_failed'')) db"
      have "same_run_tables db (snd ?u)" by (rule failed)
      then have "same_run_tables db (rotation_audit env worker act outcome i d (snd ?u))" for act outcome i d
        by (simp add: rotation_audit_def same_run_tables_def audit_append_def)
      then show ?thesis using c Some Inl \<open>same_run_tables db (snd ?u)\<close>
        by (cases ?u) (simp add: process_rotation_batch_def split: sum.split)
    qed
  qed
qed

lemma rotation_call_queue: "rotation_call now db db' \<Longrightarrow> same_run_tables db db'"
proof (induction rule: rotation_call.induct)
  case (ensure_keyring env db svc nonces pepper_nonce pepper)
  show ?case unfolding ensure_keyring_def
    by (rule keeps_unit_of_work) (auto intro!: keeping rotation_keeping split: prod.splits)
next
  case (request_rotation env db svc job_id actor)
  show ?case unfolding request_rotation_def Let_def by (rule keeps_unit_of_work) (intro keeping rotation_keeping, simp)
qed (rule process_rotation_batch_queue)

end
