(* ===== verification/Worker_Runtime.thy ===== *)
theory Worker_Runtime
  imports Run_Service Worker_Coordinator Credential_Service Playbook_Service
begin

text \<open>
  \<open>worker.py\<close>, first part: what a worker builds before it runs Ansible (inventory with secrets, known hosts),
  the redaction of Ansible's events and the output it collects per host. The text \<open>str\<close> gives for floats, lists
  and dictionaries is the argument \<open>repr\<close>.
\<close>

section \<open>Text of values\<close>

definition py_str :: "(json \<Rightarrow> string) \<Rightarrow> json \<Rightarrow> string" where
  "py_str repr v =
     (case v of
        JStr s \<Rightarrow> s
      | JInt i \<Rightarrow> str_int i
      | JBool b \<Rightarrow> (if b then ''True'' else ''False'')
      | JNull \<Rightarrow> ''None''
      | _ \<Rightarrow> repr v)"

definition digit_value :: "char \<Rightarrow> nat option" where
  "digit_value c = (if CHR ''0'' \<le> c \<and> c \<le> CHR ''9'' then Some (of_char c - 48) else None)"

fun digits_value :: "nat \<Rightarrow> string \<Rightarrow> nat option" where
  "digits_value acc [] = Some acc"
| "digits_value acc (c # s) = (case digit_value c of None \<Rightarrow> None | Some d \<Rightarrow> digits_value (10 * acc + d) s)"

text \<open>\<open>int(text)\<close>: surrounding space, a sign, digits with single underscores between them.\<close>

definition unsigned_int :: "string \<Rightarrow> nat option" where
  "unsigned_int s = (let parts = py_split (CHR ''_'') s in if [] \<in> set parts then None else digits_value 0 (concat parts))"

definition py_int :: "string \<Rightarrow> ops_error + int" where
  "py_int s =
     (case (case py_strip s of
              [] \<Rightarrow> None
            | c # t \<Rightarrow> if c = CHR ''-'' then map_option (\<lambda>n. - int n) (unsigned_int t)
                      else if c = CHR ''+'' then map_option int (unsigned_int t) else map_option int (unsigned_int (c # t))) of
        None \<Rightarrow> Inl (ValueErr ''invalid literal for int()'')
      | Some i \<Rightarrow> Inr i)"

definition hex_value :: "char \<Rightarrow> nat option" where
  "hex_value c =
     (if CHR ''0'' \<le> c \<and> c \<le> CHR ''9'' then Some (of_char c - 48)
      else if CHR ''a'' \<le> c \<and> c \<le> CHR ''f'' then Some (of_char c - 87)
      else if CHR ''A'' \<le> c \<and> c \<le> CHR ''F'' then Some (of_char c - 55) else None)"

fun hex_number :: "nat \<Rightarrow> string \<Rightarrow> nat option" where
  "hex_number acc [] = Some acc"
| "hex_number acc (c # s) = (case hex_value c of None \<Rightarrow> None | Some d \<Rightarrow> hex_number (16 * acc + d) s)"

text \<open>\<open>UUID(text)\<close>: prefixes, braces and hyphens go, and 32 hexadecimal digits must be left.\<close>

definition parse_uuid :: "string \<Rightarrow> ops_error + uuid" where
  "parse_uuid s =
     (let t = py_replace ''uuid:'' [] (py_replace ''urn:'' [] s);
          brace = (\<lambda>c. c = CHR 0x7B \<or> c = CHR 0x7D);
          h = filter (\<lambda>c. c \<noteq> CHR ''-'') (rev (dropWhile brace (rev (dropWhile brace t))))
      in if length h \<noteq> 32 then Inl (ValueErr ''badly formed hexadecimal UUID string'')
         else (case hex_number 0 h of None \<Rightarrow> Inl (ValueErr ''invalid literal for int()'') | Some u \<Rightarrow> Inr u))"

definition dict_item :: "string \<Rightarrow> jobj \<Rightarrow> ops_error + json" where
  "dict_item k d = (case map_of d k of None \<Rightarrow> Inl (KeyErr k) | Some v \<Rightarrow> Inr v)"

section \<open>Redaction\<close>

definition SENSITIVE_KEYS :: "string list" where
  "SENSITIVE_KEYS = [''password'', ''secret'', ''private_key'', ''privatekey'', ''passphrase'']"

definition sensitive_key_name :: "string \<Rightarrow> bool" where
  "sensitive_key_name k \<longleftrightarrow> (\<exists>token \<in> set SENSITIVE_KEYS. contains token (casefold k))"

fun sanitize :: "string list \<Rightarrow> json \<Rightarrow> json" where
  "sanitize secrets (JStr s) = JStr (redact_secrets s secrets)"
| "sanitize secrets (JObj d) =
     JObj (map (\<lambda>(k, v). (k, if sensitive_key_name k then JStr REDACTED else sanitize secrets v)) d)"
| "sanitize secrets (JList xs) = JList (map (sanitize secrets) xs)"
| "sanitize secrets v = v"

section \<open>Output per host\<close>

record accumulator =
  ac_target :: run_target
  ac_chunks :: "string list"
  ac_size :: nat
  ac_truncated :: bool
  ac_status :: run_target_status
  ac_changed :: nat
  ac_failed :: nat
  ac_unreachable :: nat

definition new_accumulator :: "run_target \<Rightarrow> accumulator" where
  "new_accumulator t = \<lparr>ac_target = t, ac_chunks = [], ac_size = 0, ac_truncated = False, ac_status = TS_RUNNING,
     ac_changed = 0, ac_failed = 0, ac_unreachable = 0\<rparr>"

definition add_output :: "nat \<Rightarrow> string \<Rightarrow> accumulator \<Rightarrow> accumulator" where
  "add_output limit out a =
     (if ac_size a + length out \<le> limit
      then a\<lparr>ac_chunks := ac_chunks a @ [out], ac_size := ac_size a + length out\<rparr>
      else
        let remaining = limit - ac_size a;
            a' = (if remaining \<noteq> 0 then a\<lparr>ac_chunks := ac_chunks a @ [take remaining out], ac_size := limit\<rparr> else a)
        in a'\<lparr>ac_truncated := True\<rparr>)"

definition per_host_limit :: "settings \<Rightarrow> nat \<Rightarrow> nat" where
  "per_host_limit cfg targets = min (1024 * 1024) (max (64 * 1024) (set_max_run_output_bytes cfg div max 1 targets))"

definition accumulators_of :: "run_target list \<Rightarrow> (string \<times> accumulator) list" where
  "accumulators_of targets = fold (\<lambda>t. dict_set (t_host_name t) (new_accumulator t)) targets []"

section \<open>The inventory with secrets\<close>

type_synonym revision_key = "string \<times> int"

record prepared_inventory =
  pi_inventory :: jobj
  pi_secrets :: "string list"
  pi_private_key_revisions :: "(revision_key \<times> (string \<times> string) list) list"
  pi_private_key_hosts :: "(string \<times> revision_key) list"

record inventory_state =
  is_hosts :: jobj
  is_secrets :: "string list"
  is_revisions :: "(revision_key \<times> (string \<times> string) list) list"
  is_key_revisions :: "(revision_key \<times> (string \<times> string) list) list"
  is_key_hosts :: "(string \<times> revision_key) list"

definition become_mode :: "(json \<Rightarrow> string) \<Rightarrow> run \<Rightarrow> string" where
  "become_mode repr r =
     (if r_kind r = COMMAND then py_str repr (dict_get ''become'' (JStr ''CREDENTIAL_DEFAULT'') (r_operation_spec r))
      else ''CREDENTIAL_DEFAULT'')"

definition become_password :: "(string \<times> string) list \<Rightarrow> string option" where
  "become_password secret =
     (case map_of secret ''becomePassword'' of Some p \<Rightarrow> if p \<noteq> [] then Some p else map_of secret ''password''
      | None \<Rightarrow> map_of secret ''password'')"

definition with_become_password :: "(string \<times> string) list \<Rightarrow> jobj \<Rightarrow> jobj" where
  "with_become_password secret vars =
     (case become_password secret of None \<Rightarrow> vars | Some p \<Rightarrow> dict_set ''ansible_become_password'' (JStr p) vars)"

definition set_default :: "string \<Rightarrow> json \<Rightarrow> jobj \<Rightarrow> jobj" where
  "set_default k v d = (if k \<in> set (map fst d) then d else dict_set k v d)"

definition BECOME_KEYS :: "string list" where
  "BECOME_KEYS = [''ansible_become'', ''ansible_become_method'', ''ansible_become_user'', ''ansible_become_password'']"

definition become_variables_for :: "string \<Rightarrow> (string \<times> string) list \<Rightarrow> jobj \<Rightarrow> jobj" where
  "become_variables_for mode secret vars =
     (if mode = ''DISABLED'' then filter (\<lambda>(k, _). k \<notin> set BECOME_KEYS) vars
      else if mode = ''ENABLED''
      then with_become_password secret (set_default ''ansible_become_user'' (JStr ''root'')
             (set_default ''ansible_become_method'' (JStr ''sudo'') (dict_set ''ansible_become'' (JBool True) vars)))
      else if truthy (dict_get ''ansible_become'' JNull vars) then with_become_password secret vars else vars)"

definition cached_revision ::
    "credential_service \<Rightarrow> db \<Rightarrow> revision_key \<Rightarrow> (revision_key \<times> (string \<times> string) list) list \<Rightarrow> ops_error + (string \<times> string) list" where
  "cached_revision svc db key cache =
     (case map_of cache key of
        Some secret \<Rightarrow> Inr secret
      | None \<Rightarrow>
          (case parse_uuid (fst key) of
             Inl e \<Rightarrow> Inl e
           | Inr i \<Rightarrow> if snd key < 0 then Inl (NotFoundError ''credential revision not found'')
                      else decrypt_revision svc i (nat (snd key)) db))"

fun upsert :: "'k \<Rightarrow> 'v \<Rightarrow> ('k \<times> 'v) list \<Rightarrow> ('k \<times> 'v) list" where
  "upsert k v [] = [(k, v)]"
| "upsert k v ((k', v') # d) = (if k' = k then (k, v) # d else (k', v') # upsert k v d)"

definition inventory_target ::
    "credential_service \<Rightarrow> (json \<Rightarrow> string) \<Rightarrow> db \<Rightarrow> run \<Rightarrow> inventory_state \<Rightarrow> jobj \<Rightarrow> ops_error + inventory_state" where
  "inventory_target svc repr db r st target =
     (case dict_item ''credentialId'' target of Inl e \<Rightarrow> Inl e | Inr cid \<Rightarrow>
      case dict_item ''credentialVersion'' target of Inl e \<Rightarrow> Inl e | Inr ver \<Rightarrow>
      case py_int (py_str repr ver) of Inl e \<Rightarrow> Inl e | Inr version \<Rightarrow>
      let key = (py_str repr cid, version) in
      case cached_revision svc db key (is_revisions st) of Inl e \<Rightarrow> Inl e | Inr secret \<Rightarrow>
      case dict_item ''name'' target of Inl e \<Rightarrow> Inl e | Inr name \<Rightarrow>
      let host_name = py_str repr name in
      case map_of (is_hosts st) host_name of
        Some (JObj vars) \<Rightarrow>
          (case map_of secret ''password'' of
             Some password \<Rightarrow>
               Inr (st\<lparr>is_hosts := dict_set host_name (JObj (become_variables_for (become_mode repr r) secret
                         (dict_set ''ansible_password'' (JStr password) vars))) (is_hosts st),
                       is_secrets := is_secrets st @ filter (\<lambda>v. v \<noteq> []) (map snd secret),
                       is_revisions := upsert key secret (is_revisions st)\<rparr>)
           | None \<Rightarrow>
               (case map_of secret ''privateKey'' of
                  Some _ \<Rightarrow>
                    Inr (st\<lparr>is_hosts := dict_set host_name (JObj (become_variables_for (become_mode repr r) secret vars)) (is_hosts st),
                            is_secrets := is_secrets st @ filter (\<lambda>v. v \<noteq> []) (map snd secret),
                            is_revisions := upsert key secret (is_revisions st),
                            is_key_revisions := upsert key secret (is_key_revisions st),
                            is_key_hosts := upsert host_name key (is_key_hosts st)\<rparr>)
                | None \<Rightarrow> Inl (ValueErr ''credential secret payload is invalid'')))
      | _ \<Rightarrow> Inl (ValueErr ''inventory target snapshot is invalid''))"

fun inventory_targets ::
    "credential_service \<Rightarrow> (json \<Rightarrow> string) \<Rightarrow> db \<Rightarrow> run \<Rightarrow> inventory_state \<Rightarrow> jobj list \<Rightarrow> ops_error + inventory_state" where
  "inventory_targets svc repr db r st [] = Inr st"
| "inventory_targets svc repr db r st (t # ts) =
     (case inventory_target svc repr db r st t of Inl e \<Rightarrow> Inl e | Inr st' \<Rightarrow> inventory_targets svc repr db r st' ts)"

definition runtime_inventory ::
    "credential_service \<Rightarrow> (json \<Rightarrow> string) \<Rightarrow> db \<Rightarrow> run \<Rightarrow> ops_error + prepared_inventory" where
  "runtime_inventory svc repr db r =
     (case map_of (r_inventory_snapshot r) ''all'' of
        Some (JObj a) \<Rightarrow>
          (case map_of a ''hosts'' of
             Some (JObj hs) \<Rightarrow>
               (case inventory_targets svc repr db r \<lparr>is_hosts = hs, is_secrets = [], is_revisions = [], is_key_revisions = [],
                       is_key_hosts = []\<rparr> (r_resolved_targets r) of
                  Inl e \<Rightarrow> Inl e
                | Inr st \<Rightarrow>
                    Inr \<lparr>pi_inventory = dict_set ''all'' (JObj (dict_set ''hosts'' (JObj (is_hosts st)) a)) (r_inventory_snapshot r),
                         pi_secrets = is_secrets st, pi_private_key_revisions = is_key_revisions st,
                         pi_private_key_hosts = is_key_hosts st\<rparr>)
           | _ \<Rightarrow> Inl (ValueErr ''inventory snapshot hosts are invalid''))
      | _ \<Rightarrow> Inl (ValueErr ''inventory snapshot is invalid''))"

section \<open>Known hosts\<close>

definition host_marker :: "string \<Rightarrow> int \<Rightarrow> string" where
  "host_marker address port = (if port = 22 then address else ''['' @ address @ '']:'' @ str_int port)"

definition known_hosts_of :: "(json \<Rightarrow> string) \<Rightarrow> db \<Rightarrow> jobj \<Rightarrow> ops_error + string list" where
  "known_hosts_of repr db target =
     (case dict_item ''hostId'' target of Inl e \<Rightarrow> Inl e | Inr hid \<Rightarrow>
      case parse_uuid (py_str repr hid) of Inl e \<Rightarrow> Inl e | Inr host_id \<Rightarrow>
      if get_host host_id db = None then Inl (NotFoundError ''host not found'')
      else let keys = list_host_keys host_id db in
      if keys = []
      then (case dict_item ''name'' target of Inl e \<Rightarrow> Inl e
            | Inr name \<Rightarrow> Inl (HostKeyConfirmationRequiredError [(host_id, py_str repr name)]))
      else
        case dict_item ''address'' target of Inl e \<Rightarrow> Inl e | Inr address \<Rightarrow>
        case dict_item ''sshPort'' target of Inl e \<Rightarrow> Inl e | Inr p \<Rightarrow>
        case py_int (py_str repr p) of Inl e \<Rightarrow> Inl e | Inr port \<Rightarrow>
          Inr (map (\<lambda>k. host_marker (py_str repr address) port @ '' '' @ hk_algorithm k @ '' '' @ hk_public_key k) keys))"

fun known_hosts_lines :: "(json \<Rightarrow> string) \<Rightarrow> db \<Rightarrow> jobj list \<Rightarrow> ops_error + string list" where
  "known_hosts_lines repr db [] = Inr []"
| "known_hosts_lines repr db (t # ts) =
     (case known_hosts_of repr db t of
        Inl e \<Rightarrow> Inl e
      | Inr lines \<Rightarrow> (case known_hosts_lines repr db ts of Inl e \<Rightarrow> Inl e | Inr rest \<Rightarrow> Inr (lines @ rest)))"

definition known_hosts :: "(json \<Rightarrow> string) \<Rightarrow> db \<Rightarrow> run \<Rightarrow> ops_error + string" where
  "known_hosts repr db r =
     (case known_hosts_lines repr db (r_resolved_targets r) of
        Inl e \<Rightarrow> Inl e | Inr lines \<Rightarrow> Inr (py_join [CHR 0x0A] lines @ [CHR 0x0A]))"

end
