(* ===== verification/Worker_Execution.thy ===== *)
theory Worker_Execution
  imports Worker_Runtime
begin

text \<open>
  \<open>worker.py\<close>, second part: \<open>execute_run\<close> and an iteration of the worker's loop. A coroutine that calls
  services one after the other is an action on the database that may raise and keeps what the calls before
  committed. Ansible Runner, the SSH agents and the runtime directory are a script: whether the
  set-up succeeded, which events came in which order, with the monitor's ticks and the transactions of other
  processes between them, and how the runner ended. Calls read the clock and draw event ids at fixed places.
\<close>

section \<open>Actions\<close>

type_synonym 'a act = "db \<Rightarrow> (ops_error + 'a) \<times> db"

definition act_return :: "'a \<Rightarrow> 'a act" where "act_return a db = (Inr a, db)"

definition act_raise :: "ops_error \<Rightarrow> 'a act" where "act_raise e db = (Inl e, db)"

definition act_write :: "(db \<Rightarrow> db) \<Rightarrow> unit act" where "act_write f db = (Inr (), f db)"

definition act_bind :: "'a act \<Rightarrow> ('a \<Rightarrow> 'b act) \<Rightarrow> 'b act" where
  "act_bind m f db = (case m db of (Inl e, db1) \<Rightarrow> (Inl e, db1) | (Inr a, db1) \<Rightarrow> f a db1)"

definition act_then :: "'a act \<Rightarrow> 'b act \<Rightarrow> 'b act" where
  "act_then m n = act_bind m (\<lambda>_. n)"

section \<open>Preparation\<close>

record run_worker =
  wk_worker :: worker
  wk_run_service :: run_service
  wk_credentials :: credential_service
  wk_playbooks :: playbook_service
  wk_repr :: "json \<Rightarrow> string"

fun secret_names :: "json list \<Rightarrow> string list option" where
  "secret_names [] = Some []"
| "secret_names (JStr s # vs) = map_option (\<lambda>xs. s # xs) (secret_names vs)"
| "secret_names (_ # vs) = None"

text \<open>The flag says that the one-time secrets of the run are used up.\<close>

definition prepare_secrets ::
    "run_worker \<Rightarrow> env \<Rightarrow> run \<Rightarrow> db \<Rightarrow> (bool \<times> (ops_error + (string \<times> string) list)) \<times> db" where
  "prepare_secrets wk env r db =
     (case (case dict_get ''secretParameterNames'' (JList []) (r_operation_spec r) of JList vs \<Rightarrow> secret_names vs | _ \<Rightarrow> None) of
        None \<Rightarrow> ((False, Inl (ValueErr ''Run secret parameter metadata is invalid'')), db)
      | Some [] \<Rightarrow> ((False, Inr []), db)
      | Some names \<Rightarrow>
          (case consume_secret_inputs (wk_run_service wk) env (r_id r) names db of
             (Inl e, db1) \<Rightarrow> ((case e of SecretParametersRequiredError _ \<Rightarrow> True | _ \<Rightarrow> False, Inl e), db1)
           | (Inr vals, db1) \<Rightarrow> ((True, Inr vals), db1)))"

definition with_secret_parameters :: "(string \<times> string) list \<Rightarrow> run \<Rightarrow> ops_error + run" where
  "with_secret_parameters vals r =
     (if vals = [] then Inr r
      else (case dict_get ''extraVars'' (JObj []) (r_operation_spec r) of
              JObj vars \<Rightarrow>
                Inr (r\<lparr>r_operation_spec := dict_set ''extraVars'' (JObj (dict_update vars (map (\<lambda>(k, v). (k, JStr v)) vals)))
                         (r_operation_spec r)\<rparr>)
            | _ \<Rightarrow> Inl (ValueErr ''Run Playbook parameters are invalid'')))"

record run_material =
  rm_mounted :: "string list option"
  rm_content :: "string option"
  rm_files :: "playbook_file list"
  rm_entrypoint :: "string option"

definition no_material :: run_material where
  "no_material = \<lparr>rm_mounted = None, rm_content = None, rm_files = [], rm_entrypoint = None\<rparr>"

definition database_material :: "run_worker \<Rightarrow> run \<Rightarrow> db \<Rightarrow> ops_error + run_material" where
  "database_material wk r db =
     (case (r_playbook_id r, r_playbook_revision r) of
        (Some i, Some n) \<Rightarrow>
          (case get_revision i n db of
             None \<Rightarrow> Inl PlaybookNotFoundError
           | Some v \<Rightarrow>
               if Some (pv_sha256 v) \<noteq> r_workspace_revision r
               then Inl (ValueErr ''database Playbook revision hash does not match the Run'')
               else (case pv_format v of
                  PROJECT \<Rightarrow>
                    (case pv_entrypoint v of
                       None \<Rightarrow> Inl (ValueErr ''database Playbook entrypoint is missing'')
                     | Some entrypoint \<Rightarrow>
                         (case normalize_project (ps_sha256 (wk_playbooks wk)) (map (\<lambda>f. (pf_path f, pf_content f)) (pv_files v)) entrypoint of
                            Inl e \<Rightarrow> Inl e
                          | Inr verified \<Rightarrow>
                              if np_sha256 verified \<noteq> pv_sha256 v
                              then Inl (ValueErr ''database Playbook project digest does not match'')
                              else Inr (no_material\<lparr>rm_files := pv_files v, rm_entrypoint := Some entrypoint\<rparr>)))
                | LEGACY_SINGLE_YAML \<Rightarrow>
                    (case pv_content v of
                       None \<Rightarrow> Inl (ValueErr ''database Playbook content is missing'')
                     | Some content \<Rightarrow> Inr (no_material\<lparr>rm_content := Some content\<rparr>))))
      | _ \<Rightarrow> Inl PlaybookNotFoundError)"

definition mounted_material :: "run_worker \<Rightarrow> run \<Rightarrow> jobj \<Rightarrow> ops_error + run_material" where
  "mounted_material wk r reference =
     (let p = dict_get ''path'' JNull reference;
          raw = (if truthy p then p else dict_get ''playbookPath'' JNull (r_operation_spec r))
      in if raw = JNull then Inl PlaybookNotFoundError
         else let path = py_str (wk_repr wk) raw in
           (case catalog_get (wk_playbooks wk) path of
              Inl e \<Rightarrow> Inl e
            | Inr entry \<Rightarrow>
                if Some (pe_sha256 entry) \<noteq> r_workspace_revision r
                then Inl (ValueErr ''playbook content changed after this run was created'')
                else (case catalog_resolve (wk_playbooks wk) path of
                        Inl e \<Rightarrow> Inl e | Inr resolved \<Rightarrow> Inr (no_material\<lparr>rm_mounted := Some resolved\<rparr>))))"

definition playbook_material :: "run_worker \<Rightarrow> run \<Rightarrow> db \<Rightarrow> ops_error + run_material" where
  "playbook_material wk r db =
     (if r_kind r \<noteq> PLAYBOOK then Inr no_material
      else
        let reference = (case dict_get ''playbook'' JNull (r_operation_spec r) of JObj d \<Rightarrow> d | _ \<Rightarrow> []);
            source = dict_get ''source'' JNull reference
        in if source = JNull then mounted_material wk r reference
           else if py_str (wk_repr wk) source = ''DATABASE'' then database_material wk r db
           else if py_str (wk_repr wk) source = ''MOUNT'' then mounted_material wk r reference
           else Inl (ValueErr ''PlaybookSource''))"

record prepared_run =
  pp_run :: run
  pp_targets :: "run_target list"
  pp_material :: run_material
  pp_inventory :: prepared_inventory
  pp_secrets :: "string list"
  pp_known_hosts :: string

definition prepare_rest ::
    "run_worker \<Rightarrow> run_target list \<Rightarrow> (string \<times> string) list \<Rightarrow> run \<Rightarrow> db \<Rightarrow> ops_error + prepared_run" where
  "prepare_rest wk targets vals r0 db =
     (case with_secret_parameters vals r0 of Inl e \<Rightarrow> Inl e | Inr r \<Rightarrow>
      case playbook_material wk r db of Inl e \<Rightarrow> Inl e | Inr material \<Rightarrow>
      case runtime_inventory (wk_credentials wk) (wk_repr wk) db r of Inl e \<Rightarrow> Inl e | Inr inventory \<Rightarrow>
      case known_hosts (wk_repr wk) db r of Inl e \<Rightarrow> Inl e | Inr hosts_text \<Rightarrow>
        Inr \<lparr>pp_run = r, pp_targets = targets, pp_material = material, pp_inventory = inventory,
             pp_secrets = pi_secrets inventory @ map snd vals, pp_known_hosts = hosts_text\<rparr>)"

definition prepare_run ::
    "run_worker \<Rightarrow> env \<Rightarrow> run \<Rightarrow> db \<Rightarrow> (bool \<times> (ops_error + prepared_run)) \<times> db" where
  "prepare_run wk env r db =
     (case run_detail (r_id r) db of
        Inl e \<Rightarrow> ((False, Inl e), db)
      | Inr (_, targets) \<Rightarrow>
          (case prepare_secrets wk env r db of
             ((used, Inl e), db1) \<Rightarrow> ((used, Inl e), db1)
           | ((used, Inr vals), db1) \<Rightarrow> ((used, prepare_rest wk targets vals r db1), db1)))"

section \<open>A preparation that failed\<close>

text \<open>\<open>except (OpsError, ValueError, KeyError)\<close>.\<close>

definition caught :: "ops_error \<Rightarrow> bool" where
  "caught e \<longleftrightarrow> is_ops_error e \<or> (case e of ValueErr _ \<Rightarrow> True | KeyErr _ \<Rightarrow> True | _ \<Rightarrow> False)"

definition upper_char :: "char \<Rightarrow> char" where
  "upper_char c = (if CHR ''a'' \<le> c \<and> c \<le> CHR ''z'' then char_of (of_char c - 32 :: nat) else c)"

definition failure_code :: "bool \<Rightarrow> ops_error \<Rightarrow> string" where
  "failure_code interrupted e =
     (if interrupted then ''SECRET_INPUTS_CONSUMED''
      else (case e of
              HostKeyConfirmationRequiredError _ \<Rightarrow> ''HOST_KEY_CONFIRMATION_REQUIRED''
            | _ \<Rightarrow> (case error_code e of Some c \<Rightarrow> map upper_char c | None \<Rightarrow> ''PREPARATION_FAILED'')))"

definition failure_message :: "bool \<Rightarrow> ops_error \<Rightarrow> string" where
  "failure_message interrupted e =
     (if interrupted then ''run interrupted after consuming sensitive parameters''
      else (case e of
              HostKeyConfirmationRequiredError ((_, name) # _) \<Rightarrow> ''SSH host key confirmation is required for host '' @ name
            | _ \<Rightarrow> ''run preparation failed''))"

definition append_call ::
    "run_worker \<Rightarrow> env \<Rightarrow> uuid \<Rightarrow> uuid \<Rightarrow> string \<Rightarrow> string option \<Rightarrow> string option \<Rightarrow> jobj \<Rightarrow> uuid option \<Rightarrow> unit act" where
  "append_call wk env event_id run_id ty out task data target db =
     (case worker_append_event (wk_worker wk) env event_id run_id ty out task data target db of
        (Inl e, db1) \<Rightarrow> (Inl e, db1) | (Inr _, db1) \<Rightarrow> (Inr (), db1))"

definition finish_call ::
    "run_worker \<Rightarrow> env \<Rightarrow> uuid \<Rightarrow> uuid \<Rightarrow> run_status \<Rightarrow> int option \<Rightarrow> jobj \<Rightarrow> string option \<Rightarrow> string option \<Rightarrow>
     string option \<Rightarrow> unit act" where
  "finish_call wk env event_id run_id status rc summary code message stage db =
     (case worker_finish (wk_worker wk) env event_id run_id status rc summary code message stage db of
        (Inl e, db1) \<Rightarrow> (Inl e, db1) | (Inr _, db1) \<Rightarrow> (Inr (), db1))"

definition run_audit :: "run_worker \<Rightarrow> env \<Rightarrow> audit_action \<Rightarrow> audit_outcome \<Rightarrow> uuid \<Rightarrow> audit_details \<Rightarrow> db \<Rightarrow> db" where
  "run_audit wk env act outcome run_id d =
     audit_append env act outcome SRC_WORKER (d\<lparr>ad_run_id := Some run_id, ad_worker_id := Some (w_id (wk_worker wk)),
       ad_resource_type := Some ''run'', ad_resource_id := Some run_id\<rparr>)"

definition fail_preparation ::
    "run_worker \<Rightarrow> (nat \<Rightarrow> env) \<Rightarrow> (nat \<Rightarrow> uuid) \<Rightarrow> bool \<Rightarrow> ops_error \<Rightarrow> uuid \<Rightarrow> unit act" where
  "fail_preparation wk clock ids interrupted e run_id =
     act_then (act_write (run_audit wk (clock 1) (if interrupted then RUN_INTERRUPTED else RUN_PREPARATION_FAILED) AO_FAILED run_id
        (no_details\<lparr>ad_severity := SEV_WARNING, ad_failure_stage := Some ''run_preparation'', ad_retryable := Some interrupted,
           ad_error_code := Some (if interrupted then ''SECRET_INPUTS_CONSUMED''
              else (case error_code e of Some c \<Rightarrow> c | None \<Rightarrow> ''PREPARATION_FAILED''))\<rparr>)))
    (act_then (append_call wk (clock 2) (ids 2) run_id (if interrupted then ''run_interrupted'' else ''run_rejected'') None None
        [(''code'', JStr (failure_code interrupted e)), (''message'', JStr (failure_message interrupted e))] None)
      (finish_call wk (clock 3) (ids 3) run_id (if interrupted then RS_INTERRUPTED else RS_REJECTED) None []
        (Some (failure_code interrupted e)) (Some (failure_message interrupted e)) (Some ''run_preparation'')))"

section \<open>Running\<close>

datatype runner_step = Runner_Event env uuid jobj | Monitor env | Elsewhere "db \<Rightarrow> db"

datatype runner_end = Runner_Done "int option" string | Runner_Raised ops_error

datatype runtime_setup = Directory_Failed ops_error | Setup_Failed ops_error | Setup_Done

record run_script =
  sc_setup :: runtime_setup
  sc_steps :: "runner_step list"
  sc_end :: runner_end
  sc_cleaned :: bool

record execution =
  x_accumulators :: "(string \<times> accumulator) list"
  x_cancel :: bool

definition settle_event :: "string \<Rightarrow> jobj \<Rightarrow> accumulator \<Rightarrow> accumulator" where
  "settle_event ty event_data a =
     (if ty = ''runner_on_ok''
      then (let changed = (case dict_get ''res'' JNull event_data of JObj d \<Rightarrow> truthy (dict_get ''changed'' JNull d) | _ \<Rightarrow> False)
            in a\<lparr>ac_status := TS_SUCCEEDED, ac_changed := ac_changed a + (if changed then 1 else 0)\<rparr>)
      else if ty = ''runner_on_failed'' then a\<lparr>ac_status := TS_FAILED, ac_failed := ac_failed a + 1\<rparr>
      else if ty = ''runner_on_unreachable'' then a\<lparr>ac_status := TS_UNREACHABLE, ac_unreachable := ac_unreachable a + 1\<rparr>
      else if ty = ''runner_on_skipped'' then a\<lparr>ac_status := TS_SKIPPED\<rparr>
      else a)"

definition event_dict :: "jobj \<Rightarrow> jobj" where
  "event_dict ev = (case dict_get ''event_data'' JNull ev of JObj d \<Rightarrow> d | _ \<Rightarrow> [])"

definition event_type :: "run_worker \<Rightarrow> jobj \<Rightarrow> string" where
  "event_type wk ev = py_str (wk_repr wk) (dict_get ''event'' (JStr ''runner_event'') ev)"

definition event_stdout :: "run_worker \<Rightarrow> jobj \<Rightarrow> string" where
  "event_stdout wk ev =
     (if truthy (dict_get ''stdout'' JNull ev) then py_str (wk_repr wk) (dict_get ''stdout'' JNull ev) else [])"

definition event_host :: "run_worker \<Rightarrow> jobj \<Rightarrow> string option" where
  "event_host wk ev =
     (let host = dict_get ''host'' JNull (event_dict ev) in if host = JNull then None else Some (py_str (wk_repr wk) host))"

definition event_task :: "run_worker \<Rightarrow> jobj \<Rightarrow> string option" where
  "event_task wk ev =
     (let task = dict_get ''task'' JNull (event_dict ev) in if task = JNull then None else Some (py_str (wk_repr wk) task))"

definition event_accumulator :: "run_worker \<Rightarrow> jobj \<Rightarrow> execution \<Rightarrow> accumulator option" where
  "event_accumulator wk ev x = (case event_host wk ev of None \<Rightarrow> None | Some name \<Rightarrow> map_of (x_accumulators x) name)"

definition collect_event :: "run_worker \<Rightarrow> nat \<Rightarrow> jobj \<Rightarrow> execution \<Rightarrow> execution" where
  "collect_event wk limit ev x =
     (case (event_host wk ev, event_accumulator wk ev x) of
        (Some name, Some a) \<Rightarrow>
          x\<lparr>x_accumulators := dict_set name
              (settle_event (event_type wk ev) (event_dict ev)
                 (if event_stdout wk ev \<noteq> [] then add_output limit (event_stdout wk ev @ [CHR 0x0A]) a else a))
              (x_accumulators x)\<rparr>
      | _ \<Rightarrow> x)"

definition record_event ::
    "run_worker \<Rightarrow> env \<Rightarrow> uuid \<Rightarrow> nat \<Rightarrow> uuid \<Rightarrow> jobj \<Rightarrow> execution \<Rightarrow> execution act" where
  "record_event wk env event_id limit run_id ev x =
     act_then (append_call wk env event_id run_id (event_type wk ev)
         (if event_stdout wk ev = [] then None else Some (event_stdout wk ev)) (event_task wk ev) (event_dict ev)
         (map_option (\<lambda>a. t_id (ac_target a)) (event_accumulator wk ev x)))
       (act_return (collect_event wk limit ev x))"

fun run_steps ::
    "run_worker \<Rightarrow> nat \<Rightarrow> uuid \<Rightarrow> string list \<Rightarrow> runner_step list \<Rightarrow> execution \<Rightarrow> execution act" where
  "run_steps wk limit run_id secrets [] x = act_return x"
| "run_steps wk limit run_id secrets (Runner_Event env event_id raw # steps) x =
     act_bind (record_event wk env event_id limit run_id (case sanitize secrets (JObj raw) of JObj ev \<Rightarrow> ev | _ \<Rightarrow> []) x)
       (run_steps wk limit run_id secrets steps)"
| "run_steps wk limit run_id secrets (Monitor env # steps) x =
     (\<lambda>db. let db1 = worker_heartbeat (wk_worker wk) env (Some run_id) db
           in run_steps wk limit run_id secrets steps (x\<lparr>x_cancel := x_cancel x \<or> cancellation_requested run_id db1\<rparr>) db1)"
| "run_steps wk limit run_id secrets (Elsewhere f # steps) x = (\<lambda>db. run_steps wk limit run_id secrets steps x (f db))"

definition run_body ::
    "run_worker \<Rightarrow> (nat \<Rightarrow> env) \<Rightarrow> (nat \<Rightarrow> uuid) \<Rightarrow> run_script \<Rightarrow> prepared_run \<Rightarrow> uuid \<Rightarrow> (execution \<times> int option \<times> string) act" where
  "run_body wk clock ids script p run_id =
     (case sc_setup script of
        Directory_Failed e \<Rightarrow> act_raise e
      | Setup_Failed e \<Rightarrow>
          act_then (act_write (run_audit wk (clock 4) RUNTIME_DIRECTORY_CREATED AO_SUCCEEDED run_id no_details)) (act_raise e)
      | Setup_Done \<Rightarrow>
          act_then (act_write (run_audit wk (clock 4) RUNTIME_DIRECTORY_CREATED AO_SUCCEEDED run_id no_details))
         (act_then (act_write (worker_mark_running (wk_worker wk) (clock 5) run_id))
         (act_then (append_call wk (clock 6) (ids 6) run_id ''run_started'' None None [] None)
         (act_bind (run_steps wk (per_host_limit (w_settings (wk_worker wk)) (length (pp_targets p))) run_id (pp_secrets p) (sc_steps script)
              \<lparr>x_accumulators = accumulators_of (pp_targets p), x_cancel = False\<rparr>) (\<lambda>x.
            case sc_end script of
              Runner_Raised e \<Rightarrow> act_raise e
            | Runner_Done rc status \<Rightarrow> act_return (x, rc, status))))))"

definition cleaned_audit :: "run_worker \<Rightarrow> env \<Rightarrow> run_script \<Rightarrow> uuid \<Rightarrow> db \<Rightarrow> db" where
  "cleaned_audit wk env script run_id db =
     (case sc_setup script of
        Directory_Failed _ \<Rightarrow> db
      | _ \<Rightarrow> run_audit wk env RUNTIME_DIRECTORY_CLEANED (if sc_cleaned script then AO_SUCCEEDED else AO_FAILED) run_id
          (no_details\<lparr>ad_severity := (if sc_cleaned script then SEV_INFO else SEV_ERROR),
             ad_error_code := (if sc_cleaned script then None else Some ''runtime_cleanup_failed''),
             ad_failure_stage := (if sc_cleaned script then None else Some ''runtime_cleanup''),
             ad_retryable := (if sc_cleaned script then None else Some False)\<rparr>) db)"

definition fail_execution ::
    "run_worker \<Rightarrow> (nat \<Rightarrow> env) \<Rightarrow> (nat \<Rightarrow> uuid) \<Rightarrow> bool \<Rightarrow> uuid \<Rightarrow> unit act" where
  "fail_execution wk clock ids interrupted run_id =
     (let message = (if interrupted then ''run interrupted after consuming sensitive parameters'' else ''runner execution failed'')
      in act_then (append_call wk (clock 7) (ids 7) run_id (if interrupted then ''run_interrupted'' else ''runner_error'') None None
             [(''message'', JStr message)] None)
           (finish_call wk (clock 8) (ids 8) run_id (if interrupted then RS_INTERRUPTED else RS_FAILED) None []
             (Some (if interrupted then ''SECRET_INPUTS_CONSUMED'' else ''RUNNER_ERROR'')) (Some message)
             (Some (if interrupted then ''run_preparation'' else ''runner_execution''))))"

section \<open>The end of a run\<close>

definition settled_status :: "bool \<Rightarrow> int option \<Rightarrow> accumulator \<Rightarrow> run_target_status" where
  "settled_status canceled rc a =
     (if canceled then TS_CANCELED
      else if ac_status a = TS_RUNNING then (if rc = Some 0 then TS_SUCCEEDED else TS_FAILED) else ac_status a)"

definition good_target :: "run_target_status \<Rightarrow> bool" where
  "good_target s \<longleftrightarrow> s \<in> {TS_SUCCEEDED, TS_SKIPPED}"

definition final_status :: "bool \<Rightarrow> string \<Rightarrow> nat \<Rightarrow> nat \<Rightarrow> int option \<Rightarrow> run_status" where
  "final_status canceled runner_status failures successes rc =
     (if canceled then RS_CANCELED
      else if casefold runner_status \<in> {''timeout'', ''timed_out''} then RS_TIMED_OUT
      else if failures \<noteq> 0 \<and> successes \<noteq> 0 then RS_PARTIAL
      else if failures \<noteq> 0 \<or> rc \<notin> {Some 0, None} then RS_FAILED
      else RS_SUCCEEDED)"

fun finish_targets ::
    "run_worker \<Rightarrow> (nat \<Rightarrow> env) \<Rightarrow> uuid \<Rightarrow> bool \<Rightarrow> int option \<Rightarrow> nat \<Rightarrow> accumulator list \<Rightarrow> db \<Rightarrow> db" where
  "finish_targets wk clock run_id canceled rc k [] db = db"
| "finish_targets wk clock run_id canceled rc k (a # as) db =
     finish_targets wk clock run_id canceled rc (k + 1) as
       (worker_finish_target (wk_worker wk) (clock k) run_id (t_id (ac_target a)) (t_host_id (ac_target a)) (settled_status canceled rc a)
          rc (concat (ac_chunks a)) [] [] (ac_truncated a) (ac_changed a) (ac_failed a) (ac_unreachable a) db)"

definition finish_run ::
    "run_worker \<Rightarrow> (nat \<Rightarrow> env) \<Rightarrow> (nat \<Rightarrow> uuid) \<Rightarrow> uuid \<Rightarrow> execution \<Rightarrow> int option \<Rightarrow> string \<Rightarrow> unit act" where
  "finish_run wk clock ids run_id x rc runner_status =
     (let accs = map snd (x_accumulators x);
          good = length (filter (\<lambda>a. good_target (settled_status (x_cancel x) rc a)) accs);
          bad = length accs - good
      in act_then (act_write (finish_targets wk clock run_id (x_cancel x) rc 11 accs))
           (finish_call wk (clock 10) (ids 10) run_id (final_status (x_cancel x) runner_status bad good rc) rc
              [(''total'', JInt (int (length accs))), (''succeeded'', JInt (int good)), (''failed'', JInt (int bad))] None None None))"

definition run_prepared ::
    "run_worker \<Rightarrow> (nat \<Rightarrow> env) \<Rightarrow> (nat \<Rightarrow> uuid) \<Rightarrow> run_script \<Rightarrow> bool \<Rightarrow> prepared_run \<Rightarrow> uuid \<Rightarrow> unit act" where
  "run_prepared wk clock ids script used p run_id db =
     (case run_body wk clock ids script p run_id db of
        (Inl e, db1) \<Rightarrow>
          (case fail_execution wk clock ids (used \<and> sc_setup script \<noteq> Setup_Done) run_id db1 of
             (res, db2) \<Rightarrow> (res, cleaned_audit wk (clock 9) script run_id db2))
      | (Inr (x, rc, status), db1) \<Rightarrow> finish_run wk clock ids run_id x rc status (cleaned_audit wk (clock 9) script run_id db1))"

definition execute_run ::
    "run_worker \<Rightarrow> (nat \<Rightarrow> env) \<Rightarrow> (nat \<Rightarrow> uuid) \<Rightarrow> run_script \<Rightarrow> run \<Rightarrow> unit act" where
  "execute_run wk clock ids script r db =
     (case prepare_run wk (clock 0) r db of
        ((used, Inl e), db1) \<Rightarrow>
          if caught e then fail_preparation wk clock ids used e (r_id r) db1 else (Inl e, db1)
      | ((used, Inr p), db1) \<Rightarrow> run_prepared wk clock ids script used p (r_id r) db1)"

text \<open>
  The part of the loop of \<open>run_worker\<close> that claims and executes: an exception that leaves \<open>execute_run\<close>
  interrupts the run.
\<close>

definition worker_iteration ::
    "run_worker \<Rightarrow> (nat \<Rightarrow> env) \<Rightarrow> (nat \<Rightarrow> uuid) \<Rightarrow> (nat \<Rightarrow> env) \<Rightarrow> (db \<Rightarrow> db) \<Rightarrow> uuid list \<Rightarrow> run_script \<Rightarrow> uuid \<Rightarrow> unit act" where
  "worker_iteration wk clock ids loop_clock others locked_rows script event_id db =
     (case worker_claim others locked_rows (wk_worker wk) (loop_clock 1) (worker_heartbeat (wk_worker wk) (loop_clock 0) None db) of
        (Inl e, db1) \<Rightarrow> (Inr (), db1)
      | (Inr None, db1) \<Rightarrow> (Inr (), db1)
      | (Inr (Some r), db1) \<Rightarrow>
          (case execute_run wk clock ids script r db1 of
             (Inr _, db2) \<Rightarrow> (Inr (), db2)
           | (Inl e, db2) \<Rightarrow>
               finish_call wk (loop_clock 2) event_id (r_id r) RS_INTERRUPTED None [] (Some ''WORKER_LOOP_ERROR'')
                 (Some ''worker loop failed during execution'') (Some ''worker_loop'') db2))"

end
