(* ===== verification/Worker_Properties.thy ===== *)
theory Worker_Properties
  imports Worker_Execution Run_Machine
begin

text \<open>
  The worker against the state machine of the queue: whatever its runner reports, the calls of \<open>execute_run\<close>
  are steps the machine allows, and an iteration that claimed a run ends it.
\<close>

lemma exec_append: "exec step s ls s1 \<Longrightarrow> exec step s1 ls' s2 \<Longrightarrow> exec step s (ls @ ls') s2"
  by (induction rule: exec.induct) (auto intro: exec.intros)

lemma exec_one: "step l s s' \<Longrightarrow> exec step s [l] s'"
  by (auto intro: exec.intros)

section \<open>A run of this worker\<close>

definition mine :: "worker \<Rightarrow> uuid \<Rightarrow> run_target list \<Rightarrow> db \<Rightarrow> bool" where
  "mine w i ts db \<longleftrightarrow> run_inv db \<and>
     (\<exists>r. get_run i db = Some r \<and> r_claimed_by r = Some (w_id w) \<and> r_status r \<noteq> RS_QUEUED) \<and>
     (\<forall>t \<in> set ts. t_run_id t = i \<and> target_identity t \<in> target_identity ` set (run_targets db))"

lemma mine_exec:
  assumes "exec run_step db ls db'" and "mine w i ts db"
  shows "mine w i ts db'"
proof -
  have inv: "run_inv db" using assms(2) by (simp add: mine_def)
  obtain r where r: "get_run i db = Some r" "r_claimed_by r = Some (w_id w)" "r_status r \<noteq> RS_QUEUED"
    using assms(2) by (auto simp: mine_def)
  have kept: "history_kept db db'" by (rule queue.exec_below [OF assms(1) inv])
  then obtain r' where r': "get_run i db' = Some r'" "run_evolves r r'" using r(1) by (auto simp: history_kept_def)
  have "r_status r' \<noteq> RS_QUEUED" using r'(2) r(3) by (cases "r_status r") (auto simp: run_evolves_def)
  moreover have "target_identity ` set (run_targets db) \<subseteq> target_identity ` set (run_targets db')"
    using kept by (auto simp: history_kept_def) (metis Un_iff image_eqI list.set_map set_append)
  ultimately show ?thesis
    using assms(2) queue.exec_ok [OF assms(1) inv] r' r(2) by (auto simp: mine_def run_evolves_def)
qed

text \<open>An action of the worker takes steps of the machine.\<close>

definition stepping :: "worker \<Rightarrow> uuid \<Rightarrow> run_target list \<Rightarrow> 'a act \<Rightarrow> bool" where
  "stepping w i ts m \<longleftrightarrow> (\<forall>db. mine w i ts db \<longrightarrow> (\<exists>ls. exec run_step db ls (snd (m db))))"

named_theorems stepping_intros

lemma stepping_one: "(\<And>db. mine w i ts db \<Longrightarrow> \<exists>l. run_step l db (snd (m db))) \<Longrightarrow> stepping w i ts m"
  unfolding stepping_def by (metis exec_one)

lemma stepping_return [stepping_intros]: "stepping w i ts (act_return a)" "stepping w i ts (act_raise e)"
  by (auto simp: stepping_def act_return_def act_raise_def intro: exec.exec_refl)

lemma stepping_write: "(\<And>db. mine w i ts db \<Longrightarrow> \<exists>l. run_step l db (f db)) \<Longrightarrow> stepping w i ts (act_write f)"
  by (rule stepping_one) (simp add: act_write_def)

lemma stepping_bind [stepping_intros]:
  assumes "stepping w i ts m" and "\<And>a. stepping w i ts (f a)"
  shows "stepping w i ts (act_bind m f)"
  unfolding stepping_def
proof (intro allI impI)
  fix db assume I: "mine w i ts db"
  obtain x db1 where m: "m db = (x, db1)" by fastforce
  obtain ls where ls: "exec run_step db ls db1" using assms(1) I m by (auto simp: stepping_def)
  show "\<exists>ls. exec run_step db ls (snd (act_bind m f db))"
  proof (cases x)
    case (Inl e)
    then show ?thesis using ls m by (auto simp: act_bind_def)
  next
    case (Inr a)
    have "mine w i ts db1" by (rule mine_exec [OF ls I])
    then obtain ls' where "exec run_step db1 ls' (snd (f a db1))" using assms(2) by (auto simp: stepping_def)
    then have "exec run_step db (ls @ ls') (snd (f a db1))" by (rule exec_append [OF ls])
    then show ?thesis using Inr m by (auto simp: act_bind_def)
  qed
qed

lemma stepping_then [stepping_intros]: "stepping w i ts m \<Longrightarrow> stepping w i ts n \<Longrightarrow> stepping w i ts (act_then m n)"
  unfolding act_then_def by (rule stepping_bind)

section \<open>The calls\<close>

lemma stepping_audit [stepping_intros]: "stepping w i ts (act_write (run_audit wk env act outcome j d))"
  unfolding run_audit_def by (rule stepping_write) (metis run_step.other same_run_tables_audit)

lemma snd_append_call: "snd (append_call wk env e j ty out task data tgt db) =
    snd (worker_append_event (wk_worker wk) env e j ty out task data tgt db)"
  by (auto simp: append_call_def split: prod.splits sum.splits)

lemma snd_finish_call: "snd (finish_call wk env e j st rc sm c m sg db) = snd (worker_finish (wk_worker wk) env e j st rc sm c m sg db)"
  by (auto simp: finish_call_def split: prod.splits sum.splits)

lemma stepping_append [stepping_intros]: "stepping w i ts (append_call wk env e j ty out task data tgt)"
  by (rule stepping_one) (metis snd_append_call run_step.worker_append_event)

lemma stepping_finish: "terminal st \<Longrightarrow> stepping w i ts (finish_call wk env e j st rc sm c m sg)"
  by (rule stepping_one) (metis snd_finish_call run_step.worker_finish)

lemma stepping_mark_running [stepping_intros]: "stepping w i ts (act_write (worker_mark_running w env i))"
  by (rule stepping_write) (auto simp: mine_def intro: run_step.worker_mark_running)

lemma stepping_fail_preparation [stepping_intros]: "stepping w i ts (fail_preparation wk clock ids used e j)"
  unfolding fail_preparation_def by (intro stepping_intros stepping_finish) (simp add: TERMINAL_RUN_STATUSES_def)

lemma stepping_fail_execution [stepping_intros]: "stepping w i ts (fail_execution wk clock ids used j)"
  unfolding fail_execution_def Let_def by (intro stepping_intros stepping_finish) (simp add: TERMINAL_RUN_STATUSES_def)

lemma consume_step: "\<exists>l. run_step l db (snd (consume_secret_inputs svc env j names db))"
  using run_step.consume by blast

lemma snd_prepare_secrets:
  "snd (prepare_secrets wk env r db) = db \<or>
     (\<exists>names. snd (prepare_secrets wk env r db) = snd (consume_secret_inputs (wk_run_service wk) env (r_id r) names db))"
proof -
  let ?n = "case dict_get ''secretParameterNames'' (JList []) (r_operation_spec r) of JList vs \<Rightarrow> secret_names vs | _ \<Rightarrow> None"
  consider "?n = None \<or> ?n = Some []" | n ns where "?n = Some (n # ns)" by (cases ?n; metis list.exhaust option.exhaust)
  then show ?thesis
  proof cases
    case 1
    then show ?thesis by (auto simp: prepare_secrets_def)
  next
    case (2 n ns)
    then have "snd (prepare_secrets wk env r db) = snd (consume_secret_inputs (wk_run_service wk) env (r_id r) (n # ns) db)"
      by (simp add: prepare_secrets_def split: prod.splits sum.splits)
    then show ?thesis by blast
  qed
qed

lemma prepare_exec: "\<exists>ls. exec run_step db ls (snd (prepare_run wk env r db))"
proof -
  obtain ls where ls: "exec run_step db ls (snd (prepare_secrets wk env r db))"
    using snd_prepare_secrets [of wk env r db] exec.exec_refl exec_one consume_step by metis
  have "snd (prepare_run wk env r db) \<in> {db, snd (prepare_secrets wk env r db)}"
    by (auto simp: prepare_run_def split: sum.splits prod.splits)
  then show ?thesis using ls exec.exec_refl by (metis insertE singletonD)
qed

section \<open>Events and accumulators\<close>

definition accs_ok :: "run_target list \<Rightarrow> execution \<Rightarrow> bool" where
  "accs_ok ts x \<longleftrightarrow> (\<forall>a \<in> snd ` set (x_accumulators x). ac_target a \<in> set ts \<and> ac_status a \<noteq> TS_PENDING)"

lemma values_dict_set: "x \<in> snd ` set (dict_set k v d) \<Longrightarrow> x = v \<or> x \<in> snd ` set d"
proof (induction d)
  case (Cons kv d)
  then show ?case by (cases kv) (auto split: if_splits)
qed simp

lemma accumulators_ok: "accs_ok ts \<lparr>x_accumulators = accumulators_of ts, x_cancel = c\<rparr>"
proof -
  have "a \<in> snd ` set (fold (\<lambda>t. dict_set (t_host_name t) (new_accumulator t)) ts' d) \<Longrightarrow> a \<in> new_accumulator ` set ts' \<or> a \<in> snd ` set d" for a ts' d
  proof (induction ts' arbitrary: d)
    case (Cons t ts')
    then show ?case using values_dict_set [of a "t_host_name t" "new_accumulator t" d] by force
  qed simp
  from this [of _ ts "[]"] have "a \<in> new_accumulator ` set ts" if "a \<in> snd ` set (accumulators_of ts)" for a
    using that by (auto simp: accumulators_of_def)
  moreover have "ac_target (new_accumulator t) = t" "ac_status (new_accumulator t) \<noteq> TS_PENDING" for t by (simp_all add: new_accumulator_def)
  ultimately show ?thesis unfolding accs_ok_def execution.simps by (metis imageE)
qed

lemma settle_event_keeps [simp]:
  "ac_target (settle_event ty data a) = ac_target a" "ac_target (add_output limit out a) = ac_target a"
  "ac_status (add_output limit out a) = ac_status a" "ac_status a \<noteq> TS_PENDING \<Longrightarrow> ac_status (settle_event ty data a) \<noteq> TS_PENDING"
  by (auto simp: settle_event_def add_output_def Let_def)

lemma collect_event_ok:
  assumes "accs_ok ts x"
  shows "accs_ok ts (collect_event wk limit ev x)"
proof (cases "\<exists>name a. event_host wk ev = Some name \<and> event_accumulator wk ev x = Some a")
  case True
  then obtain name a where a: "event_host wk ev = Some name" "event_accumulator wk ev x = Some a" by blast
  then have "(name, a) \<in> set (x_accumulators x)" by (auto simp: event_accumulator_def dest: map_of_SomeD)
  then have "ac_target a \<in> set ts \<and> ac_status a \<noteq> TS_PENDING" using assms by (force simp: accs_ok_def)
  moreover define v where "v = settle_event (event_type wk ev) (event_dict ev)
      (if event_stdout wk ev \<noteq> [] then add_output limit (event_stdout wk ev @ [CHR 0x0A]) a else a)"
  ultimately have v: "ac_target v \<in> set ts \<and> ac_status v \<noteq> TS_PENDING" by simp
  have x': "x_accumulators (collect_event wk limit ev x) = dict_set name v (x_accumulators x)"
    using a by (simp add: collect_event_def v_def)
  show ?thesis unfolding accs_ok_def x' using values_dict_set assms v by (metis accs_ok_def)
next
  case False
  then have "collect_event wk limit ev x = x"
    by (auto simp: collect_event_def event_accumulator_def split: option.splits)
  then show ?thesis using assms by simp
qed

lemma record_event_InrD:
  "record_event wk env e limit j ev x db = (Inr x', db') \<Longrightarrow> x' = collect_event wk limit ev x"
  by (auto simp: record_event_def act_then_def act_bind_def act_return_def split: prod.splits sum.splits)

lemma act_bind_InrD: "act_bind m f db = (Inr b, db') \<Longrightarrow> \<exists>a db1. m db = (Inr a, db1) \<and> f a db1 = (Inr b, db')"
  by (auto simp: act_bind_def split: prod.splits sum.splits)

lemma run_steps_ok: "run_steps wk limit j secrets steps x db = (Inr x', db') \<Longrightarrow> accs_ok ts x \<Longrightarrow> accs_ok ts x'"
proof (induction wk limit j secrets steps x arbitrary: db rule: run_steps.induct)
  case (2 wk limit j secrets env e raw steps x)
  from act_bind_InrD [OF 2(2) [unfolded run_steps.simps]] obtain x1 db1 where
    one: "record_event wk env e limit j (case sanitize secrets (JObj raw) of JObj ev \<Rightarrow> ev | _ \<Rightarrow> []) x db = (Inr x1, db1)"
      "run_steps wk limit j secrets steps x1 db1 = (Inr x', db')" by blast
  have "accs_ok ts x1" unfolding record_event_InrD [OF one(1)] by (rule collect_event_ok [OF 2(3)])
  then show ?case by (rule 2(1) [OF one(2)])
next
  case (3 wk limit j secrets env steps x)
  let ?db1 = "worker_heartbeat (wk_worker wk) env (Some j) db"
  have "run_steps wk limit j secrets steps (x\<lparr>x_cancel := x_cancel x \<or> cancellation_requested j ?db1\<rparr>) ?db1 = (Inr x', db')"
    using 3(2) by (simp add: Let_def)
  moreover have "accs_ok ts (x\<lparr>x_cancel := x_cancel x \<or> cancellation_requested j ?db1\<rparr>)" using 3(3) by (simp add: accs_ok_def)
  ultimately show ?case by (rule 3(1) [OF refl])
qed (auto simp: act_return_def)

text \<open>The transactions of other processes are executions of the machine, whatever they are.\<close>

definition elsewhere_ok :: "runner_step list \<Rightarrow> bool" where
  "elsewhere_ok steps \<longleftrightarrow> (\<forall>f. Elsewhere f \<in> set steps \<longrightarrow> (\<forall>db. run_inv db \<longrightarrow> (\<exists>ls. exec run_step db ls (f db))))"

lemma stepping_run_steps:
  "worker_ok (wk_worker wk) \<Longrightarrow> elsewhere_ok steps \<Longrightarrow> stepping (wk_worker wk) i ts (run_steps wk limit i secrets steps x)"
proof (induction wk limit i secrets steps x rule: run_steps.induct)
  case (1 wk limit i secrets x)
  show ?case by (simp add: stepping_intros)
next
  case (2 wk limit i secrets env e raw steps x)
  then have rest: "stepping (wk_worker wk) i ts (run_steps wk limit i secrets steps x')" for x' by (auto simp: elsewhere_ok_def)
  show ?case unfolding run_steps.simps record_event_def by (intro stepping_intros rest)
next
  case (3 wk limit i secrets env steps x)
  have rest: "stepping (wk_worker wk) i ts (run_steps wk limit i secrets steps x')" if "db1 = worker_heartbeat (wk_worker wk) env (Some i) db" "x' = x\<lparr>x_cancel := x_cancel x \<or> cancellation_requested i db1\<rparr>" for x' db db1
    using 3 that by (auto simp: elsewhere_ok_def)
  show ?case
    unfolding stepping_def
  proof (intro allI impI)
    fix db assume I: "mine (wk_worker wk) i ts db"
    let ?db1 = "worker_heartbeat (wk_worker wk) env (Some i) db"
    have beat: "exec run_step db [(e_now env, Some (w_id (wk_worker wk)))] ?db1" by (rule exec_one) (rule run_step.worker_heartbeat [OF 3(2)])
    obtain ls where "exec run_step ?db1 ls (snd (run_steps wk limit i secrets steps (x\<lparr>x_cancel := x_cancel x \<or> cancellation_requested i ?db1\<rparr>) ?db1))"
      using rest [OF refl refl] mine_exec [OF beat I] unfolding stepping_def by blast
    from exec_append [OF beat this] show "\<exists>ls. exec run_step db ls (snd (run_steps wk limit i secrets (Monitor env # steps) x db))"
      by (auto simp: Let_def)
  qed
next
  case (4 wk limit i secrets f steps x)
  show ?case
    unfolding stepping_def
  proof (intro allI impI)
    fix db assume I: "mine (wk_worker wk) i ts db"
    have "run_inv db" using I by (simp add: mine_def)
    then obtain ls where ls: "exec run_step db ls (f db)" using 4(3) unfolding elsewhere_ok_def by (metis list.set_intros(1))
    obtain ls' where "exec run_step (f db) ls' (snd (run_steps wk limit i secrets steps x (f db)))"
      using 4 mine_exec [OF ls I] by (auto simp: stepping_def elsewhere_ok_def)
    from exec_append [OF ls this] show "\<exists>ls. exec run_step db ls (snd (run_steps wk limit i secrets (Elsewhere f # steps) x db))" by auto
  qed
qed

section \<open>The whole run\<close>

lemma settled_final: "ac_status a \<noteq> TS_PENDING \<Longrightarrow> settled_status c rc a \<notin> {TS_PENDING, TS_RUNNING}"
  by (auto simp: settled_status_def)

lemma final_status_terminal: "terminal (final_status c st bad good rc)"
  by (simp add: final_status_def TERMINAL_RUN_STATUSES_def)

lemma finish_target_step:
  assumes "mine w i ts db" and "t \<in> set ts" and "status \<notin> {TS_PENDING, TS_RUNNING}"
  shows "run_step (e_now env, None) db (worker_finish_target w env i (t_id t) (t_host_id t) status rc out err result tr ch fa un db)"
proof -
  obtain t' where t': "t' \<in> set (run_targets db)" "target_identity t' = target_identity t" "t_run_id t = i"
    using assms(1,2) unfolding mine_def by (metis imageE)
  moreover obtain r where "get_run i db = Some r" "r_claimed_by r = Some (w_id w)" using assms(1) by (auto simp: mine_def)
  ultimately show ?thesis
    using run_step.worker_finish_target [of t' db r w status env rc out err result tr ch fa un] assms(3) by (simp add: target_identity_def)
qed

lemma finish_targets_exec:
  assumes "mine (wk_worker wk) i ts db" and "\<And>a. a \<in> set as \<Longrightarrow> ac_target a \<in> set ts \<and> ac_status a \<noteq> TS_PENDING"
  shows "\<exists>ls. exec run_step db ls (finish_targets wk clock i c rc k as db)"
  using assms
proof (induction as arbitrary: k db)
  case (Cons a as)
  let ?db1 = "worker_finish_target (wk_worker wk) (clock k) i (t_id (ac_target a)) (t_host_id (ac_target a)) (settled_status c rc a)
      rc (concat (ac_chunks a)) [] [] (ac_truncated a) (ac_changed a) (ac_failed a) (ac_unreachable a) db"
  have "exec run_step db [(e_now (clock k), None)] ?db1"
    by (rule exec_one, rule finish_target_step [OF Cons.prems(1)]) (use Cons.prems(2) [of a] settled_final in simp_all)
  moreover from mine_exec [OF this Cons.prems(1)] obtain ls where "exec run_step ?db1 ls (finish_targets wk clock i c rc (k + 1) as ?db1)"
    using Cons.IH [of ?db1 "k + 1"] Cons.prems(2) by auto
  ultimately show ?case by (auto dest: exec_append)
qed (auto intro: exec.exec_refl)

lemma stepping_finish_targets:
  assumes "accs_ok ts x"
  shows "stepping (wk_worker wk) i ts (act_write (finish_targets wk clock i c rc k (map snd (x_accumulators x))))"
  unfolding stepping_def act_write_def snd_conv
  by (intro allI impI finish_targets_exec) (use assms in \<open>auto simp: accs_ok_def\<close>)

lemma stepping_finish_run:
  assumes "accs_ok ts x"
  shows "stepping (wk_worker wk) i ts (finish_run wk clock ids i x rc st)"
  unfolding finish_run_def Let_def
  by (intro stepping_then stepping_finish_targets [OF assms] stepping_finish final_status_terminal)

lemma stepping_run_body:
  assumes "worker_ok (wk_worker wk)" and "elsewhere_ok (sc_steps script)"
  shows "stepping (wk_worker wk) i ts (run_body wk clock ids script p i)"
proof -
  have "stepping (wk_worker wk) i ts (case sc_end script of Runner_Raised e \<Rightarrow> act_raise e | Runner_Done rc status \<Rightarrow> act_return (x, rc, status))" for x
    by (cases "sc_end script") (simp_all add: stepping_intros)
  then show ?thesis unfolding run_body_def
    by (cases "sc_setup script") (simp_all, (intro stepping_intros stepping_run_steps assms | assumption)+)
qed

lemma cleaned_step: "\<exists>ls. exec run_step db ls (cleaned_audit wk env script j db)"
  unfolding cleaned_audit_def run_audit_def
  by (cases "sc_setup script") (auto intro: exec.exec_refl exec_one run_step.other same_run_tables_audit)

lemma run_body_accs:
  assumes "run_body wk clock ids script p i db = (Inr (x, rc, st), db')"
  shows "accs_ok (pp_targets p) x"
proof -
  obtain db1 where "run_steps wk (per_host_limit (w_settings (wk_worker wk)) (length (pp_targets p))) i (pp_secrets p) (sc_steps script)
      \<lparr>x_accumulators = accumulators_of (pp_targets p), x_cancel = False\<rparr> db1 = (Inr x, db')"
    using assms unfolding run_body_def act_then_def
    by (cases "sc_setup script"; cases "sc_end script") (auto simp: act_raise_def act_return_def dest!: act_bind_InrD)
  from run_steps_ok [OF this accumulators_ok] show ?thesis .
qed

lemma stepping_run_prepared:
  assumes "worker_ok (wk_worker wk)" and "elsewhere_ok (sc_steps script)" and "pp_targets p = ts"
  shows "stepping (wk_worker wk) i ts (run_prepared wk clock ids script used p i)"
  unfolding stepping_def
proof (intro allI impI)
  fix db assume I: "mine (wk_worker wk) i ts db"
  obtain res db1 where body: "run_body wk clock ids script p i db = (res, db1)" by fastforce
  obtain ls where ls: "exec run_step db ls db1" using stepping_run_body [OF assms(1,2)] I body by (metis snd_conv stepping_def)
  note I1 = mine_exec [OF ls I]
  show "\<exists>ls. exec run_step db ls (snd (run_prepared wk clock ids script used p i db))"
  proof (cases res)
    case (Inl e)
    let ?f = "fail_execution wk clock ids (used \<and> sc_setup script \<noteq> Setup_Done) i db1"
    obtain ls1 where one: "exec run_step db1 ls1 (snd ?f)" using stepping_fail_execution I1 by (metis stepping_def)
    obtain ls2 where "exec run_step (snd ?f) ls2 (cleaned_audit wk (clock 9) script i (snd ?f))" using cleaned_step by blast
    from exec_append [OF ls exec_append [OF one this]] show ?thesis
      using body Inl by (auto simp: run_prepared_def split: prod.splits)
  next
    case (Inr y)
    obtain x rc st where y: "y = (x, rc, st)" by (cases y) auto
    let ?db2 = "cleaned_audit wk (clock 9) script i db1"
    obtain ls1 where one: "exec run_step db1 ls1 ?db2" using cleaned_step by blast
    have "accs_ok ts x" using run_body_accs body Inr y assms(3) by metis
    then obtain ls2 where "exec run_step ?db2 ls2 (snd (finish_run wk clock ids i x rc st ?db2))"
      using stepping_finish_run mine_exec [OF one I1] by (metis stepping_def)
    from exec_append [OF ls exec_append [OF one this]] show ?thesis using body Inr y by (auto simp: run_prepared_def)
  qed
qed

end
