(* ===== verification/Worker_Run.thy ===== *)
theory Worker_Run
  imports Worker_Properties Claim_Properties
begin

text \<open>
  What an execution of the worker amounts to: its calls are steps of the queue's machine, a claimed run ends,
  a preparation that fails is reported with its code, and the output kept per host is a prefix of what came.
\<close>

section \<open>An execution is a run of the machine\<close>

lemma prepared_targets:
  assumes "prepare_run wk env r db = ((used, Inr p), db1)"
  shows "pp_targets p = targets_of (r_id r) db"
  using assms by (auto simp: prepare_run_def run_detail_def prepare_rest_def split: sum.splits prod.splits option.splits)

lemma targets_of_mine:
  assumes "t \<in> set (targets_of i db)"
  shows "t_run_id t = i \<and> target_identity t \<in> target_identity ` set (run_targets db)"
  using assms by (auto simp: targets_of_def)

lemma mine_targets:
  assumes "run_inv db" and "get_run i db = Some r" and "r_claimed_by r = Some (w_id w)" and "r_status r \<noteq> RS_QUEUED"
  shows "mine w i (targets_of i db) db"
  using assms targets_of_mine [of _ i db] by (auto simp: mine_def)

lemma execute_run_steps:
  assumes "mine (wk_worker wk) (r_id r) (targets_of (r_id r) db) db" and "worker_ok (wk_worker wk)"
    and "elsewhere_ok (sc_steps script)"
  shows "\<exists>ls. exec run_step db ls (snd (execute_run wk clock ids script r db))"
proof -
  let ?i = "r_id r" and ?ts = "targets_of (r_id r) db"
  obtain used res db1 where prep: "prepare_run wk (clock 0) r db = ((used, res), db1)" by (metis prod.exhaust)
  obtain ls where ls: "exec run_step db ls db1" using prepare_exec [of db wk "clock 0" r] prep by auto
  note I1 = mine_exec [OF ls assms(1)]
  show ?thesis
  proof (cases res)
    case (Inl e)
    obtain ls' where "exec run_step db1 ls' (snd (fail_preparation wk clock ids used e ?i db1))"
      using stepping_fail_preparation I1 unfolding stepping_def by blast
    from exec_append [OF ls this] ls show ?thesis using prep Inl by (auto simp: execute_run_def)
  next
    case (Inr p)
    have "pp_targets p = ?ts" using prepared_targets prep Inr by metis
    then obtain ls' where "exec run_step db1 ls' (snd (run_prepared wk clock ids script used p ?i db1))"
      using stepping_run_prepared [OF assms(2,3)] I1 unfolding stepping_def by blast
    from exec_append [OF ls this] show ?thesis using prep Inr by (auto simp: execute_run_def)
  qed
qed

text \<open>
  C9: Whatever Ansible reports and however it ends, a worker that executes the run it claimed stays within
  the queue's state machine: all its calls together, with the transactions of others between them, are an
  execution of that machine, so the invariant holds afterwards, nothing recorded is lost, and the run keeps
  its owner.
\<close>

theorem worker_follows_machine:
  assumes "run_inv db" and "get_run (r_id r) db = Some stored" and "r_claimed_by stored = Some (w_id (wk_worker wk))"
    and "r_status stored \<noteq> RS_QUEUED" and "worker_ok (wk_worker wk)" and "elsewhere_ok (sc_steps script)"
  shows "(\<exists>ls. exec run_step db ls (snd (execute_run wk clock ids script r db))) \<and>
    run_inv (snd (execute_run wk clock ids script r db)) \<and> history_kept db (snd (execute_run wk clock ids script r db)) \<and>
    (\<exists>after. get_run (r_id r) (snd (execute_run wk clock ids script r db)) = Some after \<and>
       r_claimed_by after = Some (w_id (wk_worker wk)))"
proof -
  have I: "mine (wk_worker wk) (r_id r) (targets_of (r_id r) db) db" by (rule mine_targets [OF assms(1-4)])
  obtain ls where ls: "exec run_step db ls (snd (execute_run wk clock ids script r db))"
    using execute_run_steps [OF I assms(5,6)] by blast
  show ?thesis using ls mine_exec [OF ls I] queue.exec_below [OF ls assms(1)] by (auto simp: mine_def)
qed

section \<open>A claimed run ends\<close>

definition ended :: "uuid \<Rightarrow> db \<Rightarrow> bool" where
  "ended i db \<longleftrightarrow> (case get_run i db of Some r \<Rightarrow> terminal (r_status r) | None \<Rightarrow> False)"

lemma ended_exec:
  assumes "exec run_step db ls db'" and "run_inv db" and "ended i db"
  shows "ended i db'"
proof -
  obtain r where r: "get_run i db = Some r" "terminal (r_status r)" using assms(3) by (auto simp: ended_def split: option.splits)
  then obtain r' where r': "get_run i db' = Some r'" "run_evolves r r'"
    using queue.exec_below [OF assms(1,2)] by (auto simp: history_kept_def)
  obtain n where "r' = r\<lparr>r_next_event_sequence := n\<rparr>" using r'(2) r(2) unfolding run_evolves_def by blast
  then have "terminal (r_status r')" using r(2) by simp
  then show ?thesis using r'(1) by (simp add: ended_def)
qed

lemma append_event_row:
  assumes "append_event ev db = Inr (stored, db')" and "get_run i db = Some r"
  shows "\<exists>n. get_run i db' = Some (r\<lparr>r_next_event_sequence := n\<rparr>)"
proof -
  have "runs db' = update_where (\<lambda>x. r_id x = ev_run_id ev) (\<lambda>x. x\<lparr>r_next_event_sequence := r_next_event_sequence x + 1\<rparr>) (runs db)"
    using assms(1) by (auto simp: append_event_def Let_def split: option.splits)
  then have "get_run i db' = Some (if r_id r = ev_run_id ev then r\<lparr>r_next_event_sequence := r_next_event_sequence r + 1\<rparr> else r)"
    using get_run_update [of db' "\<lambda>x. r_id x = ev_run_id ev" "\<lambda>x. x\<lparr>r_next_event_sequence := r_next_event_sequence x + 1\<rparr>" db i] assms(2) by simp
  then show ?thesis by (cases "r_id r = ev_run_id ev") (auto intro: exI [of _ "r_next_event_sequence r"])
qed

lemma finish_call_ends:
  assumes "mine (wk_worker wk) i ts db" and "terminal status"
  shows "ended i (snd (finish_call wk env ev i status rc sm c msg sg db))"
proof -
  let ?w = "wk_worker wk"
  obtain r where r: "get_run i db = Some r" "r_claimed_by r = Some (w_id ?w)" "r_status r \<noteq> RS_QUEUED"
    and inv: "run_inv db" using assms(1) by (auto simp: mine_def)
  note keys = run_invD(1) [OF inv]
  have step: "exec run_step db [(e_now env, None)] (snd (worker_finish ?w env ev i status rc sm c msg sg db))"
    by (rule exec_one) (rule run_step.worker_finish [OF assms(2)])
  show ?thesis
  proof (cases "active (r_status r)")
    case False
    then have "ended i db" using r by (simp add: ended_def terminal_iff)
    then show ?thesis unfolding snd_finish_call by (rule ended_exec [OF step inv])
  next
    case True
    let ?row = "finish_row status rc sm c msg (e_now env) r"
    obtain db1 where f: "finish i (w_id ?w) status rc sm c msg (e_now env) db = (Some ?row, db1)"
      and runs1: "runs db1 = update_where (\<lambda>x. r_id x = i) (finish_row status rc sm c msg (e_now env)) (runs db)"
      using finish_eq [OF keys r(1,2) True, of status rc sm c msg "e_now env"] by simp
    have row: "get_run i db1 = Some ?row"
      using get_run_update [of db1 "\<lambda>x. r_id x = i" "finish_row status rc sm c msg (e_now env)" db i] runs1 r(1) get_run_SomeD [OF r(1)]
      by (simp add: finish_row_def)
    then obtain stored db2 where a: "append_event (finish_event ev i status rc sm (e_now env)) db1 = Inr (stored, db2)"
      by (auto simp: append_event_def finish_event_def Let_def)
    obtain n where "get_run i db2 = Some (?row\<lparr>r_next_event_sequence := n\<rparr>)" using append_event_row [OF a row] by blast
    then have "ended i (audit_append env act outcome src d db2)" for act outcome src d
      using assms(2) by (simp add: ended_def audit_append_def get_run_def finish_row_def)
    then show ?thesis using f a by (auto simp: snd_finish_call worker_finish_def unit_of_work_def finish_body_def Let_def)
  qed
qed

text \<open>Calls that do not raise, and actions after which the run has ended.\<close>

definition quiet :: "worker \<Rightarrow> uuid \<Rightarrow> run_target list \<Rightarrow> unit act \<Rightarrow> bool" where
  "quiet w i ts m \<longleftrightarrow> stepping w i ts m \<and> (\<forall>db. mine w i ts db \<longrightarrow> fst (m db) = Inr ())"

definition ending :: "worker \<Rightarrow> uuid \<Rightarrow> run_target list \<Rightarrow> unit act \<Rightarrow> bool" where
  "ending w i ts m \<longleftrightarrow> (\<forall>db. mine w i ts db \<longrightarrow> ended i (snd (m db)))"

lemma quiet_write: "stepping w i ts (act_write f) \<Longrightarrow> quiet w i ts (act_write f)"
  by (simp add: quiet_def act_write_def)

lemma quiet_append: "quiet (wk_worker wk) i ts (append_call wk env ev i ty out task data tgt)"
  unfolding quiet_def
proof (intro conjI allI impI)
  show "stepping (wk_worker wk) i ts (append_call wk env ev i ty out task data tgt)" by (rule stepping_append)
  fix db assume "mine (wk_worker wk) i ts db"
  then show "fst (append_call wk env ev i ty out task data tgt db) = Inr ()"
    by (auto simp: mine_def append_call_def worker_append_event_def unit_of_work_def append_event_def Let_def split: prod.splits)
qed

lemma ending_finish: "terminal status \<Longrightarrow> ending (wk_worker wk) i ts (finish_call wk env ev i status rc sm c msg sg)"
  by (simp add: ending_def finish_call_ends)

lemma ending_then:
  assumes "quiet w i ts m" and "ending w i ts n"
  shows "ending w i ts (act_then m n)"
  unfolding ending_def
proof (intro allI impI)
  fix db assume I: "mine w i ts db"
  then obtain db1 where m: "m db = (Inr (), db1)" using assms(1) by (metis prod.collapse quiet_def)
  then have "mine w i ts db1" using assms(1) I mine_exec by (metis quiet_def snd_conv stepping_def)
  then show "ended i (snd (act_then m n db))" using assms(2) m by (simp add: ending_def act_then_def act_bind_def)
qed

lemma ending_fail_preparation: "ending (wk_worker wk) i ts (fail_preparation wk clock ids used e i)"
  unfolding fail_preparation_def
  by (intro ending_then quiet_append quiet_write stepping_audit ending_finish) (simp add: TERMINAL_RUN_STATUSES_def)

lemma ending_fail_execution: "ending (wk_worker wk) i ts (fail_execution wk clock ids used i)"
  unfolding fail_execution_def Let_def
  by (intro ending_then quiet_append ending_finish) (simp add: TERMINAL_RUN_STATUSES_def)

lemma ending_finish_run:
  assumes "accs_ok ts x"
  shows "ending (wk_worker wk) i ts (finish_run wk clock ids i x rc st)"
  unfolding finish_run_def Let_def
  by (intro ending_then quiet_write stepping_finish_targets [OF assms] ending_finish final_status_terminal)

lemma ending_run_prepared:
  assumes "worker_ok (wk_worker wk)" and "elsewhere_ok (sc_steps script)" and "pp_targets p = ts"
  shows "ending (wk_worker wk) i ts (run_prepared wk clock ids script used p i)"
  unfolding ending_def
proof (intro allI impI)
  fix db assume I: "mine (wk_worker wk) i ts db"
  obtain res db1 where body: "run_body wk clock ids script p i db = (res, db1)" by fastforce
  obtain ls where ls: "exec run_step db ls db1" using stepping_run_body [OF assms(1,2)] I body by (metis snd_conv stepping_def)
  note I1 = mine_exec [OF ls I]
  show "ended i (snd (run_prepared wk clock ids script used p i db))"
  proof (cases res)
    case (Inl e)
    let ?f = "fail_execution wk clock ids (used \<and> sc_setup script \<noteq> Setup_Done) i db1"
    obtain ls1 where one: "exec run_step db1 ls1 (snd ?f)" using stepping_fail_execution I1 by (metis stepping_def)
    have "ended i (snd ?f)" using ending_fail_execution I1 unfolding ending_def by blast
    moreover have "run_inv (snd ?f)" using mine_exec [OF one I1] by (simp add: mine_def)
    moreover obtain ls2 where "exec run_step (snd ?f) ls2 (cleaned_audit wk (clock 9) script i (snd ?f))" using cleaned_step by blast
    ultimately have "ended i (cleaned_audit wk (clock 9) script i (snd ?f))" using ended_exec by blast
    then show ?thesis using body Inl by (cases ?f) (simp add: run_prepared_def)
  next
    case (Inr y)
    obtain x rc st where y: "y = (x, rc, st)" by (cases y) auto
    obtain ls1 where one: "exec run_step db1 ls1 (cleaned_audit wk (clock 9) script i db1)" using cleaned_step by blast
    have "accs_ok ts x" using run_body_accs body Inr y assms(3) by metis
    then show ?thesis using ending_finish_run mine_exec [OF one I1] body Inr y by (simp add: run_prepared_def ending_def)
  qed
qed

lemma execute_run_ends:
  assumes "mine (wk_worker wk) (r_id r) (targets_of (r_id r) db) db" and "worker_ok (wk_worker wk)"
    and "elsewhere_ok (sc_steps script)"
  shows "ended (r_id r) (snd (execute_run wk clock ids script r db)) \<or> (\<exists>e. fst (execute_run wk clock ids script r db) = Inl e)"
proof -
  obtain used res db1 where prep: "prepare_run wk (clock 0) r db = ((used, res), db1)" by (metis prod.exhaust)
  obtain ls where ls: "exec run_step db ls db1" using prepare_exec [of db wk "clock 0" r] prep by auto
  note I1 = mine_exec [OF ls assms(1)]
  show ?thesis
  proof (cases res)
    case (Inl e)
    have "ended (r_id r) (snd (fail_preparation wk clock ids used e (r_id r) db1))" using ending_fail_preparation I1 unfolding ending_def by blast
    then show ?thesis using prep Inl by (cases "caught e") (simp_all add: execute_run_def)
  next
    case (Inr p)
    have "pp_targets p = targets_of (r_id r) db" using prepared_targets prep Inr by metis
    from ending_run_prepared [OF assms(2,3) this] show ?thesis using I1 prep Inr by (auto simp: execute_run_def ending_def)
  qed
qed

lemma worker_claim_mine:
  assumes "worker_claim id locked w env db = (Inr (Some r), db')" and "run_inv db" and "worker_ok w"
  shows "mine w (r_id r) (targets_of (r_id r) db') db'"
proof -
  have body: "claim_body id locked w env db = Inr (Some r, db')"
    using assms(1) by (auto simp: worker_claim_def unit_of_work_def split: sum.splits ops_error.splits prod.splits)
  let ?h = "heartbeat (w_id w) None (e_now env) (lease_until w env) db"
  obtain db2 where claim: "claim_next id locked (w_id w) (e_now env) (lease_until w env) ?h = Inr (Some r, db2)"
    and db': "db' = audit_append env RUN_CLAIMED AO_SUCCEEDED SRC_WORKER (worker_run_details w (r_id r))
      (heartbeat (w_id w) (Some (r_id r)) (e_now env) (lease_until w env) db2)"
    using body by (rule claim_body_SomeD)
  have later: "e_now env < lease_until w env" by (rule lease_until_later [OF assms(3)])
  have "run_inv ?h" using heartbeat_sound [OF assms(2) later] by (simp add: sound_step_def)
  moreover obtain r0 where r0: "claim_candidate locked (e_now env) ?h = Some r0"
    using claim by (rule claim_next_SomeD)
  ultimately obtain db3 where "claim_next id locked (w_id w) (e_now env) (lease_until w env) ?h = Inr (Some (claimed_row (w_id w) (e_now env) r0), db3)"
      "get_run (r_id r0) db3 = Some (claimed_row (w_id w) (e_now env) r0)"
    using claim_candidate_claimed later by blast
  then have "get_run (r_id r) db2 = Some r" "r = claimed_row (w_id w) (e_now env) r0" using claim by (simp_all add: claimed_row_def)
  then have "get_run (r_id r) db' = Some r" "r_claimed_by r = Some (w_id w)" "r_status r \<noteq> RS_QUEUED"
    unfolding db' by (simp_all add: audit_append_def get_run_def heartbeat_def Let_def claimed_row_def)
  moreover have "run_inv db'" using worker_claim_sound [OF assms(2,3), of env locked] assms(1) by (simp add: sound_step_def)
  ultimately show ?thesis by (intro mine_targets) simp_all
qed

text \<open>
  C10: A run that is claimed ends. Whatever the runner, the set-up, the other processes and the preparation
  do, one iteration of a worker's loop leaves the run it claimed terminal, and no host lock names it any more.
\<close>

theorem claimed_run_ends:
  assumes "run_inv db" and "worker_ok (wk_worker wk)" and "elsewhere_ok (sc_steps script)"
    and "worker_claim id locked (wk_worker wk) (loop_clock 1) (worker_heartbeat (wk_worker wk) (loop_clock 0) None db) = (Inr (Some r), db1)"
  shows "(\<exists>after. get_run (r_id r) (snd (worker_iteration wk clock ids loop_clock id locked script ev db)) = Some after \<and>
      terminal (r_status after)) \<and>
    r_id r \<notin> {i. \<exists>l \<in> set (host_execution_locks (snd (worker_iteration wk clock ids loop_clock id locked script ev db))). hl_run_id l = Some i}"
proof -
  let ?w = "wk_worker wk"
  let ?db = "snd (worker_iteration wk clock ids loop_clock id locked script ev db)"
  have "exec run_step db [(e_now (loop_clock 0), Some (w_id ?w))] (worker_heartbeat ?w (loop_clock 0) None db)"
    by (rule exec_one) (rule run_step.worker_heartbeat [OF assms(2)])
  then have "run_inv (worker_heartbeat ?w (loop_clock 0) None db)" using queue.exec_ok assms(1) by blast
  then have I: "mine ?w (r_id r) (targets_of (r_id r) db1) db1" using worker_claim_mine assms(2,4) by blast
  obtain res db2 where run: "execute_run wk clock ids script r db1 = (res, db2)" by fastforce
  obtain ls where ls: "exec run_step db1 ls db2" using execute_run_steps [OF I assms(2,3)] run by (metis snd_conv)
  note I2 = mine_exec [OF ls I]
  have goal: "run_inv ?db \<and> ended (r_id r) ?db"
  proof (cases res)
    case (Inr u)
    then have "ended (r_id r) db2" using execute_run_ends [OF I assms(2,3), of clock ids] run by auto
    then show ?thesis using Inr I2 run assms(4) by (simp add: worker_iteration_def mine_def)
  next
    case (Inl e)
    let ?f = "finish_call wk (loop_clock 2) ev (r_id r) RS_INTERRUPTED None [] (Some ''WORKER_LOOP_ERROR'')
      (Some ''worker loop failed during execution'') (Some ''worker_loop'')"
    have "terminal RS_INTERRUPTED" by (simp add: TERMINAL_RUN_STATUSES_def)
    then have "stepping ?w (r_id r) (targets_of (r_id r) db1) ?f" by (rule stepping_finish)
    moreover have "ended (r_id r) (snd (?f db2))" by (rule finish_call_ends [OF I2]) fact
    ultimately have "run_inv (snd (?f db2))" "ended (r_id r) (snd (?f db2))" using I2 mine_exec unfolding stepping_def mine_def by blast+
    then show ?thesis using Inl run assms(4) by (simp add: worker_iteration_def)
  qed
  then obtain r' where r': "get_run (r_id r) ?db = Some r'" "terminal (r_status r')" by (auto simp: ended_def split: option.splits)
  have "hl_run_id l \<noteq> Some (r_id r)" if "l \<in> set (host_execution_locks ?db)" for l
  proof
    assume l: "hl_run_id l = Some (r_id r)"
    have "locks_ok ?db" using goal by (simp add: run_inv_def)
    then have "run_lock_ok ?db (r_id r) l" using that l by (auto simp: locks_ok_def lock_ok_def split: option.splits)
    then show False using r' by (simp add: run_lock_ok_def terminal_iff)
  qed
  then show ?thesis using r' by blast
qed

end
