(* ===== verification/Worker_Results.thy ===== *)
theory Worker_Results
  imports Worker_Run Request_Properties Asset_Properties Playbook_History
begin

text \<open>
  What a worker reports: the code and message of a run whose preparation failed, the output kept for each host,
  and that neither output nor values of events carry a secret, while keys can. At the end a project
  whose digest the worker never accepts.
\<close>

section \<open>A preparation that fails\<close>

lemma audit_run [simp]: "get_run i (audit_append env act outcome src d db) = get_run i db"
  by (simp add: get_run_def audit_append_def)

lemma consume_runs: "runs (snd (consume_secret_inputs svc env j names db)) = runs db"
  by (auto simp: consume_secret_inputs_def consume_body_def unit_of_work_def delete_secret_inputs_def audit_append_def Let_def
      split: sum.splits option.splits prod.splits if_splits)

lemma prepare_runs: "runs (snd (prepare_run wk env r db)) = runs db"
proof -
  have "runs (snd (prepare_secrets wk env r db)) = runs db" using snd_prepare_secrets [of wk env r db] consume_runs by metis
  moreover have "snd (prepare_run wk env r db) \<in> {db, snd (prepare_secrets wk env r db)}"
    by (auto simp: prepare_run_def split: sum.splits prod.splits)
  ultimately show ?thesis by (metis insertE singletonD)
qed

text \<open>A write of the worker that adds one event and leaves the stored secrets alone.\<close>

definition one_event :: "uuid \<Rightarrow> string \<Rightarrow> jobj \<Rightarrow> db \<Rightarrow> db \<Rightarrow> bool" where
  "one_event i ty data db db' \<longleftrightarrow> run_secret_inputs db' = run_secret_inputs db \<and>
     (\<exists>e. run_events db' = run_events db @ [e] \<and> ev_run_id e = i \<and> ev_type e = ty \<and> ev_data e = data)"

lemma one_event_append:
  "append_event ev db = Inr (stored, db') \<Longrightarrow> one_event (ev_run_id ev) (ev_type ev) (ev_data ev) db db'"
  by (auto simp: append_event_def one_event_def Let_def split: option.splits)

lemma append_call_row:
  assumes "get_run i db = Some r"
  shows "\<exists>db' n. append_call wk env ev i ty out task data tgt db = (Inr (), db') \<and>
    get_run i db' = Some (r\<lparr>r_next_event_sequence := n\<rparr>) \<and> one_event i ty data db db'"
proof -
  let ?e = "\<lparr>ev_id = ev, ev_run_id = i, ev_run_target_id = tgt, ev_sequence = 1, ev_type = ty, ev_task = task,
     ev_stdout = map_option (bound_output (set_max_event_output_bytes (w_settings (wk_worker wk)))) out,
     ev_data = data, ev_created_at = e_now env\<rparr>"
  obtain stored db1 where a: "append_event ?e db = Inr (stored, db1)" using assms by (simp add: append_event_def Let_def)
  from append_event_row [OF a assms] one_event_append [OF a] show ?thesis
    using a by (simp add: append_call_def worker_append_event_def unit_of_work_def)
qed

lemma finish_call_row:
  assumes "mine (wk_worker wk) i ts db" and "terminal status" and "get_run i db = Some r" and "active (r_status r)"
  shows "\<exists>db' n data. finish_call wk env ev i status rc sm c msg sg db = (Inr (), db') \<and>
    get_run i db' = Some (finish_row status rc sm c msg (e_now env) r\<lparr>r_next_event_sequence := n\<rparr>) \<and>
    one_event i ''run_finished'' data db db'"
proof -
  let ?w = "wk_worker wk" and ?row = "finish_row status rc sm c msg (e_now env) r"
  have inv: "run_inv db" and owner: "r_claimed_by r = Some (w_id ?w)" using assms(1,3) by (auto simp: mine_def)
  obtain db1 where f: "finish i (w_id ?w) status rc sm c msg (e_now env) db = (Some ?row, db1)"
    and runs1: "runs db1 = update_where (\<lambda>x. r_id x = i) (finish_row status rc sm c msg (e_now env)) (runs db)"
    and kept: "run_events db1 = run_events db" "run_secret_inputs db1 = run_secret_inputs db"
    using finish_eq [OF run_invD(1) [OF inv] assms(3) owner assms(4), of status rc sm c msg "e_now env"] by simp
  have row: "get_run i db1 = Some ?row"
    using get_run_update [of db1 "\<lambda>x. r_id x = i" "finish_row status rc sm c msg (e_now env)" db i] runs1 assms(3) get_run_SomeD [OF assms(3)]
    by (simp add: finish_row_def)
  let ?e = "finish_event ev i status rc sm (e_now env)"
  obtain stored db2 where a: "append_event ?e db1 = Inr (stored, db2)" using row by (auto simp: append_event_def finish_event_def Let_def)
  have "one_event i ''run_finished'' (ev_data ?e) db db2"
    using one_event_append [OF a] kept by (simp add: one_event_def finish_event_def)
  with append_event_row [OF a row] show ?thesis
    using f a by (auto simp: finish_call_def worker_finish_def unit_of_work_def finish_body_def one_event_def Let_def)
qed

lemma mine_after_quiet: "quiet w i ts m \<Longrightarrow> mine w i ts db \<Longrightarrow> m db = (Inr (), db1) \<Longrightarrow> mine w i ts db1"
  unfolding quiet_def stepping_def using mine_exec by (metis snd_conv)

text \<open>The one-time secrets a run declares, and whether those of a run are stored.\<close>

definition declares_secrets :: "run \<Rightarrow> bool" where
  "declares_secrets r \<longleftrightarrow>
     (\<exists>n vs. dict_get ''secretParameterNames'' (JList []) (r_operation_spec r) = JList (JStr n # vs) \<and> secret_names vs \<noteq> None)"

definition secrets_stored :: "uuid \<Rightarrow> db \<Rightarrow> bool" where
  "secrets_stored i db \<longleftrightarrow> (\<exists>s \<in> set (run_secret_inputs db). si_run_id s = i)"

lemma secret_names_Some_Cons:
  "secret_names vs = Some (n # ns) \<longleftrightarrow> (\<exists>us. vs = JStr n # us \<and> secret_names us = Some ns)"
  by (induction vs rule: secret_names.induct) auto

lemma decrypt_raises_value_error: "decrypt_json gcm codec kr purpose subject envelope k = Inl e \<Longrightarrow> \<exists>m. e = ValueErr m"
  by (auto simp: decrypt_json_def decrypt_bytes_def decrypt_with_aad_def keyring_aad_def
      split: if_splits sum.splits option.splits json.splits)

text \<open>The envelope of a run is gone after a call exactly when the call returned its secrets or found none.\<close>

lemma consume_empties:
  assumes "consume_secret_inputs svc env i names db = (res, db1)" and "names \<noteq> []"
  shows "\<not> secrets_stored i db1 \<longleftrightarrow> (case res of Inr _ \<Rightarrow> True | Inl e \<Rightarrow> (\<exists>ns. e = SecretParametersRequiredError ns))"
proof (cases "fetch_one (\<lambda>s. si_run_id s = i) (run_secret_inputs db)")
  case None
  then have "\<not> secrets_stored i db" by (auto simp: fetch_one_None_iff secrets_stored_def)
  then show ?thesis using None assms
    by (auto simp: consume_secret_inputs_def consume_body_def delete_secret_inputs_def unit_of_work_def)
next
  case (Some s)
  then have here: "secrets_stored i db" using fetch_one_SomeD [OF Some] by (auto simp: secrets_stored_def)
  consider e where "consume_body svc env i names db = Inl e" "\<nexists>ns. e = SecretParametersRequiredError ns"
    | got db2 where "consume_body svc env i names db = Inr (got, db2)"
        "run_secret_inputs db2 = delete_where (\<lambda>s. si_run_id s = i) (run_secret_inputs db)"
    using Some decrypt_raises_value_error [of "rs_gcm svc" "rs_codec svc" "rs_keyring svc" "''run-parameters''" "uuid_str i"
        "si_encrypted_payload s" "int (si_key_version s)"]
    by (cases "consume_body svc env i names db")
      (auto simp: consume_body_def delete_secret_inputs_def split: if_splits sum.splits option.splits)
  then show ?thesis
  proof cases
    case 1
    then show ?thesis using assms here by (auto simp: consume_secret_inputs_def unit_of_work_def)
  next
    case 2
    then show ?thesis using assms by (auto simp: consume_secret_inputs_def unit_of_work_def secrets_stored_def)
  qed
qed

lemma prepare_secrets_used:
  assumes "prepare_secrets wk env r db = ((used, res), db1)"
  shows "used \<longleftrightarrow> declares_secrets r \<and> \<not> secrets_stored (r_id r) db1"
proof -
  let ?names = "case dict_get ''secretParameterNames'' (JList []) (r_operation_spec r) of JList vs \<Rightarrow> secret_names vs | _ \<Rightarrow> None"
  have declared: "declares_secrets r \<longleftrightarrow> (\<exists>n ns. ?names = Some (n # ns))"
    by (auto simp: declares_secrets_def secret_names_Some_Cons split: json.splits)
  consider "?names = None \<or> ?names = Some []" | n ns where "?names = Some (n # ns)" by (cases ?names; metis list.exhaust option.exhaust)
  then show ?thesis
  proof cases
    case 1
    then show ?thesis using assms declared by (auto simp: prepare_secrets_def)
  next
    case (2 n ns)
    obtain got db2 where c: "consume_secret_inputs (wk_run_service wk) env (r_id r) (n # ns) db = (got, db2)" by fastforce
    from consume_empties [OF c] have "\<not> secrets_stored (r_id r) db2 \<longleftrightarrow>
        (case got of Inr _ \<Rightarrow> True | Inl e \<Rightarrow> (\<exists>ns. e = SecretParametersRequiredError ns))" by simp
    then show ?thesis using assms declared 2 c
      by (cases got) (auto simp: prepare_secrets_def split: ops_error.splits)
  qed
qed

lemma prepare_used:
  assumes "prepare_run wk env r db = ((used, Inl e), db1)" and "get_run (r_id r) db = Some stored"
  shows "used \<longleftrightarrow> declares_secrets r \<and> \<not> secrets_stored (r_id r) db1"
proof -
  obtain flag res db2 where p: "prepare_secrets wk env r db = ((flag, res), db2)" by (metis prod.exhaust)
  then show ?thesis using assms prepare_secrets_used [OF p] by (cases res) (auto simp: prepare_run_def run_detail_def)
qed

lemma prepare_events: "run_events (snd (prepare_run wk env r db)) = run_events db"
proof -
  have "run_events (snd (consume_secret_inputs svc env j names db)) = run_events db" for svc j names
    by (auto simp: consume_secret_inputs_def consume_body_def unit_of_work_def delete_secret_inputs_def audit_append_def Let_def
      split: sum.splits option.splits prod.splits if_splits)
  then have "run_events (snd (prepare_secrets wk env r db)) = run_events db" using snd_prepare_secrets [of wk env r db] by metis
  moreover have "snd (prepare_run wk env r db) \<in> {db, snd (prepare_secrets wk env r db)}"
    by (auto simp: prepare_run_def split: sum.splits prod.splits)
  ultimately show ?thesis by (metis insertE singletonD)
qed

text \<open>What \<open>execute_run\<close> leaves when the preparation failed: two events and the finished row.\<close>

lemma failed_preparation_leaves:
  assumes "mine (wk_worker wk) i ts db" and "get_run i db = Some r" and "active (r_status r)"
  shows "\<exists>db2 db' n data. fail_preparation wk clock ids used e i db = (Inr (), db') \<and>
    one_event i (if used then ''run_interrupted'' else ''run_rejected'')
      [(''code'', JStr (failure_code used e)), (''message'', JStr (failure_message used e))] db db2 \<and>
    one_event i ''run_finished'' data db2 db' \<and>
    get_run i db' = Some (finish_row (if used then RS_INTERRUPTED else RS_REJECTED) None [] (Some (failure_code used e))
      (Some (failure_message used e)) (e_now (clock 3)) r\<lparr>r_next_event_sequence := n\<rparr>)"
proof -
  let ?w = "wk_worker wk"
  let ?audit = "run_audit wk (clock 1) (if used then RUN_INTERRUPTED else RUN_PREPARATION_FAILED) AO_FAILED i
      (no_details\<lparr>ad_severity := SEV_WARNING, ad_failure_stage := Some ''run_preparation'', ad_retryable := Some used,
         ad_error_code := Some (if used then ''SECRET_INPUTS_CONSUMED'' else (case error_code e of Some c \<Rightarrow> c | None \<Rightarrow> ''PREPARATION_FAILED''))\<rparr>)"
  let ?ty = "if used then ''run_interrupted'' else ''run_rejected''"
  let ?data = "[(''code'', JStr (failure_code used e)), (''message'', JStr (failure_message used e))]"
  let ?status = "if used then RS_INTERRUPTED else RS_REJECTED"
  have "quiet ?w i ts (act_write ?audit)" by (intro quiet_write stepping_audit)
  from mine_after_quiet [OF this assms(1)] have I2: "mine ?w i ts (?audit db)" by (simp add: act_write_def)
  have "get_run i (?audit db) = Some r" using assms(2) by (simp add: run_audit_def)
  from append_call_row [OF this, of wk "clock 2" "ids 2" ?ty None None ?data None]
  obtain db2 n where a: "append_call wk (clock 2) (ids 2) i ?ty None None ?data None (?audit db) = (Inr (), db2)"
      "get_run i db2 = Some (r\<lparr>r_next_event_sequence := n\<rparr>)" "one_event i ?ty ?data (?audit db) db2" by blast
  have I3: "mine ?w i ts db2" by (rule mine_after_quiet [OF quiet_append I2 a(1)])
  have t: "terminal ?status" by (simp add: TERMINAL_RUN_STATUSES_def)
  have act: "active (r_status (r\<lparr>r_next_event_sequence := n\<rparr>))" using assms(3) by simp
  from finish_call_row [OF I3 t a(2) act, of "clock 3" "ids 3" None "[]" "Some (failure_code used e)" "Some (failure_message used e)"
      "Some ''run_preparation''"]
  obtain db' m data where f: "finish_call wk (clock 3) (ids 3) i ?status None [] (Some (failure_code used e)) (Some (failure_message used e))
        (Some ''run_preparation'') db2 = (Inr (), db')" "one_event i ''run_finished'' data db2 db'"
      "get_run i db' = Some (finish_row ?status None [] (Some (failure_code used e)) (Some (failure_message used e)) (e_now (clock 3))
        (r\<lparr>r_next_event_sequence := n\<rparr>)\<lparr>r_next_event_sequence := m\<rparr>)" by blast
  have "one_event i ?ty ?data db db2" using a(3) by (simp add: one_event_def run_audit_def)
  moreover have "fail_preparation wk clock ids used e i db = (Inr (), db')"
    using a(1) f(1) by (simp add: fail_preparation_def act_then_def act_bind_def act_write_def)
  moreover have "finish_row ?status None [] c msg now (r\<lparr>r_next_event_sequence := n\<rparr>)\<lparr>r_next_event_sequence := m\<rparr> =
      finish_row ?status None [] c msg now r\<lparr>r_next_event_sequence := m\<rparr>" for c msg now by (simp add: finish_row_def)
  ultimately show ?thesis using f(2,3) by metis
qed

text \<open>
  C11: A preparation that fails is reported and ends the run. When the secrets, the playbook, the inventory or the
  host keys of a claimed run cannot be prepared, Ansible is not started: whatever it would have reported, the worker
  leaves the same database, with no other event of the run than one that names the failure and \<open>run_finished\<close>. The
  run is \<open>INTERRUPTED\<close> with the code \<open>SECRET_INPUTS_CONSUMED\<close> exactly when it declares one-time secrets of which
  nothing is stored any more, so that it can not be started again with them. Otherwise it is \<open>REJECTED\<close>, with the code
  \<open>HOST_KEY_CONFIRMATION_REQUIRED\<close> for a missing host key, the upper-case code of any other application error, and
  \<open>PREPARATION_FAILED\<close> for a plain \<open>ValueError\<close> or \<open>KeyError\<close>. The message is a fixed one, which names the host when
  a host key is missing, so the text of the error is never stored.
\<close>

theorem preparation_failure_reported:
  assumes "run_inv db" and "get_run (r_id r) db = Some stored" and "r_claimed_by stored = Some (w_id (wk_worker wk))"
    and "active (r_status stored)" and "snd (fst (prepare_run wk (clock 0) r db)) = Inl e" and "caught e"
  shows "\<exists>db' row told closing. (\<forall>script. execute_run wk clock ids script r db = (Inr (), db')) \<and>
    get_run (r_id r) db' = Some row \<and> r_finished_at row = Some (e_now (clock 3)) \<and>
    run_events db' = run_events db @ [told, closing] \<and> ev_run_id told = r_id r \<and> ev_type closing = ''run_finished'' \<and>
    (if declares_secrets r \<and> \<not> secrets_stored (r_id r) db'
     then r_status row = RS_INTERRUPTED \<and> ev_type told = ''run_interrupted'' \<and>
       r_failure_code row = Some ''SECRET_INPUTS_CONSUMED'' \<and>
       r_failure_message row = Some ''run interrupted after consuming sensitive parameters''
     else r_status row = RS_REJECTED \<and> ev_type told = ''run_rejected'' \<and>
       r_failure_code row = Some (case e of HostKeyConfirmationRequiredError _ \<Rightarrow> ''HOST_KEY_CONFIRMATION_REQUIRED''
         | _ \<Rightarrow> (case error_code e of Some c \<Rightarrow> map upper_char c | None \<Rightarrow> ''PREPARATION_FAILED'')) \<and>
       r_failure_message row = Some (case e of
           HostKeyConfirmationRequiredError ((_, name) # _) \<Rightarrow> ''SSH host key confirmation is required for host '' @ name
         | _ \<Rightarrow> ''run preparation failed'')) \<and>
    ev_data told = [(''code'', JStr (the (r_failure_code row))), (''message'', JStr (the (r_failure_message row)))]"
proof -
  let ?i = "r_id r" and ?w = "wk_worker wk"
  have "r_status stored \<noteq> RS_QUEUED" using assms(4) by auto
  then have I: "mine ?w ?i (targets_of ?i db) db" by (rule mine_targets [OF assms(1-3)])
  obtain used db1 where prep: "prepare_run wk (clock 0) r db = ((used, Inl e), db1)" using assms(5) by (metis prod.collapse)
  obtain ls where "exec run_step db ls db1" using prepare_exec [of db wk "clock 0" r] prep by auto
  then have I1: "mine ?w ?i (targets_of ?i db) db1" by (rule mine_exec) (rule I)
  have "get_run ?i db1 = Some stored" using prepare_runs [of wk "clock 0" r db] prep assms(2) get_run_cong by (metis snd_conv)
  from failed_preparation_leaves [OF I1 this assms(4), of clock ids used e] obtain db2 db' n data where
      f: "fail_preparation wk clock ids used e ?i db1 = (Inr (), db')"
      and told: "one_event ?i (if used then ''run_interrupted'' else ''run_rejected'')
        [(''code'', JStr (failure_code used e)), (''message'', JStr (failure_message used e))] db1 db2"
      and closing: "one_event ?i ''run_finished'' data db2 db'"
      and got: "get_run ?i db' = Some (finish_row (if used then RS_INTERRUPTED else RS_REJECTED) None [] (Some (failure_code used e))
        (Some (failure_message used e)) (e_now (clock 3)) stored\<lparr>r_next_event_sequence := n\<rparr>)" by blast
  define after where "after = finish_row (if used then RS_INTERRUPTED else RS_REJECTED) None [] (Some (failure_code used e))
    (Some (failure_message used e)) (e_now (clock 3)) stored\<lparr>r_next_event_sequence := n\<rparr>"
  have run: "\<forall>script. execute_run wk clock ids script r db = (Inr (), db')" using prep assms(6) f by (simp add: execute_run_def)
  have "run_secret_inputs db' = run_secret_inputs db1" using told closing by (simp add: one_event_def)
  then have used: "declares_secrets r \<and> \<not> secrets_stored ?i db' \<longleftrightarrow> used"
    using prepare_used [OF prep assms(2)] by (simp add: secrets_stored_def)
  have "run_events db1 = run_events db" using prepare_events [of wk "clock 0" r db] prep by simp
  then obtain a b where "run_events db' = run_events db @ [a, b]" "ev_run_id a = ?i" "ev_type b = ''run_finished''"
      "ev_type a = (if used then ''run_interrupted'' else ''run_rejected'')"
      "ev_data a = [(''code'', JStr (failure_code used e)), (''message'', JStr (failure_message used e))]"
    using told closing by (auto simp: one_event_def)
  note ab = this
  have "get_run ?i db' = Some after" using got by (simp add: after_def)
  note got = this
  have row: "r_finished_at after = Some (e_now (clock 3))" "r_status after = (if used then RS_INTERRUPTED else RS_REJECTED)"
      "r_failure_code after = Some (failure_code used e)" "r_failure_message after = Some (failure_message used e)"
    by (simp_all add: after_def finish_row_def)
  show ?thesis
  proof (intro exI conjI)
    show "\<forall>script. execute_run wk clock ids script r db = (Inr (), db')" by (rule run)
    show "get_run ?i db' = Some after" "run_events db' = run_events db @ [a, b]" "ev_run_id a = ?i" "ev_type b = ''run_finished''"
      "r_finished_at after = Some (e_now (clock 3))"
      by (fact got ab row)+
    show "ev_data a = [(''code'', JStr (the (r_failure_code after))), (''message'', JStr (the (r_failure_message after)))]"
      unfolding row ab by simp
  qed (cases used; simp only: used row ab if_True if_False failure_code_def failure_message_def simp_thms)
qed

section \<open>Output per host\<close>

definition output_ok :: "nat \<Rightarrow> accumulator \<Rightarrow> string list \<Rightarrow> bool" where
  "output_ok limit a outs \<longleftrightarrow> concat (ac_chunks a) = take limit (concat outs) \<and> ac_size a = length (concat (ac_chunks a)) \<and>
     (ac_truncated a \<longleftrightarrow> limit < length (concat outs))"

lemma add_output_ok:
  assumes "output_ok limit a outs"
  shows "output_ok limit (add_output limit out a) (outs @ [out])"
proof -
  define whole where "whole = concat outs"
  define kept where "kept = concat (ac_chunks a)"
  have kept: "kept = take limit whole" and size: "ac_size a = length kept" and cut: "ac_truncated a \<longleftrightarrow> limit < length whole"
    using assms unfolding output_ok_def kept_def whole_def by blast+
  have goal: "output_ok limit b (outs @ [out]) \<longleftrightarrow> concat (ac_chunks b) = take limit (whole @ out) \<and>
      ac_size b = length (concat (ac_chunks b)) \<and> (ac_truncated b \<longleftrightarrow> limit < length (whole @ out))" for b
    by (simp add: output_ok_def whole_def)
  consider "length kept + length out \<le> limit" | "limit < length kept + length out" "length kept = limit"
    | "limit < length kept + length out" "length kept < limit"
    using kept by fastforce
  then show ?thesis
  proof cases
    case 1
    then have new: "add_output limit out a = a\<lparr>ac_chunks := ac_chunks a @ [out], ac_size := length kept + length out\<rparr>"
      by (simp add: add_output_def size)
    have "take limit (whole @ out) = kept @ out" "limit < length whole \<longleftrightarrow> limit < length whole + length out"
      using 1 by (auto simp: kept min_def split: if_splits)
    then show ?thesis unfolding goal new by (simp add: kept_def [symmetric] cut)
  next
    case 2
    then have new: "add_output limit out a = a\<lparr>ac_truncated := True\<rparr>" by (simp add: add_output_def size)
    have "limit \<le> length whole" using 2(2) kept by simp
    then have long: "limit < length (whole @ out)" using 2 by (simp del: length_greater_0_conv)
    have same: "take limit (whole @ out) = kept" using \<open>limit \<le> length whole\<close> kept by simp
    show ?thesis unfolding goal new same eqTrueI [OF long] by (simp add: kept_def size)
  next
    case 3
    then have new: "add_output limit out a = a\<lparr>ac_chunks := ac_chunks a @ [take (limit - length kept) out], ac_size := limit, ac_truncated := True\<rparr>"
      by (simp add: add_output_def size)
    have "kept = whole" using 3(2) kept by (cases "limit \<le> length whole") simp_all
    then show ?thesis unfolding goal new using 3 by (simp add: kept_def [symmetric])
  qed
qed

lemma fold_output_ok: "output_ok limit a outs \<Longrightarrow> output_ok limit (fold (add_output limit) news a) (outs @ news)"
proof (induction news arbitrary: a outs)
  case (Cons out news)
  from Cons.IH [OF add_output_ok [OF Cons.prems, of out]] show ?case by simp
qed simp

text \<open>
  The output a worker keeps for a host is the beginning of what the host wrote: however it is cut into events, the
  collected chunks joined are the first bytes of the whole output up to the limit, the truncation flag says exactly
  whether something is missing, and the limit of a host is between 64 KiB and 1 MiB for any number of hosts.
\<close>

theorem collected_output_is_prefix:
  "let limit = per_host_limit cfg targets; a = fold (add_output limit) outs (new_accumulator t)
   in concat (ac_chunks a) = take limit (concat outs) \<and> ac_size a = length (concat (ac_chunks a)) \<and>
     (ac_truncated a \<longleftrightarrow> limit < length (concat outs)) \<and> 64 * 1024 \<le> limit \<and> limit \<le> 1024 * 1024"
proof -
  have "output_ok limit (new_accumulator t) []" for limit by (simp add: output_ok_def new_accumulator_def)
  from fold_output_ok [OF this, of _ outs]
  have "output_ok limit (fold (add_output limit) outs (new_accumulator t)) outs" for limit by simp
  then show ?thesis by (simp add: output_ok_def Let_def per_host_limit_def)
qed

section \<open>Secrets\<close>

text \<open>The texts of a JSON value, at any depth: the strings among its values, and the keys of its objects.\<close>

fun value_texts :: "json \<Rightarrow> string list" where
  "value_texts (JStr s) = [s]"
| "value_texts (JObj d) = concat (map (\<lambda>(k, v). value_texts v) d)"
| "value_texts (JList xs) = concat (map value_texts xs)"
| "value_texts v = []"

fun key_texts :: "json \<Rightarrow> string list" where
  "key_texts (JObj d) = concat (map (\<lambda>(k, v). k # key_texts v) d)"
| "key_texts (JList xs) = concat (map key_texts xs)"
| "key_texts v = []"

lemma sanitize_values:
  "s \<in> set (value_texts (sanitize secrets v)) \<Longrightarrow> s = REDACTED \<or> (\<exists>t. s = redact_secrets t secrets)"
  by (induction secrets v rule: sanitize.induct) (fastforce split: if_splits)+

text \<open>The keys stay as they are, without those below a value that is replaced as a whole.\<close>

lemma sanitize_keys: "set (key_texts (sanitize secrets v)) \<subseteq> set (key_texts v)"
  by (induction secrets v rule: sanitize.induct) (fastforce split: if_splits)+

definition secret_form :: "string list \<Rightarrow> string \<Rightarrow> bool" where
  "secret_form secrets v \<longleftrightarrow> redactable v \<and>
     (\<exists>secret \<in> set secrets. secret \<noteq> [] \<and> v \<in> {secret, shlex_quote secret, url_quote secret, url_quote_plus secret, json_body secret})"

lemma contains_marker: "redactable v \<Longrightarrow> \<not> contains v REDACTED"
  using contains_sep [of "CHR ''[''" v "[]" "''REDACTED'' @ [CHR '']'']"] contains_sep [of "CHR '']''" v "''REDACTED''" "[]"]
  by (auto simp: redactable_def REDACTED_eq)

lemma sanitized_values_clean:
  assumes "secret_form secrets v" and "s \<in> set (value_texts (sanitize secrets j))"
  shows "\<not> contains v s"
proof -
  obtain secret where "secret \<in> set secrets" "secret \<noteq> []" "redactable v"
      "v \<in> {secret, shlex_quote secret, url_quote secret, url_quote_plus secret, json_body secret}"
    using assms(1) by (auto simp: secret_form_def)
  then have "\<not> contains v (redact_secrets t secrets)" for t by (intro redact_secrets_removes)
  then show ?thesis using sanitize_values [OF assms(2)] contains_marker [OF \<open>redactable v\<close>] by blast
qed

lemma contains_bound: "contains v (bound_output limit s) \<Longrightarrow> contains v s"
  by (auto simp: bound_output_def contains_iff split: if_splits) (metis append.assoc append_take_drop_id)

lemma dict_get_texts:
  "set (value_texts (dict_get k JNull d)) \<subseteq> set (value_texts (JObj d))"
  "set (key_texts (dict_get k JNull d)) \<subseteq> set (key_texts (JObj d))"
  by (auto simp: dict_get_def split: option.splits) (force dest: map_of_SomeD)+

lemma event_dict_texts:
  "set (value_texts (JObj (event_dict ev))) \<subseteq> set (value_texts (JObj ev))"
  "set (key_texts (JObj (event_dict ev))) \<subseteq> set (key_texts (JObj ev))"
proof -
  have "set (value_texts (JObj (event_dict ev))) \<subseteq> set (value_texts (JObj ev)) \<and>
      set (key_texts (JObj (event_dict ev))) \<subseteq> set (key_texts (JObj ev))"
  proof (cases "dict_get ''event_data'' JNull ev")
    case (JObj d)
    then show ?thesis using dict_get_texts [of "''event_data''" ev] by (simp add: event_dict_def)
  qed (simp_all add: event_dict_def)
  then show "set (value_texts (JObj (event_dict ev))) \<subseteq> set (value_texts (JObj ev))"
    "set (key_texts (JObj (event_dict ev))) \<subseteq> set (key_texts (JObj ev))" by blast+
qed

lemma sanitized_get:
  "dict_get k JNull (map (\<lambda>(k, v). (k, if sensitive_key_name k then JStr REDACTED else sanitize secrets v)) d) =
     (if sensitive_key_name k \<and> k \<in> set (map fst d) then JStr REDACTED else sanitize secrets (dict_get k JNull d))"
  by (induction d) (auto simp: dict_get_def)

text \<open>
  C12: What Ansible reports is recorded without the secrets of the run, except where a secret is the key of an object.
  The output a worker stores with an event, cut to its last bytes or not, and every string value in the data of the
  event, at any depth, carry no secret of the run, neither as it is nor quoted, URL-encoded or JSON-escaped. Keys are
  not redacted: the keys in the stored data are keys of the reported event, so a secret is in a stored text only when
  Ansible reported it within a key. A number that spells a secret is not a text and stays as well. Left aside are
  forms with a bracket and forms within the word \<open>REDACTED\<close>, which the marker \<open>[REDACTED]\<close> itself can complete.
\<close>

theorem recorded_events_redacted:
  assumes "run_steps wk limit i secrets [Runner_Event env ev raw] x db = (Inr x', db')" and "secret_form secrets v"
    and "dict_get ''stdout'' JNull raw = JStr out"
  shows "\<exists>e. run_events db' = run_events db @ [e] \<and> ev_id e = ev \<and> ev_run_id e = i \<and>
    \<not> contains v (case ev_stdout e of None \<Rightarrow> [] | Some s \<Rightarrow> s) \<and>
    (\<forall>s \<in> set (value_texts (JObj (ev_data e))). \<not> contains v s) \<and>
    set (key_texts (JObj (ev_data e))) \<subseteq> set (key_texts (JObj raw)) \<and>
    (\<forall>s \<in> set (value_texts (JObj (ev_data e))) \<union> set (key_texts (JObj (ev_data e))).
       contains v s \<longrightarrow> s \<in> set (key_texts (JObj raw)))"
proof -
  define clean where "clean = (case sanitize secrets (JObj raw) of JObj d \<Rightarrow> d | _ \<Rightarrow> [])"
  have obj: "JObj clean = sanitize secrets (JObj raw)" by (simp add: clean_def)
  have strings: "\<not> contains v s" if "s \<in> set (value_texts (JObj clean))" for s
    using sanitized_values_clean [OF assms(2)] that unfolding obj by blast
  let ?out = "if event_stdout wk clean = [] then None else Some (event_stdout wk clean)"
  obtain db1 where call: "append_call wk env ev i (event_type wk clean) ?out (event_task wk clean) (event_dict clean)
      (map_option (\<lambda>a. t_id (ac_target a)) (event_accumulator wk clean x)) db = (Inr (), db')"
    using assms(1) unfolding run_steps.simps clean_def [symmetric] record_event_def act_then_def
    by (auto simp: act_return_def dest!: act_bind_InrD)
  then obtain e where e: "run_events db' = run_events db @ [e]" "ev_id e = ev" "ev_run_id e = i" "ev_data e = event_dict clean"
      "ev_stdout e = map_option (bound_output (set_max_event_output_bytes (w_settings (wk_worker wk)))) ?out"
    by (auto simp: append_call_def worker_append_event_def unit_of_work_def append_event_def Let_def split: option.splits prod.splits)
  have "\<exists>s. dict_get ''stdout'' JNull clean = JStr s"
    using assms(3) by (simp add: clean_def sanitized_get)
  then obtain s where "dict_get ''stdout'' JNull clean = JStr s" by blast
  then have "s \<in> set (value_texts (JObj clean))" "event_stdout wk clean \<in> {[], s}"
    using dict_get_texts(1) [of "''stdout''" clean] by (auto simp: event_stdout_def py_str_def)
  moreover have "v \<noteq> []" using assms(2) by (auto simp: secret_form_def redactable_def)
  ultimately have "\<not> contains v (event_stdout wk clean)" using strings by auto
  then have out: "\<not> contains v (case ev_stdout e of None \<Rightarrow> [] | Some s \<Rightarrow> s)"
    using contains_bound \<open>v \<noteq> []\<close> unfolding e(5) by (auto split: if_splits)
  have data: "\<not> contains v s" if "s \<in> set (value_texts (JObj (ev_data e)))" for s
    using that strings event_dict_texts(1) unfolding e(4) by blast
  have keys: "set (key_texts (JObj (ev_data e))) \<subseteq> set (key_texts (JObj raw))"
    using event_dict_texts(2) [of clean] sanitize_keys [of secrets "JObj raw"] unfolding e(4) obj by blast
  from out data keys e(1-3) show ?thesis by blast
qed

section \<open>Sample executions\<close>

definition demo_worker :: run_worker where
  "demo_worker = \<lparr>wk_worker = sample_worker ''a'', wk_run_service = sample_service,
     wk_credentials = sample_credentials_service, wk_playbooks = demo_playbook_service, wk_repr = (\<lambda>_. [])\<rparr>"

definition demo_loop :: "nat \<Rightarrow> env" where
  "demo_loop k = sample_env (seconds (1 + int k))"

definition demo_clock_at :: "nat \<Rightarrow> env" where
  "demo_clock_at k = sample_env (seconds (5 + int k))"

definition demo_queue :: db where
  "demo_queue = sample_db\<lparr>runs := [sample_run 1\<lparr>r_inventory_snapshot := [(''all'', JObj [(''hosts'', JObj [])])]\<rparr>],
     run_targets := [new_target 11 1 100 ''web'' ''10.0.0.1'']\<rparr>"

definition demo_script :: run_script where
  "demo_script = \<lparr>sc_setup = Setup_Done,
     sc_steps = [Monitor (sample_env (seconds 7)),
       Runner_Event (sample_env (seconds 8)) 71 [(''event'', JStr ''runner_on_ok''), (''stdout'', JStr ''pong''),
         (''event_data'', JObj [(''host'', JStr ''web'')])]],
     sc_end = Runner_Done (Some 0) ''successful'', sc_cleaned = True\<rparr>"

definition demo_beat :: db where
  "demo_beat = worker_heartbeat (sample_worker ''a'') (demo_loop 0) None demo_queue"

definition demo_taken :: db where
  "demo_taken = snd (worker_claim id [] (sample_worker ''a'') (demo_loop 1) demo_beat)"

lemma demo_worker_simps [simp]: "wk_worker demo_worker = sample_worker ''a''"
  by (simp add: demo_worker_def)

lemma demo_queue_inv: "run_inv demo_queue"
proof
  show "keys_ok demo_queue" "rows_ok demo_queue" "targets_ok demo_queue" "locks_ok demo_queue" by code_simp+
  show "events_ok demo_queue"
    by (auto simp: events_ok_def demo_queue_def sample_db_def empty_db_def get_run_def sample_run_def)
qed

lemma demo_taken_inv: "run_inv demo_taken"
proof -
  have "run_inv demo_beat"
    unfolding demo_beat_def by (rule queue.step_ok [OF demo_queue_inv run_step.worker_heartbeat [OF worker_ok_sample]])
  from queue.step_ok [OF this run_step.worker_claim [OF worker_ok_sample]] show ?thesis by (simp add: demo_taken_def)
qed

lemma demo_elsewhere: "elsewhere_ok (sc_steps demo_script)"
  by (simp add: elsewhere_ok_def demo_script_def)

lemma demo_taken_row: "\<exists>r. get_run 1 demo_taken = Some r \<and> r_id r = 1 \<and> r_claimed_by r = Some ''a'' \<and> r_status r = RS_PREPARING"
proof -
  have "case get_run 1 demo_taken of None \<Rightarrow> False | Some r \<Rightarrow> r_id r = 1 \<and> r_claimed_by r = Some ''a'' \<and> r_status r = RS_PREPARING"
    by code_simp
  then show ?thesis by (simp split: option.splits)
qed

theorem worker_follows_machine_witness:
  "\<exists>r. get_run 1 demo_taken = Some r \<and> run_inv (snd (execute_run demo_worker demo_clock_at id demo_script r demo_taken))"
proof -
  obtain r where r: "get_run 1 demo_taken = Some r" "r_id r = 1" "r_claimed_by r = Some ''a''" "r_status r = RS_PREPARING"
    using demo_taken_row by blast
  then show ?thesis
    using worker_follows_machine [of demo_taken r r demo_worker demo_script] demo_taken_inv demo_elsewhere by simp
qed

theorem claimed_run_ends_witness:
  "\<exists>after. get_run 1 (snd (worker_iteration demo_worker demo_clock_at id demo_loop id [] demo_script 99 demo_queue)) = Some after \<and>
     terminal (r_status after)"
proof -
  have "case worker_claim id [] (sample_worker ''a'') (demo_loop 1) demo_beat of (Inr (Some r), _) \<Rightarrow> r_id r = 1 | _ \<Rightarrow> False"
    by code_simp
  then obtain r db1 where c: "worker_claim id [] (sample_worker ''a'') (demo_loop 1) demo_beat = (Inr (Some r), db1)" "r_id r = 1"
    by (auto split: prod.splits sum.splits option.splits)
  from claimed_run_ends [of demo_queue demo_worker demo_script "[]" demo_loop r db1 demo_clock_at id 99] show ?thesis
    using c demo_queue_inv demo_elsewhere by (simp add: demo_beat_def)
qed

lemma demo_run_succeeds:
  "case get_run 1 (snd (worker_iteration demo_worker demo_clock_at id demo_loop id [] demo_script 99 demo_queue)) of
     None \<Rightarrow> False | Some r \<Rightarrow> r_status r = RS_SUCCEEDED \<and> r_return_code r = Some 0"
  by code_simp

theorem preparation_failure_reported_witness:
  "\<exists>r row. get_run 1 sample_claimed = Some r \<and>
     get_run 1 (snd (execute_run demo_worker demo_clock_at id demo_script r sample_claimed)) = Some row \<and>
     r_status row = RS_REJECTED \<and> r_failure_code row = Some ''PREPARATION_FAILED'' \<and>
     r_failure_message row = Some ''run preparation failed'' \<and> r_finished_at row = Some (seconds 8)"
proof -
  have "case get_run 1 sample_claimed of None \<Rightarrow> False | Some r \<Rightarrow> r_id r = 1 \<and> r_claimed_by r = Some ''a'' \<and> active (r_status r) \<and>
      dict_get ''secretParameterNames'' (JList []) (r_operation_spec r) = JList [] \<and>
      snd (fst (prepare_run demo_worker (demo_clock_at 0) r sample_claimed)) = Inl (ValueErr ''inventory snapshot is invalid'')"
    by code_simp
  then obtain r where r: "get_run 1 sample_claimed = Some r" "r_id r = 1" "r_claimed_by r = Some ''a''" "active (r_status r)"
      "dict_get ''secretParameterNames'' (JList []) (r_operation_spec r) = JList []"
      "snd (fst (prepare_run demo_worker (demo_clock_at 0) r sample_claimed)) = Inl (ValueErr ''inventory snapshot is invalid'')"
    by (auto split: option.splits)
  have stop: "caught (ValueErr ''inventory snapshot is invalid'')" by (simp add: caught_def)
  have plain: "\<not> declares_secrets r" using r(5) by (simp add: declares_secrets_def)
  from preparation_failure_reported [of sample_claimed r r demo_worker demo_clock_at "ValueErr ''inventory snapshot is invalid''" id]
  obtain db' row where "\<forall>script. execute_run demo_worker demo_clock_at id script r sample_claimed = (Inr (), db')"
      "get_run 1 db' = Some row" "r_finished_at row = Some (e_now (demo_clock_at 3))" "r_status row = RS_REJECTED"
      "r_failure_code row = Some ''PREPARATION_FAILED''" "r_failure_message row = Some ''run preparation failed''"
    using r sample_claimed_inv stop plain by auto
  then show ?thesis using r(1) by (auto simp: demo_clock_at_def)
qed

theorem recorded_events_redacted_witness:
  "\<exists>x' db' e. run_steps demo_worker 10 1 [''hunter2''] [Runner_Event (sample_env (seconds 8)) 71
      [(''stdout'', JStr ''pw hunter2'')]] \<lparr>x_accumulators = [], x_cancel = False\<rparr> demo_taken = (Inr x', db') \<and>
    e \<in> set (run_events db') \<and> ev_id e = 71 \<and> \<not> contains ''hunter2'' (case ev_stdout e of None \<Rightarrow> [] | Some s \<Rightarrow> s)"
proof -
  let ?raw = "[(''stdout'', JStr ''pw hunter2'')]" and ?x = "\<lparr>x_accumulators = [], x_cancel = False\<rparr>"
  let ?call = "run_steps demo_worker 10 1 [''hunter2''] [Runner_Event (sample_env (seconds 8)) 71 ?raw] ?x demo_taken"
  have "case fst ?call of Inl _ \<Rightarrow> False | Inr _ \<Rightarrow> True" by code_simp
  then obtain x' db' where call: "?call = (Inr x', db')" by (cases "fst ?call") (auto split: sum.splits, metis prod.collapse)
  have "redactable ''hunter2''" by code_simp
  then have "secret_form [''hunter2''] ''hunter2''" by (simp add: secret_form_def)
  from recorded_events_redacted [OF call this] call show ?thesis by (auto simp: dict_get_def)
qed

text \<open>A secret that Ansible reports as a key is stored as it is, and so is one that is a number.\<close>

lemma secret_in_key_kept:
  "case run_steps demo_worker 10 1 [''hunter2'', ''4711''] [Runner_Event (sample_env (seconds 8)) 71
      [(''stdout'', JStr ''pw hunter2''), (''event_data'', JObj [(''res'', JObj [(''hunter2'', JStr ''hunter2''), (''n'', JInt 4711)])])]]
      \<lparr>x_accumulators = [], x_cancel = False\<rparr> demo_taken of
     (Inr _, db') \<Rightarrow> map (\<lambda>e. (ev_stdout e, ev_data e)) (filter (\<lambda>e. ev_id e = 71) (run_events db')) =
       [(Some ''pw [REDACTED]'', [(''res'', JObj [(''hunter2'', JStr ''[REDACTED]''), (''n'', JInt 4711)])])]
   | _ \<Rightarrow> False"
  by code_simp

section \<open>A project that cannot run\<close>

text \<open>
  The digest of a project is computed in the order of the paths as they were spelled in the request, and the worker
  recomputes it over the stored paths. A project saved with a path spelled \<open>./tasks.yml\<close> is accepted, and the material
  of each of its runs is refused.
\<close>

lemma respelled_project_never_runs:
  "case create_database demo_playbook_service demo_playbook_env 7 demo_caller 9
      (demo_input [(''./tasks.yml'', ''[]''), (''site.yml'', ''[]'')]) demo_staff of
     (Inr (b, v), db) \<Rightarrow>
       database_material demo_worker (sample_run 1\<lparr>r_kind := PLAYBOOK, r_playbook_id := Some 7, r_playbook_revision := Some 1,
         r_workspace_revision := Some (pv_sha256 v)\<rparr>) db = Inl (ValueErr ''database Playbook project digest does not match'')
   | _ \<Rightarrow> False"
  by code_simp

end
