(* ===== verification/Audit_Trail.thy ===== *)
theory Audit_Trail
  imports Auth_Model Database
begin

text \<open>
  The audit trail by itself: \<open>AuditQuery\<close> of \<open>domain/audit.py\<close>, the statements of \<open>repositories/audit.py\<close> that
  read and purge the table, pages and export of \<open>api/audit.py\<close>, and the purge loops of the worker and the command line.
  A row is an event with its identity column, which the other models leave out. Every read happens in a transaction of
  its own, so the table the \<open>k\<close>-th read of a loop meets is the argument \<open>tables k\<close>.
\<close>

record audit_row =
  au_id :: nat
  au_event :: audit_event

abbreviation au_key :: "audit_row \<Rightarrow> timestamp \<times> nat" where
  "au_key r \<equiv> (ae_occurred_at (au_event r), au_id r)"

section \<open>Queries\<close>

record audit_query =
  aq_since :: timestamp
  aq_until :: "timestamp option"
  aq_action :: "audit_action option"
  aq_outcome :: "audit_outcome option"
  aq_source :: "audit_source option"
  aq_run_id :: "uuid option"
  aq_actor_user_id :: "uuid option"
  aq_resource_type :: "string option"
  aq_resource_id :: "uuid option"
  aq_error_code :: "string option"
  aq_before_id :: "nat option"
  aq_limit :: nat

definition max_length :: "nat \<Rightarrow> string option \<Rightarrow> bool" where
  "max_length n s \<longleftrightarrow> (case s of None \<Rightarrow> True | Some t \<Rightarrow> length t \<le> n)"

text \<open>The checks of the model class; a resource id is a UUID here, whose text has 36 characters.\<close>

definition checked_query :: "audit_query \<Rightarrow> ops_error + audit_query" where
  "checked_query q =
     (if \<not> max_length 64 (aq_resource_type q) \<or> \<not> max_length 128 (aq_error_code q) \<or> aq_before_id q = Some 0 \<or>
         aq_limit q < 1 \<or> 10000 < aq_limit q
      then Inl (ValueErr ''AuditQuery'')
      else if (case aq_until q of None \<Rightarrow> False | Some t \<Rightarrow> t \<le> aq_since q)
      then Inl (ValueErr ''until must be later than since'')
      else Inr q)"

definition equals :: "'a option \<Rightarrow> 'a option \<Rightarrow> bool" where
  "equals wanted actual \<longleftrightarrow> wanted = None \<or> wanted = actual"

text \<open>Comparing with the row of an unknown cursor is comparing with \<open>NULL\<close>, which selects nothing.\<close>

definition before_cursor :: "audit_row list \<Rightarrow> nat option \<Rightarrow> audit_row \<Rightarrow> bool" where
  "before_cursor rows cursor r =
     (case cursor of
        None \<Rightarrow> True
      | Some i \<Rightarrow> (case fetch_one (\<lambda>c. au_id c = i) rows of None \<Rightarrow> False | Some c \<Rightarrow> au_key r < au_key c))"

definition event_matches :: "audit_query \<Rightarrow> audit_event \<Rightarrow> bool" where
  "event_matches q e \<longleftrightarrow>
     aq_since q \<le> ae_occurred_at e \<and> (case aq_until q of None \<Rightarrow> True | Some t \<Rightarrow> ae_occurred_at e < t) \<and>
     equals (aq_action q) (Some (ae_action e)) \<and> equals (aq_outcome q) (Some (ae_outcome e)) \<and>
     equals (aq_source q) (Some (ae_source e)) \<and> equals (aq_run_id q) (ad_run_id (ae_details e)) \<and>
     equals (aq_actor_user_id q) (ad_actor_user_id (ae_details e)) \<and>
     equals (aq_resource_type q) (ad_resource_type (ae_details e)) \<and>
     equals (aq_resource_id q) (ad_resource_id (ae_details e)) \<and> equals (aq_error_code q) (ad_error_code (ae_details e))"

definition list_events :: "audit_query \<Rightarrow> audit_row list \<Rightarrow> audit_row list" where
  "list_events q rows =
     take (aq_limit q) (rev (sort_key au_key
       (filter (\<lambda>r. event_matches q (au_event r) \<and> before_cursor rows (aq_before_id q) r) rows)))"

definition count_before :: "timestamp \<Rightarrow> audit_row list \<Rightarrow> nat" where
  "count_before cutoff rows = length (filter (\<lambda>r. ae_occurred_at (au_event r) < cutoff) rows)"

section \<open>Best-effort events\<close>

text \<open>\<open>record_best_effort\<close>: the identity the database gives the row, or none when the write fails or times out.\<close>

definition record_best_effort :: "nat option \<Rightarrow> audit_event \<Rightarrow> audit_row list \<Rightarrow> audit_row list" where
  "record_best_effort identity e rows =
     (case identity of None \<Rightarrow> rows | Some i \<Rightarrow> rows @ [\<lparr>au_id = i, au_event = e\<rparr>])"

section \<open>Pages and export\<close>

definition HOUR :: timestamp where "HOUR = seconds 3600"

definition DAY :: timestamp where "DAY = seconds 86400"

text \<open>
  \<open>_query\<close> looks 24 hours back unless told otherwise. The bounds that the signature of an endpoint gives its parameters
  are checked before its body runs; a page has at most 500 rows.
\<close>

definition parameters_ok :: "audit_query \<Rightarrow> bool" where
  "parameters_ok q \<longleftrightarrow>
     max_length 64 (aq_resource_type q) \<and> max_length 128 (aq_error_code q) \<and> aq_before_id q \<noteq> Some 0 \<and>
     1 \<le> aq_limit q \<and> aq_limit q \<le> 500"

definition audit_query_since :: "timestamp \<Rightarrow> timestamp option \<Rightarrow> audit_query \<Rightarrow> ops_error + audit_query" where
  "audit_query_since now since q =
     checked_query (q\<lparr>aq_since := (case since of None \<Rightarrow> now - 24 * HOUR | Some t \<Rightarrow> t)\<rparr>)"

definition list_audit_events ::
    "timestamp \<Rightarrow> session_principal \<Rightarrow> timestamp option \<Rightarrow> audit_query \<Rightarrow> audit_row list \<Rightarrow>
     ops_error + (audit_row list \<times> nat option)" where
  "list_audit_events now actor since q rows =
     (if \<not> parameters_ok q then Inl (ValueErr ''RequestValidationError'')
      else if \<not> permitted actor AUDIT_READ then Inl PermissionDeniedError
      else case audit_query_since now since q of
        Inl e \<Rightarrow> Inl e
      | Inr q \<Rightarrow>
          let events = list_events q rows
          in Inr (events, if length events = aq_limit q then Some (au_id (last events)) else None))"

text \<open>The pages of \<open>stream\<close>, at most \<open>fuel\<close> of them.\<close>

fun export_pages ::
    "nat \<Rightarrow> (nat \<Rightarrow> audit_row list) \<Rightarrow> nat \<Rightarrow> audit_query \<Rightarrow> nat option \<Rightarrow> audit_row list option" where
  "export_pages 0 tables k q cursor = None"
| "export_pages (Suc fuel) tables k q cursor =
     (let page = list_events (q\<lparr>aq_before_id := cursor\<rparr>) (tables k)
      in if length page < aq_limit q then Some page
         else map_option (\<lambda>rest. page @ rest)
                (export_pages fuel tables (Suc k) q (Some (au_id (last page)))))"

definition EXPORT_PAGE :: nat where "EXPORT_PAGE = 500"

text \<open>The event of the export is recorded first; then \<open>tables\<close> are read page by page while the response is sent.\<close>

definition export_audit_events ::
    "log_context \<Rightarrow> timestamp \<Rightarrow> nat option \<Rightarrow> nat \<Rightarrow> session_principal \<Rightarrow> audit_query \<Rightarrow> audit_row list \<Rightarrow>
     (nat \<Rightarrow> audit_row list) \<Rightarrow> ops_error + (audit_row list \<times> audit_row list option)" where
  "export_audit_events ctx now identity fuel actor q rows tables =
     (if \<not> parameters_ok (q\<lparr>aq_before_id := None, aq_limit := EXPORT_PAGE\<rparr>) then Inl (ValueErr ''RequestValidationError'')
      else if \<not> permitted actor AUDIT_READ then Inl PermissionDeniedError
      else case checked_query (q\<lparr>aq_before_id := None, aq_limit := EXPORT_PAGE\<rparr>) of
        Inl e \<Rightarrow> Inl e
      | Inr base \<Rightarrow>
          Inr (record_best_effort identity
                 (new_audit_event ctx now AUDIT_EXPORTED AO_SUCCEEDED SRC_API
                    (no_details\<lparr>ad_actor_user_id := Some (sp_user_id actor), ad_session_id := Some (sp_session_id actor),
                       ad_resource_type := Some ''audit_export''\<rparr>)) rows,
               export_pages fuel tables 0 base None))"

section \<open>Retention\<close>

definition AUDIT_PURGE_BATCH_SIZE :: nat where "AUDIT_PURGE_BATCH_SIZE = 5000"

text \<open>Whether the advisory lock was free and which rows other transactions have locked are arguments.\<close>

definition purge_batch ::
    "bool \<Rightarrow> (nat \<Rightarrow> bool) \<Rightarrow> timestamp \<Rightarrow> nat \<Rightarrow> audit_row list \<Rightarrow> (bool \<times> nat) \<times> audit_row list" where
  "purge_batch acquired locked cutoff batch_size rows =
     (if \<not> acquired then ((False, 0), rows)
      else
        let expired = take batch_size (sort_key au_key
              (filter (\<lambda>r. ae_occurred_at (au_event r) < cutoff \<and> \<not> locked (au_id r)) rows))
        in ((True, length expired), delete_where (\<lambda>r. au_id r \<in> au_id ` set expired) rows))"

datatype purge_end = PURGE_FAILED | LOCK_BUSY | DRAINED

text \<open>
  The loop of \<open>_purge_expired_audit\<close> and \<open>audit_purge\<close>: batches until one raises, finds the advisory lock taken or
  deletes nothing. What the \<open>k\<close>-th batch meets is \<open>turns k\<close>: an error, or the state of the locks.
\<close>

fun purge_loop ::
    "nat \<Rightarrow> (nat \<Rightarrow> (bool \<times> (nat \<Rightarrow> bool)) option) \<Rightarrow> (nat \<Rightarrow> timestamp) \<Rightarrow> nat \<Rightarrow> nat \<Rightarrow> audit_row list \<Rightarrow>
     ((purge_end \<times> nat) \<times> audit_row list) option" where
  "purge_loop 0 turns cutoff k purged rows = None"
| "purge_loop (Suc fuel) turns cutoff k purged rows =
     (case turns k of
        None \<Rightarrow> Some ((PURGE_FAILED, purged), rows)
      | Some (free, locked) \<Rightarrow>
          (case purge_batch free locked (cutoff k) AUDIT_PURGE_BATCH_SIZE rows of
             ((acquired, count), rows1) \<Rightarrow>
               if \<not> acquired then Some ((LOCK_BUSY, purged), rows1)
               else if count = 0 then Some ((DRAINED, purged), rows1)
               else purge_loop fuel turns cutoff (Suc k) (purged + count) rows1))"

text \<open>The worker purges before the retention in days, by the clock of each batch; a failure is logged and recorded nowhere.\<close>

definition purge_expired_audit ::
    "log_context \<Rightarrow> string \<Rightarrow> timestamp \<Rightarrow> nat option \<Rightarrow> nat \<Rightarrow> (nat \<Rightarrow> (bool \<times> (nat \<Rightarrow> bool)) option) \<Rightarrow>
     (nat \<Rightarrow> timestamp) \<Rightarrow> nat \<Rightarrow> audit_row list \<Rightarrow> ((purge_end \<times> nat) \<times> audit_row list) option" where
  "purge_expired_audit ctx worker_id now identity fuel turns clock retention_days rows =
     map_option (\<lambda>((ending, purged), rows1).
        ((ending, purged),
         if ending \<noteq> PURGE_FAILED \<and> purged \<noteq> 0
         then record_best_effort identity
                (new_audit_event ctx now AUDIT_RETENTION_PURGED AO_SUCCEEDED SRC_WORKER
                   (no_details\<lparr>ad_worker_id := Some worker_id\<rparr>)) rows1
         else rows1))
       (purge_loop fuel turns (\<lambda>k. clock k - int retention_days * DAY) 0 0 rows)"

text \<open>The command purges before a fixed time, or only counts; what a batch raises ends it.\<close>

definition audit_purge ::
    "log_context \<Rightarrow> timestamp \<Rightarrow> nat option \<Rightarrow> nat \<Rightarrow> (nat \<Rightarrow> (bool \<times> (nat \<Rightarrow> bool)) option) \<Rightarrow> timestamp option \<Rightarrow>
     nat \<Rightarrow> bool \<Rightarrow> audit_row list \<Rightarrow> ((purge_end \<times> nat) \<times> audit_row list) option" where
  "audit_purge ctx now identity fuel turns before retention_days execute rows =
     (let cutoff = (case before of None \<Rightarrow> now - int retention_days * DAY | Some t \<Rightarrow> t)
      in if \<not> execute then Some ((DRAINED, count_before cutoff rows), rows)
         else map_option (\<lambda>((ending, purged), rows1).
                ((ending, purged),
                 if ending = PURGE_FAILED then rows1
                 else record_best_effort identity
                        (new_audit_event ctx now AUDIT_RETENTION_PURGED
                           (if ending = LOCK_BUSY then AO_NOOP else AO_SUCCEEDED) SRC_CLI no_details) rows1))
              (purge_loop fuel turns (\<lambda>_. cutoff) 0 0 rows))"

section \<open>What happens to the trail between two reads\<close>

text \<open>
  The events of all processes are appended under identities that were never used before, and purges delete batches;
  nothing else writes the table. The state is the identities used so far and the rows.
\<close>

inductive trail_step :: "nat set \<times> audit_row list \<Rightarrow> nat set \<times> audit_row list \<Rightarrow> bool" where
  appended: "i \<notin> used \<Longrightarrow> trail_step (used, rows) (insert i used, record_best_effort (Some i) e rows)"
| purged: "trail_step (used, rows) (used, snd (purge_batch free (\<lambda>_. False) cutoff n rows))"

definition trail_inv :: "nat set \<times> audit_row list \<Rightarrow> bool" where
  "trail_inv s \<longleftrightarrow> distinct (map au_id (snd s)) \<and> au_id ` set (snd s) \<subseteq> fst s"

end
