(* ===== verification/Audit_Trail_Properties.thy ===== *)
theory Audit_Trail_Properties
  imports Audit_Trail
begin

text \<open>
  The audit trail keeps its promises while it is written and purged: an export misses no event that is kept, whatever
  happens between its pages, and a purge deletes expired events only, until none is left.
\<close>

section \<open>The table\<close>

text \<open>What the steps do to the table: rows that go are the oldest, rows that come have new identities.\<close>

definition oldest_first :: "nat set \<times> audit_row list \<Rightarrow> nat set \<times> audit_row list \<Rightarrow> bool" where
  "oldest_first s t \<longleftrightarrow>
     fst s \<subseteq> fst t \<and> (\<forall>r \<in> set (snd t). r \<in> set (snd s) \<or> au_id r \<notin> fst s) \<and>
     (\<forall>r \<in> set (snd s). r \<notin> set (snd t) \<longrightarrow> (\<forall>x \<in> set (snd s). au_key x \<le> au_key r \<longrightarrow> x \<notin> set (snd t)))"

lemma oldest_firstD:
  assumes "oldest_first s t"
  shows "fst s \<subseteq> fst t" "r \<in> set (snd t) \<Longrightarrow> r \<in> set (snd s) \<or> au_id r \<notin> fst s"
    "r \<in> set (snd s) \<Longrightarrow> r \<notin> set (snd t) \<Longrightarrow> x \<in> set (snd s) \<Longrightarrow> au_key x \<le> au_key r \<Longrightarrow> x \<notin> set (snd t)"
  using assms unfolding oldest_first_def by blast+

lemma oldest_firstI:
  assumes "set rows1 \<subseteq> set rows"
    "\<And>r x. r \<in> set rows \<Longrightarrow> r \<notin> set rows1 \<Longrightarrow> x \<in> set rows \<Longrightarrow> au_key x \<le> au_key r \<Longrightarrow> x \<notin> set rows1"
  shows "oldest_first (used, rows) (used, rows1)"
  unfolding oldest_first_def fst_conv snd_conv using assms by blast

lemma trail_invD:
  assumes "trail_inv s" "r \<in> set (snd s)" "x \<in> set (snd s)" "au_id r = au_id x"
  shows "r = x"
  using assms by (auto simp: trail_inv_def distinct_map inj_on_def)

lemma trail_inv_used: "trail_inv s \<Longrightarrow> r \<in> set (snd s) \<Longrightarrow> au_id r \<in> fst s"
  by (auto simp: trail_inv_def)

lemma take_sort_key_oldest:
  fixes key :: "'r \<Rightarrow> 'k::linorder"
  assumes "r \<in> set (take n (sort_key key rows))" "x \<in> set rows" "key x < key r"
  shows "x \<in> set (take n (sort_key key rows))"
proof (rule ccontr)
  assume "x \<notin> set (take n (sort_key key rows))"
  moreover have "set rows = set (take n (sort_key key rows)) \<union> set (drop n (sort_key key rows))"
    by (metis append_take_drop_id set_append set_sort)
  ultimately have "x \<in> set (drop n (sort_key key rows))" using assms(2) by blast
  moreover have "sorted (map key (take n (sort_key key rows)) @ map key (drop n (sort_key key rows)))"
    by (simp flip: map_append)
  ultimately have "key r \<le> key x" using assms(1) by (auto simp: sorted_append)
  with assms(3) show False by simp
qed

lemma purge_batch_acquired:
  "purge_batch True locked cutoff n rows =
     ((True, length (take n (sort_key au_key (filter (\<lambda>r. ae_occurred_at (au_event r) < cutoff \<and> \<not> locked (au_id r)) rows)))),
      filter (\<lambda>r. au_id r \<notin> au_id ` set (take n (sort_key au_key
        (filter (\<lambda>r. ae_occurred_at (au_event r) < cutoff \<and> \<not> locked (au_id r)) rows)))) rows)"
  by (simp add: purge_batch_def Let_def delete_where_def)

lemma purge_batch_busy: "purge_batch False locked cutoff n rows = ((False, 0), rows)"
  by (simp add: purge_batch_def)

lemma purge_subset: "set (snd (purge_batch free locked cutoff n rows)) \<subseteq> set rows"
  by (cases free) (auto simp: purge_batch_acquired purge_batch_busy)

lemma distinct_purge: "distinct (map au_id rows) \<Longrightarrow> distinct (map au_id (snd (purge_batch free locked cutoff n rows)))"
  by (cases free) (auto simp: purge_batch_acquired purge_batch_busy distinct_map_filter)

text \<open>With distinct identities, the rows a batch deletes are those it chose.\<close>

lemma purge_gone:
  assumes "distinct (map au_id rows)" "r \<in> set rows"
  shows "r \<notin> set (snd (purge_batch True locked cutoff n rows)) \<longleftrightarrow>
     r \<in> set (take n (sort_key au_key (filter (\<lambda>r. ae_occurred_at (au_event r) < cutoff \<and> \<not> locked (au_id r)) rows)))"
proof -
  let ?old = "take n (sort_key au_key (filter (\<lambda>r. ae_occurred_at (au_event r) < cutoff \<and> \<not> locked (au_id r)) rows))"
  have "set ?old \<subseteq> set rows" by (auto dest: in_set_takeD)
  then have "au_id r \<in> au_id ` set ?old \<longleftrightarrow> r \<in> set ?old"
    using assms by (auto simp: distinct_map inj_on_def)
  then show ?thesis using assms(2) by (simp add: purge_batch_acquired)
qed

lemma trail_step_sound:
  assumes "trail_step s t" "trail_inv s"
  shows "trail_inv t \<and> oldest_first s t"
  using assms
proof (induction rule: trail_step.cases)
  case (appended i used e rows)
  then show ?case by (auto simp: trail_inv_def oldest_first_def record_best_effort_def)
next
  case (purged used rows free cutoff n)
  have ids: "distinct (map au_id rows)" using purged by (simp add: trail_inv_def)
  have "oldest_first (used, rows) (used, snd (purge_batch free (\<lambda>_. False) cutoff n rows))"
  proof (cases free)
    case True
    have older: "x \<notin> set (snd (purge_batch True (\<lambda>_. False) cutoff n rows))"
      if *: "r \<in> set rows" "r \<notin> set (snd (purge_batch True (\<lambda>_. False) cutoff n rows))" "x \<in> set rows" "au_key x \<le> au_key r"
      for r x
    proof (cases "au_key x = au_key r")
      case True
      then show ?thesis using * ids by (auto simp: distinct_map inj_on_def)
    next
      case False
      have less: "au_key x < au_key r" by (rule order.not_eq_order_implies_strict[OF False *(4)])
      have chosen: "r \<in> set (take n (sort_key au_key (filter (\<lambda>r. ae_occurred_at (au_event r) < cutoff) rows)))"
        using purge_gone[OF ids *(1), of "\<lambda>_. False"] *(2) by simp
      then have "ae_occurred_at (au_event r) < cutoff" by (auto dest!: in_set_takeD)
      then have "x \<in> set (filter (\<lambda>r. ae_occurred_at (au_event r) < cutoff) rows)"
        using less *(3) by auto
      then show ?thesis
        using take_sort_key_oldest[OF chosen _ less] purge_gone[OF ids *(3), of "\<lambda>_. False"] by simp
    qed
    have "oldest_first (used, rows) (used, snd (purge_batch True (\<lambda>_. False) cutoff n rows))"
      by (rule oldest_firstI[OF purge_subset older])
    then show ?thesis using True by simp
  qed (auto simp: oldest_first_def purge_batch_busy)
  moreover have "trail_inv (used, snd (purge_batch free (\<lambda>_. False) cutoff n rows))"
    using purged(3) unfolding purged(1) trail_inv_def fst_conv snd_conv
    by (blast intro: distinct_purge dest: subsetD[OF purge_subset])
  ultimately show ?case using purged by simp
qed

lemma oldest_first_trans:
  assumes "trail_inv a" "oldest_first a b" "oldest_first b c"
  shows "oldest_first a c"
proof -
  have kept: "r \<in> set (snd b)" if "r \<in> set (snd a)" "r \<in> set (snd c)" for r
    using that trail_inv_used[OF assms(1)] oldest_firstD(1)[OF assms(2)] oldest_firstD(2)[OF assms(3)] by blast
  have "x \<notin> set (snd c)"
    if "r \<in> set (snd a)" "r \<notin> set (snd c)" "x \<in> set (snd a)" "au_key x \<le> au_key r" for r x
    using that kept oldest_firstD(3)[OF assms(2)] oldest_firstD(3)[OF assms(3)] by blast
  moreover have "r \<in> set (snd a) \<or> au_id r \<notin> fst a" if "r \<in> set (snd c)" for r
    using that oldest_firstD(2)[OF assms(3)] oldest_firstD(2)[OF assms(2)] oldest_firstD(1)[OF assms(2)] by blast
  moreover have "fst a \<subseteq> fst c" using oldest_firstD(1)[OF assms(2)] oldest_firstD(1)[OF assms(3)] by blast
  ultimately show ?thesis unfolding oldest_first_def by blast
qed

lemma trail_steps_sound:
  assumes "trail_step\<^sup>*\<^sup>* s t" "trail_inv s"
  shows "trail_inv t \<and> oldest_first s t"
  using assms
proof (induction rule: rtranclp_induct)
  case base
  then show ?case by (simp add: oldest_first_def)
next
  case (step t u)
  then show ?case using trail_step_sound oldest_first_trans by blast
qed

section \<open>Pages\<close>

text \<open>What a query selects, with the cursor as the row it stands for.\<close>

definition below :: "audit_row option \<Rightarrow> audit_row \<Rightarrow> bool" where
  "below c r \<longleftrightarrow> (case c of None \<Rightarrow> True | Some x \<Rightarrow> au_key r < au_key x)"

lemma below_trans: "below (Some x) r \<Longrightarrow> below c x \<Longrightarrow> below c r"
  unfolding below_def by (cases c) (simp_all only: option.case less_trans)

definition selected :: "audit_query \<Rightarrow> audit_row list \<Rightarrow> nat option \<Rightarrow> audit_row list" where
  "selected q rows cursor = filter (\<lambda>r. event_matches q (au_event r) \<and> before_cursor rows cursor r) rows"

lemma list_events_selected:
  "list_events (q\<lparr>aq_before_id := cursor\<rparr>) rows = take (aq_limit q) (rev (sort_key au_key (selected q rows cursor)))"
  by (simp add: list_events_def selected_def event_matches_def)

lemma before_cursor_below:
  assumes "trail_inv (used, rows)" "x \<in> set rows"
  shows "before_cursor rows (Some (au_id x)) r \<longleftrightarrow> below (Some x) r"
proof -
  have "fetch_one (\<lambda>c. au_id c = au_id x) rows = Some x"
    using assms by (intro fetch_one_by_key) (simp_all add: trail_inv_def)
  then show ?thesis by (simp only: before_cursor_def below_def option.case)
qed

lemma before_cursor_gone:
  assumes "au_id x \<notin> au_id ` set rows"
  shows "\<not> before_cursor rows (Some (au_id x)) r"
proof -
  have "fetch_one (\<lambda>c. au_id c = au_id x) rows = None"
    unfolding fetch_one_None_iff using assms by (metis image_eqI)
  then show ?thesis by (simp add: before_cursor_def)
qed

lemma newest_first:
  fixes key :: "'r \<Rightarrow> 'k::linorder"
  assumes "distinct (map key rows)"
  shows "sorted_wrt (\<lambda>a b. key b < key a) (rev (sort_key key rows))"
proof -
  have "sorted (map key (sort_key key rows))" "distinct (map key (sort_key key rows))"
    using assms by (simp_all add: distinct_map)
  then have "sorted_wrt (<) (map key (sort_key key rows))" by (simp add: strict_sorted_iff)
  then show ?thesis by (simp add: sorted_wrt_rev sorted_wrt_map)
qed

lemma last_least:
  fixes key :: "'r \<Rightarrow> 'k::linorder"
  shows "sorted_wrt (\<lambda>a b. key b < key a) rows \<Longrightarrow> r \<in> set rows \<Longrightarrow> key (last rows) \<le> key r"
  by (induction rows) (auto intro: less_imp_le)

text \<open>A page is the newest part of what is selected; it is all of it when it is not full.\<close>

lemma page_facts:
  assumes "trail_inv (used, rows)" "page = list_events (q\<lparr>aq_before_id := cursor\<rparr>) rows"
  shows "set page \<subseteq> set (selected q rows cursor)" "sorted_wrt (\<lambda>a b. au_key b < au_key a) page"
    "length page < aq_limit q \<Longrightarrow> set page = set (selected q rows cursor)"
    "0 < aq_limit q \<Longrightarrow> \<not> length page < aq_limit q \<Longrightarrow> page \<noteq> [] \<and>
       (\<forall>r \<in> set (selected q rows cursor). r \<in> set page \<or> au_key r < au_key (last page))"
proof -
  let ?all = "rev (sort_key au_key (selected q rows cursor))"
  have page: "page = take (aq_limit q) ?all" using assms(2) by (simp add: list_events_selected)
  have "distinct (map au_id (selected q rows cursor))"
    using assms(1) by (auto simp: trail_inv_def selected_def distinct_map_filter)
  then have keys: "distinct (map au_key (selected q rows cursor))" by (auto simp: distinct_map inj_on_def)
  have split: "?all = page @ drop (aq_limit q) ?all" using page by simp
  have sorted: "sorted_wrt (\<lambda>a b. au_key b < au_key a) (page @ drop (aq_limit q) ?all)"
    using newest_first[OF keys] split by simp
  show "sorted_wrt (\<lambda>a b. au_key b < au_key a) page" using sorted by (simp only: sorted_wrt_append)
  show "set page \<subseteq> set (selected q rows cursor)" using page by (auto dest: in_set_takeD)
  show "set page = set (selected q rows cursor)" if "length page < aq_limit q"
  proof -
    have "page = ?all" using that page by (simp add: min_def split: if_splits)
    then show ?thesis by simp
  qed
  show "page \<noteq> [] \<and> (\<forall>r \<in> set (selected q rows cursor). r \<in> set page \<or> au_key r < au_key (last page))"
    if "0 < aq_limit q" "\<not> length page < aq_limit q"
  proof -
    have ne: "page \<noteq> []" using that by auto
    have all: "set (selected q rows cursor) = set page \<union> set (drop (aq_limit q) ?all)"
      using split by (metis set_append set_rev set_sort)
    have "au_key r < au_key (last page)" if "r \<in> set (drop (aq_limit q) ?all)" for r
      using sorted that last_in_set[OF ne] unfolding sorted_wrt_append by blast
    then show ?thesis using ne all by blast
  qed
qed

section \<open>Export\<close>

text \<open>A trail is read at the moments 0, 1, .. with any steps between two reads.\<close>

definition trail_run :: "(nat \<Rightarrow> nat set \<times> audit_row list) \<Rightarrow> bool" where
  "trail_run trail \<longleftrightarrow> trail_inv (trail 0) \<and> (\<forall>k. trail_step\<^sup>*\<^sup>* (trail k) (trail (Suc k)))"

lemma trail_run_inv:
  assumes "trail_run trail"
  shows "trail_inv (trail k)"
proof (induction k)
  case 0
  then show ?case using assms by (simp add: trail_run_def)
next
  case (Suc k)
  then show ?case using assms trail_steps_sound[of "trail k" "trail (Suc k)"] by (simp add: trail_run_def)
qed

lemma trail_run_oldest: "trail_run trail \<Longrightarrow> oldest_first (trail k) (trail (Suc k))"
  using trail_run_inv[of trail k] trail_steps_sound[of "trail k" "trail (Suc k)"] by (simp add: trail_run_def)

definition cursor_ok :: "(nat \<Rightarrow> nat set \<times> audit_row list) \<Rightarrow> nat \<Rightarrow> audit_row option \<Rightarrow> bool" where
  "cursor_ok trail k c \<longleftrightarrow> (case c of None \<Rightarrow> True | Some x \<Rightarrow> \<exists>j. k = Suc j \<and> x \<in> set (snd (trail j)))"

lemma cursor_gone:
  assumes "trail_run trail" "x \<in> set (snd (trail j))" "x \<notin> set (snd (trail (Suc j)))"
  shows "au_id x \<notin> au_id ` set (snd (trail (Suc j)))"
proof
  assume "au_id x \<in> au_id ` set (snd (trail (Suc j)))"
  then obtain r where r: "r \<in> set (snd (trail (Suc j)))" "au_id r = au_id x" by auto
  have "au_id x \<in> fst (trail j)" using trail_inv_used[OF trail_run_inv[OF assms(1)] assms(2)] .
  then have "r \<in> set (snd (trail j))"
    using oldest_firstD(2)[OF trail_run_oldest[OF assms(1)] r(1)] r(2) by simp
  then have "r = x" using trail_invD[OF trail_run_inv[OF assms(1)] _ assms(2) r(2)] by blast
  then show False using r(1) assms(3) by simp
qed

lemma selected_sound:
  assumes "trail_run trail" "cursor_ok trail k c" "r \<in> set (selected q (snd (trail k)) (map_option au_id c))"
  shows "r \<in> set (snd (trail k)) \<and> event_matches q (au_event r) \<and> below c r"
proof (cases c)
  case None
  then show ?thesis using assms(3) by (simp add: selected_def below_def)
next
  case (Some x)
  then obtain j where j: "k = Suc j" "x \<in> set (snd (trail j))" using assms(2) by (auto simp: cursor_ok_def)
  have r: "r \<in> set (snd (trail k))" "event_matches q (au_event r)" "before_cursor (snd (trail k)) (Some (au_id x)) r"
    using assms(3) Some by (simp_all add: selected_def)
  have "x \<in> set (snd (trail k))"
    using r(3) before_cursor_gone cursor_gone[OF assms(1) j(2)] j(1) by metis
  then have "below (Some x) r"
    using r(3) before_cursor_below[of "fst (trail k)"] trail_run_inv[OF assms(1)] by (metis prod.collapse)
  then show ?thesis using r Some by simp
qed

lemma selected_complete:
  assumes "trail_run trail" "cursor_ok trail k c" "\<And>j. r \<in> set (snd (trail j))" "event_matches q (au_event r)" "below c r"
  shows "r \<in> set (selected q (snd (trail k)) (map_option au_id c))"
proof (cases c)
  case None
  then show ?thesis using assms(3,4) by (simp add: selected_def before_cursor_def)
next
  case (Some x)
  then obtain j where j: "k = Suc j" "x \<in> set (snd (trail j))" using assms(2) by (auto simp: cursor_ok_def)
  have less: "au_key r < au_key x" using assms(5) Some unfolding below_def by (simp only: option.case)
  have "x \<in> set (snd (trail k))"
    using oldest_firstD(3)[OF trail_run_oldest[OF assms(1)] j(2) _ assms(3) less_imp_le[OF less]] assms(3) j(1) by blast
  then have "before_cursor (snd (trail k)) (Some (au_id x)) r"
    using assms(5) Some before_cursor_below[of "fst (trail k)"] trail_run_inv[OF assms(1)] by (metis prod.collapse)
  then show ?thesis using assms(3,4) Some by (simp add: selected_def)
qed

text \<open>What an export has collected when it returns, from any cursor on.\<close>

lemma export_pages_facts:
  assumes "trail_run trail" "0 < aq_limit q" "cursor_ok trail k c"
    "export_pages fuel (\<lambda>k. snd (trail k)) k q (map_option au_id c) = Some rows"
  shows "sorted_wrt (\<lambda>a b. au_key b < au_key a) rows"
    "\<And>r. r \<in> set rows \<Longrightarrow> event_matches q (au_event r) \<and> below c r \<and> (\<exists>j. r \<in> set (snd (trail j)))"
    "\<And>r. (\<And>j. r \<in> set (snd (trail j))) \<Longrightarrow> event_matches q (au_event r) \<Longrightarrow> below c r \<Longrightarrow> r \<in> set rows"
proof -
  have all: "sorted_wrt (\<lambda>a b. au_key b < au_key a) rows \<and>
    (\<forall>r \<in> set rows. event_matches q (au_event r) \<and> below c r \<and> (\<exists>j. r \<in> set (snd (trail j)))) \<and>
    (\<forall>r. (\<forall>j. r \<in> set (snd (trail j))) \<longrightarrow> event_matches q (au_event r) \<longrightarrow> below c r \<longrightarrow> r \<in> set rows)"
    using assms(3,4)
  proof (induction fuel arbitrary: k c rows)
    case 0
    then show ?case by simp
  next
    case (Suc fuel)
    define page where "page = list_events (q\<lparr>aq_before_id := map_option au_id c\<rparr>) (snd (trail k))"
    have inv: "trail_inv (fst (trail k), snd (trail k))" using trail_run_inv[OF assms(1)] by simp
    note facts = page_facts[OF inv page_def]
    have sound: "\<forall>r \<in> set page. r \<in> set (snd (trail k)) \<and> event_matches q (au_event r) \<and> below c r"
      using facts(1) selected_sound[OF assms(1) Suc.prems(1)] by blast
    have complete: "r \<in> set (selected q (snd (trail k)) (map_option au_id c))"
      if "\<forall>j. r \<in> set (snd (trail j))" "event_matches q (au_event r)" "below c r" for r
      using selected_complete[OF assms(1) Suc.prems(1)] that by blast
    show ?case
    proof (cases "length page < aq_limit q")
      case True
      then have "rows = page" using Suc.prems(2) by (simp add: page_def Let_def)
      then show ?thesis using facts(2) facts(3)[OF True] sound complete by blast
    next
      case False
      let ?x = "last page"
      from facts(4)[OF assms(2) False] have ne: "page \<noteq> []"
        and rest: "\<forall>r \<in> set (selected q (snd (trail k)) (map_option au_id c)). r \<in> set page \<or> au_key r < au_key ?x"
        by blast+
      obtain more1 where pages: "export_pages fuel (\<lambda>k. snd (trail k)) (Suc k) q (Some (au_id ?x)) = Some more1"
          "rows = page @ more1"
        using Suc.prems(2) False by (auto simp: page_def Let_def)
      have x: "?x \<in> set page" using ne by simp
      then have ok: "cursor_ok trail (Suc k) (Some ?x)" using sound by (simp add: cursor_ok_def)
      have IH: "sorted_wrt (\<lambda>a b. au_key b < au_key a) more1"
          "\<forall>r \<in> set more1. event_matches q (au_event r) \<and> below (Some ?x) r \<and> (\<exists>j. r \<in> set (snd (trail j)))"
          "\<forall>r. (\<forall>j. r \<in> set (snd (trail j))) \<longrightarrow> event_matches q (au_event r) \<longrightarrow> below (Some ?x) r \<longrightarrow> r \<in> set more1"
        using Suc.IH[OF ok] pages(1) by auto
      have above: "au_key ?x \<le> au_key r" if "r \<in> set page" for r
        using last_least[OF facts(2) that] .
      have cross: "au_key b < au_key a" if "a \<in> set page" "b \<in> set more1" for a b
      proof -
        have "au_key b < au_key ?x" using IH(2) that(2) unfolding below_def by (simp only: option.case)
        then show ?thesis using above[OF that(1)] by (rule less_le_trans)
      qed
      have sorted: "sorted_wrt (\<lambda>a b. au_key b < au_key a) rows"
        unfolding pages(2) sorted_wrt_append using facts(2) IH(1) cross by blast
      have later: "event_matches q (au_event r) \<and> below c r \<and> (\<exists>j. r \<in> set (snd (trail j)))" if "r \<in> set rows" for r
      proof (cases "r \<in> set page")
        case True
        then show ?thesis using sound by blast
      next
        case False
        then have "r \<in> set more1" using that pages(2) by simp
        then show ?thesis using IH(2) below_trans sound x by blast
      qed
      have missed: "r \<in> set rows"
        if kept: "\<forall>j. r \<in> set (snd (trail j))" "event_matches q (au_event r)" "below c r" for r
      proof (cases "r \<in> set page")
        case True
        then show ?thesis using pages(2) by simp
      next
        case False
        then have "au_key r < au_key ?x" using rest complete[OF kept] by blast
        then have "below (Some ?x) r" unfolding below_def by (simp only: option.case)
        then have "r \<in> set more1" using IH(3) kept by blast
        then show ?thesis using pages(2) by simp
      qed
      show ?thesis using sorted later missed by simp
    qed
  qed
  show "sorted_wrt (\<lambda>a b. au_key b < au_key a) rows" using all by (rule conjunct1)
  show "event_matches q (au_event r) \<and> below c r \<and> (\<exists>j. r \<in> set (snd (trail j)))" if "r \<in> set rows" for r
    using all[THEN conjunct2, THEN conjunct1] that by (rule bspec)
  show "r \<in> set rows" if "\<And>j. r \<in> set (snd (trail j))" "event_matches q (au_event r)" "below c r" for r
    using all[THEN conjunct2, THEN conjunct2, rule_format, of r] that by simp
qed

text \<open>Every full page moves the cursor down, so as many pages as there are rows are enough.\<close>

lemma export_pages_ends:
  assumes "trail_run trail" "0 < aq_limit q" "finite U" "\<And>k. set (snd (trail k)) \<subseteq> U"
    "cursor_ok trail k c" "card {r \<in> U. below c r} < fuel"
  shows "\<exists>rows. export_pages fuel (\<lambda>k. snd (trail k)) k q (map_option au_id c) = Some rows"
  using assms(5,6)
proof (induction fuel arbitrary: k c)
  case 0
  then show ?case by simp
next
  case (Suc fuel)
  define page where "page = list_events (q\<lparr>aq_before_id := map_option au_id c\<rparr>) (snd (trail k))"
  have inv: "trail_inv (fst (trail k), snd (trail k))" using trail_run_inv[OF assms(1)] by simp
  note facts = page_facts[OF inv page_def]
  show ?case
  proof (cases "length page < aq_limit q")
    case True
    then show ?thesis by (simp add: page_def Let_def)
  next
    case False
    let ?x = "last page"
    have "?x \<in> set page" using facts(4)[OF assms(2) False] by simp
    then have x: "?x \<in> set (snd (trail k))" "below c ?x"
      using facts(1) selected_sound[OF assms(1) Suc.prems(1)] by blast+
    have "\<not> below (Some ?x) ?x" unfolding below_def by (simp only: option.case less_irrefl not_False_eq_True)
    then have "{r \<in> U. below (Some ?x) r} \<subset> {r \<in> U. below c r}"
      using x assms(4) below_trans by blast
    then have "card {r \<in> U. below (Some ?x) r} < card {r \<in> U. below c r}"
      using assms(3) by (intro psubset_card_mono) simp_all
    then have "card {r \<in> U. below (Some ?x) r} < fuel" using Suc.prems(2) by simp
    moreover have "cursor_ok trail (Suc k) (Some ?x)" using x by (simp add: cursor_ok_def)
    ultimately obtain rest where "export_pages fuel (\<lambda>k. snd (trail k)) (Suc k) q (map_option au_id (Some ?x)) = Some rest"
      using Suc.IH by blast
    then show ?thesis using False by (simp add: page_def Let_def)
  qed
qed

lemma event_matches_base [simp]: "event_matches (q\<lparr>aq_before_id := b, aq_limit := n\<rparr>) e = event_matches q e"
  by (simp add: event_matches_def)

lemma checked_query_Inr: "checked_query q = Inr base \<Longrightarrow> base = q"
  by (auto simp: checked_query_def split: if_splits)

lemma checked_parameters_ok: "checked_query q = Inr base \<Longrightarrow> aq_limit q \<le> 500 \<Longrightarrow> parameters_ok q"
  by (auto simp: checked_query_def parameters_ok_def split: if_splits)

text \<open>C27: an export returns, newest event first and each once, only events that match and every matching event that is
  still kept when it ends, whatever processes append and the retention purges while its pages are read.\<close>

theorem export_misses_nothing:
  assumes "permitted actor AUDIT_READ" "checked_query (q\<lparr>aq_before_id := None, aq_limit := EXPORT_PAGE\<rparr>) = Inr base"
    "trail_run trail" "finite U" "\<And>k. set (snd (trail k)) \<subseteq> U" "card U < fuel"
  shows "\<exists>rows1 exported.
    export_audit_events ctx now identity fuel actor q rows (\<lambda>k. snd (trail k)) = Inr (rows1, Some exported) \<and>
    sorted_wrt (\<lambda>a b. au_key b < au_key a) exported \<and>
    (\<forall>r \<in> set exported. event_matches q (au_event r) \<and> (\<exists>k. r \<in> set (snd (trail k)))) \<and>
    (\<forall>r. (\<forall>k. r \<in> set (snd (trail k))) \<and> event_matches q (au_event r) \<longrightarrow> r \<in> set exported)"
proof -
  have base: "base = q\<lparr>aq_before_id := None, aq_limit := EXPORT_PAGE\<rparr>" using assms(2) by (rule checked_query_Inr)
  then have limit: "0 < aq_limit base" by (simp add: EXPORT_PAGE_def)
  have start: "cursor_ok trail 0 None" by (simp add: cursor_ok_def)
  have "card {r \<in> U. below None r} < fuel" using assms(6) by (simp add: below_def)
  then obtain exported where pages: "export_pages fuel (\<lambda>k. snd (trail k)) 0 base (map_option au_id (None :: audit_row option)) = Some exported"
    using export_pages_ends[OF assms(3) limit assms(4,5) start] by blast
  note facts = export_pages_facts[OF assms(3) limit start pages]
  obtain rows1 where run:
      "export_audit_events ctx now identity fuel actor q rows (\<lambda>k. snd (trail k)) = Inr (rows1, Some exported)"
    using assms(1,2) pages checked_parameters_ok[OF assms(2)] by (simp add: export_audit_events_def EXPORT_PAGE_def)
  have "event_matches q (au_event r) \<and> (\<exists>k. r \<in> set (snd (trail k)))" if "r \<in> set exported" for r
    using facts(2)[OF that] base by simp
  moreover have "r \<in> set exported" if "\<forall>k. r \<in> set (snd (trail k))" "event_matches q (au_event r)" for r
    using facts(3)[of r] that base by (simp add: below_def)
  ultimately show ?thesis using run facts(1) by blast
qed

section \<open>Retention\<close>

lemma purge_batch_filter:
  "snd (purge_batch free locked cutoff n rows) =
     filter (\<lambda>r. r \<in> set (snd (purge_batch free locked cutoff n rows))) rows"
proof -
  obtain p where p: "snd (purge_batch free locked cutoff n rows) = filter p rows"
    by (cases free) (use that[of "\<lambda>_. True"] that in \<open>simp_all add: purge_batch_acquired purge_batch_busy\<close>)
  show ?thesis unfolding p by (rule filter_cong) auto
qed

lemma length_keys: "distinct (map key rows) \<Longrightarrow> length rows = card (key ` set rows)"
  using distinct_card[of "map key rows"] by simp

lemma purge_batch_count:
  assumes "distinct (map au_id rows)" "purge_batch free locked cutoff n rows = ((acquired, count), rows1)"
  shows "acquired = free" "count + length rows1 = length rows"
    "r \<in> set rows \<Longrightarrow> r \<notin> set rows1 \<Longrightarrow> ae_occurred_at (au_event r) < cutoff"
    "acquired \<Longrightarrow> count = 0 \<Longrightarrow> 0 < n \<Longrightarrow> r \<in> set rows \<Longrightarrow> ae_occurred_at (au_event r) < cutoff \<Longrightarrow> locked (au_id r)"
proof -
  let ?expired = "filter (\<lambda>r. ae_occurred_at (au_event r) < cutoff \<and> \<not> locked (au_id r)) rows"
  let ?old = "take n (sort_key au_key ?expired)"
  show "acquired = free" using assms(2) by (cases free) (simp_all add: purge_batch_acquired purge_batch_busy)
  have old: "set ?old \<subseteq> set ?expired" by (auto dest: in_set_takeD)
  show "count + length rows1 = length rows"
  proof (cases free)
    case True
    have "distinct (map au_id ?expired)" using assms(1) by (rule distinct_map_filter)
    then have "distinct (map au_id (sort_key au_key ?expired))" by (simp add: distinct_map)
    then have "distinct (take n (map au_id (sort_key au_key ?expired)))" by (rule distinct_take)
    then have "distinct (map au_id ?old)" by (simp only: take_map)
    then have chosen: "length ?old = card (au_id ` set ?old)" by (rule length_keys)
    have deleted: "length (filter (\<lambda>r. au_id r \<in> au_id ` set ?old) rows) = card (au_id ` set ?old)"
    proof -
      have "distinct (map au_id (filter (\<lambda>r. au_id r \<in> au_id ` set ?old) rows))"
        using assms(1) by (simp add: distinct_map_filter)
      then have "length (filter (\<lambda>r. au_id r \<in> au_id ` set ?old) rows) =
          card (au_id ` set (filter (\<lambda>r. au_id r \<in> au_id ` set ?old) rows))"
        by (rule length_keys)
      also have "au_id ` set (filter (\<lambda>r. au_id r \<in> au_id ` set ?old) rows) = au_id ` set ?old" using old by auto
      finally show ?thesis .
    qed
    have result: "count = length ?old" "rows1 = filter (\<lambda>r. au_id r \<notin> au_id ` set ?old) rows"
      using assms(2) unfolding iffD2[OF eq_True True] purge_batch_acquired prod.inject by blast+
    have both: "length (filter (\<lambda>r. au_id r \<in> au_id ` set ?old) rows) +
        length (filter (\<lambda>r. au_id r \<notin> au_id ` set ?old) rows) = length rows"
      by (rule sum_length_filter_compl)
    show ?thesis unfolding result by (rule trans[OF _ both]) (simp only: chosen deleted)
  qed (use assms(2) in \<open>simp add: purge_batch_busy\<close>)
  show "ae_occurred_at (au_event r) < cutoff" if "r \<in> set rows" "r \<notin> set rows1"
  proof (cases free)
    case True
    then have "rows1 = snd (purge_batch True locked cutoff n rows)" using assms(2) by simp
    then have "r \<notin> set (snd (purge_batch True locked cutoff n rows))" using that(2) by (simp only: simp_thms)
    then have "r \<in> set ?old" by (rule iffD1[OF purge_gone[OF assms(1) that(1)]])
    then have "r \<in> set ?expired" by (rule subsetD[OF old])
    then show ?thesis by simp
  qed (use assms(2) that in \<open>simp add: purge_batch_busy\<close>)
  show "locked (au_id r)"
    if "acquired" "count = 0" "0 < n" "r \<in> set rows" "ae_occurred_at (au_event r) < cutoff"
  proof (rule ccontr)
    assume "\<not> locked (au_id r)"
    then have "r \<in> set ?expired" using that(4,5) by simp
    then have "0 < length ?expired" by (rule length_pos_if_in_set)
    then have "length ?old \<noteq> 0" unfolding length_take length_sort neq0_conv min_less_iff_conj using that(3) by (rule conjI)
    moreover have "length ?old = count"
      using assms(2) that(1) by (cases free) (simp_all add: purge_batch_acquired purge_batch_busy)
    ultimately show False using that(2) by (simp only: simp_thms)
  qed
qed

text \<open>What a purge has done when it returns, and that it returns: every further batch deletes a row.\<close>

lemma purge_loop_facts:
  assumes "distinct (map au_id rows)" "length rows < fuel"
  shows "\<exists>ending n keep. purge_loop fuel turns cutoff k purged rows = Some ((ending, n), filter keep rows) \<and>
    n + length (filter keep rows) = purged + length rows \<and>
    (\<forall>r \<in> set rows. \<not> keep r \<longrightarrow> (\<exists>j. ae_occurred_at (au_event r) < cutoff j)) \<and>
    (ending = DRAINED \<longrightarrow> (\<exists>j locked. turns j = Some (True, locked) \<and>
       (\<forall>r \<in> set rows. keep r \<and> ae_occurred_at (au_event r) < cutoff j \<longrightarrow> locked (au_id r))))"
  using assms
proof (induction fuel arbitrary: k purged rows)
  case 0
  then show ?case by simp
next
  case (Suc fuel)
  show ?case
  proof (cases "turns k")
    case None
    then show ?thesis by (intro exI[of _ PURGE_FAILED] exI[of _ purged] exI[of _ "\<lambda>_. True"]) simp
  next
    case (Some turn)
    obtain free locked where turn: "turn = (free, locked)" by (cases turn)
    obtain acquired count rows1 where
      batch: "purge_batch free locked (cutoff k) AUDIT_PURGE_BATCH_SIZE rows = ((acquired, count), rows1)"
      by (metis prod.collapse)
    note facts = purge_batch_count[OF Suc.prems(1) batch]
    have rows1: "rows1 = filter (\<lambda>r. r \<in> set rows1) rows"
      using purge_batch_filter[of free locked "cutoff k" AUDIT_PURGE_BATCH_SIZE rows] batch by simp
    show ?thesis
    proof (cases "acquired \<and> count \<noteq> 0")
      case False
      let ?ending = "if acquired then DRAINED else LOCK_BUSY"
      have "purge_loop (Suc fuel) turns cutoff k purged rows = Some ((?ending, purged), rows1)"
        using Some turn batch False by auto
      moreover have "count = 0" using False batch facts(1) by (cases free) (auto simp: purge_batch_busy)
      moreover have "?ending = DRAINED \<longrightarrow> turns k = Some (True, locked) \<and>
          (\<forall>r \<in> set rows. r \<in> set rows1 \<and> ae_occurred_at (au_event r) < cutoff k \<longrightarrow> locked (au_id r))"
        using Some turn facts(1) facts(4) \<open>count = 0\<close> by (auto simp: AUDIT_PURGE_BATCH_SIZE_def)
      ultimately show ?thesis using facts(2,3) rows1
        by (intro exI[of _ ?ending] exI[of _ purged] exI[of _ "\<lambda>r. r \<in> set rows1"]) auto
    next
      case True
      have "distinct (map au_id rows1)" by (subst rows1) (rule distinct_map_filter[OF Suc.prems(1)])
      moreover have "length rows1 < fuel" using True facts(2) Suc.prems(2) by simp
      ultimately obtain ending n keep where
        IH: "purge_loop fuel turns cutoff (Suc k) (purged + count) rows1 = Some ((ending, n), filter keep rows1)"
          "n + length (filter keep rows1) = purged + count + length rows1"
          "\<forall>r \<in> set rows1. \<not> keep r \<longrightarrow> (\<exists>j. ae_occurred_at (au_event r) < cutoff j)"
          "ending = DRAINED \<longrightarrow> (\<exists>j locked. turns j = Some (True, locked) \<and>
             (\<forall>r \<in> set rows1. keep r \<and> ae_occurred_at (au_event r) < cutoff j \<longrightarrow> locked (au_id r)))"
        using Suc.IH by blast
      let ?keep = "\<lambda>r. r \<in> set rows1 \<and> keep r"
      have both: "filter ?keep rows = filter keep rows1"
        by (subst (2) rows1) (simp add: filter_filter conj_commute)
      have "purge_loop (Suc fuel) turns cutoff k purged rows = Some ((ending, n), filter ?keep rows)"
        using Some turn batch True IH(1) both by simp
      moreover have "n + length (filter ?keep rows) = purged + length rows" using IH(2) facts(2) both by simp
      moreover have "\<forall>r \<in> set rows. \<not> ?keep r \<longrightarrow> (\<exists>j. ae_occurred_at (au_event r) < cutoff j)"
        using IH(3) facts(3) by blast
      moreover have "ending = DRAINED \<longrightarrow> (\<exists>j locked. turns j = Some (True, locked) \<and>
          (\<forall>r \<in> set rows. ?keep r \<and> ae_occurred_at (au_event r) < cutoff j \<longrightarrow> locked (au_id r)))"
        using IH(4) by blast
      ultimately show ?thesis by blast
    qed
  qed
qed

lemma record_best_effort_adds: 
  "\<exists>added. length added \<le> 1 \<and> (if c then record_best_effort identity e rows else rows) = rows @ added"
  by (cases identity; cases c) (auto simp: record_best_effort_def)

text \<open>C28: the retention of the worker returns; it deletes only events older than the retention and, unless a batch failed
  or another process was purging, leaves no such event that was not locked. It adds at most the event about itself.\<close>

theorem retention_deletes_expired_only:
  assumes "distinct (map au_id rows)" "length rows < fuel"
  shows "\<exists>ending purged keep added.
    purge_expired_audit ctx worker_id now identity fuel turns clock retention_days rows =
      Some ((ending, purged), filter keep rows @ added) \<and>
    length added \<le> 1 \<and> purged + length (filter keep rows) = length rows \<and>
    (\<forall>r \<in> set rows. \<not> keep r \<longrightarrow> (\<exists>k. ae_occurred_at (au_event r) < clock k - int retention_days * DAY)) \<and>
    (ending = DRAINED \<longrightarrow> (\<exists>k locked. turns k = Some (True, locked) \<and>
       (\<forall>r \<in> set rows. keep r \<and> ae_occurred_at (au_event r) < clock k - int retention_days * DAY \<longrightarrow> locked (au_id r))))"
proof -
  obtain ending purged keep where
    loop: "purge_loop fuel turns (\<lambda>k. clock k - int retention_days * DAY) 0 0 rows =
        Some ((ending, purged), filter keep rows)"
    and rest: "purged + length (filter keep rows) = 0 + length rows"
      "\<forall>r \<in> set rows. \<not> keep r \<longrightarrow> (\<exists>k. ae_occurred_at (au_event r) < clock k - int retention_days * DAY)"
      "ending = DRAINED \<longrightarrow> (\<exists>k locked. turns k = Some (True, locked) \<and>
         (\<forall>r \<in> set rows. keep r \<and> ae_occurred_at (au_event r) < clock k - int retention_days * DAY \<longrightarrow> locked (au_id r)))"
    using purge_loop_facts[OF assms] by blast
  have run: "purge_expired_audit ctx worker_id now identity fuel turns clock retention_days rows =
      Some ((ending, purged), if ending \<noteq> PURGE_FAILED \<and> purged \<noteq> 0
        then record_best_effort identity (new_audit_event ctx now AUDIT_RETENTION_PURGED AO_SUCCEEDED SRC_WORKER
          (no_details\<lparr>ad_worker_id := Some worker_id\<rparr>)) (filter keep rows) else filter keep rows)"
    using loop by (simp add: purge_expired_audit_def)
  obtain added where added: "length added \<le> 1"
    "(if ending \<noteq> PURGE_FAILED \<and> purged \<noteq> 0
        then record_best_effort identity (new_audit_event ctx now AUDIT_RETENTION_PURGED AO_SUCCEEDED SRC_WORKER
          (no_details\<lparr>ad_worker_id := Some worker_id\<rparr>)) (filter keep rows) else filter keep rows) = filter keep rows @ added"
    using record_best_effort_adds by blast
  show ?thesis using added(1) rest run[unfolded added(2)]
    by (intro exI[of _ ending] exI[of _ purged] exI[of _ keep] exI[of _ added]) simp
qed

text \<open>The dry run of the command counts what its execution deletes, when nothing else holds a lock.\<close>

lemma dry_run_counts_purged:
  assumes "distinct (map au_id rows)" "length rows < fuel" "\<And>k. turns k = Some (True, \<lambda>_. False)"
  shows "map_option fst (audit_purge ctx now identity fuel turns before retention_days True rows) =
    map_option fst (audit_purge ctx now identity fuel turns before retention_days False rows)"
proof -
  let ?cutoff = "case before of None \<Rightarrow> now - int retention_days * DAY | Some t \<Rightarrow> t"
  obtain ending purged keep where
    loop: "purge_loop fuel turns (\<lambda>_. ?cutoff) 0 0 rows = Some ((ending, purged), filter keep rows)"
    and rest: "purged + length (filter keep rows) = 0 + length rows"
      "\<forall>r \<in> set rows. \<not> keep r \<longrightarrow> ae_occurred_at (au_event r) < ?cutoff"
      "ending = DRAINED \<longrightarrow> (\<exists>k locked. turns k = Some (True, locked) \<and>
         (\<forall>r \<in> set rows. keep r \<and> ae_occurred_at (au_event r) < ?cutoff \<longrightarrow> locked (au_id r)))"
    using purge_loop_facts[OF assms(1,2), of turns "\<lambda>_. ?cutoff" 0 0] by blast
  have drained: "ending = DRAINED" if "purge_loop f turns c k p rs = Some ((ending, n), rows1)" for f c k p rs n rows1
    using that
    by (induction f arbitrary: k p rs) (auto simp: assms(3) purge_batch_acquired split: if_splits)
  have ending: "ending = DRAINED" using drained loop .
  have "filter keep rows = filter (\<lambda>r. \<not> ae_occurred_at (au_event r) < ?cutoff) rows"
    using rest(2,3) ending assms(3) by (intro filter_cong) auto
  then have "purged = count_before ?cutoff rows"
    using rest(1) sum_length_filter_compl[of "\<lambda>r. ae_occurred_at (au_event r) < ?cutoff" rows]
    by (simp add: count_before_def)
  then show ?thesis using loop ending by (simp add: audit_purge_def Let_def)
qed

section \<open>Witnesses\<close>

definition demo_row :: "nat \<Rightarrow> audit_row" where
  "demo_row i = \<lparr>au_id = i,
     au_event = new_audit_event empty_context (int i) RUN_CREATED AO_SUCCEEDED SRC_API no_details\<rparr>"

definition demo_rows :: "audit_row list" where
  "demo_rows = map demo_row [1..<602]"

text \<open>The retention deletes the first fifty of 601 events after the first page was read.\<close>

definition demo_trail :: "nat \<Rightarrow> nat set \<times> audit_row list" where
  "demo_trail k = ({1..<602},
     if k = 0 then demo_rows else snd (purge_batch True (\<lambda>_. False) 51 AUDIT_PURGE_BATCH_SIZE demo_rows))"

definition demo_audit_query :: audit_query where
  "demo_audit_query = \<lparr>aq_since = 0, aq_until = Some 1000, aq_action = Some RUN_CREATED, aq_outcome = None,
     aq_source = None, aq_run_id = None, aq_actor_user_id = None, aq_resource_type = None, aq_resource_id = None,
     aq_error_code = None, aq_before_id = None, aq_limit = 200\<rparr>"

definition demo_auditor :: session_principal where
  "demo_auditor = \<lparr>sp_session_id = 1, sp_user_id = 2, sp_username = ''audit'', sp_role = AUDITOR,
     sp_permissions = permissions_for_role AUDITOR, sp_mfa_enabled = False, sp_mfa_enrollment_required = False,
     sp_mfa_verified_at = None, sp_reauthenticated_at = None, sp_elevated_until = None, sp_csrf_hash = [],
     sp_expires_at = 5000\<rparr>"

lemma demo_ids: "distinct (map au_id demo_rows)"
proof -
  have "map au_id demo_rows = [1..<602]" by (simp add: demo_rows_def demo_row_def comp_def map_idI del: upt_conv_Cons)
  then show ?thesis by (simp only: distinct_upt)
qed

lemma demo_used: "au_id ` set demo_rows = {1..<602}"
  by (simp add: demo_rows_def demo_row_def image_image del: upt_conv_Cons)

lemma demo_trail_run: "trail_run demo_trail"
  unfolding trail_run_def
proof (intro conjI allI)
  show "trail_inv (demo_trail 0)" using demo_ids demo_used by (simp add: trail_inv_def demo_trail_def)
  show "trail_step\<^sup>*\<^sup>* (demo_trail k) (demo_trail (Suc k))" for k
    by (cases k) (auto simp: demo_trail_def intro: trail_step.purged)
qed

lemma demo_trail_rows: "set (snd (demo_trail k)) \<subseteq> set demo_rows"
  using purge_subset by (simp add: demo_trail_def)

lemma demo_row_member: "demo_row 100 \<in> set demo_rows"
  unfolding demo_rows_def set_map set_upt by (rule imageI) simp

lemma demo_row_kept: "demo_row 100 \<in> set (snd (demo_trail k))"
proof (cases k)
  case 0
  then show ?thesis using demo_row_member by (simp add: demo_trail_def)
next
  case (Suc j)
  obtain got rows1 where batch: "purge_batch True (\<lambda>_. False) 51 AUDIT_PURGE_BATCH_SIZE demo_rows = (got, rows1)"
    by (cases "purge_batch True (\<lambda>_. False) 51 AUDIT_PURGE_BATCH_SIZE demo_rows")
  have "\<not> ae_occurred_at (au_event (demo_row 100)) < 51" by (simp add: demo_row_def)
  then have "demo_row 100 \<in> set rows1"
    using purge_batch_count(3)[OF demo_ids, of True "\<lambda>_. False" 51 AUDIT_PURGE_BATCH_SIZE "fst got" "snd got"] batch
      demo_row_member by (cases got) fastforce
  then show ?thesis using Suc batch by (simp add: demo_trail_def)
qed

theorem export_misses_nothing_witness:
  "\<exists>rows1 exported. export_audit_events empty_context 700 None 602 demo_auditor demo_audit_query demo_rows
     (\<lambda>k. snd (demo_trail k)) = Inr (rows1, Some exported) \<and> demo_row 100 \<in> set exported"
proof -
  have allowed: "permitted demo_auditor AUDIT_READ" by (simp add: demo_auditor_def READ_PERMISSIONS_def)
  have valid: "checked_query (demo_audit_query\<lparr>aq_before_id := None, aq_limit := EXPORT_PAGE\<rparr>) =
      Inr (demo_audit_query\<lparr>aq_before_id := None, aq_limit := EXPORT_PAGE\<rparr>)"
    by (simp add: checked_query_def demo_audit_query_def max_length_def EXPORT_PAGE_def)
  have matches: "event_matches demo_audit_query (au_event (demo_row 100))"
    by (simp add: event_matches_def demo_audit_query_def demo_row_def equals_def)
  have "card (set demo_rows) < 602"
    using card_length[of demo_rows] by (simp add: demo_rows_def del: upt_conv_Cons)
  then show ?thesis
    using export_misses_nothing[OF allowed valid demo_trail_run _ demo_trail_rows, of 602 empty_context 700 None demo_rows]
      demo_row_kept matches by blast
qed

theorem retention_deletes_expired_only_witness:
  "\<exists>ending purged keep added.
     purge_expired_audit empty_context ''worker'' (90 * DAY + 60) (Some 7) 4 (\<lambda>_. Some (True, \<lambda>_. False))
       (\<lambda>_. 90 * DAY + 2) 90 [demo_row 1, demo_row 2, demo_row 3] =
       Some ((ending, purged), filter keep [demo_row 1, demo_row 2, demo_row 3] @ added) \<and>
     (ending = DRAINED \<longrightarrow> \<not> keep (demo_row 1)) \<and> keep (demo_row 2) \<and> keep (demo_row 3)"
proof -
  have ids: "distinct (map au_id [demo_row 1, demo_row 2, demo_row 3])" by (simp add: demo_row_def)
  have times: "ae_occurred_at (au_event (demo_row i)) = int i" for i by (simp add: demo_row_def)
  obtain ending purged keep added where
    run: "purge_expired_audit empty_context ''worker'' (90 * DAY + 60) (Some 7) 4 (\<lambda>_. Some (True, \<lambda>_. False))
       (\<lambda>_. 90 * DAY + 2) 90 [demo_row 1, demo_row 2, demo_row 3] =
       Some ((ending, purged), filter keep [demo_row 1, demo_row 2, demo_row 3] @ added)"
    and gone: "\<forall>r \<in> set [demo_row 1, demo_row 2, demo_row 3]. \<not> keep r \<longrightarrow>
       (\<exists>k::nat. ae_occurred_at (au_event r) < 90 * DAY + 2 - int 90 * DAY)"
    and left: "ending = DRAINED \<longrightarrow> (\<exists>(k::nat) locked. Some (True, \<lambda>_. False) = Some (True, locked) \<and>
       (\<forall>r \<in> set [demo_row 1, demo_row 2, demo_row 3].
          keep r \<and> ae_occurred_at (au_event r) < 90 * DAY + 2 - int 90 * DAY \<longrightarrow> locked (au_id r)))"
    using retention_deletes_expired_only[OF ids, of 4 empty_context "''worker''" "90 * DAY + 60" "Some 7"
      "\<lambda>_. Some (True, \<lambda>_. False)" "\<lambda>_. 90 * DAY + 2" 90] by auto
  have "keep (demo_row 2)" "keep (demo_row 3)" using gone by (auto simp: times)
  moreover have "ending = DRAINED \<longrightarrow> \<not> keep (demo_row 1)" using left by (auto simp: times)
  ultimately show ?thesis using run by blast
qed

end
