(* ===== verification/Http_Auth.thy ===== *)
theory Http_Auth
  imports Auth_Service
begin

text \<open>
  The routes of \<open>auth/api.py\<close>: the guards of a request (allowed origin, session cookie, CSRF token), the bounds of its
  body, the call of \<open>AuthService\<close> and the cookies of the answer; and the settings these read. The framework solves the
  guards before it validates the body. Encoding an answer as JSON is left out, and so are its constant headers.
\<close>

section \<open>Origins\<close>

text \<open>
  \<open>urllib.parse.urlsplit\<close> and the attributes of its result. Whether the text in brackets is an address, and whether
  characters outside ASCII are safe under Unicode normalization, is the argument \<open>special\<close>.
\<close>

record url_parts =
  ur_scheme :: string
  ur_netloc :: string
  ur_path :: string
  ur_query :: string
  ur_fragment :: string

definition is_alpha :: "char \<Rightarrow> bool" where
  "is_alpha c \<longleftrightarrow> (CHR ''a'' \<le> c \<and> c \<le> CHR ''z'') \<or> (CHR ''A'' \<le> c \<and> c \<le> CHR ''Z'')"

definition is_scheme_char :: "char \<Rightarrow> bool" where
  "is_scheme_char c \<longleftrightarrow> is_alpha c \<or> is_digit c \<or> c \<in> {CHR ''+'', CHR ''-'', CHR ''.''}"

definition before_char :: "char \<Rightarrow> string \<Rightarrow> string" where
  "before_char c s = takeWhile (\<lambda>d. d \<noteq> c) s"

definition after_char :: "char \<Rightarrow> string \<Rightarrow> string" where
  "after_char c s = drop 1 (dropWhile (\<lambda>d. d \<noteq> c) s)"

definition split_scheme :: "string \<Rightarrow> string \<times> string" where
  "split_scheme url =
     (let scheme = before_char CHR '':'' url
      in if CHR '':'' \<in> set url \<and> scheme \<noteq> [] \<and> is_alpha (hd scheme) \<and> list_all is_scheme_char scheme
         then (casefold scheme, after_char CHR '':'' url) else ([], url))"

definition is_ascii :: "string \<Rightarrow> bool" where
  "is_ascii s \<longleftrightarrow> list_all (\<lambda>c. c \<le> CHR 0x7F) s"

definition netloc_ok :: "(string \<Rightarrow> bool) \<Rightarrow> string \<Rightarrow> bool" where
  "netloc_ok special netloc \<longleftrightarrow>
     (CHR ''['' \<in> set netloc) = (CHR '']'' \<in> set netloc) \<and>
     (CHR ''['' \<in> set netloc \<or> \<not> is_ascii netloc \<longrightarrow> special netloc)"

definition url_split :: "(string \<Rightarrow> bool) \<Rightarrow> string \<Rightarrow> url_parts option" where
  "url_split special text_url =
     (let url = filter (\<lambda>c. c \<notin> {CHR 0x09, CHR 0x0A, CHR 0x0D}) (dropWhile (\<lambda>c. c \<le> CHR 0x20) text_url);
          (scheme, rest) = split_scheme url;
          located = startswith ''//'' rest;
          netloc = (if located then takeWhile (\<lambda>c. c \<notin> set ''/?#'') (drop 2 rest) else []);
          tail = (if located then dropWhile (\<lambda>c. c \<notin> set ''/?#'') (drop 2 rest) else rest);
          unfragmented = before_char CHR ''#'' tail
      in if netloc_ok special netloc
         then Some \<lparr>ur_scheme = scheme, ur_netloc = netloc, ur_path = before_char CHR ''?'' unfragmented,
                    ur_query = after_char CHR ''?'' unfragmented, ur_fragment = after_char CHR ''#'' tail\<rparr>
         else None)"

text \<open>\<open>hostname\<close> and \<open>port\<close> of a split URL; a port that is no number or too large raises.\<close>

definition host_info :: "string \<Rightarrow> string" where
  "host_info netloc = rev (before_char CHR ''@'' (rev netloc))"

definition url_hostname :: "string \<Rightarrow> string" where
  "url_hostname netloc =
     (let info = host_info netloc
      in if CHR ''['' \<in> set info then before_char CHR '']'' (after_char CHR ''['' info) else before_char CHR '':'' info)"

definition url_port :: "string \<Rightarrow> nat option option" where
  "url_port netloc =
     (let info = host_info netloc;
          port = (if CHR ''['' \<in> set info then after_char CHR '':'' (after_char CHR '']'' (after_char CHR ''['' info))
                  else after_char CHR '':'' info)
      in if port = [] then Some None
         else if list_all is_digit port \<and> digits_value port \<le> 65535 then Some (Some (digits_value port)) else None)"

record http_settings =
  hs_special_netloc :: "string \<Rightarrow> bool"
  hs_production :: bool
  hs_allowed_origins_csv :: string
  hs_session_cookie_secure :: "bool option"

definition rstrip_slash :: "string \<Rightarrow> string" where
  "rstrip_slash s = rev (dropWhile (\<lambda>c. c = CHR ''/'') (rev s))"

definition check_origin :: "http_settings \<Rightarrow> string \<Rightarrow> ops_error + unit" where
  "check_origin hs origin =
     (case url_split (hs_special_netloc hs) origin of
        None \<Rightarrow> Inl (ValueErr ''Invalid URL'')
      | Some u \<Rightarrow>
          (case url_port (ur_netloc u) of
             None \<Rightarrow> Inl (ValueErr ''allowed origins must use a valid port'')
           | Some port \<Rightarrow>
               if ur_scheme u \<notin> {''http'', ''https''} \<or> url_hostname (ur_netloc u) = [] \<or> CHR ''@'' \<in> set (ur_netloc u) \<or>
                  ur_path u \<noteq> [] \<or> ur_query u \<noteq> [] \<or> ur_fragment u \<noteq> [] \<or> port = Some 0
               then Inl (ValueErr ''allowed origins must be HTTP(S) origins without credentials or paths'')
               else Inr ()))"

fun collect_origins :: "http_settings \<Rightarrow> string list \<Rightarrow> ops_error + string list" where
  "collect_origins hs [] = Inr []"
| "collect_origins hs (part # parts) =
     (let origin = rstrip_slash (py_strip part)
      in if origin = [] then collect_origins hs parts
         else case check_origin hs origin of
           Inl e \<Rightarrow> Inl e
         | Inr _ \<Rightarrow> (case collect_origins hs parts of Inl e \<Rightarrow> Inl e | Inr origins \<Rightarrow> Inr (origin # origins)))"

definition allowed_origins :: "http_settings \<Rightarrow> ops_error + string list" where
  "allowed_origins hs = collect_origins hs (py_split CHR '','' (hs_allowed_origins_csv hs))"

definition cookies_secure :: "http_settings \<Rightarrow> bool" where
  "cookies_secure hs = (case hs_session_cookie_secure hs of Some b \<Rightarrow> b | None \<Rightarrow> hs_production hs)"

definition COOKIE_PREFIX :: string where "COOKIE_PREFIX = ''ops-composer''"

definition prefixed_cookie_name :: "http_settings \<Rightarrow> string \<Rightarrow> string" where
  "prefixed_cookie_name hs suffix =
     (let prefix = COOKIE_PREFIX @ suffix in if hs_production hs then ''__Host-'' @ prefix else prefix)"

definition session_cookie_name :: "http_settings \<Rightarrow> string" where
  "session_cookie_name hs = prefixed_cookie_name hs ''-session''"

definition csrf_cookie_name :: "http_settings \<Rightarrow> string" where
  "csrf_cookie_name hs = prefixed_cookie_name hs ''-csrf''"

definition auth_challenge_cookie_name :: "http_settings \<Rightarrow> string" where
  "auth_challenge_cookie_name hs = prefixed_cookie_name hs ''-auth-challenge''"

section \<open>Guards\<close>

record http_request =
  rq_origin :: "string option"
  rq_referer :: "string option"
  rq_csrf_token :: "string option"
  rq_cookies :: "string \<rightharpoonup> string"
  rq_client :: "string option"

datatype http_error =
    OriginNotAllowedError
  | AuthErr auth_error
  | RequestValidationError
  | Unhandled ops_error

definition source_origin :: "http_settings \<Rightarrow> http_request \<Rightarrow> http_error + string option" where
  "source_origin hs rq =
     (case rq_origin rq of
        Some (c # origin) \<Rightarrow> Inr (Some (rstrip_slash (c # origin)))
      | _ \<Rightarrow>
          (case rq_referer rq of
             Some (c # referer) \<Rightarrow>
               (case url_split (hs_special_netloc hs) (c # referer) of
                  None \<Rightarrow> Inl (Unhandled (ValueErr ''Invalid URL''))
                | Some u \<Rightarrow>
                    if ur_scheme u \<notin> {''http'', ''https''} \<or> ur_netloc u = [] then Inr None
                    else Inr (Some (ur_scheme u @ ''://'' @ ur_netloc u)))
           | _ \<Rightarrow> Inr None))"

definition require_allowed_origin :: "http_settings \<Rightarrow> http_request \<Rightarrow> http_error + unit" where
  "require_allowed_origin hs rq =
     (case source_origin hs rq of
        Inl e \<Rightarrow> Inl e
      | Inr origin \<Rightarrow>
          (case allowed_origins hs of
             Inl e \<Rightarrow> Inl (Unhandled e)
           | Inr origins \<Rightarrow>
               if (case origin of None \<Rightarrow> False | Some s \<Rightarrow> s \<in> set origins) then Inr () else Inl OriginNotAllowedError))"

definition nonempty :: "string option \<Rightarrow> string option" where
  "nonempty s = (if s = Some [] then None else s)"

definition get_current_session ::
    "http_settings \<Rightarrow> auth_service \<Rightarrow> env \<Rightarrow> http_request \<Rightarrow> db \<Rightarrow> http_error + session_principal" where
  "get_current_session hs svc env rq db =
     (case nonempty (rq_cookies rq (session_cookie_name hs)) of
        None \<Rightarrow> Inl (AuthErr AuthenticationRequired)
      | Some token \<Rightarrow>
          (case resolve svc env token db of Inl e \<Rightarrow> Inl (AuthErr e) | Inr p \<Rightarrow> Inr p))"

text \<open>\<open>secrets.compare_digest\<close> refuses text outside ASCII with a \<open>TypeError\<close>.\<close>

definition check_csrf :: "http_settings \<Rightarrow> auth_service \<Rightarrow> http_request \<Rightarrow> session_principal \<Rightarrow> http_error + unit" where
  "check_csrf hs svc rq p =
     (case (nonempty (rq_csrf_token rq), nonempty (rq_cookies rq (csrf_cookie_name hs))) of
        (Some header, Some token) \<Rightarrow>
          if \<not> is_ascii header \<or> \<not> is_ascii token then Inl (Unhandled (TypeErr ''compare_digest''))
          else if header \<noteq> token then Inl (AuthErr CsrfValidation)
          else (case require_csrf svc p header of Inl e \<Rightarrow> Inl (AuthErr e) | Inr _ \<Rightarrow> Inr ())
      | _ \<Rightarrow> Inl (AuthErr CsrfValidation))"

definition get_unsafe_session ::
    "http_settings \<Rightarrow> auth_service \<Rightarrow> env \<Rightarrow> http_request \<Rightarrow> db \<Rightarrow> http_error + session_principal" where
  "get_unsafe_session hs svc env rq db =
     (case get_current_session hs svc env rq db of
        Inl e \<Rightarrow> Inl e
      | Inr p \<Rightarrow>
          (case require_allowed_origin hs rq of
             Inl e \<Rightarrow> Inl e
           | Inr _ \<Rightarrow> (case check_csrf hs svc rq p of Inl e \<Rightarrow> Inl e | Inr _ \<Rightarrow> Inr p)))"

section \<open>Answers\<close>

text \<open>A cookie of the answer; without a value it is deleted. All have the path \<open>/\<close> and \<open>SameSite=Strict\<close>.\<close>

record cookie =
  ck_name :: string
  ck_value :: "string option"
  ck_max_age :: int
  ck_httponly :: bool
  ck_secure :: bool

definition set_session_cookies :: "http_settings \<Rightarrow> auth_service \<Rightarrow> issued_session \<Rightarrow> cookie list" where
  "set_session_cookies hs svc issued =
     [\<lparr>ck_name = session_cookie_name hs, ck_value = Some (is_session_token issued),
       ck_max_age = set_session_ttl_seconds (as_cfg svc), ck_httponly = True, ck_secure = cookies_secure hs\<rparr>,
      \<lparr>ck_name = csrf_cookie_name hs, ck_value = Some (is_csrf_token issued),
       ck_max_age = set_session_ttl_seconds (as_cfg svc), ck_httponly = False, ck_secure = cookies_secure hs\<rparr>]"

definition set_challenge_cookie :: "http_settings \<Rightarrow> issued_challenge \<Rightarrow> cookie list" where
  "set_challenge_cookie hs challenge =
     [\<lparr>ck_name = auth_challenge_cookie_name hs, ck_value = Some (ic_challenge_token challenge), ck_max_age = 300,
       ck_httponly = True, ck_secure = cookies_secure hs\<rparr>]"

definition delete_cookie :: "http_settings \<Rightarrow> string \<Rightarrow> bool \<Rightarrow> cookie" where
  "delete_cookie hs name httponly =
     \<lparr>ck_name = name, ck_value = None, ck_max_age = 0, ck_httponly = httponly, ck_secure = cookies_secure hs\<rparr>"

definition clear_challenge_cookie :: "http_settings \<Rightarrow> cookie list" where
  "clear_challenge_cookie hs = [delete_cookie hs (auth_challenge_cookie_name hs) True]"

datatype http_body =
    Session_Response session_principal
  | Challenge_Response issued_challenge
  | Mfa_Response session_principal "string list"
  | Security_Response security_status
  | Codes_Response "string list"
  | Users_Response "user_row list"
  | User_Response user_row
  | Created_Response created_user
  | No_Content

type_synonym http_answer = "http_body \<times> cookie list"

text \<open>The session token of an answer is in its cookie only.\<close>

definition auth_result_answer :: "http_settings \<Rightarrow> auth_service \<Rightarrow> auth_result \<Rightarrow> http_answer" where
  "auth_result_answer hs svc result =
     (case result of
        Session_Issued issued \<Rightarrow>
          (Session_Response (is_principal issued), set_session_cookies hs svc issued @ clear_challenge_cookie hs)
      | Challenge_Issued challenge \<Rightarrow> (Challenge_Response challenge, set_challenge_cookie hs challenge))"

definition respond :: "('a \<Rightarrow> http_answer) \<Rightarrow> (auth_error + 'a) \<times> db \<Rightarrow> (http_error + http_answer) \<times> db" where
  "respond answer result =
     (case result of (Inl e, db) \<Rightarrow> (Inl (AuthErr e), db) | (Inr a, db) \<Rightarrow> (Inr (answer a), db))"

type_synonym http_handler = "db \<Rightarrow> (http_error + http_answer) \<times> db"

definition with_origin :: "http_settings \<Rightarrow> http_request \<Rightarrow> bool \<Rightarrow> http_handler \<Rightarrow> http_handler" where
  "with_origin hs rq body_ok handler db =
     (case require_allowed_origin hs rq of
        Inl e \<Rightarrow> (Inl e, db)
      | Inr _ \<Rightarrow> if body_ok then handler db else (Inl RequestValidationError, db))"

definition with_session ::
    "http_settings \<Rightarrow> auth_service \<Rightarrow> env \<Rightarrow> http_request \<Rightarrow> (session_principal \<Rightarrow> http_handler) \<Rightarrow> http_handler" where
  "with_session hs svc env rq handler db =
     (case get_current_session hs svc env rq db of Inl e \<Rightarrow> (Inl e, db) | Inr p \<Rightarrow> handler p db)"

definition with_unsafe_session ::
    "http_settings \<Rightarrow> auth_service \<Rightarrow> env \<Rightarrow> http_request \<Rightarrow> bool \<Rightarrow> (session_principal \<Rightarrow> http_handler) \<Rightarrow> http_handler" where
  "with_unsafe_session hs svc env rq body_ok handler db =
     (case get_unsafe_session hs svc env rq db of
        Inl e \<Rightarrow> (Inl e, db)
      | Inr p \<Rightarrow> if body_ok then handler p db else (Inl RequestValidationError, db))"

section \<open>Routes\<close>

definition bounded :: "nat \<Rightarrow> nat \<Rightarrow> string \<Rightarrow> bool" where
  "bounded lo hi s \<longleftrightarrow> lo \<le> length s \<and> length s \<le> hi"

definition bounded_option :: "nat \<Rightarrow> nat \<Rightarrow> string option \<Rightarrow> bool" where
  "bounded_option lo hi s \<longleftrightarrow> (case s of None \<Rightarrow> True | Some t \<Rightarrow> bounded lo hi t)"

definition login_request_ok :: "string \<Rightarrow> string \<Rightarrow> bool" where
  "login_request_ok username password \<longleftrightarrow> bounded 1 64 username \<and> bounded 1 200 password \<and> py_strip username \<noteq> []"

definition client_key :: "http_request \<Rightarrow> string" where
  "client_key rq = (case rq_client rq of None \<Rightarrow> ''unknown-client'' | Some host \<Rightarrow> host)"

definition login_route ::
    "http_settings \<Rightarrow> auth_service \<Rightarrow> env \<Rightarrow> auth_fresh \<Rightarrow> http_request \<Rightarrow> string \<Rightarrow> string \<Rightarrow> http_handler" where
  "login_route hs svc env fresh rq username password =
     with_origin hs rq (login_request_ok username password)
       (\<lambda>db. respond (auth_result_answer hs svc) (login svc env fresh (py_strip username) password (client_key rq) db))"

definition activate_route ::
    "http_settings \<Rightarrow> auth_service \<Rightarrow> env \<Rightarrow> auth_fresh \<Rightarrow> http_request \<Rightarrow> string \<Rightarrow> string \<Rightarrow> http_handler" where
  "activate_route hs svc env fresh rq activation_code password =
     with_origin hs rq (bounded 32 256 activation_code \<and> bounded 12 200 password)
       (\<lambda>db. respond (auth_result_answer hs svc) (auth_activate svc env fresh activation_code password db))"

definition complete_mfa_route ::
    "http_settings \<Rightarrow> auth_service \<Rightarrow> env \<Rightarrow> auth_fresh \<Rightarrow> http_request \<Rightarrow> string \<Rightarrow> challenge_purpose \<Rightarrow> http_handler" where
  "complete_mfa_route hs svc env fresh rq mfa_value purpose =
     with_origin hs rq (bounded 6 64 mfa_value)
       (\<lambda>db. case nonempty (rq_cookies rq (auth_challenge_cookie_name hs)) of
          None \<Rightarrow> (Inl (AuthErr InvalidChallenge), db)
        | Some token \<Rightarrow>
            respond (\<lambda>completed.
                (Mfa_Response (is_principal (cm_issued completed)) (cm_recovery_codes completed),
                 set_session_cookies hs svc (cm_issued completed) @ clear_challenge_cookie hs))
              (complete_mfa svc env fresh token mfa_value (Some purpose) db))"

definition verify_mfa_route ::
    "http_settings \<Rightarrow> auth_service \<Rightarrow> env \<Rightarrow> auth_fresh \<Rightarrow> http_request \<Rightarrow> string \<Rightarrow> http_handler" where
  "verify_mfa_route hs svc env fresh rq mfa_value = complete_mfa_route hs svc env fresh rq mfa_value LOGIN_MFA"

definition confirm_mfa_enrollment_route ::
    "http_settings \<Rightarrow> auth_service \<Rightarrow> env \<Rightarrow> auth_fresh \<Rightarrow> http_request \<Rightarrow> string \<Rightarrow> http_handler" where
  "confirm_mfa_enrollment_route hs svc env fresh rq mfa_value =
     complete_mfa_route hs svc env fresh rq mfa_value MFA_ENROLLMENT"

definition begin_mfa_enrollment_route ::
    "http_settings \<Rightarrow> auth_service \<Rightarrow> env \<Rightarrow> auth_fresh \<Rightarrow> http_request \<Rightarrow> http_handler" where
  "begin_mfa_enrollment_route hs svc env fresh rq =
     with_unsafe_session hs svc env rq True (\<lambda>p db.
       respond (\<lambda>challenge. (Challenge_Response challenge, set_challenge_cookie hs challenge))
         (begin_mfa_enrollment svc env fresh p db))"

definition reauthenticate_route ::
    "http_settings \<Rightarrow> auth_service \<Rightarrow> env \<Rightarrow> http_request \<Rightarrow> string \<Rightarrow> string option \<Rightarrow> http_handler" where
  "reauthenticate_route hs svc env rq password mfa_value =
     with_unsafe_session hs svc env rq (bounded 1 200 password \<and> bounded_option 6 64 mfa_value) (\<lambda>p db.
       respond (\<lambda>elevated. (Session_Response elevated, [])) (reauthenticate svc env p password mfa_value db))"

definition session_route :: "http_settings \<Rightarrow> auth_service \<Rightarrow> env \<Rightarrow> http_request \<Rightarrow> http_handler" where
  "session_route hs svc env rq = with_session hs svc env rq (\<lambda>p db. (Inr (Session_Response p, []), db))"

definition security_status_route :: "http_settings \<Rightarrow> auth_service \<Rightarrow> env \<Rightarrow> http_request \<Rightarrow> http_handler" where
  "security_status_route hs svc env rq =
     with_session hs svc env rq (\<lambda>p db. (Inr (Security_Response (security_status_of svc p db), []), db))"

definition regenerate_recovery_codes_route ::
    "http_settings \<Rightarrow> auth_service \<Rightarrow> env \<Rightarrow> auth_fresh \<Rightarrow> http_request \<Rightarrow> http_handler" where
  "regenerate_recovery_codes_route hs svc env fresh rq =
     with_unsafe_session hs svc env rq True (\<lambda>p db.
       respond (\<lambda>codes. (Codes_Response codes, [])) (regenerate_recovery_codes svc env fresh p db))"

definition change_own_password_route ::
    "http_settings \<Rightarrow> auth_service \<Rightarrow> env \<Rightarrow> http_request \<Rightarrow> string \<Rightarrow> string \<Rightarrow> string option \<Rightarrow> http_handler" where
  "change_own_password_route hs svc env rq current_password new_password mfa_value =
     with_unsafe_session hs svc env rq
       (bounded 1 200 current_password \<and> bounded 12 200 new_password \<and> bounded_option 6 64 mfa_value) (\<lambda>p db.
       respond (\<lambda>_. (No_Content, [delete_cookie hs (session_cookie_name hs) True, delete_cookie hs (csrf_cookie_name hs) False]))
         (change_password svc env p current_password new_password mfa_value db))"

definition logout_route :: "http_settings \<Rightarrow> auth_service \<Rightarrow> env \<Rightarrow> http_request \<Rightarrow> http_handler" where
  "logout_route hs svc env rq =
     with_unsafe_session hs svc env rq True (\<lambda>p db.
       respond (\<lambda>_. (No_Content, [delete_cookie hs (session_cookie_name hs) True, delete_cookie hs (csrf_cookie_name hs) False,
           delete_cookie hs (auth_challenge_cookie_name hs) True]))
         (logout svc env p db))"

definition list_users_route :: "http_settings \<Rightarrow> auth_service \<Rightarrow> env \<Rightarrow> http_request \<Rightarrow> http_handler" where
  "list_users_route hs svc env rq =
     with_session hs svc env rq (\<lambda>p db. respond (\<lambda>found. (Users_Response found, [])) (list_all_users p db))"

definition create_user_route ::
    "http_settings \<Rightarrow> auth_service \<Rightarrow> env \<Rightarrow> auth_fresh \<Rightarrow> http_request \<Rightarrow> string \<Rightarrow> user_role \<Rightarrow> http_handler" where
  "create_user_route hs svc env fresh rq username role =
     with_unsafe_session hs svc env rq (bounded 1 64 username) (\<lambda>p db.
       respond (\<lambda>created. (Created_Response created, [])) (create_user svc env fresh p username role db))"

definition update_user_route ::
    "http_settings \<Rightarrow> auth_service \<Rightarrow> env \<Rightarrow> http_request \<Rightarrow> uuid \<Rightarrow> user_role \<Rightarrow> user_status \<Rightarrow> nat \<Rightarrow> http_handler" where
  "update_user_route hs svc env rq user_id role status expected_version =
     with_unsafe_session hs svc env rq (1 \<le> expected_version) (\<lambda>p db.
       respond (\<lambda>user. (User_Response user, [])) (change_user svc env p user_id role status expected_version db))"

definition reissue_user_activation_route ::
    "http_settings \<Rightarrow> auth_service \<Rightarrow> env \<Rightarrow> auth_fresh \<Rightarrow> http_request \<Rightarrow> uuid \<Rightarrow> http_handler" where
  "reissue_user_activation_route hs svc env fresh rq user_id =
     with_unsafe_session hs svc env rq True (\<lambda>p db.
       respond (\<lambda>created. (Created_Response created, [])) (reissue_activation svc env fresh p user_id db))"

definition reset_user_mfa_route ::
    "http_settings \<Rightarrow> auth_service \<Rightarrow> env \<Rightarrow> http_request \<Rightarrow> uuid \<Rightarrow> http_handler" where
  "reset_user_mfa_route hs svc env rq user_id =
     with_unsafe_session hs svc env rq True (\<lambda>p db.
       respond (\<lambda>_. (No_Content, [])) (reset_user_mfa svc env p user_id db))"

text \<open>A request to one of the routes, with its decoded path and body.\<close>

datatype account_route =
    Login string string
  | Activate string string
  | Verify_Mfa string
  | Confirm_Mfa_Enrollment string
  | Begin_Mfa_Enrollment
  | Reauthenticate string "string option"
  | Get_Session
  | Get_Security_Status
  | Regenerate_Recovery_Codes
  | Change_Own_Password string string "string option"
  | Logout
  | List_Users
  | Create_User string user_role
  | Update_User uuid user_role user_status nat
  | Reissue_User_Activation uuid
  | Reset_User_Mfa uuid

fun account_request ::
    "http_settings \<Rightarrow> auth_service \<Rightarrow> env \<Rightarrow> auth_fresh \<Rightarrow> http_request \<Rightarrow> account_route \<Rightarrow> http_handler" where
  "account_request hs svc env fresh rq (Login username password) = login_route hs svc env fresh rq username password"
| "account_request hs svc env fresh rq (Activate code password) = activate_route hs svc env fresh rq code password"
| "account_request hs svc env fresh rq (Verify_Mfa v) = verify_mfa_route hs svc env fresh rq v"
| "account_request hs svc env fresh rq (Confirm_Mfa_Enrollment v) = confirm_mfa_enrollment_route hs svc env fresh rq v"
| "account_request hs svc env fresh rq Begin_Mfa_Enrollment = begin_mfa_enrollment_route hs svc env fresh rq"
| "account_request hs svc env fresh rq (Reauthenticate password v) = reauthenticate_route hs svc env rq password v"
| "account_request hs svc env fresh rq Get_Session = session_route hs svc env rq"
| "account_request hs svc env fresh rq Get_Security_Status = security_status_route hs svc env rq"
| "account_request hs svc env fresh rq Regenerate_Recovery_Codes = regenerate_recovery_codes_route hs svc env fresh rq"
| "account_request hs svc env fresh rq (Change_Own_Password old new v) = change_own_password_route hs svc env rq old new v"
| "account_request hs svc env fresh rq Logout = logout_route hs svc env rq"
| "account_request hs svc env fresh rq List_Users = list_users_route hs svc env rq"
| "account_request hs svc env fresh rq (Create_User username role) = create_user_route hs svc env fresh rq username role"
| "account_request hs svc env fresh rq (Update_User i role status v) = update_user_route hs svc env rq i role status v"
| "account_request hs svc env fresh rq (Reissue_User_Activation i) = reissue_user_activation_route hs svc env fresh rq i"
| "account_request hs svc env fresh rq (Reset_User_Mfa i) = reset_user_mfa_route hs svc env rq i"

end
