(* ===== verification/Http_Properties.thy ===== *)
theory Http_Properties
  imports Http_Auth Auth_Properties Auth_Queue
begin

text \<open>
  What reaches the accounts through HTTP: every request is at most one call of the authentication service, so the
  invariants of its executions hold for requests too, and a request that changes anything came from an allowed origin,
  beyond login with a live session and its CSRF token.
\<close>

section \<open>Origins\<close>

lemma check_origin_Inr:
  assumes "check_origin hs origin = Inr ()"
  obtains u where "url_split (hs_special_netloc hs) origin = Some u" "ur_scheme u \<in> {''http'', ''https''}"
    "url_hostname (ur_netloc u) \<noteq> []" "CHR ''@'' \<notin> set (ur_netloc u)" "ur_path u = []" "ur_query u = []" "ur_fragment u = []"
  using assms by (auto simp: check_origin_def split: option.splits if_splits)

lemma collect_origins_checked:
  "collect_origins hs parts = Inr origins \<Longrightarrow> origin \<in> set origins \<Longrightarrow> check_origin hs origin = Inr ()"
  by (induction parts arbitrary: origins) (auto simp: Let_def split: if_splits sum.splits unit.splits)

text \<open>A web origin: a scheme and a host of the web, without a user, a path or a query.\<close>

definition web_origin :: "http_settings \<Rightarrow> string \<Rightarrow> bool" where
  "web_origin hs origin \<longleftrightarrow> (\<exists>u. url_split (hs_special_netloc hs) origin = Some u \<and> ur_scheme u \<in> {''http'', ''https''} \<and>
     url_hostname (ur_netloc u) \<noteq> [] \<and> CHR ''@'' \<notin> set (ur_netloc u) \<and> ur_path u = [] \<and> ur_query u = [] \<and> ur_fragment u = [])"

lemma allowed_web_origin: "allowed_origins hs = Inr origins \<Longrightarrow> origin \<in> set origins \<Longrightarrow> web_origin hs origin"
  unfolding allowed_origins_def web_origin_def by (metis collect_origins_checked check_origin_Inr)

definition from_allowed_origin :: "http_settings \<Rightarrow> http_request \<Rightarrow> bool" where
  "from_allowed_origin hs rq \<longleftrightarrow> (\<exists>origin origins. source_origin hs rq = Inr (Some origin) \<and> allowed_origins hs = Inr origins \<and>
     origin \<in> set origins \<and> web_origin hs origin)"

lemma require_allowed_origin_Inr: "require_allowed_origin hs rq = Inr () \<Longrightarrow> from_allowed_origin hs rq"
  unfolding require_allowed_origin_def from_allowed_origin_def
  by (auto split: sum.splits option.splits if_splits dest: allowed_web_origin)

section \<open>Guards\<close>

definition has_csrf_token :: "http_settings \<Rightarrow> auth_service \<Rightarrow> http_request \<Rightarrow> session_principal \<Rightarrow> bool" where
  "has_csrf_token hs svc rq p \<longleftrightarrow> (\<exists>csrf. rq_csrf_token rq = Some csrf \<and> rq_cookies rq (csrf_cookie_name hs) = Some csrf \<and>
     csrf \<noteq> [] \<and> hash_token (as_hash svc) csrf = sp_csrf_hash p)"

lemma nonempty_Some [simp]: "nonempty s = Some t \<longleftrightarrow> s = Some t \<and> t \<noteq> []"
  by (auto simp: nonempty_def)

lemma check_csrf_Inr: "check_csrf hs svc rq p = Inr () \<Longrightarrow> has_csrf_token hs svc rq p"
  by (auto simp: check_csrf_def has_csrf_token_def require_csrf_def token_matches_def
      split: option.splits if_splits sum.splits)

lemma get_current_session_Inr:
  "get_current_session hs svc env rq db = Inr p \<Longrightarrow>
     \<exists>token. rq_cookies rq (session_cookie_name hs) = Some token \<and> resolve svc env token db = Inr p"
  by (auto simp: get_current_session_def split: option.splits sum.splits)

definition guarded_session :: "http_settings \<Rightarrow> auth_service \<Rightarrow> env \<Rightarrow> http_request \<Rightarrow> db \<Rightarrow> bool" where
  "guarded_session hs svc env rq db \<longleftrightarrow>
     (\<exists>token p. rq_cookies rq (session_cookie_name hs) = Some token \<and> resolve svc env token db = Inr p \<and> has_csrf_token hs svc rq p)"

lemma get_unsafe_session_Inr:
  assumes "get_unsafe_session hs svc env rq db = Inr p"
  shows "from_allowed_origin hs rq" "guarded_session hs svc env rq db"
    "get_current_session hs svc env rq db = Inr p"
proof -
  show session: "get_current_session hs svc env rq db = Inr p"
    using assms by (auto simp: get_unsafe_session_def split: sum.splits)
  have "require_allowed_origin hs rq = Inr ()" "check_csrf hs svc rq p = Inr ()"
    using assms session by (auto simp: get_unsafe_session_def split: sum.splits)
  then show "from_allowed_origin hs rq" "guarded_session hs svc env rq db"
    unfolding guarded_session_def using require_allowed_origin_Inr check_csrf_Inr get_current_session_Inr[OF session] by blast+
qed

lemma snd_respond [simp]: "snd (respond answer r) = snd r"
  by (simp add: respond_def split: prod.splits sum.splits)

lemma with_origin_changes: "snd (with_origin hs rq ok h db) \<noteq> db \<Longrightarrow> from_allowed_origin hs rq"
  by (auto simp: with_origin_def dest: require_allowed_origin_Inr split: sum.splits if_splits)

lemma with_unsafe_session_changes:
  "snd (with_unsafe_session hs svc env rq ok h db) \<noteq> db \<Longrightarrow> from_allowed_origin hs rq \<and> guarded_session hs svc env rq db"
  by (auto simp: with_unsafe_session_def dest: get_unsafe_session_Inr split: sum.splits if_splits)

lemma list_all_users_reads [simp]: "snd (list_all_users actor db) = db"
  by (simp add: list_all_users_def unit_of_work_def tx_then_def tx_bind_def tx_check_def tx_read_def split: sum.splits)

lemma with_session_reads: "(\<And>p. snd (h p db) = db) \<Longrightarrow> snd (with_session hs svc env rq h db) = db"
  by (simp add: with_session_def split: sum.splits)

definition public_route :: "account_route \<Rightarrow> bool" where
  "public_route r \<longleftrightarrow> (case r of Login _ _ \<Rightarrow> True | Activate _ _ \<Rightarrow> True | Verify_Mfa _ \<Rightarrow> True
     | Confirm_Mfa_Enrollment _ \<Rightarrow> True | _ \<Rightarrow> False)"

lemmas route_defs = login_route_def activate_route_def verify_mfa_route_def confirm_mfa_enrollment_route_def
  complete_mfa_route_def begin_mfa_enrollment_route_def reauthenticate_route_def regenerate_recovery_codes_route_def
  change_own_password_route_def logout_route_def create_user_route_def update_user_route_def
  reissue_user_activation_route_def reset_user_mfa_route_def

lemma session_routes_read:
  "snd (session_route hs svc env rq db) = db" "snd (security_status_route hs svc env rq db) = db"
  "snd (list_users_route hs svc env rq db) = db"
  unfolding session_route_def security_status_route_def list_users_route_def by (intro with_session_reads; simp)+

text \<open>C22: a request that changes anything comes from an allowed web origin and, unless it logs in or activates, carries the
  cookie of a live session and, in a header as well as a cookie, the CSRF token issued with that session.\<close>

theorem cross_site_request_changes_nothing:
  assumes "snd (account_request hs svc env fresh rq route db) \<noteq> db"
  shows "from_allowed_origin hs rq \<and> (public_route route \<or> guarded_session hs svc env rq db)"
  using assms
  by (cases route) (auto simp: route_defs session_routes_read public_route_def
      dest: with_origin_changes with_unsafe_session_changes)

section \<open>Requests are calls of the service\<close>

lemma session_user_exists: "get_current_session hs svc env rq db = Inr p \<Longrightarrow> get_user (sp_user_id p) db \<noteq> None"
proof -
  assume "get_current_session hs svc env rq db = Inr p"
  then obtain token where "resolve svc env token db = Inr p" using get_current_session_Inr by blast
  then obtain s u where "u \<in> set (users db)" "u_id u = s_user_id s" "p = principal_of db s u"
    using session_principal_where_SomeD
    by (fastforce simp: resolve_def resolve_session_def split: option.splits if_splits)
  then show ?thesis by (auto simp: get_user_def principal_of_def fetch_one_None_iff)
qed

lemma with_origin_call:
  "(snd (h db) = db \<or> auth_call t db (snd (h db))) \<Longrightarrow>
     snd (with_origin hs rq ok h db) = db \<or> auth_call t db (snd (with_origin hs rq ok h db))"
  by (cases "require_allowed_origin hs rq") (simp_all add: with_origin_def)

lemma with_unsafe_session_call:
  "(\<And>p. get_user (sp_user_id p) db \<noteq> None \<Longrightarrow> snd (h p db) = db \<or> auth_call t db (snd (h p db))) \<Longrightarrow>
     snd (with_unsafe_session hs svc env rq ok h db) = db \<or> auth_call t db (snd (with_unsafe_session hs svc env rq ok h db))"
proof -
  assume call: "\<And>p. get_user (sp_user_id p) db \<noteq> None \<Longrightarrow> snd (h p db) = db \<or> auth_call t db (snd (h p db))"
  show ?thesis
  proof (cases "get_unsafe_session hs svc env rq db")
    case (Inr p)
    then show ?thesis
      using call[OF session_user_exists[OF get_unsafe_session_Inr(3)[OF Inr]]] by (simp add: with_unsafe_session_def)
  qed (simp add: with_unsafe_session_def)
qed

lemma respond_call:
  "auth_call t db (snd r) \<Longrightarrow> snd (respond answer r) = db \<or> auth_call t db (snd (respond answer r))"
  by simp

lemma complete_mfa_route_call:
  "snd (complete_mfa_route hs svc env fresh rq v purpose db) = db \<or>
     auth_call (e_now env) db (snd (complete_mfa_route hs svc env fresh rq v purpose db))"
  unfolding complete_mfa_route_def
  by (rule with_origin_call)
    (auto simp del: nonempty_Some simp: auth_call.complete_mfa split: option.splits)

lemma account_request_call:
  "snd (account_request hs svc env fresh rq route db) = db \<or>
     auth_call (e_now env) db (snd (account_request hs svc env fresh rq route db))"
proof (cases route)
  case (Create_User name role)
  show ?thesis
    unfolding Create_User account_request.simps create_user_route_def
    by (intro with_unsafe_session_call respond_call auth_call.create_user)
qed (simp_all only: account_request.simps session_routes_read simp_thms verify_mfa_route_def confirm_mfa_enrollment_route_def
    complete_mfa_route_call login_route_def activate_route_def begin_mfa_enrollment_route_def reauthenticate_route_def
    regenerate_recovery_codes_route_def change_own_password_route_def logout_route_def update_user_route_def
    reissue_user_activation_route_def reset_user_mfa_route_def,
  (intro with_origin_call with_unsafe_session_call respond_call auth_call.intros)+)

text \<open>So requests keep the accounts consistent and an active owner, and never touch the queue.\<close>

lemma account_request_inv: "auth_inv db \<Longrightarrow> auth_inv (snd (account_request hs svc env fresh rq route db))"
  using account_request_call auth_call_inv by metis

lemma account_request_queue: "same_run_tables db (snd (account_request hs svc env fresh rq route db))"
  using account_request_call auth_call_queue by (metis same_run_tables_refl)

section \<open>Witness\<close>

text \<open>A browser on the configured site sends back the cookies that the sample login set, and logs out.\<close>

definition demo_http :: http_settings where
  "demo_http = \<lparr>hs_special_netloc = (\<lambda>_. False), hs_production = True,
     hs_allowed_origins_csv = ''https://ops.example:8443/, http://localhost:5173'', hs_session_cookie_secure = None\<rparr>"

definition demo_request :: http_request where
  "demo_request = \<lparr>rq_origin = None, rq_referer = Some ''HTTPS://ops.example:8443/runs?page=2'', rq_csrf_token = Some ''c1'',
     rq_cookies = [''__Host-ops-composer-session'' \<mapsto> ''s1'', ''__Host-ops-composer-csrf'' \<mapsto> ''c1''],
     rq_client = Some ''ip''\<rparr>"

lemma demo_logout_changes:
  "snd (account_request demo_http (sample_auth False) (auth_env (seconds 9)) (sample_auth_fresh 2) demo_request Logout
     (snd sample_logged_in)) \<noteq> snd sample_logged_in"
proof -
  have "sessions (snd (account_request demo_http (sample_auth False) (auth_env (seconds 9)) (sample_auth_fresh 2) demo_request
      Logout (snd sample_logged_in))) = []" "sessions (snd sample_logged_in) \<noteq> []"
    by code_simp+
  then show ?thesis by auto
qed

theorem cross_site_request_changes_nothing_witness:
  "from_allowed_origin demo_http demo_request \<and>
   guarded_session demo_http (sample_auth False) (auth_env (seconds 9)) demo_request (snd sample_logged_in)"
  using cross_site_request_changes_nothing[OF demo_logout_changes] by (simp add: public_route_def)

text \<open>The same request from another site is refused, and one whose referer is no URL raises instead.\<close>

lemma foreign_request_refused:
  "fst (account_request demo_http (sample_auth False) (auth_env (seconds 9)) (sample_auth_fresh 2)
     (demo_request\<lparr>rq_origin := Some ''https://evil.example''\<rparr>) Logout (snd sample_logged_in)) = Inl OriginNotAllowedError"
  by code_simp

lemma malformed_referer_raises:
  "fst (account_request demo_http (sample_auth False) (auth_env (seconds 9)) (sample_auth_fresh 2)
     (demo_request\<lparr>rq_referer := Some ''http://[''\<rparr>) Logout (snd sample_logged_in)) = Inl (Unhandled (ValueErr ''Invalid URL''))"
  by code_simp

end
