(* ===== verification/Spec2Isabelle.thy ===== *)
theory Spec2Isabelle
  imports Claim_Properties Lifecycle_Properties Session_Properties Inventory Migration_Engine Mfa_Properties
    System_Queue Worker_Results Audit_Trail_Properties Http_Properties
begin

text \<open>
  Ops Composer runs Ansible commands and playbooks on hosts through a queue in PostgreSQL: an API stores requests,
  worker processes claim them, lock their hosts, run Ansible and record events, and browsers open terminals (Web Shell)
  on hosts that no run holds. This library models the Python package \<open>src/backend/src/ops_composer\<close> and
  proves what makes its services correct, alone and interleaved. This theory puts the parts together.

  How the code is modelled. The state is the record \<open>db\<close> of \<open>Database\<close>, one list of rows per table. A repository method
  is a function on it, with the unique, primary and foreign keys that can make its statement fail (\<open>Host_Lock\<close>,
  \<open>Run_Repository\<close>, \<open>Assets\<close>, \<open>Asset_Repository\<close>, \<open>Auth_Repository\<close>, \<open>Playbook_Repository\<close>, \<open>Playbook_Store\<close>,
  the first part of \<open>Key_Rotation\<close>, and the first part of \<open>Web_Shell\<close> for \<open>repositories/*.py\<close> and \<open>auth/repository.py\<close>).
  A service method is one or more transactions on it: \<open>unit_of_work\<close> (\<open>Prelude\<close>, \<open>Transaction\<close>) is \<open>uow/unit.py\<close>, which
  commits or rolls back, and an exception is the left case of a sum over \<open>ops_error\<close> (\<open>Domain\<close>). Calls of a service are
  rules of a step relation; its invariants and histories are stated once for all executions by the
  locales of \<open>Executions\<close>, interpreted on the queue, its timed version, accounts, assets, playbooks and, below, on the whole.

  The parts and what is shown of them.
  \<^item> Queue, leases, locks: \<open>Run_Repository\<close>, \<open>Run_Service\<close>, \<open>Worker_Coordinator\<close> (\<open>repositories/runs.py\<close>,
    \<open>services/runs.py\<close>). \<open>Run_Invariant\<close>, \<open>Run_History\<close>, \<open>Service_Steps\<close> and \<open>Run_Machine\<close> show the invariant, that
    history only grows and that leases renewed in time keep runs on disjoint hosts; \<open>Run_Properties\<close>, \<open>Claim_Properties\<close>,
    \<open>Request_Properties\<close> and \<open>Lifecycle_Properties\<close> give claims, finishing, recovery, idempotent requests, one-time
    secrets, retries and cancellations, and the refinement of the abstract life cycle of a run.
  \<^item> The worker process: \<open>Worker_Runtime\<close> and \<open>Worker_Execution\<close> are \<open>worker.py\<close>: preparing inventory, known hosts and
    playbook, running Ansible, recording events, settling targets, and an iteration of the loop. \<open>Worker_Properties\<close>,
    \<open>Worker_Run\<close> and \<open>Worker_Results\<close> show that all of it is an execution of the queue's machine, that a claimed run
    ends, how failed preparations are reported, that output is a bounded prefix, and that no text
    of an event but an object key holds a secret.
  \<^item> Terminals: \<open>Web_Shell\<close> (\<open>repositories/web_shell.py\<close>, \<open>services/web_shell.py\<close>), with \<open>Session_Invariant\<close> and
    \<open>Session_Properties\<close>: admission within the limit, tickets for one use, exclusive hosts.
  \<^item> Accounts: \<open>Auth_Model\<close>, \<open>Auth_Security\<close>, \<open>Auth_Service\<close> (\<open>auth/*.py\<close>), with \<open>Auth_Invariant\<close>, \<open>Auth_Properties\<close>,
    \<open>Mfa_Properties\<close> and \<open>Auth_Queue\<close>: an active owner, sessions only by policy, codes that work once, bounded guessing.
    \<open>Http_Auth\<close> and \<open>Http_Properties\<close> put the routes of \<open>auth/api.py\<close> before them: a request is at most one call of the
    service, and changes nothing unless it comes from an allowed origin and, beyond login, carries session and CSRF token.
  \<^item> Assets and credentials: \<open>Asset_Validation\<close>, \<open>Credential_Service\<close>, \<open>Asset_Service\<close> (\<open>services/assets.py\<close>), with
    \<open>Asset_Invariant\<close>, \<open>Secret_Payloads\<close> and \<open>Asset_Properties\<close>: a consistent inventory, secrets that come back, versions
    that guard updates, host keys only as scanned. \<open>Inventory\<close> is \<open>services/inventory.py\<close>.
  \<^item> Encryption: \<open>Crypto\<close> (\<open>services/crypto.py\<close>) and \<open>Key_Rotation\<close> (\<open>services/encryption.py\<close>,
    \<open>repositories/encryption.py\<close>), with \<open>Rotation_Properties\<close>: envelopes open in their context only, a batch of
    a rotation changes no secret, and a rotation ends.
  \<^item> Playbooks: \<open>Playbook_Project\<close>, \<open>Playbook_Parameters\<close> (\<open>services/playbook_project.py\<close>) and \<open>Playbook_Service\<close>
    (\<open>services/playbooks.py\<close>), with \<open>Playbook_Properties\<close> and \<open>Playbook_History\<close>: normal paths, ZIP round trips, validated
    parameters, an append-only history without lost updates, failed saves without effect, restores that bring files
    back with the digest of what is stored.
  \<^item> The audit trail by itself: \<open>Audit_Trail\<close> (\<open>repositories/audit.py\<close>, \<open>api/audit.py\<close>, the retention in \<open>worker.py\<close> and
    \<open>cli.py\<close>), with \<open>Audit_Trail_Properties\<close>: an export misses no kept event while others append and purge, and the
    retention ends and deletes expired events only. Its rows carry the identity column that \<open>db\<close> leaves out.
  \<^item> Schema: \<open>Migration_Engine\<close> (\<open>db/migration_engine.py\<close>): an order exactly for acyclic graphs, and an idempotent upgrade.
  \<^item> \<open>Py_Text\<close>, \<open>Json\<close> and \<open>Audit_Log\<close> are the Python text and JSON functions and the audit rows the services use.
    \<open>System_Queue\<close> and this theory show that the queue is undisturbed by all other services.

  Arguments instead of definitions. Code outside the package is a field of a service record or an argument: AES-GCM
  (with \<open>gcm_ok\<close>: decrypting what was encrypted gives it back), hash functions, Argon2, UTF-8 and JSON decoding, the YAML
  parser, \<open>ansible-playbook\<close>, \<open>ssh-keyscan\<close>, the parser of private keys, the ZIP reader, \<open>difflib\<close>, the shortest text of a
  \<open>float\<close>. So are random bytes, fresh identifiers and the clock, which is read once per call. Concurrency is explicit: the
  statements of other transactions between two statements of a claim (\<open>others\<close>), rows they hold locked, and transactions of
  other processes between the steps of a run (\<open>Elsewhere\<close>).

  Bounds. Integers are Python's or PostgreSQL's far below their limits and are \<open>int\<close> or \<open>nat\<close>; ZIP attributes are words. The depth-first search of \<open>ordered_migrations\<close> takes the recursion limit as fuel, and one more
  frame than there are migrations is enough. An export needs at most one page, and a purge at most one batch, more than
  there are rows. All other recursion is on lists or numbers.

  Not modelled: the other HTTP routes (\<open>api\<close>) and commands of \<open>cli.py\<close>, \<open>main.py\<close>, the reading of settings, logging and the metadata of audit
  events, which decode, call the operations above and encode; the terminal transport (\<open>web_shell_manager.py\<close>,
  \<open>ssh_terminal.py\<close>, \<open>ssh_agent.py\<close>), pool and query helpers and the runtime directory, which are input and output; probes
  (\<open>services/health.py\<close>, \<open>services/system.py\<close>); migrations' SQL texts, except the
  constraints named above; the linters under \<open>src/harness\<close> and the frontend. Text is ASCII, so lengths in characters and
  bytes agree. CHECK constraints that compare time stamps of one row hold when the clock does not go back and are left out.
\<close>

section \<open>The queue beside everything else\<close>

text \<open>
  The system interleaves the services of the queue, workers and terminals with the calls of the
  authentication, asset, playbook and encryption services on one database.
\<close>

inductive system_step :: "step_label \<Rightarrow> db \<Rightarrow> db \<Rightarrow> bool" where
  on_queue: "run_step l db db' \<Longrightarrow> system_step l db db'"
| on_accounts: "auth_call now db db' \<Longrightarrow> system_step (now, None) db db'"
| on_assets: "asset_call now db db' \<Longrightarrow> system_step (now, None) db db'"
| on_playbooks: "playbook_call sha now db db' \<Longrightarrow> system_step (now, None) db db'"
| on_keys: "rotation_call now db db' \<Longrightarrow> system_step (now, None) db db'"

inductive_simps system_step_iff: "system_step l db db'"

lemma system_step_run: "system_step l db db' \<Longrightarrow> run_inv db \<Longrightarrow> run_step l db db'"
  using run_step.other auth_call_queue asset_call_queue playbook_call_queue rotation_call_queue
  unfolding system_step_iff by blast

interpretation whole: monotone_system system_step run_inv history_kept
  by unfold_locales
    (auto dest!: system_step_run dest: queue.step_ok queue.step_below intro: history_kept_refl history_kept_trans)

text \<open>
  C29: Logins, account changes, second factors, asset and playbook changes and key rotation never disturb the
  queue: in every interleaving of all services the invariant of the queue is kept, its history only grows,
  and a single operation of another service changes none of its tables, although deleting a host deletes its locks.
\<close>

theorem accounts_never_disturb_queue:
  assumes "exec system_step db ls db'" and "run_inv db"
  shows "run_inv db' \<and> history_kept db db' \<and>
    (\<forall>now d. auth_call now db' d \<or> asset_call now db' d \<or> playbook_call sha now db' d \<or> rotation_call now db' d \<longrightarrow> same_run_tables db' d)"
proof -
  have "run_inv db'" by (rule whole.exec_ok [OF assms])
  then show ?thesis using whole.exec_below [OF assms] auth_call_queue asset_call_queue playbook_call_queue rotation_call_queue by blast
qed

theorem accounts_never_disturb_queue_witness:
  "run_inv (snd (bootstrap (sample_auth True) (auth_env 0) (sample_auth_fresh 0) ''ann'' ''correct horse'' sample_claimed))"
proof -
  let ?b = "snd (bootstrap (sample_auth True) (auth_env 0) (sample_auth_fresh 0) ''ann'' ''correct horse'' sample_claimed)"
  have "auth_call (e_now (auth_env 0)) sample_claimed ?b" by (rule auth_call.bootstrap)
  then have "exec system_step sample_claimed [(0, None)] ?b"
    by (auto simp: exec_iff auth_env_def intro: system_step.on_accounts)
  from accounts_never_disturb_queue [OF this sample_claimed_inv] show ?thesis by simp
qed

end
